(* ===== verification/Prelude.thy ===== *)
theory Prelude imports Main "HOL-Library.Sublist" begin

text \<open>
  Shared vocabulary of the development: the collections of rules the component theories extend,
  and the generic facts on lists and association lists they share. Nothing here models code.

  Conventions: a Go \<^verbatim>\<open>string\<close> or \<^verbatim>\<open>[]byte\<close> is a HOL \<open>string\<close>, one \<open>char\<close> per byte;
  a Go map that is only looked up is an association list in which, as in Go, a later
  entry for a key replaces an earlier one; a UUID is the number its 16 bytes denote, and the nil
  UUID is 0; a time is an integer number of microseconds.
\<close>

named_theorems io_ok \<open>inversion of successful runs of database operations\<close>

named_theorems keeps_intros \<open>an operation keeps an invariant of the stored state\<close>

named_theorems err_defs \<open>the canonical error values\<close>

type_synonym uuid = nat

type_synonym time = int

section \<open>Association lists with last-write-wins lookup\<close>

definition alookup :: "'k \<Rightarrow> ('k \<times> 'v) list \<Rightarrow> 'v option" where
  "alookup k kvs = map_of (rev kvs) k"

lemma alookup_Nil [simp]: "alookup k [] = None"
  by (simp add: alookup_def)

lemma alookup_snoc [simp]:
  "alookup k (kvs @ [(k', v)]) = (if k = k' then Some v else alookup k kvs)"
  by (simp add: alookup_def)

lemma alookup_append:
  "alookup k (xs @ ys) = (case alookup k ys of None \<Rightarrow> alookup k xs | Some v \<Rightarrow> Some v)"
  by (auto simp: alookup_def map_add_def split: option.splits)

lemma alookup_single [simp]: "alookup k [(k', v)] = (if k = k' then Some v else None)"
  by (simp add: alookup_def)

lemma alookup_Some_mem: "alookup k kvs = Some v \<Longrightarrow> (k, v) \<in> set kvs"
  unfolding alookup_def by (metis map_of_SomeD set_rev)

section \<open>Lists\<close>

lemma size_list_mem: "x \<in> set xs \<Longrightarrow> f x < size_list f xs"
  by (induction xs) auto

lemma filter_eq_empty_iff: "filter P xs = [] \<longleftrightarrow> (\<forall>x \<in> set xs. \<not> P x)"
  by (simp add: filter_empty_conv)

lemma takeWhile_dropWhile_id_all: "\<forall>x \<in> set xs. P x \<Longrightarrow> takeWhile P xs = xs"
  by simp

text \<open>The position of the first element that satisfies a predicate.\<close>

fun first_index :: "('a \<Rightarrow> bool) \<Rightarrow> 'a list \<Rightarrow> nat option" where
  "first_index P [] = None"
| "first_index P (x # xs) = (if P x then Some 0 else map_option Suc (first_index P xs))"

lemma first_index_None [simp]: "first_index P xs = None \<longleftrightarrow> (\<forall>x \<in> set xs. \<not> P x)"
  by (induction xs) auto

lemma first_index_Some:
  "first_index P xs = Some i \<longleftrightarrow> i < length xs \<and> P (xs ! i) \<and> (\<forall>j < i. \<not> P (xs ! j))"
proof (induction xs arbitrary: i)
  case Nil
  then show ?case by simp
next
  case (Cons x xs)
  then show ?case by (cases i) (auto simp: less_Suc_eq_0_disj)
qed

lemma first_index_append_no:
  "\<forall>x \<in> set xs. \<not> P x \<Longrightarrow>
   first_index P (xs @ ys) = map_option (\<lambda>i. length xs + i) (first_index P ys)"
  by (induction xs) (auto simp: option.map_comp comp_def option.map_ident split: option.splits
      intro!: option.expand)

end
