(* ===== verification/GoStrings.thy ===== *)
theory GoStrings imports Prelude begin

text \<open>
  The part of Go's standard library packages \<^verbatim>\<open>strings\<close> and \<^verbatim>\<open>bytes\<close> the server uses,
  as functions on byte lists, with the facts the components need (splitting at a separator and
  joining again, the position of a byte, trimming). A string literal is a byte list, and a
  non-ASCII character is the bytes of its UTF-8 encoding, as in Go.
\<close>

section \<open>Searching for one byte\<close>

definition index_byte :: "string \<Rightarrow> char \<Rightarrow> nat option" where
  "index_byte s c = first_index (\<lambda>x. x = c) s"

definition last_index_byte :: "string \<Rightarrow> char \<Rightarrow> nat option" where
  "last_index_byte s c = map_option (\<lambda>i. length s - Suc i) (first_index (\<lambda>x. x = c) (rev s))"

lemma index_byte_None [simp]: "index_byte s c = None \<longleftrightarrow> c \<notin> set s"
  by (auto simp: index_byte_def)

lemma index_byte_append [simp]: "c \<notin> set xs \<Longrightarrow> index_byte (xs @ c # ys) c = Some (length xs)"
  unfolding index_byte_def by (subst first_index_append_no) auto

lemma index_byte_Some_split:
  assumes "index_byte s c = Some i"
  shows "s = take i s @ c # drop (Suc i) s" and "c \<notin> set (take i s)" and "i < length s"
proof -
  from assms have i: "i < length s" "s ! i = c" "\<forall>j < i. s ! j \<noteq> c"
    by (auto simp: index_byte_def first_index_Some)
  then show "s = take i s @ c # drop (Suc i) s" by (metis id_take_nth_drop)
  from i show "c \<notin> set (take i s)" by (auto simp: in_set_conv_nth)
  from i show "i < length s" by simp
qed

lemma last_index_byte_None [simp]: "last_index_byte s c = None \<longleftrightarrow> c \<notin> set s"
  by (auto simp: last_index_byte_def)

lemma last_index_byte_append [simp]:
  "c \<notin> set ys \<Longrightarrow> last_index_byte (xs @ c # ys) c = Some (length xs)"
proof -
  assume "c \<notin> set ys"
  then have "first_index (\<lambda>x. x = c) (rev ys @ c # rev xs) = Some (length ys)"
    by (subst first_index_append_no) auto
  then show ?thesis by (simp add: last_index_byte_def)
qed

lemma last_index_byte_Some_split:
  assumes "last_index_byte s c = Some i"
  shows "s = take i s @ c # drop (Suc i) s" and "c \<notin> set (drop (Suc i) s)" and "i < length s"
proof -
  from assms obtain j where j: "first_index (\<lambda>x. x = c) (rev s) = Some j" "i = length s - Suc j"
    by (auto simp: last_index_byte_def)
  then have jl: "j < length s" and jc: "rev s ! j = c" and jn: "\<forall>k < j. rev s ! k \<noteq> c"
    by (auto simp: first_index_Some)
  with j have i: "i < length s" "s ! i = c" by (auto simp: rev_nth)
  then show "s = take i s @ c # drop (Suc i) s" by (metis id_take_nth_drop)
  show "c \<notin> set (drop (Suc i) s)"
  proof
    assume "c \<in> set (drop (Suc i) s)"
    then obtain k where k: "k < length s - Suc i" "s ! (Suc i + k) = c"
      by (auto simp: in_set_conv_nth)
    then have "rev s ! (length s - Suc (Suc i + k)) = c"
      by (subst rev_nth) (auto simp: Suc_diff_Suc)
    moreover have "length s - Suc (Suc i + k) < j" using k j jl by auto
    ultimately show False using jn by auto
  qed
  from i show "i < length s" by simp
qed

lemma no_index [simp]:
  "c \<notin> set s \<Longrightarrow> index_byte s c = None" "c \<notin> set s \<Longrightarrow> last_index_byte s c = None"
  by simp_all

lemma first_split_unique:
  fixes c :: char
  assumes "x @ c # y = x' @ c # y'" and "c \<notin> set x" and "c \<notin> set x'"
  shows "x = x' \<and> y = y'"
proof -
  have "length x = length x'" using arg_cong [OF assms(1), of "\<lambda>s. index_byte s c"] assms(2,3) by simp
  with assms(1) show ?thesis by simp
qed

lemma last_split_unique:
  fixes c :: char
  assumes "x @ c # y = x' @ c # y'" and "c \<notin> set y" and "c \<notin> set y'"
  shows "x = x' \<and> y = y'"
proof -
  have "length x = length x'" using arg_cong [OF assms(1), of "\<lambda>s. last_index_byte s c"] assms(2,3) by simp
  with assms(1) show ?thesis by simp
qed

section \<open>Prefixes, substrings, splitting\<close>

abbreviation has_prefix :: "string \<Rightarrow> string \<Rightarrow> bool" where
  "has_prefix s p \<equiv> prefix p s"

abbreviation has_suffix :: "string \<Rightarrow> string \<Rightarrow> bool" where
  "has_suffix s p \<equiv> suffix p s"

fun str_contains :: "string \<Rightarrow> string \<Rightarrow> bool" where
  "str_contains [] p = (p = [])"
| "str_contains (c # s) p = (prefix p (c # s) \<or> str_contains s p)"

lemma str_contains_sublist: "str_contains s p \<longleftrightarrow> sublist p s"
  by (induction s) (auto simp: sublist_Cons_right)

fun str_split :: "char \<Rightarrow> string \<Rightarrow> string list" where
  "str_split c [] = [[]]"
| "str_split c (x # xs) =
     (if x = c then [] # str_split c xs
      else (case str_split c xs of [] \<Rightarrow> [[x]] | y # ys \<Rightarrow> (x # y) # ys))"

fun str_join :: "char \<Rightarrow> string list \<Rightarrow> string" where
  "str_join c [] = []"
| "str_join c [x] = x"
| "str_join c (x # y # ys) = x @ c # str_join c (y # ys)"

lemma str_split_not_Nil [simp]: "str_split c s \<noteq> []"
  by (induction s) (auto split: list.splits)

lemma str_join_split [simp]: "str_join c (str_split c s) = s"
proof (induction s)
  case Nil
  then show ?case by simp
next
  case (Cons x xs)
  obtain y ys where y: "str_split c xs = y # ys" by (cases "str_split c xs") auto
  with Cons show ?case by (cases ys) auto
qed

lemma str_split_no_sep: "p \<in> set (str_split c s) \<Longrightarrow> c \<notin> set p"
  by (induction s arbitrary: p) (auto split: list.splits if_splits)

lemma str_split_no_occ: "c \<notin> set x \<Longrightarrow> str_split c x = [x]"
  by (induction x) auto

lemma str_split_append: "c \<notin> set x \<Longrightarrow> str_split c (x @ c # s) = x # str_split c s"
  by (induction x) auto

lemma str_split_join:
  "xs \<noteq> [] \<Longrightarrow> \<forall>x \<in> set xs. c \<notin> set x \<Longrightarrow> str_split c (str_join c xs) = xs"
  by (induction c xs rule: str_join.induct) (auto simp: str_split_no_occ str_split_append)

text \<open>\<^verbatim>\<open>strings.Cut(s, sep)\<close> for a one-byte separator: the parts around its first occurrence.\<close>

definition str_cut :: "string \<Rightarrow> char \<Rightarrow> (string \<times> string) option" where
  "str_cut s c = map_option (\<lambda>i. (take i s, drop (Suc i) s)) (index_byte s c)"

lemma str_cut_append [simp]: "c \<notin> set a \<Longrightarrow> str_cut (a @ c # b) c = Some (a, b)"
  by (simp add: str_cut_def)

section \<open>TrimSpace\<close>

text \<open>
  \<^verbatim>\<open>strings.TrimSpace\<close> removes the characters with Unicode's White Space property. These are
  their UTF-8 encodings; none is a prefix or a suffix of another.
\<close>

definition space_runes :: "string list" where
  "space_runes = [[CHR 0x09], [CHR 0x0A], [CHR 0x0B], [CHR 0x0C], [CHR 0x0D], [CHR 0x20],
     [CHR 0xC2, CHR 0x85], [CHR 0xC2, CHR 0xA0], [CHR 0xE1, CHR 0x9A, CHR 0x80],
     [CHR 0xE2, CHR 0x80, CHR 0x80], [CHR 0xE2, CHR 0x80, CHR 0x81],
     [CHR 0xE2, CHR 0x80, CHR 0x82], [CHR 0xE2, CHR 0x80, CHR 0x83],
     [CHR 0xE2, CHR 0x80, CHR 0x84], [CHR 0xE2, CHR 0x80, CHR 0x85],
     [CHR 0xE2, CHR 0x80, CHR 0x86], [CHR 0xE2, CHR 0x80, CHR 0x87],
     [CHR 0xE2, CHR 0x80, CHR 0x88], [CHR 0xE2, CHR 0x80, CHR 0x89],
     [CHR 0xE2, CHR 0x80, CHR 0x8A], [CHR 0xE2, CHR 0x80, CHR 0xA8],
     [CHR 0xE2, CHR 0x80, CHR 0xA9], [CHR 0xE2, CHR 0x80, CHR 0xAF],
     [CHR 0xE2, CHR 0x81, CHR 0x9F], [CHR 0xE3, CHR 0x80, CHR 0x80]]"

lemma space_runes_nonempty: "r \<in> set space_runes \<Longrightarrow> r \<noteq> []"
  by (auto simp: space_runes_def)

text \<open>Removing leading members of a list of nonempty byte strings, as often as one is there.\<close>

function strip_left :: "string list \<Rightarrow> string \<Rightarrow> string" where
  "strip_left rs s =
     (case List.find (\<lambda>r. r \<noteq> [] \<and> prefix r s) rs of
        None \<Rightarrow> s
      | Some r \<Rightarrow> strip_left rs (drop (length r) s))"
  by pat_completeness auto
termination
  by (relation "measure (\<lambda>(rs, s). length s)") (auto simp: find_Some_iff prefix_def)

declare strip_left.simps [simp del]

definition trim_space :: "string \<Rightarrow> string" where
  "trim_space s = rev (strip_left (map rev space_runes) (rev (strip_left space_runes s)))"

lemma strip_left_id: "\<forall>r \<in> set rs. r \<noteq> [] \<longrightarrow> \<not> prefix r s \<Longrightarrow> strip_left rs s = s"
  by (subst strip_left.simps) (auto simp: find_Some_iff split: option.splits)

lemma strip_left_Nil [simp]: "strip_left rs [] = []"
  by (rule strip_left_id) auto

lemma trim_space_Nil [simp]: "trim_space [] = []"
  by (simp add: trim_space_def)

text \<open>A string that neither starts nor ends with a possible byte of a space is its own trim.\<close>

definition space_firsts :: "char list" where
  "space_firsts = remdups (map hd space_runes)"

definition space_lasts :: "char list" where
  "space_lasts = remdups (map last space_runes)"

lemma strip_left_hd:
  assumes "s \<noteq> []" and "hd s \<notin> set (map hd rs)"
  shows "strip_left rs s = s"
proof (rule strip_left_id, intro ballI impI)
  fix r assume "r \<in> set rs" "r \<noteq> []"
  then have "hd r \<noteq> hd s" using assms by (metis image_eqI set_map)
  then show "\<not> prefix r s" using \<open>r \<noteq> []\<close> by (auto simp: prefix_def)
qed

lemma trim_space_id:
  assumes "hd s \<notin> set space_firsts" and "last s \<notin> set space_lasts"
  shows "trim_space s = s"
proof (cases "s = []")
  case False
  have l: "strip_left space_runes s = s"
    using False assms(1) by (intro strip_left_hd) (auto simp: space_firsts_def)
  have "strip_left (map rev space_runes) (rev s) = rev s"
  proof (rule strip_left_hd)
    have "hd (rev r) = last r" for r :: string by (simp add: hd_rev)
    then show "hd (rev s) \<notin> set (map hd (map rev space_runes))"
      using assms(2) by (auto simp: space_lasts_def hd_rev)
  qed (use False in simp)
  with l show ?thesis by (simp add: trim_space_def)
qed simp

lemma strip_left_stops:
  "r \<in> set rs \<Longrightarrow> r \<noteq> [] \<Longrightarrow> \<not> prefix r (strip_left rs s)"
proof (induction rs s rule: strip_left.induct)
  case (1 rs s)
  show ?case
  proof (cases "List.find (\<lambda>r. r \<noteq> [] \<and> prefix r s) rs")
    case None
    then have "strip_left rs s = s" by (subst strip_left.simps) simp
    with None "1.prems" show ?thesis by (auto simp: find_None_iff)
  next
    case (Some q)
    with 1 show ?thesis by (subst strip_left.simps) simp
  qed
qed

lemma space_bytes:
  "c \<in> set space_firsts \<Longrightarrow> (of_char c :: nat) \<le> 32 \<or> (of_char c :: nat) \<ge> 128"
  "c \<in> set space_lasts \<Longrightarrow> (of_char c :: nat) \<le> 32 \<or> (of_char c :: nat) \<ge> 128"
  by (auto simp: space_firsts_def space_lasts_def space_runes_def)

definition visible :: "string \<Rightarrow> bool" where
  "visible s \<longleftrightarrow> (\<forall>c \<in> set s. (of_char c :: nat) > 32 \<and> (of_char c :: nat) < 128)"

lemma trim_space_visible: "visible s \<Longrightarrow> trim_space s = s"
proof (cases "s = []")
  case False
  assume v: "visible s"
  have "hd s \<in> set s" "last s \<in> set s" using False by simp_all
  with v have "hd s \<notin> set space_firsts" "last s \<notin> set space_lasts"
    unfolding visible_def by (meson linorder_not_le not_less space_bytes)+
  then show ?thesis by (rule trim_space_id)
qed simp

section \<open>Atoi\<close>

text \<open>\<^verbatim>\<open>strconv.Atoi\<close> on a 64-bit platform; \<open>None\<close> where it reports an error.\<close>

definition is_digit :: "char \<Rightarrow> bool" where
  "is_digit c \<longleftrightarrow> 48 \<le> (of_char c :: nat) \<and> (of_char c :: nat) \<le> 57"

definition digits_value :: "string \<Rightarrow> nat" where
  "digits_value = foldl (\<lambda>n c. 10 * n + (of_char c - 48)) 0"

definition atoi :: "string \<Rightarrow> int option" where
  "atoi s =
     (let neg = has_prefix s ''-'';
          body = (if neg \<or> has_prefix s ''+'' then drop 1 s else s) in
      if body = [] \<or> \<not> list_all is_digit body then None
      else
        let v = (if neg then - int (digits_value body) else int (digits_value body)) in
        if - (2 ^ 63) \<le> v \<and> v < 2 ^ 63 then Some v else None)"

end
