(* ===== verification/Errs.thy ===== *)
theory Errs imports GoStrings begin

text \<open>
  The error vocabulary of \<^verbatim>\<open>internal/platform/http/errs/errs.go\<close>, the classification of
  database errors of \<^verbatim>\<open>internal/platform/database/postgres/pgxerr/pgxerr.go\<close>, and the status
  \<^verbatim>\<open>httpx.WriteError\<close> answers with. A Go \<^verbatim>\<open>error\<close> value is one of: a canonical API error, a
  Postgres error with its SQLSTATE, \<^verbatim>\<open>pgx.ErrNoRows\<close>, an OAuth error of the token endpoint, or any other error
  with its text.
\<close>

record api_error =
  err_code :: string
  err_status :: nat
  err_message :: string
  err_detail :: string
  err_fields :: "(string \<times> string) list"

definition new_error :: "string \<Rightarrow> nat \<Rightarrow> string \<Rightarrow> api_error" where
  "new_error c s m =
     \<lparr>err_code = c, err_status = s, err_message = m, err_detail = [], err_fields = []\<rparr>"

definition with_detail :: "api_error \<Rightarrow> string \<Rightarrow> api_error" where
  "with_detail e d = e\<lparr>err_detail := d\<rparr>"

definition with_message :: "api_error \<Rightarrow> string \<Rightarrow> api_error" where
  "with_message e m = e\<lparr>err_message := m\<rparr>"

definition with_fields :: "api_error \<Rightarrow> (string \<times> string) list \<Rightarrow> api_error" where
  "with_fields e f = e\<lparr>err_fields := f\<rparr>"

definition error_string :: "api_error \<Rightarrow> string" where
  "error_string e =
     (if err_detail e \<noteq> [] then err_code e @ '': '' @ err_message e @ '' ('' @ err_detail e @ '')''
      else err_code e @ '': '' @ err_message e)"

definition ErrBadRequest :: api_error where
  [err_defs]: "ErrBadRequest = new_error ''bad_request'' 400 ''invalid request''"

definition ErrUnauthorized :: api_error where
  [err_defs]: "ErrUnauthorized = new_error ''unauthorized'' 401 ''authentication required''"

definition ErrForbidden :: api_error where
  [err_defs]: "ErrForbidden = new_error ''forbidden'' 403 ''permission denied''"

definition ErrStepUpRequired :: api_error where
  [err_defs]: "ErrStepUpRequired =
     new_error ''step_up_required'' 403 ''recent multi-factor verification required''"

definition ErrNotFound :: api_error where
  [err_defs]: "ErrNotFound = new_error ''not_found'' 404 ''resource not found''"

definition ErrConflict :: api_error where
  [err_defs]: "ErrConflict = new_error ''conflict'' 409 ''resource conflict''"

definition ErrUnprocessable :: api_error where
  [err_defs]: "ErrUnprocessable = new_error ''unprocessable'' 422 ''request could not be processed''"

definition ErrValidation :: api_error where
  [err_defs]: "ErrValidation =
     new_error ''validation_failed'' 422 ''One or more fields are invalid.''"

definition ErrTooManyRequests :: api_error where
  [err_defs]: "ErrTooManyRequests = new_error ''too_many_requests'' 429 ''too many requests''"

definition ErrInternal :: api_error where
  [err_defs]: "ErrInternal = new_error ''internal'' 500 ''internal server error''"

definition ErrNotImplemented :: api_error where
  [err_defs]: "ErrNotImplemented = new_error ''not_implemented'' 501 ''feature not available''"

declare new_error_def [err_defs] with_detail_def [err_defs] with_message_def [err_defs]
  with_fields_def [err_defs]

section \<open>Go errors\<close>

datatype go_error =
    ApiErr api_error
  | PgErr string
  | ErrNoRows
  | PlainErr string
  | OAuthErr string string \<comment> \<open>\<^verbatim>\<open>oauthError\<close> of \<^verbatim>\<open>federation/oidc\<close>: code and description\<close>
  | GoPanic \<comment> \<open>a panic that unwinds the handler; the router's recoverer answers 500\<close>

text \<open>\<^verbatim>\<open>errs.As\<close>, and the error \<^verbatim>\<open>httpx.WriteError\<close> answers with: anything that is not a
  canonical error becomes an internal error.\<close>

fun errs_as :: "go_error \<Rightarrow> api_error option" where
  "errs_as (ApiErr e) = Some e"
| "errs_as _ = None"

definition write_error :: "go_error \<Rightarrow> api_error" where
  "write_error e = (case errs_as e of None \<Rightarrow> ErrInternal | Some a \<Rightarrow> a)"

abbreviation error_status :: "go_error \<Rightarrow> nat" where
  "error_status e \<equiv> err_status (write_error e)"

fun pg_code :: "go_error \<Rightarrow> string" where
  "pg_code (PgErr c) = c"
| "pg_code _ = []"

definition is_unique :: "go_error \<Rightarrow> bool" where
  "is_unique e = (pg_code e = ''23505'')"

definition is_foreign_key :: "go_error \<Rightarrow> bool" where
  "is_foreign_key e = (pg_code e = ''23503'')"

definition translate :: "go_error \<Rightarrow> go_error" where
  "translate e =
     (if pg_code e = ''23505'' then ApiErr ErrConflict
      else if pg_code e = ''23503'' then
        ApiErr (with_detail ErrBadRequest ''references a resource that does not exist'')
      else if pg_code e = ''23502'' then
        ApiErr (with_detail ErrUnprocessable ''missing required field'')
      else if pg_code e = ''23514'' then
        ApiErr (with_detail ErrUnprocessable ''value violates a constraint'')
      else e)"

abbreviation unique_violation :: go_error where
  "unique_violation \<equiv> PgErr ''23505''"

abbreviation foreign_key_violation :: go_error where
  "foreign_key_violation \<equiv> PgErr ''23503''"

abbreviation check_violation :: go_error where
  "check_violation \<equiv> PgErr ''23514''"

text \<open>Deriving an error from a canonical one keeps its code and its status.\<close>

lemma with_keeps [simp]:
  "err_code (with_detail e d) = err_code e" "err_status (with_detail e d) = err_status e"
  "err_code (with_message e m) = err_code e" "err_status (with_message e m) = err_status e"
  "err_code (with_fields e f) = err_code e" "err_status (with_fields e f) = err_status e"
  by (simp_all add: with_detail_def with_message_def with_fields_def)

lemma write_error_simps [simp]:
  "write_error (ApiErr e) = e"
  "write_error (PgErr c) = ErrInternal"
  "write_error ErrNoRows = ErrInternal"
  "write_error (PlainErr t) = ErrInternal"
  "write_error (OAuthErr c d) = ErrInternal"
  "write_error GoPanic = ErrInternal"
  by (simp_all add: write_error_def)

lemma canonical_status [simp]:
  "err_status ErrBadRequest = 400" "err_status ErrUnauthorized = 401"
  "err_status ErrForbidden = 403" "err_status ErrStepUpRequired = 403"
  "err_status ErrNotFound = 404" "err_status ErrConflict = 409"
  "err_status ErrUnprocessable = 422" "err_status ErrValidation = 422"
  "err_status ErrTooManyRequests = 429" "err_status ErrInternal = 500"
  "err_status ErrNotImplemented = 501"
  by (simp_all add: err_defs)

end
