(* ===== verification/Tx.thy ===== *)
theory Tx imports Errs begin

text \<open>
  Database operations. An operation takes the environment of the process and the stored state and
  returns an error or a value with both updated. The environment is adversarial: it decides for
  every round trip to the database whether it fails, what every reading of the clock is, and
  which UUID every generator call yields; nothing is assumed of it unless a theorem says so.

  A transaction works on the stored state and puts the old one back on every path that does not
  reach a successful commit, which is what the deferred rollback of the services does. A commit
  that reports an error is taken not to have happened.
\<close>

record env =
  e_fault :: "nat \<Rightarrow> bool"
  e_calls :: nat
  e_clock :: "nat \<Rightarrow> time"
  e_ticks :: nat
  e_uuid :: "nat \<Rightarrow> uuid"
  e_uuids :: nat

type_synonym ('w, 'a) io = "env \<Rightarrow> 'w \<Rightarrow> (go_error + 'a) \<times> env \<times> 'w"

definition ret :: "'a \<Rightarrow> ('w, 'a) io" where
  "ret a e w = (Inr a, e, w)"

definition fail :: "go_error \<Rightarrow> ('w, 'a) io" where
  "fail x e w = (Inl x, e, w)"

definition bind_io :: "('w, 'a) io \<Rightarrow> ('a \<Rightarrow> ('w, 'b) io) \<Rightarrow> ('w, 'b) io" where
  "bind_io m f e w = (case m e w of (Inl x, e', w') \<Rightarrow> (Inl x, e', w') | (Inr a, e', w') \<Rightarrow> f a e' w')"

abbreviation then_io :: "('w, 'a) io \<Rightarrow> ('w, 'b) io \<Rightarrow> ('w, 'b) io" where
  "then_io m n \<equiv> bind_io m (\<lambda>_. n)"

text \<open>\<open>on_error m h\<close> continues with \<open>h\<close> on an error: the \<^verbatim>\<open>if err != nil\<close> branches that do more
  than return the error unchanged.\<close>

definition on_error :: "('w, 'a) io \<Rightarrow> (go_error \<Rightarrow> ('w, 'a) io) \<Rightarrow> ('w, 'a) io" where
  "on_error m h e w = (case m e w of (Inl x, e', w') \<Rightarrow> h x e' w' | (Inr a, e', w') \<Rightarrow> (Inr a, e', w'))"

definition guard :: "bool \<Rightarrow> go_error \<Rightarrow> ('w, unit) io" where
  "guard b x = (if b then ret () else fail x)"

definition lift_res :: "go_error + 'a \<Rightarrow> ('w, 'a) io" where
  "lift_res r = (case r of Inl x \<Rightarrow> fail x | Inr a \<Rightarrow> ret a)"

section \<open>Effects\<close>

definition db_down :: go_error where
  "db_down = PlainErr ''database unavailable''"

text \<open>One statement: it either does not reach the database, or runs and commits or fails there.\<close>

definition db_call :: "('w \<Rightarrow> (go_error + 'a) \<times> 'w) \<Rightarrow> ('w, 'a) io" where
  "db_call f e w =
     (let e' = e\<lparr>e_calls := Suc (e_calls e)\<rparr> in
      if e_fault e (e_calls e) then (Inl db_down, e', w)
      else (case f w of (Inl x, _) \<Rightarrow> (Inl x, e', w) | (Inr a, w') \<Rightarrow> (Inr a, e', w')))"

definition db_read :: "('w \<Rightarrow> 'a) \<Rightarrow> ('w, 'a) io" where
  "db_read f = db_call (\<lambda>w. (Inr (f w), w))"

definition db_write :: "('w \<Rightarrow> 'w) \<Rightarrow> ('w, unit) io" where
  "db_write f = db_call (\<lambda>w. (Inr (), f w))"

definition time_now :: "('w, time) io" where
  "time_now e w = (Inr (e_clock e (e_ticks e)), e\<lparr>e_ticks := Suc (e_ticks e)\<rparr>, w)"

definition uuid_new :: "('w, uuid) io" where
  "uuid_new e w = (Inr (e_uuid e (e_uuids e)), e\<lparr>e_uuids := Suc (e_uuids e)\<rparr>, w)"

definition next_call :: "env \<Rightarrow> env" where
  "next_call e = e\<lparr>e_calls := Suc (e_calls e)\<rparr>"

definition in_tx :: "('w, 'a) io \<Rightarrow> ('w, 'a) io" where
  "in_tx body e w =
     (if e_fault e (e_calls e) then (Inl db_down, next_call e, w)
      else (case body (next_call e) w of
              (Inl x, e2, _) \<Rightarrow> (Inl x, e2, w)
            | (Inr a, e2, w2) \<Rightarrow>
                if e_fault e2 (e_calls e2) then (Inl db_down, next_call e2, w)
                else (Inr a, next_call e2, w2)))"

text \<open>Running an operation on a concrete state.\<close>

lemmas io_run = ret_def fail_def bind_io_def on_error_def guard_def lift_res_def db_call_def
  db_read_def db_write_def time_now_def uuid_new_def in_tx_def next_call_def

definition quiet_env :: "(nat \<Rightarrow> time) \<Rightarrow> (nat \<Rightarrow> uuid) \<Rightarrow> env" where
  "quiet_env clock uuids = \<lparr>e_fault = (\<lambda>_. False), e_calls = 0, e_clock = clock, e_ticks = 0,
     e_uuid = uuids, e_uuids = 0\<rparr>"

section \<open>Inverting a successful run\<close>

lemma ret_ok [io_ok]: "ret a e w = (Inr b, e', w') \<longleftrightarrow> b = a \<and> e' = e \<and> w' = w"
  by (auto simp: ret_def)

lemma fail_ok [io_ok]: "fail x e w = (Inr b, e', w') \<longleftrightarrow> False"
  by (simp add: fail_def)

lemma bind_ok [io_ok]:
  "bind_io m f e w = (Inr b, e', w') \<longleftrightarrow>
     (\<exists>a e1 w1. m e w = (Inr a, e1, w1) \<and> f a e1 w1 = (Inr b, e', w'))"
  by (auto simp: bind_io_def split: prod.splits sum.splits)

lemma on_error_ok [io_ok]:
  "on_error m h e w = (Inr b, e', w') \<longleftrightarrow>
     m e w = (Inr b, e', w') \<or> (\<exists>x e1 w1. m e w = (Inl x, e1, w1) \<and> h x e1 w1 = (Inr b, e', w'))"
  by (auto simp: on_error_def split: prod.splits sum.splits)

lemma guard_ok [io_ok]: "guard b x e w = (Inr u, e', w') \<longleftrightarrow> b \<and> e' = e \<and> w' = w"
  by (auto simp: guard_def io_ok)

lemma lift_res_ok [io_ok]: "lift_res r e w = (Inr a, e', w') \<longleftrightarrow> r = Inr a \<and> e' = e \<and> w' = w"
  by (auto simp: lift_res_def io_ok split: sum.splits)

lemma db_call_ok [io_ok]:
  "db_call f e w = (Inr a, e', w') \<longleftrightarrow>
     \<not> e_fault e (e_calls e) \<and> e' = e\<lparr>e_calls := Suc (e_calls e)\<rparr> \<and> f w = (Inr a, w')"
  by (cases "f w"; cases "fst (f w)") (auto simp: db_call_def Let_def)

lemma db_read_ok [io_ok]:
  "db_read f e w = (Inr a, e', w') \<longleftrightarrow>
     \<not> e_fault e (e_calls e) \<and> e' = e\<lparr>e_calls := Suc (e_calls e)\<rparr> \<and> a = f w \<and> w' = w"
  by (auto simp: db_read_def io_ok)

lemma db_write_ok [io_ok]:
  "db_write f e w = (Inr a, e', w') \<longleftrightarrow>
     \<not> e_fault e (e_calls e) \<and> e' = e\<lparr>e_calls := Suc (e_calls e)\<rparr> \<and> w' = f w"
  by (auto simp: db_write_def io_ok)

lemma time_now_ok [io_ok]:
  "time_now e w = (Inr t, e', w') \<longleftrightarrow>
     t = e_clock e (e_ticks e) \<and> e' = e\<lparr>e_ticks := Suc (e_ticks e)\<rparr> \<and> w' = w"
  by (auto simp: time_now_def)

lemma uuid_new_ok [io_ok]:
  "uuid_new e w = (Inr u, e', w') \<longleftrightarrow>
     u = e_uuid e (e_uuids e) \<and> e' = e\<lparr>e_uuids := Suc (e_uuids e)\<rparr> \<and> w' = w"
  by (auto simp: uuid_new_def)

lemma in_tx_ok:
  assumes "in_tx b e w = (Inr a, e', w')"
  obtains e2 where "b (next_call e) w = (Inr a, e2, w')" and "e' = next_call e2"
proof -
  obtain r e2 w2 where r: "b (next_call e) w = (r, e2, w2)" by (metis prod_cases3)
  with assms that show thesis by (cases r) (auto simp: in_tx_def split: if_splits)
qed

lemma in_tx_result:
  assumes "in_tx b e w = (r, e', w')"
  shows "w' = w \<or> (\<exists>a e2. r = Inr a \<and> b (next_call e) w = (Inr a, e2, w'))"
proof -
  obtain r1 e2 w2 where r: "b (next_call e) w = (r1, e2, w2)" by (metis prod_cases3)
  with assms show ?thesis by (cases r1) (auto simp: in_tx_def split: if_splits)
qed

section \<open>Atomicity and frames\<close>

text \<open>\<open>atomic m\<close>: a run that reports an error leaves the stored state as it was.\<close>

definition atomic :: "('w, 'a) io \<Rightarrow> bool" where
  "atomic m \<longleftrightarrow> (\<forall>e w x e' w'. m e w = (Inl x, e', w') \<longrightarrow> w' = w)"

lemma atomicD: "atomic m \<Longrightarrow> m e w = (Inl x, e', w') \<Longrightarrow> w' = w"
  by (auto simp: atomic_def)

lemma atomic_in_tx [intro, simp]: "atomic (in_tx b)"
  by (auto simp: atomic_def dest: in_tx_result)

lemma atomic_ret [intro, simp]: "atomic (ret a)"
  by (simp add: atomic_def ret_def)

lemma atomic_fail [intro, simp]: "atomic (fail x)"
  by (simp add: atomic_def fail_def)

lemma atomic_guard [intro, simp]: "atomic (guard b x)"
  by (simp add: guard_def)

lemma atomic_lift_res [intro, simp]: "atomic (lift_res r)"
  by (simp add: lift_res_def split: sum.splits)

lemma atomic_db_call [intro, simp]: "atomic (db_call f)"
  by (auto simp: atomic_def db_call_def Let_def split: prod.splits sum.splits if_splits)

lemma atomic_db_read [intro, simp]: "atomic (db_read f)"
  by (simp add: db_read_def)

text \<open>\<open>reads m\<close>: a run leaves the stored state as it was, whatever it returns.\<close>

definition reads :: "('w, 'a) io \<Rightarrow> bool" where
  "reads m \<longleftrightarrow> (\<forall>e w. snd (snd (m e w)) = w)"

lemma reads_intros [intro, simp]:
  "reads (ret a)" "reads (fail x)" "reads (guard b x)" "reads (lift_res r)" "reads (db_read f)"
  "reads time_now" "reads uuid_new"
  by (auto simp: reads_def ret_def fail_def guard_def lift_res_def db_read_def db_call_def
      time_now_def uuid_new_def Let_def split: sum.splits)

lemma readsD: "reads m \<Longrightarrow> m e w = (r, e', w') \<Longrightarrow> w' = w"
  unfolding reads_def by (metis snd_conv)

lemma reads_bind [intro]: "reads m \<Longrightarrow> (\<And>a. reads (f a)) \<Longrightarrow> reads (bind_io m f)"
  unfolding reads_def
proof (intro allI)
  fix e w
  assume m: "\<forall>e w. snd (snd (m e w)) = w" and f: "\<And>a. \<forall>e w. snd (snd (f a e w)) = w"
  obtain r e1 w1 where r: "m e w = (r, e1, w1)" by (metis prod_cases3)
  with m have "w1 = w" by (metis snd_conv)
  with r f show "snd (snd (bind_io m f e w)) = w" by (cases r) (auto simp: bind_io_def)
qed

lemma reads_step:
  assumes "bind_io m f e w = (res, e', w')" and "reads m"
  obtains "w' = w" | a e1 where "m e w = (Inr a, e1, w)" "f a e1 w = (res, e', w')"
proof -
  obtain r e1 w1 where m: "m e w = (r, e1, w1)" by (metis prod_cases3)
  with assms(2) have "w1 = w" unfolding reads_def by (metis snd_conv)
  with m assms(1) that show thesis by (cases r) (auto simp: bind_io_def)
qed

lemma reads_atomic: "reads m \<Longrightarrow> atomic m"
  unfolding reads_def atomic_def by (metis snd_conv)

text \<open>Pure guards in front of a transaction keep the whole operation atomic.\<close>

lemma atomic_bind_reads [intro]:
  assumes "reads m" and "\<And>a. atomic (f a)"
  shows "atomic (bind_io m f)"
  unfolding atomic_def
proof (intro allI impI)
  fix e w x e' w'
  assume r: "bind_io m f e w = (Inl x, e', w')"
  obtain r1 e1 w1 where m: "m e w = (r1, e1, w1)" by (metis prod_cases3)
  with assms(1) have w1: "w1 = w" by (metis reads_def snd_conv)
  show "w' = w"
  proof (cases r1)
    case (Inl y)
    with r m w1 show ?thesis by (simp add: bind_io_def)
  next
    case (Inr a)
    with r m w1 have "f a e1 w = (Inl x, e', w')" by (simp add: bind_io_def)
    with assms(2) show ?thesis by (rule atomicD)
  qed
qed

text \<open>Building the answer after the last statement cannot fail.\<close>

lemma atomic_bind_ret [intro, simp]: "atomic m \<Longrightarrow> atomic (bind_io m (\<lambda>a. ret (f a)))"
  by (auto simp: atomic_def bind_io_def ret_def split: prod.splits sum.splits)

text \<open>\<open>live m\<close>: a run in which no statement fails ends in a value.\<close>

definition no_faults :: "env \<Rightarrow> bool" where
  "no_faults e \<longleftrightarrow> (\<forall>k. \<not> e_fault e k)"

definition live :: "('w, 'a) io \<Rightarrow> bool" where
  "live m \<longleftrightarrow> (\<forall>e w. no_faults e \<longrightarrow> (\<exists>a e' w'. m e w = (Inr a, e', w') \<and> no_faults e'))"

lemma live_intros [intro, simp]:
  "live (ret a)" "live (db_read f)" "live (db_write g)" "live time_now" "live uuid_new"
  by (simp_all add: live_def no_faults_def ret_def db_read_def db_write_def db_call_def time_now_def
      uuid_new_def Let_def)

lemma live_bind [intro]: "live m \<Longrightarrow> (\<And>a. live (f a)) \<Longrightarrow> live (bind_io m f)"
  unfolding live_def
proof (intro allI impI)
  fix e w
  assume m: "\<forall>e w. no_faults e \<longrightarrow> (\<exists>a e' w'. m e w = (Inr a, e', w') \<and> no_faults e')"
    and f: "\<And>a. \<forall>e w. no_faults e \<longrightarrow> (\<exists>b e' w'. f a e w = (Inr b, e', w') \<and> no_faults e')"
    and e: "no_faults e"
  obtain a e1 w1 where r: "m e w = (Inr a, e1, w1)" "no_faults e1" using m e by blast
  with f [of a] obtain b e' w' where "f a e1 w1 = (Inr b, e', w')" "no_faults e'" by blast
  with r show "\<exists>b e' w'. bind_io m f e w = (Inr b, e', w') \<and> no_faults e'" by (simp add: bind_io_def)
qed

lemma liveD: "live m \<Longrightarrow> no_faults e \<Longrightarrow> \<exists>a e' w'. m e w = (Inr a, e', w')"
  unfolding live_def by blast

lemma no_faults_next: "no_faults e \<Longrightarrow> no_faults (next_call e)"
  by (simp add: no_faults_def next_call_def)

lemma no_faults_quiet [simp]: "no_faults (quiet_env c u)"
  by (simp add: no_faults_def quiet_env_def)

text \<open>\<open>keeps P m\<close>: every run keeps \<open>P\<close> of the stored state, on success and on error.\<close>

definition keeps :: "('w \<Rightarrow> bool) \<Rightarrow> ('w, 'a) io \<Rightarrow> bool" where
  "keeps P m \<longleftrightarrow> (\<forall>e w. P w \<longrightarrow> P (snd (snd (m e w))))"

lemma keepsD: "keeps P m \<Longrightarrow> P w \<Longrightarrow> m e w = (r, e', w') \<Longrightarrow> P w'"
  unfolding keeps_def by (metis snd_conv)

lemma keepsI: "(\<And>e w r e' w'. P w \<Longrightarrow> m e w = (r, e', w') \<Longrightarrow> P w') \<Longrightarrow> keeps P m"
  unfolding keeps_def by (metis prod.collapse)

lemma keeps_reads [keeps_intros]: "reads m \<Longrightarrow> keeps P m"
  by (simp add: reads_def keeps_def)

lemma keeps_bind [keeps_intros]:
  "keeps P m \<Longrightarrow> (\<And>a. keeps P (f a)) \<Longrightarrow> keeps P (bind_io m f)"
proof (rule keepsI)
  fix e w r e' w'
  assume m: "keeps P m" and f: "\<And>a. keeps P (f a)" and w: "P w"
    and r: "bind_io m f e w = (r, e', w')"
  obtain r1 e1 w1 where r1: "m e w = (r1, e1, w1)" by (metis prod_cases3)
  with m w have "P w1" by (rule_tac keepsD)
  with r r1 f show "P w'" by (cases r1) (auto simp: bind_io_def dest: keepsD)
qed

lemma keeps_on_error [keeps_intros]:
  "keeps P m \<Longrightarrow> (\<And>x. keeps P (h x)) \<Longrightarrow> keeps P (on_error m h)"
proof (rule keepsI)
  fix e w r e' w'
  assume m: "keeps P m" and h: "\<And>x. keeps P (h x)" and w: "P w"
    and r: "on_error m h e w = (r, e', w')"
  obtain r1 e1 w1 where r1: "m e w = (r1, e1, w1)" by (metis prod_cases3)
  with m w have "P w1" by (rule_tac keepsD)
  with r r1 h show "P w'" by (cases r1) (auto simp: on_error_def dest: keepsD)
qed

lemma keeps_db_call [keeps_intros]:
  "(\<And>w a w'. P w \<Longrightarrow> f w = (Inr a, w') \<Longrightarrow> P w') \<Longrightarrow> keeps P (db_call f)"
  by (auto simp: keeps_def db_call_def Let_def split: prod.splits sum.splits)

lemma keeps_db_write [keeps_intros]: "(\<And>w. P w \<Longrightarrow> P (f w)) \<Longrightarrow> keeps P (db_write f)"
  unfolding db_write_def by (rule keeps_db_call) auto

lemma keeps_in_tx [keeps_intros]: "keeps P b \<Longrightarrow> keeps P (in_tx b)"
  by (rule keepsI) (auto dest!: in_tx_result dest: keepsD)

end
