(* ===== verification/Httpx.thy ===== *)
theory Httpx imports Tx begin

text \<open>
  Requests, principals and the authentication and tenant guards of
  \<^verbatim>\<open>internal/platform/http/httpx/\<close> (files \<^verbatim>\<open>ctx.go\<close> and \<^verbatim>\<open>auth.go\<close>), and the path-tenant guard every
  tenant-scoped handler calls first (the same function in \<^verbatim>\<open>abac.go\<close>, \<^verbatim>\<open>rebac.go\<close>,
  \<^verbatim>\<open>ipallow.go\<close> and \<^verbatim>\<open>rbac/http.go\<close>). The UUID parser is the third-party package
  \<^verbatim>\<open>google/uuid\<close>, and is the argument \<open>parse_uuid\<close>; token verification and the agent status
  lookup are arguments of \<open>require_auth\<close>, as they are fields of \<^verbatim>\<open>AuthVerifier\<close>.

  A middleware is a function from a request to the request it hands to the next handler or to the
  error it answers with; a handler is an operation on the stored state.
\<close>

section \<open>Principals and requests\<close>

record principal =
  p_user_id :: "uuid option"
  p_tenant_id :: "uuid option"
  p_actor_type :: string
  p_scopes :: "string list"
  p_subject :: string
  p_session_id :: "uuid option"
  p_agent_id :: "uuid option"

record request =
  rq_principal :: "principal option"
  rq_method :: string
  rq_path :: string
  rq_params :: "(string \<times> string) list"
  rq_query :: "(string \<times> string) list"
  rq_headers :: "(string \<times> string) list"
  rq_remote_addr :: string
  rq_id :: string

text \<open>An absent URL parameter, query parameter or header reads as the empty string.\<close>

definition url_param :: "request \<Rightarrow> string \<Rightarrow> string" where
  "url_param r k = (case alookup k (rq_params r) of None \<Rightarrow> [] | Some v \<Rightarrow> v)"

definition query_get :: "request \<Rightarrow> string \<Rightarrow> string" where
  "query_get r k = (case map_of (rq_query r) k of None \<Rightarrow> [] | Some v \<Rightarrow> v)"

definition header_get :: "request \<Rightarrow> string \<Rightarrow> string" where
  "header_get r k = (case map_of (rq_headers r) k of None \<Rightarrow> [] | Some v \<Rightarrow> v)"

definition with_principal :: "request \<Rightarrow> principal \<Rightarrow> request" where
  "with_principal r p = r\<lparr>rq_principal := Some p\<rparr>"

text \<open>\<^verbatim>\<open>net.SplitHostPort\<close>, the host part; \<open>None\<close> where it returns an error.\<close>

definition split_host_port :: "string \<Rightarrow> string option" where
  "split_host_port hp =
     (case last_index_byte hp (CHR '':'') of
        None \<Rightarrow> None
      | Some i \<Rightarrow>
          if hd hp = CHR ''['' then
            (case index_byte hp (CHR '']'') of
               None \<Rightarrow> None
             | Some k \<Rightarrow>
                 if Suc k = i \<and> CHR ''['' \<notin> set (drop 1 hp) \<and> CHR '']'' \<notin> set (drop (Suc k) hp)
                 then Some (drop 1 (take k hp)) else None)
          else if CHR '':'' \<in> set (take i hp) \<or> CHR ''['' \<in> set hp \<or> CHR '']'' \<in> set hp then None
          else Some (take i hp))"

definition client_ip :: "request \<Rightarrow> string" where
  "client_ip r =
     (let v = header_get r ''X-Forwarded-For'' in
      if v \<noteq> [] then v
      else (case split_host_port (rq_remote_addr r) of
              None \<Rightarrow> rq_remote_addr r | Some host \<Rightarrow> host))"

section \<open>Guards\<close>

definition require_tenant :: "request \<Rightarrow> go_error + uuid" where
  "require_tenant r =
     (case rq_principal r of
        None \<Rightarrow> Inl (ApiErr (with_detail ErrUnauthorized ''tenant scope required''))
      | Some p \<Rightarrow>
          (case p_tenant_id p of
             None \<Rightarrow> Inl (ApiErr (with_detail ErrUnauthorized ''tenant scope required''))
           | Some t \<Rightarrow> Inr t))"

definition require_user :: "request \<Rightarrow> go_error + uuid" where
  "require_user r =
     (case rq_principal r of
        None \<Rightarrow> Inl (ApiErr ErrUnauthorized)
      | Some p \<Rightarrow> (case p_user_id p of None \<Rightarrow> Inl (ApiErr ErrUnauthorized) | Some u \<Rightarrow> Inr u))"

definition require_scope :: "string list \<Rightarrow> request \<Rightarrow> go_error + request" where
  "require_scope want r =
     (case rq_principal r of
        None \<Rightarrow> Inl (ApiErr ErrUnauthorized)
      | Some p \<Rightarrow>
          if \<exists>s \<in> set (p_scopes p). s \<in> set want then Inr r else Inl (ApiErr ErrForbidden))"

definition require_path_tenant :: "(string \<Rightarrow> uuid option) \<Rightarrow> request \<Rightarrow> go_error + uuid" where
  "require_path_tenant parse_uuid r =
     (case parse_uuid (url_param r ''tenantID'') of
        None \<Rightarrow> Inl (ApiErr (with_detail ErrBadRequest ''invalid tenantID''))
      | Some path_tenant \<Rightarrow>
          (case require_tenant r of
             Inl e \<Rightarrow> Inl e
           | Inr scope \<Rightarrow>
               if path_tenant \<noteq> scope
               then Inl (ApiErr (with_detail ErrForbidden ''tenant mismatch''))
               else Inr scope))"

definition enforce_tenant_scope ::
  "(string \<Rightarrow> uuid option) \<Rightarrow> request \<Rightarrow> go_error + request" where
  "enforce_tenant_scope parse_uuid r =
     (let path_tenant = url_param r ''tenantID'' in
      if path_tenant \<noteq> [] then
        (case require_tenant r of
           Inl e \<Rightarrow> Inl e
         | Inr want \<Rightarrow>
             (case parse_uuid path_tenant of
                None \<Rightarrow> Inl (ApiErr (with_detail ErrBadRequest ''invalid tenantID''))
              | Some got \<Rightarrow>
                  if got \<noteq> want
                  then Inl (ApiErr (with_detail ErrForbidden ''tenant mismatch''))
                  else Inr r))
      else Inr r)"

section \<open>Authentication\<close>

record claims =
  c_user_id :: uuid
  c_tenant_id :: uuid
  c_session_id :: uuid
  c_scope :: string
  c_actor_type :: string
  c_agent_id :: string
  c_subject :: string

record verifier =
  v_verify_access :: "string \<Rightarrow> string + claims"
  v_dev_trust_headers :: bool
  v_agent_status :: "(uuid \<Rightarrow> string option) option"

definition ascii_lower :: "string \<Rightarrow> string" where
  "ascii_lower = map (\<lambda>c. let n = of_char c :: nat in
     if 65 \<le> n \<and> n \<le> 90 then char_of (n + 32) else c)"

text \<open>\<^verbatim>\<open>strings.Fields\<close>: the maximal runs without white space.\<close>

fun span_word :: "string \<Rightarrow> string \<times> string" where
  "span_word [] = ([], [])"
| "span_word (c # s) =
     (if \<exists>r \<in> set space_runes. prefix r (c # s) then ([], c # s)
      else (c # fst (span_word s), snd (span_word s)))"

lemma length_span_word: "length (snd (span_word s)) \<le> length s"
  by (induction s) auto

lemma length_strip_left: "length (strip_left rs s) \<le> length s"
proof (induction rs s rule: strip_left.induct)
  case (1 rs s)
  then show ?case
    by (subst strip_left.simps) (auto split: option.splits intro: order_trans)
qed

function str_fields :: "string \<Rightarrow> string list" where
  "str_fields s =
     (case strip_left space_runes s of
        [] \<Rightarrow> []
      | c # t \<Rightarrow> (c # fst (span_word t)) # str_fields (snd (span_word t)))"
  by pat_completeness auto
termination
proof (relation "measure length", goal_cases)
  case (2 s c t)
  then have "length (snd (span_word t)) < length (strip_left space_runes s)"
    using length_span_word [of t] by simp
  then show ?case using length_strip_left [of space_runes s] by simp
qed simp

declare str_fields.simps [simp del]

definition nil_to_none :: "uuid \<Rightarrow> uuid option" where
  "nil_to_none u = (if u = 0 then None else Some u)"

definition principal_of_claims :: "claims \<Rightarrow> principal" where
  "principal_of_claims c =
     \<lparr>p_user_id = nil_to_none (c_user_id c), p_tenant_id = nil_to_none (c_tenant_id c),
      p_actor_type = (if c_actor_type c \<noteq> [] then c_actor_type c else ''user''),
      p_scopes = str_fields (c_scope c), p_subject = c_subject c,
      p_session_id = nil_to_none (c_session_id c), p_agent_id = None\<rparr>"

text \<open>The lifecycle check of an agent token: the principal with the agent id, or the error.\<close>

definition check_agent ::
  "(string \<Rightarrow> uuid option) \<Rightarrow> verifier \<Rightarrow> string \<Rightarrow> principal \<Rightarrow> go_error + principal" where
  "check_agent parse_uuid v aid p =
     (if aid = [] then Inr p
      else (case parse_uuid aid of
              None \<Rightarrow> Inr p
            | Some a \<Rightarrow>
                (case v_agent_status v of
                   None \<Rightarrow> Inr (p\<lparr>p_agent_id := Some a\<rparr>)
                 | Some status \<Rightarrow>
                     (case status a of
                        None \<Rightarrow> Inl (ApiErr (with_detail ErrUnauthorized ''agent revoked''))
                      | Some st \<Rightarrow>
                          if st \<noteq> ''active''
                          then Inl (ApiErr (with_detail ErrUnauthorized (''agent '' @ st)))
                          else Inr (p\<lparr>p_agent_id := Some a\<rparr>)))))"

definition dev_principal ::
  "(string \<Rightarrow> uuid option) \<Rightarrow> request \<Rightarrow> string \<Rightarrow> principal" where
  "dev_principal parse_uuid r dev_user =
     \<lparr>p_user_id = parse_uuid dev_user,
      p_tenant_id = (let t = header_get r ''X-Dev-Tenant'' in if t \<noteq> [] then parse_uuid t else None),
      p_actor_type = ''user'', p_scopes = [], p_subject = dev_user,
      p_session_id = None, p_agent_id = None\<rparr>"

definition require_auth ::
  "(string \<Rightarrow> uuid option) \<Rightarrow> verifier \<Rightarrow> request \<Rightarrow> go_error + request" where
  "require_auth parse_uuid v r =
     (if rq_principal r \<noteq> None then Inr r
      else
        let dev_user = header_get r ''X-Dev-User'' in
        if v_dev_trust_headers v \<and> dev_user \<noteq> [] then
          Inr (with_principal r (dev_principal parse_uuid r dev_user))
        else
          let auth = header_get r ''Authorization'' in
          if \<not> has_prefix (ascii_lower auth) ''bearer '' then Inl (ApiErr ErrUnauthorized)
          else
            (case v_verify_access v (trim_space (drop 7 auth)) of
               Inl msg \<Rightarrow> Inl (ApiErr (with_detail ErrUnauthorized msg))
             | Inr c \<Rightarrow>
                 (case check_agent parse_uuid v (c_agent_id c) (principal_of_claims c) of
                    Inl e \<Rightarrow> Inl e
                  | Inr p \<Rightarrow> Inr (with_principal r p))))"

section \<open>What the guards let through\<close>

lemma require_tenant_Inr_iff:
  "require_tenant r = Inr t \<longleftrightarrow> (\<exists>p. rq_principal r = Some p \<and> p_tenant_id p = Some t)"
  by (auto simp: require_tenant_def split: option.splits)

lemma require_user_Inr_iff:
  "require_user r = Inr u \<longleftrightarrow> (\<exists>p. rq_principal r = Some p \<and> p_user_id p = Some u)"
  by (auto simp: require_user_def split: option.splits)

lemma require_path_tenant_Inr_iff:
  "require_path_tenant pu r = Inr t \<longleftrightarrow>
     pu (url_param r ''tenantID'') = Some t \<and> require_tenant r = Inr t"
  by (auto simp: require_path_tenant_def split: option.splits sum.splits)

lemma enforce_tenant_scope_Inr_iff:
  "enforce_tenant_scope pu r = Inr r' \<longleftrightarrow>
     r' = r \<and> (url_param r ''tenantID'' = [] \<or>
       (\<exists>t. pu (url_param r ''tenantID'') = Some t \<and> require_tenant r = Inr t))"
  by (auto simp: enforce_tenant_scope_def Let_def split: option.splits sum.splits)

lemma check_agent_Inr:
  assumes "check_agent pu v aid p = Inr p'"
  shows "p_tenant_id p' = p_tenant_id p" and "p_user_id p' = p_user_id p"
    and "p_actor_type p' = p_actor_type p"
    and "aid \<noteq> [] \<Longrightarrow> pu aid = Some a \<Longrightarrow> v_agent_status v = Some st \<Longrightarrow>
         st a = Some ''active'' \<and> p_agent_id p' = Some a"
  using assms by (auto simp: check_agent_def split: if_splits option.splits)

lemma require_auth_keeps:
  assumes "require_auth pu v r = Inr r'"
  shows "rq_params r' = rq_params r" and "rq_method r' = rq_method r" and "rq_path r' = rq_path r"
    and "rq_principal r' \<noteq> None"
  using assms by (auto simp: require_auth_def with_principal_def Let_def split: if_splits sum.splits)

section \<open>Concrete requests\<close>

text \<open>The instances at which the theories on handlers apply their properties: UUIDs in decimal.\<close>

definition demo_uuid :: "string \<Rightarrow> uuid option" where
  "demo_uuid s = map_option nat (atoi s)"

definition demo_principal :: "uuid \<Rightarrow> principal" where
  "demo_principal tenant = \<lparr>p_user_id = Some 3, p_tenant_id = Some tenant, p_actor_type = ''user'',
     p_scopes = [], p_subject = ''3'', p_session_id = None, p_agent_id = None\<rparr>"

definition demo_request :: "uuid \<Rightarrow> (string \<times> string) list \<Rightarrow> (string \<times> string) list \<Rightarrow> request" where
  "demo_request tenant params query = \<lparr>rq_principal = Some (demo_principal tenant), rq_method = ''POST'',
     rq_path = ''/'', rq_params = params, rq_query = query, rq_headers = [],
     rq_remote_addr = ''10.0.0.1:443'', rq_id = ''r1''\<rparr>"

end
