(* ===== verification/GoJson.thy ===== *)
theory GoJson imports GoStrings begin

text \<open>
  How Go's \<^verbatim>\<open>encoding/json\<close> writes a string (with the HTML escaping that is its default), how
  \<^verbatim>\<open>encoding/hex\<close> writes bytes, and how a UTC time is written in the layout
  \<^verbatim>\<open>time.RFC3339Nano\<close>. Strings are taken to be valid UTF-8, so the encoder copies every
  multi-byte character but U+2028 and U+2029. The main fact is that a quoted string can be told
  from what follows it (\<open>json_quote_append_inj\<close>), so that a text made of quoted fields determines
  the fields.
\<close>

section \<open>Quoting\<close>

abbreviation dquote :: char where "dquote \<equiv> CHR 0x22"

abbreviation bslash :: char where "bslash \<equiv> CHR 0x5C"

definition hex_digit :: "nat \<Rightarrow> char" where
  "hex_digit n = char_of (if n < 10 then 48 + n else 87 + n)"

definition json_esc_char :: "char \<Rightarrow> string" where
  "json_esc_char c =
     (let n = of_char c :: nat in
      if c = dquote \<or> c = bslash then [bslash, c]
      else if n = 8 then [bslash, CHR ''b'']
      else if n = 12 then [bslash, CHR ''f'']
      else if n = 10 then [bslash, CHR ''n'']
      else if n = 13 then [bslash, CHR ''r'']
      else if n = 9 then [bslash, CHR ''t'']
      else if n < 32 \<or> c = CHR ''<'' \<or> c = CHR ''>'' \<or> c = CHR 0x26 then
        [bslash, CHR ''u'', CHR ''0'', CHR ''0'', hex_digit (n div 16), hex_digit (n mod 16)]
      else [c])"

fun json_esc :: "string \<Rightarrow> string" where
  "json_esc [] = []"
| "json_esc (c # s) =
     (if prefix [CHR 0xE2, CHR 0x80, CHR 0xA8] (c # s) then
        bslash # ''u2028'' @ json_esc (drop 2 s)
      else if prefix [CHR 0xE2, CHR 0x80, CHR 0xA9] (c # s) then
        bslash # ''u2029'' @ json_esc (drop 2 s)
      else json_esc_char c @ json_esc s)"

definition json_quote :: "string \<Rightarrow> string" where
  "json_quote s = dquote # json_esc s @ [dquote]"

lemma of_char_inj [simp]: "(of_char c = (of_char d :: nat)) = (c = d)"
  by (simp add: of_char_eq_iff)

lemma of_char_less [simp]: "(of_char c :: nat) < 256"
  by (metis of_char_mod_256 mod_less_divisor zero_less_numeral)

lemma hex_digit_inj: "m < 16 \<Longrightarrow> n < 16 \<Longrightarrow> hex_digit m = hex_digit n \<Longrightarrow> m = n"
proof -
  assume mn: "m < 16" "n < 16" and e: "hex_digit m = hex_digit n"
  let ?f = "\<lambda>n::nat. if n < 10 then 48 + n else 87 + n"
  have "of_char (hex_digit m) = (of_char (hex_digit n) :: nat)" using e by simp
  then have "?f m mod 256 = ?f n mod 256" by (simp add: hex_digit_def of_char_of)
  with mn show ?thesis by (auto split: if_splits)
qed

lemma hex_pair_inj:
  assumes "hex_digit (of_char c div 16) = hex_digit (of_char d div 16)"
    and "hex_digit (of_char c mod 16) = hex_digit (of_char d mod 16)"
  shows "c = d"
proof -
  have lt: "of_char z div 16 < (16::nat)" for z :: char
    using of_char_less [of z] by (simp add: less_mult_imp_div_less)
  have "of_char c div 16 = (of_char d div 16 :: nat)"
    using hex_digit_inj [OF lt lt assms(1)] .
  moreover have "of_char c mod 16 = (of_char d mod 16 :: nat)"
    using assms(2) by (rule hex_digit_inj [rotated 2]) simp_all
  ultimately have "of_char c = (of_char d :: nat)" by (metis div_mult_mod_eq)
  then show ?thesis by simp
qed

text \<open>The escape of one character can be told from whatever follows it.\<close>

definition json_special :: "char \<Rightarrow> bool" where
  "json_special c \<longleftrightarrow> c = dquote \<or> c = bslash \<or> of_char c < (32::nat) \<or> c = CHR ''<'' \<or>
     c = CHR ''>'' \<or> c = CHR 0x26"

definition esc_shape :: "char \<Rightarrow> char \<Rightarrow> string \<Rightarrow> bool" where
  "esc_shape c d rest \<longleftrightarrow>
     d \<in> {dquote, bslash, CHR ''b'', CHR ''f'', CHR ''n'', CHR ''r'', CHR ''t''} \<and> rest = [] \<or>
     d = CHR ''u'' \<and>
     rest = [CHR ''0'', CHR ''0'', hex_digit (of_char c div 16), hex_digit (of_char c mod 16)]"

lemma json_esc_char_plain: "\<not> json_special c \<Longrightarrow> json_esc_char c = [c] \<and> c \<noteq> bslash"
  by (auto simp: json_esc_char_def json_special_def Let_def)

lemma json_esc_char_escaped:
  assumes "json_special c"
  shows "\<exists>d rest. json_esc_char c = bslash # d # rest \<and> esc_shape c d rest"
  using assms by (auto simp: json_special_def esc_shape_def json_esc_char_def Let_def)

definition short_code :: "char \<Rightarrow> nat" where
  "short_code d =
     (if d = dquote \<or> d = bslash then of_char d else if d = CHR ''b'' then 8
      else if d = CHR ''f'' then 12 else if d = CHR ''n'' then 10 else if d = CHR ''r'' then 13
      else 9)"

lemma json_esc_char_short: "json_esc_char c = [bslash, d] \<Longrightarrow> of_char c = short_code d"
  by (auto simp: json_esc_char_def Let_def short_code_def split: if_splits)

lemma json_esc_char_inj:
  assumes "json_esc_char c = json_esc_char d"
  shows "c = d"
proof -
  consider "\<not> json_special c" "\<not> json_special d" | "\<not> json_special c" "json_special d"
    | "json_special c" "\<not> json_special d" | "json_special c" "json_special d" by blast
  then show ?thesis
  proof cases
    case 1
    then show ?thesis using assms by (simp add: json_esc_char_plain)
  next
    case 2
    then show ?thesis using assms by (metis json_esc_char_plain json_esc_char_escaped list.inject)
  next
    case 3
    then show ?thesis using assms by (metis json_esc_char_plain json_esc_char_escaped list.inject)
  next
    case 4
    obtain x xr where c: "json_esc_char c = bslash # x # xr" "esc_shape c x xr"
      using json_esc_char_escaped [OF 4(1)] by blast
    obtain y yr where d: "json_esc_char d = bslash # y # yr" "esc_shape d y yr"
      using json_esc_char_escaped [OF 4(2)] by blast
    from assms c(1) d(1) have xy: "y = x" "yr = xr" by simp_all
    have "of_char c = (of_char d :: nat)"
    proof (cases "xr = []")
      case True
      with c d xy have "json_esc_char c = [bslash, x]" "json_esc_char d = [bslash, x]" by simp_all
      from json_esc_char_short [OF this(1)] json_esc_char_short [OF this(2)]
      show ?thesis by simp
    next
      case False
      with c(2) d(2) xy
      have "hex_digit (of_char c div 16) = hex_digit (of_char d div 16)"
        "hex_digit (of_char c mod 16) = hex_digit (of_char d mod 16)"
        by (simp_all add: esc_shape_def)
      then show ?thesis using hex_pair_inj by blast
    qed
    then show ?thesis by simp
  qed
qed

lemma json_esc_char_prefix_free:
  assumes "json_esc_char c @ x = json_esc_char d @ y"
  shows "c = d \<and> x = y"
proof -
  have len: "length (json_esc_char c) \<in> {1, 2, 6}" "length (json_esc_char d) \<in> {1, 2, 6}"
    by (auto simp: json_esc_char_def Let_def)
  have hd1: "length (json_esc_char z) = 1 \<longleftrightarrow> hd (json_esc_char z) \<noteq> bslash" for z
    by (auto simp: json_esc_char_def Let_def)
  have hd2: "length (json_esc_char z) = 6 \<longleftrightarrow>
     hd (json_esc_char z) = bslash \<and> json_esc_char z ! 1 = CHR ''u''" for z
    by (auto simp: json_esc_char_def Let_def)
  have ne: "json_esc_char z \<noteq> []" for z by (auto simp: json_esc_char_def Let_def)
  have h: "hd (json_esc_char c) = hd (json_esc_char d)" using assms ne by (metis hd_append2)
  have "length (json_esc_char c) = length (json_esc_char d)"
  proof (cases "hd (json_esc_char c) = bslash")
    case True
    then have "length (json_esc_char c) > 1" "length (json_esc_char d) > 1"
      using hd1 [of c] hd1 [of d] h len by auto
    then have "json_esc_char c ! 1 = json_esc_char d ! 1"
      using assms by (metis nth_append)
    then have "length (json_esc_char c) = 6 \<longleftrightarrow> length (json_esc_char d) = 6"
      using hd2 [of c] hd2 [of d] h by simp
    with len \<open>length (json_esc_char c) > 1\<close> \<open>length (json_esc_char d) > 1\<close> show ?thesis by auto
  next
    case False
    then show ?thesis using hd1 [of c] hd1 [of d] h by simp
  qed
  with assms have "json_esc_char c = json_esc_char d \<and> x = y" by (simp add: append_eq_append_conv)
  then show ?thesis using json_esc_char_inj by blast
qed

text \<open>An escaped character never is a bare quote, nor one of the two escaped separators.\<close>

lemma json_esc_char_not_quote: "json_esc_char c @ x \<noteq> dquote # y"
  by (auto simp: json_esc_char_def Let_def)

lemma json_esc_char_not_2028:
  "json_esc_char c @ x \<noteq> bslash # CHR ''u'' # CHR ''2'' # y"
  by (auto simp: json_esc_char_def Let_def)

lemma json_esc_quote_inj:
  "json_esc s @ dquote # x = json_esc t @ dquote # y \<Longrightarrow> s = t \<and> x = y"
proof (induction s arbitrary: t rule: json_esc.induct)
  case 1
  then show ?case
    by (cases t) (auto simp: json_esc_char_not_quote [symmetric] split: if_splits)
next
  case (2 c s)
  let ?p8 = "[CHR 0xE2, CHR 0x80, CHR 0xA8]" and ?p9 = "[CHR 0xE2, CHR 0x80, CHR 0xA9]"
  have drop2: "prefix [a, b, e] (c # s) \<Longrightarrow> c # s = a # b # e # drop 2 s" for a b e
    by (auto simp: prefix_def numeral_2_eq_2)
  show ?case
  proof (cases t)
    case Nil
    with "2.prems" show ?thesis by (auto simp: json_esc_char_not_quote split: if_splits)
  next
    case (Cons d u)
    have dropu: "prefix [a, b, e] (d # u) \<Longrightarrow> d # u = a # b # e # drop 2 u" for a b e
      by (auto simp: prefix_def numeral_2_eq_2)
    consider (p8) "prefix ?p8 (c # s)" | (p9) "prefix ?p9 (c # s)" "\<not> prefix ?p8 (c # s)"
      | (o) "\<not> prefix ?p8 (c # s)" "\<not> prefix ?p9 (c # s)" by blast
    then show ?thesis
    proof cases
      case p8
      with "2.prems" Cons have e: "(bslash # ''u2028'' @ json_esc (drop 2 s)) @ dquote # x
          = json_esc (d # u) @ dquote # y" by simp
      then have d8: "prefix ?p8 (d # u)"
        using json_esc_char_not_2028 [of d "json_esc u @ dquote # y"]
        by (auto split: if_splits) (metis append_assoc json_esc_char_not_2028)+
      with e have "json_esc (drop 2 s) @ dquote # x = json_esc (drop 2 u) @ dquote # y" by simp
      with "2.IH"(1) p8 have "drop 2 s = drop 2 u \<and> x = y" by simp
      then show ?thesis using drop2 [OF p8] dropu [OF d8] Cons by simp
    next
      case p9
      with "2.prems" Cons have e: "(bslash # ''u2029'' @ json_esc (drop 2 s)) @ dquote # x
          = json_esc (d # u) @ dquote # y" by simp
      then have d9: "prefix ?p9 (d # u) \<and> \<not> prefix ?p8 (d # u)"
        by (auto split: if_splits) (metis append_assoc json_esc_char_not_2028)+
      with e have "json_esc (drop 2 s) @ dquote # x = json_esc (drop 2 u) @ dquote # y" by simp
      with "2.IH"(2) p9 have "drop 2 s = drop 2 u \<and> x = y" by simp
      then show ?thesis using drop2 [OF p9(1)] dropu d9 Cons by simp
    next
      case o
      have cs: "json_esc (c # s) = json_esc_char c @ json_esc s"
        by (simp only: json_esc.simps o if_False)
      from "2.prems" Cons have e: "json_esc_char c @ json_esc s @ dquote # x
          = json_esc (d # u) @ dquote # y" by (simp only: cs append_assoc)
      have od: "\<not> prefix ?p8 (d # u) \<and> \<not> prefix ?p9 (d # u)"
        using e by (auto split: if_splits) (metis json_esc_char_not_2028)+
      then have du: "json_esc (d # u) = json_esc_char d @ json_esc u"
        by (simp only: json_esc.simps if_False)
      from e have "json_esc_char c @ (json_esc s @ dquote # x) = json_esc_char d @ (json_esc u @ dquote # y)"
        by (simp only: du append_assoc)
      from json_esc_char_prefix_free [OF this]
      have "c = d" "json_esc s @ dquote # x = json_esc u @ dquote # y" by simp_all
      with "2.IH"(3) o have "s = u \<and> x = y" by simp
      with \<open>c = d\<close> Cons show ?thesis by simp
    qed
  qed
qed

lemma json_quote_append_inj:
  "json_quote s @ x = json_quote t @ y \<Longrightarrow> s = t \<and> x = y"
  by (auto simp: json_quote_def dest!: json_esc_quote_inj)

text \<open>A text without special characters is quoted as it is.\<close>

lemma json_esc_plain:
  "\<forall>c \<in> set s. \<not> json_special c \<and> (of_char c :: nat) < 128 \<Longrightarrow> json_esc s = s"
proof (induction s)
  case (Cons c s)
  have "c \<noteq> CHR 0xE2" using Cons.prems by auto
  with Cons show ?case by (auto simp: json_esc_char_plain)
qed simp

section \<open>Hexadecimal\<close>

definition hex_byte :: "char \<Rightarrow> string" where
  "hex_byte c = [hex_digit (of_char c div 16), hex_digit (of_char c mod 16)]"

definition hex_encode :: "string \<Rightarrow> string" where
  "hex_encode s = concat (map hex_byte s)"

lemma hex_byte_inj: "hex_byte c = hex_byte d \<Longrightarrow> c = d"
  unfolding hex_byte_def by (auto dest: hex_pair_inj)

lemma hex_encode_inj: "hex_encode s = hex_encode t \<Longrightarrow> s = t"
proof (induction s arbitrary: t)
  case Nil
  then show ?case by (cases t) (auto simp: hex_encode_def hex_byte_def)
next
  case (Cons c s)
  then show ?case
  proof (cases t)
    case Nil
    with Cons show ?thesis by (auto simp: hex_encode_def hex_byte_def)
  next
    fix d u assume t: "t = d # u"
    have "hex_byte c @ hex_encode s = hex_byte d @ hex_encode u"
      using Cons.prems by (simp add: t hex_encode_def)
    then have "hex_byte c = hex_byte d" and "hex_encode s = hex_encode u"
      by (auto simp: hex_byte_def)
    with Cons.IH t hex_byte_inj show ?thesis by blast
  qed
qed

end
