(* ===== verification/GoTime.thy ===== *)
theory GoTime imports GoJson begin

text \<open>
  Go's time formatting as far as the audit log uses it: \<^verbatim>\<open>t.UTC().Format(time.RFC3339Nano)\<close> for a
  time with microsecond precision. A time is its number of microseconds since the Unix epoch. The
  fact the audit chain needs is that such a text has no character JSON would escape.
\<close>

section \<open>Decimal numbers\<close>

definition digit_char :: "nat \<Rightarrow> char" where
  "digit_char n = ''0123456789'' ! (n mod 10)"

fun nat_digits :: "nat \<Rightarrow> string" where
  "nat_digits n =
     (if n < 10 then [digit_char n] else nat_digits (n div 10) @ [digit_char n])"

declare nat_digits.simps [simp del]

definition zero_pad :: "nat \<Rightarrow> string \<Rightarrow> string" where
  "zero_pad w s = replicate (w - length s) (CHR ''0'') @ s"

definition int_digits :: "nat \<Rightarrow> int \<Rightarrow> string" where
  "int_digits w i = (if i < 0 then CHR ''-'' # zero_pad w (nat_digits (nat (- i)))
                     else zero_pad w (nat_digits (nat i)))"

section \<open>The civil calendar\<close>

text \<open>The proleptic Gregorian year, month and day of a number of days since 1970-01-01.\<close>

definition civil_of_days :: "int \<Rightarrow> int \<times> int \<times> int" where
  "civil_of_days days =
     (let z = days + 719468;
          era = z div 146097;
          doe = z - era * 146097;
          yoe = (doe - doe div 1460 + doe div 36524 - doe div 146096) div 365;
          doy = doe - (365 * yoe + yoe div 4 - yoe div 100);
          mp = (5 * doy + 2) div 153;
          d = doy - (153 * mp + 2) div 5 + 1;
          m = (if mp < 10 then mp + 3 else mp - 9)
      in (yoe + era * 400 + (if m \<le> 2 then 1 else 0), m, d))"

definition fraction_digits :: "int \<Rightarrow> string" where
  "fraction_digits us =
     (if us = 0 then []
      else CHR ''.'' # rev (dropWhile (\<lambda>c. c = CHR ''0'') (rev (int_digits 6 us))))"

definition format_rfc3339nano :: "time \<Rightarrow> string" where
  "format_rfc3339nano t =
     (let secs = t div 1000000; sod = secs mod 86400; (y, m, d) = civil_of_days (secs div 86400)
      in int_digits 4 y @ ''-'' @ int_digits 2 m @ ''-'' @ int_digits 2 d @ ''T'' @
         int_digits 2 (sod div 3600) @ '':'' @ int_digits 2 (sod div 60 mod 60) @ '':'' @
         int_digits 2 (sod mod 60) @ fraction_digits (t mod 1000000) @ ''Z'')"

section \<open>Characters of a formatted time\<close>

definition time_chars :: "char set" where
  "time_chars = set ''0123456789-:T.Z''"

lemma time_chars_mem:
  "set ''0123456789'' \<subseteq> time_chars" "CHR ''-'' \<in> time_chars" "CHR ''0'' \<in> time_chars"
  "CHR '':'' \<in> time_chars" "CHR ''T'' \<in> time_chars" "CHR ''.'' \<in> time_chars"
  "CHR ''Z'' \<in> time_chars" "dquote \<notin> time_chars" "bslash \<notin> time_chars"
  by (simp_all add: time_chars_def)

lemma digit_char_mem: "digit_char n \<in> time_chars"
proof -
  have "digit_char n \<in> set ''0123456789''"
    unfolding digit_char_def by (rule nth_mem) simp
  with time_chars_mem(1) show ?thesis by (rule subsetD)
qed

lemma set_nat_digits: "set (nat_digits n) \<subseteq> time_chars"
proof (induction n rule: nat_digits.induct)
  case (1 n)
  then show ?case
    by (subst nat_digits.simps) (simp add: digit_char_mem)
qed

lemma set_zero_pad: "set s \<subseteq> time_chars \<Longrightarrow> set (zero_pad w s) \<subseteq> time_chars"
  unfolding zero_pad_def using time_chars_mem(3) by (simp add: set_replicate_conv_if)

lemma set_int_digits: "set (int_digits w i) \<subseteq> time_chars"
  by (simp add: int_digits_def set_zero_pad set_nat_digits time_chars_mem(2))

lemma set_fraction_digits: "set (fraction_digits us) \<subseteq> time_chars"
proof -
  have "set (dropWhile P (rev (int_digits 6 us))) \<subseteq> time_chars" for P
    using set_int_digits [of 6 us] set_dropWhileD by fastforce
  then show ?thesis by (simp add: fraction_digits_def time_chars_mem(6))
qed

lemma set_format_rfc3339nano: "set (format_rfc3339nano t) \<subseteq> time_chars"
proof -
  obtain y m d where c: "civil_of_days (t div 1000000 div 86400) = (y, m, d)" by (metis prod_cases3)
  show ?thesis
    by (simp add: format_rfc3339nano_def Let_def c set_int_digits set_fraction_digits
        time_chars_mem(2,4,5,7))
qed

lemma civil_of_days_example: "civil_of_days 20284 = (2025, 7, 15)"
  by code_simp

lemma format_example:
  "format_rfc3339nano 1752570000123000 = ''2025-07-15T09:00:00.123Z''"
  by (simp add: format_rfc3339nano_def civil_of_days_example fraction_digits_def nat_digits.simps
      digit_char_def int_digits_def zero_pad_def)

end
