(* ===== verification/HashChain.thy ===== *)
theory HashChain imports Prelude "HOL-Library.Multiset" begin

text \<open>
  Hash chains in general: a list of records in which each carries the digest of its predecessor,
  the first one a fixed seed. Two chains with the same last digest are the same list, unless two
  different records of them have the same digest or one has the seed for its digest. Also here:
  what the theories on ordered tables need of \<open>sort_key\<close>.
\<close>

fun linked :: "('c \<Rightarrow> 'h) \<Rightarrow> ('c \<Rightarrow> 'h) \<Rightarrow> 'h \<Rightarrow> 'c list \<Rightarrow> bool" where
  "linked digest link e [] \<longleftrightarrow> True"
| "linked digest link e (c # cs) \<longleftrightarrow> link c = e \<and> linked digest link (digest c) cs"

definition chain_end :: "('c \<Rightarrow> 'h) \<Rightarrow> 'h \<Rightarrow> 'c list \<Rightarrow> 'h" where
  "chain_end digest e cs = (if cs = [] then e else digest (last cs))"

lemma linked_append:
  "linked d l e (xs @ ys) \<longleftrightarrow> linked d l e xs \<and> linked d l (chain_end d e xs) ys"
  by (induction xs arbitrary: e) (auto simp: chain_end_def)

lemma linked_take: "linked d l e xs \<Longrightarrow> linked d l e (take n xs)"
  by (metis append_take_drop_id linked_append)

lemma chain_end_snoc [simp]: "chain_end d e (xs @ [x]) = d x"
  by (simp add: chain_end_def)

lemma linked_end_unique:
  assumes "linked d l s xs" and "linked d l s ys" and "chain_end d s xs = chain_end d s ys"
    and "\<And>a b. a \<in> set xs \<Longrightarrow> b \<in> set ys \<Longrightarrow> d a = d b \<Longrightarrow> a = b"
    and "\<And>a. a \<in> set xs \<union> set ys \<Longrightarrow> d a \<noteq> s"
  shows "xs = ys"
  using assms
proof (induction xs arbitrary: ys rule: rev_induct)
  case Nil
  then show ?case by (cases ys rule: rev_cases) (auto simp: chain_end_def)
next
  case (snoc x xs)
  show ?case
  proof (cases ys rule: rev_cases)
    case Nil
    with snoc.prems show ?thesis by (auto simp: chain_end_def)
  next
    case (snoc zs z)
    have dxz: "d x = d z" using snoc.prems(3) snoc by simp
    then have xz: "x = z" using snoc.prems(4) snoc by simp
    have "linked d l s xs" "linked d l s zs" "chain_end d s xs = l x" "chain_end d s zs = l z"
      using snoc.prems(1,2) snoc by (auto simp: linked_append)
    with snoc.IH [of zs] snoc.prems(4,5) snoc xz have "xs = zs" by auto
    with xz snoc show ?thesis by simp
  qed
qed

section \<open>Sorting by a key\<close>

lemma sort_key_snoc_max:
  assumes "\<forall>x \<in> set xs. f x \<le> f y"
  shows "sort_key f (xs @ [y]) = sort_key f xs @ [y]"
proof (rule properties_for_sort_key)
  show "mset (sort_key f xs @ [y]) = mset (xs @ [y])" by simp
  show "sorted (map f (sort_key f xs @ [y]))" using assms by (simp add: sorted_append)
  fix k
  show "filter (\<lambda>x. f k = f x) (sort_key f xs @ [y]) = filter (\<lambda>x. f k = f x) (xs @ [y])"
    using sort_key_stable [of f "f k" xs] by (simp add: eq_commute [of "f k"])
qed

lemma sort_key_swap: "f b < f a \<Longrightarrow> sort_key f [a, b] = [b, a]"
  by (simp add: not_le [symmetric])

lemma filter_le_sorted:
  fixes f :: "'a \<Rightarrow> 'b :: linorder"
  shows "sorted (map f xs) \<Longrightarrow> filter (\<lambda>x. f x \<le> k) xs = takeWhile (\<lambda>x. f x \<le> k) xs"
proof (induction xs)
  case (Cons x xs)
  show ?case
  proof (cases "f x \<le> k")
    case False
    then have "\<forall>y \<in> set xs. \<not> f y \<le> k" using Cons.prems by auto
    with False show ?thesis by (simp add: filter_eq_empty_iff)
  qed (use Cons in simp)
qed simp

end
