(* ===== verification/AuditLog.thy ===== *)
theory AuditLog imports Httpx GoTime HashChain "HOL-Library.Product_Lexorder" begin

text \<open>
  The tamper-evident audit log of \<^verbatim>\<open>internal/operations/audit/audit.go\<close>: \<^verbatim>\<open>Record\<close> appends a row to
  a per-tenant hash chain inside the caller's transaction. The row is serialised in the fixed field
  order of \<^verbatim>\<open>canonicalRow\<close> (here down to the bytes \<^verbatim>\<open>encoding/json\<close> writes) and hashed together with
  the hash of the preceding row. The queries are those of \<^verbatim>\<open>internal/operations/audit/queries.sql\<close>.

  What is not in the repository is a parameter, gathered in \<open>audit_ext\<close>: SHA-256, the text of a
  UUID (\<^verbatim>\<open>google/uuid\<close>), what Postgres makes of an \<^verbatim>\<open>inet\<close> and of a \<^verbatim>\<open>jsonb\<close> value when it stores it
  and gives it back, and the re-encoding of that JSON.
\<close>

section \<open>Events\<close>

record audit_event =
  ev_tenant :: "uuid option"
  ev_actor_user :: "uuid option"
  ev_actor_type :: string
  ev_action :: string
  ev_res_type :: string
  ev_res_id :: "uuid option"
  ev_ip :: string
  ev_user_agent :: string
  ev_request_id :: string
  ev_metadata :: string \<comment> \<open>the JSON text of the metadata map\<close>

record actor =
  a_user_id :: "uuid option"
  a_type :: string
  a_ip :: string
  a_user_agent :: string
  a_request_id :: string

definition platform_event :: "actor \<Rightarrow> string \<Rightarrow> string \<Rightarrow> uuid \<Rightarrow> string \<Rightarrow> audit_event" where
  "platform_event a action rtype rid meta =
     \<lparr>ev_tenant = None, ev_actor_user = a_user_id a, ev_actor_type = a_type a, ev_action = action,
      ev_res_type = rtype, ev_res_id = Some rid, ev_ip = a_ip a, ev_user_agent = a_user_agent a,
      ev_request_id = a_request_id a, ev_metadata = meta\<rparr>"

definition tenant_event ::
  "actor \<Rightarrow> uuid \<Rightarrow> string \<Rightarrow> string \<Rightarrow> uuid \<Rightarrow> string \<Rightarrow> audit_event" where
  "tenant_event a tid action rtype rid meta =
     (platform_event a action rtype rid meta)\<lparr>ev_tenant := Some tid\<rparr>"

lemma tenant_event_ip: "ev_ip (tenant_event who tid action rtype rid meta) = a_ip who"
  by (simp add: tenant_event_def platform_event_def)

text \<open>The JSON text of a metadata map whose keys are given in sorted order, values already encoded.\<close>

definition json_object :: "(string \<times> string) list \<Rightarrow> string" where
  "json_object kvs =
     ''{'' @ str_join (CHR '','') (map (\<lambda>(k, v). json_quote k @ '':'' @ v) kvs) @ ''}''"

definition json_bool :: "bool \<Rightarrow> string" where
  "json_bool b = (if b then ''true'' else ''false'')"

section \<open>The canonical row\<close>

record canonical_row =
  cr_id :: string
  cr_tenant_id :: string
  cr_actor_user_id :: string
  cr_actor_type :: string
  cr_action :: string
  cr_resource_type :: string
  cr_resource_id :: string
  cr_ip :: string
  cr_user_agent :: string
  cr_request_id :: string
  cr_metadata :: string
  cr_created_at :: string
  cr_prev_hash :: string

definition json_field :: "string \<Rightarrow> string \<Rightarrow> string" where
  "json_field k v = json_quote k @ '':'' @ v"

definition marshal_row :: "canonical_row \<Rightarrow> string" where
  "marshal_row r =
     ''{'' @ json_field ''id'' (json_quote (cr_id r)) @
     '','' @ json_field ''tenant_id'' (json_quote (cr_tenant_id r)) @
     '','' @ json_field ''actor_user_id'' (json_quote (cr_actor_user_id r)) @
     '','' @ json_field ''actor_type'' (json_quote (cr_actor_type r)) @
     '','' @ json_field ''action'' (json_quote (cr_action r)) @
     '','' @ json_field ''resource_type'' (json_quote (cr_resource_type r)) @
     '','' @ json_field ''resource_id'' (json_quote (cr_resource_id r)) @
     '','' @ json_field ''ip'' (json_quote (cr_ip r)) @
     '','' @ json_field ''user_agent'' (json_quote (cr_user_agent r)) @
     '','' @ json_field ''request_id'' (json_quote (cr_request_id r)) @
     '','' @ json_field ''metadata'' (cr_metadata r) @
     '','' @ json_field ''created_at'' (json_quote (cr_created_at r)) @
     '','' @ json_field ''prev_hash'' (json_quote (cr_prev_hash r)) @ ''}''"

record audit_ext =
  ax_sha256 :: "string \<Rightarrow> string"
  ax_uuid :: "uuid \<Rightarrow> string"
  ax_inet :: "string \<Rightarrow> string option" \<comment> \<open>host(text::inet), or invalid input\<close>
  ax_jsonb :: "string \<Rightarrow> string" \<comment> \<open>the bytes of a stored jsonb value\<close>
  ax_remarshal :: "string \<Rightarrow> string option option" \<comment> \<open>decode to a map and encode again\<close>

definition uuid_str :: "audit_ext \<Rightarrow> uuid option \<Rightarrow> string" where
  "uuid_str x u = (case u of None \<Rightarrow> [] | Some i \<Rightarrow> ax_uuid x i)"

definition canonical_of :: "audit_ext \<Rightarrow> audit_event \<Rightarrow> uuid \<Rightarrow> time \<Rightarrow> string \<Rightarrow> string \<Rightarrow> canonical_row"
  where
  "canonical_of x e i created meta prev =
     \<lparr>cr_id = ax_uuid x i, cr_tenant_id = uuid_str x (ev_tenant e),
      cr_actor_user_id = uuid_str x (ev_actor_user e), cr_actor_type = ev_actor_type e,
      cr_action = ev_action e, cr_resource_type = ev_res_type e,
      cr_resource_id = uuid_str x (ev_res_id e), cr_ip = ev_ip e,
      cr_user_agent = ev_user_agent e, cr_request_id = ev_request_id e, cr_metadata = meta,
      cr_created_at = format_rfc3339nano created, cr_prev_hash = prev\<rparr>"

definition canonicalize ::
  "audit_ext \<Rightarrow> audit_event \<Rightarrow> uuid \<Rightarrow> time \<Rightarrow> string \<Rightarrow> string \<Rightarrow> string" where
  "canonicalize x e i created meta prev = marshal_row (canonical_of x e i created meta prev)"

definition hash_hex :: "audit_ext \<Rightarrow> string \<Rightarrow> string" where
  "hash_hex x b = hex_encode (ax_sha256 x b)"

definition chain_seed :: string where
  "chain_seed = replicate 64 (CHR ''0'')"

section \<open>The table and its queries\<close>

record audit_row =
  ar_id :: uuid
  ar_tenant :: "uuid option"
  ar_actor_user :: "uuid option"
  ar_actor_type :: string
  ar_action :: string
  ar_res_type :: string
  ar_res_id :: "uuid option"
  ar_ip :: "string option"
  ar_user_agent :: string
  ar_request_id :: string
  ar_metadata :: string
  ar_created :: time
  ar_prev :: "string option"
  ar_hash :: "string option"

record audit_db =
  audit_rows :: "audit_row list"

text \<open>
  The hashed rows of one chain in the order of \<^verbatim>\<open>ListAuditEventsForVerify\<close>, that is by creation time
  and then by id; \<^verbatim>\<open>GetAuditChainTip\<close> reads the same order from its other end.
\<close>

definition audit_key :: "audit_row \<Rightarrow> time \<times> uuid" where
  "audit_key r = (ar_created r, ar_id r)"

definition chain_rows :: "uuid option \<Rightarrow> audit_row list \<Rightarrow> audit_row list" where
  "chain_rows t rows = sort_key audit_key (filter (\<lambda>r. ar_tenant r = t \<and> ar_hash r \<noteq> None) rows)"

definition chain_tip :: "uuid option \<Rightarrow> audit_row list \<Rightarrow> string option" where
  "chain_tip t rows = (case rev (chain_rows t rows) of [] \<Rightarrow> None | r # _ \<Rightarrow> ar_hash r)"

text \<open>\<^verbatim>\<open>InsertAuditEvent\<close>: the empty IP is stored as NULL, any other is cast to \<^verbatim>\<open>inet\<close>.\<close>

definition insert_audit ::
  "audit_ext \<Rightarrow> string \<Rightarrow> audit_row \<Rightarrow> audit_row list \<Rightarrow> go_error + audit_row list" where
  "insert_audit x ip r rows =
     (if ip \<noteq> [] \<and> ax_inet x ip = None then Inl (PgErr ''22P02'')
      else if ar_id r \<in> set (map ar_id rows) then Inl unique_violation
      else Inr (rows @ [r\<lparr>ar_ip := (if ip = [] then None else ax_inet x ip),
                          ar_metadata := ax_jsonb x (ar_metadata r)\<rparr>]))"

section \<open>Record\<close>

definition default_actor :: "audit_event \<Rightarrow> audit_event" where
  "default_actor e = (if ev_actor_type e = [] then e\<lparr>ev_actor_type := ''user''\<rparr> else e)"

definition default_meta :: "string \<Rightarrow> string" where
  "default_meta m = (if m = [] \<or> m = ''null'' then ''{}'' else m)"

definition make_row ::
  "audit_ext \<Rightarrow> audit_event \<Rightarrow> uuid \<Rightarrow> time \<Rightarrow> string \<Rightarrow> string \<Rightarrow> audit_row" where
  "make_row x e i created meta prev =
     \<lparr>ar_id = i, ar_tenant = ev_tenant e, ar_actor_user = ev_actor_user e,
      ar_actor_type = ev_actor_type e, ar_action = ev_action e, ar_res_type = ev_res_type e,
      ar_res_id = ev_res_id e, ar_ip = None, ar_user_agent = ev_user_agent e,
      ar_request_id = ev_request_id e, ar_metadata = meta, ar_created = created,
      ar_prev = Some prev,
      ar_hash = Some (hash_hex x (canonicalize x e i created meta prev))\<rparr>"

definition record_audit :: "audit_ext \<Rightarrow> audit_event \<Rightarrow> ('z audit_db_scheme, unit) io" where
  "record_audit x ev =
     (let e = default_actor ev; meta = default_meta (ev_metadata ev) in
      then_io (db_read (\<lambda>_. ()))
       (bind_io (db_read (\<lambda>w. chain_tip (ev_tenant e) (audit_rows w))) (\<lambda>tip.
        let prev = (case tip of None \<Rightarrow> chain_seed | Some h \<Rightarrow> trim_space h) in
        bind_io uuid_new (\<lambda>i.
        bind_io time_now (\<lambda>created.
          db_call (\<lambda>w.
            (case insert_audit x (ev_ip e) (make_row x e i created meta prev) (audit_rows w) of
               Inl err \<Rightarrow> (Inl err, w)
             | Inr rows \<Rightarrow> (Inr (), w\<lparr>audit_rows := rows\<rparr>))))))))"

section \<open>A successful Record\<close>

definition link_hash :: "string option \<Rightarrow> string" where
  "link_hash tip = (case tip of None \<Rightarrow> chain_seed | Some h \<Rightarrow> trim_space h)"

text \<open>The row as it is stored: \<open>make_row\<close> with the address and the metadata as Postgres keeps them.\<close>

definition stored_row :: "audit_ext \<Rightarrow> audit_event \<Rightarrow> uuid \<Rightarrow> time \<Rightarrow> string \<Rightarrow> audit_row" where
  "stored_row x ev i created prev =
     (make_row x (default_actor ev) i created (default_meta (ev_metadata ev)) prev)
       \<lparr>ar_ip := (if ev_ip ev = [] then None else ax_inet x (ev_ip ev)),
        ar_metadata := ax_jsonb x (default_meta (ev_metadata ev))\<rparr>"

lemma default_actor_simps [simp]:
  "ev_tenant (default_actor e) = ev_tenant e" "ev_ip (default_actor e) = ev_ip e"
  "ev_metadata (default_actor e) = ev_metadata e"
  by (simp_all add: default_actor_def)

lemma record_audit_ok:
  assumes "record_audit x ev e w = (Inr u, e', w')"
  obtains i created where
    "i = e_uuid e (e_uuids e)" and "created = e_clock e (e_ticks e)"
    and "i \<notin> set (map ar_id (audit_rows w))" and "ev_ip ev = [] \<or> ax_inet x (ev_ip ev) \<noteq> None"
    and "w' = w\<lparr>audit_rows := audit_rows w @
           [stored_row x ev i created (link_hash (chain_tip (ev_tenant ev) (audit_rows w)))]\<rparr>"
    and "e_uuid e' = e_uuid e" and "e_uuids e' = Suc (e_uuids e)"
    and "e_clock e' = e_clock e" and "e_ticks e' = Suc (e_ticks e)"
proof -
  have "(\<exists>z. ax_inet x (ev_ip ev) = Some z) \<or> ev_ip ev = []"
    and "e_uuid e (e_uuids e) \<notin> set (map ar_id (audit_rows w))"
    and "w' = w\<lparr>audit_rows := audit_rows w @ [stored_row x ev (e_uuid e (e_uuids e))
        (e_clock e (e_ticks e)) (link_hash (chain_tip (ev_tenant ev) (audit_rows w)))]\<rparr>"
    and "e_uuid e' = e_uuid e" "e_uuids e' = Suc (e_uuids e)"
    "e_clock e' = e_clock e" "e_ticks e' = Suc (e_ticks e)"
    using assms
    by (auto simp: record_audit_def Let_def io_ok insert_audit_def make_row_def stored_row_def
        link_hash_def split: if_splits sum.splits option.splits)
  with that show thesis by auto
qed

lemma record_audit_appends:
  "record_audit x ev e w = (Inr u, e', w') \<Longrightarrow>
   audit_rows w' = audit_rows w @ [stored_row x ev (e_uuid e (e_uuids e)) (e_clock e (e_ticks e))
      (link_hash (chain_tip (ev_tenant ev) (audit_rows w)))]"
  by (erule record_audit_ok) simp

lemma record_audit_bad_ip:
  assumes "ev_ip ev \<noteq> []" and "ax_inet x (ev_ip ev) = None"
  shows "record_audit x ev e w \<noteq> (Inr u, e', w')"
  using assms by (auto elim!: record_audit_ok)

lemma atomic_record_audit [intro, simp]: "atomic (record_audit x ev)"
  unfolding record_audit_def Let_def by (intro atomic_bind_reads reads_intros atomic_db_call)

lemma record_audit_frame:
  assumes "record_audit x ev e w = (r, e', w')"
  shows "prefix (audit_rows w) (audit_rows w')"
    and "\<exists>rows. w' = w\<lparr>audit_rows := rows\<rparr>"
proof -
  have "w' = w \<or> (\<exists>row. w' = w\<lparr>audit_rows := audit_rows w @ [row]\<rparr>)"
  proof (cases r)
    case (Inl y)
    with assms atomicD [OF atomic_record_audit] show ?thesis by blast
  next
    case (Inr u)
    with assms show ?thesis by (auto elim!: record_audit_ok)
  qed
  then show "prefix (audit_rows w) (audit_rows w')" and "\<exists>rows. w' = w\<lparr>audit_rows := rows\<rparr>"
    by (auto intro: exI [of _ "audit_rows w"])
qed

section \<open>Chains after an append\<close>

lemma stored_row_simps [simp]:
  "ar_tenant (stored_row x ev i c p) = ev_tenant ev"
  "ar_id (stored_row x ev i c p) = i" "ar_created (stored_row x ev i c p) = c"
  "ar_prev (stored_row x ev i c p) = Some p" "audit_key (stored_row x ev i c p) = (c, i)"
  "ar_metadata (stored_row x ev i c p) = ax_jsonb x (default_meta (ev_metadata ev))"
  by (simp_all add: stored_row_def make_row_def audit_key_def)

lemma stored_row_hash [simp]:
  "ar_hash (stored_row x ev i c p) =
     Some (hash_hex x (canonicalize x (default_actor ev) i c (default_meta (ev_metadata ev)) p))"
  by (simp add: stored_row_def make_row_def)

lemma chain_rows_other: "ar_tenant r \<noteq> t \<Longrightarrow> chain_rows t (rows @ [r]) = chain_rows t rows"
  by (simp add: chain_rows_def)

lemma chain_rows_append:
  assumes "ar_tenant r = t" and "ar_hash r \<noteq> None"
    and "\<forall>q \<in> set (chain_rows t rows). audit_key q \<le> audit_key r"
  shows "chain_rows t (rows @ [r]) = chain_rows t rows @ [r]"
  using assms unfolding chain_rows_def by (simp add: sort_key_snoc_max)

lemma set_chain_rows:
  "set (chain_rows t rows) = {r \<in> set rows. ar_tenant r = t \<and> ar_hash r \<noteq> None}"
  by (auto simp: chain_rows_def)

lemma chain_rows_sorted: "sorted (map audit_key (chain_rows t rows))"
  by (simp add: chain_rows_def)

lemma chain_rows_filter: "chain_rows t (filter Q rows) = filter Q (chain_rows t rows)"
proof -
  have "filter (\<lambda>r. ar_tenant r = t \<and> ar_hash r \<noteq> None) (filter Q rows) =
      filter Q (filter (\<lambda>r. ar_tenant r = t \<and> ar_hash r \<noteq> None) rows)"
    by (induction rows) auto
  then show ?thesis by (simp only: chain_rows_def filter_sort)
qed

section \<open>A Record without faults\<close>

definition after_record :: "env \<Rightarrow> env" where
  "after_record e = e\<lparr>e_calls := e_calls e + 3, e_uuids := Suc (e_uuids e), e_ticks := Suc (e_ticks e)\<rparr>"

lemma after_record_simps [simp]:
  "e_fault (after_record e) = e_fault e" "e_clock (after_record e) = e_clock e"
  "e_uuid (after_record e) = e_uuid e" "e_ticks (after_record e) = Suc (e_ticks e)"
  "e_uuids (after_record e) = Suc (e_uuids e)"
  by (simp_all add: after_record_def)

lemma record_audit_runs:
  assumes "\<And>n. \<not> e_fault e n" and "ev_ip ev = [] \<or> ax_inet x (ev_ip ev) \<noteq> None"
    and "e_uuid e (e_uuids e) \<notin> set (map ar_id (audit_rows w))"
  shows "record_audit x ev e w = (Inr (), after_record e, w\<lparr>audit_rows := audit_rows w @
     [stored_row x ev (e_uuid e (e_uuids e)) (e_clock e (e_ticks e))
        (link_hash (chain_tip (ev_tenant ev) (audit_rows w)))]\<rparr>)"
proof -
  have "insert_audit x (ev_ip ev) (make_row x (default_actor ev) i c (default_meta (ev_metadata ev)) p) rows
      = Inr (rows @ [stored_row x ev i c p])" if "i \<notin> set (map ar_id rows)" for i c p rows
    using that assms(2) by (auto simp: insert_audit_def stored_row_def make_row_def)
  with assms(1,3) show ?thesis
    by (simp add: record_audit_def Let_def bind_io_def db_read_def db_call_def uuid_new_def
        time_now_def after_record_def link_hash_def)
qed

lemma quiet_env_simps [simp]:
  "e_fault (quiet_env c u) n = False" "e_clock (quiet_env c u) = c" "e_uuid (quiet_env c u) = u"
  "e_ticks (quiet_env c u) = 0" "e_uuids (quiet_env c u) = 0" "e_calls (quiet_env c u) = 0"
  by (simp_all add: quiet_env_def)

end
