(* ===== verification/AuditVerify.thy ===== *)
theory AuditVerify imports AuditLog begin

text \<open>
  The verifier of \<^verbatim>\<open>internal/operations/audit/verifier.go\<close> and what it establishes of the chains
  \<open>record_audit\<close> builds: a chain appended to in key order keeps verifying; a chain that verifies is
  determined by its last hash, so that an edited or reordered log with the same tip shows a SHA-256
  collision; and the three ways in which the log and the verifier disagree without tampering, or
  agree in spite of it.
\<close>

section \<open>Verify\<close>

record verify_result =
  vr_ok :: bool
  vr_rows_checked :: nat
  vr_last_verified :: "uuid option"
  vr_broken_at :: "uuid option"
  vr_reason :: string

definition normalise_metadata :: "audit_ext \<Rightarrow> string \<Rightarrow> go_error + string" where
  "normalise_metadata x raw =
     (if raw = [] \<or> raw = ''null'' then Inr ''{}''
      else (case ax_remarshal x raw of
              None \<Rightarrow> Inl (PlainErr ''invalid metadata'')
            | Some None \<Rightarrow> Inr ''{}''
            | Some (Some m) \<Rightarrow> Inr m))"

definition row_event :: "audit_row \<Rightarrow> audit_event" where
  "row_event r =
     \<lparr>ev_tenant = ar_tenant r, ev_actor_user = ar_actor_user r, ev_actor_type = ar_actor_type r,
      ev_action = ar_action r, ev_res_type = ar_res_type r, ev_res_id = ar_res_id r,
      ev_ip = (case ar_ip r of None \<Rightarrow> [] | Some ip \<Rightarrow> ip), ev_user_agent = ar_user_agent r,
      ev_request_id = ar_request_id r, ev_metadata = []\<rparr>"

definition hash_text :: "string option \<Rightarrow> string" where
  "hash_text h = (case h of None \<Rightarrow> [] | Some s \<Rightarrow> trim_space s)"

definition row_canonical :: "audit_ext \<Rightarrow> audit_row \<Rightarrow> string \<Rightarrow> canonical_row" where
  "row_canonical x r meta =
     canonical_of x (row_event r) (ar_id r) (ar_created r) meta (hash_text (ar_prev r))"

definition broken_result :: "nat \<Rightarrow> uuid option \<Rightarrow> uuid \<Rightarrow> string \<Rightarrow> verify_result" where
  "broken_result n last_id i reason =
     \<lparr>vr_ok = False, vr_rows_checked = n, vr_last_verified = last_id, vr_broken_at = Some i,
      vr_reason = reason\<rparr>"

fun verify_loop ::
  "audit_ext \<Rightarrow> string \<Rightarrow> nat \<Rightarrow> uuid option \<Rightarrow> audit_row list \<Rightarrow> go_error + verify_result" where
  "verify_loop x expected n last_id [] =
     Inr \<lparr>vr_ok = True, vr_rows_checked = n, vr_last_verified = last_id, vr_broken_at = None,
          vr_reason = []\<rparr>"
| "verify_loop x expected n last_id (r # rs) =
     (if hash_text (ar_prev r) \<noteq> expected then
        Inr (broken_result n last_id (ar_id r) ''prev_hash does not match preceding row_hash'')
      else
        (case normalise_metadata x (ar_metadata r) of
           Inl e \<Rightarrow> Inl e
         | Inr meta \<Rightarrow>
             if hash_hex x (marshal_row (row_canonical x r meta)) \<noteq> hash_text (ar_hash r) then
               Inr (broken_result n last_id (ar_id r) ''row_hash does not match recomputed hash'')
             else verify_loop x (hash_text (ar_hash r)) (Suc n) (Some (ar_id r)) rs))"

definition verify :: "audit_ext \<Rightarrow> uuid option \<Rightarrow> ('z audit_db_scheme, verify_result) io" where
  "verify x t =
     bind_io (db_read (\<lambda>w. chain_rows t (audit_rows w)))
       (\<lambda>rows. lift_res (verify_loop x chain_seed 0 None rows))"

section \<open>What a verified chain is\<close>

definition row_valid :: "audit_ext \<Rightarrow> string \<Rightarrow> audit_row \<Rightarrow> bool" where
  "row_valid x expected r \<longleftrightarrow> hash_text (ar_prev r) = expected \<and>
     (\<exists>meta. normalise_metadata x (ar_metadata r) = Inr meta \<and>
       hash_hex x (marshal_row (row_canonical x r meta)) = hash_text (ar_hash r))"

fun chain_valid :: "audit_ext \<Rightarrow> string \<Rightarrow> audit_row list \<Rightarrow> bool" where
  "chain_valid x expected [] \<longleftrightarrow> True"
| "chain_valid x expected (r # rs) \<longleftrightarrow>
     row_valid x expected r \<and> chain_valid x (hash_text (ar_hash r)) rs"

definition last_hash :: "string \<Rightarrow> audit_row list \<Rightarrow> string" where
  "last_hash e rows = chain_end (\<lambda>r. hash_text (ar_hash r)) e rows"

lemma chain_valid_append:
  "chain_valid x e (xs @ ys) \<longleftrightarrow> chain_valid x e xs \<and> chain_valid x (last_hash e xs) ys"
  by (induction xs arbitrary: e) (auto simp: last_hash_def chain_end_def)

lemma chain_valid_take: "chain_valid x e rows \<Longrightarrow> chain_valid x e (take n rows)"
  by (metis append_take_drop_id chain_valid_append)

lemma verify_loop_valid:
  "chain_valid x e rows \<Longrightarrow>
   verify_loop x e n l rows =
     Inr \<lparr>vr_ok = True, vr_rows_checked = n + length rows,
          vr_last_verified = (if rows = [] then l else Some (ar_id (last rows))),
          vr_broken_at = None, vr_reason = []\<rparr>"
  by (induction rows arbitrary: e n l) (auto simp: row_valid_def)

lemma verify_loop_ok_valid:
  "verify_loop x e n l rows = Inr v \<Longrightarrow> vr_ok v \<Longrightarrow> chain_valid x e rows"
  by (induction rows arbitrary: e n l)
     (auto simp: row_valid_def broken_result_def split: if_splits sum.splits)

lemma verify_loop_broken:
  assumes "verify_loop x e n l rows = Inr v" and "\<not> vr_ok v"
  shows "\<exists>i < length rows. vr_broken_at v = Some (ar_id (rows ! i)) \<and> vr_rows_checked v = n + i \<and>
     chain_valid x e (take i rows) \<and> \<not> chain_valid x e (take (Suc i) rows)"
  using assms
proof (induction rows arbitrary: e n l)
  case Nil
  then show ?case by auto
next
  case (Cons r rs)
  show ?case
  proof (cases "row_valid x e r")
    case True
    with Cons.prems have "verify_loop x (hash_text (ar_hash r)) (Suc n) (Some (ar_id r)) rs = Inr v"
      by (auto simp: row_valid_def)
    with Cons.IH Cons.prems(2) obtain i where "i < length rs"
      "vr_broken_at v = Some (ar_id (rs ! i))" "vr_rows_checked v = Suc n + i"
      "chain_valid x (hash_text (ar_hash r)) (take i rs)"
      "\<not> chain_valid x (hash_text (ar_hash r)) (take (Suc i) rs)" by blast
    with True show ?thesis by (intro exI [of _ "Suc i"]) auto
  next
    case False
    with Cons.prems show ?thesis
      by (intro exI [of _ 0])
         (auto simp: row_valid_def broken_result_def split: if_splits sum.splits)
  qed
qed

section \<open>The canonical text determines the row\<close>

lemma quote_split_last:
  assumes "dquote \<notin> set a" and "dquote \<notin> set b" and "xs @ dquote # a = ys @ dquote # b"
  shows "xs = ys \<and> a = b"
  using last_split_unique [OF assms(3,1,2)] .

definition plain_text :: "string \<Rightarrow> bool" where
  "plain_text s \<longleftrightarrow> (\<forall>c \<in> set s. \<not> json_special c \<and> (of_char c :: nat) < 128)"

lemma plain_text_no_quote: "plain_text s \<Longrightarrow> dquote \<notin> set s"
  by (auto simp: plain_text_def json_special_def)

lemma plain_text_quote: "plain_text s \<Longrightarrow> json_quote s = dquote # s @ [dquote]"
  by (simp add: json_quote_def plain_text_def json_esc_plain)

definition row_tail :: "string \<Rightarrow> string \<Rightarrow> string" where
  "row_tail t h = '','' @ json_field ''created_at'' (json_quote t) @
     '','' @ json_field ''prev_hash'' (json_quote h) @ ''}''"

lemma row_tail_inj:
  assumes "plain_text t" "plain_text h" "plain_text t'" "plain_text h'"
    and "m @ row_tail t h = m' @ row_tail t' h'"
  shows "m = m' \<and> t = t' \<and> h = h'"
proof -
  let ?k1 = "'','' @ json_quote ''created_at'' @ '':''" and ?k2 = "'','' @ json_quote ''prev_hash'' @ '':''"
  have tail: "row_tail t h = ?k1 @ dquote # t @ dquote # ?k2 @ dquote # h @ dquote # ''}''"
    if "plain_text t" "plain_text h" for t h
    using that by (simp add: row_tail_def json_field_def plain_text_quote)
  have nq: "dquote \<notin> set ''}''" by simp
  have e: "(m @ ?k1 @ dquote # t @ dquote # ?k2 @ dquote # h) @ dquote # ''}'' =
     (m' @ ?k1 @ dquote # t' @ dquote # ?k2 @ dquote # h') @ dquote # ''}''"
    using assms by (simp add: tail)
  then have e1: "(m @ ?k1 @ dquote # t @ dquote # ?k2) @ dquote # h =
     (m' @ ?k1 @ dquote # t' @ dquote # ?k2) @ dquote # h'" by simp
  from quote_split_last [OF _ _ e1] assms(2,4)
  have h: "h = h'" and "(m @ ?k1 @ dquote # t @ [dquote]) @ ?k2 = (m' @ ?k1 @ dquote # t' @ [dquote]) @ ?k2"
    by (auto simp: plain_text_no_quote)
  then have e2: "(m @ ?k1 @ dquote # t) @ dquote # [] = (m' @ ?k1 @ dquote # t') @ dquote # []"
    by simp
  then have "(m @ ?k1) @ dquote # t = (m' @ ?k1) @ dquote # t'" by simp
  from quote_split_last [OF _ _ this] assms(1,3) h show ?thesis
    by (auto simp: plain_text_no_quote)
qed

definition fields_text :: "(string \<times> string) list \<Rightarrow> string" where
  "fields_text kvs = concat (map (\<lambda>(k, v). json_field k (json_quote v) @ '','') kvs)"

lemma fields_text_inj:
  "map fst kvs = map fst kvs' \<Longrightarrow> fields_text kvs @ x = fields_text kvs' @ y \<Longrightarrow> kvs = kvs' \<and> x = y"
proof (induction kvs arbitrary: kvs')
  case Nil
  then show ?case by (simp add: fields_text_def)
next
  case (Cons kv kvs)
  obtain k v where kv: "kv = (k, v)" by (cases kv)
  from Cons.prems(1) kv obtain v' rest where kvs': "kvs' = (k, v') # rest"
    and m: "map fst kvs = map fst rest" by (cases kvs') auto
  from Cons.prems(2) have "json_quote v @ '','' @ fields_text kvs @ x = json_quote v' @ '','' @ fields_text rest @ y"
    by (simp add: fields_text_def json_field_def kv kvs')
  then have "v = v'" and "fields_text kvs @ x = fields_text rest @ y"
    by (auto dest!: json_quote_append_inj)
  with Cons.IH [OF m] kv kvs' show ?case by simp
qed

definition row_fields :: "canonical_row \<Rightarrow> (string \<times> string) list" where
  "row_fields r = [(''id'', cr_id r), (''tenant_id'', cr_tenant_id r),
     (''actor_user_id'', cr_actor_user_id r), (''actor_type'', cr_actor_type r),
     (''action'', cr_action r), (''resource_type'', cr_resource_type r),
     (''resource_id'', cr_resource_id r), (''ip'', cr_ip r), (''user_agent'', cr_user_agent r),
     (''request_id'', cr_request_id r)]"

lemma marshal_row_fields:
  "marshal_row r = ''{'' @ fields_text (row_fields r) @
     (json_quote ''metadata'' @ '':'') @ cr_metadata r @ row_tail (cr_created_at r) (cr_prev_hash r)"
  by (simp only: marshal_row_def row_tail_def json_field_def fields_text_def row_fields_def
      list.map concat.simps split_conv append_assoc append_Nil append_Nil2 append_Cons)

lemma marshal_row_inj:
  assumes "marshal_row r = marshal_row q"
    and "plain_text (cr_created_at r)" "plain_text (cr_prev_hash r)"
    and "plain_text (cr_created_at q)" "plain_text (cr_prev_hash q)"
  shows "r = q"
proof -
  from assms(1) have "fields_text (row_fields r) @ (json_quote ''metadata'' @ '':'') @ cr_metadata r @
      row_tail (cr_created_at r) (cr_prev_hash r) =
    fields_text (row_fields q) @ (json_quote ''metadata'' @ '':'') @ cr_metadata q @
      row_tail (cr_created_at q) (cr_prev_hash q)"
    unfolding marshal_row_fields by simp
  from fields_text_inj [OF _ this]
  have f: "row_fields r = row_fields q"
    and t: "cr_metadata r @ row_tail (cr_created_at r) (cr_prev_hash r) =
      cr_metadata q @ row_tail (cr_created_at q) (cr_prev_hash q)"
    by (simp_all add: row_fields_def)
  from f row_tail_inj [OF assms(2,3,4,5) t] show ?thesis
    by (cases r; cases q) (simp add: row_fields_def)
qed

section \<open>Hashes as texts\<close>

lemma json_special_bytes:
  "json_special c \<Longrightarrow> (of_char c :: nat) < 48 \<or> of_char c \<in> {60 :: nat, 62, 92}"
  by (auto simp: json_special_def)

lemma hex_digit_byte:
  "n < 16 \<Longrightarrow> (of_char (hex_digit n) :: nat) \<in> {48..57} \<union> {97..102}"
  by (auto simp: hex_digit_def)

lemma hex_digit_plain: "n < 16 \<Longrightarrow> \<not> json_special (hex_digit n) \<and> (of_char (hex_digit n) :: nat) < 128
    \<and> (of_char (hex_digit n) :: nat) > 32"
  using hex_digit_byte [of n] json_special_bytes [of "hex_digit n"] by auto

lemma set_hex_encode: "set (hex_encode s) \<subseteq> hex_digit ` {..<16}"
proof -
  have "of_char z div 16 < (16::nat)" for z :: char
    using of_char_less [of z] by (simp add: less_mult_imp_div_less)
  then show ?thesis by (auto simp: hex_encode_def hex_byte_def)
qed

lemma hash_hex_plain [simp]: "plain_text (hash_hex x b)"
  using set_hex_encode [of "ax_sha256 x b"] hex_digit_plain
  by (fastforce simp: plain_text_def hash_hex_def)

lemma hash_hex_trim [simp]: "trim_space (hash_hex x b) = hash_hex x b"
  using set_hex_encode [of "ax_sha256 x b"] hex_digit_plain
  by (intro trim_space_visible) (fastforce simp: visible_def hash_hex_def)

lemma chain_seed_plain [simp]: "plain_text chain_seed"
  by (simp add: plain_text_def chain_seed_def json_special_def)

lemma time_plain [simp]: "plain_text (format_rfc3339nano t)"
proof -
  have "\<not> json_special c \<and> (of_char c :: nat) < 128" if "c \<in> time_chars" for c
    using that by (auto simp: time_chars_def json_special_def)
  then show ?thesis using set_format_rfc3339nano [of t] by (auto simp: plain_text_def)
qed

section \<open>A verified chain as a hash chain\<close>

text \<open>The canonical row a stored row is verified against.\<close>

definition row_content :: "audit_ext \<Rightarrow> audit_row \<Rightarrow> canonical_row" where
  "row_content x r = row_canonical x r
     (case normalise_metadata x (ar_metadata r) of Inl _ \<Rightarrow> [] | Inr m \<Rightarrow> m)"

abbreviation content_digest :: "audit_ext \<Rightarrow> canonical_row \<Rightarrow> string" where
  "content_digest x c \<equiv> hash_hex x (marshal_row c)"

lemma row_content_prev [simp]: "cr_prev_hash (row_content x r) = hash_text (ar_prev r)"
  by (simp add: row_content_def row_canonical_def canonical_of_def)

lemma row_content_created [simp]: "plain_text (cr_created_at (row_content x r))"
  by (simp add: row_content_def row_canonical_def canonical_of_def)

lemma row_valid_content:
  "row_valid x e r \<Longrightarrow> content_digest x (row_content x r) = hash_text (ar_hash r) \<and>
     cr_prev_hash (row_content x r) = e"
  by (auto simp: row_valid_def row_content_def row_canonical_def canonical_of_def)

lemma chain_valid_linked:
  "chain_valid x e rows \<Longrightarrow> linked (content_digest x) cr_prev_hash e (map (row_content x) rows)"
  by (induction rows arbitrary: e) (auto dest!: row_valid_content)

lemma chain_valid_end:
  "chain_valid x e rows \<Longrightarrow> chain_end (content_digest x) e (map (row_content x) rows) = last_hash e rows"
  by (induction rows arbitrary: e rule: rev_induct)
     (auto simp: chain_valid_append last_hash_def chain_end_def dest!: row_valid_content)

lemma chain_valid_plain:
  assumes "chain_valid x e rows" and "plain_text e" and "r \<in> set rows"
  shows "plain_text (cr_prev_hash (row_content x r))"
proof -
  have "plain_text (hash_text (ar_hash q))" if "row_valid x e q" for q e
    using row_valid_content [OF that] by (metis hash_hex_plain)
  with assms show ?thesis
    by (induction rows arbitrary: e) (auto simp: row_valid_def)
qed

lemma chain_seed_trim [simp]: "trim_space chain_seed = chain_seed"
  by (rule trim_space_visible) (simp add: visible_def chain_seed_def)

lemma last_hash_tip:
  "last_hash chain_seed (chain_rows t rows) = link_hash (chain_tip t rows)"
proof (cases "chain_rows t rows" rule: rev_cases)
  case Nil
  then show ?thesis by (simp add: last_hash_def chain_end_def link_hash_def chain_tip_def)
next
  case (snoc rs r)
  then have "r \<in> set (chain_rows t rows)" by simp
  then have "ar_hash r \<noteq> None" by (simp add: set_chain_rows)
  with snoc show ?thesis by (auto simp: last_hash_def link_hash_def chain_tip_def hash_text_def)
qed

lemma chain_valid_last_trim:
  assumes "chain_valid x chain_seed rows"
  shows "trim_space (last_hash chain_seed rows) = last_hash chain_seed rows"
proof (cases rows rule: rev_cases)
  case Nil
  then show ?thesis by (simp add: last_hash_def chain_end_def)
next
  case (snoc rs r)
  with assms have "row_valid x (last_hash chain_seed rs) r" by (simp add: chain_valid_append)
  then have "hash_text (ar_hash r) = hash_hex x (marshal_row (row_content x r))"
    using row_valid_content by metis
  with snoc show ?thesis by (simp add: last_hash_def)
qed

lemma verify_ok_iff:
  "verify x t e w = (Inr v, e', w') \<Longrightarrow>
   vr_ok v = chain_valid x chain_seed (chain_rows t (audit_rows w)) \<and> w' = w"
  unfolding verify_def io_ok
  using verify_loop_ok_valid [of x chain_seed 0 None "chain_rows t (audit_rows w)" v]
    verify_loop_valid [of x chain_seed "chain_rows t (audit_rows w)" 0 None] by auto

lemma verify_run:
  "chain_valid x chain_seed (chain_rows t (audit_rows w)) \<Longrightarrow> verify x t e w = (Inr v, e', w') \<Longrightarrow>
   vr_rows_checked v = length (chain_rows t (audit_rows w)) \<and>
   (chain_rows t (audit_rows w) \<noteq> [] \<longrightarrow>
      vr_last_verified v = Some (ar_id (last (chain_rows t (audit_rows w)))))"
  unfolding verify_def io_ok
  using verify_loop_valid [of x chain_seed "chain_rows t (audit_rows w)" 0 None] by auto

text \<open>What the verifier recomputes for a row \<open>record_audit\<close> stored.\<close>

lemma row_event_stored:
  "ar_created (stored_row x ev i c p) = c \<and> canonical_of x (row_event (stored_row x ev i c p)) i c m h =
     (canonical_of x (default_actor ev) i c m h)
       \<lparr>cr_ip := (if ev_ip ev = [] then [] else (case ax_inet x (ev_ip ev) of None \<Rightarrow> [] | Some ip \<Rightarrow> ip))\<rparr>"
  by (simp add: canonical_of_def row_event_def stored_row_def make_row_def split: option.splits)

definition ip_canonical :: "audit_ext \<Rightarrow> audit_event \<Rightarrow> bool" where
  "ip_canonical x ev \<longleftrightarrow> ev_ip ev = [] \<or> ax_inet x (ev_ip ev) = Some (ev_ip ev)"

definition meta_stable :: "audit_ext \<Rightarrow> audit_event \<Rightarrow> bool" where
  "meta_stable x ev \<longleftrightarrow>
     normalise_metadata x (ax_jsonb x (default_meta (ev_metadata ev))) = Inr (default_meta (ev_metadata ev))"

lemma stored_row_content:
  assumes "meta_stable x ev" and "trim_space p = p"
  shows "row_content x (stored_row x ev i c p) =
     (canonical_of x (default_actor ev) i c (default_meta (ev_metadata ev)) p)
       \<lparr>cr_ip := (if ev_ip ev = [] then [] else (case ax_inet x (ev_ip ev) of None \<Rightarrow> [] | Some ip \<Rightarrow> ip))\<rparr>"
  using assms row_event_stored [of x ev i c p]
  by (simp add: row_content_def row_canonical_def meta_stable_def hash_text_def)

lemma stored_row_valid_iff:
  assumes "meta_stable x ev" and "trim_space p = p"
  shows "row_valid x p (stored_row x ev i c p) \<longleftrightarrow>
     content_digest x (row_content x (stored_row x ev i c p)) =
     hash_hex x (canonicalize x (default_actor ev) i c (default_meta (ev_metadata ev)) p)"
  using assms
  by (auto simp: row_valid_def row_content_def meta_stable_def hash_text_def)

lemma stored_row_valid:
  assumes "meta_stable x ev" and "trim_space p = p" and "ip_canonical x ev"
  shows "row_valid x p (stored_row x ev i c p)"
proof -
  have "row_content x (stored_row x ev i c p) =
      canonical_of x (default_actor ev) i c (default_meta (ev_metadata ev)) p"
    using assms by (auto simp: stored_row_content ip_canonical_def canonical_of_def)
  then show ?thesis using assms by (simp add: stored_row_valid_iff canonicalize_def)
qed

section \<open>A concrete log\<close>

text \<open>
  One tenant, an injective stand-in for the digest, and a Postgres that prints addresses in lower
  case and rejects a comma: the instances at which the properties below are applied.
\<close>

definition demo_ext :: audit_ext where
  "demo_ext = \<lparr>ax_sha256 = (\<lambda>b. CHR ''h'' # b), ax_uuid = (\<lambda>i. replicate i (CHR ''u'')),
     ax_inet = (\<lambda>s. if CHR '','' \<in> set s then None else Some (ascii_lower s)),
     ax_jsonb = (\<lambda>s. s), ax_remarshal = (\<lambda>s. Some (Some s))\<rparr>"

definition demo_event :: "string \<Rightarrow> audit_event" where
  "demo_event ip = \<lparr>ev_tenant = Some 7, ev_actor_user = Some 3, ev_actor_type = ''user'',
     ev_action = ''abac_policy.created'', ev_res_type = ''abac_policy'', ev_res_id = Some 9,
     ev_ip = ip, ev_user_agent = ''curl'', ev_request_id = ''r1'', ev_metadata = []\<rparr>"

definition demo_log :: "string \<Rightarrow> audit_db" where
  "demo_log ip = \<lparr>audit_rows = [stored_row demo_ext (demo_event ip) 1 0 chain_seed]\<rparr>"

abbreviation demo_env :: env where
  "demo_env \<equiv> quiet_env int Suc"

lemma demo_event_simps [simp]: "ev_tenant (demo_event ip) = Some 7" "ev_ip (demo_event ip) = ip"
  by (simp_all add: demo_event_def)

lemma demo_meta [simp]: "meta_stable demo_ext (demo_event ip)"
  by (simp add: meta_stable_def normalise_metadata_def demo_ext_def demo_event_def default_meta_def)

lemma demo_ip [simp]: "ip_canonical demo_ext (demo_event ''10.0.0.1'')"
  by (simp add: ip_canonical_def demo_ext_def ascii_lower_def)

lemma demo_not_ip [simp]: "\<not> ip_canonical demo_ext (demo_event ''2001:DB8::1'')"
  by (simp add: ip_canonical_def demo_ext_def ascii_lower_def Let_def char_of_def)

lemma demo_digest: "ax_sha256 demo_ext a = ax_sha256 demo_ext b \<longleftrightarrow> a = b"
  by (simp add: demo_ext_def)

lemma demo_digest_seed: "hash_hex demo_ext b \<noteq> chain_seed"
proof -
  have "hd (hash_hex demo_ext b) = CHR ''6''"
    by (simp add: hash_hex_def demo_ext_def hex_encode_def hex_byte_def hex_digit_def char_of_def bit_0)
  moreover have "hd chain_seed = CHR ''0''" by (simp add: chain_seed_def)
  ultimately show ?thesis by auto
qed

lemma demo_record:
  assumes "CHR '','' \<notin> set ip"
  shows "record_audit demo_ext (demo_event ip) demo_env \<lparr>audit_rows = []\<rparr> =
     (Inr (), after_record demo_env, demo_log ip)"
  using assms
  by (subst record_audit_runs)
     (simp_all add: demo_ext_def demo_log_def link_hash_def chain_tip_def chain_rows_def)

lemma demo_chain [simp]:
  "chain_rows (Some 7) (audit_rows (demo_log ip)) = [stored_row demo_ext (demo_event ip) 1 0 chain_seed]"
  by (simp add: chain_rows_def demo_log_def)

lemma demo_chain_valid:
  "chain_valid demo_ext chain_seed (chain_rows (Some 7) (audit_rows (demo_log ''10.0.0.1'')))"
  by (simp add: stored_row_valid)

lemma verify_runs:
  assumes "\<not> e_fault e (e_calls e)" and "chain_valid x chain_seed (chain_rows t (audit_rows w))"
  obtains v where "verify x t e w = (Inr v, next_call e, w)" and "vr_ok v"
    and "vr_rows_checked v = length (chain_rows t (audit_rows w))"
  using assms
  by (auto simp: verify_def bind_io_def db_read_def db_call_def lift_res_def ret_def next_call_def
      verify_loop_valid)

definition demo_tampered :: audit_db where
  "demo_tampered = \<lparr>audit_rows =
     [(stored_row demo_ext (demo_event ''10.0.0.1'') 1 0 chain_seed)\<lparr>ar_prev := Some ''x''\<rparr>]\<rparr>"

lemma demo_tampered_chain:
  "chain_rows (Some 7) (audit_rows demo_tampered) =
     [(stored_row demo_ext (demo_event ''10.0.0.1'') 1 0 chain_seed)\<lparr>ar_prev := Some ''x''\<rparr>]"
  by (simp add: chain_rows_def demo_tampered_def stored_row_def make_row_def)

lemma demo_tampered_id [simp]:
  "ar_id ((stored_row x ev i c p)\<lparr>ar_prev := q\<rparr>) = i"
  by (simp add: stored_row_def make_row_def)

lemma demo_normalises: "normalise_metadata demo_ext m = Inr (if m = [] \<or> m = ''null'' then ''{}'' else m)"
  by (simp add: normalise_metadata_def demo_ext_def)

lemma verify_single_runs:
  assumes "chain_rows t (audit_rows w) = [r]" and "\<not> e_fault e (e_calls e)"
    and "normalise_metadata x (ar_metadata r) = Inr m"
  shows "\<exists>v. verify x t e w = (Inr v, next_call e, w)"
  using assms
  by (cases "hash_hex x (marshal_row (row_canonical x r m)) = hash_text (ar_hash r)";
      cases "hash_text (ar_prev r) = chain_seed")
     (simp_all add: verify_def bind_io_def db_read_def db_call_def lift_res_def ret_def next_call_def)

section \<open>Properties of the log\<close>

definition keys_before :: "uuid option \<Rightarrow> audit_row list \<Rightarrow> time \<times> uuid \<Rightarrow> bool" where
  "keys_before t rows k \<longleftrightarrow> (\<forall>r \<in> set (chain_rows t rows). audit_key r \<le> k)"

lemma record_extends_valid:
  assumes run: "record_audit x ev e w = (Inr u, e', w')"
    and valid: "chain_valid x chain_seed (chain_rows (ev_tenant ev) (audit_rows w))"
    and key: "keys_before (ev_tenant ev) (audit_rows w) (e_clock e (e_ticks e), e_uuid e (e_uuids e))"
    and ms: "meta_stable x ev" and ip: "ip_canonical x ev"
  obtains r where "chain_rows (ev_tenant ev) (audit_rows w') =
       chain_rows (ev_tenant ev) (audit_rows w) @ [r]"
    and "ar_id r = e_uuid e (e_uuids e)"
    and "chain_valid x chain_seed (chain_rows (ev_tenant ev) (audit_rows w'))"
proof -
  let ?t = "ev_tenant ev"
  let ?p = "link_hash (chain_tip ?t (audit_rows w))"
  let ?r = "stored_row x ev (e_uuid e (e_uuids e)) (e_clock e (e_ticks e)) ?p"
  have w': "audit_rows w' = audit_rows w @ [?r]" using run by (auto elim!: record_audit_ok)
  have p: "trim_space ?p = ?p"
    using chain_valid_last_trim [OF valid] by (simp add: last_hash_tip)
  have rows: "chain_rows ?t (audit_rows w') = chain_rows ?t (audit_rows w) @ [?r]"
    using key unfolding w' keys_before_def by (intro chain_rows_append) auto
  moreover have "chain_valid x chain_seed (chain_rows ?t (audit_rows w) @ [?r])"
    using valid stored_row_valid [OF ms p ip] by (simp add: chain_valid_append last_hash_tip)
  ultimately show thesis using that [of ?r] by simp
qed

text \<open>
  C1. Verify answers exactly: it reports OK if and only if every row of the tenant's chain carries
  the hash of its predecessor (the first one the seed) and hashes to its stored hash; and when it
  does not, the row it names is the first at which the chain breaks and the count is the number of
  rows before it. A verification never changes the log.
\<close>

theorem verify_finds_first_break:
  assumes "verify x t e w = (Inr v, e', w')"
  shows "w' = w \<and> vr_ok v = chain_valid x chain_seed (chain_rows t (audit_rows w)) \<and>
     (\<not> vr_ok v \<longrightarrow> (\<exists>i < length (chain_rows t (audit_rows w)).
       vr_broken_at v = Some (ar_id (chain_rows t (audit_rows w) ! i)) \<and> vr_rows_checked v = i \<and>
       chain_valid x chain_seed (take i (chain_rows t (audit_rows w))) \<and>
       \<not> chain_valid x chain_seed (take (Suc i) (chain_rows t (audit_rows w)))))"
proof -
  have "verify_loop x chain_seed 0 None (chain_rows t (audit_rows w)) = Inr v"
    using assms by (auto simp: verify_def io_ok)
  from verify_loop_broken [OF this] verify_ok_iff [OF assms] show ?thesis by auto
qed

theorem verify_finds_first_break_witness:
  "\<exists>v. verify demo_ext (Some 7) demo_env demo_tampered = (Inr v, next_call demo_env, demo_tampered)
      \<and> \<not> vr_ok v \<and> vr_broken_at v = Some 1 \<and> vr_rows_checked v = 0"
proof -
  have p: "hash_text (Some ''x'') \<noteq> chain_seed"
    by (simp add: hash_text_def trim_space_visible visible_def chain_seed_def numeral_eq_Suc)
  obtain v where run: "verify demo_ext (Some 7) demo_env demo_tampered =
      (Inr v, next_call demo_env, demo_tampered)"
    using verify_single_runs [OF demo_tampered_chain _ demo_normalises, of demo_env] by auto
  have "\<not> vr_ok v" using verify_finds_first_break [OF run] p
    by (simp add: row_valid_def demo_tampered_chain)
  with verify_finds_first_break [OF run] run show ?thesis by (auto simp: demo_tampered_chain)
qed

text \<open>
  C6. Recording keeps the chain: if the tenant's chain verifies, the new row's key (clock reading,
  then UUID) does not sort before an existing row of the chain, the client address is in the form
  Postgres prints and the metadata survive their round trip through jsonb, then the chain
  verifies after a successful Record, with one more row checked and the new row the last verified.
\<close>

theorem record_keeps_chain_verifying:
  assumes "verify x (ev_tenant ev) e0 w = (Inr v, e1, w)" and "vr_ok v"
    and "record_audit x ev e w = (Inr u, e', w')"
    and "keys_before (ev_tenant ev) (audit_rows w) (e_clock e (e_ticks e), e_uuid e (e_uuids e))"
    and "meta_stable x ev" and "ip_canonical x ev"
    and "verify x (ev_tenant ev) e2 w' = (Inr v', e3, w'')"
  shows "vr_ok v' \<and> vr_rows_checked v' = Suc (vr_rows_checked v) \<and>
     vr_last_verified v' = Some (e_uuid e (e_uuids e))"
proof -
  have valid: "chain_valid x chain_seed (chain_rows (ev_tenant ev) (audit_rows w))"
    using verify_ok_iff [OF assms(1)] assms(2) by simp
  from record_extends_valid [OF assms(3) valid assms(4-6)] obtain r where
    rows: "chain_rows (ev_tenant ev) (audit_rows w') = chain_rows (ev_tenant ev) (audit_rows w) @ [r]"
    and r: "ar_id r = e_uuid e (e_uuids e)"
    and valid': "chain_valid x chain_seed (chain_rows (ev_tenant ev) (audit_rows w'))" .
  show ?thesis
    using verify_ok_iff [OF assms(7)] verify_run [OF valid' assms(7)] verify_run [OF valid assms(1)]
      valid' rows r by simp
qed

theorem record_keeps_chain_verifying_witness:
  "\<exists>v. verify demo_ext (Some 7) demo_env (demo_log ''10.0.0.1'') =
      (Inr v, next_call demo_env, demo_log ''10.0.0.1'') \<and> vr_ok v \<and> vr_rows_checked v = 1 \<and>
      vr_last_verified v = Some 1"
proof -
  obtain v0 where v0: "verify demo_ext (Some 7) demo_env \<lparr>audit_rows = []\<rparr> =
      (Inr v0, next_call demo_env, \<lparr>audit_rows = []\<rparr>)" "vr_ok v0" "vr_rows_checked v0 = 0"
    by (rule verify_runs [of demo_env demo_ext "Some 7" "\<lparr>audit_rows = []\<rparr>"]) (auto simp: chain_rows_def)
  obtain v where v: "verify demo_ext (Some 7) demo_env (demo_log ''10.0.0.1'') =
      (Inr v, next_call demo_env, demo_log ''10.0.0.1'')"
    by (rule verify_runs [OF _ demo_chain_valid]) auto
  have "vr_ok v \<and> vr_rows_checked v = Suc (vr_rows_checked v0) \<and> vr_last_verified v = Some (e_uuid demo_env 0)"
    using record_keeps_chain_verifying [of demo_ext "demo_event ''10.0.0.1''" demo_env "\<lparr>audit_rows = []\<rparr>"
        v0 "next_call demo_env" demo_env "()" "after_record demo_env" "demo_log ''10.0.0.1''" demo_env v
        "next_call demo_env" "demo_log ''10.0.0.1''"] v0 v
    by (simp add: demo_record keys_before_def chain_rows_def)
  with v v0(3) show ?thesis by simp
qed

text \<open>
  Tamper evidence: two states of the log in which a tenant's chain verifies and has the same
  last hash hold the same sequence of canonical rows (every id, actor, action, resource, address,
  metadata and time, in the same order), unless they exhibit two different inputs with the same
  SHA-256 digest or an input whose digest is the all-zero seed.
\<close>

theorem verified_chains_with_same_tip_agree:
  assumes "verify x t e1 w1 = (Inr v1, e1', w1')" and "vr_ok v1"
    and "verify x t e2 w2 = (Inr v2, e2', w2')" and "vr_ok v2"
    and "link_hash (chain_tip t (audit_rows w1)) = link_hash (chain_tip t (audit_rows w2))"
  shows "map (row_content x) (chain_rows t (audit_rows w1)) =
           map (row_content x) (chain_rows t (audit_rows w2))
       \<or> (\<exists>a b. a \<noteq> b \<and> ax_sha256 x a = ax_sha256 x b)
       \<or> (\<exists>a. hash_hex x a = chain_seed)"
proof (rule ccontr)
  let ?r1 = "chain_rows t (audit_rows w1)" and ?r2 = "chain_rows t (audit_rows w2)"
  let ?c1 = "map (row_content x) ?r1" and ?c2 = "map (row_content x) ?r2"
  assume "\<not> ?thesis"
  then have ne: "?c1 \<noteq> ?c2" and inj: "\<And>a b. ax_sha256 x a = ax_sha256 x b \<Longrightarrow> a = b"
    and pre: "\<And>a. hash_hex x a \<noteq> chain_seed" by blast+
  have v: "chain_valid x chain_seed ?r1" "chain_valid x chain_seed ?r2"
    using verify_ok_iff [OF assms(1)] verify_ok_iff [OF assms(3)] assms(2,4) by simp_all
  have plain: "plain_text (cr_prev_hash c) \<and> plain_text (cr_created_at c)"
    if "c \<in> set ?c1 \<union> set ?c2" for c
    using that chain_valid_plain [OF v(1)] chain_valid_plain [OF v(2)] by auto
  have "?c1 = ?c2"
  proof (rule linked_end_unique)
    show "linked (content_digest x) cr_prev_hash chain_seed ?c1"
      and "linked (content_digest x) cr_prev_hash chain_seed ?c2"
      using v by (simp_all add: chain_valid_linked)
    show "chain_end (content_digest x) chain_seed ?c1 = chain_end (content_digest x) chain_seed ?c2"
      using v assms(5) by (simp add: chain_valid_end last_hash_tip)
    fix a b assume ab: "a \<in> set ?c1" "b \<in> set ?c2" "content_digest x a = content_digest x b"
    then have "marshal_row a = marshal_row b"
      using inj hex_encode_inj unfolding hash_hex_def by blast
    then show "a = b" using plain ab(1,2) by (intro marshal_row_inj) auto
  next
    fix a assume "a \<in> set ?c1 \<union> set ?c2"
    show "content_digest x a \<noteq> chain_seed" by (rule pre)
  qed
  with ne show False by contradiction
qed

theorem verified_chains_with_same_tip_agree_witness:
  "map (row_content demo_ext) (chain_rows (Some 7) (audit_rows (demo_log ''10.0.0.1''))) =
     map (row_content demo_ext) (chain_rows (Some 7) (audit_rows (demo_log ''10.0.0.1'') @
       [stored_row demo_ext (demo_event []\<lparr>ev_tenant := Some 8\<rparr>) 2 5 chain_seed]))"
proof -
  let ?w = "demo_log ''10.0.0.1''"
  let ?r = "stored_row demo_ext (demo_event []\<lparr>ev_tenant := Some 8\<rparr>) 2 5 chain_seed"
  let ?w2 = "?w\<lparr>audit_rows := audit_rows ?w @ [?r]\<rparr>"
  have same: "chain_rows (Some 7) (audit_rows ?w @ [?r]) = chain_rows (Some 7) (audit_rows ?w)"
    by (rule chain_rows_other) simp
  obtain v where v: "verify demo_ext (Some 7) demo_env ?w = (Inr v, next_call demo_env, ?w)" "vr_ok v"
    by (rule verify_runs [OF _ demo_chain_valid]) auto
  obtain v2 where v2: "verify demo_ext (Some 7) demo_env ?w2 = (Inr v2, next_call demo_env, ?w2)" "vr_ok v2"
    using demo_chain_valid same by (auto intro: verify_runs [of demo_env demo_ext "Some 7" ?w2])
  from verified_chains_with_same_tip_agree [OF v v2] same demo_digest demo_digest_seed
  show ?thesis by (auto simp: chain_tip_def)
qed

text \<open>
  What the chain does not show: deleting every row of a tenant's chain after a given key leaves
  a chain that still verifies. The loss of the newest rows is visible only to someone who kept the
  tip, although the package comment lists deletion among what Verify catches.
\<close>

theorem verify_misses_truncation:
  assumes "verify x t e w = (Inr v, e', w)" and "vr_ok v"
    and "verify x t e2 (w\<lparr>audit_rows := filter (\<lambda>r. ar_tenant r = t \<longrightarrow> audit_key r \<le> k) (audit_rows w)\<rparr>)
         = (Inr v2, e3, w2)"
  shows "vr_ok v2"
proof -
  let ?rows = "filter (\<lambda>r. ar_tenant r = t \<longrightarrow> audit_key r \<le> k) (audit_rows w)"
  have "chain_rows t ?rows = filter (\<lambda>r. audit_key r \<le> k) (chain_rows t (audit_rows w))"
    unfolding chain_rows_filter by (rule filter_cong [OF refl]) (simp add: set_chain_rows)
  also have "\<dots> = takeWhile (\<lambda>r. audit_key r \<le> k) (chain_rows t (audit_rows w))"
    by (rule filter_le_sorted) (rule chain_rows_sorted)
  also have "\<dots> = take (length (takeWhile (\<lambda>r. audit_key r \<le> k) (chain_rows t (audit_rows w))))
      (chain_rows t (audit_rows w))" by (rule takeWhile_eq_take)
  finally have "chain_valid x chain_seed (chain_rows t ?rows)"
    using verify_ok_iff [OF assms(1)] assms(2) by (metis chain_valid_take)
  then show ?thesis using verify_ok_iff [OF assms(3)] by simp
qed

theorem verify_misses_truncation_witness:
  "\<exists>v. verify demo_ext (Some 7) demo_env (demo_log ''10.0.0.1''\<lparr>audit_rows := []\<rparr>) =
      (Inr v, next_call demo_env, demo_log ''10.0.0.1''\<lparr>audit_rows := []\<rparr>) \<and> vr_ok v"
proof -
  let ?w = "demo_log ''10.0.0.1''"
  have cut: "filter (\<lambda>r. ar_tenant r = Some 7 \<longrightarrow> audit_key r \<le> (0, 0)) (audit_rows ?w) = []"
    by (simp add: demo_log_def)
  obtain v where v: "verify demo_ext (Some 7) demo_env ?w = (Inr v, next_call demo_env, ?w)" "vr_ok v"
    by (rule verify_runs [OF _ demo_chain_valid]) auto
  obtain v2 where v2: "verify demo_ext (Some 7) demo_env (?w\<lparr>audit_rows := []\<rparr>) =
      (Inr v2, next_call demo_env, ?w\<lparr>audit_rows := []\<rparr>)"
    by (rule verify_runs [of demo_env demo_ext "Some 7" "?w\<lparr>audit_rows := []\<rparr>"]) (auto simp: chain_rows_def)
  have "vr_ok v2"
    using verify_misses_truncation [OF v, of demo_env "(0, 0)" v2 "next_call demo_env"] v2 cut by simp
  with v2 show ?thesis by blast
qed

text \<open>
  Recording only appends: whatever Record answers, the rows already stored are a prefix of the
  rows stored afterwards, nothing but the audit table changes, the chains of all other tenants are
  exactly what they were, and if Record reports an error nothing changes at all.
\<close>

theorem record_is_append_only:
  assumes "record_audit x ev e w = (r, e', w')"
  shows "prefix (audit_rows w) (audit_rows w') \<and> (\<exists>rows. w' = w\<lparr>audit_rows := rows\<rparr>) \<and>
     (\<forall>t. t \<noteq> ev_tenant ev \<longrightarrow> chain_rows t (audit_rows w') = chain_rows t (audit_rows w)) \<and>
     (\<forall>err. r = Inl err \<longrightarrow> w' = w)"
proof (cases r)
  case (Inl err)
  with assms atomicD [OF atomic_record_audit] have "w' = w" by blast
  then show ?thesis by (auto intro: exI [of _ "audit_rows w"])
next
  case (Inr u)
  with assms have "record_audit x ev e w = (Inr u, e', w')" by simp
  from record_audit_appends [OF this]
  have "chain_rows t (audit_rows w') = chain_rows t (audit_rows w)" if "t \<noteq> ev_tenant ev" for t
    using that by (simp add: chain_rows_other)
  with record_audit_frame [OF assms] Inr show ?thesis by blast
qed

theorem record_is_append_only_witness:
  "chain_rows (Some 8) (audit_rows (demo_log ''10.0.0.1'')) = [] \<and> prefix [] (audit_rows (demo_log ''10.0.0.1''))"
  using record_is_append_only [OF demo_record [of "''10.0.0.1''"]] by (simp add: chain_rows_def)

text \<open>
  The address of an event must be in the form Postgres prints: if the client address is valid
  but \<^verbatim>\<open>host(ip::inet)\<close> gives another text (the address comes unchecked from X-Forwarded-For, so a client
  can send, say, an IPv6 address in upper case), a successful Record in key order leaves a chain that
  no longer verifies, or shows two inputs with the same SHA-256 digest.
\<close>

theorem noncanonical_ip_breaks_chain:
  assumes "chain_valid x chain_seed (chain_rows (ev_tenant ev) (audit_rows w))"
    and "record_audit x ev e w = (Inr u, e', w')"
    and "keys_before (ev_tenant ev) (audit_rows w) (e_clock e (e_ticks e), e_uuid e (e_uuids e))"
    and "meta_stable x ev" and "\<not> ip_canonical x ev"
    and "verify x (ev_tenant ev) e2 w' = (Inr v, e3, w'')"
  shows "\<not> vr_ok v \<or> (\<exists>a b. a \<noteq> b \<and> ax_sha256 x a = ax_sha256 x b)"
proof (rule ccontr)
  let ?t = "ev_tenant ev"
  let ?p = "link_hash (chain_tip ?t (audit_rows w))"
  let ?i = "e_uuid e (e_uuids e)" and ?c = "e_clock e (e_ticks e)"
  let ?m = "default_meta (ev_metadata ev)"
  let ?r = "stored_row x ev ?i ?c ?p"
  assume "\<not> ?thesis"
  then have ok: "vr_ok v" and inj: "\<And>a b. ax_sha256 x a = ax_sha256 x b \<Longrightarrow> a = b" by auto
  have w': "audit_rows w' = audit_rows w @ [?r]" and okip: "ev_ip ev = [] \<or> ax_inet x (ev_ip ev) \<noteq> None"
    using assms(2) by (auto elim!: record_audit_ok)
  have p: "trim_space ?p = ?p" "plain_text ?p"
  proof -
    show "trim_space ?p = ?p" using chain_valid_last_trim [OF assms(1)] by (simp add: last_hash_tip)
    show "plain_text ?p"
    proof (cases "chain_rows ?t (audit_rows w)" rule: rev_cases)
      case Nil
      then show ?thesis by (simp add: link_hash_def chain_tip_def)
    next
      case (snoc rs q)
      with assms(1) have "row_valid x (last_hash chain_seed rs) q" by (simp add: chain_valid_append)
      then have "plain_text (hash_text (ar_hash q))" using row_valid_content by (metis hash_hex_plain)
      moreover have "last_hash chain_seed (chain_rows ?t (audit_rows w)) = hash_text (ar_hash q)"
        using snoc by (simp add: last_hash_def)
      ultimately show ?thesis by (simp add: last_hash_tip)
    qed
  qed
  have "chain_rows ?t (audit_rows w') = chain_rows ?t (audit_rows w) @ [?r]"
    using assms(3) unfolding w' keys_before_def by (intro chain_rows_append) auto
  then have "row_valid x ?p ?r"
    using verify_ok_iff [OF assms(6)] ok by (simp add: chain_valid_append last_hash_tip)
  then have "content_digest x (row_content x ?r) =
      content_digest x (canonical_of x (default_actor ev) ?i ?c ?m ?p)"
    using stored_row_valid_iff [OF assms(4) p(1)] by (simp add: canonicalize_def)
  then have "marshal_row (row_content x ?r) = marshal_row (canonical_of x (default_actor ev) ?i ?c ?m ?p)"
    using inj hex_encode_inj unfolding hash_hex_def by blast
  then have "row_content x ?r = canonical_of x (default_actor ev) ?i ?c ?m ?p"
    using p(2) p(1) by (intro marshal_row_inj) (simp_all add: hash_text_def, simp_all add: canonical_of_def)
  then have "cr_ip (row_content x ?r) = ev_ip ev" by (simp add: canonical_of_def)
  with assms(5) okip show False
    by (auto simp: stored_row_content [OF assms(4) p(1)] ip_canonical_def)
qed

theorem noncanonical_ip_breaks_chain_witness:
  "\<exists>v. verify demo_ext (Some 7) demo_env (demo_log ''2001:DB8::1'') =
      (Inr v, next_call demo_env, demo_log ''2001:DB8::1'') \<and> \<not> vr_ok v"
proof -
  let ?w = "demo_log ''2001:DB8::1''"
  obtain v where v: "verify demo_ext (Some 7) demo_env ?w = (Inr v, next_call demo_env, ?w)"
    using verify_single_runs [OF demo_chain _ demo_normalises, of demo_env] by auto
  have "\<not> vr_ok v \<or> (\<exists>a b. a \<noteq> b \<and> ax_sha256 demo_ext a = ax_sha256 demo_ext b)"
    by (rule noncanonical_ip_breaks_chain [of demo_ext "demo_event ''2001:DB8::1''" "\<lparr>audit_rows = []\<rparr>"])
       (use demo_record [of "''2001:DB8::1''"] v in \<open>auto simp: chain_rows_def keys_before_def\<close>)
  with v demo_digest show ?thesis by blast
qed

text \<open>
  Recording needs the keys to ascend: two successful Records on an empty chain, of which the
  second has a key that sorts before the first (the clock gave the same microsecond and the second
  UUID is smaller, or the clock went back), leave a chain Verify reports as broken although nothing
  was tampered with.
\<close>

theorem out_of_order_records_break_chain:
  assumes "chain_rows t (audit_rows w) = []" and "ev_tenant ev1 = t" and "ev_tenant ev2 = t"
    and "record_audit x ev1 e w = (Inr u1, e1, w1)"
    and "record_audit x ev2 e1 w1 = (Inr u2, e2, w2)"
    and "(e_clock e1 (e_ticks e1), e_uuid e1 (e_uuids e1)) < (e_clock e (e_ticks e), e_uuid e (e_uuids e))"
    and "\<forall>b. hash_hex x b \<noteq> chain_seed"
    and "verify x t e3 w2 = (Inr v, e4, w3)"
  shows "\<not> vr_ok v \<and> vr_rows_checked v = 0"
proof -
  let ?r1 = "stored_row x ev1 (e_uuid e (e_uuids e)) (e_clock e (e_ticks e)) chain_seed"
  have w1: "audit_rows w1 = audit_rows w @ [?r1]"
    using record_audit_appends [OF assms(4)] assms(1,2) by (simp add: link_hash_def chain_tip_def)
  have c1: "chain_rows t (audit_rows w1) = [?r1]"
    unfolding w1 using assms(1,2) by (subst chain_rows_append) auto
  let ?h = "trim_space (the (ar_hash ?r1))"
  let ?r2 = "stored_row x ev2 (e_uuid e1 (e_uuids e1)) (e_clock e1 (e_ticks e1)) ?h"
  have w2: "audit_rows w2 = audit_rows w1 @ [?r2]"
    using record_audit_appends [OF assms(5)] assms(3) c1 by (simp add: link_hash_def chain_tip_def)
  have f: "filter (\<lambda>r. ar_tenant r = t \<and> ar_hash r \<noteq> None) (audit_rows w) = []"
    using arg_cong [OF assms(1), of length] unfolding chain_rows_def length_sort by simp
  have "chain_rows t (audit_rows w2) = sort_key audit_key [?r1, ?r2]"
    unfolding chain_rows_def w2 w1 filter_append f using assms(2,3) by simp
  also have "\<dots> = [?r2, ?r1]" by (rule sort_key_swap) (unfold stored_row_simps, rule assms(6))
  finally have rows: "chain_rows t (audit_rows w2) = [?r2, ?r1]" .
  have "?h \<noteq> chain_seed" using assms(7) by (simp add: canonicalize_def)
  then have "hash_text (ar_prev ?r2) \<noteq> chain_seed" by (simp add: hash_text_def)
  with assms(8) show ?thesis by (auto simp: verify_def io_ok rows broken_result_def)
qed

theorem out_of_order_records_break_chain_witness:
  "\<exists>(w :: audit_db) v e. fst (verify demo_ext (Some 7) e w) = Inr v \<and> \<not> vr_ok v \<and> length (audit_rows w) = 2"
proof -
  let ?ev = "demo_event ''10.0.0.1''" and ?e = "quiet_env (\<lambda>_. 0) (\<lambda>n. 2 - n)"
  let ?w1 = "\<lparr>audit_rows = [stored_row demo_ext ?ev 2 0 chain_seed]\<rparr>"
  have r1: "record_audit demo_ext ?ev ?e \<lparr>audit_rows = []\<rparr> = (Inr (), after_record ?e, ?w1)"
    by (subst record_audit_runs) (simp_all add: demo_ext_def link_hash_def chain_tip_def chain_rows_def)
  have "\<exists>r2. record_audit demo_ext ?ev (after_record ?e) ?w1 =
      (Inr (), after_record (after_record ?e), \<lparr>audit_rows = audit_rows ?w1 @ [r2]\<rparr>)"
    using record_audit_runs [of "after_record ?e" ?ev demo_ext ?w1] by (simp add: demo_ext_def)
  then obtain r2 where r2: "record_audit demo_ext ?ev (after_record ?e) ?w1 =
      (Inr (), after_record (after_record ?e), \<lparr>audit_rows = audit_rows ?w1 @ [r2]\<rparr>)" ..
  let ?w2 = "\<lparr>audit_rows = audit_rows ?w1 @ [r2]\<rparr>"
  have "fst (verify demo_ext (Some 7) demo_env ?w2) = verify_loop demo_ext chain_seed 0 None
      (chain_rows (Some 7) (audit_rows ?w2))" (is "_ = verify_loop _ _ _ _ ?rows")
    by (simp add: verify_def bind_io_def db_read_def db_call_def lift_res_def ret_def fail_def
        split: sum.splits)
  moreover have "\<exists>v. verify_loop demo_ext c n l rows = Inr v" for c n l rows
    by (induction rows arbitrary: c n l) (auto simp: demo_normalises)
  ultimately obtain v where v: "fst (verify demo_ext (Some 7) demo_env ?w2) = Inr v" by metis
  then obtain e' w' where "verify demo_ext (Some 7) demo_env ?w2 = (Inr v, e', w')"
    by (metis prod.collapse)
  from out_of_order_records_break_chain [OF _ _ _ r1 r2 _ _ this] demo_digest_seed
  have "\<not> vr_ok v" by (simp add: chain_rows_def)
  with v show ?thesis by (intro exI [of _ ?w2] exI [of _ v] exI [of _ demo_env]) simp
qed

text \<open>
  An address Postgres cannot read as an inet (X-Forwarded-For with more than one hop is taken
  whole) makes Record fail, and with it every transaction that records: the operation reports an
  error and the stored state is what it was.
\<close>

theorem unreadable_ip_fails_the_transaction:
  assumes "ev_ip ev \<noteq> []" and "ax_inet x (ev_ip ev) = None"
    and "in_tx (bind_io body (\<lambda>a. then_io (record_audit x ev) (rest a))) e w = (r, e', w')"
  shows "w' = w \<and> (\<exists>err. r = Inl err)"
proof (cases r)
  case (Inl err)
  then show ?thesis using atomicD [OF atomic_in_tx assms(3) [unfolded Inl]] by simp
next
  case (Inr a)
  obtain e2 where
    "bind_io body (\<lambda>a. then_io (record_audit x ev) (rest a)) (next_call e) w = (Inr a, e2, w')"
    using assms(3) [unfolded Inr] by (rule in_tx_ok)
  then show ?thesis
    unfolding bind_ok by (elim exE conjE) (simp only: record_audit_bad_ip [OF assms(1,2)])
qed

theorem unreadable_ip_fails_the_transaction_witness:
  "snd (snd (in_tx (bind_io (ret 5) (\<lambda>a. then_io (record_audit demo_ext (demo_event ''10.0.0.1, 10.0.0.2''))
      (ret a))) demo_env (demo_log []))) = demo_log []"
proof -
  have "ev_ip (demo_event ''10.0.0.1, 10.0.0.2'') \<noteq> []" by simp
  moreover have "ax_inet demo_ext (ev_ip (demo_event ''10.0.0.1, 10.0.0.2'')) = None"
    by (simp add: demo_ext_def)
  ultimately show ?thesis
    using unreadable_ip_fails_the_transaction [of "demo_event ''10.0.0.1, 10.0.0.2''" demo_ext "ret 5" ret
        demo_env "demo_log []"] by (metis prod.collapse)
qed

end
