(* ===== verification/Outbox.thy ===== *)
theory Outbox imports AuditVerify begin

text \<open>
  The transactional outbox of \<^verbatim>\<open>internal/platform/events/outbox/\<close> (\<^verbatim>\<open>outbox.go\<close>, \<^verbatim>\<open>admin.go\<close>): services
  enqueue an event in their own transaction; the dispatcher takes a batch of due rows, hands each to
  the publisher, and marks it published, bumps its attempts, or moves it to the dead-letter table.
  The publisher is the argument \<open>pub\<close> (\<open>None\<close> for success, \<open>Some\<close> text for an error). The model
  has one dispatcher; the row locks of \<^verbatim>\<open>FOR UPDATE SKIP LOCKED\<close> end with the statement that took
  them, since it runs outside a transaction, and are left out.
\<close>

section \<open>Tables\<close>

record outbox_row =
  ob_id :: uuid
  ob_aggregate :: uuid
  ob_topic :: string
  ob_event_type :: string
  ob_payload :: string
  ob_created :: time
  ob_published :: "time option"
  ob_attempts :: nat
  ob_last_error :: "string option"
  ob_last_attempt :: "time option"

record dlq_row =
  dl_id :: uuid
  dl_aggregate :: uuid
  dl_topic :: string
  dl_event_type :: string
  dl_payload :: string
  dl_created :: time
  dl_attempts :: nat
  dl_last_error :: "string option"
  dl_dead_lettered :: time

record outbox_db = audit_db +
  outbox_rows :: "outbox_row list"
  dlq_rows :: "dlq_row list"

record outbox_event =
  oe_id :: uuid
  oe_aggregate :: uuid
  oe_topic :: string
  oe_event_type :: string
  oe_payload :: string \<comment> \<open>the JSON text of the payload\<close>

definition default_max_attempts :: nat where
  "default_max_attempts = 10"

section \<open>Enqueue\<close>

definition new_outbox_row :: "outbox_event \<Rightarrow> uuid \<Rightarrow> time \<Rightarrow> outbox_row" where
  "new_outbox_row e i t =
     \<lparr>ob_id = i, ob_aggregate = oe_aggregate e, ob_topic = oe_topic e,
      ob_event_type = oe_event_type e, ob_payload = oe_payload e, ob_created = t,
      ob_published = None, ob_attempts = 0, ob_last_error = None, ob_last_attempt = None\<rparr>"

definition enqueue :: "outbox_event \<Rightarrow> ('z outbox_db_scheme, unit) io" where
  "enqueue e =
     bind_io (if oe_id e = 0 then uuid_new else ret (oe_id e)) (\<lambda>i.
     bind_io time_now (\<lambda>t.
       db_call (\<lambda>w.
         if i \<in> set (map ob_id (outbox_rows w)) then (Inl unique_violation, w)
         else (Inr (), w\<lparr>outbox_rows := outbox_rows w @ [new_outbox_row e i t]\<rparr>))))"

section \<open>The dispatcher\<close>

text \<open>The gap before a row is tried again, in seconds: \<^verbatim>\<open>LEAST(POWER(2, attempts), 300)\<close>.\<close>

definition retry_gap :: "nat \<Rightarrow> nat" where
  "retry_gap attempts = min (2 ^ attempts) 300"

definition due :: "time \<Rightarrow> outbox_row \<Rightarrow> bool" where
  "due now r \<longleftrightarrow> ob_published r = None \<and>
     (case ob_last_attempt r of
        None \<Rightarrow> True
      | Some t \<Rightarrow> t < now - int (retry_gap (ob_attempts r)) * 1000000)"

definition select_batch :: "nat \<Rightarrow> time \<Rightarrow> outbox_row list \<Rightarrow> outbox_row list" where
  "select_batch n now rows = take n (sort_key ob_created (filter (due now) rows))"

definition update_row :: "uuid \<Rightarrow> (outbox_row \<Rightarrow> outbox_row) \<Rightarrow> outbox_row list \<Rightarrow> outbox_row list" where
  "update_row i f rows = map (\<lambda>r. if ob_id r = i then f r else r) rows"

definition dead_letter :: "nat \<Rightarrow> string \<Rightarrow> time \<Rightarrow> outbox_row \<Rightarrow> dlq_row" where
  "dead_letter attempts err t r =
     \<lparr>dl_id = ob_id r, dl_aggregate = ob_aggregate r, dl_topic = ob_topic r,
      dl_event_type = ob_event_type r, dl_payload = ob_payload r, dl_created = ob_created r,
      dl_attempts = attempts, dl_last_error = Some err, dl_dead_lettered = t\<rparr>"

definition ignore_error :: "('w, unit) io \<Rightarrow> ('w, unit) io" where
  "ignore_error m = on_error m (\<lambda>_. ret ())"

definition record_failure ::
  "nat \<Rightarrow> uuid \<Rightarrow> nat \<Rightarrow> string \<Rightarrow> ('z outbox_db_scheme, unit) io" where
  "record_failure max_attempts i attempts err =
     bind_io time_now (\<lambda>t.
       if attempts < max_attempts then
         ignore_error (db_write (\<lambda>w. w\<lparr>outbox_rows := update_row i
           (\<lambda>r. r\<lparr>ob_attempts := attempts, ob_last_error := Some err, ob_last_attempt := Some t\<rparr>)
           (outbox_rows w)\<rparr>))
       else
         ignore_error (in_tx
           (then_io
             (db_call (\<lambda>w.
                if i \<in> set (map dl_id (dlq_rows w)) \<and> i \<in> set (map ob_id (outbox_rows w))
                then (Inl unique_violation, w)
                else (Inr (), w\<lparr>dlq_rows := dlq_rows w @
                   map (dead_letter attempts err t) (filter (\<lambda>r. ob_id r = i) (outbox_rows w))\<rparr>)))
             (db_write (\<lambda>w. w\<lparr>outbox_rows := filter (\<lambda>r. ob_id r \<noteq> i) (outbox_rows w)\<rparr>)))))"

definition dispatch_row ::
  "nat \<Rightarrow> (outbox_row \<Rightarrow> string option) \<Rightarrow> outbox_row \<Rightarrow> ('z outbox_db_scheme, unit) io" where
  "dispatch_row max_attempts pub r =
     (case pub r of
        Some err \<Rightarrow> record_failure max_attempts (ob_id r) (Suc (ob_attempts r)) err
      | None \<Rightarrow> bind_io time_now (\<lambda>t.
          ignore_error (db_write (\<lambda>w. w\<lparr>outbox_rows := update_row (ob_id r)
            (\<lambda>r. r\<lparr>ob_published := Some t\<rparr>) (outbox_rows w)\<rparr>))))"

fun dispatch_all ::
  "nat \<Rightarrow> (outbox_row \<Rightarrow> string option) \<Rightarrow> outbox_row list \<Rightarrow> ('z outbox_db_scheme, unit) io" where
  "dispatch_all m pub [] = ret ()"
| "dispatch_all m pub (r # rs) = then_io (dispatch_row m pub r) (dispatch_all m pub rs)"

definition tick ::
  "nat \<Rightarrow> nat \<Rightarrow> (outbox_row \<Rightarrow> string option) \<Rightarrow> ('z outbox_db_scheme, unit) io" where
  "tick batch_size max_attempts pub =
     bind_io time_now (\<lambda>now.
     bind_io (db_read (\<lambda>w. select_batch batch_size now (outbox_rows w))) (\<lambda>batch.
       dispatch_all max_attempts pub batch))"

text \<open>\<^verbatim>\<open>Run\<close> until its ticker has fired \<open>k\<close> times: an error of a tick is logged and dropped.\<close>

fun run_ticks ::
  "nat \<Rightarrow> nat \<Rightarrow> (outbox_row \<Rightarrow> string option) \<Rightarrow> nat \<Rightarrow> ('z outbox_db_scheme, unit) io" where
  "run_ticks batch_size max_attempts pub 0 = ret ()"
| "run_ticks batch_size max_attempts pub (Suc k) =
     then_io (ignore_error (tick batch_size max_attempts pub)) (run_ticks batch_size max_attempts pub k)"

text \<open>\<^verbatim>\<open>NewDispatcher\<close>: the defaults for a nonpositive interval (seconds) or batch size.\<close>

definition new_dispatcher :: "int \<Rightarrow> int \<Rightarrow> int \<times> int \<times> nat" where
  "new_dispatcher interval batch =
     (if interval \<le> 0 then 2 else interval, if batch \<le> 0 then 50 else batch, default_max_attempts)"

section \<open>The dead-letter listing\<close>

definition dlq_limit :: "int \<Rightarrow> nat" where
  "dlq_limit limit = (if limit \<le> 0 \<or> limit > 200 then 50 else nat limit)"

definition list_dlq :: "int \<Rightarrow> ('z outbox_db_scheme, dlq_row list) io" where
  "list_dlq limit =
     db_read (\<lambda>w. take (dlq_limit limit) (rev (sort_key dl_dead_lettered (dlq_rows w))))"

section \<open>What one dispatch can do\<close>

definition mark_published :: "uuid \<Rightarrow> time \<Rightarrow> 'z outbox_db_scheme \<Rightarrow> 'z outbox_db_scheme" where
  "mark_published i t w =
     w\<lparr>outbox_rows := update_row i (\<lambda>r. r\<lparr>ob_published := Some t\<rparr>) (outbox_rows w)\<rparr>"

definition bump_attempts ::
  "uuid \<Rightarrow> nat \<Rightarrow> string \<Rightarrow> time \<Rightarrow> 'z outbox_db_scheme \<Rightarrow> 'z outbox_db_scheme" where
  "bump_attempts i n err t w = w\<lparr>outbox_rows := update_row i
     (\<lambda>r. r\<lparr>ob_attempts := n, ob_last_error := Some err, ob_last_attempt := Some t\<rparr>) (outbox_rows w)\<rparr>"

definition move_to_dlq ::
  "uuid \<Rightarrow> nat \<Rightarrow> string \<Rightarrow> time \<Rightarrow> 'z outbox_db_scheme \<Rightarrow> 'z outbox_db_scheme" where
  "move_to_dlq i n err t w =
     w\<lparr>dlq_rows := dlq_rows w @ map (dead_letter n err t) (filter (\<lambda>r. ob_id r = i) (outbox_rows w)),
       outbox_rows := filter (\<lambda>r. ob_id r \<noteq> i) (outbox_rows w)\<rparr>"

lemma ignore_error_runs:
  "atomic m \<Longrightarrow> \<exists>e'. ignore_error m e w = (Inr (), e', w) \<or>
     (\<exists>w'. m e w = (Inr (), e', w') \<and> ignore_error m e w = (Inr (), e', w'))"
proof -
  assume a: "atomic m"
  obtain r e1 w1 where m: "m e w = (r, e1, w1)" by (metis prod_cases3)
  show ?thesis
  proof (cases r)
    case (Inl x)
    with a m have "w1 = w" by (auto dest: atomicD)
    with m Inl show ?thesis by (simp add: ignore_error_def on_error_def ret_def)
  next
    case (Inr u)
    with m show ?thesis by (intro exI [of _ e1]) (simp add: ignore_error_def on_error_def)
  qed
qed

lemma atomic_db_write [simp]: "atomic (db_write f)"
  by (simp add: db_write_def)

text \<open>Under any faults a dispatch returns, and does one of four things to the tables.\<close>

inductive settles ::
  "nat \<Rightarrow> (outbox_row \<Rightarrow> string option) \<Rightarrow> outbox_row \<Rightarrow> 'z outbox_db_scheme \<Rightarrow> 'z outbox_db_scheme \<Rightarrow> bool"
  for m pub r where
  lost_write: "settles m pub r w w"
| published: "pub r = None \<Longrightarrow> settles m pub r w (mark_published (ob_id r) t w)"
| bumped: "pub r = Some err \<Longrightarrow> Suc (ob_attempts r) < m \<Longrightarrow>
    settles m pub r w (bump_attempts (ob_id r) (Suc (ob_attempts r)) err t w)"
| dead_lettered: "pub r = Some err \<Longrightarrow> \<not> Suc (ob_attempts r) < m \<Longrightarrow>
    ob_id r \<notin> dl_id ` set (dlq_rows w) \<inter> ob_id ` set (outbox_rows w) \<Longrightarrow>
    settles m pub r w (move_to_dlq (ob_id r) (Suc (ob_attempts r)) err t w)"

lemma dispatch_row_settles:
  obtains e' w' where "dispatch_row m pub r e w = (Inr (), e', w')" and "settles m pub r w w'"
proof -
  let ?t = "e_clock e (e_ticks e)" and ?e = "e\<lparr>e_ticks := Suc (e_ticks e)\<rparr>"
  show thesis
  proof (cases "pub r")
    case None
    let ?m = "db_write (\<lambda>w. w\<lparr>outbox_rows := update_row (ob_id r)
      (\<lambda>r. r\<lparr>ob_published := Some ?t\<rparr>) (outbox_rows w)\<rparr>)"
    have run: "dispatch_row m pub r e w = ignore_error ?m ?e w"
      using None by (simp add: dispatch_row_def bind_io_def time_now_def)
    obtain e' where "ignore_error ?m ?e w = (Inr (), e', w) \<or>
        (\<exists>w'. ?m ?e w = (Inr (), e', w') \<and> ignore_error ?m ?e w = (Inr (), e', w'))"
      using ignore_error_runs [of ?m ?e w] by auto
    then show thesis
      using that run None published [of pub r m w ?t] lost_write [of m pub r w] by (auto simp: io_ok mark_published_def)
  next
    case (Some err)
    show thesis
    proof (cases "Suc (ob_attempts r) < m")
      case True
      let ?m = "db_write (\<lambda>w. w\<lparr>outbox_rows := update_row (ob_id r) (\<lambda>q. q\<lparr>ob_attempts := Suc (ob_attempts r),
        ob_last_error := Some err, ob_last_attempt := Some ?t\<rparr>) (outbox_rows w)\<rparr>)"
      have run: "dispatch_row m pub r e w = ignore_error ?m ?e w"
        using Some True by (simp add: dispatch_row_def record_failure_def bind_io_def time_now_def)
      obtain e' where "ignore_error ?m ?e w = (Inr (), e', w) \<or>
          (\<exists>w'. ?m ?e w = (Inr (), e', w') \<and> ignore_error ?m ?e w = (Inr (), e', w'))"
        using ignore_error_runs [of ?m ?e w] by auto
      then show thesis
        using that run Some True bumped [of pub r err m w ?t] lost_write [of m pub r w] by (auto simp: io_ok bump_attempts_def)
    next
      case False
      let ?b = "then_io
         (db_call (\<lambda>w. if ob_id r \<in> set (map dl_id (dlq_rows w)) \<and> ob_id r \<in> set (map ob_id (outbox_rows w))
            then (Inl unique_violation, w)
            else (Inr (), w\<lparr>dlq_rows := dlq_rows w @ map (dead_letter (Suc (ob_attempts r)) err ?t)
               (filter (\<lambda>q. ob_id q = ob_id r) (outbox_rows w))\<rparr>)))
         (db_write (\<lambda>w. w\<lparr>outbox_rows := filter (\<lambda>q. ob_id q \<noteq> ob_id r) (outbox_rows w)\<rparr>))"
      have run: "dispatch_row m pub r e w = ignore_error (in_tx ?b) ?e w"
        using Some False by (simp add: dispatch_row_def record_failure_def bind_io_def time_now_def)
      obtain e' where "ignore_error (in_tx ?b) ?e w = (Inr (), e', w) \<or>
          (\<exists>w'. in_tx ?b ?e w = (Inr (), e', w') \<and> ignore_error (in_tx ?b) ?e w = (Inr (), e', w'))"
        using ignore_error_runs [of "in_tx ?b" ?e w] by auto
      then show thesis
      proof (elim disjE exE conjE)
        fix w' assume tx: "in_tx ?b ?e w = (Inr (), e', w')"
          and ie: "ignore_error (in_tx ?b) ?e w = (Inr (), e', w')"
        from tx obtain e2 where "?b (next_call ?e) w = (Inr (), e2, w')" by (rule in_tx_ok)
        then have "ob_id r \<notin> dl_id ` set (dlq_rows w) \<inter> ob_id ` set (outbox_rows w)"
          and "w' = move_to_dlq (ob_id r) (Suc (ob_attempts r)) err ?t w"
          by (auto simp: io_ok move_to_dlq_def split: if_splits)
        with ie run Some False show thesis by (intro that [of e' w']) (auto intro: dead_lettered)
      qed (use that run lost_write [of m pub r w] in auto)
    qed
  qed
qed

inductive_cases settlesE: "settles m pub r w w'"

lemma dispatch_all_invariant:
  assumes "\<And>r w w'. r \<in> set rs \<Longrightarrow> P w \<Longrightarrow> settles m pub r w w' \<Longrightarrow> P w'"
    and "P w" and "dispatch_all m pub rs e w = (res, e', w')"
  shows "P w' \<and> res = Inr ()"
  using assms
proof (induction rs arbitrary: e w)
  case Nil
  then show ?case by (simp add: ret_def)
next
  case (Cons r rs)
  obtain e1 w1 where r: "dispatch_row m pub r e w = (Inr (), e1, w1)" "settles m pub r w w1"
    by (rule dispatch_row_settles)
  have "dispatch_all m pub rs e1 w1 = (res, e', w')"
    using Cons.prems(3) r(1) by (simp add: bind_io_def)
  moreover have "P w1" by (rule Cons.prems(1) [OF _ Cons.prems(2) r(2)]) simp
  moreover have "\<And>q v v'. q \<in> set rs \<Longrightarrow> P v \<Longrightarrow> settles m pub q v v' \<Longrightarrow> P v'"
    by (rule Cons.prems(1)) auto
  ultimately show ?case using Cons.IH by blast
qed

lemma tick_cases:
  assumes "tick n m pub e w = (res, e', w')"
  obtains "w' = w"
  | now e1 where "now = e_clock e (e_ticks e)" and
      "dispatch_all m pub (select_batch n now (outbox_rows w)) e1 w = (res, e', w')"
  using assms
  by (auto simp: tick_def bind_io_def time_now_def db_read_def db_call_def Let_def split: if_splits)

lemma select_batch_mem: "r \<in> set (select_batch n now rows) \<Longrightarrow> r \<in> set rows \<and> due now r"
  unfolding select_batch_def by (auto dest: in_set_takeD)

lemma tick_invariant:
  assumes "tick n m pub e w = (res, e', w')" and "P w"
    and "\<And>r w1 w2. r \<in> set (outbox_rows w) \<Longrightarrow> due (e_clock e (e_ticks e)) r \<Longrightarrow> P w1 \<Longrightarrow>
      settles m pub r w1 w2 \<Longrightarrow> P w2"
  shows "P w'"
  using assms(1)
proof (cases rule: tick_cases)
  case 1
  with assms(2) show ?thesis by simp
next
  case (2 now e1)
  have "P w2" if "r \<in> set (select_batch n now (outbox_rows w))" "P w1" "settles m pub r w1 w2" for r w1 w2
    using select_batch_mem [OF that(1)] assms(3) [OF _ _ that(2,3)] 2(1) by simp
  from dispatch_all_invariant [where P = P, OF this assms(2) 2(2)] show ?thesis by simp
qed

section \<open>What the tables hold\<close>

definition row_event_of :: "outbox_row \<Rightarrow> outbox_event \<times> time" where
  "row_event_of r = (\<lparr>oe_id = ob_id r, oe_aggregate = ob_aggregate r, oe_topic = ob_topic r,
     oe_event_type = ob_event_type r, oe_payload = ob_payload r\<rparr>, ob_created r)"

definition dlq_event_of :: "dlq_row \<Rightarrow> outbox_event \<times> time" where
  "dlq_event_of d = (\<lparr>oe_id = dl_id d, oe_aggregate = dl_aggregate d, oe_topic = dl_topic d,
     oe_event_type = dl_event_type d, oe_payload = dl_payload d\<rparr>, dl_created d)"

definition held_events :: "'z outbox_db_scheme \<Rightarrow> (outbox_event \<times> time) multiset" where
  "held_events w = mset (map row_event_of (outbox_rows w)) + mset (map dlq_event_of (dlq_rows w))"

lemma update_row_map_id:
  "(\<And>r. f (g r) = f r) \<Longrightarrow> map f (update_row i g rows) = map f rows"
  by (simp add: update_row_def)

lemma mset_map_split:
  "mset (map f (filter (\<lambda>r. \<not> P r) rows)) + mset (map f (filter P rows)) = mset (map f rows)"
  by (induction rows) auto

lemma settles_held_events: "settles m pub r w w' \<Longrightarrow> held_events w' = held_events w"
proof (erule settlesE)
  fix err t assume w': "w' = move_to_dlq (ob_id r) (Suc (ob_attempts r)) err t w"
  have "map dlq_event_of (map (dead_letter k err t) rows) = map row_event_of rows" for k rows
    by (simp add: dlq_event_of_def dead_letter_def row_event_of_def)
  then show ?thesis
    using mset_map_split [of row_event_of "\<lambda>q. ob_id q = ob_id r" "outbox_rows w"]
    by (simp add: w' held_events_def move_to_dlq_def del: mset_map map_map)
qed (simp_all add: held_events_def mark_published_def bump_attempts_def update_row_map_id
      row_event_of_def del: mset_map)

definition outbox_inv :: "nat \<Rightarrow> 'z outbox_db_scheme \<Rightarrow> bool" where
  "outbox_inv m w \<longleftrightarrow> distinct (map ob_id (outbox_rows w)) \<and> distinct (map dl_id (dlq_rows w)) \<and>
     (\<forall>r \<in> set (outbox_rows w). ob_attempts r < m) \<and> (\<forall>d \<in> set (dlq_rows w). dl_attempts d = m)"

lemma distinct_filter_eq: "distinct (map f rows) \<Longrightarrow> length (filter (\<lambda>r. f r = i) rows) \<le> 1"
  proof (induction rows)
  case (Cons a rows)
  have "filter (\<lambda>r. f r = f a) rows = []" using Cons.prems by (auto simp: filter_empty_conv dest: sym intro: rev_image_eqI)
  with Cons show ?case by auto
qed simp

lemma settles_inv:
  assumes "settles m pub r w w'" and "ob_attempts r < m" and "outbox_inv m w"
  shows "outbox_inv m w'"
  using assms(1)
proof (rule settlesE)
  fix err t assume w': "w' = move_to_dlq (ob_id r) (Suc (ob_attempts r)) err t w"
    and last: "\<not> Suc (ob_attempts r) < m"
    and new: "ob_id r \<in> dl_id ` set (dlq_rows w) \<longrightarrow> ob_id r \<notin> ob_id ` set (outbox_rows w)"
  let ?q = "filter (\<lambda>q. ob_id q = ob_id r) (outbox_rows w)"
  have "length ?q \<le> 1" using assms(3) by (intro distinct_filter_eq) (simp add: outbox_inv_def)
  then consider "?q = []" | q where "?q = [q]" by (cases ?q) auto
  then show ?thesis
  proof cases
    case 1
    with assms(3) show ?thesis
      by (auto simp: w' outbox_inv_def move_to_dlq_def distinct_map_filter)
  next
    case (2 q)
    then have "q \<in> set ?q" by simp
    then have "ob_id q = ob_id r" and "q \<in> set (outbox_rows w)" by auto
    moreover from this have "ob_id r \<in> ob_id ` set (outbox_rows w)" by (metis imageI)
    ultimately show ?thesis using 2 new last assms(2,3)
      by (auto simp: w' outbox_inv_def move_to_dlq_def dead_letter_def distinct_map_filter)
  qed
qed (use assms in \<open>auto simp: outbox_inv_def mark_published_def bump_attempts_def update_row_def
      comp_def if_distrib cong: if_cong\<close>)

section \<open>A concrete outbox\<close>

definition demo_row :: "uuid \<Rightarrow> time \<Rightarrow> outbox_row" where
  "demo_row i c = \<lparr>ob_id = i, ob_aggregate = 5, ob_topic = ''rbac'', ob_event_type = ''role.created'',
     ob_payload = ''{}'', ob_created = c, ob_published = None, ob_attempts = 0, ob_last_error = None,
     ob_last_attempt = None\<rparr>"

definition demo_outbox :: "outbox_row list \<Rightarrow> outbox_db" where
  "demo_outbox rows = \<lparr>audit_rows = [], outbox_rows = rows, dlq_rows = []\<rparr>"

lemmas demo_outbox_defs = demo_outbox_def demo_row_def

section \<open>Properties of the outbox\<close>

lemma tick_holds_events:
  assumes "tick n m pub e w = (res, e', w')"
  shows "held_events w' = held_events w \<and> audit_rows w' = audit_rows w"
  using assms
proof (rule tick_invariant [where P = "\<lambda>v. held_events v = held_events w \<and> audit_rows v = audit_rows w"])
  show "held_events w = held_events w \<and> audit_rows w = audit_rows w" by simp
next
  fix r and w1 w2 :: "'a outbox_db_scheme"
  assume "held_events w1 = held_events w \<and> audit_rows w1 = audit_rows w" and s: "settles m pub r w1 w2"
  moreover have "audit_rows w2 = audit_rows w1"
    using s by (auto elim!: settlesE simp: mark_published_def bump_attempts_def move_to_dlq_def)
  ultimately show "held_events w2 = held_events w \<and> audit_rows w2 = audit_rows w"
    using settles_held_events [OF s] by simp
qed

text \<open>
  C33. No event is lost: whatever statements fail and whatever the publisher answers, after a tick of
  the dispatcher the events held by the outbox and the dead-letter table together are exactly those
  held before, with the same id, topic, type, payload and creation time, and no other table changed.
\<close>

theorem tick_loses_no_event:
  assumes "tick n m pub e w = (res, e', w')"
  shows "held_events w' = held_events w \<and> audit_rows w' = audit_rows w"
  by (rule tick_holds_events [OF assms])

theorem tick_loses_no_event_witness:
  "held_events (snd (snd (tick 50 10 (\<lambda>_. Some ''down'') demo_env (demo_outbox [demo_row 1 0])))) =
     {#row_event_of (demo_row 1 0)#}"
proof -
  obtain res e' w' where r: "tick 50 10 (\<lambda>_. Some ''down'') demo_env (demo_outbox [demo_row 1 0]) = (res, e', w')"
    by (metis prod_cases3)
  from tick_loses_no_event [OF this] r show ?thesis by (simp add: held_events_def demo_outbox_def)
qed

text \<open>
  C32. The tables stay well-formed under ticks and enqueues: ids are unique in each table, an event
  still in the outbox has failed fewer than the maximal number of times, and a dead-lettered event
  exactly that many times.
\<close>

theorem outbox_stays_well_formed:
  assumes "outbox_inv m w" and "0 < m"
    and "tick n m pub e w = (res, e', w') \<or> enqueue ev e w = (res, e', w')"
  shows "outbox_inv m w'"
  using assms(3)
proof
  assume "tick n m pub e w = (res, e', w')"
  then show ?thesis
  proof (rule tick_invariant)
    fix r w1 w2 assume "r \<in> set (outbox_rows w)" and "outbox_inv m w1" and "settles m pub r w1 w2"
    moreover from this have "ob_attempts r < m" using assms(1) by (simp add: outbox_inv_def)
    ultimately show "outbox_inv m w2" using settles_inv by blast
  qed (rule assms(1))
next
  assume "enqueue ev e w = (res, e', w')"
  then show ?thesis
    using assms(1,2)
    by (auto simp: enqueue_def bind_io_def uuid_new_def ret_def time_now_def db_call_def Let_def
        outbox_inv_def new_outbox_row_def split: if_splits)
qed

theorem outbox_stays_well_formed_witness:
  "outbox_inv 10 (snd (snd (tick 50 10 (\<lambda>_. Some ''down'') demo_env (demo_outbox [demo_row 1 0]))))"
proof -
  obtain res e' w' where r: "tick 50 10 (\<lambda>_. Some ''down'') demo_env (demo_outbox [demo_row 1 0]) = (res, e', w')"
    by (metis prod_cases3)
  have "outbox_inv 10 (demo_outbox [demo_row 1 0])" by (simp add: outbox_inv_def demo_outbox_defs)
  from outbox_stays_well_formed [OF this _ disjI1 [OF r]] r show ?thesis by simp
qed

text \<open>
  Only a publish that succeeded marks a row: after a tick, a row carries a publication time only
  if a row with its id carried one before, or if such a row was unpublished and due and the publisher
  accepted it. A fault between the publish and the mark leaves the row as it was, to be sent again.
\<close>

theorem tick_marks_only_published:
  assumes "tick n m pub e w = (res, e', w')"
    and "q \<in> set (outbox_rows w')" and "ob_published q \<noteq> None"
  shows "\<exists>r \<in> set (outbox_rows w). ob_id r = ob_id q \<and>
     (ob_published r \<noteq> None \<or> due (e_clock e (e_ticks e)) r \<and> pub r = None)"
proof -
  let ?now = "e_clock e (e_ticks e)"
  define P where "P v \<longleftrightarrow> (\<forall>q \<in> set (outbox_rows v). ob_published q \<noteq> None \<longrightarrow>
    (\<exists>r \<in> set (outbox_rows w). ob_id r = ob_id q \<and> (ob_published r \<noteq> None \<or> due ?now r \<and> pub r = None)))"
    for v :: "'a outbox_db_scheme"
  have "P w'"
  proof (rule tick_invariant [OF assms(1)])
    show "P w" by (auto simp: P_def)
    fix r w1 w2
    assume r: "r \<in> set (outbox_rows w)" "due ?now r" and "P w1" and "settles m pub r w1 w2"
    from this(4) show "P w2"
    proof (rule settlesE)
      fix t assume "w2 = mark_published (ob_id r) t w1" and "pub r = None"
      with r \<open>P w1\<close> show ?thesis
        by (fastforce simp: P_def mark_published_def update_row_def split: if_splits)
    qed (use \<open>P w1\<close> in \<open>fastforce simp: P_def bump_attempts_def move_to_dlq_def update_row_def
          split: if_splits\<close>)+
  qed
  with assms(2,3) show ?thesis by (auto simp: P_def)
qed

theorem tick_marks_only_published_witness:
  "\<exists>r \<in> set [demo_row 1 0, demo_row 2 0]. ob_id r = 1 \<and> due 0 r"
proof -
  let ?pub = "\<lambda>r. if ob_id r = 1 then None else Some ''down''"
  let ?w = "demo_outbox [demo_row 1 0, demo_row 2 0]"
  obtain e' w' where run: "tick 50 10 ?pub demo_env ?w = (Inr (), e', w')"
    and rows: "map (\<lambda>r. (ob_id r, ob_published r)) (outbox_rows w') = [(1, Some 1), (2, None)]"
    by (simp add: tick_def select_batch_def due_def demo_outbox_defs io_run quiet_env_def dispatch_row_def
        record_failure_def ignore_error_def update_row_def)
  from rows obtain q where "q \<in> set (outbox_rows w')" "ob_id q = 1" "ob_published q = Some 1"
    by (cases "outbox_rows w'") auto
  with tick_marks_only_published [OF run this(1)] show ?thesis by (auto simp: demo_outbox_def demo_row_def)
qed

section \<open>Delivery without faults\<close>

definition settled ::
  "nat \<Rightarrow> (outbox_row \<Rightarrow> string option) \<Rightarrow> outbox_row \<Rightarrow> time \<Rightarrow> 'z outbox_db_scheme \<Rightarrow> 'z outbox_db_scheme"
  where
  "settled m pub r t w = (case pub r of
       None \<Rightarrow> mark_published (ob_id r) t w
     | Some err \<Rightarrow>
         if Suc (ob_attempts r) < m then bump_attempts (ob_id r) (Suc (ob_attempts r)) err t w
         else if ob_id r \<in> dl_id ` set (dlq_rows w) \<inter> ob_id ` set (outbox_rows w) then w
         else move_to_dlq (ob_id r) (Suc (ob_attempts r)) err t w)"

lemma dispatch_row_runs:
  assumes "\<And>k. \<not> e_fault e k"
  obtains e' where "dispatch_row m pub r e w = (Inr (), e', settled m pub r (e_clock e (e_ticks e)) w)"
    and "e_fault e' = e_fault e" and "e_clock e' = e_clock e" and "e_ticks e' = Suc (e_ticks e)"
proof -
  let ?e = "fst (snd (dispatch_row m pub r e w))"
  have "dispatch_row m pub r e w = (Inr (), ?e, settled m pub r (e_clock e (e_ticks e)) w) \<and>
      e_fault ?e = e_fault e \<and> e_clock ?e = e_clock e \<and> e_ticks ?e = Suc (e_ticks e)"
    using assms
    by (auto simp: dispatch_row_def record_failure_def settled_def ignore_error_def on_error_def
        bind_io_def time_now_def db_write_def db_call_def Let_def in_tx_def next_call_def ret_def
        mark_published_def bump_attempts_def move_to_dlq_def split: option.splits)
  with that show thesis by blast
qed

lemma dispatch_all_runs:
  assumes "\<And>k. \<not> e_fault e k" and "P A w"
    and "\<And>A r t v. P A v \<Longrightarrow> r \<in> set rs \<Longrightarrow> t \<in> e_clock e ` {e_ticks e ..< e_ticks e + length rs} \<Longrightarrow>
      P (insert (ob_id r) A) (settled m pub r t v)"
  obtains e' w' where "dispatch_all m pub rs e w = (Inr (), e', w')" and "P (A \<union> ob_id ` set rs) w'"
    and "e_fault e' = e_fault e" and "e_clock e' = e_clock e" and "e_ticks e' = e_ticks e + length rs"
  using assms
proof (induction rs arbitrary: A e w thesis)
  case Nil
  then show ?case by (simp add: ret_def)
next
  case (Cons r rs)
  obtain e1 where r: "dispatch_row m pub r e w = (Inr (), e1, settled m pub r (e_clock e (e_ticks e)) w)"
    and e1: "e_fault e1 = e_fault e" "e_clock e1 = e_clock e" "e_ticks e1 = Suc (e_ticks e)"
    using dispatch_row_runs [OF Cons.prems(2)] .
  let ?w1 = "settled m pub r (e_clock e (e_ticks e)) w"
  have P1: "P (insert (ob_id r) A) ?w1" by (rule Cons.prems(4) [OF Cons.prems(3)]) auto
  obtain e' w' where "dispatch_all m pub rs e1 ?w1 = (Inr (), e', w')"
    and "P (insert (ob_id r) A \<union> ob_id ` set rs) w'"
    and "e_fault e' = e_fault e1" "e_clock e' = e_clock e1" "e_ticks e' = e_ticks e1 + length rs"
  proof (rule Cons.IH [of e1 ?w1 "insert (ob_id r) A"])
    show "\<not> e_fault e1 k" for k using Cons.prems(2) e1 by simp
    show "P (insert (ob_id r) A) ?w1" by (rule P1)
    fix B q t v
    assume "P B v" and "q \<in> set rs" and "t \<in> e_clock e1 ` {e_ticks e1 ..< e_ticks e1 + length rs}"
    then show "P (insert (ob_id q) B) (settled m pub q t v)" using e1 by (intro Cons.prems(4)) auto
  qed
  with r e1 show ?case by (intro Cons.prems(1) [of e' w']) (auto simp: bind_io_def)
qed

lemma tick_runs:
  assumes "\<And>k. \<not> e_fault e k" and "batch = select_batch n (e_clock e (e_ticks e)) (outbox_rows w)"
    and "P {} w"
    and "\<And>A r t v. P A v \<Longrightarrow> r \<in> set batch \<Longrightarrow>
      t \<in> e_clock e ` {Suc (e_ticks e) ..< Suc (e_ticks e) + length batch} \<Longrightarrow>
      P (insert (ob_id r) A) (settled m pub r t v)"
  obtains e' w' where "tick n m pub e w = (Inr (), e', w')" and "P (ob_id ` set batch) w'"
    and "e_fault e' = e_fault e" and "e_clock e' = e_clock e"
    and "e_ticks e' = Suc (e_ticks e) + length batch"
proof -
  let ?e = "e\<lparr>e_ticks := Suc (e_ticks e), e_calls := Suc (e_calls e)\<rparr>"
  have run: "tick n m pub e w = dispatch_all m pub batch ?e w"
    using assms(1) by (simp add: tick_def bind_io_def time_now_def db_read_def db_call_def assms(2))
  have "\<And>k. \<not> e_fault ?e k" using assms(1) by simp
  then show thesis
    by (rule dispatch_all_runs [of ?e P "{}" w batch m pub])
       (use that run assms(3,4) in \<open>auto simp: ac_simps\<close>)
qed

text \<open>
  Delivery: a tick without faults whose publisher accepts everything returns, leaves the
  dead-letter table alone, and every event of the selected batch is in the outbox with a publication
  time afterwards.
\<close>

theorem tick_publishes_the_batch:
  assumes "\<And>k. \<not> e_fault e k" and "\<And>r. pub r = None"
  shows "\<exists>e' w'. tick n m pub e w = (Inr (), e', w') \<and> dlq_rows w' = dlq_rows w \<and>
     (\<forall>r \<in> set (select_batch n (e_clock e (e_ticks e)) (outbox_rows w)).
        \<exists>q \<in> set (outbox_rows w'). row_event_of q = row_event_of r \<and> ob_published q \<noteq> None)"
proof -
  let ?b = "select_batch n (e_clock e (e_ticks e)) (outbox_rows w)"
  let ?P = "\<lambda>A v. dlq_rows v = dlq_rows w \<and> (\<forall>r \<in> set (outbox_rows w). \<exists>q \<in> set (outbox_rows v).
    row_event_of q = row_event_of r \<and> (ob_id r \<in> A \<longrightarrow> ob_published q \<noteq> None))"
  have step: "?P (insert (ob_id r) A) (settled m pub r t v)" if P: "?P A v" for A r t v
  proof -
    let ?f = "\<lambda>q. if ob_id q = ob_id r then q\<lparr>ob_published := Some t\<rparr> else q"
    have s: "settled m pub r t v = mark_published (ob_id r) t v" by (simp add: settled_def assms(2))
    have "\<exists>q \<in> set (outbox_rows (mark_published (ob_id r) t v)). row_event_of q = row_event_of p \<and>
       (ob_id p \<in> insert (ob_id r) A \<longrightarrow> ob_published q \<noteq> None)" if p: "p \<in> set (outbox_rows w)" for p
    proof -
      from P p obtain q where q: "q \<in> set (outbox_rows v)" "row_event_of q = row_event_of p"
        "ob_id p \<in> A \<longrightarrow> ob_published q \<noteq> None" by blast
      then have "?f q \<in> set (outbox_rows (mark_published (ob_id r) t v))"
        by (simp add: mark_published_def update_row_def)
      moreover from q(2) have "ob_id q = ob_id p" by (simp add: row_event_of_def)
      ultimately show ?thesis using q by (intro bexI [of _ "?f q"]) (auto simp: row_event_of_def)
    qed
    with P s show ?thesis by (simp add: mark_published_def)
  qed
  obtain e' w' where "tick n m pub e w = (Inr (), e', w')" and "?P (ob_id ` set ?b) w'"
  proof (rule tick_runs [OF assms(1) refl, where P = ?P])
    show "?P {} w" by auto
    fix A r t v assume "?P A v"
    then show "?P (insert (ob_id r) A) (settled m pub r t v)" by (rule step)
  qed
  moreover have "r \<in> set (outbox_rows w)" if "r \<in> set ?b" for r using select_batch_mem [OF that] by simp
  ultimately show ?thesis by blast
qed

theorem tick_publishes_the_batch_witness:
  "\<exists>e' w'. tick 1 10 (\<lambda>_. None) demo_env (demo_outbox [demo_row 1 7, demo_row 2 3]) = (Inr (), e', w') \<and>
     (\<exists>q \<in> set (outbox_rows w'). row_event_of q = row_event_of (demo_row 2 3) \<and> ob_published q \<noteq> None)"
proof -
  have "select_batch 1 0 [demo_row 1 7, demo_row 2 3] = [demo_row 2 3]"
    by (simp add: select_batch_def due_def demo_row_def)
  then show ?thesis
    using tick_publishes_the_batch [of demo_env "\<lambda>_. None" 1 10 "demo_outbox [demo_row 1 7, demo_row 2 3]"]
    by (auto simp: demo_outbox_def)
qed

section \<open>Events the publisher never accepts\<close>

abbreviation published_rows :: "'z outbox_db_scheme \<Rightarrow> outbox_row list" where
  "published_rows w \<equiv> filter (\<lambda>r. ob_published r \<noteq> None) (outbox_rows w)"

abbreviation pending_rows :: "'z outbox_db_scheme \<Rightarrow> outbox_row list" where
  "pending_rows w \<equiv> filter (\<lambda>r. ob_published r = None) (outbox_rows w)"

definition tables_disjoint :: "'z outbox_db_scheme \<Rightarrow> bool" where
  "tables_disjoint w \<longleftrightarrow> ob_id ` set (outbox_rows w) \<inter> dl_id ` set (dlq_rows w) = {}"

lemma settled_settles: "settles m pub r w (settled m pub r t w)"
  by (auto simp: settled_def intro: settles.intros split: option.splits)

lemma settled_disjoint: "tables_disjoint w \<Longrightarrow> tables_disjoint (settled m pub r t w)"
  by (auto simp: tables_disjoint_def settled_def mark_published_def bump_attempts_def
      move_to_dlq_def update_row_def dead_letter_def split: option.splits)

lemma settled_rejected_published:
  assumes "pub r \<noteq> None" and "\<forall>q \<in> set (published_rows w). ob_id q \<noteq> ob_id r"
  shows "published_rows (settled m pub r t w) = published_rows w"
proof -
  have "filter (\<lambda>q. ob_published q \<noteq> None) (update_row (ob_id r) (\<lambda>q. q\<lparr>ob_attempts := k,
      ob_last_error := Some err, ob_last_attempt := Some t\<rparr>) rows) = filter (\<lambda>q. ob_published q \<noteq> None) rows"
    if "\<forall>q \<in> set (filter (\<lambda>q. ob_published q \<noteq> None) rows). ob_id q \<noteq> ob_id r" for k err rows
    using that by (induction rows) (auto simp: update_row_def)
  moreover have "filter (\<lambda>q. ob_published q \<noteq> None \<and> ob_id q \<noteq> ob_id r) rows =
      filter (\<lambda>q. ob_published q \<noteq> None) rows"
    if "\<forall>q \<in> set (filter (\<lambda>q. ob_published q \<noteq> None) rows). ob_id q \<noteq> ob_id r" for rows
    using that by (induction rows) auto
  ultimately show ?thesis using assms
    by (auto simp: settled_def bump_attempts_def move_to_dlq_def conj_commute split: option.splits)
qed

definition retried :: "nat \<Rightarrow> time \<Rightarrow> outbox_row \<Rightarrow> bool" where
  "retried j c q \<longleftrightarrow> j \<le> ob_attempts q \<and>
     (case ob_last_attempt q of None \<Rightarrow> True | Some t \<Rightarrow> t + 300 * 1000000 < c)"

lemma retried_due:
  assumes "retried j c q" and "ob_published q = None"
  shows "due c q"
proof (cases "ob_last_attempt q")
  case None
  with assms show ?thesis by (simp add: due_def)
next
  case (Some t)
  have "int (retry_gap (ob_attempts q)) \<le> 300" by (simp add: retry_gap_def)
  with assms Some show ?thesis by (simp add: due_def retried_def)
qed

lemma settled_rejected_pending:
  assumes "pub r \<noteq> None" and "j \<le> ob_attempts r" and "t + 300 * 1000000 < c" and "tables_disjoint v"
    and "q \<in> set (pending_rows (settled m pub r t v))"
  shows "q \<in> set (pending_rows v) \<and> ob_id q \<noteq> ob_id r \<or> retried (Suc j) c q"
  using assms
  by (auto simp: settled_def bump_attempts_def move_to_dlq_def update_row_def retried_def
      tables_disjoint_def split: option.splits if_splits)

lemma clock_gaps:
  fixes clock :: "nat \<Rightarrow> time"
  assumes "\<And>i. clock i + d < clock (Suc i)" and "0 \<le> d" and "i < j"
  shows "clock i + d < clock j"
  using \<open>i < j\<close>
proof (induction j)
  case (Suc j)
  with assms(1) [of j] assms(1) [of i] assms(2) show ?case by (cases "i = j") auto
qed simp

lemma rejecting_tick:
  assumes "\<And>k. \<not> e_fault e k" and "\<And>r. pub r \<noteq> None"
    and gap: "\<And>i. e_clock e i + 300 * 1000000 < e_clock e (Suc i)"
    and inv: "outbox_inv m w" "tables_disjoint w" and len: "length (outbox_rows w) \<le> n"
    and pend: "\<forall>q \<in> set (pending_rows w). retried j (e_clock e (e_ticks e)) q"
  obtains e' w' where "tick n m pub e w = (Inr (), e', w')"
    and "e_fault e' = e_fault e" and "e_clock e' = e_clock e"
    and "outbox_inv m w'" and "tables_disjoint w'" and "length (outbox_rows w') \<le> n"
    and "\<forall>q \<in> set (pending_rows w'). retried (Suc j) (e_clock e' (e_ticks e')) q"
    and "published_rows w' = published_rows w"
proof -
  let ?now = "e_clock e (e_ticks e)"
  let ?b = "select_batch n ?now (outbox_rows w)"
  let ?c = "e_clock e (Suc (e_ticks e) + length ?b)"
  let ?P = "\<lambda>A v. outbox_inv m v \<and> tables_disjoint v \<and> length (outbox_rows v) \<le> n \<and>
    published_rows v = published_rows w \<and>
    (\<forall>q \<in> set (pending_rows v). ob_id q \<notin> A \<and> q \<in> set (pending_rows w) \<or> retried (Suc j) ?c q)"
  have all: "set ?b = set (filter (due ?now) (outbox_rows w))"
  proof -
    have "length (sort_key ob_created (filter (due ?now) (outbox_rows w))) \<le> n"
      using len length_filter_le [of "due ?now" "outbox_rows w"] unfolding length_sort by linarith
    then show ?thesis by (simp add: select_batch_def)
  qed
  have step: "?P (insert (ob_id r) A) (settled m pub r t v)"
    if P: "?P A v" and r: "r \<in> set ?b"
      and t: "t \<in> e_clock e ` {Suc (e_ticks e) ..< Suc (e_ticks e) + length ?b}" for A r t v
  proof -
    have rw: "r \<in> set (pending_rows w)" "ob_attempts r < m" "j \<le> ob_attempts r"
      using select_batch_mem [OF r] inv pend by (auto simp: due_def outbox_inv_def retried_def)
    have tc: "t + 300 * 1000000 < ?c" using t clock_gaps [where clock = "e_clock e" and d = "300 * 1000000", OF gap] by auto
    have new: "\<forall>q \<in> set (published_rows v). ob_id q \<noteq> ob_id r"
    proof
      fix q assume "q \<in> set (published_rows v)"
      with P have "q \<in> set (outbox_rows w)" "ob_published q \<noteq> None" by auto
      with rw(1) inv show "ob_id q \<noteq> ob_id r" by (auto simp: outbox_inv_def distinct_map dest: inj_onD)
    qed
    have "length (outbox_rows (settled m pub r t v)) \<le> length (outbox_rows v)"
      by (auto simp: settled_def mark_published_def bump_attempts_def move_to_dlq_def update_row_def
          split: option.splits)
    moreover have "outbox_inv m (settled m pub r t v)"
      using settles_inv [OF settled_settles rw(2)] P by blast
    moreover have "published_rows (settled m pub r t v) = published_rows w"
      using settled_rejected_published [OF assms(2) new] P by simp
    moreover have "ob_id q \<notin> insert (ob_id r) A \<and> q \<in> set (pending_rows w) \<or> retried (Suc j) ?c q"
      if q: "q \<in> set (pending_rows (settled m pub r t v))" for q
      using settled_rejected_pending [OF assms(2) rw(3) tc _ q] P by auto
    ultimately show ?thesis using P settled_disjoint by fastforce
  qed
  obtain e' w' where run: "tick n m pub e w = (Inr (), e', w')" and P: "?P (ob_id ` set ?b) w'"
    and e': "e_fault e' = e_fault e" "e_clock e' = e_clock e" "e_ticks e' = Suc (e_ticks e) + length ?b"
  proof (rule tick_runs [OF assms(1) refl, where P = ?P])
    show "?P {} w" using inv len by auto
    fix A r t v
    assume "?P A v" "r \<in> set ?b" "t \<in> e_clock e ` {Suc (e_ticks e) ..< Suc (e_ticks e) + length ?b}"
    then show "?P (insert (ob_id r) A) (settled m pub r t v)" by (rule step)
  qed
  have "q \<in> set ?b" if "q \<in> set (pending_rows w)" for q
    unfolding all using that pend by (auto intro: retried_due)
  then have "\<forall>q \<in> set (pending_rows w'). retried (Suc j) ?c q" using P by blast
  with that run e' P show thesis by simp
qed

lemma rejecting_ticks:
  assumes "\<And>k. \<not> e_fault e k" and "\<And>r. pub r \<noteq> None"
    and "\<And>i. e_clock e i + 300 * 1000000 < e_clock e (Suc i)"
    and "outbox_inv m w" and "tables_disjoint w" and "length (outbox_rows w) \<le> n"
    and "\<forall>q \<in> set (pending_rows w). retried j (e_clock e (e_ticks e)) q"
  shows "\<exists>e' w'. run_ticks n m pub k e w = (Inr (), e', w') \<and> outbox_inv m w' \<and>
     (\<forall>q \<in> set (pending_rows w'). j + k \<le> ob_attempts q) \<and> published_rows w' = published_rows w \<and>
     held_events w' = held_events w"
  using assms
proof (induction k arbitrary: e w j)
  case 0
  then show ?case by (auto simp: ret_def retried_def)
next
  case (Suc k)
  obtain e1 w1 where t: "tick n m pub e w = (Inr (), e1, w1)"
    and e1: "e_fault e1 = e_fault e" "e_clock e1 = e_clock e"
    and w1: "outbox_inv m w1" "tables_disjoint w1" "length (outbox_rows w1) \<le> n"
      "\<forall>q \<in> set (pending_rows w1). retried (Suc j) (e_clock e1 (e_ticks e1)) q"
      "published_rows w1 = published_rows w"
    using rejecting_tick [OF Suc.prems] .
  have h: "held_events w1 = held_events w" using tick_holds_events [OF t] by simp
  have f1: "\<And>i. \<not> e_fault e1 i" and g1: "\<And>i. e_clock e1 i + 300 * 1000000 < e_clock e1 (Suc i)"
    using Suc.prems(1,3) e1 by simp_all
  from Suc.IH [OF f1 Suc.prems(2) g1 w1(1-4)] w1(5) h t show ?case
    by (auto simp: bind_io_def ignore_error_def on_error_def)
qed

text \<open>
  A poisonous event leaves the queue: with a publisher that accepts nothing, no faults, clock readings more
  than five minutes apart and no more rows than a batch holds, after as many ticks as there are
  attempts the outbox holds just the rows that had been published before, and the dead-letter
  table has gained exactly the events that were pending.
\<close>

lemma rejected_events_end_in_dead_letter:
  assumes "\<And>k. \<not> e_fault e k" and "\<And>r. pub r \<noteq> None"
    and "\<And>i. e_clock e i + 300 * 1000000 < e_clock e (Suc i)"
    and "outbox_inv m w" and "tables_disjoint w" and "length (outbox_rows w) \<le> n"
    and "\<forall>q \<in> set (pending_rows w). ob_last_attempt q = None"
  shows "\<exists>e' w'. run_ticks n m pub m e w = (Inr (), e', w') \<and> outbox_rows w' = published_rows w \<and>
     mset (map dlq_event_of (dlq_rows w')) =
       mset (map dlq_event_of (dlq_rows w)) + mset (map row_event_of (pending_rows w))"
proof -
  have "\<forall>q \<in> set (pending_rows w). retried 0 (e_clock e (e_ticks e)) q"
    using assms(7) by (simp add: retried_def)
  from rejecting_ticks [where pub = pub and k = m, OF assms(1-6) this]
  obtain e' w' where
    run: "run_ticks n m pub m e w = (Inr (), e', w')" and inv: "outbox_inv m w'"
    and pend: "\<forall>q \<in> set (pending_rows w'). m \<le> ob_attempts q"
    and pub: "published_rows w' = published_rows w" and held: "held_events w' = held_events w"
    unfolding add_0 by (elim exE conjE) (rule that)
  have "\<forall>q \<in> set (outbox_rows w'). ob_published q \<noteq> None"
    using inv pend by (fastforce simp: outbox_inv_def)
  then have "published_rows w' = outbox_rows w'" by (rule filter_True)
  with pub have rows: "outbox_rows w' = published_rows w" by (simp only:)
  have "mset (map row_event_of (outbox_rows w)) =
      mset (map row_event_of (published_rows w)) + mset (map row_event_of (pending_rows w))"
    using mset_map_split [of row_event_of "\<lambda>r. ob_published r = None" "outbox_rows w"] by simp
  with held have "mset (map dlq_event_of (dlq_rows w')) =
      mset (map dlq_event_of (dlq_rows w)) + mset (map row_event_of (pending_rows w))"
    unfolding held_events_def rows by (simp del: mset_map)
  with run rows show ?thesis by blast
qed

end
