(* ===== verification/Rebac.thy ===== *)
theory Rebac imports Outbox "HOL-Library.List_Lexorder" begin

text \<open>
  Relationship-based authorization, \<^verbatim>\<open>internal/access/authorization/rebac/rebac.go\<close>: tuples
  "subject is relation of object", where the subject is a user or a userset (everyone with a relation
  on another object), the recursive check with its visited set and depth cap, the graph expansion, the
  service operations and the handlers.

  The fetch of the tuples of an (object, relation) pair is an operation that may fail; the statement
  has no ORDER BY, so the order in which the table is scanned is the argument \<open>scan\<close>. The visited
  set is, as in the code, a set of strings \<^verbatim>\<open>type:id#relation\<close>. The database's text collation is the
  argument \<open>coll\<close>, the sort weights of a text.
\<close>

section \<open>References\<close>

record object_ref =
  or_type :: string
  or_id :: string

record subject_ref =
  sr_type :: string
  sr_id :: string
  sr_relation :: string

definition parse_object :: "string \<Rightarrow> object_ref option" where
  "parse_object raw =
     (let s = trim_space raw in
      case index_byte s (CHR '':'') of
        None \<Rightarrow> None
      | Some i \<Rightarrow>
          if i = 0 \<or> Suc i = length s then None
          else Some \<lparr>or_type = take i s, or_id = drop (Suc i) s\<rparr>)"

definition parse_subject :: "string \<Rightarrow> subject_ref option" where
  "parse_subject raw =
     (let s = trim_space raw in
      let finish = (\<lambda>s rel. map_option
            (\<lambda>ob. \<lparr>sr_type = or_type ob, sr_id = or_id ob, sr_relation = rel\<rparr>) (parse_object s)) in
      case last_index_byte s (CHR ''#'') of
        None \<Rightarrow> finish s []
      | Some h \<Rightarrow> if drop (Suc h) s = [] then None else finish (take h s) (drop (Suc h) s))"

definition subject_string :: "string \<Rightarrow> string \<Rightarrow> string \<Rightarrow> string" where
  "subject_string typ i rel =
     (if rel = [] then typ @ '':'' @ i else typ @ '':'' @ i @ ''#'' @ rel)"

definition graph_node_id :: "string \<Rightarrow> string \<Rightarrow> string" where
  "graph_node_id typ i = typ @ '':'' @ i"

definition visit_key :: "string \<Rightarrow> string \<Rightarrow> string \<Rightarrow> string" where
  "visit_key typ i rel = typ @ '':'' @ i @ ''#'' @ rel"

section \<open>The check\<close>

record rel_subject =
  su_type :: string
  su_id :: string
  su_relation :: string

record explain_step =
  es_object :: string
  es_relation :: string
  es_subject :: string
  es_depth :: nat

record explanation =
  ex_allowed :: bool
  ex_path :: "explain_step list"

type_synonym 'w fetcher = "string \<Rightarrow> string \<Rightarrow> string \<Rightarrow> ('w, rel_subject list) io"

definition max_depth :: nat where
  "max_depth = 25"

text \<open>
  \<open>resolve\<close> returns the answer, the path and the visited set, which the code updates in place;
  \<open>resolve_tuples\<close> is its loop over the fetched tuples.
\<close>

function resolve ::
    "'w fetcher \<Rightarrow> string \<Rightarrow> string \<Rightarrow> string \<Rightarrow> string \<Rightarrow> string list \<Rightarrow> nat \<Rightarrow>
     ('w, bool \<times> explain_step list \<times> string list) io"
  and resolve_tuples ::
    "'w fetcher \<Rightarrow> string \<Rightarrow> string \<Rightarrow> string \<Rightarrow> string \<Rightarrow> string list \<Rightarrow> nat \<Rightarrow> rel_subject list \<Rightarrow>
     ('w, bool \<times> explain_step list \<times> string list) io"
where
  "resolve fetch ot oid rel user visited depth =
     (if depth > max_depth then ret (False, [], visited)
      else if visit_key ot oid rel \<in> set visited then ret (False, [], visited)
      else bind_io (fetch ot oid rel) (\<lambda>ts.
        resolve_tuples fetch ot oid rel user (visit_key ot oid rel # visited) depth ts))"
| "resolve_tuples fetch ot oid rel user visited depth [] = ret (False, [], visited)"
| "resolve_tuples fetch ot oid rel user visited depth (t # ts) =
     (if su_relation t = [] then
        if su_type t = ''user'' \<and> su_id t = user then
          ret (True, [\<lparr>es_object = ot @ '':'' @ oid, es_relation = rel,
                       es_subject = subject_string (su_type t) (su_id t) [], es_depth = depth\<rparr>], visited)
        else resolve_tuples fetch ot oid rel user visited depth ts
      else
        bind_io (resolve fetch (su_type t) (su_id t) (su_relation t) user visited (Suc depth))
          (\<lambda>(ok, path, visited').
             if ok then
               ret (True, \<lparr>es_object = ot @ '':'' @ oid, es_relation = rel,
                           es_subject = subject_string (su_type t) (su_id t) (su_relation t),
                           es_depth = depth\<rparr> # path, visited')
             else resolve_tuples fetch ot oid rel user visited' depth ts))"
  by pat_completeness auto
termination
  by (relation "measures [\<lambda>x. case x of
          Inl (_, _, _, _, _, _, d) \<Rightarrow> if d \<le> max_depth then 2 * (Suc max_depth - d) else 0
        | Inr (_, _, _, _, _, _, d, _) \<Rightarrow> if d \<le> max_depth then 2 * (Suc max_depth - d) - 1 else 1,
      \<lambda>x. case x of Inl _ \<Rightarrow> 0 | Inr (_, _, _, _, _, _, _, ts) \<Rightarrow> length ts]") auto

declare resolve.simps [simp del]

section \<open>The table\<close>

record rel_row =
  rt_id :: uuid
  rt_tenant :: uuid
  rt_otype :: string
  rt_oid :: string
  rt_relation :: string
  rt_stype :: string
  rt_sid :: string
  rt_srelation :: string

record rebac_db = outbox_db +
  rel_rows :: "rel_row list"

text \<open>\<^verbatim>\<open>InsertRelationTuple\<close>: on a conflict the stored row stays as it is and its id is returned.\<close>

definition same_tuple :: "rel_row \<Rightarrow> rel_row \<Rightarrow> bool" where
  "same_tuple r q \<longleftrightarrow> r\<lparr>rt_id := rt_id q\<rparr> = q"

definition insert_tuple :: "rel_row \<Rightarrow> rel_row list \<Rightarrow> go_error + (uuid \<times> rel_row list)" where
  "insert_tuple r rows =
     (case List.find (same_tuple r) rows of
        Some q \<Rightarrow> Inr (rt_id q, rows)
      | None \<Rightarrow>
          if rt_id r \<in> set (map rt_id rows) then Inl unique_violation
          else Inr (rt_id r, rows @ [r]))"

definition fetch_subjects ::
  "(rel_row list \<Rightarrow> rel_row list) \<Rightarrow> uuid \<Rightarrow> string \<Rightarrow> string \<Rightarrow> string \<Rightarrow> rel_row list \<Rightarrow> rel_subject list"
  where
  "fetch_subjects scan tenant ot oid rel rows =
     map (\<lambda>r. \<lparr>su_type = rt_stype r, su_id = rt_sid r, su_relation = rt_srelation r\<rparr>)
       (filter (\<lambda>r. rt_tenant r = tenant \<and> rt_otype r = ot \<and> rt_oid r = oid \<and> rt_relation r = rel)
         (scan rows))"

definition tuple_fetcher ::
  "(rel_row list \<Rightarrow> rel_row list) \<Rightarrow> uuid \<Rightarrow> ('z rebac_db_scheme) fetcher" where
  "tuple_fetcher scan tenant ot oid rel =
     db_read (\<lambda>w. fetch_subjects scan tenant ot oid rel (rel_rows w))"

section \<open>The service\<close>

record rel_tuple =
  tp_id :: uuid
  tp_object :: string
  tp_relation :: string
  tp_subject :: string

definition bad_object :: go_error where
  "bad_object = ApiErr (with_detail ErrUnprocessable ''object must be \"type:id\"'')"

definition write_tuple ::
  "uuid \<Rightarrow> string \<Rightarrow> string \<Rightarrow> string \<Rightarrow> ('z rebac_db_scheme, rel_tuple) io" where
  "write_tuple tenant object relation subject =
     (case parse_object object of
        None \<Rightarrow> fail bad_object
      | Some ob \<Rightarrow>
         (case parse_subject subject of
            None \<Rightarrow> fail (ApiErr (with_detail ErrUnprocessable
                      ''subject must be \"user:id\" or \"type:id#relation\"''))
          | Some su \<Rightarrow>
              if trim_space relation = [] then
                fail (ApiErr (with_detail ErrUnprocessable ''relation is required''))
              else
                bind_io uuid_new (\<lambda>i.
                bind_io (db_call (\<lambda>w.
                  case insert_tuple \<lparr>rt_id = i, rt_tenant = tenant, rt_otype = or_type ob,
                      rt_oid = or_id ob, rt_relation = relation, rt_stype = sr_type su,
                      rt_sid = sr_id su, rt_srelation = sr_relation su\<rparr> (rel_rows w) of
                    Inl err \<Rightarrow> (Inl err, w)
                  | Inr (stored, rows) \<Rightarrow> (Inr stored, w\<lparr>rel_rows := rows\<rparr>))) (\<lambda>stored.
                  ret \<lparr>tp_id = stored, tp_object = object, tp_relation = relation,
                       tp_subject = subject_string (sr_type su) (sr_id su) (sr_relation su)\<rparr>))))"

definition delete_tuple :: "uuid \<Rightarrow> uuid \<Rightarrow> ('z rebac_db_scheme, unit) io" where
  "delete_tuple i tenant =
     bind_io (db_call (\<lambda>w.
         (Inr (length (filter (\<lambda>r. rt_id r = i \<and> rt_tenant r = tenant) (rel_rows w))),
          w\<lparr>rel_rows := filter (\<lambda>r. \<not> (rt_id r = i \<and> rt_tenant r = tenant)) (rel_rows w)\<rparr>)))
       (\<lambda>n. guard (n \<noteq> 0) (ApiErr ErrNotFound))"

definition list_tuples ::
  "(string \<Rightarrow> nat list) \<Rightarrow> uuid \<Rightarrow> string \<Rightarrow> ('z rebac_db_scheme, rel_tuple list) io" where
  "list_tuples coll tenant object =
     (case parse_object object of
        None \<Rightarrow> fail bad_object
      | Some ob \<Rightarrow> db_read (\<lambda>w.
          map (\<lambda>r. \<lparr>tp_id = rt_id r, tp_object = object, tp_relation = rt_relation r,
                    tp_subject = subject_string (rt_stype r) (rt_sid r) (rt_srelation r)\<rparr>)
            (sort_key (\<lambda>r. (coll (rt_relation r), coll (rt_stype r), coll (rt_sid r)))
              (filter (\<lambda>r. rt_tenant r = tenant \<and> rt_otype r = or_type ob \<and> rt_oid r = or_id ob)
                (rel_rows w)))))"

definition list_by_subject ::
  "(string \<Rightarrow> nat list) \<Rightarrow> uuid \<Rightarrow> string \<Rightarrow> ('z rebac_db_scheme, rel_tuple list) io" where
  "list_by_subject coll tenant subject =
     (case parse_subject subject of
        None \<Rightarrow> fail (ApiErr (with_detail ErrUnprocessable
                   ''subject must be \"type:id\" or \"type:id#relation\"''))
      | Some su \<Rightarrow> db_read (\<lambda>w.
          map (\<lambda>r. \<lparr>tp_id = rt_id r, tp_object = graph_node_id (rt_otype r) (rt_oid r),
                    tp_relation = rt_relation r,
                    tp_subject = subject_string (sr_type su) (sr_id su) (rt_srelation r)\<rparr>)
            (sort_key (\<lambda>r. (coll (rt_otype r), coll (rt_oid r), coll (rt_relation r)))
              (filter (\<lambda>r. rt_tenant r = tenant \<and> rt_stype r = sr_type su \<and> rt_sid r = sr_id su)
                (rel_rows w)))))"

definition check_explain ::
  "(rel_row list \<Rightarrow> rel_row list) \<Rightarrow> uuid \<Rightarrow> string \<Rightarrow> string \<Rightarrow> string \<Rightarrow>
   ('z rebac_db_scheme, explanation) io" where
  "check_explain scan tenant object relation user =
     (case parse_object object of
        None \<Rightarrow> fail bad_object
      | Some ob \<Rightarrow>
          bind_io (resolve (tuple_fetcher scan tenant) (or_type ob) (or_id ob) relation user [] 0)
            (\<lambda>(allowed, path, _). ret \<lparr>ex_allowed = allowed, ex_path = path\<rparr>))"

definition rebac_check ::
  "(rel_row list \<Rightarrow> rel_row list) \<Rightarrow> uuid \<Rightarrow> string \<Rightarrow> string \<Rightarrow> string \<Rightarrow> ('z rebac_db_scheme, bool) io"
  where
  "rebac_check scan tenant object relation user =
     (case parse_object object of
        None \<Rightarrow> fail bad_object
      | Some ob \<Rightarrow>
          bind_io (resolve (tuple_fetcher scan tenant) (or_type ob) (or_id ob) relation user [] 0)
            (\<lambda>(allowed, _, _). ret allowed))"

section \<open>The graph\<close>

text \<open>
  \<^verbatim>\<open>Expand\<close> clamps its depth argument and then starts the traversal at depth 0 whatever it is.
\<close>

record graph_node =
  gn_id :: string
  gn_type :: string
  gn_label :: string

record graph_edge =
  ge_from :: string
  ge_to :: string
  ge_relation :: string

record graph =
  gr_nodes :: "graph_node list"
  gr_edges :: "graph_edge list"

definition max_expand_depth :: nat where
  "max_expand_depth = 10"

definition arrow :: string where
  "arrow = '' '' @ [CHR 0xE2, CHR 0x86, CHR 0x92] @ '' ''"

definition add_node :: "string \<Rightarrow> string \<Rightarrow> graph_node list \<Rightarrow> graph_node list" where
  "add_node typ i nodes =
     (if graph_node_id typ i \<in> set (map gn_id nodes) then nodes
      else nodes @ [\<lparr>gn_id = graph_node_id typ i, gn_type = typ, gn_label = i\<rparr>])"

definition edge_label :: "string \<Rightarrow> rel_subject \<Rightarrow> string" where
  "edge_label rel t = (if su_relation t \<noteq> [] then rel @ arrow @ su_relation t else rel)"

text \<open>
  \<open>expand\<close> threads what the code updates in place: the visited set, the nodes (a Go map, here in
  the order of insertion) and the edges.
\<close>

type_synonym expansion = "string list \<times> graph_node list \<times> graph_edge list"

function expand ::
    "'w fetcher \<Rightarrow> string \<Rightarrow> string \<Rightarrow> string \<Rightarrow> nat \<Rightarrow> expansion \<Rightarrow> ('w, expansion) io"
  and expand_tuples ::
    "'w fetcher \<Rightarrow> string \<Rightarrow> string \<Rightarrow> string \<Rightarrow> nat \<Rightarrow> expansion \<Rightarrow> rel_subject list \<Rightarrow> ('w, expansion) io"
where
  "expand fetch ot oid rel depth (visited, nodes, edges) =
     (if depth > max_expand_depth then ret (visited, nodes, edges)
      else if visit_key ot oid rel \<in> set visited then ret (visited, nodes, edges)
      else bind_io (fetch ot oid rel) (\<lambda>ts.
        expand_tuples fetch ot oid rel depth
          (visit_key ot oid rel # visited, add_node ot oid nodes, edges) ts))"
| "expand_tuples fetch ot oid rel depth st [] = ret st"
| "expand_tuples fetch ot oid rel depth (visited, nodes, edges) (t # ts) =
     (let st = (visited, add_node (su_type t) (su_id t) nodes,
                edges @ [\<lparr>ge_from = graph_node_id ot oid, ge_to = graph_node_id (su_type t) (su_id t),
                          ge_relation = edge_label rel t\<rparr>]) in
      if su_relation t \<noteq> [] then
        bind_io (expand fetch (su_type t) (su_id t) (su_relation t) (Suc depth) st)
          (\<lambda>st'. expand_tuples fetch ot oid rel depth st' ts)
      else expand_tuples fetch ot oid rel depth st ts)"
  by pat_completeness auto
termination
  by (relation "measures [\<lambda>x. case x of
          Inl (_, _, _, _, d, _) \<Rightarrow> if d \<le> max_expand_depth then 2 * (Suc max_expand_depth - d) else 0
        | Inr (_, _, _, _, d, _, _) \<Rightarrow> if d \<le> max_expand_depth then 2 * (Suc max_expand_depth - d) - 1 else 1,
      \<lambda>x. case x of Inl _ \<Rightarrow> 0 | Inr (_, _, _, _, _, _, ts) \<Rightarrow> length ts]") auto

declare expand.simps [simp del]

definition expand_graph ::
  "(rel_row list \<Rightarrow> rel_row list) \<Rightarrow> uuid \<Rightarrow> string \<Rightarrow> string \<Rightarrow> int \<Rightarrow> ('z rebac_db_scheme, graph) io"
  where
  "expand_graph scan tenant object relation depth =
     (case parse_object object of
        None \<Rightarrow> fail bad_object
      | Some ob \<Rightarrow>
          if trim_space relation = [] then
            fail (ApiErr (with_detail ErrUnprocessable ''relation is required''))
          else
            let clamped = (if depth \<le> 0 \<or> depth > int max_expand_depth
                           then int max_expand_depth else depth) in
            bind_io (expand (tuple_fetcher scan tenant) (or_type ob) (or_id ob) relation 0 ([], [], []))
              (\<lambda>(_, nodes, edges). ret \<lparr>gr_nodes = nodes, gr_edges = edges\<rparr>))"

section \<open>The handlers\<close>

text \<open>
  A decoded body is the argument \<open>body\<close>: the error of \<^verbatim>\<open>DecodeJSON\<close>, or its fields. The answer of
  a handler is its status and the value it writes.
\<close>

datatype rebac_body =
    Tuples "rel_tuple list"
  | OneTuple rel_tuple
  | NoContent
  | Allowed bool
  | Explained explanation
  | GraphBody graph

definition rebac_list_handler ::
  "(string \<Rightarrow> uuid option) \<Rightarrow> (string \<Rightarrow> nat list) \<Rightarrow> request \<Rightarrow> ('z rebac_db_scheme, nat \<times> rebac_body) io"
  where
  "rebac_list_handler pu coll r =
     bind_io (lift_res (require_path_tenant pu r)) (\<lambda>tenant.
       let object = query_get r ''object''; subject = query_get r ''subject'' in
       if object \<noteq> [] \<and> subject \<noteq> [] then
         fail (ApiErr (with_detail ErrBadRequest ''supply either object or subject, not both''))
       else if object \<noteq> [] then
         bind_io (list_tuples coll tenant object) (\<lambda>ts. ret (200, Tuples ts))
       else if subject \<noteq> [] then
         bind_io (list_by_subject coll tenant subject) (\<lambda>ts. ret (200, Tuples ts))
       else fail (ApiErr (with_detail ErrBadRequest ''object or subject query param required'')))"

definition rebac_write_handler ::
  "(string \<Rightarrow> uuid option) \<Rightarrow> request \<Rightarrow> go_error + (string \<times> string \<times> string) \<Rightarrow>
   ('z rebac_db_scheme, nat \<times> rebac_body) io" where
  "rebac_write_handler pu r body =
     bind_io (lift_res (require_path_tenant pu r)) (\<lambda>tenant.
     bind_io (lift_res body) (\<lambda>(object, relation, subject).
     bind_io (write_tuple tenant object relation subject) (\<lambda>t. ret (201, OneTuple t))))"

definition rebac_delete_handler ::
  "(string \<Rightarrow> uuid option) \<Rightarrow> request \<Rightarrow> ('z rebac_db_scheme, nat \<times> rebac_body) io" where
  "rebac_delete_handler pu r =
     bind_io (lift_res (require_path_tenant pu r)) (\<lambda>tenant.
       case pu (url_param r ''id'') of
         None \<Rightarrow> fail (ApiErr (with_detail ErrBadRequest ''invalid id''))
       | Some i \<Rightarrow> then_io (delete_tuple i tenant) (ret (204, NoContent)))"

definition rebac_check_handler ::
  "(string \<Rightarrow> uuid option) \<Rightarrow> (rel_row list \<Rightarrow> rel_row list) \<Rightarrow> request \<Rightarrow>
   go_error + (string \<times> string \<times> string) \<Rightarrow> ('z rebac_db_scheme, nat \<times> rebac_body) io" where
  "rebac_check_handler pu scan r body =
     bind_io (lift_res (require_path_tenant pu r)) (\<lambda>tenant.
     bind_io (lift_res body) (\<lambda>(object, relation, user).
       if user = [] \<or> relation = [] then
         fail (ApiErr (with_detail ErrUnprocessable ''user_id and relation are required''))
       else if query_get r ''explain'' = ''true'' then
         bind_io (check_explain scan tenant object relation user) (\<lambda>x. ret (200, Explained x))
       else
         bind_io (rebac_check scan tenant object relation user) (\<lambda>b. ret (200, Allowed b))))"

definition rebac_graph_handler ::
  "(string \<Rightarrow> uuid option) \<Rightarrow> (rel_row list \<Rightarrow> rel_row list) \<Rightarrow> request \<Rightarrow>
   ('z rebac_db_scheme, nat \<times> rebac_body) io" where
  "rebac_graph_handler pu scan r =
     bind_io (lift_res (require_path_tenant pu r)) (\<lambda>tenant.
       let object = query_get r ''object''; relation = query_get r ''relation'' in
       if object = [] \<or> relation = [] then
         fail (ApiErr (with_detail ErrBadRequest ''object and relation query params required''))
       else
         let depth = (case atoi (query_get r ''depth'') of
                        Some n \<Rightarrow> if n > 0 then n else int max_expand_depth
                      | None \<Rightarrow> int max_expand_depth) in
         bind_io (expand_graph scan tenant object relation depth) (\<lambda>g. ret (200, GraphBody g)))"

end
