(* ===== verification/RebacCheck.thy ===== *)
theory RebacCheck imports Rebac begin

text \<open>
  Correctness of the relationship check and of the graph expansion of theory \<open>Rebac\<close>. What the
  traversals rely on is the locale \<open>tuple_source\<close>: a fetch does not change the store and answers from
  it. It is interpreted on the database fetcher of the service.
\<close>

section \<open>The meaning of a check\<close>

type_synonym tuple_view = "string \<Rightarrow> string \<Rightarrow> string \<Rightarrow> rel_subject list"

definition user_subject :: "string \<Rightarrow> rel_subject" where
  "user_subject user = \<lparr>su_type = ''user'', su_id = user, su_relation = []\<rparr>"

text \<open>The relation as the tuples define it, without bounds: least closure under usersets.\<close>

inductive holds :: "tuple_view \<Rightarrow> string \<Rightarrow> string \<Rightarrow> string \<Rightarrow> string \<Rightarrow> bool" for F user where
  direct: "user_subject user \<in> set (F ot oid rel) \<Longrightarrow> holds F user ot oid rel"
| userset: "t \<in> set (F ot oid rel) \<Longrightarrow> su_relation t \<noteq> [] \<Longrightarrow>
    holds F user (su_type t) (su_id t) (su_relation t) \<Longrightarrow> holds F user ot oid rel"

text \<open>A path of an explanation: every step is a tuple, the last one names the user.\<close>

fun grant_path ::
  "tuple_view \<Rightarrow> string \<Rightarrow> string \<Rightarrow> string \<Rightarrow> string \<Rightarrow> nat \<Rightarrow> explain_step list \<Rightarrow> bool" where
  "grant_path F user ot oid rel d [] \<longleftrightarrow> False"
| "grant_path F user ot oid rel d (s # ss) \<longleftrightarrow>
     es_object s = ot @ '':'' @ oid \<and> es_relation s = rel \<and> es_depth s = d \<and>
     (\<exists>t \<in> set (F ot oid rel). es_subject s = subject_string (su_type t) (su_id t) (su_relation t) \<and>
        (if su_relation t = [] then t = user_subject user \<and> ss = []
         else grant_path F user (su_type t) (su_id t) (su_relation t) (Suc d) ss))"

lemma grant_path_holds: "grant_path F user ot oid rel d path \<Longrightarrow> holds F user ot oid rel"
proof (induction path arbitrary: ot oid rel d)
  case (Cons s ss)
  then obtain t where t: "t \<in> set (F ot oid rel)"
    "if su_relation t = [] then t = user_subject user \<and> ss = []
     else grant_path F user (su_type t) (su_id t) (su_relation t) (Suc d) ss" by auto
  show ?case
  proof (cases "su_relation t = []")
    case True
    with t show ?thesis by (auto intro: direct)
  next
    case False
    with t Cons.IH show ?thesis by (auto intro: userset)
  qed
qed simp

section \<open>Successful runs\<close>

text \<open>The runs of the traversal that answer, over a fixed view of the tuples.\<close>

inductive walk ::
    "tuple_view \<Rightarrow> string \<Rightarrow> string \<Rightarrow> string \<Rightarrow> string \<Rightarrow> string list \<Rightarrow> nat \<Rightarrow>
     bool \<Rightarrow> explain_step list \<Rightarrow> string list \<Rightarrow> bool"
  and walk_tuples ::
    "tuple_view \<Rightarrow> string \<Rightarrow> string \<Rightarrow> string \<Rightarrow> string \<Rightarrow> string list \<Rightarrow> nat \<Rightarrow> rel_subject list \<Rightarrow>
     bool \<Rightarrow> explain_step list \<Rightarrow> string list \<Rightarrow> bool"
  for F user where
  cut: "d > max_depth \<Longrightarrow> walk F user ot oid rel V d False [] V"
| seen: "visit_key ot oid rel \<in> set V \<Longrightarrow> walk F user ot oid rel V d False [] V"
| enter: "d \<le> max_depth \<Longrightarrow> visit_key ot oid rel \<notin> set V \<Longrightarrow>
    walk_tuples F user ot oid rel (visit_key ot oid rel # V) d (F ot oid rel) ok path V' \<Longrightarrow>
    walk F user ot oid rel V d ok path V'"
| none: "walk_tuples F user ot oid rel V d [] False [] V"
| user: "t = user_subject user \<Longrightarrow>
    walk_tuples F user ot oid rel V d (t # ts) True [\<lparr>es_object = ot @ '':'' @ oid, es_relation = rel,
      es_subject = subject_string (su_type t) (su_id t) [], es_depth = d\<rparr>] V"
| other: "su_relation t = [] \<Longrightarrow> t \<noteq> user_subject user \<Longrightarrow>
    walk_tuples F user ot oid rel V d ts ok path V' \<Longrightarrow>
    walk_tuples F user ot oid rel V d (t # ts) ok path V'"
| found: "su_relation t \<noteq> [] \<Longrightarrow>
    walk F user (su_type t) (su_id t) (su_relation t) V (Suc d) True path V' \<Longrightarrow>
    walk_tuples F user ot oid rel V d (t # ts) True (\<lparr>es_object = ot @ '':'' @ oid, es_relation = rel,
      es_subject = subject_string (su_type t) (su_id t) (su_relation t), es_depth = d\<rparr> # path) V'"
| not_found: "su_relation t \<noteq> [] \<Longrightarrow>
    walk F user (su_type t) (su_id t) (su_relation t) V (Suc d) False path V' \<Longrightarrow>
    walk_tuples F user ot oid rel V' d ts ok path' V'' \<Longrightarrow>
    walk_tuples F user ot oid rel V d (t # ts) ok path' V''"

lemmas walk_intros = walk_walk_tuples.intros
lemmas walk_induct = walk_walk_tuples.inducts

lemma user_subject_iff:
  "t = user_subject user \<longleftrightarrow> su_relation t = [] \<and> su_type t = ''user'' \<and> su_id t = user"
  by (cases t) (auto simp: user_subject_def)

section \<open>Soundness\<close>

lemma walk_sound:
  "walk F user ot oid rel V d ok path V' \<Longrightarrow>
     (ok \<longrightarrow> grant_path F user ot oid rel d path) \<and> (\<not> ok \<longrightarrow> path = [])"
  "walk_tuples F user ot oid rel V d ts ok path V' \<Longrightarrow>
     (set ts \<subseteq> set (F ot oid rel) \<longrightarrow> ok \<longrightarrow> grant_path F user ot oid rel d path) \<and> (\<not> ok \<longrightarrow> path = [])"
proof (induction rule: walk_induct)
  case (user t ot oid rel V d ts)
  then show ?case by (auto simp: user_subject_def intro!: bexI [of _ t])
next
  case (found t V d path V' ot oid rel ts)
  then show ?case by (auto intro!: bexI [of _ t])
qed auto

text \<open>A direct grant of a key that is entered is found whatever the other tuples are.\<close>

lemma walk_tuples_direct:
  "walk_tuples F user ot oid rel V d ts ok path V' \<Longrightarrow> user_subject user \<in> set ts \<Longrightarrow> ok"
proof (induction ts arbitrary: V path V')
  case (Cons t ts)
  from Cons.prems(1) show ?case
    by (cases rule: walk_tuples.cases) (use Cons in \<open>auto simp: user_subject_def\<close>)
qed simp

lemma walk_direct:
  "walk F user ot oid rel V d ok path V' \<Longrightarrow> d \<le> max_depth \<Longrightarrow> visit_key ot oid rel \<notin> set V \<Longrightarrow>
   user_subject user \<in> set (F ot oid rel) \<Longrightarrow> ok"
  by (erule walk.cases) (auto dest: walk_tuples_direct)

section \<open>Completeness\<close>

type_synonym rel_key = "string \<times> string \<times> string"

abbreviation key_text :: "rel_key \<Rightarrow> string" where
  "key_text k \<equiv> visit_key (fst k) (fst (snd k)) (snd (snd k))"

abbreviation subject_key :: "rel_subject \<Rightarrow> rel_key" where
  "subject_key t \<equiv> (su_type t, su_id t, su_relation t)"

definition subjects_of :: "tuple_view \<Rightarrow> rel_key \<Rightarrow> rel_subject set" where
  "subjects_of F k = set (F (fst k) (fst (snd k)) (snd (snd k)))"

text \<open>The (object, relation) pairs an expansion can come to.\<close>

inductive_set reachable :: "tuple_view \<Rightarrow> rel_key \<Rightarrow> rel_key set" for F root where
  root: "root \<in> reachable F root"
| step: "k \<in> reachable F root \<Longrightarrow> t \<in> subjects_of F k \<Longrightarrow> su_relation t \<noteq> [] \<Longrightarrow>
    subject_key t \<in> reachable F root"

definition explored :: "tuple_view \<Rightarrow> string \<Rightarrow> string set \<Rightarrow> rel_key \<Rightarrow> bool" where
  "explored F user S k \<longleftrightarrow> user_subject user \<notin> subjects_of F k \<and>
     (\<forall>t \<in> subjects_of F k. su_relation t \<noteq> [] \<longrightarrow> key_text (subject_key t) \<in> S)"

lemma explored_mono: "explored F user S k \<Longrightarrow> S \<subseteq> T \<Longrightarrow> explored F user T k"
  by (auto simp: explored_def)

lemma walk_negative:
  fixes K :: "rel_key set"
  assumes K: "finite K" "card K \<le> Suc max_depth" "inj_on key_text K"
    and closed: "\<forall>k \<in> K. \<forall>t \<in> subjects_of F k. su_relation t \<noteq> [] \<longrightarrow> subject_key t \<in> K"
  shows "walk F user ot oid rel V d ok path V' \<Longrightarrow> \<not> ok \<Longrightarrow> (ot, oid, rel) \<in> K \<Longrightarrow>
      set V \<subseteq> key_text ` K \<Longrightarrow> d \<le> card (set V) \<Longrightarrow>
      set V \<subseteq> set V' \<and> set V' \<subseteq> key_text ` K \<and> visit_key ot oid rel \<in> set V' \<and>
      (\<forall>k \<in> K. key_text k \<in> set V' - set V \<longrightarrow> explored F user (set V') k)"
    and "walk_tuples F user ot oid rel V d ts ok path V' \<Longrightarrow> \<not> ok \<Longrightarrow> (ot, oid, rel) \<in> K \<Longrightarrow>
      set V \<subseteq> key_text ` K \<Longrightarrow> Suc d \<le> card (set V) \<Longrightarrow> set ts \<subseteq> subjects_of F (ot, oid, rel) \<Longrightarrow>
      set V \<subseteq> set V' \<and> set V' \<subseteq> key_text ` K \<and>
      (\<forall>t \<in> set ts. t \<noteq> user_subject user \<and> (su_relation t \<noteq> [] \<longrightarrow> key_text (subject_key t) \<in> set V')) \<and>
      (\<forall>k \<in> K. key_text k \<in> set V' - set V \<longrightarrow> explored F user (set V') k)"
proof (induction rule: walk_induct)
  case (cut d ot oid rel V)
  have "card (key_text ` K) = card K" using K by (intro card_image)
  with cut K have "card (key_text ` K) \<le> card (set V)" by simp
  then have "set V = key_text ` K" using cut K by (intro card_seteq) auto
  with cut show ?case by (auto intro: rev_image_eqI)
next
  case (enter d ot oid rel V ok path V')
  have "set (visit_key ot oid rel # V) \<subseteq> key_text ` K" using enter by (auto intro: rev_image_eqI)
  moreover have "Suc d \<le> card (set (visit_key ot oid rel # V))" using enter by simp
  ultimately have IH: "set (visit_key ot oid rel # V) \<subseteq> set V'" "set V' \<subseteq> key_text ` K"
    "\<forall>t \<in> set (F ot oid rel). t \<noteq> user_subject user \<and> (su_relation t \<noteq> [] \<longrightarrow> key_text (subject_key t) \<in> set V')"
    "\<forall>k \<in> K. key_text k \<in> set V' - set (visit_key ot oid rel # V) \<longrightarrow> explored F user (set V') k"
    using enter by (simp_all add: subjects_of_def)
  from IH(3) have "explored F user (set V') (ot, oid, rel)" by (auto simp: explored_def subjects_of_def)
  moreover have "k = (ot, oid, rel)" if "k \<in> K" "key_text k = visit_key ot oid rel" for k
    using inj_onD [OF K(3), of k "(ot, oid, rel)"] that enter by simp
  ultimately have "explored F user (set V') k" if "k \<in> K" "key_text k \<in> set V' - set V" for k
    using IH(4) that by (cases "key_text k = visit_key ot oid rel") auto
  then have "\<forall>k \<in> K. key_text k \<in> set V' - set V \<longrightarrow> explored F user (set V') k" by blast
  then show ?case using IH(1,2) by (simp only: list.set insert_subset simp_thms)
next
  case (not_found t V d path V' ot oid rel ts ok path' V'')
  have t: "t \<in> subjects_of F (ot, oid, rel)" using not_found by simp
  then have tK: "subject_key t \<in> K" by (rule closed [rule_format, OF not_found.prems(2) _ not_found.hyps(1)])
  have "d \<le> card (set V)" "Suc d \<le> card (set V)" using not_found.prems(4) by simp_all
  with not_found.IH(2) tK not_found.prems(3)
  have IH1: "set V \<subseteq> set V'" "set V' \<subseteq> key_text ` K" "key_text (subject_key t) \<in> set V'"
    "\<forall>k \<in> K. key_text k \<in> set V' - set V \<longrightarrow> explored F user (set V') k"
    by simp_all
  have "card (set V) \<le> card (set V')" using IH1(1) by (intro card_mono) auto
  with not_found.prems have p: "Suc d \<le> card (set V')" "set ts \<subseteq> subjects_of F (ot, oid, rel)" by simp_all
  from not_found.IH(4) [OF not_found.prems(1,2) IH1(2) p]
  have IH2: "set V' \<subseteq> set V''" "set V'' \<subseteq> key_text ` K"
    "\<forall>t \<in> set ts. t \<noteq> user_subject user \<and> (su_relation t \<noteq> [] \<longrightarrow> key_text (subject_key t) \<in> set V'')"
    "\<forall>k \<in> K. key_text k \<in> set V'' - set V' \<longrightarrow> explored F user (set V'') k"
    by blast+
  have "explored F user (set V'') k" if "k \<in> K" "key_text k \<in> set V'' - set V" for k
    using IH1(4) IH2(1,4) that explored_mono by (cases "key_text k \<in> set V'") blast+
  then have "\<forall>k \<in> K. key_text k \<in> set V'' - set V \<longrightarrow> explored F user (set V'') k" by blast
  moreover have "t \<noteq> user_subject user" using not_found.hyps(1) by (auto simp: user_subject_def)
  moreover have "key_text (subject_key t) \<in> set V''" using IH1(3) IH2(1) by blast
  moreover have "set V \<subseteq> set V''" using IH1(1) IH2(1) by blast
  ultimately show ?case using IH2(2,3) by simp
qed (auto simp: user_subject_def)

lemma holds_not_explored:
  assumes "holds F user ot oid rel" and "\<forall>k \<in> K. key_text k \<in> S \<longrightarrow> explored F user S k"
    and "\<forall>k \<in> K. \<forall>t \<in> subjects_of F k. su_relation t \<noteq> [] \<longrightarrow> subject_key t \<in> K"
    and "(ot, oid, rel) \<in> K" and "visit_key ot oid rel \<in> S"
  shows False
  using assms(1,4,5)
proof (induction rule: holds.induct)
  case (direct ot oid rel)
  with assms(2) show ?case by (force simp: explored_def subjects_of_def)
next
  case (userset t ot oid rel)
  then have "explored F user S (ot, oid, rel)" and "t \<in> subjects_of F (ot, oid, rel)"
    using assms(2) by (force simp: subjects_of_def)+
  moreover from this have "subject_key t \<in> K" using userset assms(3) by blast
  ultimately show ?case using userset by (auto simp: explored_def)
qed

lemma walk_complete:
  assumes "walk F user ot oid rel [] 0 False path V'"
    and "finite (reachable F (ot, oid, rel))" and "card (reachable F (ot, oid, rel)) \<le> Suc max_depth"
    and "inj_on key_text (reachable F (ot, oid, rel))"
  shows "\<not> holds F user ot oid rel"
proof
  let ?K = "reachable F (ot, oid, rel)"
  assume h: "holds F user ot oid rel"
  have root: "(ot, oid, rel) \<in> ?K" by (rule reachable.root)
  have closed: "\<forall>k \<in> ?K. \<forall>t \<in> subjects_of F k. su_relation t \<noteq> [] \<longrightarrow> subject_key t \<in> ?K"
    by (blast intro: reachable.step)
  have nf: "\<not> False" by simp
  have "set ([] :: string list) \<subseteq> key_text ` ?K" "0 \<le> card (set ([] :: string list))" by simp_all
  from walk_negative(1) [where K = ?K, OF assms(2-4) closed assms(1) nf root this]
  have "visit_key ot oid rel \<in> set V'" and "\<forall>k \<in> ?K. key_text k \<in> set V' \<longrightarrow> explored F user (set V') k"
    by simp_all
  then show False using holds_not_explored [OF h _ closed root] by blast
qed

definition node_names :: "graph_node list \<Rightarrow> string set" where
  "node_names nodes = gn_id ` set nodes"

lemma node_names_add [simp]:
  "node_names (add_node t i nodes) = insert (graph_node_id t i) (node_names nodes)"
  by (auto simp: node_names_def add_node_def)

definition node_ids :: "expansion \<Rightarrow> string set" where
  "node_ids st = node_names (fst (snd st))"

lemma node_ids_simp [simp]: "node_ids (V, N, E) = node_names N"
  by (simp add: node_ids_def)

section \<open>Sources of tuples\<close>

locale tuple_source =
  fixes fetch :: "'w fetcher" and subjects :: "'w \<Rightarrow> tuple_view"
  assumes fetch_reads: "fetch ot oid rel e w = (r, e', w') \<Longrightarrow> w' = w"
    and fetch_answers: "fetch ot oid rel e w = (Inr ts, e', w') \<Longrightarrow> ts = subjects w ot oid rel"
begin

lemma fetch_cases:
  obtains x e' where "fetch ot oid rel e w = (Inl x, e', w)"
  | e' where "fetch ot oid rel e w = (Inr (subjects w ot oid rel), e', w)"
proof -
  obtain r e1 w1 where "fetch ot oid rel e w = (r, e1, w1)" by (metis prod_cases3)
  with that fetch_reads fetch_answers show thesis by (cases r) blast+
qed

lemma resolve_tuples_walk:
  assumes "\<And>t V e. t \<in> set ts \<Longrightarrow> su_relation t \<noteq> [] \<Longrightarrow>
      (\<exists>x e'. resolve fetch (su_type t) (su_id t) (su_relation t) user V (Suc d) e w = (Inl x, e', w)) \<or>
      (\<exists>ok path V' e'. resolve fetch (su_type t) (su_id t) (su_relation t) user V (Suc d) e w =
          (Inr (ok, path, V'), e', w) \<and>
        walk (subjects w) user (su_type t) (su_id t) (su_relation t) V (Suc d) ok path V')"
  shows "(\<exists>x e'. resolve_tuples fetch ot oid rel user V d ts e w = (Inl x, e', w)) \<or>
    (\<exists>ok path V' e'. resolve_tuples fetch ot oid rel user V d ts e w = (Inr (ok, path, V'), e', w) \<and>
       walk_tuples (subjects w) user ot oid rel V d ts ok path V')"
  using assms
proof (induction ts arbitrary: V e)
  case Nil
  then show ?case by (auto simp: ret_def intro: walk_intros)
next
  case (Cons t ts)
  have IH: "(\<exists>x e'. resolve_tuples fetch ot oid rel user V d ts e w = (Inl x, e', w)) \<or>
    (\<exists>ok path V' e'. resolve_tuples fetch ot oid rel user V d ts e w = (Inr (ok, path, V'), e', w) \<and>
       walk_tuples (subjects w) user ot oid rel V d ts ok path V')" for V e
    by (rule Cons.IH) (use Cons.prems in auto)
  show ?case
  proof (cases "su_relation t = []")
    case True
    show ?thesis
    proof (cases "t = user_subject user")
      case u: True
      then have "resolve_tuples fetch ot oid rel user V d (t # ts) e w = (Inr (True,
          [\<lparr>es_object = ot @ '':'' @ oid, es_relation = rel,
            es_subject = subject_string (su_type t) (su_id t) [], es_depth = d\<rparr>], V), e, w)"
        by (simp add: ret_def user_subject_def)
      with user [OF u] show ?thesis by blast
    next
      case no: False
      then have "resolve_tuples fetch ot oid rel user V d (t # ts) = resolve_tuples fetch ot oid rel user V d ts"
        using True by (auto simp: user_subject_iff)
      with IH [of V e] other [OF True no] show ?thesis by metis
    qed
  next
    case False
    from Cons.prems [OF list.set_intros(1) False, of V e] show ?thesis
    proof (elim disjE exE conjE)
      fix ok path V' e'
      assume r: "resolve fetch (su_type t) (su_id t) (su_relation t) user V (Suc d) e w = (Inr (ok, path, V'), e', w)"
        and wk: "walk (subjects w) user (su_type t) (su_id t) (su_relation t) V (Suc d) ok path V'"
      show ?thesis
      proof (cases ok)
        case True
        let ?p = "\<lparr>es_object = ot @ '':'' @ oid, es_relation = rel,
          es_subject = subject_string (su_type t) (su_id t) (su_relation t), es_depth = d\<rparr> # path"
        have "resolve_tuples fetch ot oid rel user V d (t # ts) e w = (Inr (True, ?p, V'), e', w)"
          using r True False by (simp add: bind_io_def ret_def)
        moreover have "walk_tuples (subjects w) user ot oid rel V d (t # ts) True ?p V'"
          by (rule found [OF False]) (use wk True in simp)
        ultimately show ?thesis by blast
      next
        case no: False
        then have "resolve_tuples fetch ot oid rel user V d (t # ts) e w =
            resolve_tuples fetch ot oid rel user V' d ts e' w"
          using r False by (simp add: bind_io_def)
        moreover have "walk (subjects w) user (su_type t) (su_id t) (su_relation t) V (Suc d) False path V'"
          using wk no by simp
        ultimately show ?thesis using IH [of V' e'] not_found [OF False] by metis
      qed
    qed (use False in \<open>auto simp: bind_io_def\<close>)
  qed
qed

lemma resolve_walk:
  "(\<exists>x e'. resolve fetch ot oid rel user V d e w = (Inl x, e', w)) \<or>
   (\<exists>ok path V' e'. resolve fetch ot oid rel user V d e w = (Inr (ok, path, V'), e', w) \<and>
      walk (subjects w) user ot oid rel V d ok path V')"
proof (induction "Suc max_depth - d" arbitrary: ot oid rel V d e)
  case 0
  then have d: "d > max_depth" by simp
  then have "resolve fetch ot oid rel user V d e w = (Inr (False, [], V), e, w)"
    by (subst resolve.simps) (simp add: ret_def)
  with cut [OF d] show ?case by blast
next
  case (Suc n)
  then have d: "d \<le> max_depth" by simp
  show ?case
  proof (cases "visit_key ot oid rel \<in> set V")
    case True
    then have "resolve fetch ot oid rel user V d e w = (Inr (False, [], V), e, w)"
      by (subst resolve.simps) (simp add: ret_def)
    with seen [OF True] show ?thesis by blast
  next
    case False
    show ?thesis
    proof (cases rule: fetch_cases [of ot oid rel e w])
      case (1 x e')
      with d False have "resolve fetch ot oid rel user V d e w = (Inl x, e', w)"
        by (subst resolve.simps) (simp add: bind_io_def)
      then show ?thesis by blast
    next
      case (2 e')
      have sub: "(\<exists>x e'. resolve fetch (su_type t) (su_id t) (su_relation t) user V (Suc d) e w = (Inl x, e', w)) \<or>
        (\<exists>ok path V' e'. resolve fetch (su_type t) (su_id t) (su_relation t) user V (Suc d) e w =
            (Inr (ok, path, V'), e', w) \<and>
          walk (subjects w) user (su_type t) (su_id t) (su_relation t) V (Suc d) ok path V')" for t V e
        using Suc(1) [of "Suc d"] Suc(2) by simp
      have "resolve fetch ot oid rel user V d e w = resolve_tuples fetch ot oid rel user
          (visit_key ot oid rel # V) d (subjects w ot oid rel) e' w"
        using 2 d False by (subst resolve.simps) (simp add: bind_io_def)
      with resolve_tuples_walk [where ts = "subjects w ot oid rel" and V = "visit_key ot oid rel # V" and e = e'
          and ot = ot and oid = oid and rel = rel, OF sub] enter [OF d False, where F = "subjects w"]
      show ?thesis by metis
    qed
  qed
qed

text \<open>
  What both steps of an expansion keep, over a set of (object, relation) pairs closed under
  usersets, an expansion keeps; and it does not change the store.
\<close>

lemma expand_tuples_keeps:
  assumes tup: "\<And>t V N E. t \<in> set ts \<Longrightarrow> I (V, N, E) \<Longrightarrow>
      I (V, add_node (su_type t) (su_id t) N, E @ [\<lparr>ge_from = graph_node_id ot oid,
        ge_to = graph_node_id (su_type t) (su_id t), ge_relation = edge_label rel t\<rparr>])"
    and sub: "\<And>t st r e e' w'. t \<in> set ts \<Longrightarrow> su_relation t \<noteq> [] \<Longrightarrow> I st \<Longrightarrow>
      expand fetch (su_type t) (su_id t) (su_relation t) (Suc d) st e w = (r, e', w') \<Longrightarrow>
      w' = w \<and> (\<forall>st'. r = Inr st' \<longrightarrow> I st')"
    and "I st" and "expand_tuples fetch ot oid rel d st ts e w = (r, e', w')"
  shows "w' = w \<and> (\<forall>st'. r = Inr st' \<longrightarrow> I st')"
  using assms
proof (induction ts arbitrary: st e)
  case Nil
  then show ?case by (cases st) (auto simp: ret_def)
next
  case (Cons t ts)
  obtain V N E where st: "st = (V, N, E)" by (cases st)
  let ?st = "(V, add_node (su_type t) (su_id t) N, E @ [\<lparr>ge_from = graph_node_id ot oid,
    ge_to = graph_node_id (su_type t) (su_id t), ge_relation = edge_label rel t\<rparr>])"
  have I1: "I ?st" using Cons.prems(1,3) st by simp
  have IH: "w' = w \<and> (\<forall>st'. r = Inr st' \<longrightarrow> I st')"
    if i: "I st2" and x: "expand_tuples fetch ot oid rel d st2 ts e2 w = (r, e', w')" for st2 e2
  proof (rule Cons.IH [OF _ _ i x])
    fix u V N E assume "u \<in> set ts" "I (V, N, E)"
    then show "I (V, add_node (su_type u) (su_id u) N, E @ [\<lparr>ge_from = graph_node_id ot oid,
        ge_to = graph_node_id (su_type u) (su_id u), ge_relation = edge_label rel u\<rparr>])"
      by (intro Cons.prems(1)) simp_all
  next
    fix u s2 r2 e3 e4 w2
    assume u: "u \<in> set ts" "su_relation u \<noteq> []" "I s2"
      "expand fetch (su_type u) (su_id u) (su_relation u) (Suc d) s2 e3 w = (r2, e4, w2)"
    show "w2 = w \<and> (\<forall>st'. r2 = Inr st' \<longrightarrow> I st')" by (rule Cons.prems(2) [OF _ u(2-4)]) (simp add: u(1))
  qed
  show ?case
  proof (cases "su_relation t = []")
    case True
    with Cons.prems(4) st have "expand_tuples fetch ot oid rel d ?st ts e w = (r, e', w')" by simp
    with IH I1 show ?thesis by blast
  next
    case False
    obtain r1 e1 w1 where x: "expand fetch (su_type t) (su_id t) (su_relation t) (Suc d) ?st e w = (r1, e1, w1)"
      by (metis prod_cases3)
    from Cons.prems(2) [OF list.set_intros(1) False I1 x]
    have w1: "w1 = w" and I2: "\<And>st'. r1 = Inr st' \<Longrightarrow> I st'" by auto
    show ?thesis
    proof (cases r1)
      case (Inl y)
      with x w1 False st Cons.prems(4) show ?thesis by (auto simp: bind_io_def)
    next
      case (Inr st2)
      with x w1 False st Cons.prems(4) have "expand_tuples fetch ot oid rel d st2 ts e1 w = (r, e', w')"
        by (simp add: bind_io_def)
      with IH I2 [OF Inr] show ?thesis by blast
    qed
  qed
qed

lemma expand_keeps:
  assumes enter: "\<And>k V N E. k \<in> R \<Longrightarrow> I (V, N, E) \<Longrightarrow> I (key_text k # V, add_node (fst k) (fst (snd k)) N, E)"
    and tup: "\<And>k t V N E. k \<in> R \<Longrightarrow> t \<in> subjects_of (subjects w) k \<Longrightarrow> I (V, N, E) \<Longrightarrow>
      graph_node_id (fst k) (fst (snd k)) \<in> node_names N \<Longrightarrow>
      I (V, add_node (su_type t) (su_id t) N, E @ [\<lparr>ge_from = graph_node_id (fst k) (fst (snd k)),
        ge_to = graph_node_id (su_type t) (su_id t), ge_relation = edge_label (snd (snd k)) t\<rparr>])"
    and closed: "\<forall>k \<in> R. \<forall>t \<in> subjects_of (subjects w) k. su_relation t \<noteq> [] \<longrightarrow> subject_key t \<in> R"
  shows "(ot, oid, rel) \<in> R \<Longrightarrow> I st \<Longrightarrow> K \<subseteq> node_ids st \<Longrightarrow>
     expand fetch ot oid rel d st e w = (r, e', w') \<Longrightarrow>
     w' = w \<and> (\<forall>st'. r = Inr st' \<longrightarrow> I st' \<and> K \<subseteq> node_ids st')"
proof (induction "Suc max_expand_depth - d" arbitrary: ot oid rel d st K e r e' w')
  case 0
  then have "d > max_expand_depth" by simp
  with 0 have "r = Inr st \<and> w' = w" by (cases st) (auto simp: expand.simps ret_def)
  with 0 show ?case by simp
next
  case (Suc n)
  obtain V N E where st: "st = (V, N, E)" by (cases st)
  have d: "d \<le> max_expand_depth" using Suc.hyps(2) by simp
  show ?case
  proof (cases "visit_key ot oid rel \<in> set V")
    case True
    with Suc.prems(4) st d have "r = Inr st \<and> w' = w" by (simp add: expand.simps ret_def)
    with Suc.prems show ?thesis by simp
  next
    case False
    let ?st = "(visit_key ot oid rel # V, add_node ot oid N, E)"
    let ?K = "insert (graph_node_id ot oid) K"
    let ?I = "\<lambda>st. I st \<and> ?K \<subseteq> node_ids st"
    have I1: "?I ?st" using enter [OF Suc.prems(1)] Suc.prems(2,3) st by auto
    show ?thesis
    proof (cases rule: fetch_cases [of ot oid rel e w])
      case (1 x e1)
      with Suc.prems(4) st d False show ?thesis by (auto simp: expand.simps bind_io_def)
    next
      case (2 e1)
      have run: "expand_tuples fetch ot oid rel d ?st (subjects w ot oid rel) e1 w = (r, e', w')"
        using 2 Suc.prems(4) st d False by (simp add: expand.simps bind_io_def)
      have "w' = w \<and> (\<forall>st'. r = Inr st' \<longrightarrow> ?I st')"
      proof (rule expand_tuples_keeps [where I = ?I, OF _ _ I1 run])
        fix t V N E assume "t \<in> set (subjects w ot oid rel)" and "?I (V, N, E)"
        then show "?I (V, add_node (su_type t) (su_id t) N, E @ [\<lparr>ge_from = graph_node_id ot oid,
            ge_to = graph_node_id (su_type t) (su_id t), ge_relation = edge_label rel t\<rparr>])"
          using tup [OF Suc.prems(1)] by (auto simp: subjects_of_def)
      next
        fix t st2 r2 e2 e3 w3
        assume t: "t \<in> set (subjects w ot oid rel)" "su_relation t \<noteq> []" and I2: "?I st2"
          and x: "expand fetch (su_type t) (su_id t) (su_relation t) (Suc d) st2 e2 w = (r2, e3, w3)"
        have "subject_key t \<in> R" using closed Suc.prems(1) t by (force simp: subjects_of_def)
        moreover have "n = Suc max_expand_depth - Suc d" using Suc.hyps(2) by simp
        ultimately show "w3 = w \<and> (\<forall>st'. r2 = Inr st' \<longrightarrow> ?I st')"
          using Suc.hyps(1) [OF _ _ _ _ x, of ?K] I2 by simp
      qed
      then show ?thesis by simp
    qed
  qed
qed

lemma resolve_ok:
  assumes "resolve fetch ot oid rel user V d e w = (Inr (ok, path, V'), e', w')"
  shows "w' = w" and "walk (subjects w) user ot oid rel V d ok path V'"
  using resolve_walk [of ot oid rel user V d e w] assms by auto

end

interpretation db_source: tuple_source "tuple_fetcher scan tenant"
  "\<lambda>w ot oid rel. fetch_subjects scan tenant ot oid rel (rel_rows w)"
proof
  fix ot oid rel e and w w' :: "'a rebac_db_scheme" and r e' ts
  show "tuple_fetcher scan tenant ot oid rel e w = (r, e', w') \<Longrightarrow> w' = w"
    unfolding tuple_fetcher_def by (rule readsD [OF reads_intros(5)])
  show "tuple_fetcher scan tenant ot oid rel e w = (Inr ts, e', w') \<Longrightarrow>
      ts = fetch_subjects scan tenant ot oid rel (rel_rows w)"
    by (simp add: tuple_fetcher_def io_ok)
qed

end
