(* ===== verification/RebacProps.thy ===== *)
theory RebacProps imports RebacCheck begin

text \<open>
  The table of relation tuples and the properties of the service: what the written references parse
  to, the invariant of the table, that a check decides the relation the tuples define within the
  bounds of the traversal and what happens outside them, tenant isolation of the handlers, and the
  graph expansion.
\<close>

section \<open>References\<close>

lemma parse_object_Some:
  assumes "parse_object raw = Some ob"
  shows "trim_space raw = or_type ob @ CHR '':'' # or_id ob" and "CHR '':'' \<notin> set (or_type ob)"
    and "or_type ob \<noteq> []" and "or_id ob \<noteq> []"
proof -
  let ?s = "trim_space raw"
  obtain i where i: "index_byte ?s (CHR '':'') = Some i" "i \<noteq> 0" "Suc i \<noteq> length ?s"
    "ob = \<lparr>or_type = take i ?s, or_id = drop (Suc i) ?s\<rparr>"
    using assms by (auto simp: parse_object_def Let_def split: option.splits if_splits)
  note sp = index_byte_Some_split [OF i(1)]
  show "?s = or_type ob @ CHR '':'' # or_id ob" using sp(1) i(4) by simp
  show "CHR '':'' \<notin> set (or_type ob)" using sp(2) i(4) by simp
  show "or_type ob \<noteq> []" using i sp(3) by auto
  show "or_id ob \<noteq> []" using i sp(3) by auto
qed

lemma parse_object_text:
  assumes "trim_space s = s" and "s = t @ CHR '':'' # i" and "CHR '':'' \<notin> set t" and "t \<noteq> []" and "i \<noteq> []"
  shows "parse_object s = Some \<lparr>or_type = t, or_id = i\<rparr>"
  using assms by (simp add: parse_object_def Let_def)

lemma parse_subject_Some:
  assumes "parse_subject raw = Some su"
  shows "CHR '':'' \<notin> set (sr_type su)" and "sr_type su \<noteq> []" and "sr_id su \<noteq> []"
    and "CHR ''#'' \<notin> set (sr_relation su)"
  using assms
  by (auto simp: parse_subject_def Let_def dest: parse_object_Some last_index_byte_Some_split
      split: option.splits if_splits)

lemma visit_key_inj:
  assumes "CHR '':'' \<notin> set t" and "CHR '':'' \<notin> set t'" and "CHR ''#'' \<notin> set r" and "CHR ''#'' \<notin> set r'"
    and "visit_key t i r = visit_key t' i' r'"
  shows "t = t' \<and> i = i' \<and> r = r'"
proof -
  have e: "t @ CHR '':'' # i @ CHR ''#'' # r = t' @ CHR '':'' # i' @ CHR ''#'' # r'"
    using assms(5) by (simp add: visit_key_def)
  from first_split_unique [OF e assms(1,2)] have t: "t = t'"
    and f: "i @ CHR ''#'' # r = i' @ CHR ''#'' # r'" by simp_all
  from last_split_unique [OF f assms(3,4)] t show ?thesis by simp
qed

section \<open>Trimming\<close>

text \<open>A byte that occurs in no space character keeps trimming from crossing it.\<close>

lemma prefix_append_stop:
  assumes "prefix r (x @ c # y)" and "c \<notin> set r"
  shows "prefix r x"
  using assms by (auto simp: prefix_append prefix_Cons)

lemma strip_left_stop:
  assumes "\<And>r. r \<in> set rs \<Longrightarrow> c \<notin> set r"
  shows "strip_left rs (x @ c # y) = strip_left rs x @ c # y"
  using assms
proof (induction rs x rule: strip_left.induct)
  case (1 rs x)
  have "prefix r (x @ c # y) \<longleftrightarrow> prefix r x" if "r \<in> set rs" for r
    using prefix_append_stop [of r x c y] 1(2) [OF that] by (auto simp: prefix_def)
  then have eq: "List.find (\<lambda>r. r \<noteq> [] \<and> prefix r (x @ c # y)) rs = List.find (\<lambda>r. r \<noteq> [] \<and> prefix r x) rs"
    by (intro find_cong) auto
  show ?case
  proof (cases "List.find (\<lambda>r. r \<noteq> [] \<and> prefix r x) rs")
    case None
    with eq show ?thesis by (subst (1 2) strip_left.simps) simp
  next
    case (Some r)
    then have "prefix r x" by (auto simp: find_Some_iff)
    then have "drop (length r) (x @ c # y) = drop (length r) x @ c # y" by (auto simp: prefix_def)
    with Some eq 1(1) [OF Some] 1(2) show ?thesis by (subst (1 2) strip_left.simps) simp
  qed
qed

lemma set_strip_left: "set (strip_left rs s) \<subseteq> set s"
proof (induction rs s rule: strip_left.induct)
  case (1 rs s)
  then show ?case
    by (subst strip_left.simps) (force split: option.splits dest: in_set_dropD)
qed

lemma strip_left_idem [simp]: "strip_left rs (strip_left rs s) = strip_left rs s"
  by (rule strip_left_id) (auto simp: strip_left_stops)

definition spaceless :: "char \<Rightarrow> bool" where
  "spaceless c \<longleftrightarrow> (\<forall>r \<in> set space_runes. c \<notin> set r)"

lemma spaceless_seps [simp]: "spaceless (CHR '':'')" "spaceless (CHR ''#'')"
  by (simp_all add: spaceless_def space_runes_def)

abbreviation trim_left :: "string \<Rightarrow> string" where
  "trim_left \<equiv> strip_left space_runes"

definition trim_right :: "string \<Rightarrow> string" where
  "trim_right s = rev (strip_left (map rev space_runes) (rev s))"

lemma trim_right_idem [simp]: "trim_right (trim_right s) = trim_right s"
  by (simp add: trim_right_def)

lemma set_trim_right: "set (trim_right s) \<subseteq> set s"
  using set_strip_left [of "map rev space_runes" "rev s"] by (simp add: trim_right_def)

lemma trim_left_stop: "spaceless c \<Longrightarrow> trim_left (x @ c # y) = trim_left x @ c # y"
  by (rule strip_left_stop) (simp add: spaceless_def)

lemma trim_space_stop: "spaceless c \<Longrightarrow> trim_space (x @ c # y) = trim_left x @ c # trim_right y"
proof -
  assume c: "spaceless c"
  have "strip_left (map rev space_runes) (rev y @ c # rev (trim_left x)) =
      strip_left (map rev space_runes) (rev y) @ c # rev (trim_left x)"
    using c by (intro strip_left_stop) (auto simp: spaceless_def)
  then show ?thesis by (simp add: trim_space_def trim_left_stop [OF c] trim_right_def)
qed

lemma set_trim_space: "set (trim_space s) \<subseteq> set s"
  using set_strip_left [of "map rev space_runes" "rev (trim_left s)"] set_strip_left [of space_runes s]
  by (auto simp: trim_space_def)

lemma trim_space_split:
  assumes "spaceless c" and "trim_space s = x @ c # y" and "c \<notin> set y"
  shows "trim_left x = x \<and> trim_right y = y"
proof -
  have "c \<in> set s" using assms(2) set_trim_space [of s] by auto
  then obtain a b where s: "s = a @ c # b" "c \<notin> set b" by (metis split_list_last)
  then have "trim_left a @ c # trim_right b = x @ c # y" using assms by (simp add: trim_space_stop)
  moreover have "c \<notin> set (trim_right b)" using s(2) set_trim_right [of b] by auto
  ultimately have "x = trim_left a \<and> y = trim_right b"
    using assms(3) last_split_unique [of "trim_left a" c] by metis
  then show ?thesis by simp
qed

lemma trim_space_split_first:
  assumes "spaceless c" and "trim_space s = x @ c # y" and "c \<notin> set x"
  shows "trim_left x = x \<and> trim_right y = y"
proof -
  have "c \<in> set s" using assms(2) set_trim_space [of s] by auto
  then obtain a b where s: "s = a @ c # b" "c \<notin> set a" by (metis split_list_first)
  then have "trim_left a @ c # trim_right b = x @ c # y" using assms by (simp add: trim_space_stop)
  moreover have "c \<notin> set (trim_left a)" using s(2) set_strip_left [of space_runes a] by auto
  ultimately have "x = trim_left a \<and> y = trim_right b"
    using assms(3) first_split_unique [of "trim_left a" c] by metis
  then show ?thesis by simp
qed

lemma trim_left_first: "spaceless c \<Longrightarrow> trim_left x = x \<Longrightarrow> trim_right y = y \<Longrightarrow> trim_space (x @ c # y) = x @ c # y"
  by (simp add: trim_space_stop)

lemma parse_subject_cases:
  assumes "parse_subject raw = Some su"
  obtains "sr_relation su = []" and "CHR ''#'' \<notin> set (trim_space raw)"
      and "parse_object (trim_space raw) = Some \<lparr>or_type = sr_type su, or_id = sr_id su\<rparr>"
  | a where "sr_relation su \<noteq> []" and "trim_space raw = a @ CHR ''#'' # sr_relation su"
      and "CHR ''#'' \<notin> set (sr_relation su)"
      and "parse_object a = Some \<lparr>or_type = sr_type su, or_id = sr_id su\<rparr>"
proof (cases "last_index_byte (trim_space raw) (CHR ''#'')")
  case None
  then show thesis using assms that(1) by (auto simp: parse_subject_def Let_def)
next
  case (Some h)
  note sp = last_index_byte_Some_split [OF Some]
  from Some assms have "drop (Suc h) (trim_space raw) \<noteq> []" "sr_relation su = drop (Suc h) (trim_space raw)"
    "parse_object (take h (trim_space raw)) = Some \<lparr>or_type = sr_type su, or_id = sr_id su\<rparr>"
    by (auto simp: parse_subject_def Let_def split: if_splits)
  with sp that(2) show thesis by metis
qed

lemma parse_object_parts:
  assumes "parse_object raw = Some ob"
  shows "trim_left (or_type ob) = or_type ob \<and> trim_right (or_id ob) = or_id ob"
  using trim_space_split_first [OF spaceless_seps(1) parse_object_Some(1) [OF assms] parse_object_Some(2) [OF assms]] .

lemma subject_roundtrip:
  assumes "parse_subject raw = Some su"
  shows "parse_subject (subject_string (sr_type su) (sr_id su) (sr_relation su)) = Some su"
  using assms
proof (cases rule: parse_subject_cases)
  case 1
  let ?ob = "\<lparr>or_type = sr_type su, or_id = sr_id su\<rparr>"
  note ob = parse_object_Some [OF 1(3), simplified] parse_object_parts [OF 1(3), simplified]
  let ?s = "sr_type su @ CHR '':'' # sr_id su"
  have t: "trim_space ?s = ?s" by (rule trim_left_first) (use ob in auto)
  moreover have "CHR ''#'' \<notin> set ?s"
    using ob(1) 1(2) set_trim_space [of "trim_space raw"] by (metis subset_code(1))
  moreover have "parse_object ?s = Some ?ob" by (rule parse_object_text) (use t ob in auto)
  ultimately show ?thesis using 1(1) by (simp add: subject_string_def parse_subject_def Let_def)
next
  case (2 a)
  let ?ob = "\<lparr>or_type = sr_type su, or_id = sr_id su\<rparr>"
  note ob = parse_object_Some [OF 2(4), simplified] parse_object_parts [OF 2(4), simplified]
  let ?o = "sr_type su @ CHR '':'' # sr_id su"
  let ?s = "?o @ CHR ''#'' # sr_relation su"
  have t: "trim_space ?o = ?o" by (rule trim_left_first) (use ob in auto)
  have "trim_left ?o = ?o" using ob by (simp add: trim_left_stop)
  moreover have "trim_right (sr_relation su) = sr_relation su"
    using trim_space_split [OF spaceless_seps(2) 2(2,3)] by simp
  ultimately have "trim_space ?s = ?s" by (rule trim_left_first [OF spaceless_seps(2)])
  moreover have "last_index_byte ?s (CHR ''#'') = Some (length ?o)"
    by (rule last_index_byte_append [OF 2(3)])
  moreover have "parse_object ?o = Some ?ob" by (rule parse_object_text) (use t ob in auto)
  ultimately show ?thesis using 2(1) by (simp add: subject_string_def parse_subject_def Let_def)
qed

section \<open>The table\<close>

definition tuple_content :: "rel_row \<Rightarrow> rel_row" where
  "tuple_content r = r\<lparr>rt_id := 0\<rparr>"

lemma same_tuple_content: "same_tuple r q \<longleftrightarrow> tuple_content r = tuple_content q"
  by (cases r; cases q) (auto simp: same_tuple_def tuple_content_def)

lemma tuple_content_fields:
  "tuple_content r = tuple_content q \<longleftrightarrow> rt_tenant r = rt_tenant q \<and> rt_otype r = rt_otype q \<and>
     rt_oid r = rt_oid q \<and> rt_relation r = rt_relation q \<and> rt_stype r = rt_stype q \<and>
     rt_sid r = rt_sid q \<and> rt_srelation r = rt_srelation q"
  by (cases r; cases q) (auto simp: tuple_content_def)

definition tuple_ok :: "rel_row \<Rightarrow> bool" where
  "tuple_ok r \<longleftrightarrow> CHR '':'' \<notin> set (rt_otype r) \<and> rt_otype r \<noteq> [] \<and> rt_oid r \<noteq> [] \<and>
     trim_space (rt_relation r) \<noteq> [] \<and> CHR '':'' \<notin> set (rt_stype r) \<and> rt_stype r \<noteq> [] \<and>
     rt_sid r \<noteq> [] \<and> CHR ''#'' \<notin> set (rt_srelation r)"

definition tuples_ok :: "rel_row list \<Rightarrow> bool" where
  "tuples_ok rows \<longleftrightarrow> distinct (map rt_id rows) \<and> distinct (map tuple_content rows) \<and>
     (\<forall>r \<in> set rows. tuple_ok r)"

lemma insert_tuple_cases:
  assumes "insert_tuple r rows = Inr (i, rows')"
  obtains q where "q \<in> set rows" and "tuple_content q = tuple_content r" and "i = rt_id q" and "rows' = rows"
  | "tuple_content r \<notin> tuple_content ` set rows" and "rt_id r \<notin> rt_id ` set rows"
      and "i = rt_id r" and "rows' = rows @ [r]"
proof (cases "List.find (same_tuple r) rows")
  case None
  then have "tuple_content r \<notin> tuple_content ` set rows"
    by (auto simp: find_None_iff same_tuple_content)
  then show thesis using None assms that(2) by (auto simp: insert_tuple_def split: if_splits)
next
  case (Some q)
  then have "q \<in> set rows" "tuple_content r = tuple_content q"
    by (auto simp: find_Some_iff same_tuple_content)
  moreover have "i = rt_id q" "rows' = rows" using Some assms by (simp_all add: insert_tuple_def)
  ultimately show thesis by (intro that(1) [of q]) simp_all
qed

lemma rel_rows_self [simp]: "\<exists>rows. w = w\<lparr>rel_rows := rows\<rparr>"
  by (rule exI [of _ "rel_rows w"]) simp

text \<open>A successful write: the row it stores or finds.\<close>

lemma write_tuple_ok:
  assumes "write_tuple tenant object relation subject e w = (Inr t, e', w')"
  obtains ob su i rows where "parse_object object = Some ob" and "parse_subject subject = Some su"
    and "trim_space relation \<noteq> []"
    and "insert_tuple \<lparr>rt_id = e_uuid e (e_uuids e), rt_tenant = tenant, rt_otype = or_type ob, rt_oid = or_id ob,
      rt_relation = relation, rt_stype = sr_type su, rt_sid = sr_id su, rt_srelation = sr_relation su\<rparr>
      (rel_rows w) = Inr (i, rows)"
    and "w' = w\<lparr>rel_rows := rows\<rparr>"
    and "t = \<lparr>tp_id = i, tp_object = object, tp_relation = relation,
      tp_subject = subject_string (sr_type su) (sr_id su) (sr_relation su)\<rparr>"
proof -
  obtain ob where ob: "parse_object object = Some ob"
    using assms by (cases "parse_object object") (simp_all add: write_tuple_def fail_ok)
  obtain su where su: "parse_subject subject = Some su"
    using assms ob by (cases "parse_subject subject") (simp_all add: write_tuple_def fail_ok)
  have ne: "trim_space relation \<noteq> []"
    using assms ob su by (cases "trim_space relation = []") (simp_all add: write_tuple_def fail_ok)
  let ?r = "\<lparr>rt_id = e_uuid e (e_uuids e), rt_tenant = tenant, rt_otype = or_type ob, rt_oid = or_id ob,
      rt_relation = relation, rt_stype = sr_type su, rt_sid = sr_id su, rt_srelation = sr_relation su\<rparr>"
  show thesis
  proof (cases "insert_tuple ?r (rel_rows w)")
    case (Inl x)
    with assms ne ob su show ?thesis by (simp add: write_tuple_def io_ok)
  next
    case (Inr a)
    obtain i rows where "a = (i, rows)" by (cases a)
    with Inr assms ne ob su have "w\<lparr>rel_rows := rows\<rparr> = w'" "t = \<lparr>tp_id = i, tp_object = object,
        tp_relation = relation, tp_subject = subject_string (sr_type su) (sr_id su) (sr_relation su)\<rparr>"
      by (simp_all add: write_tuple_def io_ok)
    with Inr \<open>a = (i, rows)\<close> show ?thesis by (intro that [OF ob su ne, of i rows]) simp_all
  qed
qed

lemma delete_tuple_ok:
  assumes "delete_tuple i tenant e w = (r, e', w')"
  shows "w' = w \<or> w' = w\<lparr>rel_rows := filter (\<lambda>r. \<not> (rt_id r = i \<and> rt_tenant r = tenant)) (rel_rows w)\<rparr>"
  using assms
  by (auto simp: delete_tuple_def bind_io_def db_call_def Let_def guard_def ret_def fail_def
      split: if_splits)

lemma atomic_write_tuple [simp]: "atomic (write_tuple tenant object relation subject)"
  unfolding write_tuple_def
  by (auto split: option.splits intro!: atomic_bind_reads [OF reads_intros(7)])

text \<open>What a write or a delete of one tenant leaves of the table.\<close>

lemma write_tuple_keeps:
  assumes "write_tuple tenant object relation subject e w = (res, e', w')" and "tuples_ok (rel_rows w)"
  shows "tuples_ok (rel_rows w') \<and> (\<exists>rows. w' = w\<lparr>rel_rows := rows\<rparr>) \<and>
     filter (\<lambda>r. rt_tenant r \<noteq> tenant) (rel_rows w') = filter (\<lambda>r. rt_tenant r \<noteq> tenant) (rel_rows w)"
proof (cases res)
  case (Inl x)
  with assms(1) have "w' = w" using atomicD [OF atomic_write_tuple] by blast
  with assms(2) show ?thesis by (auto intro: exI [of _ "rel_rows w"])
next
  case (Inr t)
  from write_tuple_ok [OF assms(1) [unfolded Inr]] obtain ob su i rows where
    ob: "parse_object object = Some ob" and su: "parse_subject subject = Some su"
    and rel: "trim_space relation \<noteq> []"
    and ins: "insert_tuple \<lparr>rt_id = e_uuid e (e_uuids e), rt_tenant = tenant, rt_otype = or_type ob,
      rt_oid = or_id ob, rt_relation = relation, rt_stype = sr_type su, rt_sid = sr_id su,
      rt_srelation = sr_relation su\<rparr> (rel_rows w) = Inr (i, rows)" (is "insert_tuple ?r _ = _")
    and w': "w' = w\<lparr>rel_rows := rows\<rparr>" .
  have "tuple_ok ?r"
    using parse_object_Some [OF ob] parse_subject_Some [OF su] rel by (simp add: tuple_ok_def)
  from insert_tuple_cases [OF ins] show ?thesis
    using assms(2) \<open>tuple_ok ?r\<close> w' by cases (auto simp: tuples_ok_def)
qed

lemma delete_tuple_keeps:
  assumes "delete_tuple i tenant e w = (res, e', w')" and "tuples_ok (rel_rows w)"
  shows "tuples_ok (rel_rows w') \<and> (\<exists>rows. w' = w\<lparr>rel_rows := rows\<rparr>) \<and>
     filter (\<lambda>r. rt_tenant r \<noteq> tenant) (rel_rows w') = filter (\<lambda>r. rt_tenant r \<noteq> tenant) (rel_rows w)"
  using delete_tuple_ok [OF assms(1)]
proof
  assume "w' = w"
  with assms(2) show ?thesis by (auto intro: exI [of _ "rel_rows w"])
next
  assume w': "w' = w\<lparr>rel_rows := filter (\<lambda>r. \<not> (rt_id r = i \<and> rt_tenant r = tenant)) (rel_rows w)\<rparr>"
  have "filter (\<lambda>r. rt_tenant r \<noteq> tenant \<and> (rt_id r = i \<longrightarrow> rt_tenant r \<noteq> tenant)) (rel_rows w) =
      filter (\<lambda>r. rt_tenant r \<noteq> tenant) (rel_rows w)"
    by (rule filter_cong) auto
  with assms(2) w' show ?thesis by (auto simp: tuples_ok_def distinct_map_filter conj_commute)
qed

section \<open>What a tenant's tuples say\<close>

definition tenant_view :: "uuid \<Rightarrow> 'z rebac_db_scheme \<Rightarrow> tuple_view" where
  "tenant_view tenant w ot oid rel = fetch_subjects (\<lambda>rows. rows) tenant ot oid rel (rel_rows w)"

text \<open>The order in which the table is scanned does not matter to the meaning.\<close>

definition same_view :: "tuple_view \<Rightarrow> tuple_view \<Rightarrow> bool" where
  "same_view F G \<longleftrightarrow> (\<forall>ot oid rel. set (F ot oid rel) = set (G ot oid rel))"

lemma same_view_sym: "same_view F G \<Longrightarrow> same_view G F"
  by (simp add: same_view_def)

lemma same_view_scan:
  "(\<And>rows. set (scan rows) = set rows) \<Longrightarrow>
   same_view (\<lambda>ot oid rel. fetch_subjects scan tenant ot oid rel (rel_rows w)) (tenant_view tenant w)"
  by (auto simp: same_view_def tenant_view_def fetch_subjects_def)

lemma holds_same: "same_view F G \<Longrightarrow> holds F user ot oid rel \<Longrightarrow> holds G user ot oid rel"
  by (rotate_tac, induction rule: holds.induct)
     (auto simp: same_view_def intro: holds.intros)

lemma grant_path_same: "same_view F G \<Longrightarrow> grant_path F user ot oid rel d path = grant_path G user ot oid rel d path"
  by (induction F user ot oid rel d path rule: grant_path.induct) (auto simp: same_view_def)

lemma subjects_of_same: "same_view F G \<Longrightarrow> subjects_of F k = subjects_of G k"
  by (auto simp: same_view_def subjects_of_def)

lemma reachable_subset: "same_view F G \<Longrightarrow> k \<in> reachable F root \<Longrightarrow> k \<in> reachable G root"
  by (rotate_tac, induction rule: reachable.induct)
     (auto simp: subjects_of_same intro: reachable.intros)

lemma reachable_same: "same_view F G \<Longrightarrow> reachable F root = reachable G root"
  using reachable_subset same_view_sym by blast

lemma finite_reachable: "finite (reachable (tenant_view tenant w) root)"
proof (rule finite_subset)
  show "reachable (tenant_view tenant w) root \<subseteq>
      insert root ((\<lambda>r. (rt_stype r, rt_sid r, rt_srelation r)) ` set (rel_rows w))"
  proof
    fix k assume "k \<in> reachable (tenant_view tenant w) root"
    then show "k \<in> insert root ((\<lambda>r. (rt_stype r, rt_sid r, rt_srelation r)) ` set (rel_rows w))"
      by (cases rule: reachable.cases) (auto simp: subjects_of_def tenant_view_def fetch_subjects_def)
  qed
qed simp

lemma reachable_keys_ok:
  assumes "tuples_ok (rel_rows w)" and "k \<in> reachable (tenant_view tenant w) (ot, oid, rel)"
    and "CHR '':'' \<notin> set ot" and "CHR ''#'' \<notin> set rel"
  shows "CHR '':'' \<notin> set (fst k) \<and> CHR ''#'' \<notin> set (snd (snd k))"
  using assms(2)
  by (cases rule: reachable.cases)
     (use assms in \<open>auto simp: subjects_of_def tenant_view_def fetch_subjects_def tuples_ok_def tuple_ok_def\<close>)

lemma inj_reachable:
  assumes "tuples_ok (rel_rows w)" and "CHR '':'' \<notin> set ot" and "CHR ''#'' \<notin> set rel"
  shows "inj_on key_text (reachable (tenant_view tenant w) (ot, oid, rel))"
proof (rule inj_onI)
  fix k k'
  assume k: "k \<in> reachable (tenant_view tenant w) (ot, oid, rel)"
    "k' \<in> reachable (tenant_view tenant w) (ot, oid, rel)" "key_text k = key_text k'"
  from visit_key_inj [OF _ _ _ _ k(3)] reachable_keys_ok [OF assms(1) k(1) assms(2,3)]
    reachable_keys_ok [OF assms(1) k(2) assms(2,3)]
  show "k = k'" by (simp add: prod_eq_iff)
qed

lemma live_resolve:
  "(\<And>ot oid rel. live (fetch ot oid rel)) \<Longrightarrow> live (resolve fetch ot oid rel user V d)"
  "(\<And>ot oid rel. live (fetch ot oid rel)) \<Longrightarrow> live (resolve_tuples fetch ot oid rel user V d ts)"
  by (induction fetch ot oid rel user V d and fetch ot oid rel user V d ts rule: resolve_resolve_tuples.induct)
     (auto simp: resolve.simps split: prod.splits)

lemma live_db_fetch [simp]: "live (tuple_fetcher scan tenant ot oid rel)"
  unfolding tuple_fetcher_def by (rule live_intros(2))

section \<open>Graphs\<close>

definition edge_of :: "rel_key \<Rightarrow> rel_subject \<Rightarrow> graph_edge" where
  "edge_of k t = \<lparr>ge_from = graph_node_id (fst k) (fst (snd k)),
     ge_to = graph_node_id (su_type t) (su_id t), ge_relation = edge_label (snd (snd k)) t\<rparr>"

text \<open>
  Nodes are named after their type and label, once each; edges run between nodes, and each is a tuple
  of a pair that is reachable from the root.
\<close>

definition nodes_wf :: "graph_node list \<Rightarrow> bool" where
  "nodes_wf nodes \<longleftrightarrow> distinct (map gn_id nodes) \<and>
     (\<forall>n \<in> set nodes. gn_id n = graph_node_id (gn_type n) (gn_label n))"

definition edges_sound :: "tuple_view \<Rightarrow> rel_key \<Rightarrow> graph_edge list \<Rightarrow> bool" where
  "edges_sound F root edges \<longleftrightarrow>
     (\<forall>x \<in> set edges. \<exists>k \<in> reachable F root. \<exists>t \<in> subjects_of F k. x = edge_of k t)"

definition edges_between :: "string set \<Rightarrow> graph_edge list \<Rightarrow> bool" where
  "edges_between names edges \<longleftrightarrow> (\<forall>x \<in> set edges. ge_from x \<in> names \<and> ge_to x \<in> names)"

definition expansion_ok :: "tuple_view \<Rightarrow> rel_key \<Rightarrow> expansion \<Rightarrow> bool" where
  "expansion_ok F root st \<longleftrightarrow> nodes_wf (fst (snd st)) \<and> edges_sound F root (snd (snd st)) \<and>
     edges_between (node_ids st) (snd (snd st))"

lemma nodes_wf_add: "nodes_wf nodes \<Longrightarrow> nodes_wf (add_node t i nodes)"
  by (auto simp: nodes_wf_def add_node_def)

lemma edges_between_mono: "edges_between A edges \<Longrightarrow> A \<subseteq> B \<Longrightarrow> edges_between B edges"
  by (auto simp: edges_between_def)

lemma expansion_ok_enter:
  "expansion_ok F root (V, nodes, edges) \<Longrightarrow> expansion_ok F root (v # V, add_node t i nodes, edges)"
  by (auto simp: expansion_ok_def nodes_wf_add intro: edges_between_mono)

lemma expansion_ok_edge:
  assumes "k \<in> reachable F root" and "t \<in> subjects_of F k" and "expansion_ok F root (V, nodes, edges)"
    and "graph_node_id (fst k) (fst (snd k)) \<in> node_names nodes"
  shows "expansion_ok F root (V, add_node (su_type t) (su_id t) nodes, edges @ [edge_of k t])"
proof -
  have "edges_sound F root (edges @ [edge_of k t])"
    using assms(1-3) by (fastforce simp: edges_sound_def expansion_ok_def)
  moreover have "edges_between (insert (graph_node_id (su_type t) (su_id t)) (node_names nodes)) (edges @ [edge_of k t])"
    using assms(3,4) by (auto simp: edges_between_def expansion_ok_def edge_of_def)
  ultimately show ?thesis using assms(3) by (simp add: expansion_ok_def nodes_wf_add)
qed

section \<open>A concrete table\<close>

definition demo_tuple ::
  "uuid \<Rightarrow> string \<Rightarrow> string \<Rightarrow> string \<Rightarrow> string \<Rightarrow> string \<Rightarrow> string \<Rightarrow> rel_row" where
  "demo_tuple i ot oid rel st sid sr = \<lparr>rt_id = i, rt_tenant = 1, rt_otype = ot, rt_oid = oid,
     rt_relation = rel, rt_stype = st, rt_sid = sid, rt_srelation = sr\<rparr>"

definition demo_rebac :: "rel_row list \<Rightarrow> rebac_db" where
  "demo_rebac rows = \<lparr>audit_rows = [], outbox_rows = [], dlq_rows = [], rel_rows = rows\<rparr>"

text \<open>A document whose viewers are the members of a group, of which bob is one.\<close>

definition demo_group :: "rel_row list" where
  "demo_group = [demo_tuple 1 ''doc'' ''x'' ''view'' ''group'' ''eng'' ''member'',
     demo_tuple 2 ''group'' ''eng'' ''member'' ''user'' ''bob'' []]"

text \<open>
  The same with 24 groups nested in each other before the last one, and a direct way to it: the
  document's viewers are the members of group a and those of Z; a contains b, and so on to x, which
  contains Z; Z contains Y, and bob is in Y.
\<close>

definition demo_chain_ids :: string where
  "demo_chain_ids = ''abcdefghijklmnopqrstuvwx''"

definition demo_nested :: "rel_row list" where
  "demo_nested =
     [demo_tuple 1 ''doc'' ''d'' ''view'' ''group'' ''a'' ''member'',
      demo_tuple 2 ''doc'' ''d'' ''view'' ''group'' ''Z'' ''member'',
      demo_tuple 3 ''group'' ''x'' ''member'' ''group'' ''Z'' ''member'',
      demo_tuple 4 ''group'' ''Z'' ''member'' ''group'' ''Y'' ''member'',
      demo_tuple 5 ''group'' ''Y'' ''member'' ''user'' ''bob'' []] @
     map (\<lambda>(a, b). demo_tuple (of_char a) ''group'' [a] ''member'' ''group'' [b] ''member'')
       (zip (butlast demo_chain_ids) (tl demo_chain_ids))"

lemma demo_group_ok: "tuples_ok (rel_rows (demo_rebac demo_group))"
proof -
  have "visible ''view''" "visible ''member''" by (simp_all add: visible_def)
  then show ?thesis
    by (simp add: demo_rebac_def demo_group_def demo_tuple_def tuples_ok_def tuple_ok_def
        tuple_content_def trim_space_visible)
qed

lemma demo_object: "parse_object ''doc:x'' = Some \<lparr>or_type = ''doc'', or_id = ''x''\<rparr>"
  by code_simp

section \<open>Properties of the check\<close>

lemma rebac_check_walk:
  assumes "rebac_check scan tenant object relation user e w = (Inr b, e', w')"
    and "parse_object object = Some ob"
  obtains path V where "w' = w" and "walk (\<lambda>ot oid rel. fetch_subjects scan tenant ot oid rel (rel_rows w)) user
      (or_type ob) (or_id ob) relation [] 0 b path V"
proof -
  from assms obtain path V where
    "resolve (tuple_fetcher scan tenant) (or_type ob) (or_id ob) relation user [] 0 e w = (Inr (b, path, V), e', w')"
    by (auto simp: rebac_check_def io_ok split: prod.splits)
  from db_source.resolve_ok [OF this] that show thesis by blast
qed

lemma rebac_check_meaning:
  assumes "\<And>rows. set (scan rows) = set rows" and "tuples_ok (rel_rows w)"
    and "parse_object object = Some ob" and "CHR ''#'' \<notin> set relation"
    and "card (reachable (tenant_view tenant w) (or_type ob, or_id ob, relation)) \<le> Suc max_depth"
    and "rebac_check scan tenant object relation user e w = (Inr b, e', w')"
  shows "w' = w \<and> b = holds (tenant_view tenant w) user (or_type ob) (or_id ob) relation"
proof -
  let ?F = "\<lambda>ot oid rel. fetch_subjects scan tenant ot oid rel (rel_rows w)"
  have same: "same_view ?F (tenant_view tenant w)" by (rule same_view_scan) (rule assms(1))
  let ?root = "(or_type ob, or_id ob, relation)"
  have r: "reachable ?F ?root = reachable (tenant_view tenant w) ?root" by (rule reachable_same [OF same])
  from rebac_check_walk [OF assms(6,3)] obtain path V where "w' = w"
    and wk: "walk ?F user (or_type ob) (or_id ob) relation [] 0 b path V" .
  show ?thesis
  proof (cases b)
    case True
    with wk have "holds ?F user (or_type ob) (or_id ob) relation"
      using walk_sound(1) grant_path_holds by blast
    with True \<open>w' = w\<close> holds_same [OF same] show ?thesis by simp
  next
    case False
    have "\<not> holds ?F user (or_type ob) (or_id ob) relation"
    proof (rule walk_complete)
      show "walk ?F user (or_type ob) (or_id ob) relation [] 0 False path V" using wk False by simp
    qed (unfold r, use assms finite_reachable inj_reachable parse_object_Some(2) [OF assms(3)] in auto)
    with False \<open>w' = w\<close> holds_same [OF same_view_sym [OF same]] show ?thesis by blast
  qed
qed

text \<open>
  C4. The check decides the relation the tuples define: on a well-formed table, for a relation
  without a hash sign and at most 26 (object, relation) pairs reachable from the one asked for,
  a check without database faults returns, changes nothing, and answers yes exactly if the user is
  related to the object directly or through usersets, in whatever order the table is scanned.
\<close>

theorem check_decides_relation:
  assumes "no_faults e" and "\<And>rows. set (scan rows) = set rows" and "tuples_ok (rel_rows w)"
    and "parse_object object = Some ob" and "CHR ''#'' \<notin> set relation"
    and "card (reachable (tenant_view tenant w) (or_type ob, or_id ob, relation)) \<le> Suc max_depth"
  shows "\<exists>e'. rebac_check scan tenant object relation user e w =
     (Inr (holds (tenant_view tenant w) user (or_type ob) (or_id ob) relation), e', w)"
proof -
  have "live (rebac_check scan tenant object relation user :: ('a rebac_db_scheme, bool) io)"
    unfolding rebac_check_def assms(4) option.case
    by (rule live_bind, rule live_resolve(1)) (auto split: prod.splits)
  from liveD [OF this assms(1)] obtain b e' w' where
    "rebac_check scan tenant object relation user e w = (Inr b, e', w')" by blast
  with rebac_check_meaning [OF assms(2-6) this] show ?thesis by auto
qed

theorem check_decides_relation_witness:
  "\<exists>e'. rebac_check rev 1 ''doc:x'' ''view'' ''bob'' demo_env (demo_rebac demo_group) =
     (Inr (holds (tenant_view 1 (demo_rebac demo_group)) ''bob'' ''doc'' ''x'' ''view''), e', demo_rebac demo_group)"
proof -
  have "reachable (tenant_view 1 (demo_rebac demo_group)) (''doc'', ''x'', ''view'') \<subseteq>
      {(''doc'', ''x'', ''view''), (''group'', ''eng'', ''member'')}"
  proof
    fix k assume "k \<in> reachable (tenant_view 1 (demo_rebac demo_group)) (''doc'', ''x'', ''view'')"
    then show "k \<in> {(''doc'', ''x'', ''view''), (''group'', ''eng'', ''member'')}"
      by (induction rule: reachable.induct)
         (auto simp: subjects_of_def tenant_view_def fetch_subjects_def demo_rebac_def demo_group_def demo_tuple_def)
  qed
  from card_mono [OF _ this]
  have "card (reachable (tenant_view 1 (demo_rebac demo_group)) (''doc'', ''x'', ''view'')) \<le> Suc max_depth"
    by (simp add: max_depth_def)
  with check_decides_relation [OF no_faults_quiet _ demo_group_ok demo_object, of rev "''view''" 1 "''bob''"]
  show ?thesis by simp
qed

text \<open>
  Explanations are proofs: whatever the table, its size and the scan order, a check with
  explanation leaves the store alone, the plain check run instead gives the same answer, and if the
  answer is yes the path is a chain of tuples of the tenant, each step's object and relation the
  userset of the step before, the depths counting from 0, ending in a tuple that names the user;
  if it is no the path is empty.
\<close>

theorem check_explain_sound:
  assumes "\<And>rows. set (scan rows) = set rows" and "parse_object object = Some ob"
    and "check_explain scan tenant object relation user e w = (Inr x, e', w')"
  shows "w' = w \<and> rebac_check scan tenant object relation user e w = (Inr (ex_allowed x), e', w) \<and>
     (ex_allowed x \<longrightarrow> grant_path (tenant_view tenant w) user (or_type ob) (or_id ob) relation 0 (ex_path x)) \<and>
     (\<not> ex_allowed x \<longrightarrow> ex_path x = [])"
proof -
  let ?F = "\<lambda>ot oid rel. fetch_subjects scan tenant ot oid rel (rel_rows w)"
  from assms(2,3) obtain V where
    run: "resolve (tuple_fetcher scan tenant) (or_type ob) (or_id ob) relation user [] 0 e w =
      (Inr (ex_allowed x, ex_path x, V), e', w')"
    by (auto simp: check_explain_def io_ok split: prod.splits)
  note ok = db_source.resolve_ok [OF run]
  have "rebac_check scan tenant object relation user e w = (Inr (ex_allowed x), e', w)"
    using run ok(1) assms(2) by (simp add: rebac_check_def bind_io_def ret_def)
  moreover have "grant_path ?F user (or_type ob) (or_id ob) relation 0 (ex_path x) =
      grant_path (tenant_view tenant w) user (or_type ob) (or_id ob) relation 0 (ex_path x)"
    by (rule grant_path_same, rule same_view_scan) (rule assms(1))
  ultimately show ?thesis using ok(1) walk_sound(1) [OF ok(2)] by blast
qed

theorem check_explain_sound_witness:
  "\<exists>x e'. check_explain rev 1 ''doc:x'' ''view'' ''bob'' demo_env (demo_rebac demo_group) =
      (Inr x, e', demo_rebac demo_group) \<and>
     grant_path (tenant_view 1 (demo_rebac demo_group)) ''bob'' ''doc'' ''x'' ''view'' 0 (ex_path x)"
proof -
  have "(case fst (check_explain rev 1 ''doc:x'' ''view'' ''bob'' demo_env (demo_rebac demo_group)) of
      Inl _ \<Rightarrow> False | Inr x \<Rightarrow> ex_allowed x)"
    by code_simp
  then obtain x e' w' where run: "check_explain rev 1 ''doc:x'' ''view'' ''bob'' demo_env (demo_rebac demo_group) =
      (Inr x, e', w')" and "ex_allowed x"
    by (cases "check_explain rev 1 ''doc:x'' ''view'' ''bob'' demo_env (demo_rebac demo_group)")
       (auto split: sum.splits)
  with check_explain_sound [OF _ demo_object run] show ?thesis by auto
qed

lemma written_tuple_stored:
  assumes "write_tuple tenant object relation subject e w = (Inr t, e1, w1)"
    and "parse_object object = Some ob" and "parse_subject subject = Some su"
  shows "\<exists>r \<in> set (rel_rows w1). rt_id r = tp_id t \<and> rt_tenant r = tenant \<and> rt_otype r = or_type ob \<and>
     rt_oid r = or_id ob \<and> rt_relation r = relation \<and> rt_stype r = sr_type su \<and> rt_sid r = sr_id su \<and>
     rt_srelation r = sr_relation su"
proof -
  from write_tuple_ok [OF assms(1)] assms(2,3) obtain i rows where
    ins: "insert_tuple \<lparr>rt_id = e_uuid e (e_uuids e), rt_tenant = tenant, rt_otype = or_type ob,
      rt_oid = or_id ob, rt_relation = relation, rt_stype = sr_type su, rt_sid = sr_id su,
      rt_srelation = sr_relation su\<rparr> (rel_rows w) = Inr (i, rows)"
    and w1: "rel_rows w1 = rows" and t: "tp_id t = i"
    by (metis option.inject rebac_db.select_convs(1) rebac_db.surjective rebac_db.update_convs(1) rel_tuple.select_convs(1))
  from insert_tuple_cases [OF ins] show ?thesis
  proof cases
    case (1 q)
    then show ?thesis using w1 t by (intro bexI [of _ q]) (simp_all add: tuple_content_fields)
  next
    case 2
    then show ?thesis using w1 t by simp
  qed
qed

text \<open>
  A direct grant is effective at once: after a successful write of "user U has the relation on the
  object", a check of that object, relation and user that answers answers yes, whatever else the
  table holds, in whatever order it is scanned, and however deep the usersets scanned before go.
\<close>

theorem direct_grant_effective:
  assumes "\<And>rows. set (scan rows) = set rows"
    and "write_tuple tenant object relation subject e w = (Inr t, e1, w1)"
    and "parse_subject subject = Some \<lparr>sr_type = ''user'', sr_id = user, sr_relation = []\<rparr>"
    and "rebac_check scan tenant object relation user e2 w1 = (Inr b, e3, w2)"
  shows b
proof -
  obtain ob where ob: "parse_object object = Some ob" using write_tuple_ok [OF assms(2)] by blast
  let ?F = "\<lambda>ot oid rel. fetch_subjects scan tenant ot oid rel (rel_rows w1)"
  from rebac_check_walk [OF assms(4) ob] obtain path V where
    wk: "walk ?F user (or_type ob) (or_id ob) relation [] 0 b path V" .
  from written_tuple_stored [OF assms(2) ob assms(3)]
  have "user_subject user \<in> set (?F (or_type ob) (or_id ob) relation)"
    using assms(1) by (auto simp: fetch_subjects_def user_subject_def image_iff)
  with walk_direct [OF wk] show b by simp
qed

theorem direct_grant_effective_witness:
  "\<exists>t e1 w1. write_tuple 1 ''doc:d'' ''view'' ''user:amy'' (quiet_env int (\<lambda>n. n + 500)) (demo_rebac demo_nested)
       = (Inr t, e1, w1) \<and>
     fst (rebac_check (\<lambda>rows. rows) 1 ''doc:d'' ''view'' ''amy'' demo_env w1) = Inr True"
proof -
  let ?e = "quiet_env int (\<lambda>n. n + 500)"
  have "(case fst (write_tuple 1 ''doc:d'' ''view'' ''user:amy'' ?e (demo_rebac demo_nested)) of
      Inl _ \<Rightarrow> False | Inr t \<Rightarrow> True)"
    by code_simp
  then obtain t e1 w1 where wr: "write_tuple 1 ''doc:d'' ''view'' ''user:amy'' ?e (demo_rebac demo_nested) =
      (Inr t, e1, w1)"
    by (cases "write_tuple 1 ''doc:d'' ''view'' ''user:amy'' ?e (demo_rebac demo_nested)")
       (auto split: sum.splits)
  have su: "parse_subject ''user:amy'' = Some \<lparr>sr_type = ''user'', sr_id = ''amy'', sr_relation = []\<rparr>"
    and ob: "parse_object ''doc:d'' = Some \<lparr>or_type = ''doc'', or_id = ''d''\<rparr>" by code_simp+
  have "live (rebac_check (\<lambda>rows. rows) 1 ''doc:d'' ''view'' ''amy'' :: (rebac_db, bool) io)"
    unfolding rebac_check_def ob option.case
    by (rule live_bind, rule live_resolve(1)) (auto split: prod.splits)
  from liveD [OF this no_faults_quiet] obtain b e2 w2 where
    ch: "rebac_check (\<lambda>rows. rows) 1 ''doc:d'' ''view'' ''amy'' demo_env w1 = (Inr b, e2, w2)" by blast
  from direct_grant_effective [OF _ wr su ch] wr ch show ?thesis by auto
qed

text \<open>
  Beyond the bounds the answer depends on the scan order, which the query leaves open: in a table
  of 28 tuples where bob can view the document through two groups, the check denies in one order and
  allows in another. The long way is followed first, reaches the shared group at the depth limit
  and marks it visited; the short way then finds it visited.
\<close>

theorem check_depends_on_scan_order:
  "tuples_ok (rel_rows (demo_rebac demo_nested)) \<and>
   holds (tenant_view 1 (demo_rebac demo_nested)) ''bob'' ''doc'' ''d'' ''view'' \<and>
   fst (rebac_check (\<lambda>rows. rows) 1 ''doc:d'' ''view'' ''bob'' demo_env (demo_rebac demo_nested)) = Inr False \<and>
   fst (rebac_check rev 1 ''doc:d'' ''view'' ''bob'' demo_env (demo_rebac demo_nested)) = Inr True"
proof (intro conjI)
  show "tuples_ok (rel_rows (demo_rebac demo_nested))" by code_simp
  let ?F = "tenant_view 1 (demo_rebac demo_nested)"
  have "user_subject ''bob'' \<in> set (?F ''group'' ''Y'' ''member'')" by code_simp
  then have "holds ?F ''bob'' ''group'' ''Y'' ''member''" by (rule direct)
  moreover have "\<lparr>su_type = ''group'', su_id = ''Y'', su_relation = ''member''\<rparr> \<in> set (?F ''group'' ''Z'' ''member'')"
    by code_simp
  ultimately have "holds ?F ''bob'' ''group'' ''Z'' ''member''" by (auto intro: userset)
  moreover have "\<lparr>su_type = ''group'', su_id = ''Z'', su_relation = ''member''\<rparr> \<in> set (?F ''doc'' ''d'' ''view'')"
    by code_simp
  ultimately show "holds ?F ''bob'' ''doc'' ''d'' ''view''" by (auto intro: userset)
  show "fst (rebac_check (\<lambda>rows. rows) 1 ''doc:d'' ''view'' ''bob'' demo_env (demo_rebac demo_nested)) = Inr False"
    by code_simp
  show "fst (rebac_check rev 1 ''doc:d'' ''view'' ''bob'' demo_env (demo_rebac demo_nested)) = Inr True"
    by code_simp
qed

text \<open>
  References survive storage: the text the service shows for a subject it accepted parses to the
  same type, id and relation, whatever white space the original had around its parts.
\<close>

theorem subject_text_roundtrip:
  assumes "parse_subject raw = Some su"
  shows "parse_subject (subject_string (sr_type su) (sr_id su) (sr_relation su)) = Some su"
  by (rule subject_roundtrip [OF assms])

theorem subject_text_roundtrip_witness:
  "parse_subject ''  group:eng #member '' = Some \<lparr>sr_type = ''group'', sr_id = ''eng'', sr_relation = ''member''\<rparr> \<and>
   parse_subject (subject_string ''group'' ''eng'' ''member'') =
     Some \<lparr>sr_type = ''group'', sr_id = ''eng'', sr_relation = ''member''\<rparr>"
proof -
  have p: "parse_subject ''  group:eng #member '' =
      Some \<lparr>sr_type = ''group'', sr_id = ''eng'', sr_relation = ''member''\<rparr>"
    by code_simp
  with subject_text_roundtrip [OF p] show ?thesis by simp
qed

lemma write_handler_cases:
  assumes "rebac_write_handler pu r body e w = (res, e', w')"
  shows "w' = w \<or> (\<exists>t object relation subject res2 e2. require_path_tenant pu r = Inr t \<and>
     write_tuple t object relation subject e w = (res2, e2, w'))"
proof (cases "require_path_tenant pu r")
  case (Inl x)
  with assms show ?thesis by (simp add: rebac_write_handler_def bind_io_def lift_res_def fail_def)
next
  case t: (Inr t)
  show ?thesis
  proof (cases body)
    case (Inl x)
    with t assms show ?thesis by (simp add: rebac_write_handler_def bind_io_def lift_res_def fail_def ret_def)
  next
    case (Inr b)
    obtain object relation subject where b: "b = (object, relation, subject)" by (metis prod_cases3)
    obtain r2 e2 w2 where x: "write_tuple t object relation subject e w = (r2, e2, w2)" by (metis prod_cases3)
    with t Inr b assms have "w' = w2"
      by (cases r2) (simp_all add: rebac_write_handler_def bind_io_def lift_res_def ret_def)
    with x t show ?thesis by blast
  qed
qed

lemma delete_handler_cases:
  assumes "rebac_delete_handler pu r e w = (res, e', w')"
  shows "w' = w \<or> (\<exists>t i res2 e2. require_path_tenant pu r = Inr t \<and> delete_tuple i t e w = (res2, e2, w'))"
proof (cases "require_path_tenant pu r")
  case (Inl x)
  with assms show ?thesis by (simp add: rebac_delete_handler_def bind_io_def lift_res_def fail_def)
next
  case t: (Inr t)
  show ?thesis
  proof (cases "pu (url_param r ''id'')")
    case None
    with t assms show ?thesis by (simp add: rebac_delete_handler_def bind_io_def lift_res_def fail_def ret_def)
  next
    case (Some i)
    obtain r2 e2 w2 where x: "delete_tuple i t e w = (r2, e2, w2)" by (metis prod_cases3)
    with t Some assms have "w' = w2"
      by (cases r2) (simp_all add: rebac_delete_handler_def bind_io_def lift_res_def ret_def)
    with x t show ?thesis by blast
  qed
qed

text \<open>
  The write and delete handlers keep to the caller's tenant: whatever they answer, the table stays
  well-formed (unique ids, no tuple twice, references in parsed form), nothing but the table changes,
  and if anything changes then the path names the tenant of the authenticated principal and only
  rows of that tenant differ.
\<close>

theorem rebac_handlers_isolate_tenants:
  assumes "tuples_ok (rel_rows w)"
    and "rebac_write_handler pu r body e w = (res, e', w') \<or> rebac_delete_handler pu r e w = (res, e', w')"
  shows "tuples_ok (rel_rows w') \<and> (\<exists>rows. w' = w\<lparr>rel_rows := rows\<rparr>) \<and>
     (w' = w \<or> (\<exists>t. require_tenant r = Inr t \<and> pu (url_param r ''tenantID'') = Some t \<and>
        filter (\<lambda>q. rt_tenant q \<noteq> t) (rel_rows w') = filter (\<lambda>q. rt_tenant q \<noteq> t) (rel_rows w)))"
proof -
  consider "w' = w"
    | t object relation subject res2 e2 where "require_path_tenant pu r = Inr t"
        "write_tuple t object relation subject e w = (res2, e2, w')"
    | t i res2 e2 where "require_path_tenant pu r = Inr t" "delete_tuple i t e w = (res2, e2, w')"
    using assms(2) write_handler_cases delete_handler_cases by metis
  then show ?thesis
    using assms(1) write_tuple_keeps delete_tuple_keeps
    by cases (auto simp: require_path_tenant_Inr_iff, blast+)
qed

theorem rebac_handlers_isolate_tenants_witness:
  "tuples_ok (rel_rows (snd (snd (rebac_delete_handler demo_uuid
     (demo_request 1 [(''tenantID'', ''1''), (''id'', ''2'')] []) demo_env (demo_rebac demo_group)))))"
proof -
  obtain res e' w' where run: "rebac_delete_handler demo_uuid
     (demo_request 1 [(''tenantID'', ''1''), (''id'', ''2'')] []) demo_env (demo_rebac demo_group) = (res, e', w')"
    by (metis prod_cases3)
  from rebac_handlers_isolate_tenants [OF demo_group_ok disjI2 [OF run]] run show ?thesis by simp
qed

text \<open>
  The graph is what the tuples say: an expansion that succeeds leaves the store alone, its nodes
  are distinct and named after their type and label, its edges run between its nodes, and every edge
  is a tuple of the tenant at an (object, relation) pair reachable from the one asked for.
\<close>

theorem expand_graph_sound:
  assumes "\<And>rows. set (scan rows) = set rows" and "parse_object object = Some ob"
    and "expand_graph scan tenant object relation depth e w = (Inr g, e', w')"
  shows "w' = w \<and> nodes_wf (gr_nodes g) \<and> edges_between (node_names (gr_nodes g)) (gr_edges g) \<and>
     edges_sound (tenant_view tenant w) (or_type ob, or_id ob, relation) (gr_edges g)"
proof -
  let ?F = "\<lambda>ot oid rel. fetch_subjects scan tenant ot oid rel (rel_rows w)"
  let ?root = "(or_type ob, or_id ob, relation)"
  have same: "same_view ?F (tenant_view tenant w)" by (rule same_view_scan) (rule assms(1))
  from assms(2,3) obtain V where
    run: "expand (tuple_fetcher scan tenant) (or_type ob) (or_id ob) relation 0 ([], [], []) e w =
      (Inr (V, gr_nodes g, gr_edges g), e', w')"
    by (auto simp: expand_graph_def io_ok split: prod.splits if_splits)
  have "w' = w \<and> (\<forall>st'. Inr (V, gr_nodes g, gr_edges g) = (Inr st' :: go_error + expansion) \<longrightarrow>
      expansion_ok ?F ?root st' \<and> {} \<subseteq> node_ids st')"
  proof (rule db_source.expand_keeps [where R = "reachable ?F ?root" and I = "expansion_ok ?F ?root", OF _ _ _ _ _ _ run])
    fix k t and V :: "string list" and N E
    assume "k \<in> reachable ?F ?root" "t \<in> subjects_of ?F k" "expansion_ok ?F ?root (V, N, E)"
      "graph_node_id (fst k) (fst (snd k)) \<in> node_names N"
    from expansion_ok_edge [OF this]
    show "expansion_ok ?F ?root (V, add_node (su_type t) (su_id t) N, E @
        [\<lparr>ge_from = graph_node_id (fst k) (fst (snd k)), ge_to = graph_node_id (su_type t) (su_id t),
          ge_relation = edge_label (snd (snd k)) t\<rparr>])" by (simp add: edge_of_def)
  next
    show "\<forall>k \<in> reachable ?F ?root. \<forall>t \<in> subjects_of ?F k. su_relation t \<noteq> [] \<longrightarrow>
        subject_key t \<in> reachable ?F ?root" by (blast intro: reachable.step)
  next
    fix k and V :: "string list" and N E
    assume "expansion_ok ?F ?root (V, N, E)"
    then show "expansion_ok ?F ?root (key_text k # V, add_node (fst k) (fst (snd k)) N, E)"
      by (rule expansion_ok_enter)
  next
    show "expansion_ok ?F ?root ([], [], [])"
      by (simp add: expansion_ok_def nodes_wf_def edges_sound_def edges_between_def)
  qed (auto intro: reachable.root)
  then have "w' = w" and ok: "expansion_ok ?F ?root (V, gr_nodes g, gr_edges g)" by simp_all
  moreover have "edges_sound (tenant_view tenant w) ?root (gr_edges g)"
    using ok reachable_same [OF same] subjects_of_same [OF same] by (simp add: expansion_ok_def edges_sound_def)
  ultimately show ?thesis by (simp add: expansion_ok_def)
qed

theorem expand_graph_sound_witness:
  "\<exists>g e'. expand_graph rev 1 ''doc:x'' ''view'' 10 demo_env (demo_rebac demo_group) =
      (Inr g, e', demo_rebac demo_group) \<and> length (gr_edges g) = 2 \<and>
     edges_sound (tenant_view 1 (demo_rebac demo_group)) (''doc'', ''x'', ''view'') (gr_edges g)"
proof -
  have "(case fst (expand_graph rev 1 ''doc:x'' ''view'' 10 demo_env (demo_rebac demo_group)) of
      Inl _ \<Rightarrow> False | Inr g \<Rightarrow> length (gr_edges g) = 2)"
    by code_simp
  then obtain g e' w' where run: "expand_graph rev 1 ''doc:x'' ''view'' 10 demo_env (demo_rebac demo_group) =
      (Inr g, e', w')" and "length (gr_edges g) = 2"
    by (cases "expand_graph rev 1 ''doc:x'' ''view'' 10 demo_env (demo_rebac demo_group)")
       (auto split: sum.splits)
  with expand_graph_sound [OF _ demo_object run] show ?thesis by auto
qed

end
