(* ===== verification/RebacEnds.thy ===== *)
theory RebacEnds imports RebacProps begin

text \<open>
  The relationship check ends, with a bound on its work: on any table, cyclic or not, it asks the database at most once
  for every userset.
\<close>

text \<open>The work that is left: the usersets that were not visited.\<close>

definition within :: "string set \<Rightarrow> string list \<Rightarrow> nat \<Rightarrow> go_error + bool \<times> explain_step list \<times> string list \<Rightarrow> nat \<Rightarrow> bool" where
  "within U V n r n' \<longleftrightarrow>
     (case r of
        Inl _ \<Rightarrow> n' \<le> n + card (U - set V)
      | Inr (_, _, V') \<Rightarrow> n' + card (U - set V') \<le> n + card (U - set V))"

lemma within_stop: "within U V n (Inr (ok, path, V)) n"
  by (simp add: within_def)

lemma within_visit:
  assumes "finite U" and "k \<in> U" and "k \<notin> set V" and "within U (k # V) (Suc n) r n'"
  shows "within U V n r n'"
proof -
  define v where "v = U - set (k # V)"
  have "U - set V = insert k v" using assms(2,3) by (auto simp: v_def)
  moreover have "finite v" "k \<notin> v" using assms(1) by (simp_all add: v_def)
  ultimately have "card (U - set V) = Suc (card v)" by simp
  with assms(4) show ?thesis unfolding within_def v_def [symmetric] by (cases r) auto
qed

lemma within_trans:
  assumes "within U V n (Inr (ok, path, V1)) n1" and "within U V1 n1 r n'"
  shows "within U V n r n'"
  using assms by (auto simp: within_def split: sum.splits)

lemma resolve_calls:
  fixes w :: "'z rebac_db_scheme"
  assumes fin: "finite U" and closed: "\<And>ot oid rel t. t \<in> set (fetch_subjects scan tenant ot oid rel (rel_rows w)) \<Longrightarrow>
      su_relation t \<noteq> [] \<Longrightarrow> visit_key (su_type t) (su_id t) (su_relation t) \<in> U"
  shows "visit_key ot oid rel \<in> U \<Longrightarrow>
      resolve (tuple_fetcher scan tenant) ot oid rel user V d e w = (r, e', w') \<Longrightarrow> w' = w \<and> within U V (e_calls e) r (e_calls e')"
    and "\<forall>t \<in> set ts. su_relation t \<noteq> [] \<longrightarrow> visit_key (su_type t) (su_id t) (su_relation t) \<in> U \<Longrightarrow>
      resolve_tuples (tuple_fetcher scan tenant) ot oid rel user V d ts e w = (r, e', w') \<Longrightarrow> w' = w \<and> within U V (e_calls e) r (e_calls e')"
proof (induction "tuple_fetcher scan tenant :: 'z rebac_db_scheme fetcher" ot oid rel user V d
    and "tuple_fetcher scan tenant :: 'z rebac_db_scheme fetcher" ot oid rel user V d ts
    arbitrary: e r e' w' and e r e' w' rule: resolve_resolve_tuples.induct)
  case (1 ot oid rel user V d)
  show ?case
  proof (cases "d > max_depth \<or> visit_key ot oid rel \<in> set V")
    case True
    with 1(3) show ?thesis by (auto simp: resolve.simps ret_def within_stop split: if_splits)
  next
    case False
    let ?ts = "fetch_subjects scan tenant ot oid rel (rel_rows w)" and ?e = "e\<lparr>e_calls := Suc (e_calls e)\<rparr>"
    show ?thesis
    proof (cases "e_fault e (e_calls e)")
      case True
      have "card (U - set V) > 0" using fin False 1(2) by (auto simp: card_gt_0_iff)
      with 1(3) False True show ?thesis
        by (auto simp: resolve.simps bind_io_def tuple_fetcher_def db_read_def db_call_def Let_def within_def)
    next
      case nofault: False
      with 1(3) False have "resolve_tuples (tuple_fetcher scan tenant) ot oid rel user (visit_key ot oid rel # V) d ?ts ?e w = (r, e', w')"
        by (simp add: resolve.simps bind_io_def) (simp add: tuple_fetcher_def db_read_def db_call_def Let_def)
      from 1(1) [OF _ _ _ this] False closed have "w' = w \<and> within U (visit_key ot oid rel # V) (e_calls ?e) r (e_calls e')" by auto
      with within_visit [OF fin 1(2)] False show ?thesis by simp
    qed
  qed
next
  case (2 ot oid rel user V d)
  then show ?case by (auto simp: ret_def within_stop)
next
  case (3 ot oid rel user V d t ts)
  show ?case
  proof (cases "su_relation t = []")
    case True
    with 3 show ?thesis by (auto simp: ret_def within_stop split: if_splits)
  next
    case False
    obtain r1 e1 w1 where run: "resolve (tuple_fetcher scan tenant) (su_type t) (su_id t) (su_relation t) user V (Suc d) e w = (r1, e1, w1)"
      by (metis prod_cases3)
    from 3(2) [OF False _ run] 3(4) False have w1: "w1 = w" "within U V (e_calls e) r1 (e_calls e1)" by auto
    show ?thesis
    proof (cases r1)
      case (Inl x)
      with 3(5) False run w1 show ?thesis by (auto simp: bind_io_def within_def)
    next
      case (Inr y)
      obtain ok path V1 where y: "y = (ok, path, V1)" by (cases y)
      show ?thesis
      proof (cases ok)
        case True
        with 3(5) False run Inr y w1 show ?thesis by (auto simp: bind_io_def ret_def within_def)
      next
        case no: False
        with 3(5) False run Inr y w1 have
          rest: "resolve_tuples (tuple_fetcher scan tenant) ot oid rel user V1 d ts e1 w = (r, e', w')" by (auto simp: bind_io_def)
        have "w' = w \<and> within U V1 (e_calls e1) r (e_calls e')"
          by (rule 3(3) [OF False no _ rest]) (use 3(4) in simp)
        with within_trans [of U V "e_calls e" ok path V1 "e_calls e1"] w1 Inr y show ?thesis by blast
      qed
    qed
  qed
qed

text \<open>C5. Every relationship check ends, also on cyclic tuples and whatever the database does: it leaves the store alone,
  makes at most one round trip to the database for the pair asked for and one for every userset among the subjects of the
  tenant's tuples, and without faults it returns an answer for every well-formed object.\<close>

theorem check_always_ends:
  fixes w :: "'z rebac_db_scheme"
  assumes "\<And>rows. set (scan rows) = set rows" and run: "rebac_check scan tenant object relation user e w = (r, e', w')"
  shows "w' = w \<and>
     e_calls e' \<le> e_calls e + Suc (length (filter (\<lambda>t. rt_tenant t = tenant \<and> rt_srelation t \<noteq> []) (rel_rows w))) \<and>
     (no_faults e \<longrightarrow> parse_object object \<noteq> None \<longrightarrow> (\<exists>b. r = Inr b))"
proof (cases "parse_object object")
  case None
  with run show ?thesis by (simp add: rebac_check_def fail_def)
next
  case (Some ob)
  let ?ts = "filter (\<lambda>t. rt_tenant t = tenant \<and> rt_srelation t \<noteq> []) (rel_rows w)"
  let ?key = "\<lambda>t. visit_key (rt_stype t) (rt_sid t) (rt_srelation t)" and ?root = "visit_key (or_type ob) (or_id ob) relation"
  define U where "U = insert ?root (?key ` set ?ts)"
  have "card (?key ` set ?ts) \<le> length ?ts" by (rule order_trans [OF card_image_le card_length]) simp
  then have c: "card U \<le> Suc (length ?ts)" unfolding U_def using card_insert_if [of "?key ` set ?ts" ?root] by simp
  have closed: "visit_key (su_type t) (su_id t) (su_relation t) \<in> U"
    if "t \<in> set (fetch_subjects scan tenant ot oid rel (rel_rows w))" "su_relation t \<noteq> []" for ot oid rel t
    using that assms(1) by (auto simp: U_def fetch_subjects_def)
  obtain r1 e1 w1 where res: "resolve (tuple_fetcher scan tenant) (or_type ob) (or_id ob) relation user [] 0 e w = (r1, e1, w1)"
    by (metis prod_cases3)
  have "finite U" "?root \<in> U" by (simp_all add: U_def)
  from resolve_calls(1) [OF this(1) closed this(2) res] have w1: "w1 = w" "within U [] (e_calls e) r1 (e_calls e1)" by auto
  then have "e_calls e1 \<le> e_calls e + card U" by (auto simp: within_def split: sum.splits)
  moreover have "e' = e1" "w' = w1"
    using run res Some by (auto simp: rebac_check_def bind_io_def ret_def split: sum.splits)
  moreover have "\<exists>b. r = Inr b" if "no_faults e"
  proof -
    have "live (rebac_check scan tenant object relation user :: ('z rebac_db_scheme, bool) io)"
      unfolding rebac_check_def Some option.case
      by (rule live_bind, rule live_resolve(1)) (auto split: prod.splits)
    from liveD [OF this that, of w] run show ?thesis by auto
  qed
  ultimately show ?thesis using c w1 by auto
qed

text \<open>Two groups that contain each other.\<close>

theorem check_always_ends_witness:
  "\<exists>b e'. rebac_check (\<lambda>rows. rows) 1 ''group:a'' ''member'' ''bob'' demo_env
       (demo_rebac [demo_tuple 1 ''group'' ''a'' ''member'' ''group'' ''b'' ''member'',
          demo_tuple 2 ''group'' ''b'' ''member'' ''group'' ''a'' ''member'']) =
     (Inr b, e', demo_rebac [demo_tuple 1 ''group'' ''a'' ''member'' ''group'' ''b'' ''member'',
          demo_tuple 2 ''group'' ''b'' ''member'' ''group'' ''a'' ''member'']) \<and> e_calls e' \<le> e_calls demo_env + 3"
proof -
  let ?w = "demo_rebac [demo_tuple 1 ''group'' ''a'' ''member'' ''group'' ''b'' ''member'',
      demo_tuple 2 ''group'' ''b'' ''member'' ''group'' ''a'' ''member'']"
  obtain r e' w' where run: "rebac_check (\<lambda>rows. rows) 1 ''group:a'' ''member'' ''bob'' demo_env ?w = (r, e', w')"
    by (metis prod_cases3)
  have "parse_object ''group:a'' \<noteq> None" by code_simp
  moreover have "length (filter (\<lambda>t. rt_tenant t = 1 \<and> rt_srelation t \<noteq> []) (rel_rows ?w)) = 2"
    by (simp add: demo_rebac_def demo_tuple_def)
  ultimately show ?thesis using check_always_ends [OF refl run] run no_faults_quiet by auto
qed

end
