(* ===== verification/Json.thy ===== *)
theory Json imports GoJson Complex_Main "HOL-Library.List_Lexorder" begin

text \<open>
  JSON values as the server handles them: a value inside a raw message (\<^verbatim>\<open>json.RawMessage\<close>) and a value
  decoded into Go's \<^verbatim>\<open>any\<close>. Both are the type \<open>json\<close>. An object is the list of its members as
  written; a lookup takes the last member with the name, as decoding does. \<open>JBlank\<close> is an empty
  object written with white space between its braces, which the code tells from the text \<open>{}\<close>. A
  number is the rational its literal denotes, or the value of the \<^verbatim>\<open>float64\<close> (negative zero is zero).
  What \<^verbatim>\<open>fmt\<close> prints for a \<^verbatim>\<open>float64\<close> and the rounding of a literal are parameters.
\<close>

datatype json =
    JNull
  | JBool bool
  | JNum rat
  | JStr string
  | JArr "json list"
  | JObj "(string \<times> json) list"
  | JBlank

lemma size_json_member: "(k, v) \<in> set kvs \<Longrightarrow> size v < size_list (size_prod (\<lambda>_. 0) size) kvs"
  by (induction kvs) auto

lemma size_json_lookup: "alookup k kvs = Some v \<Longrightarrow> size v < size_list (size_prod (\<lambda>_. 0) size) kvs"
  by (rule size_json_member) (rule alookup_Some_mem)

lemma size_json_elem: "v \<in> set vs \<Longrightarrow> size v < size_list size (vs :: json list)"
  by (rule size_list_mem)

text \<open>The members of an object, the last one for each name.\<close>

definition last_members :: "(string \<times> 'a) list \<Rightarrow> (string \<times> 'a) list" where
  "last_members kvs = map (\<lambda>k. (k, the (alookup k kvs))) (remdups (map fst kvs))"

section \<open>Decoding into any\<close>

function decode_any :: "(rat \<Rightarrow> rat option) \<Rightarrow> json \<Rightarrow> json option" where
  "decode_any flt JNull = Some JNull"
| "decode_any flt (JBool b) = Some (JBool b)"
| "decode_any flt (JNum q) = map_option JNum (flt q)"
| "decode_any flt (JStr s) = Some (JStr s)"
| "decode_any flt (JArr vs) = map_option JArr (those (map (decode_any flt) vs))"
| "decode_any flt (JObj kvs) =
     map_option JObj (those (map (\<lambda>(k, v). map_option (Pair k) (decode_any flt v)) kvs))"
| "decode_any flt JBlank = Some (JObj [])"
  by pat_completeness auto
termination
  by (relation "measure (size \<circ> snd)") (auto dest: size_json_member size_json_elem)

text \<open>\<^verbatim>\<open>json.Unmarshal\<close> of a raw value into a string: null leaves it empty.\<close>

fun decode_string :: "json \<Rightarrow> string option" where
  "decode_string (JStr s) = Some s"
| "decode_string JNull = Some []"
| "decode_string _ = None"

text \<open>Into \<^verbatim>\<open>[]json.RawMessage\<close> and \<^verbatim>\<open>map[string]json.RawMessage\<close>.\<close>

fun decode_list :: "json \<Rightarrow> json list option" where
  "decode_list (JArr vs) = Some vs"
| "decode_list JNull = Some []"
| "decode_list _ = None"

fun decode_members :: "json \<Rightarrow> (string \<times> json) list option" where
  "decode_members (JObj kvs) = Some kvs"
| "decode_members JBlank = Some []"
| "decode_members _ = None"

section \<open>Printing with %v\<close>

definition byte_key :: "string \<Rightarrow> nat list" where
  "byte_key = map of_char"

function show_any :: "(rat \<Rightarrow> string) \<Rightarrow> json \<Rightarrow> string" where
  "show_any sf JNull = ''<nil>''"
| "show_any sf (JBool b) = (if b then ''true'' else ''false'')"
| "show_any sf (JNum q) = sf q"
| "show_any sf (JStr s) = s"
| "show_any sf (JArr vs) = ''['' @ str_join (CHR '' '') (map (show_any sf) vs) @ '']''"
| "show_any sf (JObj kvs) = ''map['' @ str_join (CHR '' '')
     (map (\<lambda>(k, t). k @ '':'' @ t)
       (sort_key (\<lambda>p. byte_key (fst p)) (last_members (map (\<lambda>(k, v). (k, show_any sf v)) kvs)))) @ '']''"
| "show_any sf JBlank = ''map[]''"
  by pat_completeness auto
termination
  by (relation "measure (size \<circ> snd)") (auto dest: size_json_member size_json_elem)

end
