(* ===== verification/AbacCond.thy ===== *)
theory AbacCond imports Json Prelude begin

text \<open>
  Conditions of attribute-based policies, the pure part of
  \<^verbatim>\<open>internal/access/authorization/abac/abac.go\<close>: attribute paths, the comparison operators, the
  evaluation of a condition tree against an attribute bag, and the validation of a tree when a policy
  is written. A comparison can panic: Go's \<^verbatim>\<open>==\<close> on two interface values that both hold a slice, or both
  a map, does. An error is represented by the format it is made with, its causes nested as the code
  wraps them. Regular expressions (package \<^verbatim>\<open>regexp\<close>), the rounding of number literals and the printing
  of floats are the parameters in \<open>cond_ext\<close>.
\<close>

datatype cond_error =
    NodeNotObject
  | AllNotArray
  | AllItem nat cond_error
  | AnyNotArray
  | AnyItem nat cond_error
  | NotItem cond_error
  | NoRecognizedKey
  | AttrNotString
  | OpMissing
  | OpNotString
  | ValueUndecodable
  | InNeedsArray
  | NinNeedsArray
  | UnknownOperator string

datatype 'a outcome = Val 'a | Failed cond_error | Panicked

record cond_ext =
  cx_float :: "rat \<Rightarrow> rat option" \<comment> \<open>the float64 of a literal, unless out of range\<close>
  cx_show_float :: "rat \<Rightarrow> string"
  cx_regex :: "string \<Rightarrow> string \<Rightarrow> bool option" \<comment> \<open>pattern and text; \<open>None\<close> for a bad pattern\<close>

type_synonym attribute_bag = "(string \<times> (string \<times> json) list) list"

section \<open>Attributes\<close>

fun walk_path :: "json \<Rightarrow> string list \<Rightarrow> json option" where
  "walk_path cur [] = Some cur"
| "walk_path cur (p # ps) =
     (case cur of
        JObj kvs \<Rightarrow> (case alookup p kvs of None \<Rightarrow> None | Some v \<Rightarrow> walk_path v ps)
      | _ \<Rightarrow> None)"

definition resolve_path :: "string \<Rightarrow> attribute_bag \<Rightarrow> json option" where
  "resolve_path attr bag =
     (case index_byte attr (CHR ''.'') of
        None \<Rightarrow> None
      | Some dot \<Rightarrow>
          if dot = 0 \<or> Suc dot = length attr then None
          else
            (case alookup (take dot attr) bag of
               None \<Rightarrow> None
             | Some ns \<Rightarrow> walk_path (JObj ns) (str_split (CHR ''.'') (drop (Suc dot) attr))))"

section \<open>Comparison\<close>

fun to_float64 :: "json \<Rightarrow> rat option" where
  "to_float64 (JNum q) = Some q"
| "to_float64 _ = None"

text \<open>Go's \<^verbatim>\<open>==\<close> on interface values.\<close>

fun go_eq :: "json \<Rightarrow> json \<Rightarrow> bool outcome" where
  "go_eq (JArr _) (JArr _) = Panicked"
| "go_eq (JObj _) (JObj _) = Panicked"
| "go_eq a b = Val (a = b)"

definition equal_values :: "cond_ext \<Rightarrow> json \<Rightarrow> json \<Rightarrow> bool outcome" where
  "equal_values x a b =
     (case go_eq a b of
        Val True \<Rightarrow> Val True
      | Val False \<Rightarrow>
          (case (to_float64 a, to_float64 b) of
             (Some p, Some q) \<Rightarrow> Val (p = q)
           | _ \<Rightarrow> Val (show_any (cx_show_float x) a = show_any (cx_show_float x) b))
      | Failed e \<Rightarrow> Failed e
      | Panicked \<Rightarrow> Panicked)"

definition map_outcome :: "('a \<Rightarrow> 'b) \<Rightarrow> 'a outcome \<Rightarrow> 'b outcome" where
  "map_outcome f r = (case r of Val a \<Rightarrow> Val (f a) | Failed e \<Rightarrow> Failed e | Panicked \<Rightarrow> Panicked)"

text \<open>The loops over array elements: the first equal element ends them.\<close>

fun some_equal :: "(json \<Rightarrow> bool outcome) \<Rightarrow> json list \<Rightarrow> bool outcome" where
  "some_equal eq [] = Val False"
| "some_equal eq (v # vs) =
     (case eq v of
        Val True \<Rightarrow> Val True
      | Val False \<Rightarrow> some_equal eq vs
      | Failed e \<Rightarrow> Failed e
      | Panicked \<Rightarrow> Panicked)"

fun to_array :: "json \<Rightarrow> json list option" where
  "to_array (JArr vs) = Some vs"
| "to_array _ = None"

definition numeric :: "(rat \<Rightarrow> rat \<Rightarrow> bool) \<Rightarrow> json \<Rightarrow> json \<Rightarrow> bool outcome" where
  "numeric cmp a b =
     (case (to_float64 a, to_float64 b) of (Some p, Some q) \<Rightarrow> Val (cmp p q) | _ \<Rightarrow> Val False)"

fun as_text :: "json \<Rightarrow> string" where
  "as_text (JStr s) = s"
| "as_text _ = []"

definition contains_value :: "cond_ext \<Rightarrow> json \<Rightarrow> json \<Rightarrow> bool outcome" where
  "contains_value x attr_val v =
     (case attr_val of
        JStr s \<Rightarrow> (case v of JStr t \<Rightarrow> Val (str_contains s t) | _ \<Rightarrow> Val False)
      | JArr els \<Rightarrow> some_equal (\<lambda>el. equal_values x el v) els
      | _ \<Rightarrow> Val False)"

definition regex_value :: "cond_ext \<Rightarrow> json \<Rightarrow> json \<Rightarrow> bool outcome" where
  "regex_value x attr_val v =
     (case (attr_val, v) of
        (JStr s, JStr pattern) \<Rightarrow>
          (case cx_regex x pattern s of None \<Rightarrow> Val False | Some b \<Rightarrow> Val b)
      | _ \<Rightarrow> Val False)"

definition compare_op :: "cond_ext \<Rightarrow> string \<Rightarrow> json \<Rightarrow> json \<Rightarrow> bool outcome" where
  "compare_op x op a v =
     (if op = ''eq'' then equal_values x a v
      else if op = ''ne'' then map_outcome Not (equal_values x a v)
      else if op = ''in'' then
        (case to_array v of
           None \<Rightarrow> Failed InNeedsArray
         | Some els \<Rightarrow> some_equal (\<lambda>el. equal_values x a el) els)
      else if op = ''nin'' then
        (case to_array v of
           None \<Rightarrow> Failed NinNeedsArray
         | Some els \<Rightarrow> map_outcome Not (some_equal (\<lambda>el. equal_values x a el) els))
      else if op = ''contains'' then contains_value x a v
      else if op = ''gt'' then numeric (\<lambda>p q. p > q) a v
      else if op = ''gte'' then numeric (\<lambda>p q. p \<ge> q) a v
      else if op = ''lt'' then numeric (\<lambda>p q. p < q) a v
      else if op = ''lte'' then numeric (\<lambda>p q. p \<le> q) a v
      else if op = ''prefix'' then Val (has_prefix (as_text a) (as_text v))
      else if op = ''suffix'' then Val (has_suffix (as_text a) (as_text v))
      else if op = ''regex'' then regex_value x a v
      else Failed (UnknownOperator op))"

section \<open>Evaluation\<close>

definition eval_leaf :: "cond_ext \<Rightarrow> attribute_bag \<Rightarrow> (string \<times> json) list \<Rightarrow> bool outcome" where
  "eval_leaf x bag m =
     (case (case alookup ''attr'' m of None \<Rightarrow> None | Some j \<Rightarrow> decode_string j) of
        None \<Rightarrow> Failed AttrNotString
      | Some attr \<Rightarrow>
          if attr = [] then Failed AttrNotString
          else
            (case alookup ''op'' m of
               None \<Rightarrow> Failed OpMissing
             | Some op_raw \<Rightarrow>
                 (case decode_string op_raw of
                    None \<Rightarrow> Failed OpNotString
                  | Some op \<Rightarrow>
                      if op = ''exists'' then Val (resolve_path attr bag \<noteq> None)
                      else
                        (case resolve_path attr bag of
                           None \<Rightarrow> Val (op = ''nin'')
                         | Some a \<Rightarrow>
                             (case (case alookup ''value'' m of
                                      None \<Rightarrow> Some JNull | Some v \<Rightarrow> decode_any (cx_float x) v) of
                                None \<Rightarrow> Failed ValueUndecodable
                              | Some v \<Rightarrow> compare_op x op a v)))))"

function eval_node :: "cond_ext \<Rightarrow> attribute_bag \<Rightarrow> json \<Rightarrow> bool outcome"
  and eval_all :: "cond_ext \<Rightarrow> attribute_bag \<Rightarrow> nat \<Rightarrow> json list \<Rightarrow> bool outcome"
  and eval_any :: "cond_ext \<Rightarrow> attribute_bag \<Rightarrow> nat \<Rightarrow> json list \<Rightarrow> bool outcome"
where
  "eval_node x bag raw =
     (if raw = JNull \<or> raw = JObj [] then Val True
      else
        (case decode_members raw of
           None \<Rightarrow> Failed NodeNotObject
         | Some m \<Rightarrow>
             (case alookup ''all'' m of
                Some j \<Rightarrow> (case decode_list j of None \<Rightarrow> Failed AllNotArray | Some cs \<Rightarrow> eval_all x bag 0 cs)
              | None \<Rightarrow>
             (case alookup ''any'' m of
                Some j \<Rightarrow> (case decode_list j of None \<Rightarrow> Failed AnyNotArray | Some cs \<Rightarrow> eval_any x bag 0 cs)
              | None \<Rightarrow>
             (case alookup ''not'' m of
                Some j \<Rightarrow> (case eval_node x bag j of
                            Val b \<Rightarrow> Val (\<not> b) | Failed e \<Rightarrow> Failed (NotItem e) | Panicked \<Rightarrow> Panicked)
              | None \<Rightarrow>
             (case alookup ''attr'' m of
                Some _ \<Rightarrow> eval_leaf x bag m
              | None \<Rightarrow> Failed NoRecognizedKey))))))"
| "eval_all x bag i [] = Val True"
| "eval_all x bag i (c # cs) =
     (case eval_node x bag c of
        Val True \<Rightarrow> eval_all x bag (Suc i) cs
      | Val False \<Rightarrow> Val False
      | Failed e \<Rightarrow> Failed (AllItem i e)
      | Panicked \<Rightarrow> Panicked)"
| "eval_any x bag i [] = Val False"
| "eval_any x bag i (c # cs) =
     (case eval_node x bag c of
        Val True \<Rightarrow> Val True
      | Val False \<Rightarrow> eval_any x bag (Suc i) cs
      | Failed e \<Rightarrow> Failed (AnyItem i e)
      | Panicked \<Rightarrow> Panicked)"
  by pat_completeness auto

lemma decode_list_size: "decode_list j = Some cs \<Longrightarrow> size_list size cs \<le> size j"
  by (cases j) auto

lemma decode_members_lookup_size:
  "decode_members raw = Some m \<Longrightarrow> alookup k m = Some j \<Longrightarrow> size j < size raw"
  by (cases raw) (auto dest: size_json_lookup)

lemma decode_members_list_size:
  "decode_members raw = Some m \<Longrightarrow> alookup k m = Some j \<Longrightarrow> decode_list j = Some cs \<Longrightarrow>
   size_list size cs < size raw"
  using decode_members_lookup_size decode_list_size by fastforce

termination eval_node
  by (relation "measure (\<lambda>s. case s of
        Inl (_, _, raw) \<Rightarrow> size raw
      | Inr (Inl (_, _, _, cs)) \<Rightarrow> size_list size cs
      | Inr (Inr (_, _, _, cs)) \<Rightarrow> size_list size cs)")
     (auto dest: decode_members_lookup_size decode_members_list_size)

declare eval_node.simps [simp del]

definition evaluate_condition :: "cond_ext \<Rightarrow> json \<Rightarrow> attribute_bag \<Rightarrow> bool outcome" where
  "evaluate_condition x node attrs = eval_node x attrs node"

section \<open>Validation\<close>

definition valid_ops :: "string list" where
  "valid_ops = [''eq'', ''ne'', ''in'', ''nin'', ''contains'', ''gt'', ''gte'', ''lt'', ''lte'',
     ''exists'', ''prefix'', ''suffix'', ''regex'']"

definition validate_leaf :: "(string \<times> json) list \<Rightarrow> cond_error option" where
  "validate_leaf m =
     (case (case alookup ''attr'' m of None \<Rightarrow> None | Some j \<Rightarrow> decode_string j) of
        None \<Rightarrow> Some AttrNotString
      | Some attr \<Rightarrow>
          if attr = [] then Some AttrNotString
          else
            (case alookup ''op'' m of
               None \<Rightarrow> Some OpMissing
             | Some op_raw \<Rightarrow>
                 (case decode_string op_raw of
                    None \<Rightarrow> Some OpNotString
                  | Some op \<Rightarrow> if op \<in> set valid_ops then None else Some (UnknownOperator op))))"

function validate_condition :: "json \<Rightarrow> cond_error option"
  and validate_items :: "(nat \<Rightarrow> cond_error \<Rightarrow> cond_error) \<Rightarrow> nat \<Rightarrow> json list \<Rightarrow> cond_error option"
where
  "validate_condition raw =
     (if raw = JNull \<or> raw = JObj [] then None
      else
        (case decode_members raw of
           None \<Rightarrow> Some NodeNotObject
         | Some m \<Rightarrow>
             (case alookup ''all'' m of
                Some j \<Rightarrow> (case decode_list j of None \<Rightarrow> Some AllNotArray | Some cs \<Rightarrow> validate_items AllItem 0 cs)
              | None \<Rightarrow>
             (case alookup ''any'' m of
                Some j \<Rightarrow> (case decode_list j of None \<Rightarrow> Some AnyNotArray | Some cs \<Rightarrow> validate_items AnyItem 0 cs)
              | None \<Rightarrow>
             (case alookup ''not'' m of
                Some j \<Rightarrow> map_option NotItem (validate_condition j)
              | None \<Rightarrow>
             (case alookup ''attr'' m of
                Some _ \<Rightarrow> validate_leaf m
              | None \<Rightarrow> Some NoRecognizedKey))))))"
| "validate_items wrap i [] = None"
| "validate_items wrap i (c # cs) =
     (case validate_condition c of
        Some e \<Rightarrow> Some (wrap i e)
      | None \<Rightarrow> validate_items wrap (Suc i) cs)"
  by pat_completeness auto
termination
  by (relation "measure (\<lambda>s. case s of Inl raw \<Rightarrow> size raw | Inr (_, _, cs) \<Rightarrow> size_list size cs)")
     (auto dest: decode_members_lookup_size decode_members_list_size)

declare validate_condition.simps [simp del]

end
