(* ===== verification/Audited.thy ===== *)
theory Audited imports Outbox begin

text \<open>
  The contract of the services that change stored state: a mutation, its audit row and, where the
  component announces its changes, its outbox event are written in one transaction. The two locales
  state the shape; the component theories interpret them on their operations, and get from them that
  a successful call adds exactly one audit row (and exactly one event) and that a failed one changes
  nothing.
\<close>

text \<open>The audit log after one \<^verbatim>\<open>Record\<close> of the event, and the outbox after one \<^verbatim>\<open>Enqueue\<close>.\<close>

definition audited :: "audit_ext \<Rightarrow> audit_event \<Rightarrow> audit_row list \<Rightarrow> audit_row list \<Rightarrow> bool" where
  "audited x ev rows rows' \<longleftrightarrow>
     (\<exists>i c. rows' = rows @ [stored_row x ev i c (link_hash (chain_tip (ev_tenant ev) rows))])"

definition queued :: "outbox_event \<Rightarrow> outbox_row list \<Rightarrow> outbox_row list \<Rightarrow> bool" where
  "queued msg rows rows' \<longleftrightarrow> (\<exists>i c. rows' = rows @ [new_outbox_row msg i c])"

lemma record_audit_audited:
  assumes "record_audit x ev e w = (Inr u, e', w')"
  shows "\<exists>rows. w' = w\<lparr>audit_rows := rows\<rparr> \<and> audited x ev (audit_rows w) rows"
proof -
  obtain rows where "w' = w\<lparr>audit_rows := rows\<rparr>" using record_audit_frame(2) [OF assms] by blast
  with record_audit_appends [OF assms] show ?thesis by (auto simp: audited_def intro!: exI [of _ rows])
qed

lemma enqueue_queued:
  assumes "enqueue msg e w = (Inr u, e', w')"
  shows "\<exists>rows. w' = w\<lparr>outbox_rows := rows\<rparr> \<and> queued msg (outbox_rows w) rows"
proof -
  have "\<exists>i c. w' = w\<lparr>outbox_rows := outbox_rows w @ [new_outbox_row msg i c]\<rparr>"
    using assms by (auto simp: enqueue_def io_ok split: if_splits)
  then show ?thesis by (auto simp: queued_def)
qed

text \<open>Without faults and with fresh ids both succeed.\<close>

definition fresh_ids :: "env \<Rightarrow> 'z outbox_db_scheme \<Rightarrow> bool" where
  "fresh_ids e w \<longleftrightarrow> (\<forall>k. e_uuid e k \<notin> set (map ar_id (audit_rows w)) \<and>
     e_uuid e k \<notin> set (map ob_id (outbox_rows w)))"

lemma record_audit_live:
  assumes "no_faults e" and "ev_ip ev = [] \<or> ax_inet x (ev_ip ev) \<noteq> None" and "fresh_ids e w"
  shows "\<exists>e' rows. record_audit x ev e w = (Inr (), e', w\<lparr>audit_rows := rows\<rparr>) \<and> no_faults e' \<and>
     e_uuid e' = e_uuid e"
  using record_audit_runs [of e ev x w] assms by (auto simp: no_faults_def fresh_ids_def)

lemma enqueue_live:
  assumes "no_faults e" and "oe_id msg = 0" and "\<forall>k. e_uuid e k \<notin> set (map ob_id (outbox_rows w))"
  shows "\<exists>e' w'. enqueue msg e w = (Inr (), e', w') \<and> no_faults e'"
  using assms by (auto simp: enqueue_def bind_io_def uuid_new_def time_now_def db_call_def Let_def no_faults_def)

lemma in_tx_live:
  assumes "no_faults e" and "b (next_call e) w = (Inr a, e1, w1)" and "no_faults e1"
  shows "in_tx b e w = (Inr a, next_call e1, w1)"
  using assms by (simp add: in_tx_def no_faults_def)

definition logs_kept :: "'z outbox_db_scheme \<Rightarrow> 'z outbox_db_scheme \<Rightarrow> bool" where
  "logs_kept w w' \<longleftrightarrow> audit_rows w' = audit_rows w \<and> outbox_rows w' = outbox_rows w \<and>
     dlq_rows w' = dlq_rows w"

lemma checked_tx_cases:
  assumes "bind_io (lift_res r) f e w = (res, e', w')"
  obtains err where "r = Inl err" "res = Inl err" "w' = w" | a where "r = Inr a" "f a e w = (res, e', w')"
  using assms by (cases r) (auto simp: bind_io_def lift_res_def fail_def ret_def)

lemma fresh_ids_after:
  "fresh_ids e w \<Longrightarrow> e_uuid e1 = e_uuid (next_call e) \<Longrightarrow> logs_kept w w1 \<Longrightarrow> fresh_ids e1 w1"
  by (simp add: fresh_ids_def logs_kept_def next_call_def)

lemma fresh_ids_empty: "audit_rows w = [] \<Longrightarrow> outbox_rows w = [] \<Longrightarrow> fresh_ids e w"
  by (simp add: fresh_ids_def)

text \<open>An operation is a transaction for a specification: it fails and changes nothing, or does what is specified.\<close>

definition transacts ::
  "('w, 'a) io \<Rightarrow> ('a \<Rightarrow> 'w \<Rightarrow> 'w \<Rightarrow> bool) \<Rightarrow> bool" where
  "transacts op spec \<longleftrightarrow> (\<forall>e w. case op e w of (Inl err, e', w') \<Rightarrow> w' = w | (Inr a, e', w') \<Rightarrow> spec a w w')"

lemma transactsI:
  assumes "\<And>err e e' w w'. op e w = (Inl err, e', w') \<Longrightarrow> w' = w"
    and "\<And>a e e' w w'. op e w = (Inr a, e', w') \<Longrightarrow> spec a w w'"
  shows "transacts op spec"
  using assms by (fastforce simp: transacts_def split: prod.splits sum.splits)

lemma transactsD:
  assumes "transacts op spec"
  shows "op e w = (Inl err, e', w') \<Longrightarrow> w' = w" and "op e w = (Inr a, e', w') \<Longrightarrow> spec a w w'"
proof -
  have c: "case op e w of (Inl err, e', w') \<Rightarrow> w' = w | (Inr a, e', w') \<Rightarrow> spec a w w'"
    using assms by (simp add: transacts_def)
  show "op e w = (Inl err, e', w') \<Longrightarrow> w' = w" "op e w = (Inr a, e', w') \<Longrightarrow> spec a w w'" using c by simp_all
qed

text \<open>Answering after the operation changes nothing; so a handler changes what its operation changes.\<close>

lemma answer_state:
  assumes "bind_io m (\<lambda>a. ret (f a)) e w = (res, e', w')"
  obtains r where "m e w = (r, e', w')"
  using assms by (cases "m e w" rule: prod_cases3; cases "fst (m e w)") (auto simp: bind_io_def ret_def)

locale audited_change =
  fixes x :: audit_ext
    and step :: "('z outbox_db_scheme, 'a) io"
    and ev :: "'a \<Rightarrow> audit_event"
    and rest :: "'a \<Rightarrow> ('z outbox_db_scheme, 'b) io"
    and op :: "('z outbox_db_scheme, 'b) io"
  assumes op_shape: "op = in_tx (bind_io step (\<lambda>a. then_io (record_audit x (ev a)) (rest a)))"
    and step_frame: "step e w = (Inr a, e', w') \<Longrightarrow> logs_kept w w'"
begin

lemma op_atomic: "op e w = (Inl err, e', w') \<Longrightarrow> w' = w"
  unfolding op_shape by (rule atomicD [OF atomic_in_tx])

lemma op_ok:
  assumes "op e w = (Inr b, e', w')"
  obtains a e1 w1 rows e2 e3 where "step (next_call e) w = (Inr a, e1, w1)"
    and "audited x (ev a) (audit_rows w) rows" and "logs_kept w w1"
    and "rest a e2 (w1\<lparr>audit_rows := rows\<rparr>) = (Inr b, e3, w')"
proof -
  from assms [unfolded op_shape] obtain e3 where
    "bind_io step (\<lambda>a. then_io (record_audit x (ev a)) (rest a)) (next_call e) w = (Inr b, e3, w')"
    by (rule in_tx_ok)
  then obtain a e1 w1 u e2 w2 where s: "step (next_call e) w = (Inr a, e1, w1)"
    and r: "record_audit x (ev a) e1 w1 = (Inr u, e2, w2)" and t: "rest a e2 w2 = (Inr b, e3, w')"
    by (auto simp: bind_ok)
  from record_audit_audited [OF r] obtain rows where w2: "w2 = w1\<lparr>audit_rows := rows\<rparr>"
    and "audited x (ev a) (audit_rows w1) rows" by blast
  moreover from step_frame [OF s] have "logs_kept w w1" .
  ultimately have "audited x (ev a) (audit_rows w) rows" by (simp add: logs_kept_def)
  then show thesis using that [OF s _ \<open>logs_kept w w1\<close>] t w2 by simp
qed

end

text \<open>Operations that return right after the audit row.\<close>

locale recorded_change =
  fixes x :: audit_ext
    and step :: "('z outbox_db_scheme, 'a) io"
    and ev :: "'a \<Rightarrow> audit_event"
    and out :: "'a \<Rightarrow> 'b"
    and op :: "('z outbox_db_scheme, 'b) io"
  assumes recorded_shape: "op = in_tx (bind_io step (\<lambda>a. then_io (record_audit x (ev a)) (ret (out a))))"
    and recorded_frame: "step e w = (Inr a, e', w') \<Longrightarrow> logs_kept w w'"

sublocale recorded_change \<subseteq> audited_change x step ev "\<lambda>a. ret (out a)" op
  by unfold_locales (fact recorded_shape, fact recorded_frame)

context recorded_change begin

lemma recorded:
  assumes "op e w = (Inr b, e', w')"
  obtains a e1 w1 rows where "step (next_call e) w = (Inr a, e1, w1)" and "b = out a"
    and "audited x (ev a) (audit_rows w) rows" and "w' = w1\<lparr>audit_rows := rows\<rparr>" and "logs_kept w w1"
  using assms by (rule op_ok) (use that in \<open>auto simp: ret_ok\<close>)

lemma recorded_live:
  assumes "no_faults e" and s: "step (next_call e) w = (Inr a, e1, w1)" and "no_faults e1"
    and "ev_ip (ev a) = [] \<or> ax_inet x (ev_ip (ev a)) \<noteq> None" and "fresh_ids e1 w1"
  shows "\<exists>e' w'. op e w = (Inr (out a), e', w')"
proof -
  from record_audit_live [OF assms(3,4,5)] obtain e2 rows where
    "record_audit x (ev a) e1 w1 = (Inr (), e2, w1\<lparr>audit_rows := rows\<rparr>)" "no_faults e2" by blast
  then show ?thesis using assms(1) s by (simp add: recorded_shape in_tx_live bind_io_def ret_def)
qed

end

text \<open>Operations that also announce the change through the outbox.\<close>

locale announced_change =
  fixes x :: audit_ext
    and step :: "('z outbox_db_scheme, 'a) io"
    and ev :: "'a \<Rightarrow> audit_event"
    and msg :: "'a \<Rightarrow> outbox_event"
    and out :: "'a \<Rightarrow> 'b"
    and op :: "('z outbox_db_scheme, 'b) io"
  assumes announced_shape: "op = in_tx (bind_io step (\<lambda>a.
      then_io (record_audit x (ev a)) (then_io (enqueue (msg a)) (ret (out a)))))"
    and announced_frame: "step e w = (Inr a, e', w') \<Longrightarrow> logs_kept w w'"

sublocale announced_change \<subseteq> audited_change x step ev "\<lambda>a. then_io (enqueue (msg a)) (ret (out a))" op
  by unfold_locales (fact announced_shape, fact announced_frame)

context announced_change begin

lemma announced:
  assumes "op e w = (Inr b, e', w')"
  obtains a e1 w1 rows evs where "step (next_call e) w = (Inr a, e1, w1)" and "b = out a"
    and "audited x (ev a) (audit_rows w) rows" and "queued (msg a) (outbox_rows w) evs"
    and "w' = w1\<lparr>audit_rows := rows, outbox_rows := evs\<rparr>" and "logs_kept w w1"
proof -
  from assms obtain a e1 w1 rows e2 e3 where s: "step (next_call e) w = (Inr a, e1, w1)"
    and au: "audited x (ev a) (audit_rows w) rows" and k: "logs_kept w w1"
    and t: "then_io (enqueue (msg a)) (ret (out a)) e2 (w1\<lparr>audit_rows := rows\<rparr>) = (Inr b, e3, w')"
    by (rule op_ok)
  from t obtain u e4 where q: "enqueue (msg a) e2 (w1\<lparr>audit_rows := rows\<rparr>) = (Inr u, e4, w')" and "b = out a"
    by (auto simp: bind_ok ret_ok)
  moreover from enqueue_queued [OF q] k obtain evs where "queued (msg a) (outbox_rows w) evs"
    and "w' = w1\<lparr>audit_rows := rows, outbox_rows := evs\<rparr>" by (auto simp: logs_kept_def)
  ultimately show thesis using that [OF s] au k by blast
qed

lemma announced_live:
  assumes "no_faults e" and s: "step (next_call e) w = (Inr a, e1, w1)" and "no_faults e1"
    and "ev_ip (ev a) = [] \<or> ax_inet x (ev_ip (ev a)) \<noteq> None" and "oe_id (msg a) = 0" and "fresh_ids e1 w1"
  shows "\<exists>e' w'. op e w = (Inr (out a), e', w')"
proof -
  from record_audit_live [OF assms(3,4,6)] obtain e2 rows where
    r: "record_audit x (ev a) e1 w1 = (Inr (), e2, w1\<lparr>audit_rows := rows\<rparr>)" "no_faults e2"
    and "e_uuid e2 = e_uuid e1" by blast
  with assms(6) enqueue_live [OF r(2) assms(5), of "w1\<lparr>audit_rows := rows\<rparr>"] obtain e3 w3 where
    q: "enqueue (msg a) e2 (w1\<lparr>audit_rows := rows\<rparr>) = (Inr (), e3, w3)" and "no_faults e3"
    by (auto simp: fresh_ids_def)
  then show ?thesis using assms(1) s r(1)
    by (simp add: announced_shape in_tx_live bind_io_def ret_def)
qed

end

end
