(* ===== verification/Abac.thy ===== *)
theory Abac imports AbacCond Audited Rebac "HOL-Library.Word" begin

text \<open>
  The policy store and decision point of \<^verbatim>\<open>internal/access/authorization/abac/abac.go\<close>: creating, reading,
  updating and deleting policies, each change with its audit row and outbox event in one
  transaction, the deny-wins decision, and the handlers. The queries are those of the package's
  \<^verbatim>\<open>queries.sql\<close> on the table of migration 0080.

  Parameters, gathered in \<open>abac_ext\<close>: those of the conditions and of the audit log, the condition as
  Postgres gives back a stored \<^verbatim>\<open>jsonb\<close> value, the text of a policy as event payload, and the text of a validation
  error (it quotes messages of \<^verbatim>\<open>encoding/json\<close>). The order
  in which the table is scanned is the argument \<open>scan\<close>, the collation of names \<open>coll\<close>. The reason and
  the trace of a decision are represented by what their texts are made of.
\<close>

record policy =
  pl_id :: uuid
  pl_tenant :: uuid
  pl_name :: string
  pl_description :: string
  pl_effect :: string
  pl_resource_type :: string
  pl_action :: string
  pl_condition :: json
  pl_priority :: int
  pl_enabled :: bool
  pl_created :: time
  pl_updated :: time

record policy_input =
  pi_name :: string
  pi_description :: string
  pi_effect :: string
  pi_resource_type :: string
  pi_action :: string
  pi_condition :: "json option" \<comment> \<open>none if the member is missing\<close>
  pi_priority :: int
  pi_enabled :: bool

record abac_db = rebac_db +
  abac_policies :: "policy list"

record abac_ext =
  ab_cond :: cond_ext
  ab_audit :: audit_ext
  ab_jsonb :: "json \<Rightarrow> json"
  ab_payload :: "policy \<Rightarrow> string"
  ab_error :: "cond_error \<Rightarrow> string" \<comment> \<open>the text of a validation error\<close>

section \<open>The queries\<close>

text \<open>\<^verbatim>\<open>int32(in.Priority)\<close>.\<close>

definition to_int32 :: "int \<Rightarrow> int" where
  "to_int32 i = sint (word_of_int i :: 32 word)"

definition name_taken :: "uuid \<Rightarrow> uuid \<Rightarrow> string \<Rightarrow> policy list \<Rightarrow> bool" where
  "name_taken i tenant name ps \<longleftrightarrow>
     (\<exists>p \<in> set ps. pl_tenant p = tenant \<and> pl_name p = name \<and> pl_id p \<noteq> i)"

definition insert_policy :: "policy \<Rightarrow> policy list \<Rightarrow> go_error + policy list" where
  "insert_policy p ps =
     (if pl_effect p \<noteq> ''allow'' \<and> pl_effect p \<noteq> ''deny'' then Inl check_violation
      else if pl_id p \<in> set (map pl_id ps) \<or> name_taken (pl_id p) (pl_tenant p) (pl_name p) ps
      then Inl unique_violation
      else Inr (ps @ [p]))"

definition find_policy :: "uuid \<Rightarrow> uuid \<Rightarrow> policy list \<Rightarrow> policy option" where
  "find_policy i tenant ps = List.find (\<lambda>p. pl_id p = i \<and> pl_tenant p = tenant) ps"

definition store_policy :: "policy \<Rightarrow> policy list \<Rightarrow> go_error + policy list" where
  "store_policy p ps =
     (if pl_effect p \<noteq> ''allow'' \<and> pl_effect p \<noteq> ''deny'' then Inl check_violation
      else if name_taken (pl_id p) (pl_tenant p) (pl_name p) ps then Inl unique_violation
      else Inr (map (\<lambda>q. if pl_id q = pl_id p \<and> pl_tenant q = pl_tenant p then p else q) ps))"

definition evaluation_candidates ::
  "(policy list \<Rightarrow> policy list) \<Rightarrow> uuid \<Rightarrow> string \<Rightarrow> string \<Rightarrow> policy list \<Rightarrow> policy list" where
  "evaluation_candidates scan tenant rtype action ps =
     sort_key (\<lambda>p. - pl_priority p)
       (filter (\<lambda>p. pl_tenant p = tenant \<and> pl_enabled p \<and>
          (pl_resource_type p = rtype \<or> pl_resource_type p = ''*'') \<and>
          (pl_action p = action \<or> pl_action p = ''*'')) (scan ps))"

section \<open>Changing policies\<close>

definition unprocessable :: "string \<Rightarrow> go_error" where
  "unprocessable detail = ApiErr (with_detail ErrUnprocessable detail)"

text \<open>The checks at the head of \<^verbatim>\<open>Create\<close> and \<^verbatim>\<open>Update\<close>; the condition to store, or the error.\<close>

definition check_input :: "abac_ext \<Rightarrow> policy_input \<Rightarrow> go_error + json" where
  "check_input x inp =
     (if trim_space (pi_name inp) = [] then Inl (unprocessable ''name is required'')
      else if pi_effect inp \<noteq> ''allow'' \<and> pi_effect inp \<noteq> ''deny'' then
        Inl (unprocessable (''effect must be '' @ [CHR 0x27] @ ''allow'' @ [CHR 0x27] @ '' or '' @
           [CHR 0x27] @ ''deny'' @ [CHR 0x27]))
      else if trim_space (pi_resource_type inp) = [] then Inl (unprocessable ''resource_type is required'')
      else if trim_space (pi_action inp) = [] then Inl (unprocessable ''action is required'')
      else
        let cond = (case pi_condition inp of None \<Rightarrow> JObj [] | Some c \<Rightarrow> c) in
        (case validate_condition cond of
           Some e \<Rightarrow> Inl (unprocessable (''condition: '' @ ab_error x e))
         | None \<Rightarrow> Inr cond))"

definition name_conflict :: "go_error \<Rightarrow> go_error" where
  "name_conflict e =
     (if is_unique e then
        ApiErr (with_detail ErrConflict ''a policy with that name already exists in this tenant'')
      else e)"

definition policy_metadata :: "policy \<Rightarrow> string" where
  "policy_metadata p = json_object [(''action'', json_quote (pl_action p)),
     (''effect'', json_quote (pl_effect p)), (''name'', json_quote (pl_name p)),
     (''resource_type'', json_quote (pl_resource_type p))]"

definition policy_event :: "abac_ext \<Rightarrow> string \<Rightarrow> policy \<Rightarrow> outbox_event" where
  "policy_event x etype p = \<lparr>oe_id = 0, oe_aggregate = pl_id p, oe_topic = ''abac.events'',
     oe_event_type = etype, oe_payload = ab_payload x p\<rparr>"

definition create_row ::
  "abac_ext \<Rightarrow> uuid \<Rightarrow> policy_input \<Rightarrow> json \<Rightarrow> ('z abac_db_scheme, policy) io" where
  "create_row x tenant inp cond =
     on_error
       (bind_io uuid_new (\<lambda>i.
        bind_io time_now (\<lambda>now.
        db_call (\<lambda>w.
          let p = \<lparr>pl_id = i, pl_tenant = tenant, pl_name = pi_name inp,
                   pl_description = pi_description inp, pl_effect = pi_effect inp,
                   pl_resource_type = pi_resource_type inp, pl_action = pi_action inp,
                   pl_condition = ab_jsonb x cond, pl_priority = to_int32 (pi_priority inp),
                   pl_enabled = pi_enabled inp, pl_created = now, pl_updated = now\<rparr> in
          (case insert_policy p (abac_policies w) of
             Inl e \<Rightarrow> (Inl e, w)
           | Inr ps \<Rightarrow> (Inr p, w\<lparr>abac_policies := ps\<rparr>))))))
       (\<lambda>e. fail (name_conflict e))"

definition create_tx ::
  "abac_ext \<Rightarrow> uuid \<Rightarrow> policy_input \<Rightarrow> json \<Rightarrow> actor \<Rightarrow> ('z abac_db_scheme, policy) io" where
  "create_tx x tenant inp cond who = in_tx
     (bind_io (create_row x tenant inp cond) (\<lambda>p.
      then_io
        (record_audit (ab_audit x)
          (tenant_event who tenant ''abac_policy.created'' ''abac_policy'' (pl_id p) (policy_metadata p)))
      (then_io (enqueue (policy_event x ''abac_policy.created'' p))
        (ret p))))"

definition create_policy ::
  "abac_ext \<Rightarrow> uuid \<Rightarrow> policy_input \<Rightarrow> actor \<Rightarrow> ('z abac_db_scheme, policy) io" where
  "create_policy x tenant inp who =
     bind_io (lift_res (check_input x inp)) (\<lambda>cond. create_tx x tenant inp cond who)"

definition get_policy :: "uuid \<Rightarrow> uuid \<Rightarrow> ('z abac_db_scheme, policy) io" where
  "get_policy i tenant =
     bind_io (db_read (\<lambda>w. find_policy i tenant (abac_policies w)))
       (\<lambda>r. case r of None \<Rightarrow> fail (ApiErr ErrNotFound) | Some p \<Rightarrow> ret p)"

definition list_policies ::
  "(string \<Rightarrow> nat list) \<Rightarrow> uuid \<Rightarrow> ('z abac_db_scheme, policy list) io" where
  "list_policies coll tenant =
     db_read (\<lambda>w. sort_key (\<lambda>p. (- pl_priority p, coll (pl_name p)))
       (filter (\<lambda>p. pl_tenant p = tenant) (abac_policies w)))"

definition update_row_of ::
  "abac_ext \<Rightarrow> uuid \<Rightarrow> uuid \<Rightarrow> policy_input \<Rightarrow> json \<Rightarrow> ('z abac_db_scheme, policy) io" where
  "update_row_of x i tenant inp cond =
     on_error
       (bind_io time_now (\<lambda>now.
        db_call (\<lambda>w. case find_policy i tenant (abac_policies w) of
            None \<Rightarrow> (Inl ErrNoRows, w)
          | Some old \<Rightarrow>
              let p = old\<lparr>pl_name := pi_name inp, pl_description := pi_description inp,
                    pl_effect := pi_effect inp, pl_resource_type := pi_resource_type inp,
                    pl_action := pi_action inp, pl_condition := ab_jsonb x cond,
                    pl_priority := to_int32 (pi_priority inp),
                    pl_enabled := pi_enabled inp, pl_updated := now\<rparr> in
              (case store_policy p (abac_policies w) of
                 Inl e \<Rightarrow> (Inl e, w)
               | Inr ps \<Rightarrow> (Inr p, w\<lparr>abac_policies := ps\<rparr>)))))
       (\<lambda>e. fail (if e = ErrNoRows then ApiErr ErrNotFound else name_conflict e))"

definition update_tx ::
  "abac_ext \<Rightarrow> uuid \<Rightarrow> uuid \<Rightarrow> policy_input \<Rightarrow> json \<Rightarrow> actor \<Rightarrow> ('z abac_db_scheme, policy) io" where
  "update_tx x i tenant inp cond who = in_tx
     (bind_io (update_row_of x i tenant inp cond) (\<lambda>p.
      then_io
        (record_audit (ab_audit x)
          (tenant_event who tenant ''abac_policy.updated'' ''abac_policy'' (pl_id p) (policy_metadata p)))
      (then_io (enqueue (policy_event x ''abac_policy.updated'' p))
        (ret p))))"

definition update_policy ::
  "abac_ext \<Rightarrow> uuid \<Rightarrow> uuid \<Rightarrow> policy_input \<Rightarrow> actor \<Rightarrow> ('z abac_db_scheme, policy) io" where
  "update_policy x i tenant inp who =
     bind_io (lift_res (check_input x inp)) (\<lambda>cond. update_tx x i tenant inp cond who)"

definition deleted_payload :: "abac_ext \<Rightarrow> uuid \<Rightarrow> uuid \<Rightarrow> string \<Rightarrow> string" where
  "deleted_payload x i tenant name = json_object [(''id'', json_quote (ax_uuid (ab_audit x) i)),
     (''name'', json_quote name), (''tenant_id'', json_quote (ax_uuid (ab_audit x) tenant))]"

definition delete_row :: "uuid \<Rightarrow> uuid \<Rightarrow> ('z abac_db_scheme, string) io" where
  "delete_row i tenant =
     on_error
       (db_call (\<lambda>w. case find_policy i tenant (abac_policies w) of
          None \<Rightarrow> (Inl ErrNoRows, w)
        | Some p \<Rightarrow> (Inr (pl_name p), w\<lparr>abac_policies :=
            filter (\<lambda>q. \<not> (pl_id q = i \<and> pl_tenant q = tenant)) (abac_policies w)\<rparr>)))
       (\<lambda>e. fail (if e = ErrNoRows then ApiErr ErrNotFound else e))"

definition delete_policy ::
  "abac_ext \<Rightarrow> uuid \<Rightarrow> uuid \<Rightarrow> actor \<Rightarrow> ('z abac_db_scheme, unit) io" where
  "delete_policy x i tenant who = in_tx
     (bind_io (delete_row i tenant) (\<lambda>name.
      then_io
        (record_audit (ab_audit x)
          (tenant_event who tenant ''abac_policy.deleted'' ''abac_policy'' i
            (json_object [(''name'', json_quote name)])))
      (then_io
        (enqueue \<lparr>oe_id = 0, oe_aggregate = i, oe_topic = ''abac.events'',
          oe_event_type = ''abac_policy.deleted'', oe_payload = deleted_payload x i tenant name\<rparr>)
        (ret ()))))"

section \<open>The decision\<close>

record evaluation_input =
  ei_subject :: "(string \<times> json) list"
  ei_rtype :: string
  ei_rid :: string
  ei_rattrs :: "(string \<times> json) list"
  ei_action :: string
  ei_context :: "(string \<times> json) list"

datatype reason =
    ConditionError string cond_error
  | DeniedBy string int
  | AllowedBy string int
  | NoMatchingAllow

datatype trace_entry =
    TraceError string cond_error
  | TraceMatched string string int
  | TraceNotMatched string string int
  | TraceDefaultDeny

record decision =
  de_allow :: bool
  de_effect :: string
  de_matched :: "uuid option"
  de_reason :: reason
  de_trace :: "trace_entry list"

definition attribute_bag_of :: "evaluation_input \<Rightarrow> attribute_bag" where
  "attribute_bag_of inp =
     [(''subject'', ei_subject inp),
      (''resource'', [(''type'', JStr (ei_rtype inp)), (''id'', JStr (ei_rid inp))] @ ei_rattrs inp),
      (''context'', ei_context inp)]"

text \<open>
  The loop over the candidates: the first deny and the first allow with their reasons, and the
  trace; \<open>None\<close> if a condition panics.
\<close>

fun eval_loop ::
  "cond_ext \<Rightarrow> attribute_bag \<Rightarrow> (uuid \<times> reason) option \<Rightarrow> (uuid \<times> reason) option \<Rightarrow>
   trace_entry list \<Rightarrow> policy list \<Rightarrow>
   ((uuid \<times> reason) option \<times> (uuid \<times> reason) option \<times> trace_entry list) option" where
  "eval_loop x bag den alw tr [] = Some (den, alw, tr)"
| "eval_loop x bag den alw tr (p # ps) =
     (case evaluate_condition x (pl_condition p) bag of
        Panicked \<Rightarrow> None
      | Failed e \<Rightarrow>
          eval_loop x bag
            (if den = None then Some (pl_id p, ConditionError (pl_name p) e) else den) alw
            (tr @ [TraceError (pl_name p) e]) ps
      | Val True \<Rightarrow>
          (let tr' = tr @ [TraceMatched (pl_name p) (pl_effect p) (pl_priority p)] in
           if pl_effect p = ''deny'' \<and> den = None then
             eval_loop x bag (Some (pl_id p, DeniedBy (pl_name p) (pl_priority p))) alw tr' ps
           else if pl_effect p = ''allow'' \<and> alw = None then
             eval_loop x bag den (Some (pl_id p, AllowedBy (pl_name p) (pl_priority p))) tr' ps
           else eval_loop x bag den alw tr' ps)
      | Val False \<Rightarrow>
          eval_loop x bag den alw
            (tr @ [TraceNotMatched (pl_name p) (pl_effect p) (pl_priority p)]) ps)"

definition decide :: "cond_ext \<Rightarrow> attribute_bag \<Rightarrow> policy list \<Rightarrow> decision option" where
  "decide x bag ps =
     (case eval_loop x bag None None [] ps of
        None \<Rightarrow> None
      | Some (Some (i, why), _, tr) \<Rightarrow>
          Some \<lparr>de_allow = False, de_effect = ''deny'', de_matched = Some i, de_reason = why, de_trace = tr\<rparr>
      | Some (None, Some (i, why), tr) \<Rightarrow>
          Some \<lparr>de_allow = True, de_effect = ''allow'', de_matched = Some i, de_reason = why, de_trace = tr\<rparr>
      | Some (None, None, tr) \<Rightarrow>
          Some \<lparr>de_allow = False, de_effect = ''deny'', de_matched = None, de_reason = NoMatchingAllow,
                de_trace = tr @ [TraceDefaultDeny]\<rparr>)"

definition evaluate ::
  "abac_ext \<Rightarrow> (policy list \<Rightarrow> policy list) \<Rightarrow> uuid \<Rightarrow> evaluation_input \<Rightarrow>
   ('z abac_db_scheme, decision) io" where
  "evaluate x scan tenant inp =
     (if trim_space (ei_action inp) = [] then fail (unprocessable ''action is required'')
      else
        bind_io (db_read (\<lambda>w. evaluation_candidates scan tenant (ei_rtype inp) (ei_action inp)
                   (abac_policies w)))
          (\<lambda>ps. case decide (ab_cond x) (attribute_bag_of inp) ps of
                  None \<Rightarrow> fail GoPanic
                | Some d \<Rightarrow> ret d))"

section \<open>The handlers\<close>

definition actor_of :: "request \<Rightarrow> actor" where
  "actor_of r =
     (let a = \<lparr>a_user_id = None, a_type = ''user'', a_ip = client_ip r,
               a_user_agent = header_get r ''User-Agent'', a_request_id = rq_id r\<rparr> in
      case rq_principal r of
        None \<Rightarrow> a
      | Some p \<Rightarrow>
          a\<lparr>a_user_id := p_user_id p,
            a_type := (if p_actor_type p \<noteq> [] then p_actor_type p else a_type a)\<rparr>)"

datatype abac_body =
    Policies "policy list"
  | OnePolicy policy
  | NoBody
  | DecisionBody decision

definition path_id :: "(string \<Rightarrow> uuid option) \<Rightarrow> request \<Rightarrow> go_error + uuid" where
  "path_id pu r =
     (case pu (url_param r ''id'') of
        None \<Rightarrow> Inl (ApiErr (with_detail ErrBadRequest ''invalid id''))
      | Some i \<Rightarrow> Inr i)"

definition abac_list_handler ::
  "(string \<Rightarrow> uuid option) \<Rightarrow> (string \<Rightarrow> nat list) \<Rightarrow> request \<Rightarrow> ('z abac_db_scheme, nat \<times> abac_body) io" where
  "abac_list_handler pu coll r =
     bind_io (lift_res (require_path_tenant pu r)) (\<lambda>tenant.
     bind_io (list_policies coll tenant) (\<lambda>ps. ret (200, Policies ps)))"

definition abac_create_handler ::
  "abac_ext \<Rightarrow> (string \<Rightarrow> uuid option) \<Rightarrow> request \<Rightarrow> go_error + policy_input \<Rightarrow>
   ('z abac_db_scheme, nat \<times> abac_body) io" where
  "abac_create_handler x pu r body =
     bind_io (lift_res (require_path_tenant pu r)) (\<lambda>tenant.
     bind_io (lift_res body) (\<lambda>inp.
     bind_io (create_policy x tenant inp (actor_of r)) (\<lambda>p. ret (201, OnePolicy p))))"

definition abac_get_handler ::
  "(string \<Rightarrow> uuid option) \<Rightarrow> request \<Rightarrow> ('z abac_db_scheme, nat \<times> abac_body) io" where
  "abac_get_handler pu r =
     bind_io (lift_res (require_path_tenant pu r)) (\<lambda>tenant.
     bind_io (lift_res (path_id pu r)) (\<lambda>i.
     bind_io (get_policy i tenant) (\<lambda>p. ret (200, OnePolicy p))))"

definition abac_update_handler ::
  "abac_ext \<Rightarrow> (string \<Rightarrow> uuid option) \<Rightarrow> request \<Rightarrow> go_error + policy_input \<Rightarrow>
   ('z abac_db_scheme, nat \<times> abac_body) io" where
  "abac_update_handler x pu r body =
     bind_io (lift_res (require_path_tenant pu r)) (\<lambda>tenant.
     bind_io (lift_res (path_id pu r)) (\<lambda>i.
     bind_io (lift_res body) (\<lambda>inp.
     bind_io (update_policy x i tenant inp (actor_of r)) (\<lambda>p. ret (200, OnePolicy p)))))"

definition abac_delete_handler ::
  "abac_ext \<Rightarrow> (string \<Rightarrow> uuid option) \<Rightarrow> request \<Rightarrow> ('z abac_db_scheme, nat \<times> abac_body) io" where
  "abac_delete_handler x pu r =
     bind_io (lift_res (require_path_tenant pu r)) (\<lambda>tenant.
     bind_io (lift_res (path_id pu r)) (\<lambda>i.
     then_io (delete_policy x i tenant (actor_of r)) (ret (204, NoBody))))"

definition abac_evaluate_handler ::
  "abac_ext \<Rightarrow> (policy list \<Rightarrow> policy list) \<Rightarrow> (string \<Rightarrow> uuid option) \<Rightarrow> request \<Rightarrow>
   go_error + evaluation_input \<Rightarrow> ('z abac_db_scheme, nat \<times> abac_body) io" where
  "abac_evaluate_handler x scan pu r body =
     bind_io (lift_res (require_path_tenant pu r)) (\<lambda>tenant.
     bind_io (lift_res body) (\<lambda>inp.
     bind_io (evaluate x scan tenant inp) (\<lambda>d.
       ret (200, DecisionBody
         (if query_get r ''explain'' \<noteq> ''true'' then d\<lparr>de_trace := []\<rparr> else d)))))"

end
