(* ===== verification/AbacMeaning.thy ===== *)
theory AbacMeaning imports AbacCond begin

text \<open>
  What a condition means: a reference definition without short circuits, evaluation order or error
  values, which the evaluation of \<^verbatim>\<open>abac.go\<close> agrees with; and which errors an accepted condition can
  still end in.
\<close>

section \<open>Errors of accepted conditions\<close>

fun root_cause :: "cond_error \<Rightarrow> cond_error" where
  "root_cause (AllItem i e) = root_cause e"
| "root_cause (AnyItem i e) = root_cause e"
| "root_cause (NotItem e) = root_cause e"
| "root_cause e = e"

definition data_errors :: "cond_error set" where
  "data_errors = {InNeedsArray, NinNeedsArray, ValueUndecodable}"

lemma go_eq_not_Failed [simp]: "go_eq a b \<noteq> Failed e"
  by (cases "(a, b)" rule: go_eq.cases) auto

lemma equal_values_not_Failed [simp]: "equal_values x a b \<noteq> Failed e"
  by (auto simp: equal_values_def split: outcome.splits bool.splits option.splits)

lemma some_equal_not_Failed: "(\<And>v. eq v \<noteq> Failed e) \<Longrightarrow> some_equal eq vs \<noteq> Failed e"
  by (induction vs) (auto split: outcome.splits bool.splits)

lemma compare_op_errors:
  assumes "compare_op x op a v = Failed e" and "op \<in> set valid_ops" and "op \<noteq> ''exists''"
  shows "e \<in> data_errors"
proof -
  have n: "map_outcome f r = Failed e \<longleftrightarrow> r = Failed e" for f :: "bool \<Rightarrow> bool" and r
    by (cases r) (auto simp: map_outcome_def)
  have "numeric c a v \<noteq> Failed e" "contains_value x a v \<noteq> Failed e" "regex_value x a v \<noteq> Failed e" for c
    by (auto simp: numeric_def contains_value_def regex_value_def some_equal_not_Failed
        split: option.splits json.splits)
  with assms show ?thesis
    by (auto simp: compare_op_def valid_ops_def data_errors_def n some_equal_not_Failed
        split: if_splits option.splits)
qed

lemma eval_leaf_errors:
  assumes "eval_leaf x bag m = Failed e" and "validate_leaf m = None"
  shows "e \<in> data_errors"
  using assms compare_op_errors
  by (auto simp: eval_leaf_def validate_leaf_def data_errors_def split: option.splits if_splits)

lemma validate_items_None:
  "validate_items wrap i cs = None \<longleftrightarrow> (\<forall>c \<in> set cs. validate_condition c = None)"
  by (induction cs arbitrary: i) (auto split: option.splits)

lemma validated_errors:
  shows "\<forall>e. validate_condition raw = None \<longrightarrow> eval_node x bag raw = Failed e \<longrightarrow> root_cause e \<in> data_errors"
    and "\<forall>e. (\<forall>c \<in> set cs. validate_condition c = None) \<longrightarrow> eval_all x bag i cs = Failed e \<longrightarrow>
           root_cause e \<in> data_errors"
    and "\<forall>e. (\<forall>c \<in> set ds. validate_condition c = None) \<longrightarrow> eval_any x bag k ds = Failed e \<longrightarrow>
           root_cause e \<in> data_errors"
proof (induction x bag raw and x bag i cs and x bag k ds rule: eval_node_eval_all_eval_any.induct)
  case (1 x bag raw)
  have leaf: "root_cause e \<in> data_errors" if "eval_leaf x bag m = Failed e" "validate_leaf m = None" for m e
    using eval_leaf_errors [OF that] by (auto simp: data_errors_def)
  show ?case
  proof (intro allI impI)
    fix e
    assume v: "validate_condition raw = None" and f: "eval_node x bag raw = Failed e"
    show "root_cause e \<in> data_errors"
    proof (cases "decode_members raw")
      case None
      with v f show ?thesis
        by (subst (asm) validate_condition.simps) (auto simp: eval_node.simps [of x bag raw] split: if_splits)
    next
      case (Some m)
      with v f 1 leaf show ?thesis
        by (subst (asm) validate_condition.simps)
           (auto simp: eval_node.simps [of x bag raw] validate_items_None split: if_splits option.splits outcome.splits)
    qed
  qed
qed (auto split: outcome.splits bool.splits)

section \<open>The meaning of a condition\<close>

definition list_items :: "json \<Rightarrow> json list" where
  "list_items j = (case decode_list j of None \<Rightarrow> [] | Some cs \<Rightarrow> cs)"

lemma decode_members_item_size:
  assumes "decode_members raw = Some m" and "alookup k m = Some j"
    and "c \<in> set (list_items j)"
  shows "size c < size raw"
proof -
  from assms(3) obtain cs where cs: "decode_list j = Some cs" "c \<in> set cs"
    by (cases "decode_list j") (auto simp: list_items_def)
  have "size_list size cs < size raw" by (rule decode_members_list_size [OF assms(1,2) cs(1)])
  moreover have "size c < size_list size cs" by (rule size_list_mem [OF cs(2)])
  ultimately show ?thesis by simp
qed

function condition_holds :: "cond_ext \<Rightarrow> attribute_bag \<Rightarrow> json \<Rightarrow> bool" where
  "condition_holds x bag raw =
     (raw = JNull \<or> raw = JObj [] \<or>
      (case decode_members raw of
         None \<Rightarrow> False
       | Some m \<Rightarrow>
           (case alookup ''all'' m of
              Some j \<Rightarrow> (\<forall>c \<in> set (list_items j). condition_holds x bag c)
            | None \<Rightarrow>
           (case alookup ''any'' m of
              Some j \<Rightarrow> (\<exists>c \<in> set (list_items j). condition_holds x bag c)
            | None \<Rightarrow>
           (case alookup ''not'' m of
              Some j \<Rightarrow> \<not> condition_holds x bag j
            | None \<Rightarrow> eval_leaf x bag m = Val True)))))"
  by pat_completeness auto
termination
  by (relation "measure (\<lambda>(_, _, raw). size raw)")
     (auto dest: decode_members_lookup_size decode_members_item_size)

declare condition_holds.simps [simp del]

lemma eval_meaning:
  shows "\<forall>b. eval_node x bag raw = Val b \<longrightarrow> condition_holds x bag raw = b"
    and "\<forall>b. eval_all x bag i cs = Val b \<longrightarrow> (\<forall>c \<in> set cs. condition_holds x bag c) = b"
    and "\<forall>b. eval_any x bag k ds = Val b \<longrightarrow> (\<exists>c \<in> set ds. condition_holds x bag c) = b"
proof (induction x bag raw and x bag i cs and x bag k ds rule: eval_node_eval_all_eval_any.induct)
  case (1 x bag raw)
  show ?case
  proof (intro allI impI)
    fix b
    assume f: "eval_node x bag raw = Val b"
    show "condition_holds x bag raw = b"
    proof (cases "raw = JNull \<or> raw = JObj []")
      case True
      with f show ?thesis by (auto simp: eval_node.simps [of x bag raw] condition_holds.simps [of x bag raw])
    next
      case False
      with f obtain m where m: "decode_members raw = Some m"
        by (auto simp: eval_node.simps [of x bag raw] split: option.splits)
      from f False m consider
          (all) j cs where "alookup ''all'' m = Some j" "decode_list j = Some cs" "eval_all x bag 0 cs = Val b"
        | (any) j cs where "alookup ''all'' m = None" "alookup ''any'' m = Some j" "decode_list j = Some cs"
            "eval_any x bag 0 cs = Val b"
        | (neg) j c where "alookup ''all'' m = None" "alookup ''any'' m = None" "alookup ''not'' m = Some j"
            "eval_node x bag j = Val c" "b = (\<not> c)"
        | (leaf) "alookup ''all'' m = None" "alookup ''any'' m = None" "alookup ''not'' m = None"
            "eval_leaf x bag m = Val b"
        by (auto simp: eval_node.simps [of x bag raw] split: option.splits outcome.splits)
      then show ?thesis
      proof cases
        case all
        with 1 False m show ?thesis by (simp add: condition_holds.simps [of x bag raw] list_items_def)
      next
        case any
        with 1 False m show ?thesis by (simp add: condition_holds.simps [of x bag raw] list_items_def)
      next
        case neg
        with 1 False m show ?thesis by (simp add: condition_holds.simps [of x bag raw])
      next
        case leaf
        with False m show ?thesis by (simp add: condition_holds.simps [of x bag raw])
      qed
    qed
  qed
qed (auto split: outcome.splits bool.splits)

end
