(* ===== verification/AbacChanges.thy ===== *)
theory AbacChanges imports AbacProps begin

text \<open>
  The operations that change policies refine an abstract change of the table: one transaction with the
  change, its audit row and its event, or nothing; and they keep the table well-formed and the other
  tenants' policies as they are.
\<close>

section \<open>The row changes\<close>

datatype policy_change = Created policy | Updated policy | Deleted uuid uuid

fun apply_change :: "policy_change \<Rightarrow> policy list \<Rightarrow> policy list" where
  "apply_change (Created p) ps = ps @ [p]"
| "apply_change (Updated p) ps = map (\<lambda>q. if pl_id q = pl_id p \<and> pl_tenant q = pl_tenant p then p else q) ps"
| "apply_change (Deleted i t) ps = filter (\<lambda>q. \<not> (pl_id q = i \<and> pl_tenant q = t)) ps"

fun change_tenant :: "policy_change \<Rightarrow> uuid" where
  "change_tenant (Created p) = pl_tenant p"
| "change_tenant (Updated p) = pl_tenant p"
| "change_tenant (Deleted i t) = t"

text \<open>What a policy takes from the input, whatever its id and its times.\<close>

definition carries :: "abac_ext \<Rightarrow> uuid \<Rightarrow> policy_input \<Rightarrow> json \<Rightarrow> policy \<Rightarrow> bool" where
  "carries x tenant inp cond p \<longleftrightarrow> pl_tenant p = tenant \<and> pl_name p = pi_name inp \<and>
     pl_description p = pi_description inp \<and> pl_effect p = pi_effect inp \<and>
     pl_resource_type p = pi_resource_type inp \<and> pl_action p = pi_action inp \<and>
     pl_condition p = ab_jsonb x cond \<and> pl_priority p = to_int32 (pi_priority inp) \<and>
     pl_enabled p = pi_enabled inp"

lemma find_policy_Some:
  "find_policy i tenant ps = Some p \<Longrightarrow> p \<in> set ps \<and> pl_id p = i \<and> pl_tenant p = tenant"
  by (auto simp: find_policy_def find_Some_iff)

lemma create_row_ok:
  assumes "create_row x tenant inp cond e w = (Inr p, e', w')"
  shows "w' = w\<lparr>abac_policies := apply_change (Created p) (abac_policies w)\<rparr>"
    and "carries x tenant inp cond p" and "insert_policy p (abac_policies w) = Inr (abac_policies w @ [p])"
  using assms
  by (auto simp: create_row_def carries_def io_ok insert_policy_def Let_def split: sum.splits if_splits)

lemma update_row_of_ok:
  assumes "update_row_of x i tenant inp cond e w = (Inr p, e', w')"
  shows "w' = w\<lparr>abac_policies := apply_change (Updated p) (abac_policies w)\<rparr>"
    and "carries x tenant inp cond p" and "pl_id p = i" and "i \<in> set (map pl_id (abac_policies w))"
    and "store_policy p (abac_policies w) = Inr (apply_change (Updated p) (abac_policies w))"
proof -
  from assms obtain old ps where o: "find_policy i tenant (abac_policies w) = Some old"
    and s: "store_policy p (abac_policies w) = Inr ps" and w': "w' = w\<lparr>abac_policies := ps\<rparr>"
    and c: "pl_tenant old = tenant \<longrightarrow> carries x tenant inp cond p"
    and i: "pl_id p = pl_id old" "pl_tenant p = pl_tenant old"
    by (auto simp: update_row_of_def carries_def io_ok Let_def split: sum.splits if_splits option.splits)
  note f = find_policy_Some [OF o]
  have ps: "ps = apply_change (Updated p) (abac_policies w)"
    using s by (auto simp: store_policy_def split: if_splits)
  show "w' = w\<lparr>abac_policies := apply_change (Updated p) (abac_policies w)\<rparr>" using w' ps by simp
  show "carries x tenant inp cond p" "pl_id p = i" using c f i by simp_all
  show "i \<in> set (map pl_id (abac_policies w))" using f by auto
  show "store_policy p (abac_policies w) = Inr (apply_change (Updated p) (abac_policies w))"
    using s ps by simp
qed

lemma delete_row_ok:
  assumes "delete_row i tenant e w = (Inr name, e', w')"
  shows "w' = w\<lparr>abac_policies := apply_change (Deleted i tenant) (abac_policies w)\<rparr>"
    and "\<exists>p. find_policy i tenant (abac_policies w) = Some p \<and> name = pl_name p"
  using assms by (auto simp: delete_row_def io_ok split: option.splits if_splits)

section \<open>The transactions\<close>

lemma logs_kept_policies: "w' = w\<lparr>abac_policies := ps\<rparr> \<Longrightarrow> logs_kept w w'"
  by (simp add: logs_kept_def)

interpretation creating: announced_change "ab_audit x" "create_row x tenant inp cond"
    "\<lambda>p. tenant_event who tenant ''abac_policy.created'' ''abac_policy'' (pl_id p) (policy_metadata p)"
    "\<lambda>p. policy_event x ''abac_policy.created'' p" "\<lambda>p. p" "create_tx x tenant inp cond who"
  by unfold_locales (rule create_tx_def, erule logs_kept_policies [OF create_row_ok(1)])

interpretation updating: announced_change "ab_audit x" "update_row_of x i tenant inp cond"
    "\<lambda>p. tenant_event who tenant ''abac_policy.updated'' ''abac_policy'' (pl_id p) (policy_metadata p)"
    "\<lambda>p. policy_event x ''abac_policy.updated'' p" "\<lambda>p. p" "update_tx x i tenant inp cond who"
  by unfold_locales (rule update_tx_def, erule logs_kept_policies [OF update_row_of_ok(1)])

interpretation deleting: announced_change "ab_audit x" "delete_row i tenant"
    "\<lambda>name. tenant_event who tenant ''abac_policy.deleted'' ''abac_policy'' i
       (json_object [(''name'', json_quote name)])"
    "\<lambda>name. \<lparr>oe_id = 0, oe_aggregate = i, oe_topic = ''abac.events'',
         oe_event_type = ''abac_policy.deleted'', oe_payload = deleted_payload x i tenant name\<rparr>"
    "\<lambda>name. ()" "delete_policy x i tenant who"
  by unfold_locales (rule delete_policy_def, erule logs_kept_policies [OF delete_row_ok(1)])

text \<open>The stored state after a change: the table changed, one audit row and one event more.\<close>

definition changed ::
  "audit_ext \<Rightarrow> audit_event \<Rightarrow> outbox_event \<Rightarrow> policy_change \<Rightarrow> 'z abac_db_scheme \<Rightarrow> 'z abac_db_scheme \<Rightarrow> bool"
  where
  "changed x ev msg c w w' \<longleftrightarrow> (\<exists>rows evs. audited x ev (audit_rows w) rows \<and>
     queued msg (outbox_rows w) evs \<and>
     w' = w\<lparr>abac_policies := apply_change c (abac_policies w), audit_rows := rows, outbox_rows := evs\<rparr>)"

lemma create_policy_refines:
  assumes "create_policy x tenant inp who e w = (Inr p, e', w')"
  shows "\<exists>cond. check_input x inp = Inr cond \<and> carries x tenant inp cond p \<and>
     insert_policy p (abac_policies w) = Inr (abac_policies w @ [p]) \<and>
     changed (ab_audit x)
       (tenant_event who tenant ''abac_policy.created'' ''abac_policy'' (pl_id p) (policy_metadata p))
       (policy_event x ''abac_policy.created'' p) (Created p) w w'"
proof -
  from assms obtain cond where c: "check_input x inp = Inr cond"
    and r: "create_tx x tenant inp cond who e w = (Inr p, e', w')"
    unfolding create_policy_def by (rule checked_tx_cases) simp_all
  from creating.announced [OF r] obtain e1 w1 rows evs where
    s: "create_row x tenant inp cond (next_call e) w = (Inr p, e1, w1)"
    and l: "audited (ab_audit x)
       (tenant_event who tenant ''abac_policy.created'' ''abac_policy'' (pl_id p) (policy_metadata p)) (audit_rows w) rows"
      "queued (policy_event x ''abac_policy.created'' p) (outbox_rows w) evs"
      "w' = w1\<lparr>audit_rows := rows, outbox_rows := evs\<rparr>"
    by metis
  with create_row_ok [OF s] c show ?thesis unfolding changed_def by auto
qed

lemma create_atomic: "atomic (create_policy x tenant inp who)"
  unfolding create_policy_def create_tx_def by (intro atomic_bind_reads reads_intros atomic_in_tx)

lemma update_atomic: "atomic (update_policy x i tenant inp who)"
  unfolding update_policy_def update_tx_def by (intro atomic_bind_reads reads_intros atomic_in_tx)

lemma update_policy_refines:
  assumes "update_policy x i tenant inp who e w = (Inr p, e', w')"
  shows "\<exists>cond. check_input x inp = Inr cond \<and> carries x tenant inp cond p \<and> pl_id p = i \<and>
     i \<in> set (map pl_id (abac_policies w)) \<and>
     store_policy p (abac_policies w) = Inr (apply_change (Updated p) (abac_policies w)) \<and>
     changed (ab_audit x)
       (tenant_event who tenant ''abac_policy.updated'' ''abac_policy'' (pl_id p) (policy_metadata p))
       (policy_event x ''abac_policy.updated'' p) (Updated p) w w'"
proof -
  from assms obtain cond where c: "check_input x inp = Inr cond"
    and r: "update_tx x i tenant inp cond who e w = (Inr p, e', w')"
    unfolding update_policy_def by (rule checked_tx_cases) simp_all
  from updating.announced [OF r] obtain e1 w1 rows evs where
    s: "update_row_of x i tenant inp cond (next_call e) w = (Inr p, e1, w1)"
    and l: "audited (ab_audit x)
       (tenant_event who tenant ''abac_policy.updated'' ''abac_policy'' (pl_id p) (policy_metadata p)) (audit_rows w) rows"
      "queued (policy_event x ''abac_policy.updated'' p) (outbox_rows w) evs"
      "w' = w1\<lparr>audit_rows := rows, outbox_rows := evs\<rparr>"
    by metis
  note ok = update_row_of_ok [OF s]
  have "changed (ab_audit x)
       (tenant_event who tenant ''abac_policy.updated'' ''abac_policy'' (pl_id p) (policy_metadata p))
       (policy_event x ''abac_policy.updated'' p) (Updated p) w w'"
    unfolding changed_def using l ok(1) by auto
  with ok c show ?thesis by blast
qed

lemma delete_policy_refines:
  assumes "delete_policy x i tenant who e w = (Inr u, e', w')"
  shows "\<exists>p. find_policy i tenant (abac_policies w) = Some p \<and>
     changed (ab_audit x)
       (tenant_event who tenant ''abac_policy.deleted'' ''abac_policy'' i
         (json_object [(''name'', json_quote (pl_name p))]))
       \<lparr>oe_id = 0, oe_aggregate = i, oe_topic = ''abac.events'',
         oe_event_type = ''abac_policy.deleted'', oe_payload = deleted_payload x i tenant (pl_name p)\<rparr>
       (Deleted i tenant) w w'"
proof -
  from deleting.announced [OF assms] obtain name e1 w1 rows evs where
    s: "delete_row i tenant (next_call e) w = (Inr name, e1, w1)"
    and l: "audited (ab_audit x) (tenant_event who tenant ''abac_policy.deleted'' ''abac_policy'' i
         (json_object [(''name'', json_quote name)])) (audit_rows w) rows"
      "queued \<lparr>oe_id = 0, oe_aggregate = i, oe_topic = ''abac.events'',
         oe_event_type = ''abac_policy.deleted'', oe_payload = deleted_payload x i tenant name\<rparr> (outbox_rows w) evs"
      "w' = w1\<lparr>audit_rows := rows, outbox_rows := evs\<rparr>"
    by metis
  from delete_row_ok [OF s] l show ?thesis unfolding changed_def by auto
qed

section \<open>Well-formed tables\<close>

definition policy_ok :: "policy \<Rightarrow> bool" where
  "policy_ok p \<longleftrightarrow> pl_effect p \<in> {''allow'', ''deny''} \<and> trim_space (pl_name p) \<noteq> [] \<and>
     trim_space (pl_resource_type p) \<noteq> [] \<and> trim_space (pl_action p) \<noteq> [] \<and>
     validate_condition (pl_condition p) = None \<and> - (2 ^ 31) \<le> pl_priority p \<and> pl_priority p < 2 ^ 31"

definition policy_key :: "policy \<Rightarrow> uuid \<times> string" where
  "policy_key p = (pl_tenant p, pl_name p)"

definition policies_ok :: "policy list \<Rightarrow> bool" where
  "policies_ok ps \<longleftrightarrow> distinct (map pl_id ps) \<and> distinct (map policy_key ps) \<and> list_all policy_ok ps"

lemma to_int32_bounds: "- (2 ^ 31) \<le> to_int32 i" "to_int32 i < 2 ^ 31"
  using sint_greater_eq [of "word_of_int i :: 32 word"] sint_less [of "word_of_int i :: 32 word"]
  by (simp_all add: to_int32_def)

lemma check_input_ok:
  assumes "check_input x inp = Inr cond"
  shows "trim_space (pi_name inp) \<noteq> []" "pi_effect inp \<in> {''allow'', ''deny''}"
    "trim_space (pi_resource_type inp) \<noteq> []" "trim_space (pi_action inp) \<noteq> []"
    "validate_condition cond = None"
  using assms by (auto simp: check_input_def Let_def split: if_splits option.splits)

lemma carried_ok:
  assumes "check_input x inp = Inr cond" and "carries x tenant inp cond p"
    and "validate_condition cond = None \<Longrightarrow> validate_condition (ab_jsonb x cond) = None"
  shows "policy_ok p"
  using check_input_ok [OF assms(1)] assms(2,3) to_int32_bounds by (simp add: policy_ok_def carries_def)

lemma insert_policy_keeps:
  assumes "insert_policy p ps = Inr (ps @ [p])" and "policy_ok p" and "policies_ok ps"
  shows "policies_ok (ps @ [p])"
proof -
  from assms(1) have "pl_id p \<notin> set (map pl_id ps)" and "\<not> name_taken (pl_id p) (pl_tenant p) (pl_name p) ps"
    by (auto simp: insert_policy_def split: if_splits)
  moreover from this have "policy_key p \<noteq> policy_key q" if "q \<in> set ps" for q
  proof -
    have "pl_id q \<noteq> pl_id p" using \<open>pl_id p \<notin> set (map pl_id ps)\<close> that by (metis image_eqI set_map)
    with \<open>\<not> name_taken (pl_id p) (pl_tenant p) (pl_name p) ps\<close> that show ?thesis
      by (auto simp: name_taken_def policy_key_def)
  qed
  ultimately show ?thesis using assms(2,3) by (auto simp: policies_ok_def)
qed

lemma distinct_map_replace:
  assumes "distinct (map f ps)" and "\<forall>q \<in> set ps. \<not> P q \<longrightarrow> f q \<noteq> f p" and "length (filter P ps) \<le> 1"
  shows "distinct (map f (map (\<lambda>q. if P q then p else q) ps))"
  using assms
proof (induction ps)
  case (Cons q ps)
  have "filter P ps = []" if "P q" using Cons.prems(3) that by simp
  then have "\<forall>r \<in> set ps. \<not> P r" if "P q" using that by (simp add: filter_empty_conv)
  with Cons show ?case by (auto split: if_splits)
qed simp

lemma store_policy_keeps:
  assumes "store_policy p ps = Inr (apply_change (Updated p) ps)" and "policy_ok p" and "policies_ok ps"
  shows "policies_ok (apply_change (Updated p) ps)"
proof -
  let ?P = "\<lambda>q. pl_id q = pl_id p \<and> pl_tenant q = pl_tenant p"
  have ids: "map pl_id (apply_change (Updated p) ps) = map pl_id ps" by auto
  have "length (filter (\<lambda>q. pl_id q = pl_id p) ps) \<le> 1"
    using assms(3) by (intro distinct_filter_eq) (simp add: policies_ok_def)
  moreover have "length (filter ?P ps) \<le> length (filter (\<lambda>q. pl_id q = pl_id p) ps)"
    by (induction ps) auto
  ultimately have one: "length (filter ?P ps) \<le> 1" by simp
  have "\<not> name_taken (pl_id p) (pl_tenant p) (pl_name p) ps"
    using assms(1) by (auto simp: store_policy_def split: if_splits)
  then have "\<forall>q \<in> set ps. \<not> ?P q \<longrightarrow> policy_key q \<noteq> policy_key p"
    by (auto simp: name_taken_def policy_key_def)
  with one assms(3) have "distinct (map policy_key (apply_change (Updated p) ps))"
    unfolding apply_change.simps by (intro distinct_map_replace) (simp_all add: policies_ok_def)
  with ids assms(2,3) show ?thesis
    by (auto simp: policies_ok_def list_all_iff simp del: map_map)
qed

lemma delete_keeps: "policies_ok ps \<Longrightarrow> policies_ok (apply_change (Deleted i t) ps)"
  by (auto simp: policies_ok_def distinct_map_filter list_all_iff)

lemma apply_change_isolates:
  assumes "change_tenant c = t"
  shows "filter (\<lambda>q. pl_tenant q \<noteq> t) (apply_change c ps) = filter (\<lambda>q. pl_tenant q \<noteq> t) ps"
  using assms
proof (cases c)
  case (Updated p)
  with assms show ?thesis by (induction ps) auto
next
  case (Deleted i u)
  with assms show ?thesis by (induction ps) auto
qed auto

section \<open>Properties of changes\<close>

text \<open>
  The three operations that change policies refine the abstract changes of the table: a call that
  reports an error leaves every table as it was; one that succeeds makes exactly its change, and adds
  exactly one audit row, hashed into the tenant's chain, and one outbox event that carries the policy.
\<close>

theorem policy_changes_are_transactions:
  "(create_policy x tenant inp who e w = (res, e', w') \<longrightarrow>
    (case res of Inl err \<Rightarrow> w' = w | Inr p \<Rightarrow> (\<exists>cond. carries x tenant inp cond p) \<and> changed (ab_audit x)
       (tenant_event who tenant ''abac_policy.created'' ''abac_policy'' (pl_id p) (policy_metadata p))
       (policy_event x ''abac_policy.created'' p) (Created p) w w')) \<and>
   (update_policy x i tenant inp who e w = (res, e', w') \<longrightarrow>
    (case res of Inl err \<Rightarrow> w' = w | Inr p \<Rightarrow> (\<exists>cond. carries x tenant inp cond p) \<and> pl_id p = i \<and> changed (ab_audit x)
       (tenant_event who tenant ''abac_policy.updated'' ''abac_policy'' i (policy_metadata p))
       (policy_event x ''abac_policy.updated'' p) (Updated p) w w')) \<and>
   (delete_policy x i tenant who e w = (dres, e', w') \<longrightarrow>
    (case dres of Inl err \<Rightarrow> w' = w | Inr u \<Rightarrow> (\<exists>p. find_policy i tenant (abac_policies w) = Some p \<and> changed (ab_audit x)
       (tenant_event who tenant ''abac_policy.deleted'' ''abac_policy'' i
         (json_object [(''name'', json_quote (pl_name p))]))
       \<lparr>oe_id = 0, oe_aggregate = i, oe_topic = ''abac.events'',
         oe_event_type = ''abac_policy.deleted'', oe_payload = deleted_payload x i tenant (pl_name p)\<rparr>
       (Deleted i tenant) w w')))"
proof (intro conjI impI)
  assume r: "create_policy x tenant inp who e w = (res, e', w')"
  show "case res of Inl err \<Rightarrow> w' = w | Inr p \<Rightarrow> (\<exists>cond. carries x tenant inp cond p) \<and> changed (ab_audit x)
       (tenant_event who tenant ''abac_policy.created'' ''abac_policy'' (pl_id p) (policy_metadata p))
       (policy_event x ''abac_policy.created'' p) (Created p) w w'"
    using atomicD [OF create_atomic] create_policy_refines r by (cases res) fastforce+
next
  assume r: "update_policy x i tenant inp who e w = (res, e', w')"
  show "case res of Inl err \<Rightarrow> w' = w | Inr p \<Rightarrow> (\<exists>cond. carries x tenant inp cond p) \<and> pl_id p = i \<and> changed (ab_audit x)
       (tenant_event who tenant ''abac_policy.updated'' ''abac_policy'' i (policy_metadata p))
       (policy_event x ''abac_policy.updated'' p) (Updated p) w w'"
    using atomicD [OF update_atomic] update_policy_refines r by (cases res) fastforce+
next
  assume r: "delete_policy x i tenant who e w = (dres, e', w')"
  show "case dres of Inl err \<Rightarrow> w' = w | Inr u \<Rightarrow> (\<exists>p. find_policy i tenant (abac_policies w) = Some p \<and> changed (ab_audit x)
       (tenant_event who tenant ''abac_policy.deleted'' ''abac_policy'' i
         (json_object [(''name'', json_quote (pl_name p))]))
       \<lparr>oe_id = 0, oe_aggregate = i, oe_topic = ''abac.events'',
         oe_event_type = ''abac_policy.deleted'', oe_payload = deleted_payload x i tenant (pl_name p)\<rparr>
       (Deleted i tenant) w w')"
    using deleting.op_atomic delete_policy_refines r by (cases dres) fastforce+
qed

theorem policy_changes_are_transactions_witness:
  "\<exists>e' w'. delete_policy demo_abac_ext 2 1 (actor_of (demo_request 1 [] [])) demo_env (demo_abac demo_policies) =
      (Inr (), e', w') \<and> map pl_id (abac_policies w') = [1, 3] \<and> length (audit_rows w') = 1 \<and>
      map ob_topic (outbox_rows w') = [''abac.events'']"
proof -
  let ?who = "actor_of (demo_request 1 [] [])"
  let ?w = "demo_abac demo_policies"
  have "a_ip ?who = ''10.0.0.1''" by code_simp
  then have ip: "ev_ip (tenant_event ?who t a b c d) = [] \<or>
      ax_inet (ab_audit demo_abac_ext) (ev_ip (tenant_event ?who t a b c d)) \<noteq> None" for t a b c d
    by (simp add: tenant_event_def platform_event_def demo_abac_ext_def demo_ext_def)
  have f: "find_policy 2 1 demo_policies = Some (demo_policies ! 1)"
    by (simp add: find_policy_def demo_policies_def demo_policy_def)
  have s: "delete_row 2 1 (next_call demo_env) ?w = (Inr (pl_name (demo_policies ! 1)), next_call (next_call demo_env),
      ?w\<lparr>abac_policies := apply_change (Deleted 2 1) demo_policies\<rparr>)"
    by (simp add: delete_row_def on_error_def db_call_def next_call_def demo_abac_def Let_def f del: One_nat_def)
  from deleting.announced_live [OF no_faults_quiet s _ ip] obtain e' w' where
    run: "delete_policy demo_abac_ext 2 1 ?who demo_env ?w = (Inr (), e', w')"
    by (auto simp: no_faults_def next_call_def fresh_ids_def demo_abac_def)
  have "map pl_id (apply_change (Deleted 2 1) demo_policies) = [1, 3]" by code_simp
  then show ?thesis using run
      policy_changes_are_transactions [THEN conjunct2, THEN conjunct2, THEN mp, OF run]
    by (auto simp: changed_def audited_def queued_def new_outbox_row_def demo_abac_def)
qed

lemma changed_wf:
  assumes "changed x ev msg c w w'"
  shows "abac_policies w' = apply_change c (abac_policies w)" and "rel_rows w' = rel_rows w"
  using assms by (auto simp: changed_def)

definition jsonb_keeps :: "abac_ext \<Rightarrow> bool" where
  "jsonb_keeps x \<longleftrightarrow> (\<forall>c. validate_condition c = None \<longrightarrow> validate_condition (ab_jsonb x c) = None)"

text \<open>The three operations at once: what a call by one of them does to the table.\<close>

definition policy_step :: "uuid \<Rightarrow> 'z abac_db_scheme \<Rightarrow> 'z abac_db_scheme \<Rightarrow> bool" where
  "policy_step tenant w w' \<longleftrightarrow> rel_rows w' = rel_rows w \<and>
     (policies_ok (abac_policies w) \<longrightarrow> policies_ok (abac_policies w')) \<and>
     filter (\<lambda>q. pl_tenant q \<noteq> tenant) (abac_policies w') = filter (\<lambda>q. pl_tenant q \<noteq> tenant) (abac_policies w)"

lemma policy_step_refl [simp]: "policy_step tenant w w"
  by (simp add: policy_step_def)

lemma create_policy_step:
  assumes "jsonb_keeps x" and "create_policy x tenant inp who e w = (res, e', w')"
  shows "policy_step tenant w w'"
proof (cases res)
  case (Inl err)
  with assms(2) atomicD [OF create_atomic] show ?thesis by force
next
  case (Inr p)
  from create_policy_refines [OF assms(2) [unfolded Inr]] obtain cond ev msg where
    c: "check_input x inp = Inr cond" "carries x tenant inp cond p"
      "insert_policy p (abac_policies w) = Inr (abac_policies w @ [p])"
    and ch: "changed (ab_audit x) ev msg (Created p) w w'" by blast
  have "policy_ok p" using carried_ok [OF c(1,2)] assms(1) by (simp add: jsonb_keeps_def)
  moreover have "pl_tenant p = tenant" using c(2) by (simp add: carries_def)
  ultimately show ?thesis
    using insert_policy_keeps [OF c(3)] changed_wf [OF ch] by (simp add: policy_step_def)
qed

lemma update_policy_step:
  assumes "jsonb_keeps x" and "update_policy x i tenant inp who e w = (res, e', w')"
  shows "policy_step tenant w w'"
proof (cases res)
  case (Inl err)
  with assms(2) atomicD [OF update_atomic] show ?thesis by force
next
  case (Inr p)
  from update_policy_refines [OF assms(2) [unfolded Inr]] obtain cond ev msg where
    c: "check_input x inp = Inr cond" "carries x tenant inp cond p"
      "store_policy p (abac_policies w) = Inr (apply_change (Updated p) (abac_policies w))"
    and ch: "changed (ab_audit x) ev msg (Updated p) w w'" by blast
  have "policy_ok p" using carried_ok [OF c(1,2)] assms(1) by (simp add: jsonb_keeps_def)
  moreover have "change_tenant (Updated p) = tenant" using c(2) by (simp add: carries_def)
  ultimately show ?thesis
    using store_policy_keeps [OF c(3)] changed_wf [OF ch] apply_change_isolates [of "Updated p"]
    by (simp add: policy_step_def)
qed

lemma delete_policy_step:
  assumes "delete_policy x i tenant who e w = (res, e', w')"
  shows "policy_step tenant w w'"
proof (cases res)
  case (Inl err)
  with assms deleting.op_atomic show ?thesis by force
next
  case (Inr u)
  from delete_policy_refines [OF assms [unfolded Inr]] obtain ev msg where
    ch: "changed (ab_audit x) ev msg (Deleted i tenant) w w'" by blast
  show ?thesis
    using delete_keeps changed_wf [OF ch] apply_change_isolates [of "Deleted i tenant"]
    by (simp add: policy_step_def)
qed

lemma abac_create_handler_cases:
  assumes "abac_create_handler x pu r body e w = (res, e', w')"
  shows "w' = w \<or> (\<exists>t inp rs. require_path_tenant pu r = Inr t \<and>
     create_policy x t inp (actor_of r) e w = (rs, e', w'))"
  using assms unfolding abac_create_handler_def
  by (elim checked_tx_cases answer_state) auto

lemma abac_update_handler_cases:
  assumes "abac_update_handler x pu r body e w = (res, e', w')"
  shows "w' = w \<or> (\<exists>t i inp rs. require_path_tenant pu r = Inr t \<and>
     update_policy x i t inp (actor_of r) e w = (rs, e', w'))"
  using assms unfolding abac_update_handler_def
  by (elim checked_tx_cases answer_state) auto

lemma abac_delete_handler_cases:
  assumes "abac_delete_handler x pu r e w = (res, e', w')"
  shows "w' = w \<or> (\<exists>t i rs. require_path_tenant pu r = Inr t \<and>
     delete_policy x i t (actor_of r) e w = (rs, e', w'))"
  using assms unfolding abac_delete_handler_def
  by (elim checked_tx_cases answer_state) auto

text \<open>
  The handlers that change policies keep the table well-formed and keep to the caller's tenant:
  whatever they answer, ids and names per tenant stay unique, every policy keeps an effect of allow or
  deny, a name, a type, an action, an accepted condition and a priority of 32 bits, the relation
  tuples are untouched, and if anything changed then the path names the tenant of the authenticated
  principal and the policies of all other tenants are as before.
\<close>

theorem abac_handlers_isolate_tenants:
  assumes "jsonb_keeps x" and "policies_ok (abac_policies w)"
    and "abac_create_handler x pu r body e w = (res, e', w') \<or>
         abac_update_handler x pu r body e w = (res, e', w') \<or> abac_delete_handler x pu r e w = (res, e', w')"
  shows "policies_ok (abac_policies w') \<and> rel_rows w' = rel_rows w \<and>
     (w' = w \<or> (\<exists>t. require_tenant r = Inr t \<and> pu (url_param r ''tenantID'') = Some t \<and>
        filter (\<lambda>q. pl_tenant q \<noteq> t) (abac_policies w') = filter (\<lambda>q. pl_tenant q \<noteq> t) (abac_policies w)))"
proof -
  have "w' = w \<or> (\<exists>t. require_path_tenant pu r = Inr t \<and> policy_step t w w')"
    using assms(3)
  proof (elim disjE)
    assume "abac_create_handler x pu r body e w = (res, e', w')"
    from abac_create_handler_cases [OF this] create_policy_step [OF assms(1)] show ?thesis by blast
  next
    assume "abac_update_handler x pu r body e w = (res, e', w')"
    from abac_update_handler_cases [OF this] update_policy_step [OF assms(1)] show ?thesis by blast
  next
    assume "abac_delete_handler x pu r e w = (res, e', w')"
    from abac_delete_handler_cases [OF this] delete_policy_step show ?thesis by blast
  qed
  then show ?thesis using assms(2) by (auto simp: require_path_tenant_Inr_iff policy_step_def)
qed

lemma demo_jsonb [simp]: "jsonb_keeps demo_abac_ext"
  by (simp add: jsonb_keeps_def demo_abac_ext_def)

lemma demo_policies_ok: "policies_ok demo_policies"
  by code_simp

theorem abac_handlers_isolate_tenants_witness:
  "policies_ok (abac_policies (snd (snd (abac_delete_handler demo_abac_ext demo_uuid
     (demo_request 1 [(''tenantID'', ''1''), (''id'', ''2'')] []) demo_env (demo_abac demo_policies)))))"
proof -
  let ?r = "demo_request 1 [(''tenantID'', ''1''), (''id'', ''2'')] []"
  obtain res e' w' where run: "abac_delete_handler demo_abac_ext demo_uuid ?r demo_env (demo_abac demo_policies) =
      (res, e', w')" by (metis prod_cases3)
  have "policies_ok (abac_policies (demo_abac demo_policies))" using demo_policies_ok by (simp add: demo_abac_def)
  from abac_handlers_isolate_tenants [OF demo_jsonb this disjI2 [OF disjI2 [OF run]]] run
  show ?thesis by simp
qed

end
