(* ===== verification/Rbac.thy ===== *)
theory Rbac imports Audited Abac begin

text \<open>
  Role-based access control, \<^verbatim>\<open>internal/access/authorization/rbac/rbac.go\<close> and \<^verbatim>\<open>service.go\<close>: the
  tables of migrations 0006, 0021 and 0047, the generated queries of \<^verbatim>\<open>dbgen/queries.sql.go\<close> on them,
  the repository and the service that wraps each mutation with its audit row. A query without a
  total order answers in the order of the table.

  Parameters: those of the audit log, \<^verbatim>\<open>LOWER\<close> and the collation of the database (in \<open>rbac_ext\<close>), and the
  webhook emitter, which is a function field of the service.
\<close>

section \<open>Tables\<close>

record permission =
  pm_id :: uuid
  pm_key :: string
  pm_description :: string

record role =
  ro_id :: uuid
  ro_tenant :: uuid
  ro_name :: string
  ro_description :: string
  ro_system :: bool
  ro_created :: time

record user_role =
  ur_user :: uuid
  ur_tenant :: uuid
  ur_role :: uuid
  ur_granted :: time
  ur_by :: "uuid option"

record group_role =
  gr_tenant :: uuid
  gr_group :: uuid
  gr_role :: uuid
  gr_granted :: time
  gr_by :: "uuid option"

record group =
  gp_id :: uuid
  gp_tenant :: uuid
  gp_parent :: "uuid option"
  gp_name :: string
  gp_description :: string
  gp_created :: time

record member =
  gm_group :: uuid
  gm_user :: uuid
  gm_tenant :: uuid
  gm_added :: time

record rbac_db = abac_db +
  tenant_ids :: "uuid list"
  perm_rows :: "permission list"
  role_rows :: "role list"
  role_perm_rows :: "(uuid \<times> uuid) list" \<comment> \<open>role and permission\<close>
  user_role_rows :: "user_role list"
  group_rows :: "group list"
  member_rows :: "member list"
  group_role_rows :: "group_role list"

record rbac_ext =
  rx_audit :: audit_ext
  rx_lower :: "string \<Rightarrow> string"
  rx_coll :: "string \<Rightarrow> nat list"

section \<open>The repository\<close>

subsection \<open>Permissions and roles\<close>

definition upsert_permission :: "string \<Rightarrow> string \<Rightarrow> ('z rbac_db_scheme, permission) io" where
  "upsert_permission key desc =
     bind_io uuid_new (\<lambda>i.
       db_call (\<lambda>w.
         case List.find (\<lambda>p. pm_key p = key) (perm_rows w) of
           Some p \<Rightarrow> (Inr (p\<lparr>pm_description := desc\<rparr>), w\<lparr>perm_rows :=
             map (\<lambda>q. if pm_key q = key then q\<lparr>pm_description := desc\<rparr> else q) (perm_rows w)\<rparr>)
         | None \<Rightarrow>
             let p = \<lparr>pm_id = i, pm_key = key, pm_description = desc\<rparr> in
             if i \<in> set (map pm_id (perm_rows w)) then (Inl unique_violation, w)
             else (Inr p, w\<lparr>perm_rows := perm_rows w @ [p]\<rparr>)))"

definition list_permissions :: "rbac_ext \<Rightarrow> ('z rbac_db_scheme, permission list) io" where
  "list_permissions x = db_read (\<lambda>w. sort_key (\<lambda>p. rx_coll x (pm_key p)) (perm_rows w))"

definition insert_role :: "rbac_ext \<Rightarrow> role \<Rightarrow> 'z rbac_db_scheme \<Rightarrow> go_error + 'z rbac_db_scheme" where
  "insert_role x r w =
     (if ro_id r \<in> set (map ro_id (role_rows w)) \<or>
         (\<exists>q \<in> set (role_rows w). ro_tenant q = ro_tenant r \<and> rx_lower x (ro_name q) = rx_lower x (ro_name r))
      then Inl unique_violation
      else if ro_tenant r \<notin> set (tenant_ids w) then Inl foreign_key_violation
      else Inr (w\<lparr>role_rows := role_rows w @ [r]\<rparr>))"

definition repo_create_role ::
  "rbac_ext \<Rightarrow> uuid \<Rightarrow> string \<Rightarrow> string \<Rightarrow> bool \<Rightarrow> ('z rbac_db_scheme, role) io" where
  "repo_create_role x tenant name desc system =
     on_error
       (bind_io uuid_new (\<lambda>i.
        bind_io time_now (\<lambda>now.
        db_call (\<lambda>w.
          let r = \<lparr>ro_id = i, ro_tenant = tenant, ro_name = name, ro_description = desc,
                   ro_system = system, ro_created = now\<rparr> in
          (case insert_role x r w of Inl e \<Rightarrow> (Inl e, w) | Inr w' \<Rightarrow> (Inr r, w'))))))
       (\<lambda>e. fail (if is_unique e then ApiErr (with_detail ErrConflict ''role name exists for tenant'') else e))"

definition list_roles :: "rbac_ext \<Rightarrow> uuid \<Rightarrow> ('z rbac_db_scheme, role list) io" where
  "list_roles x tenant = db_read (\<lambda>w. sort_key (\<lambda>r. rx_coll x (ro_name r))
     (filter (\<lambda>r. ro_tenant r = tenant) (role_rows w)))"

definition find_role :: "uuid \<Rightarrow> role list \<Rightarrow> role option" where
  "find_role i = List.find (\<lambda>r. ro_id r = i)"

definition role_tenant :: "uuid \<Rightarrow> ('z rbac_db_scheme, uuid) io" where
  "role_tenant i =
     bind_io (db_read (\<lambda>w. find_role i (role_rows w)))
       (\<lambda>r. case r of None \<Rightarrow> fail (ApiErr ErrNotFound) | Some ro \<Rightarrow> ret (ro_tenant ro))"

text \<open>The permissions a role confers: the join of \<^verbatim>\<open>role_permissions\<close> and \<^verbatim>\<open>permissions\<close>.\<close>

definition role_grants :: "uuid \<Rightarrow> 'z rbac_db_scheme \<Rightarrow> permission list" where
  "role_grants role w =
     concat (map (\<lambda>rp. filter (\<lambda>p. pm_id p = snd rp) (perm_rows w))
       (filter (\<lambda>rp. fst rp = role) (role_perm_rows w)))"

definition list_role_permissions :: "rbac_ext \<Rightarrow> uuid \<Rightarrow> ('z rbac_db_scheme, permission list) io" where
  "list_role_permissions x role = db_read (\<lambda>w. sort_key (\<lambda>p. rx_coll x (pm_key p)) (role_grants role w))"

definition repo_grant :: "uuid \<Rightarrow> uuid \<Rightarrow> ('z rbac_db_scheme, unit) io" where
  "repo_grant role perm = db_call (\<lambda>w.
     if (role, perm) \<in> set (role_perm_rows w) then (Inr (), w)
     else if role \<notin> set (map ro_id (role_rows w)) \<or> perm \<notin> set (map pm_id (perm_rows w))
     then (Inl foreign_key_violation, w)
     else (Inr (), w\<lparr>role_perm_rows := role_perm_rows w @ [(role, perm)]\<rparr>))"

definition repo_revoke :: "uuid \<Rightarrow> uuid \<Rightarrow> ('z rbac_db_scheme, unit) io" where
  "repo_revoke role perm = db_write (\<lambda>w.
     w\<lparr>role_perm_rows := filter (\<lambda>rp. rp \<noteq> (role, perm)) (role_perm_rows w)\<rparr>)"

subsection \<open>Assignments\<close>

definition user_role_key :: "user_role \<Rightarrow> uuid \<times> uuid \<times> uuid" where
  "user_role_key r = (ur_user r, ur_tenant r, ur_role r)"

definition repo_assign :: "uuid \<Rightarrow> uuid \<Rightarrow> uuid \<Rightarrow> uuid option \<Rightarrow> ('z rbac_db_scheme, unit) io" where
  "repo_assign user tenant role granted_by =
     bind_io time_now (\<lambda>now.
       db_call (\<lambda>w.
         if (user, tenant, role) \<in> set (map user_role_key (user_role_rows w)) then (Inr (), w)
         else if tenant \<notin> set (tenant_ids w) \<or> role \<notin> set (map ro_id (role_rows w))
         then (Inl foreign_key_violation, w)
         else (Inr (), w\<lparr>user_role_rows := user_role_rows w @
           [\<lparr>ur_user = user, ur_tenant = tenant, ur_role = role, ur_granted = now, ur_by = granted_by\<rparr>]\<rparr>)))"

definition repo_unassign :: "uuid \<Rightarrow> uuid \<Rightarrow> uuid \<Rightarrow> ('z rbac_db_scheme, unit) io" where
  "repo_unassign user tenant role = db_write (\<lambda>w. w\<lparr>user_role_rows :=
     filter (\<lambda>r. user_role_key r \<noteq> (user, tenant, role)) (user_role_rows w)\<rparr>)"

text \<open>
  The conditional insert: the group and the role must both be of the tenant, and the primary key is
  (group, role). The answer is whether a row was inserted or one for this tenant was there before.
\<close>

definition repo_assign_group ::
  "uuid \<Rightarrow> uuid \<Rightarrow> uuid \<Rightarrow> uuid option \<Rightarrow> ('z rbac_db_scheme, bool) io" where
  "repo_assign_group grp tenant role granted_by =
     bind_io time_now (\<lambda>now.
       db_call (\<lambda>w.
         let inserts =
               (\<exists>g \<in> set (group_rows w). gp_id g = grp \<and> gp_tenant g = tenant) \<and>
               (\<exists>r \<in> set (role_rows w). ro_id r = role \<and> ro_tenant r = tenant) \<and>
               \<not> (\<exists>q \<in> set (group_role_rows w). gr_group q = grp \<and> gr_role q = role);
             existing = (\<exists>q \<in> set (group_role_rows w).
               gr_group q = grp \<and> gr_role q = role \<and> gr_tenant q = tenant)
         in (Inr (inserts \<or> existing),
             if inserts then w\<lparr>group_role_rows := group_role_rows w @
               [\<lparr>gr_tenant = tenant, gr_group = grp, gr_role = role, gr_granted = now, gr_by = granted_by\<rparr>]\<rparr>
             else w)))"

definition repo_remove_group :: "uuid \<Rightarrow> uuid \<Rightarrow> uuid \<Rightarrow> ('z rbac_db_scheme, unit) io" where
  "repo_remove_group grp tenant role = db_write (\<lambda>w. w\<lparr>group_role_rows :=
     filter (\<lambda>q. \<not> (gr_group q = grp \<and> gr_tenant q = tenant \<and> gr_role q = role)) (group_role_rows w)\<rparr>)"

record group_role_view =
  gv_role :: uuid
  gv_name :: string
  gv_granted :: time

definition list_group_roles :: "rbac_ext \<Rightarrow> uuid \<Rightarrow> uuid \<Rightarrow> ('z rbac_db_scheme, group_role_view list) io" where
  "list_group_roles x grp tenant = db_read (\<lambda>w. sort_key (\<lambda>v. rx_coll x (gv_name v))
     (concat (map (\<lambda>q. map (\<lambda>r. \<lparr>gv_role = gr_role q, gv_name = ro_name r, gv_granted = gr_granted q\<rparr>)
           (filter (\<lambda>r. ro_id r = gr_role q) (role_rows w)))
       (filter (\<lambda>q. gr_group q = grp \<and> gr_tenant q = tenant) (group_role_rows w)))))"

subsection \<open>Decisions\<close>

text \<open>The roles that reach a user in a tenant: directly, and through the groups of the user.\<close>

definition direct_roles :: "uuid \<Rightarrow> uuid \<Rightarrow> 'z rbac_db_scheme \<Rightarrow> uuid list" where
  "direct_roles user tenant w =
     map ur_role (filter (\<lambda>r. ur_user r = user \<and> ur_tenant r = tenant) (user_role_rows w))"

definition member_groups :: "uuid \<Rightarrow> uuid \<Rightarrow> 'z rbac_db_scheme \<Rightarrow> uuid list" where
  "member_groups user tenant w =
     map gm_group (filter (\<lambda>m. gm_user m = user \<and> gm_tenant m = tenant) (member_rows w))"

definition roles_of_group :: "uuid \<Rightarrow> uuid \<Rightarrow> 'z rbac_db_scheme \<Rightarrow> uuid list" where
  "roles_of_group grp tenant w =
     map gr_role (filter (\<lambda>q. gr_group q = grp \<and> gr_tenant q = tenant) (group_role_rows w))"

definition group_roles :: "uuid \<Rightarrow> uuid \<Rightarrow> 'z rbac_db_scheme \<Rightarrow> uuid list" where
  "group_roles user tenant w =
     concat (map (\<lambda>g. roles_of_group g tenant w) (member_groups user tenant w))"

definition check_permission :: "uuid \<Rightarrow> uuid \<Rightarrow> string \<Rightarrow> 'z rbac_db_scheme \<Rightarrow> bool" where
  "check_permission user tenant key w \<longleftrightarrow>
     (\<exists>r \<in> set (direct_roles user tenant w). \<exists>p \<in> set (role_grants r w). pm_key p = key) \<or>
     (\<exists>r \<in> set (group_roles user tenant w). \<exists>p \<in> set (role_grants r w). pm_key p = key)"

definition rbac_check :: "uuid \<Rightarrow> uuid \<Rightarrow> string \<Rightarrow> ('z rbac_db_scheme, bool) io" where
  "rbac_check user tenant key =
     on_error (db_read (check_permission user tenant key))
       (\<lambda>e. if e = ErrNoRows then ret False else fail e)"

definition effective_keys :: "rbac_ext \<Rightarrow> uuid \<Rightarrow> uuid \<Rightarrow> 'z rbac_db_scheme \<Rightarrow> string list" where
  "effective_keys x user tenant w = sort_key (rx_coll x) (remdups
     (map pm_key (concat (map (\<lambda>r. role_grants r w) (direct_roles user tenant w))) @
      map pm_key (concat (map (\<lambda>r. role_grants r w) (group_roles user tenant w)))))"

definition effective_permissions :: "rbac_ext \<Rightarrow> uuid \<Rightarrow> uuid \<Rightarrow> ('z rbac_db_scheme, string list) io" where
  "effective_permissions x user tenant = db_read (effective_keys x user tenant)"

record grant_row =
  gw_group :: "(uuid \<times> string) option" \<comment> \<open>id and name; none in the direct arm\<close>
  gw_role :: uuid
  gw_role_name :: string

text \<open>One row for every way a role confers the permission: the joins with \<^verbatim>\<open>roles\<close> and \<^verbatim>\<open>groups\<close>.\<close>

definition arm_rows ::
  "string \<Rightarrow> 'z rbac_db_scheme \<Rightarrow> (uuid \<times> string) option \<Rightarrow> uuid \<Rightarrow> grant_row list" where
  "arm_rows key w via role =
     concat (map (\<lambda>r. map (\<lambda>p. \<lparr>gw_group = via, gw_role = ro_id r, gw_role_name = ro_name r\<rparr>)
         (filter (\<lambda>p. pm_key p = key) (role_grants role w)))
       (filter (\<lambda>r. ro_id r = role) (role_rows w)))"

definition explain_grants :: "rbac_ext \<Rightarrow> uuid \<Rightarrow> uuid \<Rightarrow> string \<Rightarrow> 'z rbac_db_scheme \<Rightarrow> grant_row list" where
  "explain_grants x user tenant key w =
     concat (map (arm_rows key w None) (direct_roles user tenant w)) @
     sort_key (\<lambda>v. case gw_group v of None \<Rightarrow> [] | Some g \<Rightarrow> rx_coll x (snd g))
       (concat (map (\<lambda>i.
          concat (map (\<lambda>g. concat (map (arm_rows key w (Some (gp_id g, gp_name g))) (roles_of_group i tenant w)))
            (filter (\<lambda>g. gp_id g = i \<and> gp_tenant g = tenant) (group_rows w))))
        (member_groups user tenant w)))"

record grant_step =
  gs_permission :: string
  gs_granted_by :: string
  gs_via :: string
  gs_group :: "uuid option"
  gs_role :: uuid

record grant_explanation =
  ge_allowed :: bool
  ge_paths :: "grant_step list"
  ge_reason :: string

definition grant_step_of :: "string \<Rightarrow> grant_row \<Rightarrow> grant_step" where
  "grant_step_of key v =
     (let s = \<lparr>gs_permission = key, gs_granted_by = ''role:'' @ gw_role_name v, gs_via = ''direct'',
               gs_group = None, gs_role = gw_role v\<rparr> in
      case gw_group v of
        None \<Rightarrow> s
      | Some (i, name) \<Rightarrow> s\<lparr>gs_via := ''group:'' @ name, gs_group := Some i\<rparr>)"

definition explain :: "rbac_ext \<Rightarrow> uuid \<Rightarrow> uuid \<Rightarrow> string \<Rightarrow> ('z rbac_db_scheme, grant_explanation) io" where
  "explain x user tenant key =
     bind_io (db_read (explain_grants x user tenant key)) (\<lambda>rows.
       let paths = map (grant_step_of key) rows; allowed = (length paths > 0) in
       ret \<lparr>ge_allowed = allowed, ge_paths = paths,
            ge_reason = (if allowed then []
              else ''no role grants this permission for this user in this tenant'')\<rparr>)"

subsection \<open>Seeding\<close>

definition builtin_permissions :: "(string \<times> string) list" where
  "builtin_permissions =
     [(''tenant.read'', ''Read tenant configuration''),
      (''tenant.write'', ''Modify tenant configuration''),
      (''user.read'', ''List and read users''),
      (''user.write'', ''Create, update, delete users (incl. set password, reset MFA)''),
      (''role.read'', ''Read roles and assignments''),
      (''role.write'', ''Manage roles and assignments''),
      (''audit.read'', ''Read audit events''),
      (''audit.write'', ''Resolve audit anomalies and manage anomaly-detection settings''),
      (''group.read'', ''Read groups and members''),
      (''group.write'', ''Manage groups and members''),
      (''connection.read'', ''Read SSO/identity connections (OIDC, SAML, SCIM, LDAP, social)''),
      (''connection.write'', ''Manage SSO/identity connections''),
      (''apikey.read'', ''Read API keys and service principals''),
      (''apikey.write'', ''Manage API keys and service principals''),
      (''secret.read'', ''Read tenant secrets metadata''),
      (''secret.write'', ''Manage tenant secrets''),
      (''webhook.read'', ''Read webhook endpoints''),
      (''webhook.write'', ''Manage webhook endpoints''),
      (''billing.read'', ''Read billing plans and subscription''),
      (''billing.write'', ''Manage billing subscription''),
      (''branding.write'', ''Manage hosted-login branding and email templates''),
      (''policy.read'', ''Read security/auth policy''),
      (''policy.write'', ''Manage security/auth policy (password, IP rules, retention, MFA enforcement)''),
      (''gdpr.write'', ''Run GDPR erasure / data operations''),
      (''analytics.read'', ''Read tenant analytics'')]"

fun upsert_all :: "(string \<times> string) list \<Rightarrow> ('z rbac_db_scheme, unit) io" where
  "upsert_all [] = ret ()"
| "upsert_all ((key, desc) # bs) = bind_io (upsert_permission key desc) (\<lambda>_. upsert_all bs)"

definition seed_builtins :: "('z rbac_db_scheme, unit) io" where
  "seed_builtins = in_tx (upsert_all builtin_permissions)"

section \<open>The service\<close>

type_synonym 'w emitter = "uuid \<Rightarrow> string \<Rightarrow> string \<Rightarrow> ('w, unit) io"

definition emit :: "'w emitter option \<Rightarrow> uuid \<Rightarrow> string \<Rightarrow> string \<Rightarrow> ('w, unit) io" where
  "emit emitter tenant etype payload =
     (case emitter of None \<Rightarrow> ret () | Some f \<Rightarrow> ignore_error (f tenant etype payload))"

definition role_id_meta :: "rbac_ext \<Rightarrow> uuid \<Rightarrow> string" where
  "role_id_meta x role = json_object [(''role_id'', json_quote (ax_uuid (rx_audit x) role))]"

definition permission_id_meta :: "rbac_ext \<Rightarrow> uuid \<Rightarrow> string" where
  "permission_id_meta x perm = json_object [(''permission_id'', json_quote (ax_uuid (rx_audit x) perm))]"

definition create_role ::
  "rbac_ext \<Rightarrow> uuid \<Rightarrow> string \<Rightarrow> string \<Rightarrow> actor \<Rightarrow> ('z rbac_db_scheme, role) io" where
  "create_role x tenant name desc who = in_tx
     (bind_io (repo_create_role x tenant name desc False) (\<lambda>r.
      then_io (record_audit (rx_audit x) (tenant_event who tenant ''role.created'' ''role'' (ro_id r)
          (json_object [(''is_system'', json_bool (ro_system r)), (''name'', json_quote (ro_name r))])))
      (ret r)))"

definition grant_permission :: "rbac_ext \<Rightarrow> uuid \<Rightarrow> uuid \<Rightarrow> actor \<Rightarrow> ('z rbac_db_scheme, unit) io" where
  "grant_permission x role perm who = in_tx
     (then_io (repo_grant role perm)
      (then_io (record_audit (rx_audit x)
          (platform_event who ''role.permission_granted'' ''role'' role (permission_id_meta x perm)))
      (ret ())))"

definition revoke_permission :: "rbac_ext \<Rightarrow> uuid \<Rightarrow> uuid \<Rightarrow> actor \<Rightarrow> ('z rbac_db_scheme, unit) io" where
  "revoke_permission x role perm who = in_tx
     (then_io (repo_revoke role perm)
      (then_io (record_audit (rx_audit x)
          (platform_event who ''role.permission_revoked'' ''role'' role (permission_id_meta x perm)))
      (ret ())))"

definition claims_change :: "rbac_ext \<Rightarrow> uuid \<Rightarrow> uuid \<Rightarrow> string \<Rightarrow> string" where
  "claims_change x user role change = json_object [(''change'', json_quote change),
     (''role_id'', json_quote (ax_uuid (rx_audit x) role)), (''user_id'', json_quote (ax_uuid (rx_audit x) user))]"

definition assign_tx ::
  "rbac_ext \<Rightarrow> uuid \<Rightarrow> uuid \<Rightarrow> uuid \<Rightarrow> uuid option \<Rightarrow> actor \<Rightarrow> ('z rbac_db_scheme, unit) io" where
  "assign_tx x user tenant role granted_by who = in_tx
     (then_io (repo_assign user tenant role granted_by)
      (then_io (record_audit (rx_audit x)
          (tenant_event who tenant ''role.assigned'' ''user'' user (role_id_meta x role)))
      (ret ())))"

definition assign_role ::
  "rbac_ext \<Rightarrow> 'z rbac_db_scheme emitter option \<Rightarrow> uuid \<Rightarrow> uuid \<Rightarrow> uuid \<Rightarrow> uuid option \<Rightarrow> actor \<Rightarrow>
   ('z rbac_db_scheme, unit) io" where
  "assign_role x emitter user tenant role granted_by who =
     then_io (assign_tx x user tenant role granted_by who)
       (emit emitter tenant ''token.claims_change'' (claims_change x user role ''role_assigned''))"

definition unassign_tx ::
  "rbac_ext \<Rightarrow> uuid \<Rightarrow> uuid \<Rightarrow> uuid \<Rightarrow> actor \<Rightarrow> ('z rbac_db_scheme, unit) io" where
  "unassign_tx x user tenant role who = in_tx
     (then_io (repo_unassign user tenant role)
      (then_io (record_audit (rx_audit x)
          (tenant_event who tenant ''role.unassigned'' ''user'' user (role_id_meta x role)))
      (ret ())))"

definition unassign_role ::
  "rbac_ext \<Rightarrow> 'z rbac_db_scheme emitter option \<Rightarrow> uuid \<Rightarrow> uuid \<Rightarrow> uuid \<Rightarrow> actor \<Rightarrow> ('z rbac_db_scheme, unit) io"
  where
  "unassign_role x emitter user tenant role who =
     then_io (unassign_tx x user tenant role who)
       (emit emitter tenant ''token.claims_change'' (claims_change x user role ''role_unassigned''))"

definition checked_assign_group ::
  "uuid \<Rightarrow> uuid \<Rightarrow> uuid \<Rightarrow> uuid option \<Rightarrow> ('z rbac_db_scheme, unit) io" where
  "checked_assign_group grp tenant role granted_by =
     bind_io (repo_assign_group grp tenant role granted_by)
       (\<lambda>valid. guard valid (ApiErr (with_detail ErrNotFound ''group or role not found in tenant'')))"

definition assign_role_to_group ::
  "rbac_ext \<Rightarrow> uuid \<Rightarrow> uuid \<Rightarrow> uuid \<Rightarrow> uuid option \<Rightarrow> actor \<Rightarrow> ('z rbac_db_scheme, unit) io" where
  "assign_role_to_group x grp tenant role granted_by who = in_tx
     (then_io (checked_assign_group grp tenant role granted_by)
      (then_io (record_audit (rx_audit x)
          (tenant_event who tenant ''role.group_assigned'' ''group'' grp (role_id_meta x role)))
      (ret ())))"

definition remove_role_from_group ::
  "rbac_ext \<Rightarrow> uuid \<Rightarrow> uuid \<Rightarrow> uuid \<Rightarrow> actor \<Rightarrow> ('z rbac_db_scheme, unit) io" where
  "remove_role_from_group x grp tenant role who = in_tx
     (then_io (repo_remove_group grp tenant role)
      (then_io (record_audit (rx_audit x)
          (tenant_event who tenant ''role.group_unassigned'' ''group'' grp (role_id_meta x role)))
      (ret ())))"

end
