(* ===== verification/GroupStore.thy ===== *)
theory GroupStore imports Rbac begin

text \<open>
  Groups and their members, \<^verbatim>\<open>internal/identity/groups/group.go\<close>, on the tables of \<open>rbac_db\<close>. Deleting a
  group cascades, by the foreign keys of migrations 0021 and 0047, to its subgroups, to their members
  and to the roles bound to them. The text of a group as event payload is a parameter, and so is the
  join of the member list with the users table.
\<close>

record group_input =
  gi_parent :: "uuid option"
  gi_name :: string
  gi_description :: string

record group_ext =
  gx_rbac :: rbac_ext
  gx_payload :: "group \<Rightarrow> string"

section \<open>The queries\<close>

definition parent_exists :: "uuid option \<Rightarrow> group list \<Rightarrow> bool" where
  "parent_exists parent gs = (case parent of None \<Rightarrow> True | Some p \<Rightarrow> p \<in> set (map gp_id gs))"

definition insert_group :: "group \<Rightarrow> 'z rbac_db_scheme \<Rightarrow> go_error + 'z rbac_db_scheme" where
  "insert_group g w =
     (if gp_id g \<in> set (map gp_id (group_rows w)) then Inl unique_violation
      else if gp_tenant g \<notin> set (tenant_ids w) \<or> \<not> parent_exists (gp_parent g) (g # group_rows w)
      then Inl foreign_key_violation
      else Inr (w\<lparr>group_rows := group_rows w @ [g]\<rparr>))"

definition find_group :: "uuid \<Rightarrow> uuid \<Rightarrow> group list \<Rightarrow> group option" where
  "find_group i tenant = List.find (\<lambda>g. gp_id g = i \<and> gp_tenant g = tenant)"

text \<open>The groups that go with a deleted one: the closure under the parent key.\<close>

fun doomed :: "nat \<Rightarrow> group list \<Rightarrow> uuid list \<Rightarrow> uuid list" where
  "doomed 0 gs is = is"
| "doomed (Suc n) gs is =
     doomed n gs (is @ map gp_id (filter (\<lambda>g. gp_id g \<notin> set is \<and>
       (case gp_parent g of None \<Rightarrow> False | Some p \<Rightarrow> p \<in> set is)) gs))"

definition cascade :: "uuid \<Rightarrow> 'z rbac_db_scheme \<Rightarrow> 'z rbac_db_scheme" where
  "cascade i w =
     (let gone = set (doomed (length (group_rows w)) (group_rows w) [i]) in
      w\<lparr>group_rows := filter (\<lambda>g. gp_id g \<notin> gone) (group_rows w),
        member_rows := filter (\<lambda>m. gm_group m \<notin> gone) (member_rows w),
        group_role_rows := filter (\<lambda>q. gr_group q \<notin> gone) (group_role_rows w)\<rparr>)"

definition insert_group_row :: "uuid \<Rightarrow> group_input \<Rightarrow> ('z rbac_db_scheme, group) io" where
  "insert_group_row tenant inp =
     bind_io uuid_new (\<lambda>i.
     bind_io time_now (\<lambda>now.
     db_call (\<lambda>w.
       let g = \<lparr>gp_id = i, gp_tenant = tenant, gp_parent = gi_parent inp, gp_name = gi_name inp,
                gp_description = gi_description inp, gp_created = now\<rparr> in
       (case insert_group g w of Inl e \<Rightarrow> (Inl e, w) | Inr w' \<Rightarrow> (Inr g, w')))))"

definition no_row_is_not_found :: "go_error \<Rightarrow> go_error" where
  "no_row_is_not_found e = (if e = ErrNoRows then ApiErr ErrNotFound else e)"

definition delete_group_row :: "uuid \<Rightarrow> uuid \<Rightarrow> ('z rbac_db_scheme, string) io" where
  "delete_group_row i tenant =
     on_error
       (db_call (\<lambda>w. case find_group i tenant (group_rows w) of
          None \<Rightarrow> (Inl ErrNoRows, w)
        | Some g \<Rightarrow> (Inr (gp_name g), cascade i w)))
       (\<lambda>e. fail (no_row_is_not_found e))"

definition update_group_row :: "uuid \<Rightarrow> uuid \<Rightarrow> group_input \<Rightarrow> ('z rbac_db_scheme, group) io" where
  "update_group_row i tenant inp =
     on_error
       (db_call (\<lambda>w. case find_group i tenant (group_rows w) of
          None \<Rightarrow> (Inl ErrNoRows, w)
        | Some old \<Rightarrow>
            let g = old\<lparr>gp_name := gi_name inp, gp_description := gi_description inp,
                      gp_parent := gi_parent inp\<rparr> in
            if \<not> parent_exists (gp_parent g) (group_rows w) then (Inl foreign_key_violation, w)
            else (Inr g, w\<lparr>group_rows :=
              map (\<lambda>q. if gp_id q = i \<and> gp_tenant q = tenant then g else q) (group_rows w)\<rparr>)))
       (\<lambda>e. fail (no_row_is_not_found e))"

definition insert_member :: "uuid \<Rightarrow> uuid \<Rightarrow> uuid \<Rightarrow> ('z rbac_db_scheme, unit) io" where
  "insert_member grp user tenant =
     bind_io time_now (\<lambda>now.
       db_call (\<lambda>w.
         if \<exists>m \<in> set (member_rows w). gm_group m = grp \<and> gm_user m = user then (Inr (), w)
         else if grp \<notin> set (map gp_id (group_rows w)) \<or> tenant \<notin> set (tenant_ids w)
         then (Inl foreign_key_violation, w)
         else (Inr (), w\<lparr>member_rows := member_rows w @
           [\<lparr>gm_group = grp, gm_user = user, gm_tenant = tenant, gm_added = now\<rparr>]\<rparr>)))"

definition delete_member :: "uuid \<Rightarrow> uuid \<Rightarrow> uuid \<Rightarrow> ('z rbac_db_scheme, unit) io" where
  "delete_member grp user tenant = db_write (\<lambda>w. w\<lparr>member_rows :=
     filter (\<lambda>m. \<not> (gm_group m = grp \<and> gm_user m = user \<and> gm_tenant m = tenant)) (member_rows w)\<rparr>)"

section \<open>The service\<close>

definition group_event :: "uuid \<Rightarrow> string \<Rightarrow> string \<Rightarrow> outbox_event" where
  "group_event i etype payload = \<lparr>oe_id = 0, oe_aggregate = i, oe_topic = ''group.events'',
     oe_event_type = etype, oe_payload = payload\<rparr>"

definition parent_meta :: "group_ext \<Rightarrow> string \<Rightarrow> uuid option \<Rightarrow> string" where
  "parent_meta x name parent = json_object [(''name'', json_quote name), (''parent_id'',
     case parent of None \<Rightarrow> ''null'' | Some p \<Rightarrow> json_quote (ax_uuid (rx_audit (gx_rbac x)) p))]"

definition user_meta :: "group_ext \<Rightarrow> uuid \<Rightarrow> string" where
  "user_meta x user = json_object [(''user_id'', json_quote (ax_uuid (rx_audit (gx_rbac x)) user))]"

definition member_payload :: "group_ext \<Rightarrow> uuid \<Rightarrow> uuid \<Rightarrow> uuid \<Rightarrow> string" where
  "member_payload x grp user tenant =
     (let u = (\<lambda>i. json_quote (ax_uuid (rx_audit (gx_rbac x)) i)) in
      json_object [(''group_id'', u grp), (''tenant_id'', u tenant), (''user_id'', u user)])"

definition group_deleted_payload :: "group_ext \<Rightarrow> uuid \<Rightarrow> uuid \<Rightarrow> string \<Rightarrow> string" where
  "group_deleted_payload x i tenant name =
     (let u = (\<lambda>i. json_quote (ax_uuid (rx_audit (gx_rbac x)) i)) in
      json_object [(''id'', u i), (''name'', json_quote name), (''tenant_id'', u tenant)])"

definition create_group ::
  "group_ext \<Rightarrow> uuid \<Rightarrow> group_input \<Rightarrow> actor \<Rightarrow> ('z rbac_db_scheme, group) io" where
  "create_group x tenant inp who = in_tx
     (bind_io (insert_group_row tenant inp) (\<lambda>g.
      then_io (record_audit (rx_audit (gx_rbac x))
          (tenant_event who (gp_tenant g) ''group.created'' ''group'' (gp_id g)
            (parent_meta x (gp_name g) (gp_parent g))))
      (then_io (enqueue (group_event (gp_id g) ''group.created'' (gx_payload x g)))
        (ret g))))"

definition list_groups :: "group_ext \<Rightarrow> uuid \<Rightarrow> ('z rbac_db_scheme, group list) io" where
  "list_groups x tenant = db_read (\<lambda>w. sort_key (\<lambda>g. rx_coll (gx_rbac x) (gp_name g))
     (filter (\<lambda>g. gp_tenant g = tenant) (group_rows w)))"

definition delete_group :: "group_ext \<Rightarrow> uuid \<Rightarrow> uuid \<Rightarrow> actor \<Rightarrow> ('z rbac_db_scheme, unit) io" where
  "delete_group x i tenant who = in_tx
     (bind_io (delete_group_row i tenant) (\<lambda>name.
      then_io (record_audit (rx_audit (gx_rbac x))
          (tenant_event who tenant ''group.deleted'' ''group'' i (json_object [(''name'', json_quote name)])))
      (then_io (enqueue (group_event i ''group.deleted'' (group_deleted_payload x i tenant name)))
        (ret ()))))"

definition update_group ::
  "group_ext \<Rightarrow> uuid \<Rightarrow> uuid \<Rightarrow> group_input \<Rightarrow> actor \<Rightarrow> ('z rbac_db_scheme, group) io" where
  "update_group x i tenant inp who = in_tx
     (bind_io (update_group_row i tenant inp) (\<lambda>g.
      then_io (record_audit (rx_audit (gx_rbac x))
          (tenant_event who tenant ''group.updated'' ''group'' i (parent_meta x (gi_name inp) (gi_parent inp))))
      (then_io (enqueue (group_event i ''group.updated'' (gx_payload x g)))
        (ret g))))"

text \<open>The check of \<^verbatim>\<open>AddMember\<close> and its insert.\<close>

definition checked_add_member :: "uuid \<Rightarrow> uuid \<Rightarrow> uuid \<Rightarrow> ('z rbac_db_scheme, unit) io" where
  "checked_add_member grp user tenant =
     bind_io (db_read (\<lambda>w. \<exists>g \<in> set (group_rows w). gp_id g = grp \<and> gp_tenant g = tenant)) (\<lambda>found.
     then_io (guard found (ApiErr ErrNotFound)) (insert_member grp user tenant))"

definition add_member :: "group_ext \<Rightarrow> uuid \<Rightarrow> uuid \<Rightarrow> uuid \<Rightarrow> actor \<Rightarrow> ('z rbac_db_scheme, unit) io" where
  "add_member x grp user tenant who = in_tx
     (then_io (checked_add_member grp user tenant)
      (then_io (record_audit (rx_audit (gx_rbac x))
          (tenant_event who tenant ''group.member_added'' ''group'' grp (user_meta x user)))
      (then_io (enqueue (group_event grp ''group.member_added'' (member_payload x grp user tenant)))
        (ret ()))))"

definition remove_member :: "group_ext \<Rightarrow> uuid \<Rightarrow> uuid \<Rightarrow> uuid \<Rightarrow> actor \<Rightarrow> ('z rbac_db_scheme, unit) io" where
  "remove_member x grp user tenant who = in_tx
     (then_io (delete_member grp user tenant)
      (then_io (record_audit (rx_audit (gx_rbac x))
          (tenant_event who tenant ''group.member_removed'' ''group'' grp (user_meta x user)))
      (then_io (enqueue (group_event grp ''group.member_removed'' (member_payload x grp user tenant)))
        (ret ()))))"

text \<open>\<open>users\<close> is what the users table holds for an id: the e-mail address and the display name, unless deleted.\<close>

definition list_members ::
  "(uuid \<Rightarrow> (string \<times> string option) option) \<Rightarrow> group_ext \<Rightarrow> uuid \<Rightarrow> uuid \<Rightarrow>
   ('z rbac_db_scheme, (uuid \<times> string \<times> string option) list) io" where
  "list_members users x grp tenant = db_read (\<lambda>w.
     sort_key (\<lambda>v. rx_coll (gx_rbac x) (fst (snd v)))
       (concat (map (\<lambda>m. case users (gm_user m) of None \<Rightarrow> [] | Some (email, name) \<Rightarrow> [(gm_user m, email, name)])
         (filter (\<lambda>m. gm_group m = grp \<and> gm_tenant m = tenant) (member_rows w)))))"

section \<open>The handlers\<close>

datatype group_body =
    GroupNone
  | GroupOne group
  | GroupMany "group list"
  | GroupMembers "(uuid \<times> string \<times> string option) list"

definition uuid_param :: "(string \<Rightarrow> uuid option) \<Rightarrow> request \<Rightarrow> string \<Rightarrow> go_error + uuid" where
  "uuid_param pu r k =
     (case pu (url_param r k) of
        None \<Rightarrow> Inl (ApiErr (with_detail ErrBadRequest (''invalid '' @ k)))
      | Some i \<Rightarrow> Inr i)"

definition group_create_handler ::
  "group_ext \<Rightarrow> request \<Rightarrow> go_error + group_input \<Rightarrow> ('z rbac_db_scheme, nat \<times> group_body) io" where
  "group_create_handler x r body =
     bind_io (lift_res (require_tenant r)) (\<lambda>tenant.
     bind_io (lift_res body) (\<lambda>inp.
     bind_io (create_group x tenant inp (actor_of r)) (\<lambda>g. ret (201, GroupOne g))))"

definition group_list_handler ::
  "group_ext \<Rightarrow> (string \<Rightarrow> uuid option) \<Rightarrow> request \<Rightarrow> ('z rbac_db_scheme, nat \<times> group_body) io" where
  "group_list_handler x pu r =
     bind_io (lift_res (require_path_tenant pu r)) (\<lambda>tenant.
     bind_io (list_groups x tenant) (\<lambda>gs. ret (200, GroupMany gs)))"

definition group_delete_handler ::
  "group_ext \<Rightarrow> (string \<Rightarrow> uuid option) \<Rightarrow> request \<Rightarrow> ('z rbac_db_scheme, nat \<times> group_body) io" where
  "group_delete_handler x pu r =
     bind_io (lift_res (uuid_param pu r ''id'')) (\<lambda>i.
     bind_io (lift_res (require_tenant r)) (\<lambda>tenant.
     bind_io (delete_group x i tenant (actor_of r)) (\<lambda>_. ret (204, GroupNone))))"

definition group_update_handler ::
  "group_ext \<Rightarrow> (string \<Rightarrow> uuid option) \<Rightarrow> request \<Rightarrow> go_error + group_input \<Rightarrow>
   ('z rbac_db_scheme, nat \<times> group_body) io" where
  "group_update_handler x pu r body =
     bind_io (lift_res (uuid_param pu r ''id'')) (\<lambda>i.
     bind_io (lift_res (require_tenant r)) (\<lambda>tenant.
     bind_io (lift_res body) (\<lambda>inp.
     bind_io (update_group x i tenant inp (actor_of r)) (\<lambda>g. ret (200, GroupOne g)))))"

definition add_member_handler ::
  "group_ext \<Rightarrow> (string \<Rightarrow> uuid option) \<Rightarrow> request \<Rightarrow> ('z rbac_db_scheme, nat \<times> group_body) io" where
  "add_member_handler x pu r =
     bind_io (lift_res (uuid_param pu r ''id'')) (\<lambda>i.
     bind_io (lift_res (uuid_param pu r ''userID'')) (\<lambda>user.
     bind_io (lift_res (require_tenant r)) (\<lambda>tenant.
     bind_io (add_member x i user tenant (actor_of r)) (\<lambda>_. ret (204, GroupNone)))))"

definition remove_member_handler ::
  "group_ext \<Rightarrow> (string \<Rightarrow> uuid option) \<Rightarrow> request \<Rightarrow> ('z rbac_db_scheme, nat \<times> group_body) io" where
  "remove_member_handler x pu r =
     bind_io (lift_res (uuid_param pu r ''id'')) (\<lambda>i.
     bind_io (lift_res (uuid_param pu r ''userID'')) (\<lambda>user.
     bind_io (lift_res (require_tenant r)) (\<lambda>tenant.
     bind_io (remove_member x i user tenant (actor_of r)) (\<lambda>_. ret (204, GroupNone)))))"

definition list_members_handler ::
  "(uuid \<Rightarrow> (string \<times> string option) option) \<Rightarrow> group_ext \<Rightarrow> (string \<Rightarrow> uuid option) \<Rightarrow> request \<Rightarrow>
   ('z rbac_db_scheme, nat \<times> group_body) io" where
  "list_members_handler users x pu r =
     bind_io (lift_res (uuid_param pu r ''id'')) (\<lambda>i.
     bind_io (lift_res (require_tenant r)) (\<lambda>tenant.
     bind_io (list_members users x i tenant) (\<lambda>ms. ret (200, GroupMembers ms))))"

section \<open>An example\<close>

text \<open>A member of a group that holds a role; nobody holds a role directly; one role is of another tenant.\<close>

definition demo_rbac :: rbac_db where
  "demo_rbac = \<lparr>audit_rows = [], outbox_rows = [], dlq_rows = [], rel_rows = [], abac_policies = [],
     tenant_ids = [1, 2], perm_rows = [\<lparr>pm_id = 21, pm_key = ''role.read'', pm_description = []\<rparr>,
       \<lparr>pm_id = 22, pm_key = ''group.write'', pm_description = []\<rparr>],
     role_rows = [\<lparr>ro_id = 31, ro_tenant = 1, ro_name = ''Reader'', ro_description = [], ro_system = False, ro_created = 0\<rparr>,
       \<lparr>ro_id = 32, ro_tenant = 2, ro_name = ''Other'', ro_description = [], ro_system = False, ro_created = 0\<rparr>],
     role_perm_rows = [(31, 21)],
     user_role_rows = [],
     group_rows = [\<lparr>gp_id = 41, gp_tenant = 1, gp_parent = None, gp_name = ''ops'', gp_description = [], gp_created = 0\<rparr>,
       \<lparr>gp_id = 42, gp_tenant = 1, gp_parent = Some 41, gp_name = ''sre'', gp_description = [], gp_created = 0\<rparr>],
     member_rows = [\<lparr>gm_group = 41, gm_user = 3, gm_tenant = 1, gm_added = 0\<rparr>],
     group_role_rows = [\<lparr>gr_tenant = 1, gr_group = 41, gr_role = 31, gr_granted = 0, gr_by = None\<rparr>]\<rparr>"

end
