(* ===== verification/RbacHttp.thy ===== *)
theory RbacHttp imports GroupStore begin

text \<open>
  The handlers of \<^verbatim>\<open>internal/access/authorization/rbac/http.go\<close>. The body of a request arrives decoded;
  the struct validator is the argument \<open>valid\<close>, which answers with the error to report.
\<close>

definition rbac_actor_of :: "request \<Rightarrow> actor" where
  "rbac_actor_of r =
     (let a = \<lparr>a_user_id = None, a_type = ''system'', a_ip = client_ip r,
               a_user_agent = header_get r ''User-Agent'', a_request_id = rq_id r\<rparr> in
      case rq_principal r of
        None \<Rightarrow> a
      | Some p \<Rightarrow>
          a\<lparr>a_user_id := p_user_id p,
            a_type := (if p_actor_type p \<noteq> [] then p_actor_type p else ''user'')\<rparr>)"

definition scoped_role :: "(string \<Rightarrow> uuid option) \<Rightarrow> request \<Rightarrow> ('z rbac_db_scheme, uuid) io" where
  "scoped_role pu r =
     bind_io (lift_res (uuid_param pu r ''roleID'')) (\<lambda>role.
     bind_io (lift_res (require_tenant r)) (\<lambda>scope.
     bind_io (role_tenant role) (\<lambda>owner.
       if owner \<noteq> scope then fail (ApiErr ErrNotFound) else ret role)))"

datatype rbac_body =
    RbacNone
  | RbacPermissions "permission list"
  | RbacRoles "role list"
  | RbacRole role
  | RbacKeys "string list"
  | RbacExplained grant_explanation
  | RbacAllowed bool
  | RbacGroupRoles "group_role_view list"

type_synonym ('z) rbac_handler = "('z rbac_db_scheme, nat \<times> rbac_body) io"

definition list_permissions_handler :: "rbac_ext \<Rightarrow> 'z rbac_handler" where
  "list_permissions_handler x = bind_io (list_permissions x) (\<lambda>ps. ret (200, RbacPermissions ps))"

definition list_roles_handler :: "rbac_ext \<Rightarrow> (string \<Rightarrow> uuid option) \<Rightarrow> request \<Rightarrow> 'z rbac_handler" where
  "list_roles_handler x pu r =
     bind_io (lift_res (require_path_tenant pu r)) (\<lambda>tenant.
     bind_io (list_roles x tenant) (\<lambda>rs. ret (200, RbacRoles rs)))"

definition create_role_handler ::
  "rbac_ext \<Rightarrow> (string \<times> string \<Rightarrow> go_error option) \<Rightarrow> (string \<Rightarrow> uuid option) \<Rightarrow> request \<Rightarrow>
   go_error + string \<times> string \<Rightarrow> 'z rbac_handler" where
  "create_role_handler x valid pu r body =
     bind_io (lift_res (require_path_tenant pu r)) (\<lambda>tenant.
     bind_io (lift_res body) (\<lambda>inp.
     bind_io (lift_res (case valid inp of Some e \<Rightarrow> Inl e | None \<Rightarrow> Inr ())) (\<lambda>_.
     bind_io (create_role x tenant (fst inp) (snd inp) (rbac_actor_of r)) (\<lambda>ro. ret (201, RbacRole ro)))))"

definition list_role_permissions_handler ::
  "rbac_ext \<Rightarrow> (string \<Rightarrow> uuid option) \<Rightarrow> request \<Rightarrow> 'z rbac_handler" where
  "list_role_permissions_handler x pu r =
     bind_io (scoped_role pu r) (\<lambda>role.
     bind_io (list_role_permissions x role) (\<lambda>ps. ret (200, RbacPermissions ps)))"

definition grant_handler :: "rbac_ext \<Rightarrow> (string \<Rightarrow> uuid option) \<Rightarrow> request \<Rightarrow> 'z rbac_handler" where
  "grant_handler x pu r =
     bind_io (scoped_role pu r) (\<lambda>role.
     bind_io (lift_res (uuid_param pu r ''permID'')) (\<lambda>perm.
     bind_io (grant_permission x role perm (rbac_actor_of r)) (\<lambda>_. ret (204, RbacNone))))"

definition revoke_handler :: "rbac_ext \<Rightarrow> (string \<Rightarrow> uuid option) \<Rightarrow> request \<Rightarrow> 'z rbac_handler" where
  "revoke_handler x pu r =
     bind_io (scoped_role pu r) (\<lambda>role.
     bind_io (lift_res (uuid_param pu r ''permID'')) (\<lambda>perm.
     bind_io (revoke_permission x role perm (rbac_actor_of r)) (\<lambda>_. ret (204, RbacNone))))"

definition assign_handler ::
  "rbac_ext \<Rightarrow> 'z rbac_db_scheme emitter option \<Rightarrow> (string \<Rightarrow> uuid option) \<Rightarrow> request \<Rightarrow> 'z rbac_handler" where
  "assign_handler x emitter pu r =
     bind_io (lift_res (uuid_param pu r ''userID'')) (\<lambda>user.
     bind_io (lift_res (require_path_tenant pu r)) (\<lambda>tenant.
     bind_io (lift_res (uuid_param pu r ''roleID'')) (\<lambda>role.
     bind_io (let who = rbac_actor_of r in assign_role x emitter user tenant role (a_user_id who) who)
       (\<lambda>_. ret (204, RbacNone)))))"

definition unassign_handler ::
  "rbac_ext \<Rightarrow> 'z rbac_db_scheme emitter option \<Rightarrow> (string \<Rightarrow> uuid option) \<Rightarrow> request \<Rightarrow> 'z rbac_handler" where
  "unassign_handler x emitter pu r =
     bind_io (lift_res (uuid_param pu r ''userID'')) (\<lambda>user.
     bind_io (lift_res (require_path_tenant pu r)) (\<lambda>tenant.
     bind_io (lift_res (uuid_param pu r ''roleID'')) (\<lambda>role.
     bind_io (unassign_role x emitter user tenant role (rbac_actor_of r)) (\<lambda>_. ret (204, RbacNone)))))"

definition effective_handler :: "rbac_ext \<Rightarrow> (string \<Rightarrow> uuid option) \<Rightarrow> request \<Rightarrow> 'z rbac_handler" where
  "effective_handler x pu r =
     bind_io (lift_res (uuid_param pu r ''userID'')) (\<lambda>user.
     bind_io (lift_res (require_path_tenant pu r)) (\<lambda>tenant.
     bind_io (effective_permissions x user tenant) (\<lambda>keys. ret (200, RbacKeys keys))))"

definition check_handler :: "rbac_ext \<Rightarrow> (string \<Rightarrow> uuid option) \<Rightarrow> request \<Rightarrow> 'z rbac_handler" where
  "check_handler x pu r =
     bind_io (lift_res (case pu (query_get r ''user_id'') of
         None \<Rightarrow> Inl (ApiErr (with_detail ErrBadRequest ''invalid user_id'')) | Some u \<Rightarrow> Inr u)) (\<lambda>user.
     bind_io (lift_res (case pu (query_get r ''tenant_id'') of
         None \<Rightarrow> Inl (ApiErr (with_detail ErrBadRequest ''invalid tenant_id'')) | Some t \<Rightarrow> Inr t)) (\<lambda>tenant.
     bind_io (lift_res (require_tenant r)) (\<lambda>scope.
       if tenant \<noteq> scope then fail (ApiErr (with_detail ErrForbidden ''tenant mismatch''))
       else
         let perm = query_get r ''permission'' in
         if perm = [] then fail (ApiErr (with_detail ErrBadRequest ''permission required''))
         else if query_get r ''explain'' = ''true'' then
           bind_io (explain x user tenant perm) (\<lambda>ex. ret (200, RbacExplained ex))
         else bind_io (rbac_check user tenant perm) (\<lambda>ok. ret (200, RbacAllowed ok)))))"

definition list_group_roles_handler ::
  "rbac_ext \<Rightarrow> (string \<Rightarrow> uuid option) \<Rightarrow> request \<Rightarrow> 'z rbac_handler" where
  "list_group_roles_handler x pu r =
     bind_io (lift_res (require_path_tenant pu r)) (\<lambda>tenant.
     bind_io (lift_res (uuid_param pu r ''groupID'')) (\<lambda>grp.
     bind_io (list_group_roles x grp tenant) (\<lambda>rs. ret (200, RbacGroupRoles rs))))"

definition assign_group_handler :: "rbac_ext \<Rightarrow> (string \<Rightarrow> uuid option) \<Rightarrow> request \<Rightarrow> 'z rbac_handler" where
  "assign_group_handler x pu r =
     bind_io (lift_res (require_path_tenant pu r)) (\<lambda>tenant.
     bind_io (lift_res (uuid_param pu r ''groupID'')) (\<lambda>grp.
     bind_io (lift_res (uuid_param pu r ''roleID'')) (\<lambda>role.
     bind_io (let who = rbac_actor_of r in assign_role_to_group x grp tenant role (a_user_id who) who)
       (\<lambda>_. ret (204, RbacNone)))))"

definition unassign_group_handler :: "rbac_ext \<Rightarrow> (string \<Rightarrow> uuid option) \<Rightarrow> request \<Rightarrow> 'z rbac_handler" where
  "unassign_group_handler x pu r =
     bind_io (lift_res (require_path_tenant pu r)) (\<lambda>tenant.
     bind_io (lift_res (uuid_param pu r ''groupID'')) (\<lambda>grp.
     bind_io (lift_res (uuid_param pu r ''roleID'')) (\<lambda>role.
     bind_io (remove_role_from_group x grp tenant role (rbac_actor_of r)) (\<lambda>_. ret (204, RbacNone)))))"

end
