(* ===== verification/RbacTables.thy ===== *)
theory RbacTables imports RbacHttp begin

text \<open>
  The access tables as a state machine: every mutation of the role and group services is a transaction
  that refines one abstract change with its audit row, and the changes keep the keys and the references
  of the tables, including the cascade of a group deletion.
\<close>

section \<open>Abstract changes\<close>

datatype access_change =
    RoleCreated role
  | Granted uuid uuid
  | Revoked uuid uuid
  | Assigned user_role
  | Unassigned uuid uuid uuid
  | GroupAssigned group_role
  | GroupUnassigned uuid uuid uuid
  | GroupCreated group
  | GroupUpdated group
  | GroupDeleted uuid
  | MemberAdded member
  | MemberRemoved uuid uuid uuid

fun apply_access :: "access_change \<Rightarrow> 'z rbac_db_scheme \<Rightarrow> 'z rbac_db_scheme" where
  "apply_access (RoleCreated r) w = w\<lparr>role_rows := role_rows w @ [r]\<rparr>"
| "apply_access (Granted r p) w =
     (if (r, p) \<in> set (role_perm_rows w) then w else w\<lparr>role_perm_rows := role_perm_rows w @ [(r, p)]\<rparr>)"
| "apply_access (Revoked r p) w = w\<lparr>role_perm_rows := filter (\<lambda>rp. rp \<noteq> (r, p)) (role_perm_rows w)\<rparr>"
| "apply_access (Assigned u) w =
     (if user_role_key u \<in> set (map user_role_key (user_role_rows w)) then w
      else w\<lparr>user_role_rows := user_role_rows w @ [u]\<rparr>)"
| "apply_access (Unassigned u t r) w =
     w\<lparr>user_role_rows := filter (\<lambda>q. user_role_key q \<noteq> (u, t, r)) (user_role_rows w)\<rparr>"
| "apply_access (GroupAssigned q) w =
     (if \<exists>p \<in> set (group_role_rows w). gr_group p = gr_group q \<and> gr_role p = gr_role q then w
      else w\<lparr>group_role_rows := group_role_rows w @ [q]\<rparr>)"
| "apply_access (GroupUnassigned g t r) w = w\<lparr>group_role_rows :=
     filter (\<lambda>q. \<not> (gr_group q = g \<and> gr_tenant q = t \<and> gr_role q = r)) (group_role_rows w)\<rparr>"
| "apply_access (GroupCreated g) w = w\<lparr>group_rows := group_rows w @ [g]\<rparr>"
| "apply_access (GroupUpdated g) w = w\<lparr>group_rows :=
     map (\<lambda>q. if gp_id q = gp_id g \<and> gp_tenant q = gp_tenant g then g else q) (group_rows w)\<rparr>"
| "apply_access (GroupDeleted i) w = cascade i w"
| "apply_access (MemberAdded m) w =
     (if \<exists>p \<in> set (member_rows w). gm_group p = gm_group m \<and> gm_user p = gm_user m then w
      else w\<lparr>member_rows := member_rows w @ [m]\<rparr>)"
| "apply_access (MemberRemoved g u t) w = w\<lparr>member_rows :=
     filter (\<lambda>m. \<not> (gm_group m = g \<and> gm_user m = u \<and> gm_tenant m = t)) (member_rows w)\<rparr>"

text \<open>When the code makes a change: the keys are free, and what it refers to is there.\<close>

definition group_key :: "group \<Rightarrow> uuid \<times> uuid" where
  "group_key g = (gp_id g, gp_tenant g)"

definition role_key :: "role \<Rightarrow> uuid \<times> uuid" where
  "role_key r = (ro_id r, ro_tenant r)"

definition same_tenant_group :: "uuid \<Rightarrow> uuid \<Rightarrow> 'z rbac_db_scheme \<Rightarrow> bool" where
  "same_tenant_group g t w \<longleftrightarrow> (g, t) \<in> set (map group_key (group_rows w))"

definition same_tenant_role :: "uuid \<Rightarrow> uuid \<Rightarrow> 'z rbac_db_scheme \<Rightarrow> bool" where
  "same_tenant_role r t w \<longleftrightarrow> (r, t) \<in> set (map role_key (role_rows w))"

fun change_ok :: "access_change \<Rightarrow> 'z rbac_db_scheme \<Rightarrow> bool" where
  "change_ok (RoleCreated r) w \<longleftrightarrow> ro_id r \<notin> set (map ro_id (role_rows w)) \<and> ro_tenant r \<in> set (tenant_ids w)"
| "change_ok (Granted r p) w \<longleftrightarrow> (r, p) \<in> set (role_perm_rows w) \<or>
     r \<in> set (map ro_id (role_rows w)) \<and> p \<in> set (map pm_id (perm_rows w))"
| "change_ok (Assigned u) w \<longleftrightarrow> user_role_key u \<in> set (map user_role_key (user_role_rows w)) \<or>
     ur_tenant u \<in> set (tenant_ids w) \<and> ur_role u \<in> set (map ro_id (role_rows w))"
| "change_ok (GroupAssigned q) w \<longleftrightarrow>
     (\<exists>p \<in> set (group_role_rows w). gr_group p = gr_group q \<and> gr_role p = gr_role q \<and> gr_tenant p = gr_tenant q) \<or>
     \<not> (\<exists>p \<in> set (group_role_rows w). gr_group p = gr_group q \<and> gr_role p = gr_role q) \<and>
     same_tenant_group (gr_group q) (gr_tenant q) w \<and> same_tenant_role (gr_role q) (gr_tenant q) w"
| "change_ok (GroupCreated g) w \<longleftrightarrow> gp_id g \<notin> set (map gp_id (group_rows w)) \<and>
     gp_tenant g \<in> set (tenant_ids w) \<and> parent_exists (gp_parent g) (g # group_rows w)"
| "change_ok (GroupUpdated g) w \<longleftrightarrow> same_tenant_group (gp_id g) (gp_tenant g) w \<and>
     parent_exists (gp_parent g) (group_rows w)"
| "change_ok (MemberAdded m) w \<longleftrightarrow> same_tenant_group (gm_group m) (gm_tenant m) w"
| "change_ok c w \<longleftrightarrow> True"

section \<open>Consistent tables\<close>

text \<open>The index on the names of the roles of a tenant is on what the database makes of them with \<^verbatim>\<open>LOWER\<close>.\<close>

definition role_names_unique :: "(string \<Rightarrow> string) \<Rightarrow> 'z rbac_db_scheme \<Rightarrow> bool" where
  "role_names_unique low w \<longleftrightarrow> distinct (map (\<lambda>r. (ro_tenant r, low (ro_name r))) (role_rows w))"

definition keys_ok :: "'z rbac_db_scheme \<Rightarrow> bool" where
  "keys_ok w \<longleftrightarrow> distinct (map ro_id (role_rows w)) \<and> distinct (map gp_id (group_rows w)) \<and>
     distinct (role_perm_rows w) \<and> distinct (map user_role_key (user_role_rows w)) \<and>
     distinct (map pm_id (perm_rows w)) \<and> distinct (map pm_key (perm_rows w)) \<and>
     distinct (map (\<lambda>q. (gr_group q, gr_role q)) (group_role_rows w)) \<and>
     distinct (map (\<lambda>m. (gm_group m, gm_user m)) (member_rows w))"

definition refs_ok :: "'z rbac_db_scheme \<Rightarrow> bool" where
  "refs_ok w \<longleftrightarrow>
     (\<forall>r \<in> set (role_rows w). ro_tenant r \<in> set (tenant_ids w)) \<and>
     (\<forall>rp \<in> set (role_perm_rows w). fst rp \<in> set (map ro_id (role_rows w)) \<and> snd rp \<in> set (map pm_id (perm_rows w))) \<and>
     (\<forall>u \<in> set (user_role_rows w). ur_tenant u \<in> set (tenant_ids w) \<and> ur_role u \<in> set (map ro_id (role_rows w))) \<and>
     (\<forall>g \<in> set (group_rows w). gp_tenant g \<in> set (tenant_ids w) \<and> parent_exists (gp_parent g) (group_rows w)) \<and>
     (\<forall>m \<in> set (member_rows w). same_tenant_group (gm_group m) (gm_tenant m) w) \<and>
     (\<forall>q \<in> set (group_role_rows w). same_tenant_group (gr_group q) (gr_tenant q) w \<and>
        same_tenant_role (gr_role q) (gr_tenant q) w)"

definition access_ok :: "'z rbac_db_scheme \<Rightarrow> bool" where
  "access_ok w \<longleftrightarrow> keys_ok w \<and> refs_ok w"

lemmas access_defs = access_ok_def keys_ok_def refs_ok_def same_tenant_group_def same_tenant_role_def

subsection \<open>The cascade is closed\<close>

definition closed_under_parents :: "group list \<Rightarrow> uuid set \<Rightarrow> bool" where
  "closed_under_parents gs S \<longleftrightarrow> (\<forall>g \<in> set gs. \<forall>p \<in> S. gp_parent g = Some p \<longrightarrow> gp_id g \<in> S)"

lemma doomed_superset: "set is \<subseteq> set (doomed n gs is)"
  by (induction n gs "is" rule: doomed.induct) auto

lemma doomed_closed:
  "card (gp_id ` set gs - set is) \<le> n \<Longrightarrow> closed_under_parents gs (set (doomed n gs is))"
proof (induction n arbitrary: "is")
  case 0
  then have "gp_id ` set gs \<subseteq> set is" by simp
  then show ?case by (auto simp: closed_under_parents_def)
next
  case (Suc n)
  let ?new = "filter (\<lambda>g. gp_id g \<notin> set is \<and> (case gp_parent g of None \<Rightarrow> False | Some p \<Rightarrow> p \<in> set is)) gs"
  show ?case
  proof (cases "?new = []")
    case True
    then have "closed_under_parents gs (set is)"
      by (auto simp: closed_under_parents_def filter_empty_conv split: option.splits)
    moreover have "doomed k gs is = is" for k using True by (induction k) simp_all
    ultimately show ?thesis by simp
  next
    case False
    then have "last ?new \<in> set ?new" by (rule last_in_set)
    then obtain g where "g \<in> set ?new" by blast
    then have g: "g \<in> set gs" "gp_id g \<notin> set is" "gp_id g \<in> set (is @ map gp_id ?new)" by auto
    have "gp_id ` set gs - set (is @ map gp_id ?new) \<subset> gp_id ` set gs - set is"
    proof
      show "gp_id ` set gs - set (is @ map gp_id ?new) \<subseteq> gp_id ` set gs - set is" by auto
      show "gp_id ` set gs - set (is @ map gp_id ?new) \<noteq> gp_id ` set gs - set is" using g by blast
    qed
    then have "card (gp_id ` set gs - set (is @ map gp_id ?new)) < card (gp_id ` set gs - set is)"
      by (intro psubset_card_mono) simp_all
    with Suc.prems have "card (gp_id ` set gs - set (is @ map gp_id ?new)) \<le> n" by linarith
    from Suc.IH [OF this] show ?thesis by simp
  qed
qed

lemma cascade_closed:
  "closed_under_parents (group_rows w) (set (doomed (length (group_rows w)) (group_rows w) [i]))"
proof (rule doomed_closed)
  have "card (gp_id ` set (group_rows w) - set [i]) \<le> card (gp_id ` set (group_rows w))"
    by (intro card_mono) auto
  also have "\<dots> \<le> length (group_rows w)" by (metis card_length length_map set_map)
  finally show "card (gp_id ` set (group_rows w) - set [i]) \<le> length (group_rows w)" .
qed

lemma cascade_ok:
  assumes "access_ok w"
  shows "access_ok (cascade i w)"
proof -
  obtain S where S: "S = set (doomed (length (group_rows w)) (group_rows w) [i])" by simp
  have cl: "closed_under_parents (group_rows w) S" unfolding S by (rule cascade_closed)
  have c: "cascade i w = w\<lparr>group_rows := filter (\<lambda>g. gp_id g \<notin> S) (group_rows w),
      member_rows := filter (\<lambda>m. gm_group m \<notin> S) (member_rows w),
      group_role_rows := filter (\<lambda>q. gr_group q \<notin> S) (group_role_rows w)\<rparr>"
    by (simp add: cascade_def S Let_def)
  have "parent_exists (gp_parent g) (filter (\<lambda>g. gp_id g \<notin> S) (group_rows w))"
    if g: "g \<in> set (group_rows w)" "gp_id g \<notin> S" for g
  proof (cases "gp_parent g")
    case (Some p)
    with g cl have "p \<notin> S" by (auto simp: closed_under_parents_def)
    moreover from g Some assms have "p \<in> gp_id ` set (group_rows w)"
      by (auto simp: access_ok_def refs_ok_def parent_exists_def split: option.splits)
    ultimately show ?thesis using Some by (auto simp: parent_exists_def)
  qed (simp add: parent_exists_def)
  moreover have "keys_ok (cascade i w)"
    using assms by (simp add: c access_ok_def keys_ok_def distinct_map_filter)
  moreover have "same_tenant_group g t (cascade i w) \<longleftrightarrow> g \<notin> S \<and> same_tenant_group g t w" for g t
    by (auto simp: c same_tenant_group_def group_key_def image_iff)
  moreover have "same_tenant_role r t (cascade i w) = same_tenant_role r t w" for r t
    by (simp add: c same_tenant_role_def)
  ultimately show ?thesis using assms by (simp add: c access_ok_def refs_ok_def)
qed


section \<open>Changes keep the tables consistent\<close>

lemma swap_group_keys:
  "map group_key (map (\<lambda>q. if gp_id q = gp_id g \<and> gp_tenant q = gp_tenant g then g else q) gs) = map group_key gs"
  by (induction gs) (auto simp: group_key_def)

lemma group_ids: "map gp_id gs = map fst (map group_key gs)"
  by (simp add: group_key_def comp_def)

lemma parent_exists_ids: "map gp_id gs = map gp_id gs' \<Longrightarrow> parent_exists p gs = parent_exists p gs'"
  by (simp only: parent_exists_def)

lemma group_update_ok:
  assumes "access_ok w" and "change_ok (GroupUpdated g) w"
  shows "access_ok (apply_access (GroupUpdated g) w)"
proof -
  obtain gs where gs: "gs = map (\<lambda>q. if gp_id q = gp_id g \<and> gp_tenant q = gp_tenant g then g else q) (group_rows w)"
    by simp
  then have keys: "map group_key gs = map group_key (group_rows w)" by (simp only: swap_group_keys)
  then have ids: "map gp_id gs = map gp_id (group_rows w)" by (simp only: group_ids)
  have w': "apply_access (GroupUpdated g) w = w\<lparr>group_rows := gs\<rparr>" by (simp add: gs)
  have "keys_ok (w\<lparr>group_rows := gs\<rparr>)"
    using assms(1) ids by (simp add: access_ok_def keys_ok_def)
  moreover have "same_tenant_group i t (w\<lparr>group_rows := gs\<rparr>) = same_tenant_group i t w" for i t
    using keys by (simp only: same_tenant_group_def) simp
  moreover have "same_tenant_role i t (w\<lparr>group_rows := gs\<rparr>) = same_tenant_role i t w" for i t
    by (simp add: same_tenant_role_def)
  moreover have "gp_tenant q \<in> set (tenant_ids w) \<and> parent_exists (gp_parent q) gs" if "q \<in> set gs" for q
  proof -
    from that have "q = g \<or> q \<in> set (group_rows w)" by (auto simp: gs)
    then show ?thesis using assms parent_exists_ids [OF ids]
      by (auto simp: access_ok_def refs_ok_def same_tenant_group_def group_key_def)
  qed
  ultimately show ?thesis using assms(1) unfolding w' by (simp add: access_ok_def refs_ok_def)
qed

lemma parent_exists_mono: "parent_exists p gs \<Longrightarrow> set gs \<subseteq> set gs' \<Longrightarrow> parent_exists p gs'"
  by (auto simp: parent_exists_def split: option.splits)

lemma group_create_ok:
  assumes "access_ok w" and "change_ok (GroupCreated g) w"
  shows "access_ok (apply_access (GroupCreated g) w)"
proof -
  have "parent_exists (gp_parent q) (group_rows w @ [g])" if "q \<in> set (group_rows w @ [g])" for q
  proof -
    have m: "set (group_rows w) \<subseteq> set (group_rows w @ [g])" "set (g # group_rows w) \<subseteq> set (group_rows w @ [g])" by auto
    have "parent_exists (gp_parent q) (group_rows w) \<or> parent_exists (gp_parent q) (g # group_rows w)"
      using that assms by (auto simp: access_ok_def refs_ok_def)
    then show ?thesis using parent_exists_mono m by blast
  qed
  moreover have "keys_ok (w\<lparr>group_rows := group_rows w @ [g]\<rparr>)"
    using assms by (simp add: access_ok_def keys_ok_def)
  ultimately show ?thesis using assms by (auto simp: access_ok_def refs_ok_def same_tenant_group_def same_tenant_role_def)
qed

lemma assignments_ok:
  assumes "access_ok w"
  shows "change_ok (RoleCreated r) w \<Longrightarrow> access_ok (apply_access (RoleCreated r) w)"
    and "change_ok (Granted r1 p1) w \<Longrightarrow> access_ok (apply_access (Granted r1 p1) w)"
    and "change_ok (Assigned u) w \<Longrightarrow> access_ok (apply_access (Assigned u) w)"
    and "change_ok (GroupAssigned q) w \<Longrightarrow> access_ok (apply_access (GroupAssigned q) w)"
    and "change_ok (MemberAdded m) w \<Longrightarrow> access_ok (apply_access (MemberAdded m) w)"
  using assms
  by (auto simp: access_ok_def keys_ok_def refs_ok_def same_tenant_group_def same_tenant_role_def)

lemma removals_ok:
  assumes "access_ok w"
  shows "access_ok (apply_access (Revoked r1 p1) w)" and "access_ok (apply_access (Unassigned i1 t1 r2) w)"
    and "access_ok (apply_access (GroupUnassigned i2 t2 r3) w)"
    and "access_ok (apply_access (MemberRemoved i3 u3 t3) w)"
  using assms
  by (auto simp: access_ok_def keys_ok_def refs_ok_def same_tenant_group_def same_tenant_role_def
      distinct_map_filter)

lemma apply_access_ok: "access_ok w \<Longrightarrow> change_ok c w \<Longrightarrow> access_ok (apply_access c w)"
  by (cases c) (simp_all only: assignments_ok removals_ok group_create_ok group_update_ok
      apply_access.simps(10) cascade_ok)

end
