(* ===== verification/RbacChanges.thy ===== *)
theory RbacChanges imports RbacTables begin

text \<open>
  The mutations of the role and group services refine the abstract changes: a successful call is one
  change that was allowed, its audit row and, for groups, its event; a failed call changes nothing.
\<close>

section \<open>The rows\<close>

lemma repo_create_role_ok:
  assumes "repo_create_role x tenant name desc system e w = (Inr r, e', w')"
  shows "w' = apply_access (RoleCreated r) w" "change_ok (RoleCreated r) w"
    "ro_tenant r = tenant" "ro_name r = name" "ro_description r = desc" "ro_system r = system"
    "\<forall>q \<in> set (role_rows w). ro_tenant q = tenant \<longrightarrow> rx_lower x (ro_name q) \<noteq> rx_lower x name"
  using assms
  by (auto simp: repo_create_role_def io_ok insert_role_def Let_def split: sum.splits if_splits)

lemma repo_grant_ok:
  assumes "repo_grant role perm e w = (Inr u, e', w')"
  shows "w' = apply_access (Granted role perm) w \<and> change_ok (Granted role perm) w"
  using assms by (auto simp: repo_grant_def io_ok split: if_splits)

lemma repo_revoke_ok:
  "repo_revoke role perm e w = (Inr u, e', w') \<Longrightarrow> w' = apply_access (Revoked role perm) w"
  by (auto simp: repo_revoke_def io_ok)

lemma repo_assign_ok:
  assumes "repo_assign user tenant role by_user e w = (Inr u, e', w')"
  shows "\<exists>now. w' = apply_access (Assigned \<lparr>ur_user = user, ur_tenant = tenant, ur_role = role,
        ur_granted = now, ur_by = by_user\<rparr>) w \<and>
      change_ok (Assigned \<lparr>ur_user = user, ur_tenant = tenant, ur_role = role, ur_granted = now, ur_by = by_user\<rparr>) w"
proof -
  have k: "user_role_key \<lparr>ur_user = user, ur_tenant = tenant, ur_role = role, ur_granted = now, ur_by = by_user\<rparr> =
      (user, tenant, role)" for now by (simp add: user_role_key_def)
  from assms show ?thesis by (auto simp: repo_assign_def io_ok k split: if_splits)
qed

lemma repo_unassign_ok:
  "repo_unassign user tenant role e w = (Inr u, e', w') \<Longrightarrow> w' = apply_access (Unassigned user tenant role) w"
  by (auto simp: repo_unassign_def io_ok)

lemma checked_assign_group_ok:
  assumes "checked_assign_group grp tenant role by_user e w = (Inr u, e', w')"
  shows "\<exists>now. w' = apply_access (GroupAssigned \<lparr>gr_tenant = tenant, gr_group = grp, gr_role = role,
        gr_granted = now, gr_by = by_user\<rparr>) w \<and>
      change_ok (GroupAssigned \<lparr>gr_tenant = tenant, gr_group = grp, gr_role = role,
        gr_granted = now, gr_by = by_user\<rparr>) w"
proof -
  have g: "same_tenant_group grp tenant w \<longleftrightarrow> (\<exists>g \<in> set (group_rows w). gp_id g = grp \<and> gp_tenant g = tenant)"
    by (auto simp: same_tenant_group_def group_key_def image_iff)
  have r: "same_tenant_role role tenant w \<longleftrightarrow> (\<exists>r \<in> set (role_rows w). ro_id r = role \<and> ro_tenant r = tenant)"
    by (auto simp: same_tenant_role_def role_key_def image_iff)
  let ?taken = "\<exists>q \<in> set (group_role_rows w). gr_group q = grp \<and> gr_role q = role"
  let ?new = "\<lambda>now. \<lparr>gr_tenant = tenant, gr_group = grp, gr_role = role, gr_granted = now, gr_by = by_user\<rparr>"
  obtain now where now: "now = e_clock e (e_ticks e)" by simp
  from assms have c: "w' = (if same_tenant_group grp tenant w \<and> same_tenant_role role tenant w \<and> \<not> ?taken
        then w\<lparr>group_role_rows := group_role_rows w @ [?new now]\<rparr> else w) \<and>
      (same_tenant_group grp tenant w \<and> same_tenant_role role tenant w \<and> \<not> ?taken \<or>
       (\<exists>q \<in> set (group_role_rows w). gr_group q = grp \<and> gr_role q = role \<and> gr_tenant q = tenant))"
    unfolding checked_assign_group_def repo_assign_group_def bind_ok time_now_ok db_call_ok guard_ok Let_def
      prod.inject sum.inject g r now
    by (elim exE conjE) (simp only: simp_thms)
  note w' = c [THEN conjunct1] and a = c [THEN conjunct2]
  have "w' = apply_access (GroupAssigned (?new now)) w"
  proof (cases ?taken)
    case False
    with a have "same_tenant_group grp tenant w \<and> same_tenant_role role tenant w" by blast
    with False w' show ?thesis by simp
  next
    case True
    then have "\<not> (same_tenant_group grp tenant w \<and> same_tenant_role role tenant w \<and> \<not> ?taken)" by blast
    with w' have "w' = w" by (simp only: if_False)
    with True show ?thesis by simp
  qed
  moreover have "change_ok (GroupAssigned (?new now)) w"
    unfolding change_ok.simps using a by (elim disjE) simp_all
  ultimately show ?thesis by blast
qed

lemma repo_remove_group_ok:
  "repo_remove_group grp tenant role e w = (Inr u, e', w') \<Longrightarrow>
     w' = apply_access (GroupUnassigned grp tenant role) w"
  by (auto simp: repo_remove_group_def io_ok)

lemma insert_group_row_ok:
  assumes "insert_group_row tenant inp e w = (Inr g, e', w')"
  shows "w' = apply_access (GroupCreated g) w" "change_ok (GroupCreated g) w" "gp_tenant g = tenant"
    "gp_name g = gi_name inp" "gp_description g = gi_description inp" "gp_parent g = gi_parent inp"
  using assms by (auto simp: insert_group_row_def io_ok insert_group_def Let_def split: sum.splits if_splits)

lemma find_group_Some:
  "find_group i tenant gs = Some g \<Longrightarrow> g \<in> set gs \<and> gp_id g = i \<and> gp_tenant g = tenant"
  by (auto simp: find_group_def find_Some_iff)

lemma delete_group_row_ok:
  assumes "delete_group_row i tenant e w = (Inr name, e', w')"
  shows "w' = apply_access (GroupDeleted i) w" "\<exists>g. find_group i tenant (group_rows w) = Some g \<and> gp_name g = name"
  using assms by (auto simp: delete_group_row_def io_ok split: option.splits if_splits)

lemma update_group_row_ok:
  assumes "update_group_row i tenant inp e w = (Inr g, e', w')"
  shows "w' = apply_access (GroupUpdated g) w" "change_ok (GroupUpdated g) w" "gp_id g = i" "gp_tenant g = tenant"
    "gp_name g = gi_name inp" "gp_description g = gi_description inp" "gp_parent g = gi_parent inp"
proof -
  from assms obtain old where o: "find_group i tenant (group_rows w) = Some old"
    and g: "g = old\<lparr>gp_name := gi_name inp, gp_description := gi_description inp, gp_parent := gi_parent inp\<rparr>"
    and p: "parent_exists (gp_parent g) (group_rows w)"
    and w': "w' = w\<lparr>group_rows := map (\<lambda>q. if gp_id q = i \<and> gp_tenant q = tenant then g else q) (group_rows w)\<rparr>"
    by (auto simp: update_group_row_def io_ok Let_def split: option.splits if_splits)
  note f = find_group_Some [OF o]
  with g show "gp_id g = i" "gp_tenant g = tenant" "gp_name g = gi_name inp"
    "gp_description g = gi_description inp" "gp_parent g = gi_parent inp" by simp_all
  with w' show "w' = apply_access (GroupUpdated g) w" by simp
  from f have "(i, tenant) \<in> group_key ` set (group_rows w)" by (force simp: group_key_def image_iff)
  with p \<open>gp_id g = i\<close> \<open>gp_tenant g = tenant\<close> show "change_ok (GroupUpdated g) w"
    by (simp add: same_tenant_group_def)
qed

lemma checked_add_member_ok:
  assumes "checked_add_member grp user tenant e w = (Inr u, e', w')"
  shows "\<exists>now. w' = apply_access (MemberAdded \<lparr>gm_group = grp, gm_user = user, gm_tenant = tenant, gm_added = now\<rparr>) w \<and>
      change_ok (MemberAdded \<lparr>gm_group = grp, gm_user = user, gm_tenant = tenant, gm_added = now\<rparr>) w"
proof -
  have g: "same_tenant_group grp tenant w \<longleftrightarrow> (\<exists>g \<in> set (group_rows w). gp_id g = grp \<and> gp_tenant g = tenant)"
    by (auto simp: same_tenant_group_def group_key_def image_iff)
  from assms show ?thesis
    by (auto simp: checked_add_member_def insert_member_def io_ok g split: if_splits)
qed

lemma delete_member_ok:
  "delete_member grp user tenant e w = (Inr u, e', w') \<Longrightarrow> w' = apply_access (MemberRemoved grp user tenant) w"
  by (auto simp: delete_member_def io_ok)

section \<open>The transactions\<close>

lemma apply_access_logs: "logs_kept w (apply_access c w)"
  by (cases c) (simp_all add: logs_kept_def cascade_def Let_def)

lemma logs_kept_change: "w' = apply_access c w \<Longrightarrow> logs_kept w w'"
  by (simp add: apply_access_logs)

interpretation role_creating: recorded_change "rx_audit x" "repo_create_role x tenant name desc False"
    "\<lambda>r. tenant_event who tenant ''role.created'' ''role'' (ro_id r)
          (json_object [(''is_system'', json_bool (ro_system r)), (''name'', json_quote (ro_name r))])"
    "\<lambda>r. r" "create_role x tenant name desc who"
  by unfold_locales (rule create_role_def, erule logs_kept_change [OF repo_create_role_ok(1)])

interpretation granting: recorded_change "rx_audit x" "repo_grant role perm"
    "\<lambda>_. platform_event who ''role.permission_granted'' ''role'' role (permission_id_meta x perm)"
    "\<lambda>_. ()" "grant_permission x role perm who"
  by unfold_locales (rule grant_permission_def, blast dest: repo_grant_ok logs_kept_change)

interpretation revoking: recorded_change "rx_audit x" "repo_revoke role perm"
    "\<lambda>_. platform_event who ''role.permission_revoked'' ''role'' role (permission_id_meta x perm)"
    "\<lambda>_. ()" "revoke_permission x role perm who"
  by unfold_locales (rule revoke_permission_def, blast dest: repo_revoke_ok logs_kept_change)

interpretation assigning: recorded_change "rx_audit x" "repo_assign user tenant role by_user"
    "\<lambda>_. tenant_event who tenant ''role.assigned'' ''user'' user (role_id_meta x role)"
    "\<lambda>_. ()" "assign_tx x user tenant role by_user who"
  by unfold_locales (rule assign_tx_def, blast dest: repo_assign_ok logs_kept_change)

interpretation unassigning: recorded_change "rx_audit x" "repo_unassign user tenant role"
    "\<lambda>_. tenant_event who tenant ''role.unassigned'' ''user'' user (role_id_meta x role)"
    "\<lambda>_. ()" "unassign_tx x user tenant role who"
  by unfold_locales (rule unassign_tx_def, blast dest: repo_unassign_ok logs_kept_change)

interpretation group_assigning: recorded_change "rx_audit x" "checked_assign_group grp tenant role by_user"
    "\<lambda>_. tenant_event who tenant ''role.group_assigned'' ''group'' grp (role_id_meta x role)"
    "\<lambda>_. ()" "assign_role_to_group x grp tenant role by_user who"
  by unfold_locales (rule assign_role_to_group_def, blast dest: checked_assign_group_ok logs_kept_change)

interpretation group_unassigning: recorded_change "rx_audit x" "repo_remove_group grp tenant role"
    "\<lambda>_. tenant_event who tenant ''role.group_unassigned'' ''group'' grp (role_id_meta x role)"
    "\<lambda>_. ()" "remove_role_from_group x grp tenant role who"
  by unfold_locales (rule remove_role_from_group_def, blast dest: repo_remove_group_ok logs_kept_change)

interpretation group_creating: announced_change "rx_audit (gx_rbac x)" "insert_group_row tenant inp"
    "\<lambda>g. tenant_event who (gp_tenant g) ''group.created'' ''group'' (gp_id g) (parent_meta x (gp_name g) (gp_parent g))"
    "\<lambda>g. group_event (gp_id g) ''group.created'' (gx_payload x g)" "\<lambda>g. g" "create_group x tenant inp who"
  by unfold_locales (rule create_group_def, erule logs_kept_change [OF insert_group_row_ok(1)])

interpretation group_deleting: announced_change "rx_audit (gx_rbac x)" "delete_group_row i tenant"
    "\<lambda>name. tenant_event who tenant ''group.deleted'' ''group'' i (json_object [(''name'', json_quote name)])"
    "\<lambda>name. group_event i ''group.deleted'' (group_deleted_payload x i tenant name)" "\<lambda>_. ()"
    "delete_group x i tenant who"
  by unfold_locales (rule delete_group_def, erule logs_kept_change [OF delete_group_row_ok(1)])

interpretation group_updating: announced_change "rx_audit (gx_rbac x)" "update_group_row i tenant inp"
    "\<lambda>g. tenant_event who tenant ''group.updated'' ''group'' i (parent_meta x (gi_name inp) (gi_parent inp))"
    "\<lambda>g. group_event i ''group.updated'' (gx_payload x g)" "\<lambda>g. g" "update_group x i tenant inp who"
  by unfold_locales (rule update_group_def, erule logs_kept_change [OF update_group_row_ok(1)])

interpretation member_adding: announced_change "rx_audit (gx_rbac x)" "checked_add_member grp user tenant"
    "\<lambda>_. tenant_event who tenant ''group.member_added'' ''group'' grp (user_meta x user)"
    "\<lambda>_. group_event grp ''group.member_added'' (member_payload x grp user tenant)" "\<lambda>_. ()"
    "add_member x grp user tenant who"
  by unfold_locales (rule add_member_def, blast dest: checked_add_member_ok logs_kept_change)

interpretation member_removing: announced_change "rx_audit (gx_rbac x)" "delete_member grp user tenant"
    "\<lambda>_. tenant_event who tenant ''group.member_removed'' ''group'' grp (user_meta x user)"
    "\<lambda>_. group_event grp ''group.member_removed'' (member_payload x grp user tenant)" "\<lambda>_. ()"
    "remove_member x grp user tenant who"
  by unfold_locales (rule remove_member_def, blast dest: delete_member_ok logs_kept_change)

end
