(* ===== verification/RbacService.thy ===== *)
theory RbacService imports RbacChanges begin

text \<open>
  Each operation of the role and group services is a transaction for its specification: the abstract
  change it makes, the audit row and the event it adds.
\<close>

section \<open>Transactions\<close>

text \<open>The stored state after an allowed change: the tables changed, one audit row more, and the event if there is one.\<close>

definition accessed ::
  "audit_ext \<Rightarrow> audit_event \<Rightarrow> outbox_event option \<Rightarrow> access_change \<Rightarrow>
   'z rbac_db_scheme \<Rightarrow> 'z rbac_db_scheme \<Rightarrow> bool" where
  "accessed x ev msg c w w' \<longleftrightarrow> change_ok c w \<and> (\<exists>rows evs. audited x ev (audit_rows w) rows \<and>
     (case msg of None \<Rightarrow> evs = outbox_rows w | Some m \<Rightarrow> queued m (outbox_rows w) evs) \<and>
     w' = (apply_access c w)\<lparr>audit_rows := rows, outbox_rows := evs\<rparr>)"

lemma accessed_recorded:
  assumes "w1 = apply_access c w" and "change_ok c w" and "audited x ev (audit_rows w) rows"
    and "w' = w1\<lparr>audit_rows := rows\<rparr>"
  shows "accessed x ev None c w w'"
proof -
  have "outbox_rows (apply_access c w) = outbox_rows w" using apply_access_logs [of w c] by (simp add: logs_kept_def)
  then have "w' = (apply_access c w)\<lparr>audit_rows := rows, outbox_rows := outbox_rows w\<rparr>" using assms(1,4) by simp
  with assms(2,3) show ?thesis by (auto simp: accessed_def)
qed

lemma accessed_announced:
  assumes "w1 = apply_access c w" and "change_ok c w" and "audited x ev (audit_rows w) rows"
    and "queued m (outbox_rows w) evs" and "w' = w1\<lparr>audit_rows := rows, outbox_rows := evs\<rparr>"
  shows "accessed x ev (Some m) c w w'"
  using assms by (auto simp: accessed_def)

definition role_name_free :: "rbac_ext \<Rightarrow> uuid \<Rightarrow> string \<Rightarrow> 'z rbac_db_scheme \<Rightarrow> bool" where
  "role_name_free x tenant name w \<longleftrightarrow>
     (\<forall>q \<in> set (role_rows w). ro_tenant q = tenant \<longrightarrow> rx_lower x (ro_name q) \<noteq> rx_lower x name)"

lemma create_role_transacts:
  "transacts (create_role x tenant name desc who) (\<lambda>r w w'.
     ro_tenant r = tenant \<and> ro_name r = name \<and> ro_description r = desc \<and> \<not> ro_system r \<and>
     role_name_free x tenant name w \<and>
     accessed (rx_audit x) (tenant_event who tenant ''role.created'' ''role'' (ro_id r)
       (json_object [(''is_system'', ''false''), (''name'', json_quote name)])) None (RoleCreated r) w w')"
proof (rule transactsI)
  fix r e e' w w' assume "create_role x tenant name desc who e w = (Inr r, e', w')"
  from role_creating.recorded [OF this] obtain e1 w1 rows where
    s: "repo_create_role x tenant name desc False (next_call e) w = (Inr r, e1, w1)"
    and l: "audited (rx_audit x) (tenant_event who tenant ''role.created'' ''role'' (ro_id r)
          (json_object [(''is_system'', json_bool (ro_system r)), (''name'', json_quote (ro_name r))])) (audit_rows w) rows"
      "w' = w1\<lparr>audit_rows := rows\<rparr>" by metis
  note f = repo_create_role_ok [OF s]
  from accessed_recorded [OF f(1,2) l] f show "ro_tenant r = tenant \<and> ro_name r = name \<and> ro_description r = desc \<and>
     \<not> ro_system r \<and> role_name_free x tenant name w \<and>
     accessed (rx_audit x) (tenant_event who tenant ''role.created'' ''role'' (ro_id r)
       (json_object [(''is_system'', ''false''), (''name'', json_quote name)])) None (RoleCreated r) w w'"
    by (simp add: json_bool_def role_name_free_def)
qed (rule role_creating.op_atomic)

lemma grant_transacts:
  "transacts (grant_permission x role perm who) (\<lambda>_. accessed (rx_audit x)
     (platform_event who ''role.permission_granted'' ''role'' role (permission_id_meta x perm)) None (Granted role perm))"
  by (rule transactsI, erule granting.op_atomic, erule granting.recorded)
    (metis accessed_recorded repo_grant_ok)

lemma revoke_transacts:
  "transacts (revoke_permission x role perm who) (\<lambda>_. accessed (rx_audit x)
     (platform_event who ''role.permission_revoked'' ''role'' role (permission_id_meta x perm)) None (Revoked role perm))"
  by (rule transactsI, erule revoking.op_atomic, erule revoking.recorded)
    (metis accessed_recorded repo_revoke_ok change_ok.simps(8))

lemma assign_transacts:
  "transacts (assign_tx x user tenant role by_user who) (\<lambda>_ w w'. \<exists>now. accessed (rx_audit x)
     (tenant_event who tenant ''role.assigned'' ''user'' user (role_id_meta x role)) None
     (Assigned \<lparr>ur_user = user, ur_tenant = tenant, ur_role = role, ur_granted = now, ur_by = by_user\<rparr>) w w')"
  by (rule transactsI, erule assigning.op_atomic, erule assigning.recorded)
    (metis accessed_recorded repo_assign_ok)

lemma unassign_transacts:
  "transacts (unassign_tx x user tenant role who) (\<lambda>_. accessed (rx_audit x)
     (tenant_event who tenant ''role.unassigned'' ''user'' user (role_id_meta x role)) None (Unassigned user tenant role))"
  by (rule transactsI, erule unassigning.op_atomic, erule unassigning.recorded)
    (metis accessed_recorded repo_unassign_ok change_ok.simps(9))

lemma assign_group_transacts:
  "transacts (assign_role_to_group x grp tenant role by_user who) (\<lambda>_ w w'. \<exists>now. accessed (rx_audit x)
     (tenant_event who tenant ''role.group_assigned'' ''group'' grp (role_id_meta x role)) None
     (GroupAssigned \<lparr>gr_tenant = tenant, gr_group = grp, gr_role = role, gr_granted = now, gr_by = by_user\<rparr>) w w')"
  by (rule transactsI, erule group_assigning.op_atomic, erule group_assigning.recorded)
    (metis accessed_recorded checked_assign_group_ok)

lemma remove_group_transacts:
  "transacts (remove_role_from_group x grp tenant role who) (\<lambda>_. accessed (rx_audit x)
     (tenant_event who tenant ''role.group_unassigned'' ''group'' grp (role_id_meta x role)) None
     (GroupUnassigned grp tenant role))"
  by (rule transactsI, erule group_unassigning.op_atomic, erule group_unassigning.recorded)
    (metis accessed_recorded repo_remove_group_ok change_ok.simps(10))

lemma create_group_transacts:
  "transacts (create_group x tenant inp who) (\<lambda>g w w'.
     gp_tenant g = tenant \<and> gp_name g = gi_name inp \<and> gp_description g = gi_description inp \<and> gp_parent g = gi_parent inp \<and>
     accessed (rx_audit (gx_rbac x)) (tenant_event who tenant ''group.created'' ''group'' (gp_id g)
       (parent_meta x (gi_name inp) (gi_parent inp)))
     (Some (group_event (gp_id g) ''group.created'' (gx_payload x g))) (GroupCreated g) w w')"
proof (rule transactsI)
  fix g e e' w w' assume "create_group x tenant inp who e w = (Inr g, e', w')"
  from group_creating.announced [OF this] obtain e1 w1 rows evs where
    s: "insert_group_row tenant inp (next_call e) w = (Inr g, e1, w1)"
    and l: "audited (rx_audit (gx_rbac x)) (tenant_event who (gp_tenant g) ''group.created'' ''group'' (gp_id g) (parent_meta x (gp_name g) (gp_parent g))) (audit_rows w) rows"
      "queued (group_event (gp_id g) ''group.created'' (gx_payload x g)) (outbox_rows w) evs"
      "w' = w1\<lparr>audit_rows := rows, outbox_rows := evs\<rparr>" by metis
  note f = insert_group_row_ok [OF s]
  from accessed_announced [OF f(1,2) l] f(3-) show "gp_tenant g = tenant \<and> gp_name g = gi_name inp \<and> gp_description g = gi_description inp \<and> gp_parent g = gi_parent inp \<and>
     accessed (rx_audit (gx_rbac x)) (tenant_event who tenant ''group.created'' ''group'' (gp_id g)
       (parent_meta x (gi_name inp) (gi_parent inp)))
     (Some (group_event (gp_id g) ''group.created'' (gx_payload x g))) (GroupCreated g) w w'" by simp
qed (rule group_creating.op_atomic)

lemma delete_group_transacts:
  "transacts (delete_group x i tenant who) (\<lambda>_ w w'. \<exists>g. find_group i tenant (group_rows w) = Some g \<and>
     accessed (rx_audit (gx_rbac x)) (tenant_event who tenant ''group.deleted'' ''group'' i
       (json_object [(''name'', json_quote (gp_name g))]))
     (Some (group_event i ''group.deleted'' (group_deleted_payload x i tenant (gp_name g)))) (GroupDeleted i) w w')"
  by (rule transactsI, erule group_deleting.op_atomic, erule group_deleting.announced)
    (metis accessed_announced delete_group_row_ok change_ok.simps(11))

lemma update_group_transacts:
  "transacts (update_group x i tenant inp who) (\<lambda>g w w'. gp_id g = i \<and>
     gp_tenant g = tenant \<and> gp_name g = gi_name inp \<and> gp_description g = gi_description inp \<and> gp_parent g = gi_parent inp \<and>
     accessed (rx_audit (gx_rbac x)) (tenant_event who tenant ''group.updated'' ''group'' i
       (parent_meta x (gi_name inp) (gi_parent inp)))
     (Some (group_event i ''group.updated'' (gx_payload x g))) (GroupUpdated g) w w')"
proof (rule transactsI)
  fix g e e' w w' assume "update_group x i tenant inp who e w = (Inr g, e', w')"
  from group_updating.announced [OF this] obtain e1 w1 rows evs where
    s: "update_group_row i tenant inp (next_call e) w = (Inr g, e1, w1)"
    and l: "audited (rx_audit (gx_rbac x)) (tenant_event who tenant ''group.updated'' ''group'' i (parent_meta x (gi_name inp) (gi_parent inp))) (audit_rows w) rows"
      "queued (group_event i ''group.updated'' (gx_payload x g)) (outbox_rows w) evs"
      "w' = w1\<lparr>audit_rows := rows, outbox_rows := evs\<rparr>" by metis
  note f = update_group_row_ok [OF s]
  from accessed_announced [OF f(1,2) l] f(3-) show "gp_id g = i \<and>
     gp_tenant g = tenant \<and> gp_name g = gi_name inp \<and> gp_description g = gi_description inp \<and> gp_parent g = gi_parent inp \<and>
     accessed (rx_audit (gx_rbac x)) (tenant_event who tenant ''group.updated'' ''group'' i
       (parent_meta x (gi_name inp) (gi_parent inp)))
     (Some (group_event i ''group.updated'' (gx_payload x g))) (GroupUpdated g) w w'" by simp
qed (rule group_updating.op_atomic)

lemma add_member_transacts:
  "transacts (add_member x grp user tenant who) (\<lambda>_ w w'. \<exists>now.
     accessed (rx_audit (gx_rbac x)) (tenant_event who tenant ''group.member_added'' ''group'' grp (user_meta x user))
     (Some (group_event grp ''group.member_added'' (member_payload x grp user tenant)))
     (MemberAdded \<lparr>gm_group = grp, gm_user = user, gm_tenant = tenant, gm_added = now\<rparr>) w w')"
  by (rule transactsI, erule member_adding.op_atomic, erule member_adding.announced)
    (metis accessed_announced checked_add_member_ok)

lemma remove_member_transacts:
  "transacts (remove_member x grp user tenant who) (\<lambda>_.
     accessed (rx_audit (gx_rbac x)) (tenant_event who tenant ''group.member_removed'' ''group'' grp (user_meta x user))
     (Some (group_event grp ''group.member_removed'' (member_payload x grp user tenant)))
     (MemberRemoved grp user tenant))"
  by (rule transactsI, erule member_removing.op_atomic, erule member_removing.announced)
    (metis accessed_announced delete_member_ok change_ok.simps(12))

section \<open>The claims-change event\<close>

text \<open>What the emitter did after the commit; its error, if it had one, is ignored.\<close>

definition emitted ::
  "'z rbac_db_scheme emitter option \<Rightarrow> uuid \<Rightarrow> string \<Rightarrow> 'z rbac_db_scheme \<Rightarrow> 'z rbac_db_scheme \<Rightarrow> bool" where
  "emitted em tenant payload w w' \<longleftrightarrow>
     (\<exists>e e'. emit em tenant ''token.claims_change'' payload e w = (Inr (), e', w'))"

lemma emit_never_fails: "emit em tenant et payload e w \<noteq> (Inl err, e', w')"
  by (auto simp: emit_def ret_def ignore_error_def on_error_def split: option.splits prod.splits sum.splits)

lemma after_tx:
  assumes "transacts op spec"
  shows "transacts (then_io op (emit em tenant ''token.claims_change'' payload))
     (\<lambda>_ w w'. \<exists>w1. spec () w w1 \<and> emitted em tenant payload w1 w')"
proof (rule transactsI)
  fix err e e' w w' assume "then_io op (emit em tenant ''token.claims_change'' payload) e w = (Inl err, e', w')"
  then have "op e w = (Inl err, e', w')"
    by (auto simp: bind_io_def emit_never_fails split: prod.splits sum.splits)
  then show "w' = w" by (rule transactsD(1) [OF assms])
next
  fix u e e' w w' assume "then_io op (emit em tenant ''token.claims_change'' payload) e w = (Inr u, e', w')"
  then obtain a e1 w1 where "op e w = (Inr a, e1, w1)" "emit em tenant ''token.claims_change'' payload e1 w1 = (Inr u, e', w')"
    by (auto simp: bind_ok)
  with transactsD(2) [OF assms] show "\<exists>w1. spec () w w1 \<and> emitted em tenant payload w1 w'"
    unfolding emitted_def by (metis (full_types) old.unit.exhaust)
qed

lemma assign_role_transacts:
  "transacts (assign_role x em user tenant role by_user who) (\<lambda>_ w w'. \<exists>w1. (\<exists>now. accessed (rx_audit x)
     (tenant_event who tenant ''role.assigned'' ''user'' user (role_id_meta x role)) None
     (Assigned \<lparr>ur_user = user, ur_tenant = tenant, ur_role = role, ur_granted = now, ur_by = by_user\<rparr>) w w1) \<and>
     emitted em tenant (claims_change x user role ''role_assigned'') w1 w')"
  unfolding assign_role_def by (rule after_tx [OF assign_transacts])

lemma unassign_role_transacts:
  "transacts (unassign_role x em user tenant role who) (\<lambda>_ w w'. \<exists>w1. accessed (rx_audit x)
     (tenant_event who tenant ''role.unassigned'' ''user'' user (role_id_meta x role)) None
     (Unassigned user tenant role) w w1 \<and>
     emitted em tenant (claims_change x user role ''role_unassigned'') w1 w')"
  unfolding unassign_role_def by (rule after_tx [OF unassign_transacts])

end
