(* ===== verification/RbacDecide.thy ===== *)
theory RbacDecide imports RbacTables begin

text \<open>
  The three answers of the repository on a user's access, the check, its explanation and the list of
  effective permissions, and how each change of the tables moves them.
\<close>

section \<open>One relation behind the answers\<close>

text \<open>The permissions a role confers, and the roles that reach a user.\<close>

definition confers :: "uuid \<Rightarrow> string \<Rightarrow> 'z rbac_db_scheme \<Rightarrow> bool" where
  "confers role key w \<longleftrightarrow> (\<exists>p \<in> set (role_grants role w). pm_key p = key)"

definition holds_directly :: "uuid \<Rightarrow> uuid \<Rightarrow> uuid \<Rightarrow> 'z rbac_db_scheme \<Rightarrow> bool" where
  "holds_directly user tenant role w \<longleftrightarrow> (user, tenant, role) \<in> set (map user_role_key (user_role_rows w))"

definition holds_through :: "uuid \<Rightarrow> uuid \<Rightarrow> uuid \<Rightarrow> uuid \<Rightarrow> 'z rbac_db_scheme \<Rightarrow> bool" where
  "holds_through grp user tenant role w \<longleftrightarrow>
     (\<exists>m \<in> set (member_rows w). gm_group m = grp \<and> gm_user m = user \<and> gm_tenant m = tenant) \<and>
     (\<exists>q \<in> set (group_role_rows w). gr_group q = grp \<and> gr_tenant q = tenant \<and> gr_role q = role)"

definition has_role :: "uuid \<Rightarrow> uuid \<Rightarrow> uuid \<Rightarrow> 'z rbac_db_scheme \<Rightarrow> bool" where
  "has_role user tenant role w \<longleftrightarrow> holds_directly user tenant role w \<or> (\<exists>g. holds_through g user tenant role w)"

lemma confers_iff:
  "confers role key w \<longleftrightarrow> (\<exists>p \<in> set (perm_rows w). (role, pm_id p) \<in> set (role_perm_rows w) \<and> pm_key p = key)"
  by (force simp: confers_def role_grants_def)

lemma direct_roles_iff: "role \<in> set (direct_roles user tenant w) \<longleftrightarrow> holds_directly user tenant role w"
  by (auto simp: direct_roles_def holds_directly_def user_role_key_def image_iff)

lemma group_member_iff:
  "g \<in> set (member_groups user tenant w) \<and> role \<in> set (roles_of_group g tenant w) \<longleftrightarrow> holds_through g user tenant role w"
  by (auto simp: member_groups_def roles_of_group_def holds_through_def image_iff)

lemma group_roles_iff: "role \<in> set (group_roles user tenant w) \<longleftrightarrow> (\<exists>g. holds_through g user tenant role w)"
  using group_member_iff [of _ user tenant w role] by (auto simp: group_roles_def)

lemma check_permission_iff: "check_permission user tenant key w \<longleftrightarrow> (\<exists>role. has_role user tenant role w \<and> confers role key w)"
  unfolding check_permission_def has_role_def confers_def Bex_def direct_roles_iff group_roles_iff by blast

lemma effective_keys_iff: "key \<in> set (effective_keys x user tenant w) \<longleftrightarrow> check_permission user tenant key w"
  by (auto simp: effective_keys_def check_permission_def image_iff)

lemma arm_rows_iff:
  "v \<in> set (arm_rows key w via role) \<longleftrightarrow> gw_group v = via \<and> gw_role v = role \<and> confers role key w \<and>
     (\<exists>r \<in> set (role_rows w). ro_id r = role \<and> ro_name r = gw_role_name v)"
  by (cases v) (auto simp: arm_rows_def confers_def image_iff)

lemma explain_grants_iff:
  "v \<in> set (explain_grants x user tenant key w) \<longleftrightarrow>
     (\<exists>role. holds_directly user tenant role w \<and> v \<in> set (arm_rows key w None role)) \<or>
     (\<exists>g \<in> set (group_rows w). \<exists>role. gp_tenant g = tenant \<and> holds_through (gp_id g) user tenant role w \<and>
        v \<in> set (arm_rows key w (Some (gp_id g, gp_name g)) role))"
  by (auto simp: explain_grants_def direct_roles_iff group_member_iff [symmetric])

lemma holds_refs:
  assumes "access_ok w"
  shows "holds_directly user tenant role w \<Longrightarrow> \<exists>r \<in> set (role_rows w). ro_id r = role"
    and "holds_through g user tenant role w \<Longrightarrow> \<exists>r \<in> set (role_rows w). ro_id r = role \<and> ro_tenant r = tenant"
    and "holds_through g user tenant role w \<Longrightarrow> \<exists>q \<in> set (group_rows w). gp_id q = g \<and> gp_tenant q = tenant"
proof -
  have r: "\<forall>u \<in> set (user_role_rows w). ur_role u \<in> set (map ro_id (role_rows w))"
    and m: "\<forall>m \<in> set (member_rows w). same_tenant_group (gm_group m) (gm_tenant m) w"
    and q: "\<forall>q \<in> set (group_role_rows w). same_tenant_role (gr_role q) (gr_tenant q) w"
    using assms by (auto simp: access_ok_def refs_ok_def)
  show "holds_directly user tenant role w \<Longrightarrow> \<exists>r \<in> set (role_rows w). ro_id r = role"
    using r by (fastforce simp: holds_directly_def user_role_key_def)
  show "holds_through g user tenant role w \<Longrightarrow> \<exists>r \<in> set (role_rows w). ro_id r = role \<and> ro_tenant r = tenant"
    using q by (fastforce simp: holds_through_def same_tenant_role_def role_key_def)
  show "holds_through g user tenant role w \<Longrightarrow> \<exists>q \<in> set (group_rows w). gp_id q = g \<and> gp_tenant q = tenant"
    using m by (fastforce simp: holds_through_def same_tenant_group_def group_key_def)
qed

text \<open>Every path an explanation lists is one, and every path is listed.\<close>

definition path_of :: "uuid \<Rightarrow> uuid \<Rightarrow> string \<Rightarrow> 'z rbac_db_scheme \<Rightarrow> uuid option \<Rightarrow> uuid \<Rightarrow> bool" where
  "path_of user tenant key w via role \<longleftrightarrow> confers role key w \<and>
     (case via of None \<Rightarrow> holds_directly user tenant role w | Some g \<Rightarrow> holds_through g user tenant role w)"

lemma grant_step_of_simps:
  "gs_permission (grant_step_of key v) = key" "gs_role (grant_step_of key v) = gw_role v"
  "gs_group (grant_step_of key v) = map_option fst (gw_group v)"
  by (auto simp: grant_step_of_def Let_def split: option.splits prod.splits)

lemma explain_paths:
  assumes "access_ok w"
  shows "(\<exists>v \<in> set (explain_grants x user tenant key w). map_option fst (gw_group v) = via \<and> gw_role v = role) \<longleftrightarrow>
     path_of user tenant key w via role"
proof (cases via)
  case None
  show ?thesis
  proof
    assume "\<exists>v \<in> set (explain_grants x user tenant key w). map_option fst (gw_group v) = via \<and> gw_role v = role"
    then show "path_of user tenant key w via role" using None
      by (auto simp: explain_grants_iff arm_rows_iff path_of_def)
  next
    assume "path_of user tenant key w via role"
    then have h: "holds_directly user tenant role w" "confers role key w" using None by (auto simp: path_of_def)
    from holds_refs(1) [OF assms h(1)] obtain r where r: "r \<in> set (role_rows w)" "ro_id r = role" by blast
    let ?v = "\<lparr>gw_group = None, gw_role = role, gw_role_name = ro_name r\<rparr>"
    have "?v \<in> set (arm_rows key w None role)" using r h(2) by (auto simp: arm_rows_iff)
    with h(1) have "?v \<in> set (explain_grants x user tenant key w)" unfolding explain_grants_iff by blast
    then show "\<exists>v \<in> set (explain_grants x user tenant key w). map_option fst (gw_group v) = via \<and> gw_role v = role"
      using None by force
  qed
next
  case (Some g)
  show ?thesis
  proof
    assume "\<exists>v \<in> set (explain_grants x user tenant key w). map_option fst (gw_group v) = via \<and> gw_role v = role"
    then show "path_of user tenant key w via role" using Some
      by (auto simp: explain_grants_iff arm_rows_iff path_of_def)
  next
    assume "path_of user tenant key w via role"
    then have h: "holds_through g user tenant role w" "confers role key w" using Some by (auto simp: path_of_def)
    from holds_refs(2) [OF assms h(1)] obtain r where r: "r \<in> set (role_rows w)" "ro_id r = role" by blast
    from holds_refs(3) [OF assms h(1)] obtain q where q: "q \<in> set (group_rows w)" "gp_id q = g" "gp_tenant q = tenant" by blast
    let ?v = "\<lparr>gw_group = Some (gp_id q, gp_name q), gw_role = role, gw_role_name = ro_name r\<rparr>"
    have "?v \<in> set (arm_rows key w (Some (gp_id q, gp_name q)) role)" using r h(2) by (auto simp: arm_rows_iff)
    with h(1) q have "?v \<in> set (explain_grants x user tenant key w)" unfolding explain_grants_iff by blast
    then show "\<exists>v \<in> set (explain_grants x user tenant key w). map_option fst (gw_group v) = via \<and> gw_role v = role"
      using Some q(2) by force
  qed
qed

lemma explain_run:
  "explain x user tenant key e w = (Inr ex, e', w') \<Longrightarrow>
     w' = w \<and> ge_paths ex = map (grant_step_of key) (explain_grants x user tenant key w) \<and>
     (ge_allowed ex \<longleftrightarrow> explain_grants x user tenant key w \<noteq> []) \<and> (ge_reason ex = [] \<longleftrightarrow> ge_allowed ex)"
  by (auto simp: explain_def io_ok Let_def)

lemma explain_complete:
  assumes "access_ok w"
  shows "explain_grants x user tenant key w \<noteq> [] \<longleftrightarrow> check_permission user tenant key w"
proof -
  have "explain_grants x user tenant key w \<noteq> [] \<longleftrightarrow>
      (\<exists>v \<in> set (explain_grants x user tenant key w). \<exists>via role. map_option fst (gw_group v) = via \<and> gw_role v = role)"
    by (cases "explain_grants x user tenant key w") auto
  also have "\<dots> \<longleftrightarrow> (\<exists>via role. path_of user tenant key w via role)"
    using explain_paths [OF assms, of x user tenant key] by blast
  also have "\<dots> \<longleftrightarrow> check_permission user tenant key w"
  proof
    assume "\<exists>via role. path_of user tenant key w via role"
    then show "check_permission user tenant key w"
      by (auto simp: path_of_def check_permission_iff has_role_def split: option.splits)
  next
    assume "check_permission user tenant key w"
    then obtain role where "confers role key w" "holds_directly user tenant role w \<or> (\<exists>g. holds_through g user tenant role w)"
      by (auto simp: check_permission_iff has_role_def)
    then have "path_of user tenant key w None role \<or> (\<exists>g. path_of user tenant key w (Some g) role)"
      by (simp add: path_of_def)
    then show "\<exists>via role. path_of user tenant key w via role" by blast
  qed
  finally show ?thesis .
qed

section \<open>How changes move the answers\<close>

lemma decision_frame:
  assumes "user_role_rows w' = user_role_rows w" "member_rows w' = member_rows w" "group_role_rows w' = group_role_rows w"
  shows "has_role user tenant role w' = has_role user tenant role w"
  using assms by (simp add: has_role_def holds_directly_def holds_through_def)

lemma confers_frame:
  assumes "perm_rows w' = perm_rows w" "role_perm_rows w' = role_perm_rows w"
  shows "confers role key w' = confers role key w"
  using assms by (simp add: confers_iff)

lemma confers_other_change:
  assumes "\<forall>r p. c \<noteq> Granted r p \<and> c \<noteq> Revoked r p"
  shows "confers role key (apply_access c w) = confers role key w"
  using assms by (cases c) (auto intro!: confers_frame simp: cascade_def Let_def)

lemma logs_frame:
  "has_role user tenant role (w\<lparr>audit_rows := a, outbox_rows := b\<rparr>) = has_role user tenant role w"
  "confers role key (w\<lparr>audit_rows := a, outbox_rows := b\<rparr>) = confers role key w"
  "check_permission user tenant key (w\<lparr>audit_rows := a, outbox_rows := b\<rparr>) = check_permission user tenant key w"
proof -
  show h: "has_role user tenant role (w\<lparr>audit_rows := a, outbox_rows := b\<rparr>) = has_role user tenant role w" for user tenant role
    by (rule decision_frame) simp_all
  show g: "confers role key (w\<lparr>audit_rows := a, outbox_rows := b\<rparr>) = confers role key w" for role key
    by (rule confers_frame) simp_all
  show "check_permission user tenant key (w\<lparr>audit_rows := a, outbox_rows := b\<rparr>) = check_permission user tenant key w"
    by (simp add: check_permission_iff h g)
qed

lemma holds_assigned:
  "has_role u t r (apply_access (Assigned q) w) \<longleftrightarrow> has_role u t r w \<or> (u, t, r) = user_role_key q"
  by (auto simp: has_role_def holds_directly_def holds_through_def)

lemma holds_unassigned:
  "has_role u t r (apply_access (Unassigned user tenant role) w) \<longleftrightarrow>
     holds_directly u t r w \<and> (u, t, r) \<noteq> (user, tenant, role) \<or> (\<exists>g. holds_through g u t r w)"
  by (auto simp: has_role_def holds_directly_def holds_through_def)

definition in_group :: "uuid \<Rightarrow> uuid \<Rightarrow> uuid \<Rightarrow> 'z rbac_db_scheme \<Rightarrow> bool" where
  "in_group user g tenant w \<longleftrightarrow> (\<exists>m \<in> set (member_rows w). gm_group m = g \<and> gm_user m = user \<and> gm_tenant m = tenant)"

definition bound :: "uuid \<Rightarrow> uuid \<Rightarrow> uuid \<Rightarrow> 'z rbac_db_scheme \<Rightarrow> bool" where
  "bound g tenant role w \<longleftrightarrow> (\<exists>q \<in> set (group_role_rows w). gr_group q = g \<and> gr_tenant q = tenant \<and> gr_role q = role)"

lemma holds_through_iff: "holds_through g u t r w \<longleftrightarrow> in_group u g t w \<and> bound g t r w"
  by (simp add: holds_through_def in_group_def bound_def)

lemma bound_assigned:
  assumes "change_ok (GroupAssigned q) w"
  shows "bound g t r (apply_access (GroupAssigned q) w) \<longleftrightarrow>
     bound g t r w \<or> g = gr_group q \<and> t = gr_tenant q \<and> r = gr_role q"
  using assms unfolding change_ok.simps by (elim disjE conjE bexE) (auto simp: bound_def)

lemma holds_group_assigned:
  assumes "change_ok (GroupAssigned q) w"
  shows "has_role u t r (apply_access (GroupAssigned q) w) \<longleftrightarrow>
     has_role u t r w \<or> in_group u (gr_group q) t w \<and> t = gr_tenant q \<and> r = gr_role q"
proof -
  have "holds_directly u t r (apply_access (GroupAssigned q) w) = holds_directly u t r w"
    by (simp add: holds_directly_def)
  moreover have "in_group u g t (apply_access (GroupAssigned q) w) = in_group u g t w" for g
    by (simp add: in_group_def)
  ultimately show ?thesis unfolding has_role_def holds_through_iff bound_assigned [OF assms] by blast
qed

lemma same_group_tenant:
  assumes "access_ok w" and "same_tenant_group g t w" and "same_tenant_group g t' w"
  shows "t = t'"
proof -
  have "distinct (map fst (map group_key (group_rows w)))"
    using assms(1) unfolding group_ids [symmetric] by (simp add: access_ok_def keys_ok_def)
  then have "inj_on fst (set (map group_key (group_rows w)))" by (simp only: distinct_map [of fst])
  from inj_onD [OF this, of "(g, t)" "(g, t')"] assms(2,3) show ?thesis
    unfolding same_tenant_group_def by simp
qed

lemma in_group_added:
  assumes "access_ok w" and "change_ok (MemberAdded m) w"
  shows "in_group u g t (apply_access (MemberAdded m) w) \<longleftrightarrow>
     in_group u g t w \<or> u = gm_user m \<and> g = gm_group m \<and> t = gm_tenant m"
proof (cases "\<exists>p \<in> set (member_rows w). gm_group p = gm_group m \<and> gm_user p = gm_user m")
  case True
  then obtain p where p: "p \<in> set (member_rows w)" "gm_group p = gm_group m" "gm_user p = gm_user m" by blast
  from assms p(1) have "same_tenant_group (gm_group p) (gm_tenant p) w" by (auto simp: access_ok_def refs_ok_def)
  with assms p(2) have "gm_tenant p = gm_tenant m"
    using same_group_tenant by auto
  with p True show ?thesis by (auto simp: in_group_def)
next
  case False
  then show ?thesis by (auto simp: in_group_def)
qed

lemma holds_member_added:
  assumes "access_ok w" and "change_ok (MemberAdded m) w"
  shows "has_role u t r (apply_access (MemberAdded m) w) \<longleftrightarrow>
     has_role u t r w \<or> u = gm_user m \<and> t = gm_tenant m \<and> bound (gm_group m) t r w"
proof -
  have "holds_directly u t r (apply_access (MemberAdded m) w) = holds_directly u t r w"
    by (simp add: holds_directly_def)
  moreover have "bound g t r (apply_access (MemberAdded m) w) = bound g t r w" for g
    by (simp add: bound_def)
  ultimately show ?thesis unfolding has_role_def holds_through_iff in_group_added [OF assms] by blast
qed

lemma confers_granted:
  assumes "p \<in> set (perm_rows w)" and "distinct (map pm_id (perm_rows w))"
  shows "confers r key (apply_access (Granted role (pm_id p)) w) \<longleftrightarrow> confers r key w \<or> r = role \<and> key = pm_key p"
proof -
  have "q = p" if "q \<in> set (perm_rows w)" "pm_id q = pm_id p" for q
    using assms that by (auto simp: distinct_map dest: inj_onD)
  with assms(1) show ?thesis by (auto simp: confers_iff)
qed

end
