(* ===== verification/RouteGate.thy ===== *)
theory RouteGate imports Rbac begin

text \<open>
  The route gate of \<^verbatim>\<open>rbac/enforce.go\<close> with the authorization table of
  \<^verbatim>\<open>internal/bootstrap/permissions.go\<close>: route patterns are compiled to regular expressions, and the
  first one that matches the path of a request gives the permission an end user needs. The table is a
  Go map, whose iteration order is not fixed: the order is the argument \<open>routes\<close>.
\<close>

section \<open>Patterns\<close>

text \<open>
  The regular expressions the code builds: literals, where every character stands for itself
  (\<^verbatim>\<open>regexp.QuoteMeta\<close>), and \<^verbatim>\<open>[^/]+\<close>, anchored at both ends.
\<close>

datatype route_atom = Lit string | Run

definition is_param :: "string \<Rightarrow> bool" where
  "is_param p = (has_prefix p ''{'' \<and> has_suffix p ''}'')"

definition part_atom :: "string \<Rightarrow> route_atom" where
  "part_atom p = (if is_param p then Run else Lit p)"

fun join_atoms :: "route_atom list \<Rightarrow> route_atom list" where
  "join_atoms [] = []"
| "join_atoms [a] = [a]"
| "join_atoms (a # as) = a # Lit ''/'' # join_atoms as"

definition pattern_to_regex :: "string \<Rightarrow> route_atom list" where
  "pattern_to_regex pattern = join_atoms (map part_atom (str_split (CHR ''/'') pattern))"

function match_string :: "route_atom list \<Rightarrow> string \<Rightarrow> bool" where
  "match_string [] s = (s = [])"
| "match_string (Lit l # as) s = (has_prefix s l \<and> match_string as (drop (length l) s))"
| "match_string (Run # as) [] = False"
| "match_string (Run # as) (c # s) =
     (c \<noteq> CHR ''/'' \<and> (match_string as s \<or> match_string (Run # as) s))"
  by pat_completeness auto
termination
  by (relation "measures [length \<circ> fst, length \<circ> snd]") auto

section \<open>The gate\<close>

definition cut_route :: "string \<times> string \<Rightarrow> (string \<times> route_atom list \<times> string) option" where
  "cut_route kv =
     (case str_cut (fst kv) (CHR '' '') of
        None \<Rightarrow> None
      | Some (method, pattern) \<Rightarrow> Some (method, pattern_to_regex pattern, snd kv))"

definition lookup_route :: "(string \<times> string) list \<Rightarrow> string \<Rightarrow> string \<Rightarrow> string option" where
  "lookup_route routes method path =
     map_option (\<lambda>cr. snd (snd cr))
       (List.find (\<lambda>cr. fst cr = method \<and> match_string (fst (snd cr)) path)
         (List.map_filter cut_route routes))"

text \<open>
  \<open>checker\<close> is the \<^verbatim>\<open>Checker\<close> interface. The answer is the request handed to the next handler, or the
  error.
\<close>

definition enforce ::
  "(uuid \<Rightarrow> uuid \<Rightarrow> string \<Rightarrow> ('w, bool) io) \<Rightarrow> (string \<times> string) list \<Rightarrow> request \<Rightarrow> ('w, request) io" where
  "enforce checker routes r =
     (case rq_principal r of
        None \<Rightarrow> ret r
      | Some p \<Rightarrow>
          (case p_user_id p of
             None \<Rightarrow> ret r
           | Some user \<Rightarrow>
               if p_actor_type p \<noteq> ''user'' then ret r
               else
                 (case lookup_route routes (rq_method r) (rq_path r) of
                    None \<Rightarrow> ret r
                  | Some perm \<Rightarrow>
                      (case p_tenant_id p of
                         None \<Rightarrow> fail (ApiErr (with_detail ErrForbidden ''tenant scope required''))
                       | Some tenant \<Rightarrow>
                           bind_io (checker user tenant perm) (\<lambda>allowed.
                             if allowed then ret r
                             else fail (ApiErr (with_detail
                               (with_message ErrForbidden
                                 (''You don'' @ [CHR 0x27] @ ''t have permission to do that.''))
                               (''missing permission: '' @ perm))))))))"

section \<open>The authorization table\<close>

definition permission_map :: "(string \<times> string) list" where
  "permission_map =
     [(''GET /v1/tenants/{id}'', ''tenant.read''),
      (''PATCH /v1/tenants/{id}'', ''tenant.write''),
      (''DELETE /v1/tenants/{id}'', ''tenant.write''),
      (''GET /v1/users'', ''user.read''),
      (''POST /v1/users'', ''user.write''),
      (''POST /v1/users/bulk'', ''user.write''),
      (''GET /v1/users/deleted'', ''user.read''),
      (''GET /v1/users/{id}'', ''user.read''),
      (''PATCH /v1/users/{id}'', ''user.write''),
      (''DELETE /v1/users/{id}'', ''user.write''),
      (''POST /v1/users/{id}/restore'', ''user.write''),
      (''DELETE /v1/users/{id}/purge'', ''user.write''),
      (''POST /v1/users/{id}/password'', ''user.write''),
      (''DELETE /v1/users/{id}/mfa'', ''user.write''),
      (''POST /v1/invites'', ''user.write''),
      (''GET /v1/tenants/{tenantID}/invites'', ''user.read''),
      (''DELETE /v1/invites/{id}'', ''user.write''),
      (''GET /v1/permissions'', ''role.read''),
      (''GET /v1/tenants/{tenantID}/roles'', ''role.read''),
      (''POST /v1/tenants/{tenantID}/roles'', ''role.write''),
      (''GET /v1/roles/{roleID}/permissions'', ''role.read''),
      (''POST /v1/roles/{roleID}/permissions/{permID}'', ''role.write''),
      (''DELETE /v1/roles/{roleID}/permissions/{permID}'', ''role.write''),
      (''POST /v1/users/{userID}/tenants/{tenantID}/roles/{roleID}'', ''role.write''),
      (''DELETE /v1/users/{userID}/tenants/{tenantID}/roles/{roleID}'', ''role.write''),
      (''GET /v1/users/{userID}/tenants/{tenantID}/permissions'', ''role.read''),
      (''GET /v1/check'', ''role.read''),
      (''GET /v1/tenants/{tenantID}/groups/{groupID}/roles'', ''role.read''),
      (''GET /v1/tenants/{tenantID}/abac/policies'', ''policy.read''),
      (''POST /v1/tenants/{tenantID}/abac/policies'', ''policy.write''),
      (''GET /v1/tenants/{tenantID}/abac/policies/{id}'', ''policy.read''),
      (''PATCH /v1/tenants/{tenantID}/abac/policies/{id}'', ''policy.write''),
      (''DELETE /v1/tenants/{tenantID}/abac/policies/{id}'', ''policy.write''),
      (''GET /v1/tenants/{tenantID}/relation-tuples'', ''role.read''),
      (''GET /v1/tenants/{tenantID}/relation-tuples/graph'', ''role.read''),
      (''POST /v1/tenants/{tenantID}/groups/{groupID}/roles/{roleID}'', ''role.write''),
      (''DELETE /v1/tenants/{tenantID}/groups/{groupID}/roles/{roleID}'', ''role.write''),
      (''POST /v1/groups'', ''group.write''),
      (''GET /v1/tenants/{tenantID}/groups'', ''group.read''),
      (''DELETE /v1/groups/{id}'', ''group.write''),
      (''POST /v1/groups/{id}/members/{userID}'', ''group.write''),
      (''DELETE /v1/groups/{id}/members/{userID}'', ''group.write''),
      (''GET /v1/groups/{id}/members'', ''group.read''),
      (''POST /v1/api-keys'', ''apikey.write''),
      (''GET /v1/tenants/{tenantID}/api-keys'', ''apikey.read''),
      (''DELETE /v1/api-keys/{id}'', ''apikey.write''),
      (''POST /v1/service-principals'', ''apikey.write''),
      (''GET /v1/tenants/{tenantID}/service-principals'', ''apikey.read''),
      (''DELETE /v1/service-principals/{id}'', ''apikey.write''),
      (''GET /v1/oidc/signing-keys'', ''connection.read''),
      (''POST /v1/oidc/clients'', ''connection.write''),
      (''GET /v1/tenants/{tenantID}/oidc/clients'', ''connection.read''),
      (''POST /v1/tenants/{tenantID}/oidc/clients'', ''connection.write''),
      (''GET /v1/tenants/{tenantID}/oidc/clients/{id}'', ''connection.read''),
      (''PATCH /v1/tenants/{tenantID}/oidc/clients/{id}'', ''connection.write''),
      (''DELETE /v1/tenants/{tenantID}/oidc/clients/{id}'', ''connection.write''),
      (''POST /v1/tenants/{tenantID}/oidc/clients/{id}/rotate-secret'', ''connection.write''),
      (''GET /v1/tenants/{tenantID}/oauth/grants'', ''connection.read''),
      (''DELETE /v1/tenants/{tenantID}/oauth/grants/{id}'', ''connection.write''),
      (''GET /v1/tenants/{tenantID}/oauth/devices'', ''connection.read''),
      (''DELETE /v1/tenants/{tenantID}/oauth/devices/{id}'', ''connection.write''),
      (''GET /v1/tenants/{tenantID}/saml'', ''connection.read''),
      (''POST /v1/tenants/{tenantID}/saml'', ''connection.write''),
      (''GET /v1/tenants/{tenantID}/saml/{id}'', ''connection.read''),
      (''PATCH /v1/tenants/{tenantID}/saml/{id}'', ''connection.write''),
      (''DELETE /v1/tenants/{tenantID}/saml/{id}'', ''connection.write''),
      (''GET /v1/tenants/{tenantID}/saml-providers'', ''connection.read''),
      (''POST /v1/tenants/{tenantID}/saml-providers'', ''connection.write''),
      (''GET /v1/tenants/{tenantID}/saml-providers/{id}'', ''connection.read''),
      (''PATCH /v1/tenants/{tenantID}/saml-providers/{id}'', ''connection.write''),
      (''DELETE /v1/tenants/{tenantID}/saml-providers/{id}'', ''connection.write''),
      (''GET /v1/tenants/{tenantID}/scim'', ''connection.read''),
      (''POST /v1/tenants/{tenantID}/scim/token'', ''connection.write''),
      (''DELETE /v1/tenants/{tenantID}/scim/token'', ''connection.write''),
      (''GET /v1/tenants/{tenantID}/scim/users'', ''connection.read''),
      (''POST /v1/tenants/{tenantID}/admin-portal/links'', ''connection.write''),
      (''GET /v1/tenants/{tenantID}/admin-portal/links'', ''connection.read''),
      (''DELETE /v1/tenants/{tenantID}/admin-portal/links/{id}'', ''connection.write''),
      (''GET /v1/tenants/{tenantID}/ldap'', ''connection.read''),
      (''POST /v1/tenants/{tenantID}/ldap'', ''connection.write''),
      (''GET /v1/tenants/{tenantID}/ldap/{id}'', ''connection.read''),
      (''PATCH /v1/tenants/{tenantID}/ldap/{id}'', ''connection.write''),
      (''DELETE /v1/tenants/{tenantID}/ldap/{id}'', ''connection.write''),
      (''POST /v1/tenants/{tenantID}/ldap/{id}/test'', ''connection.write''),
      (''GET /v1/tenants/{tenantID}/social/providers'', ''connection.read''),
      (''POST /v1/tenants/{tenantID}/social/providers'', ''connection.write''),
      (''GET /v1/tenants/{tenantID}/webhooks'', ''webhook.read''),
      (''POST /v1/webhooks'', ''webhook.write''),
      (''DELETE /v1/webhooks/{id}'', ''webhook.write''),
      (''POST /v1/webhooks/{id}/test'', ''webhook.write''),
      (''GET /v1/tenants/{tenantID}/secrets'', ''secret.read''),
      (''POST /v1/tenants/{tenantID}/secrets'', ''secret.write''),
      (''PATCH /v1/tenants/{tenantID}/secrets/{id}'', ''secret.write''),
      (''DELETE /v1/tenants/{tenantID}/secrets/{id}'', ''secret.write''),
      (''POST /v1/tenants/{tenantID}/secrets/{id}/reveal'', ''secret.read''),
      (''PUT /v1/tenants/{tenantID}/branding'', ''branding.write''),
      (''PUT /v1/tenants/{tenantID}/email-templates/{key}'', ''branding.write''),
      (''DELETE /v1/tenants/{tenantID}/email-templates/{key}'', ''branding.write''),
      (''POST /v1/tenants/{tenantID}/email-templates/{key}/preview'', ''branding.write''),
      (''GET /v1/tenants/{tenantID}/policy'', ''policy.read''),
      (''PUT /v1/tenants/{tenantID}/policy'', ''policy.write''),
      (''GET /v1/tenants/{tenantID}/auth-policy'', ''policy.read''),
      (''PUT /v1/tenants/{tenantID}/auth-policy'', ''policy.write''),
      (''GET /v1/tenants/{tenantID}/ip-rules'', ''policy.read''),
      (''POST /v1/tenants/{tenantID}/ip-rules'', ''policy.write''),
      (''DELETE /v1/tenants/{tenantID}/ip-rules/{ruleID}'', ''policy.write''),
      (''PUT /v1/tenants/{tenantID}/ip-rules/config'', ''policy.write''),
      (''POST /v1/tenants/{tenantID}/ip-rules/check'', ''policy.read''),
      (''GET /v1/tenants/{tenantID}/retention'', ''policy.read''),
      (''PUT /v1/tenants/{tenantID}/retention'', ''policy.write''),
      (''POST /v1/tenants/{tenantID}/retention/preview'', ''policy.read''),
      (''POST /v1/tenants/{tenantID}/retention/run'', ''policy.write''),
      (''POST /v1/gdpr/purge'', ''gdpr.write''),
      (''GET /v1/tenants/{tenantID}/gdpr/purge'', ''gdpr.write''),
      (''DELETE /v1/gdpr/purge/{id}'', ''gdpr.write''),
      (''GET /v1/tenants/{tenantID}/audit'', ''audit.read''),
      (''GET /v1/tenants/{tenantID}/audit/verify'', ''audit.read''),
      (''GET /v1/admin/outbox/dlq'', ''audit.read''),
      (''GET /v1/activity'', ''audit.read''),
      (''GET /v1/activity/stream'', ''audit.read''),
      (''GET /v1/tenants/{tenantID}/audit/anomalies'', ''audit.read''),
      (''GET /v1/tenants/{tenantID}/audit/anomalies/summary'', ''audit.read''),
      (''POST /v1/tenants/{tenantID}/audit/anomalies/{id}/resolve'', ''audit.write''),
      (''GET /v1/tenants/{tenantID}/audit/anomaly-settings'', ''audit.read''),
      (''PUT /v1/tenants/{tenantID}/audit/anomaly-settings'', ''audit.write''),
      (''GET /v1/tenants/{tenantID}/billing/subscription'', ''billing.read''),
      (''PUT /v1/tenants/{tenantID}/billing/subscription'', ''billing.write''),
      (''POST /v1/tenants/{tenantID}/billing/subscription/cancel'', ''billing.write''),
      (''GET /v1/tenants/{tenantID}/billing/invoices'', ''billing.read''),
      (''GET /v1/tenants/{tenantID}/analytics/overview'', ''analytics.read'')]"

end
