(* ===== verification/RouteTable.thy ===== *)
theory RouteTable imports RouteGate begin

text \<open>
  The authorization table: a compiled pattern matches exactly the paths with the same segments, and two
  entries that match one path ask for the same permission, so the order of iteration does not matter.
\<close>

section \<open>Patterns match segment by segment\<close>

definition part_ok :: "string \<Rightarrow> string \<Rightarrow> bool" where
  "part_ok p s = (if is_param p then s \<noteq> [] else s = p)"

definition route_matches :: "string \<Rightarrow> string \<Rightarrow> bool" where
  "route_matches pattern path =
     list_all2 part_ok (str_split (CHR ''/'') pattern) (str_split (CHR ''/'') path)"

lemma match_Run:
  "match_string (Run # as) s \<longleftrightarrow>
     (\<exists>a b. s = a @ b \<and> a \<noteq> [] \<and> CHR ''/'' \<notin> set a \<and> match_string as b)"
proof (induction s)
  case (Cons c s)
  show ?case
  proof
    assume "match_string (Run # as) (c # s)"
    then have c: "c \<noteq> CHR ''/''" and "match_string as s \<or> match_string (Run # as) s" by simp_all
    then consider "match_string as s"
      | a b where "s = a @ b" "CHR ''/'' \<notin> set a" "match_string as b" using Cons.IH by blast
    then show "\<exists>a b. c # s = a @ b \<and> a \<noteq> [] \<and> CHR ''/'' \<notin> set a \<and> match_string as b"
    proof cases
      case 1
      with c show ?thesis by (intro exI [of _ "[c]"] exI [of _ s]) simp
    next
      case (2 a b)
      with c show ?thesis by (intro exI [of _ "c # a"] exI [of _ b]) simp
    qed
  next
    assume "\<exists>a b. c # s = a @ b \<and> a \<noteq> [] \<and> CHR ''/'' \<notin> set a \<and> match_string as b"
    then obtain a b where "s = a @ b" "c \<noteq> CHR ''/''" "CHR ''/'' \<notin> set a" "match_string as b"
      by (auto simp: Cons_eq_append_conv)
    then show "match_string (Run # as) (c # s)" using Cons.IH by (cases "a = []") auto
  qed
qed simp

definition atom_text :: "string \<Rightarrow> string \<Rightarrow> bool" where
  "atom_text p a \<longleftrightarrow> part_ok p a \<and> CHR ''/'' \<notin> set a"

lemma match_part:
  assumes "CHR ''/'' \<notin> set p"
  shows "match_string (part_atom p # as) s \<longleftrightarrow> (\<exists>a b. s = a @ b \<and> atom_text p a \<and> match_string as b)"
proof (cases "is_param p")
  case True
  then show ?thesis by (auto simp: part_atom_def match_Run atom_text_def part_ok_def)
next
  case False
  with assms show ?thesis by (auto simp: part_atom_def atom_text_def part_ok_def elim!: prefixE)
qed

lemma match_slash: "match_string (Lit ''/'' # as) b \<longleftrightarrow> (\<exists>c. b = CHR ''/'' # c \<and> match_string as c)"
  by (cases b) auto

lemma match_join:
  assumes "ps \<noteq> []" and "\<forall>p \<in> set ps. CHR ''/'' \<notin> set p"
  shows "match_string (join_atoms (map part_atom ps)) s \<longleftrightarrow> list_all2 part_ok ps (str_split (CHR ''/'') s)"
  using assms
proof (induction ps arbitrary: s rule: induct_list012)
  case (2 p)
  have "(\<exists>a b. s = a @ b \<and> atom_text p a \<and> b = []) \<longleftrightarrow> list_all2 part_ok [p] (str_split (CHR ''/'') s)"
  proof (cases "CHR ''/'' \<in> set s")
    case True
    then obtain a b where "s = a @ CHR ''/'' # b" "CHR ''/'' \<notin> set a" by (metis split_list_first)
    then have "length (str_split (CHR ''/'') s) = Suc (length (str_split (CHR ''/'') b))"
      by (simp add: str_split_append)
    then have "\<not> list_all2 part_ok [p] (str_split (CHR ''/'') s)"
      using str_split_not_Nil [of "CHR ''/''" b] by (auto dest!: list_all2_lengthD)
    with True show ?thesis by (auto simp: atom_text_def)
  next
    case False
    then show ?thesis by (simp add: str_split_no_occ atom_text_def)
  qed
  with 2 show ?case using match_part [of p "[]" s] by simp
next
  case (3 p q ps)
  let ?rest = "join_atoms (map part_atom (q # ps))"
  have "match_string (join_atoms (map part_atom (p # q # ps))) s \<longleftrightarrow>
      (\<exists>a b. s = a @ b \<and> atom_text p a \<and> match_string (Lit ''/'' # ?rest) b)"
    using match_part [of p "Lit ''/'' # ?rest" s] 3 by simp
  also have "\<dots> \<longleftrightarrow> (\<exists>a b. s = a @ CHR ''/'' # b \<and> atom_text p a \<and> list_all2 part_ok (q # ps) (str_split (CHR ''/'') b))"
  proof -
    have "match_string ?rest c = list_all2 part_ok (q # ps) (str_split (CHR ''/'') c)" for c
      by (rule 3(2)) (use 3(3,4) in simp_all)
    then show ?thesis unfolding match_slash by blast
  qed
  also have "\<dots> \<longleftrightarrow> list_all2 part_ok (p # q # ps) (str_split (CHR ''/'') s)"
  proof
    assume "\<exists>a b. s = a @ CHR ''/'' # b \<and> atom_text p a \<and> list_all2 part_ok (q # ps) (str_split (CHR ''/'') b)"
    then show "list_all2 part_ok (p # q # ps) (str_split (CHR ''/'') s)"
      by (auto simp: str_split_append atom_text_def)
  next
    assume l: "list_all2 part_ok (p # q # ps) (str_split (CHR ''/'') s)"
    have "CHR ''/'' \<in> set s"
    proof (rule ccontr)
      assume "CHR ''/'' \<notin> set s"
      with l show False by (simp add: str_split_no_occ)
    qed
    then obtain a b where s: "s = a @ CHR ''/'' # b" "CHR ''/'' \<notin> set a" by (metis split_list_first)
    with l show "\<exists>a b. s = a @ CHR ''/'' # b \<and> atom_text p a \<and> list_all2 part_ok (q # ps) (str_split (CHR ''/'') b)"
      by (intro exI [of _ a] exI [of _ b]) (simp add: str_split_append atom_text_def)
  qed
  finally show ?case .
qed simp

lemma pattern_matches: "match_string (pattern_to_regex pattern) path = route_matches pattern path"
  unfolding pattern_to_regex_def route_matches_def
  by (rule match_join) (auto dest: str_split_no_sep)

section \<open>Tables in which a path decides the permission\<close>

text \<open>
  A check that the routes matching a common path agree, by descent through the segments; the method of
  a route is its first segment here.
\<close>

type_synonym split_route = "route_atom list \<times> string"

fun atom_ok :: "route_atom \<Rightarrow> string \<Rightarrow> bool" where
  "atom_ok (Lit l) s = (s = l)"
| "atom_ok Run s = (s \<noteq> [])"

fun head_in :: "string \<Rightarrow> split_route \<Rightarrow> bool" where
  "head_in l (Lit k # as, v) = (k = l)"
| "head_in l (Run # as, v) = True"
| "head_in l ([], v) = False"

fun head_is :: "string \<Rightarrow> split_route \<Rightarrow> bool" where
  "head_is l (Lit k # as, v) = (k = l)"
| "head_is l r = False"

fun head_run :: "split_route \<Rightarrow> bool" where
  "head_run (Run # as, v) = True"
| "head_run r = False"

definition strip :: "split_route \<Rightarrow> split_route" where
  "strip r = (tl (fst r), snd r)"

fun route_size :: "split_route list \<Rightarrow> nat" where
  "route_size [] = 0"
| "route_size (r # rs) = Suc (length (fst r)) + route_size rs"

lemma route_size_filter: "route_size (filter P rs) \<le> route_size rs"
  by (induction rs) auto

lemma route_size_strip: "route_size (map strip rs) \<le> route_size rs"
  by (induction rs) (auto simp: strip_def)

lemma route_size_strip_filter: "route_size (map strip (filter P rs)) \<le> route_size rs"
  by (rule order_trans [OF route_size_strip route_size_filter])

function agree :: "split_route list \<Rightarrow> bool" where
  "agree [] = True"
| "agree (([], v) # rs) = (list_all (\<lambda>r. if fst r = [] then snd r = v else True) rs \<and> agree rs)"
| "agree ((Lit l # as, v) # rs) =
     (agree ((as, v) # map strip (filter (head_in l) rs)) \<and> agree (filter (\<lambda>r. \<not> head_is l r) rs))"
| "agree ((Run # as, v) # rs) =
     (list_all (\<lambda>r. if head_run r then True else fst r = []) rs \<and>
      agree ((as, v) # map strip (filter head_run rs)) \<and> agree (filter (\<lambda>r. fst r = []) rs))"
  by pat_completeness auto
termination
  by (relation "measure route_size")
     (auto simp: less_Suc_eq_le route_size_strip_filter route_size_strip
        intro: le_SucI trans_le_add2 route_size_filter)

definition agreeing :: "split_route list \<Rightarrow> bool" where
  "agreeing rs \<longleftrightarrow> (\<forall>r \<in> set rs. \<forall>q \<in> set rs. \<forall>xs.
     list_all2 atom_ok (fst r) xs \<longrightarrow> list_all2 atom_ok (fst q) xs \<longrightarrow> snd r = snd q)"

lemma head_in_strip:
  "list_all2 atom_ok (fst r) (l # xs) \<Longrightarrow> head_in l r \<and> list_all2 atom_ok (fst (strip r)) xs"
  by (cases "(l, r)" rule: head_in.cases) (auto simp: strip_def)

lemma agree_sound: "agree rs \<Longrightarrow> agreeing rs"
proof (induction rs rule: agree.induct)
  case (2 v rs)
  then have ih: "agreeing rs" and e: "\<forall>r \<in> set rs. fst r = [] \<longrightarrow> snd r = v" by (auto simp: list_all_iff)
  show ?case unfolding agreeing_def
  proof (intro ballI allI impI)
    fix r q xs
    assume rq: "r \<in> set (([], v) # rs)" "q \<in> set (([], v) # rs)"
      and m: "list_all2 atom_ok (fst r) xs" "list_all2 atom_ok (fst q) xs"
    show "snd r = snd q"
    proof (cases xs)
      case Nil
      with m have "fst r = []" "fst q = []" by simp_all
      with rq e show ?thesis by auto
    next
      case (Cons y ys)
      with m have "fst r \<noteq> []" "fst q \<noteq> []" by auto
      with rq have "r \<in> set rs" "q \<in> set rs" by auto
      with ih m show ?thesis unfolding agreeing_def by blast
    qed
  qed
next
  case (3 l as v rs)
  have both: "agreeing ((as, v) # map strip (filter (head_in l) rs))" "agreeing (filter (\<lambda>r. \<not> head_is l r) rs)"
    using 3 by simp_all
  have with_head: "v = snd q" if q: "q \<in> set rs" and m: "list_all2 atom_ok (Lit l # as) xs" "list_all2 atom_ok (fst q) xs" for q xs
  proof -
    from m(1) obtain ys where ys: "xs = l # ys" "list_all2 atom_ok as ys" by (auto simp: list_all2_Cons1)
    with m(2) have "head_in l q" "list_all2 atom_ok (fst (strip q)) ys" using head_in_strip by blast+
    with both(1) q ys(2) have "v = snd (strip q)" unfolding agreeing_def by fastforce
    then show ?thesis by (simp add: strip_def)
  qed
  have without: "snd q = snd r" if qr: "q \<in> set rs" "r \<in> set rs" and m: "list_all2 atom_ok (fst q) xs" "list_all2 atom_ok (fst r) xs" for q r xs
  proof (cases "xs \<noteq> [] \<and> hd xs = l")
    case True
    then obtain ys where xs: "xs = l # ys" by (cases xs) auto
    from m xs have "head_in l q" "list_all2 atom_ok (fst (strip q)) ys" "head_in l r"
      "list_all2 atom_ok (fst (strip r)) ys" using head_in_strip by blast+
    with both(1) qr have "snd (strip q) = snd (strip r)" unfolding agreeing_def by fastforce
    then show ?thesis by (simp add: strip_def)
  next
    case False
    then have no: "\<not> head_is l t" if "list_all2 atom_ok (fst t) xs" for t
      using that by (cases "(l, t)" rule: head_is.cases) (auto simp: list_all2_Cons1)
    with m have "\<not> head_is l q" "\<not> head_is l r" by blast+
    with both(2) qr m show ?thesis unfolding agreeing_def by fastforce
  qed
  show ?case unfolding agreeing_def
  proof (intro ballI allI impI)
    fix r q xs
    assume rq: "r \<in> set ((Lit l # as, v) # rs)" "q \<in> set ((Lit l # as, v) # rs)"
      and m: "list_all2 atom_ok (fst r) xs" "list_all2 atom_ok (fst q) xs"
    from rq(1) consider "r = (Lit l # as, v)" | "r \<in> set rs" by auto
    then show "snd r = snd q"
    proof cases
      case 1
      with rq(2) m with_head [of q xs] show ?thesis by (cases "q = r") auto
    next
      case 2
      show ?thesis
      proof (cases "q = (Lit l # as, v)")
        case True
        with 2 m with_head [of r xs] show ?thesis by auto
      next
        case False
        with rq(2) have "q \<in> set rs" by auto
        from without [OF 2 this m] show ?thesis .
      qed
    qed
  qed
next
  case (4 as v rs)
  then have heads: "\<forall>r \<in> set rs. head_run r \<or> fst r = []"
    and ih: "agreeing ((as, v) # map strip (filter head_run rs))" "agreeing (filter (\<lambda>r. fst r = []) rs)"
    by (auto simp: list_all_iff split: if_splits)
  show ?case unfolding agreeing_def
  proof (intro ballI allI impI)
    fix r q xs
    assume rq: "r \<in> set ((Run # as, v) # rs)" "q \<in> set ((Run # as, v) # rs)"
      and m: "list_all2 atom_ok (fst r) xs" "list_all2 atom_ok (fst q) xs"
    show "snd r = snd q"
    proof (cases xs)
      case Nil
      with m have "fst r = []" "fst q = []" by simp_all
      with rq have "r \<in> set (filter (\<lambda>r. fst r = []) rs)" "q \<in> set (filter (\<lambda>r. fst r = []) rs)" by auto
      with ih(2) m show ?thesis unfolding agreeing_def by blast
    next
      case (Cons y ys)
      have st: "strip t \<in> set ((as, v) # map strip (filter head_run rs)) \<and> list_all2 atom_ok (fst (strip t)) ys"
        if t: "t \<in> set ((Run # as, v) # rs)" "list_all2 atom_ok (fst t) xs" for t
      proof -
        from t heads Cons have "t = (Run # as, v) \<or> t \<in> set rs \<and> head_run t" by auto
        with t Cons show ?thesis by (auto simp: strip_def list_all2_Cons2)
      qed
      have "snd (strip r) = snd (strip q)"
        using ih(1) st [OF rq(1) m(1)] st [OF rq(2) m(2)] unfolding agreeing_def by blast
      then show ?thesis by (simp add: strip_def)
    qed
  qed
qed (simp add: agreeing_def)

definition split_routes :: "(string \<times> string) list \<Rightarrow> split_route list" where
  "split_routes = List.map_filter (\<lambda>kv. map_option
     (\<lambda>mp. (Lit (fst mp) # map part_atom (str_split (CHR ''/'') (snd mp)), snd kv)) (str_cut (fst kv) (CHR '' '')))"

lemma permission_map_agrees: "agree (split_routes permission_map)"
  by code_simp

lemma part_atom_ok: "list_all2 atom_ok (map part_atom ps) xs = list_all2 part_ok ps xs"
proof -
  have "atom_ok (part_atom p) s = part_ok p s" for p s by (simp add: part_atom_def part_ok_def)
  then show ?thesis by (simp add: list_all2_map1)
qed

lemma set_map_filter: "set (List.map_filter f xs) = {y. \<exists>x \<in> set xs. f x = Some y}"
  by (auto simp: List.map_filter_def image_iff) (metis option.sel)

text \<open>An entry of the table applies to a request if its method is the request's and its pattern matches.\<close>

definition route_applies :: "string \<times> string \<Rightarrow> string \<Rightarrow> string \<Rightarrow> bool" where
  "route_applies kv method path \<longleftrightarrow>
     (\<exists>pattern. str_cut (fst kv) (CHR '' '') = Some (method, pattern) \<and> route_matches pattern path)"

lemma lookup_route_None:
  "lookup_route routes method path = None \<longleftrightarrow> (\<forall>kv \<in> set routes. \<not> route_applies kv method path)"
  by (force simp: lookup_route_def cut_route_def route_applies_def find_None_iff set_map_filter
      pattern_matches split: option.splits prod.splits)

lemma lookup_route_Some:
  assumes "lookup_route routes method path = Some perm"
  shows "\<exists>kv \<in> set routes. route_applies kv method path \<and> snd kv = perm"
proof -
  from assms obtain cr where "List.find (\<lambda>cr. fst cr = method \<and> match_string (fst (snd cr)) path)
      (List.map_filter cut_route routes) = Some cr" and p: "snd (snd cr) = perm"
    by (auto simp: lookup_route_def)
  then have "cr \<in> set (List.map_filter cut_route routes)" and m: "fst cr = method" "match_string (fst (snd cr)) path"
    by (auto simp: find_Some_iff)
  then obtain kv where kv: "kv \<in> set routes" and c: "cut_route kv = Some cr" by (auto simp: set_map_filter)
  from c m p have "route_applies kv method path \<and> snd kv = perm"
    by (auto simp: cut_route_def route_applies_def pattern_matches split: option.splits)
  with kv show ?thesis by blast
qed

lemma permission_map_decides:
  assumes "kv \<in> set permission_map" "kw \<in> set permission_map"
    and "route_applies kv method path" "route_applies kw method path"
  shows "snd kv = snd kw"
proof -
  have "\<exists>ps. (ps, snd k) \<in> set (split_routes permission_map) \<and>
      list_all2 atom_ok ps (method # str_split (CHR ''/'') path)"
    if k: "k \<in> set permission_map" "route_applies k method path" for k
  proof -
    from k(2) obtain pattern where p: "str_cut (fst k) (CHR '' '') = Some (method, pattern)"
      "route_matches pattern path" by (auto simp: route_applies_def)
    with k(1) have "(Lit method # map part_atom (str_split (CHR ''/'') pattern), snd k) \<in> set (split_routes permission_map)"
      by (force simp: split_routes_def set_map_filter)
    moreover have "list_all2 atom_ok (Lit method # map part_atom (str_split (CHR ''/'') pattern))
        (method # str_split (CHR ''/'') path)"
      using p(2) by (simp add: part_atom_ok route_matches_def)
    ultimately show ?thesis by blast
  qed
  with assms agree_sound [OF permission_map_agrees] show ?thesis
    unfolding agreeing_def by (metis fst_conv snd_conv)
qed

lemma lookup_any_order:
  assumes "set routes = set permission_map"
  shows "lookup_route routes method path = lookup_route permission_map method path"
proof (cases "lookup_route routes method path")
  case None
  with assms have "lookup_route permission_map method path = None" by (simp add: lookup_route_None)
  with None show ?thesis by simp
next
  case (Some perm)
  with assms have "lookup_route permission_map method path \<noteq> None"
    using lookup_route_None [of routes] lookup_route_None [of permission_map] by (metis option.distinct(1))
  then obtain perm' where p: "lookup_route permission_map method path = Some perm'" by auto
  from lookup_route_Some [OF Some] lookup_route_Some [OF p] assms permission_map_decides
  show ?thesis using Some p by (metis (no_types))
qed

end
