(* ===== verification/RouteProps.thy ===== *)
theory RouteProps imports RouteTable GroupStore begin

text \<open>
  What is shown of the route gate: which permission a request needs; that an end user passes exactly
  with it; that every permission the table asks for is one the server seeds; and that some routes that
  change state have no entry.
\<close>

section \<open>Checkers\<close>

text \<open>What the gate relies on: a checker only reads, and answers what its store says.\<close>

locale permission_checker =
  fixes checker :: "uuid \<Rightarrow> uuid \<Rightarrow> string \<Rightarrow> ('w, bool) io"
    and may :: "uuid \<Rightarrow> uuid \<Rightarrow> string \<Rightarrow> 'w \<Rightarrow> bool"
  assumes checker_answers: "checker user tenant perm e w = (Inr b, e', w') \<Longrightarrow> w' = w \<and> b = may user tenant perm w"
    and checker_live: "live (checker user tenant perm)"
begin

lemma gate_admits:
  assumes "enforce checker routes r e w = (Inr r', e', w')"
    and "rq_principal r = Some p" "p_user_id p = Some user" "p_actor_type p = ''user''"
    and "lookup_route routes (rq_method r) (rq_path r) = Some perm"
  shows "r' = r \<and> w' = w \<and> (\<exists>tenant. p_tenant_id p = Some tenant \<and> may user tenant perm w)"
proof -
  from assms obtain tenant where t: "p_tenant_id p = Some tenant"
    by (auto simp: enforce_def io_ok split: option.splits)
  with assms obtain b e1 w1 where c: "checker user tenant perm e w = (Inr b, e1, w1)"
    and b: "(if b then ret r else fail (ApiErr (with_detail (with_message ErrForbidden
        (''You don'' @ [CHR 0x27] @ ''t have permission to do that.'')) (''missing permission: '' @ perm)))) e1 w1
        = (Inr r', e', w')"
    by (auto simp: enforce_def bind_ok)
  from b have "b \<and> r' = r \<and> w' = w1" by (cases b) (auto simp: io_ok)
  with checker_answers [OF c] t show ?thesis by auto
qed

lemma gate_live:
  assumes "no_faults e"
    and "rq_principal r = Some p" "p_user_id p = Some user" "p_tenant_id p = Some tenant"
    and "\<And>perm. lookup_route routes (rq_method r) (rq_path r) = Some perm \<Longrightarrow> may user tenant perm w"
  shows "fst (enforce checker routes r e w) = Inr r"
proof (cases "lookup_route routes (rq_method r) (rq_path r)")
  case None
  with assms show ?thesis by (simp add: enforce_def ret_def)
next
  case (Some perm)
  from liveD [OF checker_live assms(1)] obtain b e1 w1 where
    c: "checker user tenant perm e w = (Inr b, e1, w1)" by blast
  with checker_answers [OF c] assms(2-4) assms(5) [OF Some] Some show ?thesis
    by (simp add: enforce_def bind_io_def ret_def)
qed

end

lemma rbac_check_answers:
  assumes "rbac_check user tenant key e w = (Inr b, e', w')"
  shows "w' = w \<and> b = check_permission user tenant key w"
  using assms by (auto simp: rbac_check_def io_ok db_read_def db_call_def db_down_def Let_def split: if_splits)

lemma live_rbac_check: "live (rbac_check user tenant key)"
  by (simp add: live_def rbac_check_def on_error_def db_read_def db_call_def Let_def no_faults_def)

interpretation rbac_gate: permission_checker rbac_check check_permission
  by unfold_locales (use rbac_check_answers live_rbac_check in blast)+

section \<open>Properties of the gate\<close>

lemma route_table_lookup:
  assumes "set routes = set permission_map"
  shows "lookup_route routes method path = Some perm \<longleftrightarrow>
     (\<exists>kv \<in> set permission_map. route_applies kv method path \<and> snd kv = perm)"
proof
  assume "lookup_route routes method path = Some perm"
  from lookup_route_Some [OF this] assms show "\<exists>kv \<in> set permission_map. route_applies kv method path \<and> snd kv = perm"
    by simp
next
  assume "\<exists>kv \<in> set permission_map. route_applies kv method path \<and> snd kv = perm"
  then obtain kv where kv: "kv \<in> set permission_map" "route_applies kv method path" "snd kv = perm" by blast
  with assms lookup_route_None [of routes] obtain perm' where l: "lookup_route routes method path = Some perm'" by fastforce
  from lookup_route_Some [OF l] assms permission_map_decides [OF kv(1) _ kv(2)] kv(3) l
  show "lookup_route routes method path = Some perm" by metis
qed

text \<open>
  C35. The table decides: in whatever order it is iterated, the permission looked up for a request is the
  one of any entry with the request's method whose pattern matches its path segment by segment, and
  there is none exactly if no entry matches.
\<close>

theorem route_table_decides:
  assumes "set routes = set permission_map"
  shows "lookup_route routes method path = Some perm \<longleftrightarrow>
     (\<exists>kv \<in> set permission_map. route_applies kv method path \<and> snd kv = perm)"
  by (rule route_table_lookup [OF assms])

theorem route_table_decides_witness:
  "lookup_route (rev permission_map) ''GET'' ''/v1/users/deleted'' = Some ''user.read''"
proof -
  have e: "str_cut ''GET /v1/users/deleted'' (CHR '' '') = Some (''GET'', ''/v1/users/deleted'')"
    and m: "route_matches ''/v1/users/deleted'' ''/v1/users/deleted''" by code_simp+
  have "(''GET /v1/users/deleted'', ''user.read'') \<in> set permission_map"
    unfolding permission_map_def by (simp only: list.set insert_iff simp_thms)
  moreover have "route_applies (''GET /v1/users/deleted'', ''user.read'') ''GET'' ''/v1/users/deleted''"
    using e m by (auto simp: route_applies_def)
  ultimately have "\<exists>kv \<in> set permission_map. route_applies kv ''GET'' ''/v1/users/deleted'' \<and> snd kv = ''user.read''"
    by (metis snd_conv)
  with route_table_decides [of "rev permission_map"] show ?thesis by simp
qed

text \<open>
  C11. The gate is exact: without faults, a request of an end user with a tenant reaches its handler if
  and only if the user holds, in that tenant, the permission of every table entry that applies to it,
  directly or through a group.
\<close>

theorem gate_is_exact:
  assumes "set routes = set permission_map" and "no_faults e"
    and "rq_principal r = Some p" "p_user_id p = Some user" "p_actor_type p = ''user''" "p_tenant_id p = Some tenant"
  shows "fst (enforce rbac_check routes r e w) = Inr r \<longleftrightarrow>
     (\<forall>kv \<in> set permission_map. route_applies kv (rq_method r) (rq_path r) \<longrightarrow>
        check_permission user tenant (snd kv) w)"
proof
  assume "fst (enforce rbac_check routes r e w) = Inr r"
  then obtain e' w' where run: "enforce rbac_check routes r e w = (Inr r, e', w')"
    by (metis prod.collapse)
  show "\<forall>kv \<in> set permission_map. route_applies kv (rq_method r) (rq_path r) \<longrightarrow>
      check_permission user tenant (snd kv) w"
  proof (intro ballI impI)
    fix kv assume kv: "kv \<in> set permission_map" "route_applies kv (rq_method r) (rq_path r)"
    then have "lookup_route permission_map (rq_method r) (rq_path r) \<noteq> None" by (auto simp: lookup_route_None)
    then obtain perm where l: "lookup_route permission_map (rq_method r) (rq_path r) = Some perm" by auto
    from lookup_route_Some [OF l] permission_map_decides [OF kv(1) _ kv(2)] have "perm = snd kv" by metis
    moreover from l lookup_any_order [OF assms(1)] have "lookup_route routes (rq_method r) (rq_path r) = Some perm" by simp
    ultimately show "check_permission user tenant (snd kv) w"
      using rbac_gate.gate_admits [OF run assms(3-5)] assms(6) by auto
  qed
next
  assume a: "\<forall>kv \<in> set permission_map. route_applies kv (rq_method r) (rq_path r) \<longrightarrow>
      check_permission user tenant (snd kv) w"
  show "fst (enforce rbac_check routes r e w) = Inr r"
  proof (rule rbac_gate.gate_live [OF assms(2-4,6)])
    fix perm assume "lookup_route routes (rq_method r) (rq_path r) = Some perm"
    from lookup_route_Some [OF this] a assms(1) show "check_permission user tenant perm w" by auto
  qed
qed

definition demo_get :: "string \<Rightarrow> string \<Rightarrow> request" where
  "demo_get method path = (demo_request 1 [] [])\<lparr>rq_method := method, rq_path := path\<rparr>"

lemma demo_get_simps:
  "rq_principal (demo_get m p) = Some (demo_principal 1)" "rq_method (demo_get m p) = m" "rq_path (demo_get m p) = p"
  "p_user_id (demo_principal t) = Some 3" "p_actor_type (demo_principal t) = ''user''"
  "p_tenant_id (demo_principal t) = Some t"
  by (simp_all add: demo_get_def demo_request_def demo_principal_def)

theorem gate_is_exact_witness:
  "fst (enforce rbac_check permission_map (demo_get ''GET'' ''/v1/permissions'') demo_env demo_rbac) =
     Inr (demo_get ''GET'' ''/v1/permissions'')"
proof -
  have l: "lookup_route permission_map ''GET'' ''/v1/permissions'' = Some ''role.read''" by code_simp
  have c: "check_permission 3 1 ''role.read'' demo_rbac" by code_simp
  have "\<forall>kv \<in> set permission_map. route_applies kv ''GET'' ''/v1/permissions'' \<longrightarrow> check_permission 3 1 (snd kv) demo_rbac"
  proof (intro ballI impI)
    fix kv assume "kv \<in> set permission_map" "route_applies kv ''GET'' ''/v1/permissions''"
    then have "lookup_route permission_map ''GET'' ''/v1/permissions'' = Some (snd kv)"
      using route_table_lookup [OF refl] by blast
    with l c show "check_permission 3 1 (snd kv) demo_rbac" by simp
  qed
  then show ?thesis
    unfolding gate_is_exact [OF refl no_faults_quiet demo_get_simps(1,4,5,6)] demo_get_simps(2,3) .
qed

section \<open>Routes without an entry\<close>

fun parts_apart :: "string list \<Rightarrow> route_atom list \<Rightarrow> bool" where
  "parts_apart (p # ps) (Lit l # as) =
     (if is_param p then parts_apart ps as else if p = l then parts_apart ps as else True)"
| "parts_apart (p # ps) (Run # as) = parts_apart ps as"
| "parts_apart [] [] = False"
| "parts_apart ps as = True"

lemma parts_apart_sound:
  "parts_apart ps as \<Longrightarrow> list_all2 part_ok ps xs \<Longrightarrow> \<not> list_all2 atom_ok as xs"
  by (induction ps as arbitrary: xs rule: parts_apart.induct)
     (auto simp: list_all2_Cons1 part_ok_def split: if_splits)

definition ungated_routes :: "(string \<times> string) list" where
  "ungated_routes = [(''PATCH'', ''/v1/groups/{id}''), (''POST'', ''/v1/users/bulk/import''),
     (''DELETE'', ''/v1/oidc/clients/{id}''), (''POST'', ''/v1/tenants/{tenantID}/relation-tuples'')]"

lemma ungated_apart:
  "list_all (\<lambda>(m, p). let ps = m # str_split (CHR ''/'') p in
     list_all (\<lambda>r. parts_apart ps (fst r)) (split_routes permission_map)) ungated_routes"
  by code_simp

lemma ungated_lookup:
  assumes "set routes = set permission_map" and "(method, pattern) \<in> set ungated_routes"
    and "route_matches pattern path"
  shows "lookup_route routes method path = None"
proof -
  have "\<not> route_applies kv method path" if kv: "kv \<in> set permission_map" for kv
  proof
    assume "route_applies kv method path"
    then obtain pat where c: "str_cut (fst kv) (CHR '' '') = Some (method, pat)" and m: "route_matches pat path"
      by (auto simp: route_applies_def)
    let ?as = "Lit method # map part_atom (str_split (CHR ''/'') pat)"
    have "(?as, snd kv) \<in> set (split_routes permission_map)"
      using kv c by (force simp: split_routes_def set_map_filter)
    moreover have "list_all (\<lambda>r. parts_apart (method # str_split (CHR ''/'') pattern) (fst r)) (split_routes permission_map)"
      using ungated_apart assms(2) by (auto simp: list_all_iff Let_def)
    ultimately have ap: "parts_apart (method # str_split (CHR ''/'') pattern) ?as"
      unfolding list_all_iff by fastforce
    have "\<not> is_param method" using assms(2) by (auto simp: ungated_routes_def is_param_def)
    with assms(3) have "list_all2 part_ok (method # str_split (CHR ''/'') pattern) (method # str_split (CHR ''/'') path)"
      by (simp add: route_matches_def part_ok_def)
    from parts_apart_sound [OF ap this] m show False by (simp add: part_atom_ok route_matches_def)
  qed
  with assms(1) show ?thesis by (simp add: lookup_route_None)
qed

text \<open>
  Some routes that change state are not gated: updating a group, importing users in bulk, deleting an
  OIDC client and writing relation tuples have no entry in the table, so for every principal, whatever
  roles it holds, the gate hands the request to the handler as if it were not there.
\<close>

theorem ungated_mutations_pass:
  assumes "set routes = set permission_map" and "(rq_method r, pattern) \<in> set ungated_routes"
    and "route_matches pattern (rq_path r)"
  shows "bind_io (enforce checker routes r) handler = handler r"
proof -
  have "enforce checker routes r = ret r"
    using ungated_lookup [OF assms] by (simp add: enforce_def split: option.splits)
  then show ?thesis by (intro ext) (simp add: bind_io_def ret_def)
qed

theorem ungated_mutations_pass_witness:
  "\<exists>e' w'. bind_io (enforce rbac_check permission_map (demo_get ''PATCH'' ''/v1/groups/41''))
      (\<lambda>_. update_group_row 41 1 \<lparr>gi_parent = None, gi_name = ''mine'', gi_description = []\<rparr>) demo_env
        (demo_rbac\<lparr>role_perm_rows := []\<rparr>) =
      (Inr ((group_rows demo_rbac ! 0)\<lparr>gp_name := ''mine''\<rparr>), e', w')"
proof -
  have m: "route_matches ''/v1/groups/{id}'' (rq_path (demo_get ''PATCH'' ''/v1/groups/41''))"
    unfolding demo_get_simps by code_simp
  have u: "(rq_method (demo_get ''PATCH'' ''/v1/groups/41''), ''/v1/groups/{id}'') \<in> set ungated_routes"
    by (simp add: demo_get_simps ungated_routes_def)
  show ?thesis unfolding ungated_mutations_pass [OF refl u m]
    by (simp add: update_group_row_def on_error_def db_call_def Let_def find_group_def demo_rbac_def parent_exists_def)
qed

section \<open>Seeding\<close>

definition perm_names :: "permission list \<Rightarrow> (uuid \<times> string) list" where
  "perm_names = map (\<lambda>p. (pm_id p, pm_key p))"

lemma upsert_permission_ok:
  assumes "upsert_permission key desc e w = (Inr p, e', w')"
  shows "prefix (perm_names (perm_rows w)) (perm_names (perm_rows w')) \<and> key \<in> pm_key ` set (perm_rows w') \<and>
     (distinct (map pm_key (perm_rows w)) \<longrightarrow> distinct (map pm_key (perm_rows w'))) \<and>
     (\<exists>rows. w' = w\<lparr>perm_rows := rows\<rparr>)"
proof (cases "List.find (\<lambda>p. pm_key p = key) (perm_rows w)")
  case None
  with assms obtain q where "w' = w\<lparr>perm_rows := perm_rows w @ [q]\<rparr>" "pm_key q = key"
    by (auto simp: upsert_permission_def io_ok Let_def split: if_splits)
  moreover from None have "key \<notin> set (map pm_key (perm_rows w))" by (auto simp: find_None_iff)
  ultimately show ?thesis by (auto simp: perm_names_def)
next
  case (Some q)
  let ?f = "\<lambda>q. if pm_key q = key then q\<lparr>pm_description := desc\<rparr> else q"
  from assms Some have w': "w' = w\<lparr>perm_rows := map ?f (perm_rows w)\<rparr>"
    by (auto simp: upsert_permission_def io_ok)
  have k: "map pm_key (map ?f rows) = map pm_key rows" "perm_names (map ?f rows) = perm_names rows" for rows
    by (auto simp: perm_names_def)
  obtain rows where rows: "rows = map ?f (perm_rows w)" by simp
  have "key \<in> set (map pm_key (perm_rows w))" using Some by (force simp: find_Some_iff)
  then have "key \<in> pm_key ` set rows" unfolding rows using k(1) by (metis set_map)
  moreover have "distinct (map pm_key rows) = distinct (map pm_key (perm_rows w))" by (simp only: rows k(1))
  moreover have "perm_names rows = perm_names (perm_rows w)" by (simp only: rows k(2))
  ultimately show ?thesis using w' by (auto simp: rows [symmetric])
qed

lemma upsert_all_ok:
  assumes "upsert_all bs e w = (Inr u, e', w')"
  shows "prefix (perm_names (perm_rows w)) (perm_names (perm_rows w')) \<and>
     fst ` set bs \<subseteq> pm_key ` set (perm_rows w') \<and>
     (distinct (map pm_key (perm_rows w)) \<longrightarrow> distinct (map pm_key (perm_rows w'))) \<and>
     (\<exists>rows. w' = w\<lparr>perm_rows := rows\<rparr>)"
  using assms
proof (induction bs arbitrary: e w)
  case Nil
  then show ?case by (auto simp: io_ok intro: exI [of _ "perm_rows w"])
next
  case (Cons b bs)
  obtain key desc where b: "b = (key, desc)" by force
  with Cons.prems obtain p e1 w1 where u: "upsert_permission key desc e w = (Inr p, e1, w1)"
    and r: "upsert_all bs e1 w1 = (Inr u, e', w')" by (auto simp: io_ok)
  note up = upsert_permission_ok [OF u] and ih = Cons.IH [OF r]
  have "pm_key ` set rows = snd ` set (perm_names rows)" for rows by (force simp: perm_names_def)
  then have "pm_key ` set (perm_rows w1) \<subseteq> pm_key ` set (perm_rows w')"
    using ih by (auto simp: prefix_def)
  with up ih b show ?case by (auto intro: prefix_order.trans)
qed

text \<open>
  A start of the server that seeds its permissions leaves every permission the table asks for in the
  store, so that no gated route is out of reach; permissions that were there keep their ids, their
  keys and their order, keys stay unique, and no other table changes. Seeding again is harmless.
\<close>

theorem seeding_covers_the_table:
  assumes "seed_builtins e w = (Inr u, e', w')"
  shows "(\<forall>kv \<in> set permission_map. \<exists>p \<in> set (perm_rows w'). pm_key p = snd kv) \<and>
     prefix (perm_names (perm_rows w)) (perm_names (perm_rows w')) \<and>
     (distinct (map pm_key (perm_rows w)) \<longrightarrow> distinct (map pm_key (perm_rows w'))) \<and>
     (\<exists>rows. w' = w\<lparr>perm_rows := rows\<rparr>)"
proof -
  from assms [unfolded seed_builtins_def] obtain e2 where
    "upsert_all builtin_permissions (next_call e) w = (Inr u, e2, w')" by (rule in_tx_ok)
  note ok = upsert_all_ok [OF this]
  have "list_all (\<lambda>kv. list_ex (\<lambda>b. fst b = snd kv) builtin_permissions) permission_map" by code_simp
  then have "\<forall>kv \<in> set permission_map. snd kv \<in> fst ` set builtin_permissions"
    by (force simp: list_all_iff list_ex_iff)
  with ok show ?thesis by fastforce
qed

theorem seeding_covers_the_table_witness:
  "\<exists>e' w'. seed_builtins (quiet_env int (\<lambda>n. n + 500)) demo_rbac = (Inr (), e', w') \<and>
     prefix [(21, ''role.read''), (22, ''group.write'')] (perm_names (perm_rows w'))"
proof -
  let ?r = "seed_builtins (quiet_env int (\<lambda>n. n + 500)) demo_rbac"
  have "(case fst ?r of Inl _ \<Rightarrow> False | Inr _ \<Rightarrow> True)" by code_simp
  then obtain e' w' where run: "?r = (Inr (), e', w')" by (cases ?r) (auto split: sum.splits)
  from seeding_covers_the_table [OF run] run show ?thesis by (simp add: perm_names_def demo_rbac_def)
qed

end
