(* ===== verification/RbacProps.thy ===== *)
theory RbacProps imports RbacService RbacDecide RouteProps begin

text \<open>
  The properties of roles, groups and access decisions.
\<close>

section \<open>Decisions\<close>

text \<open>
  C12. The answers on a user's access agree: on consistent tables, the explanation says allowed exactly
  if the check does and exactly if the permission is among the effective ones; and the paths it lists
  are exactly the ways the user holds a role with the permission: directly, or through a group of the
  tenant of which the user is a member and to which the role is bound.
\<close>

theorem decisions_agree:
  assumes "access_ok w" and "explain x user tenant key e w = (Inr ex, e', w')"
  shows "(ge_allowed ex \<longleftrightarrow> check_permission user tenant key w) \<and>
     (ge_allowed ex \<longleftrightarrow> key \<in> set (effective_keys x user tenant w)) \<and>
     (\<forall>via role. (\<exists>s \<in> set (ge_paths ex). gs_permission s = key \<and> gs_group s = via \<and> gs_role s = role) =
        path_of user tenant key w via role)"
proof -
  have "(\<exists>s \<in> set (ge_paths ex). gs_permission s = key \<and> gs_group s = via \<and> gs_role s = role) =
      path_of user tenant key w via role" for via role
    using explain_run [OF assms(2)] explain_paths [OF assms(1), of x user tenant key via role]
    by (simp add: grant_step_of_simps)
  then show ?thesis using explain_run [OF assms(2)] explain_complete [OF assms(1)]
    by (simp add: effective_keys_iff)
qed

definition demo_rbac_ext :: rbac_ext where
  "demo_rbac_ext = \<lparr>rx_audit = demo_ext, rx_lower = (\<lambda>s. s), rx_coll = map (\<lambda>c. of_char c)\<rparr>"

lemma demo_access_ok: "access_ok demo_rbac"
  by (simp add: access_ok_def keys_ok_def refs_ok_def demo_rbac_def same_tenant_group_def same_tenant_role_def
      group_key_def role_key_def parent_exists_def user_role_key_def)

theorem decisions_agree_witness:
  "\<exists>ex e' w'. explain demo_rbac_ext 3 1 ''role.read'' demo_env demo_rbac = (Inr ex, e', w') \<and> ge_allowed ex \<and>
     path_of 3 1 ''role.read'' demo_rbac (Some 41) 31"
proof -
  obtain ex e' w' where run: "explain demo_rbac_ext 3 1 ''role.read'' demo_env demo_rbac = (Inr ex, e', w')"
    by (auto simp: explain_def bind_io_def db_read_def db_call_def ret_def quiet_env_def Let_def)
  have "check_permission 3 1 ''role.read'' demo_rbac" by code_simp
  moreover have "path_of 3 1 ''role.read'' demo_rbac (Some 41) 31"
    by (simp add: path_of_def confers_iff holds_through_def demo_rbac_def)
  ultimately show ?thesis using run decisions_agree [OF demo_access_ok run] by blast
qed

section \<open>Changes\<close>

text \<open>
  C13. The mutations of roles, assignments and groups are transactions: a call that fails changes
  nothing; a call that succeeds makes the one change it is named after, which was allowed (ids free,
  role names free in the tenant, references present, group and role of the same tenant where they are
  bound), and adds exactly one audit row in the tenant's chain and, for groups, exactly one event. The
  claims-change event of an assignment follows the commit, and its failure is not reported.
\<close>

theorem access_changes_are_transactions:
  "transacts (create_role x tenant name desc who) (\<lambda>r w w'.
     ro_tenant r = tenant \<and> ro_name r = name \<and> ro_description r = desc \<and> \<not> ro_system r \<and>
     role_name_free x tenant name w \<and>
     accessed (rx_audit x) (tenant_event who tenant ''role.created'' ''role'' (ro_id r)
       (json_object [(''is_system'', ''false''), (''name'', json_quote name)])) None (RoleCreated r) w w') \<and>
   transacts (grant_permission x role perm who) (\<lambda>_. accessed (rx_audit x)
     (platform_event who ''role.permission_granted'' ''role'' role (permission_id_meta x perm)) None (Granted role perm)) \<and>
   transacts (revoke_permission x role perm who) (\<lambda>_. accessed (rx_audit x)
     (platform_event who ''role.permission_revoked'' ''role'' role (permission_id_meta x perm)) None (Revoked role perm)) \<and>
   transacts (assign_role x em user tenant role by_user who) (\<lambda>_ w w'. \<exists>w1. (\<exists>now. accessed (rx_audit x)
     (tenant_event who tenant ''role.assigned'' ''user'' user (role_id_meta x role)) None
     (Assigned \<lparr>ur_user = user, ur_tenant = tenant, ur_role = role, ur_granted = now, ur_by = by_user\<rparr>) w w1) \<and>
     emitted em tenant (claims_change x user role ''role_assigned'') w1 w') \<and>
   transacts (unassign_role x em user tenant role who) (\<lambda>_ w w'. \<exists>w1. accessed (rx_audit x)
     (tenant_event who tenant ''role.unassigned'' ''user'' user (role_id_meta x role)) None
     (Unassigned user tenant role) w w1 \<and>
     emitted em tenant (claims_change x user role ''role_unassigned'') w1 w') \<and>
   transacts (assign_role_to_group x grp tenant role by_user who) (\<lambda>_ w w'. \<exists>now. accessed (rx_audit x)
     (tenant_event who tenant ''role.group_assigned'' ''group'' grp (role_id_meta x role)) None
     (GroupAssigned \<lparr>gr_tenant = tenant, gr_group = grp, gr_role = role, gr_granted = now, gr_by = by_user\<rparr>) w w') \<and>
   transacts (remove_role_from_group x grp tenant role who) (\<lambda>_. accessed (rx_audit x)
     (tenant_event who tenant ''role.group_unassigned'' ''group'' grp (role_id_meta x role)) None
     (GroupUnassigned grp tenant role)) \<and>
   transacts (create_group gx tenant inp who) (\<lambda>g w w'.
     gp_tenant g = tenant \<and> gp_name g = gi_name inp \<and> gp_description g = gi_description inp \<and> gp_parent g = gi_parent inp \<and>
     accessed (rx_audit (gx_rbac gx)) (tenant_event who tenant ''group.created'' ''group'' (gp_id g)
       (parent_meta gx (gi_name inp) (gi_parent inp)))
     (Some (group_event (gp_id g) ''group.created'' (gx_payload gx g))) (GroupCreated g) w w') \<and>
   transacts (update_group gx i tenant inp who) (\<lambda>g w w'. gp_id g = i \<and>
     gp_tenant g = tenant \<and> gp_name g = gi_name inp \<and> gp_description g = gi_description inp \<and> gp_parent g = gi_parent inp \<and>
     accessed (rx_audit (gx_rbac gx)) (tenant_event who tenant ''group.updated'' ''group'' i
       (parent_meta gx (gi_name inp) (gi_parent inp)))
     (Some (group_event i ''group.updated'' (gx_payload gx g))) (GroupUpdated g) w w') \<and>
   transacts (delete_group gx i tenant who) (\<lambda>_ w w'. \<exists>g. find_group i tenant (group_rows w) = Some g \<and>
     accessed (rx_audit (gx_rbac gx)) (tenant_event who tenant ''group.deleted'' ''group'' i
       (json_object [(''name'', json_quote (gp_name g))]))
     (Some (group_event i ''group.deleted'' (group_deleted_payload gx i tenant (gp_name g)))) (GroupDeleted i) w w') \<and>
   transacts (add_member gx grp user tenant who) (\<lambda>_ w w'. \<exists>now.
     accessed (rx_audit (gx_rbac gx)) (tenant_event who tenant ''group.member_added'' ''group'' grp (user_meta gx user))
     (Some (group_event grp ''group.member_added'' (member_payload gx grp user tenant)))
     (MemberAdded \<lparr>gm_group = grp, gm_user = user, gm_tenant = tenant, gm_added = now\<rparr>) w w') \<and>
   transacts (remove_member gx grp user tenant who) (\<lambda>_.
     accessed (rx_audit (gx_rbac gx)) (tenant_event who tenant ''group.member_removed'' ''group'' grp (user_meta gx user))
     (Some (group_event grp ''group.member_removed'' (member_payload gx grp user tenant)))
     (MemberRemoved grp user tenant))"
  by (intro conjI create_role_transacts grant_transacts revoke_transacts assign_role_transacts
      unassign_role_transacts assign_group_transacts remove_group_transacts create_group_transacts
      update_group_transacts delete_group_transacts add_member_transacts remove_member_transacts)

section \<open>The state machine\<close>

definition same_access :: "'z rbac_db_scheme \<Rightarrow> 'z rbac_db_scheme \<Rightarrow> bool" where
  "same_access w w' \<longleftrightarrow> tenant_ids w' = tenant_ids w \<and> perm_rows w' = perm_rows w \<and> role_rows w' = role_rows w \<and>
     role_perm_rows w' = role_perm_rows w \<and> user_role_rows w' = user_role_rows w \<and> group_rows w' = group_rows w \<and>
     member_rows w' = member_rows w \<and> group_role_rows w' = group_role_rows w"

definition harmless :: "'z rbac_db_scheme emitter option \<Rightarrow> bool" where
  "harmless em \<longleftrightarrow> (\<forall>f t ty p e w. em = Some f \<longrightarrow> same_access w (snd (snd (f t ty p e w))))"

text \<open>One call of the services, whatever it answers, the seeding at start-up, or a step of another component;
  the database has one \<^verbatim>\<open>LOWER\<close>.\<close>

inductive access_step :: "(string \<Rightarrow> string) \<Rightarrow> 'z rbac_db_scheme \<Rightarrow> 'z rbac_db_scheme \<Rightarrow> bool" for low where
  role: "rx_lower x = low \<Longrightarrow> create_role x tenant name desc who e w = (rr, e', w') \<Longrightarrow> access_step low w w'"
| grant: "grant_permission x role perm who e w = (ru, e', w') \<Longrightarrow> access_step low w w'"
| revoke: "revoke_permission x role perm who e w = (ru, e', w') \<Longrightarrow> access_step low w w'"
| assign: "harmless em \<Longrightarrow> assign_role x em user tenant role by_user who e w = (ru, e', w') \<Longrightarrow> access_step low w w'"
| unassign: "harmless em \<Longrightarrow> unassign_role x em user tenant role who e w = (ru, e', w') \<Longrightarrow> access_step low w w'"
| assign_group: "assign_role_to_group x grp tenant role by_user who e w = (ru, e', w') \<Longrightarrow> access_step low w w'"
| remove_group: "remove_role_from_group x grp tenant role who e w = (ru, e', w') \<Longrightarrow> access_step low w w'"
| create_group: "create_group gx tenant inp who e w = (rg, e', w') \<Longrightarrow> access_step low w w'"
| update_group: "update_group gx i tenant inp who e w = (rg, e', w') \<Longrightarrow> access_step low w w'"
| delete_group: "delete_group gx i tenant who e w = (ru, e', w') \<Longrightarrow> access_step low w w'"
| add_member: "add_member gx grp user tenant who e w = (ru, e', w') \<Longrightarrow> access_step low w w'"
| remove_member: "remove_member gx grp user tenant who e w = (ru, e', w') \<Longrightarrow> access_step low w w'"
| seed: "seed_builtins e w = (ru, e', w') \<Longrightarrow> access_step low w w'"
| elsewhere: "same_access w w' \<Longrightarrow> access_step low w w'"

lemma same_access_ok: "same_access w w' \<Longrightarrow> access_ok w \<Longrightarrow> access_ok w'"
  by (simp add: same_access_def access_ok_def keys_ok_def refs_ok_def same_tenant_group_def same_tenant_role_def)

lemma same_access_logs: "same_access w (w\<lparr>audit_rows := a, outbox_rows := b\<rparr>)"
  by (simp add: same_access_def)

lemma accessed_keeps:
  assumes "accessed x ev msg c w w'" and "access_ok w"
  shows "access_ok w'"
proof -
  from assms(1) obtain rows evs where "change_ok c w"
    and w': "w' = (apply_access c w)\<lparr>audit_rows := rows, outbox_rows := evs\<rparr>" by (auto simp: accessed_def)
  with assms(2) have "access_ok (apply_access c w)" by (simp only: apply_access_ok)
  from same_access_ok [OF same_access_logs this] show ?thesis unfolding w' .
qed

lemma emitted_same:
  assumes "harmless em" and "emitted em tenant p w w'"
  shows "same_access w w'"
proof (cases em)
  case None
  with assms(2) show ?thesis by (auto simp: emitted_def emit_def ret_def same_access_def)
next
  case (Some f)
  from assms(2) Some obtain e e' where
    "ignore_error (f tenant ''token.claims_change'' p) e w = (Inr (), e', w')" by (auto simp: emitted_def emit_def)
  then have "snd (snd (f tenant ''token.claims_change'' p e w)) = w'"
    by (auto simp: ignore_error_def on_error_ok ret_ok)
  with assms(1) Some show ?thesis by (auto simp: harmless_def)
qed

lemma transacts_keeps:
  assumes "transacts op spec" and "\<And>a w w'. spec a w w' \<Longrightarrow> access_ok w \<Longrightarrow> access_ok w'"
    and "op e w = (res, e', w')" and "access_ok w"
  shows "access_ok w'"
  using assms(3,4) transactsD [OF assms(1), of e w _ e' w'] assms(2) by (cases res) auto

lemma upsert_permission_keeps:
  assumes "upsert_permission key desc e w = (Inr p, e', w')" and "access_ok w"
  shows "access_ok w'"
proof -
  have keep: "access_ok (w\<lparr>perm_rows := ps\<rparr>)"
    if "distinct (map pm_id ps)" "distinct (map pm_key ps)" "set (map pm_id (perm_rows w)) \<subseteq> set (map pm_id ps)" for ps
    using that assms(2) by (auto simp: access_ok_def keys_ok_def refs_ok_def same_tenant_group_def same_tenant_role_def)
  have d: "distinct (map pm_id (perm_rows w))" "distinct (map pm_key (perm_rows w))"
    using assms(2) by (simp_all add: access_ok_def keys_ok_def)
  show ?thesis
  proof (cases "List.find (\<lambda>p. pm_key p = key) (perm_rows w)")
    case (Some q)
    let ?ps = "map (\<lambda>q. if pm_key q = key then q\<lparr>pm_description := desc\<rparr> else q) (perm_rows w)"
    have ids: "map pm_id ?ps = map pm_id (perm_rows w)" "map pm_key ?ps = map pm_key (perm_rows w)" by simp_all
    from Some assms(1) have "w' = w\<lparr>perm_rows := ?ps\<rparr>" by (auto simp: upsert_permission_def io_ok)
    then show ?thesis using keep [of ?ps] d by (simp only: ids subset_refl)
  next
    case None
    then have "key \<notin> set (map pm_key (perm_rows w))" by (auto simp: find_None_iff)
    moreover from None assms(1) obtain i where "w' = w\<lparr>perm_rows := perm_rows w @ [\<lparr>pm_id = i, pm_key = key, pm_description = desc\<rparr>]\<rparr>"
      and "i \<notin> set (map pm_id (perm_rows w))" by (auto simp: upsert_permission_def io_ok Let_def split: if_splits)
    ultimately show ?thesis
      using keep [of "perm_rows w @ [\<lparr>pm_id = i, pm_key = key, pm_description = desc\<rparr>]"] d by auto
  qed
qed

lemma upsert_all_keeps: "upsert_all bs e w = (Inr u, e', w') \<Longrightarrow> access_ok w \<Longrightarrow> access_ok w'"
proof (induction bs arbitrary: e w rule: upsert_all.induct)
  case (2 key desc bs)
  from "2.prems"(1) obtain p e1 w1 where "upsert_permission key desc e w = (Inr p, e1, w1)"
    and "upsert_all bs e1 w1 = (Inr u, e', w')" by (auto simp: bind_ok)
  with "2.IH" "2.prems"(2) upsert_permission_keeps show ?case by blast
qed (simp add: ret_ok)

lemma seed_keeps:
  assumes "seed_builtins e w = (res, e', w')" and "access_ok w"
  shows "access_ok w'"
  using in_tx_result [OF assms(1) [unfolded seed_builtins_def]] upsert_all_keeps assms(2) by blast

lemma access_step_ok:
  assumes "access_step low w w'" and "access_ok w"
  shows "access_ok w'"
  using assms
proof (cases rule: access_step.cases)
  case role
  show ?thesis by (rule transacts_keeps [OF create_role_transacts _ role(2) assms(2)]) (blast intro: accessed_keeps)
next
  case grant
  show ?thesis by (rule transacts_keeps [OF grant_transacts _ grant assms(2)]) (blast intro: accessed_keeps)
next
  case revoke
  show ?thesis by (rule transacts_keeps [OF revoke_transacts _ revoke assms(2)]) (blast intro: accessed_keeps)
next
  case assign_group
  show ?thesis by (rule transacts_keeps [OF assign_group_transacts _ assign_group assms(2)]) (blast intro: accessed_keeps)
next
  case remove_group
  show ?thesis by (rule transacts_keeps [OF remove_group_transacts _ remove_group assms(2)]) (blast intro: accessed_keeps)
next
  case create_group
  show ?thesis by (rule transacts_keeps [OF create_group_transacts _ create_group assms(2)]) (blast intro: accessed_keeps)
next
  case update_group
  show ?thesis by (rule transacts_keeps [OF update_group_transacts _ update_group assms(2)]) (blast intro: accessed_keeps)
next
  case delete_group
  show ?thesis by (rule transacts_keeps [OF delete_group_transacts _ delete_group assms(2)]) (blast intro: accessed_keeps)
next
  case add_member
  show ?thesis by (rule transacts_keeps [OF add_member_transacts _ add_member assms(2)]) (blast intro: accessed_keeps)
next
  case remove_member
  show ?thesis by (rule transacts_keeps [OF remove_member_transacts _ remove_member assms(2)]) (blast intro: accessed_keeps)
next
  case assign
  show ?thesis by (rule transacts_keeps [OF assign_role_transacts _ assign(2) assms(2)])
    (use assign(1) accessed_keeps emitted_same same_access_ok in blast)
next
  case unassign
  show ?thesis by (rule transacts_keeps [OF unassign_role_transacts _ unassign(2) assms(2)])
    (use unassign(1) accessed_keeps emitted_same same_access_ok in blast)
next
  case seed
  then show ?thesis using seed_keeps assms(2) by blast
next
  case elsewhere
  then show ?thesis using same_access_ok assms(2) by blast
qed

text \<open>Only a new role touches the names, and it has one that is free.\<close>

lemma transacts_names:
  assumes "transacts op spec" and "\<And>a w w'. spec a w w' \<Longrightarrow> role_rows w' = role_rows w" and "op e w = (res, e', w')"
  shows "role_rows w' = role_rows w"
  using assms(3) transactsD [OF assms(1), of e w _ e' w'] assms(2) by (cases res) auto

lemma accessed_names:
  assumes "accessed x ev msg c w w'" and "\<forall>r. c \<noteq> RoleCreated r"
  shows "role_rows w' = role_rows w"
proof -
  have "role_rows (apply_access c w) = role_rows w" using assms(2) by (cases c) (auto simp: cascade_def Let_def)
  with assms(1) show ?thesis by (auto simp: accessed_def)
qed

lemma create_role_names:
  assumes run: "create_role x tenant name desc who e w = (rr, e', w')" and ok: "role_names_unique (rx_lower x) w"
  shows "role_names_unique (rx_lower x) w'"
proof (cases rr)
  case (Inl err)
  with run transactsD(1) [OF create_role_transacts, of x tenant name desc who e w err e' w'] ok show ?thesis by simp
next
  case (Inr r)
  from transactsD(2) [OF create_role_transacts run [unfolded Inr]] have
    r: "ro_tenant r = tenant" "ro_name r = name" "role_name_free x tenant name w" and "role_rows w' = role_rows w @ [r]"
    by (auto simp: accessed_def)
  with ok show ?thesis by (auto simp: role_names_unique_def role_name_free_def)
qed

lemma upsert_all_names: "upsert_all bs e w = (Inr u, e', w') \<Longrightarrow> role_rows w' = role_rows w"
proof (induction bs arbitrary: e w rule: upsert_all.induct)
  case (2 key desc bs)
  from "2.prems"(1) obtain p e1 w1 where p: "upsert_permission key desc e w = (Inr p, e1, w1)"
    and "upsert_all bs e1 w1 = (Inr u, e', w')" by (auto simp: bind_ok)
  moreover from p have "role_rows w1 = role_rows w"
    by (cases "List.find (\<lambda>p. pm_key p = key) (perm_rows w)") (auto simp: upsert_permission_def io_ok Let_def split: if_splits)
  ultimately show ?case using "2.IH" by simp
qed (simp add: ret_ok)

lemma access_step_names:
  assumes "access_step low w w'" and "role_names_unique low w"
  shows "role_names_unique low w'"
proof -
  have "(\<exists>x tenant name desc who e rr e'. rx_lower x = low \<and> create_role x tenant name desc who e w = (rr, e', w')) \<or>
      role_rows w' = role_rows w"
    using assms(1)
  proof (cases rule: access_step.cases)
    case role
    then show ?thesis by blast
  next
    case grant
    have "role_rows w' = role_rows w" by (rule transacts_names [OF grant_transacts _ grant]) (erule accessed_names, simp)
    then show ?thesis ..
  next
    case revoke
    have "role_rows w' = role_rows w" by (rule transacts_names [OF revoke_transacts _ revoke]) (erule accessed_names, simp)
    then show ?thesis ..
  next
    case assign_group
    have "role_rows w' = role_rows w" by (rule transacts_names [OF assign_group_transacts _ assign_group]) (erule exE, erule accessed_names, simp)
    then show ?thesis ..
  next
    case remove_group
    have "role_rows w' = role_rows w" by (rule transacts_names [OF remove_group_transacts _ remove_group]) (erule accessed_names, simp)
    then show ?thesis ..
  next
    case create_group
    have "role_rows w' = role_rows w" by (rule transacts_names [OF create_group_transacts _ create_group]) (elim conjE, erule accessed_names, simp)
    then show ?thesis ..
  next
    case update_group
    have "role_rows w' = role_rows w" by (rule transacts_names [OF update_group_transacts _ update_group]) (elim conjE exE, erule accessed_names, simp)
    then show ?thesis ..
  next
    case delete_group
    have "role_rows w' = role_rows w" by (rule transacts_names [OF delete_group_transacts _ delete_group]) (elim conjE exE, erule accessed_names, simp)
    then show ?thesis ..
  next
    case add_member
    have "role_rows w' = role_rows w" by (rule transacts_names [OF add_member_transacts _ add_member]) (elim conjE exE, erule accessed_names, simp)
    then show ?thesis ..
  next
    case remove_member
    have "role_rows w' = role_rows w" by (rule transacts_names [OF remove_member_transacts _ remove_member]) (erule accessed_names, simp)
    then show ?thesis ..
  next
    case assign
    have "role_rows w' = role_rows w" by (rule transacts_names [OF assign_role_transacts _ assign(2)])
      (use assign(1) accessed_names emitted_same same_access_def in \<open>metis access_change.distinct\<close>)
    then show ?thesis ..
  next
    case unassign
    have "role_rows w' = role_rows w" by (rule transacts_names [OF unassign_role_transacts _ unassign(2)])
      (use unassign(1) accessed_names emitted_same same_access_def in \<open>metis access_change.distinct\<close>)
    then show ?thesis ..
  next
    case seed
    have "role_rows w' = role_rows w"
      using in_tx_result [OF seed [unfolded seed_builtins_def]] upsert_all_names by metis
    then show ?thesis ..
  next
    case elsewhere
    then show ?thesis by (simp add: same_access_def)
  qed
  then show ?thesis
  proof (elim disjE exE conjE)
    fix x tenant name desc who e rr e'
    assume "rx_lower x = low" and "create_role x tenant name desc who e w = (rr, e', w')"
    from create_role_names [OF this(2)] assms(2) this(1) show ?thesis by simp
  next
    assume "role_rows w' = role_rows w"
    with assms(2) show ?thesis by (simp add: role_names_unique_def)
  qed
qed

text \<open>
  C10. The access tables stay consistent: along any sequence of calls of the role and group services,
  failed ones and the start-up seeding included, interleaved with steps of components that do not touch
  the tables, ids, permission keys, assignments, bindings and memberships stay unique, so do the names of the
  roles of a tenant up to case, and no assignment, grant, binding, membership or parent refers to a role,
  permission, tenant or group that is gone; memberships and bindings stay within one tenant.
\<close>

theorem access_tables_stay_consistent:
  assumes "(access_step low)\<^sup>*\<^sup>* w0 w" and "access_ok w0" and "role_names_unique low w0"
  shows "access_ok w \<and> role_names_unique low w"
  using assms by (induction rule: rtranclp_induct) (auto intro: access_step_ok access_step_names)

theorem access_tables_stay_consistent_witness:
  "access_ok (snd (snd (delete_group \<lparr>gx_rbac = demo_rbac_ext, gx_payload = (\<lambda>_. [])\<rparr> 41 1
     (actor_of (demo_get ''DELETE'' [])) demo_env (snd (snd (seed_builtins demo_env demo_rbac))))))"
proof -
  obtain ru e1 w1 where a: "seed_builtins demo_env demo_rbac = (ru, e1, w1)" by (metis prod_cases3)
  obtain rv e2 w2 where b: "delete_group \<lparr>gx_rbac = demo_rbac_ext, gx_payload = (\<lambda>_. [])\<rparr> 41 1
     (actor_of (demo_get ''DELETE'' [])) demo_env w1 = (rv, e2, w2)" by (metis prod_cases3)
  from access_step.seed [OF a] access_step.delete_group [OF b] have "(access_step id)\<^sup>*\<^sup>* demo_rbac w2"
    by (meson rtranclp.rtrancl_into_rtrancl rtranclp.rtrancl_refl)
  moreover have "role_names_unique id demo_rbac" by (simp add: role_names_unique_def demo_rbac_def)
  ultimately show ?thesis using access_tables_stay_consistent [OF _ demo_access_ok] a b by simp
qed

section \<open>What a change does to the decisions\<close>

lemma accessed_effect:
  assumes "accessed x ev msg c w w'"
  shows "change_ok c w" and "has_role u t r w' = has_role u t r (apply_access c w)"
    and "confers r key w' = confers r key (apply_access c w)"
  using assms by (auto simp: accessed_def logs_frame)

lemma same_access_effect:
  assumes "same_access w w'"
  shows "has_role u t r w' = has_role u t r w" and "confers r key w' = confers r key w"
  using assms decision_frame [of w' w u t r] confers_frame [of w' w r key] by (simp_all add: same_access_def)

lemma assign_role_effect:
  assumes "assign_role x em user tenant role by_user who e w = (Inr u0, e', w')" and "harmless em"
  shows "has_role u t r w' \<longleftrightarrow> has_role u t r w \<or> (u, t, r) = (user, tenant, role)"
    and "confers r key w' = confers r key w"
proof -
  from transactsD(2) [OF assign_role_transacts assms(1)] obtain w1 now where
    c: "accessed (rx_audit x) (tenant_event who tenant ''role.assigned'' ''user'' user (role_id_meta x role)) None
     (Assigned \<lparr>ur_user = user, ur_tenant = tenant, ur_role = role, ur_granted = now, ur_by = by_user\<rparr>) w w1"
    and m: "emitted em tenant (claims_change x user role ''role_assigned'') w1 w'" by blast
  note k = same_access_effect [OF emitted_same [OF assms(2) m]] accessed_effect(2,3) [OF c]
  show "has_role u t r w' \<longleftrightarrow> has_role u t r w \<or> (u, t, r) = (user, tenant, role)"
    unfolding k holds_assigned by (simp add: user_role_key_def)
  show "confers r key w' = confers r key w"
    unfolding k by (rule confers_other_change) simp
qed

lemma unassign_role_effect:
  assumes "unassign_role x em user tenant role who e w = (Inr u0, e', w')" and "harmless em"
  shows "has_role u t r w' \<longleftrightarrow>
     holds_directly u t r w \<and> (u, t, r) \<noteq> (user, tenant, role) \<or> (\<exists>g. holds_through g u t r w)"
    and "confers r key w' = confers r key w"
proof -
  from transactsD(2) [OF unassign_role_transacts assms(1)] obtain w1 where
    c: "accessed (rx_audit x) (tenant_event who tenant ''role.unassigned'' ''user'' user (role_id_meta x role)) None
     (Unassigned user tenant role) w w1"
    and m: "emitted em tenant (claims_change x user role ''role_unassigned'') w1 w'" by blast
  note k = same_access_effect [OF emitted_same [OF assms(2) m]] accessed_effect(2,3) [OF c]
  show "has_role u t r w' \<longleftrightarrow>
     holds_directly u t r w \<and> (u, t, r) \<noteq> (user, tenant, role) \<or> (\<exists>g. holds_through g u t r w)"
    unfolding k by (rule holds_unassigned)
  show "confers r key w' = confers r key w"
    unfolding k by (rule confers_other_change) simp
qed

lemma grant_effect:
  assumes "grant_permission x role perm who e w = (Inr u0, e', w')"
  shows "has_role u t r w' = has_role u t r w"
    and "confers r key w' \<longleftrightarrow> confers r key w \<or> r = role \<and> (\<exists>p \<in> set (perm_rows w). pm_id p = perm \<and> pm_key p = key)"
proof -
  note c = transactsD(2) [OF grant_transacts assms]
  show "has_role u t r w' = has_role u t r w"
    unfolding accessed_effect(2) [OF c] by (rule decision_frame) simp_all
  show "confers r key w' \<longleftrightarrow> confers r key w \<or> r = role \<and> (\<exists>p \<in> set (perm_rows w). pm_id p = perm \<and> pm_key p = key)"
    unfolding accessed_effect(3) [OF c] by (auto simp: confers_iff)
qed

lemma revoke_effect:
  assumes "revoke_permission x role perm who e w = (Inr u0, e', w')"
  shows "has_role u t r w' = has_role u t r w"
    and "confers r key w' \<longleftrightarrow> (\<exists>p \<in> set (perm_rows w). (r, pm_id p) \<in> set (role_perm_rows w) \<and>
      (r, pm_id p) \<noteq> (role, perm) \<and> pm_key p = key)"
proof -
  note c = transactsD(2) [OF revoke_transacts assms]
  show "has_role u t r w' = has_role u t r w"
    unfolding accessed_effect(2) [OF c] by (rule decision_frame) simp_all
  show "confers r key w' \<longleftrightarrow> (\<exists>p \<in> set (perm_rows w). (r, pm_id p) \<in> set (role_perm_rows w) \<and>
      (r, pm_id p) \<noteq> (role, perm) \<and> pm_key p = key)"
    unfolding accessed_effect(3) [OF c] by (auto simp: confers_iff)
qed

end
