(* ===== verification/RbacEffects.thy ===== *)
theory RbacEffects imports RbacProps begin

text \<open>
  The exact effect of each change on every decision, the groups a deletion takes with it, and the
  isolation of the tenants by the handlers.
\<close>

section \<open>The cascade is the descendants\<close>

definition subgroup_of :: "'z rbac_db_scheme \<Rightarrow> (uuid \<times> uuid) set" where
  "subgroup_of w = {(p, gp_id g) | p g. g \<in> set (group_rows w) \<and> gp_parent g = Some p}"

lemma doomed_descend:
  "set (doomed n (group_rows w) is) \<subseteq> (subgroup_of w)\<^sup>* `` set is"
proof (induction n arbitrary: "is")
  case 0
  show ?case by auto
next
  case (Suc n)
  let ?new = "map gp_id (filter (\<lambda>g. gp_id g \<notin> set is \<and> (case gp_parent g of None \<Rightarrow> False | Some p \<Rightarrow> p \<in> set is)) (group_rows w))"
  have new: "\<exists>p \<in> set is. (p, g) \<in> subgroup_of w" if "g \<in> set ?new" for g
    using that by (auto simp: subgroup_of_def split: option.splits)
  have "(subgroup_of w)\<^sup>* `` set (is @ ?new) \<subseteq> (subgroup_of w)\<^sup>* `` set is"
  proof
    fix h assume "h \<in> (subgroup_of w)\<^sup>* `` set (is @ ?new)"
    then obtain g where g: "g \<in> set is \<or> g \<in> set ?new" "(g, h) \<in> (subgroup_of w)\<^sup>*" by (auto simp del: set_map)
    from g(1) show "h \<in> (subgroup_of w)\<^sup>* `` set is"
    proof
      assume "g \<in> set is" with g(2) show ?thesis by blast
    next
      assume "g \<in> set ?new"
      from new [OF this] obtain p where "p \<in> set is" "(p, g) \<in> subgroup_of w" by blast
      with g(2) show ?thesis by (blast intro: converse_rtrancl_into_rtrancl)
    qed
  qed
  with Suc [of "is @ ?new"] show ?case by simp
qed

lemma doomed_iff:
  "g \<in> set (doomed (length (group_rows w)) (group_rows w) [i]) \<longleftrightarrow> (i, g) \<in> (subgroup_of w)\<^sup>*"
proof
  assume "g \<in> set (doomed (length (group_rows w)) (group_rows w) [i])"
  with doomed_descend [of "length (group_rows w)" w "[i]"] show "(i, g) \<in> (subgroup_of w)\<^sup>*" by auto
next
  assume "(i, g) \<in> (subgroup_of w)\<^sup>*"
  then show "g \<in> set (doomed (length (group_rows w)) (group_rows w) [i])"
  proof (induction rule: rtrancl_induct)
    case base
    show ?case using doomed_superset [of "[i]"] by simp
  next
    case (step g h)
    then obtain q where "q \<in> set (group_rows w)" "gp_parent q = Some g" "gp_id q = h" by (auto simp: subgroup_of_def)
    with step.IH cascade_closed [of w i] show ?case by (auto simp: closed_under_parents_def)
  qed
qed

lemma cascade_fields:
  "group_rows (cascade i w) = filter (\<lambda>g. (i, gp_id g) \<notin> (subgroup_of w)\<^sup>*) (group_rows w)"
  "member_rows (cascade i w) = filter (\<lambda>m. (i, gm_group m) \<notin> (subgroup_of w)\<^sup>*) (member_rows w)"
  "group_role_rows (cascade i w) = filter (\<lambda>q. (i, gr_group q) \<notin> (subgroup_of w)\<^sup>*) (group_role_rows w)"
  "user_role_rows (cascade i w) = user_role_rows w"
  by (simp_all add: cascade_def Let_def doomed_iff)

lemma delete_group_run:
  assumes "delete_group x i tenant who e w = (Inr u0, e', w')"
  shows "\<exists>g. find_group i tenant (group_rows w) = Some g"
    and "group_rows w' = group_rows (cascade i w)" "member_rows w' = member_rows (cascade i w)"
    "group_role_rows w' = group_role_rows (cascade i w)" "user_role_rows w' = user_role_rows w"
    "role_rows w' = role_rows w" "role_perm_rows w' = role_perm_rows w" "perm_rows w' = perm_rows w"
proof -
  from transactsD(2) [OF delete_group_transacts assms] obtain g rows evs where
    g: "find_group i tenant (group_rows w) = Some g"
    and w': "w' = (cascade i w)\<lparr>audit_rows := rows, outbox_rows := evs\<rparr>" by (auto simp: accessed_def)
  from g show "\<exists>g. find_group i tenant (group_rows w) = Some g" by blast
  from w' show "group_rows w' = group_rows (cascade i w)" "member_rows w' = member_rows (cascade i w)"
    "group_role_rows w' = group_role_rows (cascade i w)" "user_role_rows w' = user_role_rows w"
    "role_rows w' = role_rows w" "role_perm_rows w' = role_perm_rows w" "perm_rows w' = perm_rows w"
    by (simp_all add: cascade_def Let_def)
qed

section \<open>Through groups\<close>

lemma holds_group_removed:
  "has_role u t r (apply_access (GroupUnassigned grp tenant role) w) \<longleftrightarrow>
     holds_directly u t r w \<or> (\<exists>g. holds_through g u t r w \<and> (g, t, r) \<noteq> (grp, tenant, role))"
proof -
  have "bound g t r (apply_access (GroupUnassigned grp tenant role) w) \<longleftrightarrow> bound g t r w \<and> (g, t, r) \<noteq> (grp, tenant, role)" for g
    by (auto simp: bound_def)
  moreover have "in_group u g t (apply_access (GroupUnassigned grp tenant role) w) = in_group u g t w" for g
    by (simp add: in_group_def)
  moreover have "holds_directly u t r (apply_access (GroupUnassigned grp tenant role) w) = holds_directly u t r w"
    by (simp add: holds_directly_def)
  ultimately show ?thesis unfolding has_role_def holds_through_iff by blast
qed

lemma holds_member_removed:
  "has_role u t r (apply_access (MemberRemoved grp user tenant) w) \<longleftrightarrow>
     holds_directly u t r w \<or> (\<exists>g. holds_through g u t r w \<and> (g, u, t) \<noteq> (grp, user, tenant))"
proof -
  have "in_group u g t (apply_access (MemberRemoved grp user tenant) w) \<longleftrightarrow> in_group u g t w \<and> (g, u, t) \<noteq> (grp, user, tenant)" for g
    by (auto simp: in_group_def)
  moreover have "bound g t r (apply_access (MemberRemoved grp user tenant) w) = bound g t r w" for g
    by (simp add: bound_def)
  moreover have "holds_directly u t r (apply_access (MemberRemoved grp user tenant) w) = holds_directly u t r w"
    by (simp add: holds_directly_def)
  ultimately show ?thesis unfolding has_role_def holds_through_iff by blast
qed

lemma group_assign_effect:
  assumes "assign_role_to_group x grp tenant role by_user who e w = (Inr u0, e', w')"
  shows "has_role u t r w' \<longleftrightarrow> has_role u t r w \<or> in_group u grp t w \<and> t = tenant \<and> r = role"
    and "confers r key w' = confers r key w"
proof -
  from transactsD(2) [OF assign_group_transacts assms] obtain now where
    c: "accessed (rx_audit x) (tenant_event who tenant ''role.group_assigned'' ''group'' grp (role_id_meta x role)) None
     (GroupAssigned \<lparr>gr_tenant = tenant, gr_group = grp, gr_role = role, gr_granted = now, gr_by = by_user\<rparr>) w w'"
    by blast
  show "has_role u t r w' \<longleftrightarrow> has_role u t r w \<or> in_group u grp t w \<and> t = tenant \<and> r = role"
    unfolding accessed_effect(2) [OF c] holds_group_assigned [OF accessed_effect(1) [OF c]] by simp
  show "confers r key w' = confers r key w"
    unfolding accessed_effect(3) [OF c] by (rule confers_other_change) simp
qed

lemma group_unassign_effect:
  assumes "remove_role_from_group x grp tenant role who e w = (Inr u0, e', w')"
  shows "has_role u t r w' \<longleftrightarrow>
     holds_directly u t r w \<or> (\<exists>g. holds_through g u t r w \<and> (g, t, r) \<noteq> (grp, tenant, role))"
    and "confers r key w' = confers r key w"
proof -
  note c = transactsD(2) [OF remove_group_transacts assms]
  show "has_role u t r w' \<longleftrightarrow>
     holds_directly u t r w \<or> (\<exists>g. holds_through g u t r w \<and> (g, t, r) \<noteq> (grp, tenant, role))"
    unfolding accessed_effect(2) [OF c] by (rule holds_group_removed)
  show "confers r key w' = confers r key w"
    unfolding accessed_effect(3) [OF c] by (rule confers_other_change) simp
qed

lemma add_member_effect:
  assumes "add_member x grp user tenant who e w = (Inr u0, e', w')" and "access_ok w"
  shows "has_role u t r w' \<longleftrightarrow> has_role u t r w \<or> u = user \<and> t = tenant \<and> bound grp t r w"
    and "confers r key w' = confers r key w"
proof -
  from transactsD(2) [OF add_member_transacts assms(1)] obtain now where
    c: "accessed (rx_audit (gx_rbac x)) (tenant_event who tenant ''group.member_added'' ''group'' grp (user_meta x user))
     (Some (group_event grp ''group.member_added'' (member_payload x grp user tenant)))
     (MemberAdded \<lparr>gm_group = grp, gm_user = user, gm_tenant = tenant, gm_added = now\<rparr>) w w'"
    by blast
  show "has_role u t r w' \<longleftrightarrow> has_role u t r w \<or> u = user \<and> t = tenant \<and> bound grp t r w"
    unfolding accessed_effect(2) [OF c] holds_member_added [OF assms(2) accessed_effect(1) [OF c]] by simp
  show "confers r key w' = confers r key w"
    unfolding accessed_effect(3) [OF c] by (rule confers_other_change) simp
qed

lemma remove_member_effect:
  assumes "remove_member x grp user tenant who e w = (Inr u0, e', w')"
  shows "has_role u t r w' \<longleftrightarrow>
     holds_directly u t r w \<or> (\<exists>g. holds_through g u t r w \<and> (g, u, t) \<noteq> (grp, user, tenant))"
    and "confers r key w' = confers r key w"
proof -
  note c = transactsD(2) [OF remove_member_transacts assms]
  show "has_role u t r w' \<longleftrightarrow>
     holds_directly u t r w \<or> (\<exists>g. holds_through g u t r w \<and> (g, u, t) \<noteq> (grp, user, tenant))"
    unfolding accessed_effect(2) [OF c] by (rule holds_member_removed)
  show "confers r key w' = confers r key w"
    unfolding accessed_effect(3) [OF c] by (rule confers_other_change) simp
qed

lemma delete_group_effect:
  assumes "delete_group x i tenant who e w = (Inr u0, e', w')"
  shows "has_role u t r w' \<longleftrightarrow>
     holds_directly u t r w \<or> (\<exists>g. holds_through g u t r w \<and> (i, g) \<notin> (subgroup_of w)\<^sup>*)"
    and "confers r key w' = confers r key w"
proof -
  note d = delete_group_run [OF assms]
  show "has_role u t r w' \<longleftrightarrow>
     holds_directly u t r w \<or> (\<exists>g. holds_through g u t r w \<and> (i, g) \<notin> (subgroup_of w)\<^sup>*)"
  proof -
    have "in_group u g t w' \<longleftrightarrow> in_group u g t w \<and> (i, g) \<notin> (subgroup_of w)\<^sup>*" for g
      unfolding in_group_def d(3) cascade_fields by auto
    moreover have "bound g t r w' \<longleftrightarrow> bound g t r w \<and> (i, g) \<notin> (subgroup_of w)\<^sup>*" for g
      unfolding bound_def d(4) cascade_fields by auto
    moreover have "holds_directly u t r w' = holds_directly u t r w"
      unfolding holds_directly_def d(5) ..
    ultimately show ?thesis unfolding has_role_def holds_through_iff by blast
  qed
  show "confers r key w' = confers r key w" by (rule confers_frame [OF d(8,7)])
qed

section \<open>Properties\<close>

text \<open>
  C37. What the operations on roles do to the decisions, for every user, tenant and permission: assigning
  a role adds exactly what the role grants, to that user in that tenant; unassigning it takes away only
  what no other assignment and no group gives; granting a permission to a role reaches exactly the
  holders of the role, and revoking it leaves exactly what another grant still gives.
\<close>

theorem role_changes_move_decisions:
  assumes "harmless em"
  shows "(assign_role x em user tenant role by_user who e w = (Inr (), e', w') \<longrightarrow>
      (\<forall>u t key. check_permission u t key w' \<longleftrightarrow>
         check_permission u t key w \<or> u = user \<and> t = tenant \<and> confers role key w)) \<and>
    (unassign_role x em user tenant role who e w = (Inr (), e', w') \<longrightarrow>
      (\<forall>u t key. check_permission u t key w' \<longleftrightarrow> (\<exists>r. confers r key w \<and>
         (holds_directly u t r w \<and> (u, t, r) \<noteq> (user, tenant, role) \<or> (\<exists>g. holds_through g u t r w))))) \<and>
    (grant_permission x role perm who e w = (Inr (), e', w') \<longrightarrow>
      (\<forall>u t key. check_permission u t key w' \<longleftrightarrow> check_permission u t key w \<or>
         has_role u t role w \<and> (\<exists>p \<in> set (perm_rows w). pm_id p = perm \<and> pm_key p = key))) \<and>
    (revoke_permission x role perm who e w = (Inr (), e', w') \<longrightarrow>
      (\<forall>u t key. check_permission u t key w' \<longleftrightarrow> (\<exists>r. has_role u t r w \<and>
         (\<exists>p \<in> set (perm_rows w). (r, pm_id p) \<in> set (role_perm_rows w) \<and>
            (r, pm_id p) \<noteq> (role, perm) \<and> pm_key p = key))))"
proof (intro conjI impI allI)
  fix u t key
  {
    assume run: "assign_role x em user tenant role by_user who e w = (Inr (), e', w')"
    show "check_permission u t key w' \<longleftrightarrow>
         check_permission u t key w \<or> u = user \<and> t = tenant \<and> confers role key w"
      unfolding check_permission_iff assign_role_effect [OF run assms] by blast
  next
    assume run: "unassign_role x em user tenant role who e w = (Inr (), e', w')"
    show "check_permission u t key w' \<longleftrightarrow> (\<exists>r. confers r key w \<and>
         (holds_directly u t r w \<and> (u, t, r) \<noteq> (user, tenant, role) \<or> (\<exists>g. holds_through g u t r w)))"
      unfolding check_permission_iff unassign_role_effect [OF run assms] by blast
  next
    assume run: "grant_permission x role perm who e w = (Inr (), e', w')"
    show "check_permission u t key w' \<longleftrightarrow> check_permission u t key w \<or>
         has_role u t role w \<and> (\<exists>p \<in> set (perm_rows w). pm_id p = perm \<and> pm_key p = key)"
      unfolding check_permission_iff grant_effect [OF run] by blast
  next
    assume run: "revoke_permission x role perm who e w = (Inr (), e', w')"
    show "check_permission u t key w' \<longleftrightarrow> (\<exists>r. has_role u t r w \<and>
         (\<exists>p \<in> set (perm_rows w). (r, pm_id p) \<in> set (role_perm_rows w) \<and>
            (r, pm_id p) \<noteq> (role, perm) \<and> pm_key p = key))"
      unfolding check_permission_iff revoke_effect [OF run] ..
  }
qed

lemma harmless_None [simp]: "harmless None"
  by (simp add: harmless_def)

lemma repo_assign_live:
  assumes "no_faults e" and "(user, tenant, role) \<in> set (map user_role_key (user_role_rows w)) \<or>
      tenant \<in> set (tenant_ids w) \<and> role \<in> set (map ro_id (role_rows w))"
  shows "\<exists>e1 w1. repo_assign user tenant role by_user e w = (Inr (), e1, w1) \<and> no_faults e1 \<and> e_uuid e1 = e_uuid e"
  using assms by (simp add: repo_assign_def bind_io_def time_now_def db_call_def Let_def no_faults_def) blast

lemma checked_assign_group_live:
  assumes "no_faults e"
    and "bound grp tenant role w \<or> same_tenant_group grp tenant w \<and> same_tenant_role role tenant w \<and>
      \<not> (\<exists>q \<in> set (group_role_rows w). gr_group q = grp \<and> gr_role q = role)"
  shows "\<exists>e1 w1. checked_assign_group grp tenant role by_user e w = (Inr (), e1, w1) \<and> no_faults e1 \<and> e_uuid e1 = e_uuid e"
proof -
  have g: "same_tenant_group grp tenant w \<longleftrightarrow> (\<exists>g \<in> set (group_rows w). gp_id g = grp \<and> gp_tenant g = tenant)"
    by (auto simp: same_tenant_group_def group_key_def image_iff)
  have r: "same_tenant_role role tenant w \<longleftrightarrow> (\<exists>r \<in> set (role_rows w). ro_id r = role \<and> ro_tenant r = tenant)"
    by (auto simp: same_tenant_role_def role_key_def image_iff)
  have b: "bound grp tenant role w \<longleftrightarrow> (\<exists>q \<in> set (group_role_rows w). gr_group q = grp \<and> gr_role q = role \<and> gr_tenant q = tenant)"
    by (auto simp: bound_def)
  from assms show ?thesis unfolding g r b
    by (simp add: checked_assign_group_def repo_assign_group_def bind_io_def time_now_def db_call_def Let_def
        no_faults_def guard_def ret_def fail_def) blast
qed

lemma checked_assign_group_refuses:
  assumes "no_faults e"
    and "\<not> (bound grp tenant role w \<or> same_tenant_group grp tenant w \<and> same_tenant_role role tenant w \<and>
      \<not> (\<exists>q \<in> set (group_role_rows w). gr_group q = grp \<and> gr_role q = role))"
  shows "\<exists>e1 w1. checked_assign_group grp tenant role by_user e w =
      (Inl (ApiErr (with_detail ErrNotFound ''group or role not found in tenant'')), e1, w1)"
proof -
  obtain r e1 w1 where run: "checked_assign_group grp tenant role by_user e w = (r, e1, w1)" by (metis prod_cases3)
  show ?thesis
  proof (cases r)
    case (Inr u)
    from checked_assign_group_ok [OF run [unfolded Inr]] assms(2) show ?thesis by (auto simp: bound_def)
  next
    case (Inl err)
    with run assms(1) show ?thesis
      by (auto simp: checked_assign_group_def repo_assign_group_def bind_io_def time_now_def db_call_def Let_def
          no_faults_def guard_def ret_def fail_def split: if_splits)
  qed
qed

lemma emit_live: "\<exists>e' w'. emit em tenant ty p e w = (Inr (), e', w')"
proof (cases em)
  case (Some f)
  obtain r e1 w1 where "f tenant ty p e w = (r, e1, w1)" by (metis prod_cases3)
  then show ?thesis by (cases r) (simp_all add: Some emit_def ignore_error_def on_error_def ret_def)
qed (simp add: emit_def ret_def)

definition bindable :: "uuid \<Rightarrow> uuid \<Rightarrow> uuid \<Rightarrow> 'z rbac_db_scheme \<Rightarrow> bool" where
  "bindable grp tenant role w \<longleftrightarrow> bound grp tenant role w \<or>
     same_tenant_group grp tenant w \<and> same_tenant_role role tenant w \<and>
     \<not> (\<exists>q \<in> set (group_role_rows w). gr_group q = grp \<and> gr_role q = role)"

text \<open>The address of the caller, which the audit row stores as an \<^verbatim>\<open>inet\<close>.\<close>

definition ip_storable :: "rbac_ext \<Rightarrow> actor \<Rightarrow> bool" where
  "ip_storable x who \<longleftrightarrow> a_ip who = [] \<or> ax_inet (rx_audit x) (a_ip who) \<noteq> None"

lemma assignments_need_ip:
  "assign_tx x user tenant role by_user who e w = (Inr (), e', w') \<Longrightarrow> ip_storable x who"
  "assign_role_to_group x grp tenant role by_user who e w = (Inr (), e', w') \<Longrightarrow> ip_storable x who"
  unfolding assign_tx_def assign_role_to_group_def ip_storable_def
  by (erule in_tx_ok, auto simp: bind_ok elim!: record_audit_ok simp: tenant_event_ip)+


definition demo_actor :: actor where
  "demo_actor = \<lparr>a_user_id = Some 3, a_type = ''user'', a_ip = [], a_user_agent = [], a_request_id = []\<rparr>"

lemma demo_actor_storable: "ip_storable demo_rbac_ext demo_actor"
  by (simp add: ip_storable_def demo_actor_def)

lemma demo_actor_ip: "a_ip demo_actor = [] \<or> ax_inet (rx_audit demo_rbac_ext) (a_ip demo_actor) \<noteq> None"
  by (simp add: demo_actor_def)

lemma demo_logs: "fresh_ids demo_env demo_rbac"
  by (rule fresh_ids_empty) (simp_all add: demo_rbac_def)


theorem role_changes_move_decisions_witness:
  "\<exists>e' w'. assign_role demo_rbac_ext None 9 1 31 None demo_actor demo_env demo_rbac = (Inr (), e', w') \<and>
     check_permission 9 1 ''role.read'' w' \<and> \<not> check_permission 9 2 ''role.read'' w'"
proof -
  have n: "no_faults (next_call demo_env)" by (rule no_faults_next [OF no_faults_quiet])
  have "1 \<in> set (tenant_ids demo_rbac) \<and> 31 \<in> set (map ro_id (role_rows demo_rbac))" by (simp add: demo_rbac_def)
  with repo_assign_live [OF n, of 9 1 31 demo_rbac None] obtain e1 w1 where
    s: "repo_assign 9 1 31 None (next_call demo_env) demo_rbac = (Inr (), e1, w1)" and n1: "no_faults e1"
    and u: "e_uuid e1 = e_uuid (next_call demo_env)" by blast
  have f: "fresh_ids e1 w1" by (rule fresh_ids_after [OF demo_logs u]) (use repo_assign_ok [OF s] logs_kept_change in blast)
  from assigning.recorded_live [where x = demo_rbac_ext and who = demo_actor, OF no_faults_quiet s n1 _ f,
      unfolded tenant_event_ip, OF demo_actor_ip]
  obtain e2 w2 where "assign_tx demo_rbac_ext 9 1 31 None demo_actor demo_env demo_rbac = (Inr (), e2, w2)" by blast
  then have run: "assign_role demo_rbac_ext None 9 1 31 None demo_actor demo_env demo_rbac = (Inr (), e2, w2)"
    by (simp add: assign_role_def bind_io_def emit_def ret_def)
  have g: "confers 31 ''role.read'' demo_rbac" by (simp add: confers_iff demo_rbac_def)
  have c: "\<not> check_permission 9 2 ''role.read'' demo_rbac" by code_simp
  from role_changes_move_decisions [OF harmless_None, THEN conjunct1, THEN mp, OF run] g c run
  show ?thesis by auto
qed

text \<open>
  C38. What the operations on groups do to the decisions, on consistent tables: binding a role to a group
  gives it to exactly the members of the group in that tenant, adding a member gives exactly the roles
  bound to the group, and the three removals, of a binding, of a member and of a group with all its
  descendants, take away exactly the paths through what is removed.
\<close>

theorem group_changes_move_decisions:
  assumes "access_ok w"
  shows "(assign_role_to_group x grp tenant role by_user who e w = (Inr (), e', w') \<longrightarrow>
      (\<forall>u t key. check_permission u t key w' \<longleftrightarrow>
         check_permission u t key w \<or> in_group u grp t w \<and> t = tenant \<and> confers role key w)) \<and>
    (add_member gx grp user tenant who e w = (Inr (), e', w') \<longrightarrow>
      (\<forall>u t key. check_permission u t key w' \<longleftrightarrow> check_permission u t key w \<or>
         u = user \<and> t = tenant \<and> (\<exists>r. bound grp t r w \<and> confers r key w))) \<and>
    (remove_role_from_group x grp tenant role who e w = (Inr (), e', w') \<longrightarrow>
      (\<forall>u t key. check_permission u t key w' \<longleftrightarrow> (\<exists>r. confers r key w \<and>
         (holds_directly u t r w \<or> (\<exists>g. holds_through g u t r w \<and> (g, t, r) \<noteq> (grp, tenant, role)))))) \<and>
    (remove_member gx grp user tenant who e w = (Inr (), e', w') \<longrightarrow>
      (\<forall>u t key. check_permission u t key w' \<longleftrightarrow> (\<exists>r. confers r key w \<and>
         (holds_directly u t r w \<or> (\<exists>g. holds_through g u t r w \<and> (g, u, t) \<noteq> (grp, user, tenant)))))) \<and>
    (delete_group gx grp tenant who e w = (Inr (), e', w') \<longrightarrow>
      (\<forall>u t key. check_permission u t key w' \<longleftrightarrow> (\<exists>r. confers r key w \<and>
         (holds_directly u t r w \<or> (\<exists>g. holds_through g u t r w \<and> (grp, g) \<notin> (subgroup_of w)\<^sup>*)))))"
proof (intro conjI impI allI)
  fix u t key
  {
    assume run: "assign_role_to_group x grp tenant role by_user who e w = (Inr (), e', w')"
    show "check_permission u t key w' \<longleftrightarrow>
         check_permission u t key w \<or> in_group u grp t w \<and> t = tenant \<and> confers role key w"
      unfolding check_permission_iff group_assign_effect [OF run] by blast
  next
    assume run: "add_member gx grp user tenant who e w = (Inr (), e', w')"
    show "check_permission u t key w' \<longleftrightarrow> check_permission u t key w \<or>
         u = user \<and> t = tenant \<and> (\<exists>r. bound grp t r w \<and> confers r key w)"
      unfolding check_permission_iff add_member_effect [OF run assms] by blast
  next
    assume run: "remove_role_from_group x grp tenant role who e w = (Inr (), e', w')"
    show "check_permission u t key w' \<longleftrightarrow> (\<exists>r. confers r key w \<and>
         (holds_directly u t r w \<or> (\<exists>g. holds_through g u t r w \<and> (g, t, r) \<noteq> (grp, tenant, role))))"
      unfolding check_permission_iff group_unassign_effect [OF run] by blast
  next
    assume run: "remove_member gx grp user tenant who e w = (Inr (), e', w')"
    show "check_permission u t key w' \<longleftrightarrow> (\<exists>r. confers r key w \<and>
         (holds_directly u t r w \<or> (\<exists>g. holds_through g u t r w \<and> (g, u, t) \<noteq> (grp, user, tenant))))"
      unfolding check_permission_iff remove_member_effect [OF run] by blast
  next
    assume run: "delete_group gx grp tenant who e w = (Inr (), e', w')"
    show "check_permission u t key w' \<longleftrightarrow> (\<exists>r. confers r key w \<and>
         (holds_directly u t r w \<or> (\<exists>g. holds_through g u t r w \<and> (grp, g) \<notin> (subgroup_of w)\<^sup>*)))"
      unfolding check_permission_iff delete_group_effect [OF run] by blast
  }
qed

definition demo_group_ext :: group_ext where
  "demo_group_ext = \<lparr>gx_rbac = demo_rbac_ext, gx_payload = (\<lambda>_. [])\<rparr>"

lemma delete_group_live:
  assumes "find_group i tenant (group_rows demo_rbac') = Some g" and "audit_rows demo_rbac' = []" "outbox_rows demo_rbac' = []"
  shows "\<exists>e' w'. delete_group demo_group_ext i tenant demo_actor demo_env demo_rbac' = (Inr (), e', w')"
proof -
  have s: "delete_group_row i tenant (next_call demo_env) demo_rbac' =
      (Inr (gp_name g), next_call (next_call demo_env), cascade i demo_rbac')"
    by (simp add: delete_group_row_def on_error_def db_call_def next_call_def Let_def assms(1))
  have n: "no_faults (next_call (next_call demo_env))" by (intro no_faults_next no_faults_quiet)
  have f: "fresh_ids (next_call (next_call demo_env)) (cascade i demo_rbac')"
    using assms(2,3) by (intro fresh_ids_empty) (simp_all add: cascade_def Let_def next_call_def)
  have m: "oe_id (group_event i ''group.deleted'' p) = 0" for p by (simp add: group_event_def)
  from group_deleting.announced_live [where x = demo_group_ext and who = demo_actor, OF no_faults_quiet s n _ m f,
      unfolded tenant_event_ip] demo_actor_ip
  show ?thesis by (auto simp: demo_group_ext_def)
qed

theorem group_changes_move_decisions_witness:
  "\<exists>e' w'. delete_group demo_group_ext 41 1 demo_actor demo_env demo_rbac = (Inr (), e', w') \<and>
     check_permission 3 1 ''role.read'' demo_rbac \<and> \<not> check_permission 3 1 ''role.read'' w'"
proof -
  have "find_group 41 1 (group_rows demo_rbac) = Some (group_rows demo_rbac ! 0)"
    by (simp add: find_group_def demo_rbac_def)
  from delete_group_live [OF this] obtain e' w' where
    run: "delete_group demo_group_ext 41 1 demo_actor demo_env demo_rbac = (Inr (), e', w')"
    by (auto simp: demo_rbac_def)
  have c: "check_permission 3 1 ''role.read'' demo_rbac" by code_simp
  have "\<not> holds_directly u t r demo_rbac" "\<not> (holds_through g u t r demo_rbac \<and> g \<noteq> 41)" for u t r g
    by (auto simp: holds_directly_def holds_through_def demo_rbac_def)
  with group_changes_move_decisions [OF demo_access_ok, THEN conjunct2, THEN conjunct2, THEN conjunct2, THEN conjunct2, THEN mp, OF run]
  have "\<not> check_permission 3 1 ''role.read'' w'" by blast
  with run c show ?thesis by blast
qed

end
