(* ===== verification/RbacTenants.thy ===== *)
theory RbacTenants imports RbacEffects begin

text \<open>
  Roles, groups and tenants: what the handlers leave alone in other tenants, and what the deletion of a
  group reaches.
\<close>

section \<open>The handlers and the other tenants\<close>

text \<open>What a call for one tenant must not touch.\<close>

definition foreign_kept :: "uuid \<Rightarrow> 'z rbac_db_scheme \<Rightarrow> 'z rbac_db_scheme \<Rightarrow> bool" where
  "foreign_kept t w w' \<longleftrightarrow>
     filter (\<lambda>r. ro_tenant r \<noteq> t) (role_rows w') = filter (\<lambda>r. ro_tenant r \<noteq> t) (role_rows w) \<and>
     filter (\<lambda>rp. \<not> same_tenant_role (fst rp) t w) (role_perm_rows w') =
       filter (\<lambda>rp. \<not> same_tenant_role (fst rp) t w) (role_perm_rows w) \<and>
     filter (\<lambda>u. ur_tenant u \<noteq> t) (user_role_rows w') = filter (\<lambda>u. ur_tenant u \<noteq> t) (user_role_rows w) \<and>
     filter (\<lambda>q. gr_tenant q \<noteq> t) (group_role_rows w') = filter (\<lambda>q. gr_tenant q \<noteq> t) (group_role_rows w) \<and>
     group_rows w' = group_rows w \<and> member_rows w' = member_rows w \<and> perm_rows w' = perm_rows w \<and>
     tenant_ids w' = tenant_ids w"

definition role_op_tenant :: "uuid \<Rightarrow> 'z rbac_db_scheme \<Rightarrow> access_change \<Rightarrow> bool" where
  "role_op_tenant t w c \<longleftrightarrow> (case c of
     RoleCreated r \<Rightarrow> ro_tenant r = t
   | Granted r p \<Rightarrow> same_tenant_role r t w
   | Revoked r p \<Rightarrow> same_tenant_role r t w
   | Assigned u \<Rightarrow> ur_tenant u = t
   | Unassigned u t' r \<Rightarrow> t' = t
   | GroupAssigned q \<Rightarrow> gr_tenant q = t
   | GroupUnassigned g t' r \<Rightarrow> t' = t
   | _ \<Rightarrow> False)"

lemma apply_access_foreign:
  assumes "role_op_tenant t w c"
  shows "foreign_kept t w (apply_access c w)"
proof (cases c)
  case (Revoked r p)
  with assms have "same_tenant_role r t w" by (simp add: role_op_tenant_def)
  with Revoked show ?thesis by (auto simp: foreign_kept_def intro!: filter_cong)
next
  case (Unassigned u t' r)
  with assms show ?thesis by (auto simp: role_op_tenant_def foreign_kept_def user_role_key_def intro!: filter_cong)
next
  case (GroupUnassigned g t' r)
  with assms show ?thesis by (auto simp: role_op_tenant_def foreign_kept_def intro!: filter_cong)
qed (use assms in \<open>simp_all add: role_op_tenant_def foreign_kept_def\<close>)

lemma foreign_same: "same_access w1 w' \<Longrightarrow> foreign_kept t w w1 \<Longrightarrow> foreign_kept t w w'"
  by (simp add: foreign_kept_def same_access_def)

lemma accessed_foreign:
  assumes "accessed x ev msg c w w1" and "role_op_tenant t w c" and "same_access w1 w'"
  shows "foreign_kept t w w'"
proof -
  from assms(1) obtain rows evs where "w1 = (apply_access c w)\<lparr>audit_rows := rows, outbox_rows := evs\<rparr>"
    by (auto simp: accessed_def)
  then have "same_access (apply_access c w) w1" by (simp only: same_access_logs)
  from foreign_same [OF assms(3) foreign_same [OF this apply_access_foreign [OF assms(2)]]] show ?thesis .
qed

lemma same_access_refl [simp]: "same_access w w"
  by (simp add: same_access_def)

lemma foreign_refl: "foreign_kept t w w"
  by (simp add: foreign_kept_def)

text \<open>A service call for the tenant keeps the others, whatever it answers.\<close>

lemma transacts_foreign:
  assumes "transacts op spec" and "\<And>a w'. spec a w w' \<Longrightarrow> foreign_kept t w w'"
    and "op e w = (res, e', w')"
  shows "foreign_kept t w w'"
  using assms(3) transactsD [OF assms(1), of e w _ e' w'] assms(2) foreign_refl by (cases res) auto

lemma create_role_foreign:
  "create_role x t name desc who e w = (rr, e', w') \<Longrightarrow> foreign_kept t w w'"
  by (erule transacts_foreign [OF create_role_transacts, rotated])
    (auto simp: role_op_tenant_def intro: accessed_foreign)

lemma grant_foreign:
  "same_tenant_role role t w \<Longrightarrow> grant_permission x role perm who e w = (ru, e', w') \<Longrightarrow> foreign_kept t w w'"
  by (erule transacts_foreign [OF grant_transacts, rotated]) (auto simp: role_op_tenant_def intro: accessed_foreign)

lemma revoke_foreign:
  "same_tenant_role role t w \<Longrightarrow> revoke_permission x role perm who e w = (ru, e', w') \<Longrightarrow> foreign_kept t w w'"
  by (erule transacts_foreign [OF revoke_transacts, rotated]) (auto simp: role_op_tenant_def intro: accessed_foreign)

lemma assign_foreign:
  assumes "harmless em" and "assign_role x em user t role by_user who e w = (ru, e', w')"
  shows "foreign_kept t w w'"
  by (rule transacts_foreign [OF assign_role_transacts _ assms(2)])
    (use emitted_same [OF assms(1)] in \<open>auto simp: role_op_tenant_def intro: accessed_foreign\<close>)

lemma unassign_foreign:
  assumes "harmless em" and "unassign_role x em user t role who e w = (ru, e', w')"
  shows "foreign_kept t w w'"
  by (rule transacts_foreign [OF unassign_role_transacts _ assms(2)])
    (use emitted_same [OF assms(1)] in \<open>auto simp: role_op_tenant_def intro: accessed_foreign\<close>)

lemma assign_group_foreign:
  "assign_role_to_group x grp t role by_user who e w = (ru, e', w') \<Longrightarrow> foreign_kept t w w'"
  by (erule transacts_foreign [OF assign_group_transacts, rotated])
    (auto simp: role_op_tenant_def intro: accessed_foreign)

lemma remove_group_foreign:
  "remove_role_from_group x grp t role who e w = (ru, e', w') \<Longrightarrow> foreign_kept t w w'"
  by (erule transacts_foreign [OF remove_group_transacts, rotated])
    (auto simp: role_op_tenant_def intro: accessed_foreign)

subsection \<open>The handlers\<close>

lemma reads_scoped_role: "reads (scoped_role pu r)"
  unfolding scoped_role_def role_tenant_def
  by (intro reads_bind) (auto split: option.splits)

lemma scoped_role_ok:
  assumes "scoped_role pu r e w = (Inr role, e', w')"
  shows "\<exists>t. require_tenant r = Inr t \<and> same_tenant_role role t w"
proof -
  from assms obtain t ro where "require_tenant r = Inr t" "find_role role (role_rows w) = Some ro" "ro_tenant ro = t"
    by (auto simp: scoped_role_def role_tenant_def io_ok split: option.splits if_splits)
  then show ?thesis
    by (auto simp: find_role_def find_Some_iff same_tenant_role_def role_key_def image_iff)
qed

definition kept_for :: "request \<Rightarrow> 'z rbac_db_scheme \<Rightarrow> 'z rbac_db_scheme \<Rightarrow> bool" where
  "kept_for r w w' \<longleftrightarrow> w' = w \<or> (\<exists>t. require_tenant r = Inr t \<and> foreign_kept t w w')"

lemma path_tenant_is: "require_path_tenant pu r = Inr t \<Longrightarrow> require_tenant r = Inr t"
  by (simp add: require_path_tenant_Inr_iff)

lemma kept_I: "require_tenant r = Inr t \<Longrightarrow> foreign_kept t w w' \<Longrightarrow> kept_for r w w'"
  by (auto simp: kept_for_def)

lemma kept_refl: "kept_for r w w"
  by (simp add: kept_for_def)

lemma create_role_handler_kept:
  assumes "create_role_handler x valid pu r body e w = (res, e', w')"
  shows "kept_for r w w'"
  using assms unfolding create_role_handler_def
  by (elim checked_tx_cases answer_state) (blast intro: kept_refl kept_I create_role_foreign path_tenant_is)+

lemma grant_handler_kept:
  assumes "grant_handler x pu r e w = (res, e', w')"
  shows "kept_for r w w'"
  using assms(1) [unfolded grant_handler_def] reads_scoped_role
proof (rule reads_step)
  fix role e1 assume s: "scoped_role pu r e w = (Inr role, e1, w)"
    and run: "bind_io (lift_res (uuid_param pu r ''permID'')) (\<lambda>perm.
     bind_io (grant_permission x role perm (rbac_actor_of r)) (\<lambda>_. ret (204, RbacNone))) e1 w = (res, e', w')"
  from scoped_role_ok [OF s] obtain t where t: "require_tenant r = Inr t" "same_tenant_role role t w" by blast
  from run show "kept_for r w w'"
    by (elim checked_tx_cases answer_state) (use t kept_refl kept_I grant_foreign in blast)+
qed (simp add: kept_refl)

lemma revoke_handler_kept:
  assumes "revoke_handler x pu r e w = (res, e', w')"
  shows "kept_for r w w'"
  using assms(1) [unfolded revoke_handler_def] reads_scoped_role
proof (rule reads_step)
  fix role e1 assume s: "scoped_role pu r e w = (Inr role, e1, w)"
    and run: "bind_io (lift_res (uuid_param pu r ''permID'')) (\<lambda>perm.
     bind_io (revoke_permission x role perm (rbac_actor_of r)) (\<lambda>_. ret (204, RbacNone))) e1 w = (res, e', w')"
  from scoped_role_ok [OF s] obtain t where t: "require_tenant r = Inr t" "same_tenant_role role t w" by blast
  from run show "kept_for r w w'"
    by (elim checked_tx_cases answer_state) (use t kept_refl kept_I revoke_foreign in blast)+
qed (simp add: kept_refl)

lemma assign_handler_kept:
  assumes "assign_handler x em pu r e w = (res, e', w')" and "harmless em"
  shows "kept_for r w w'"
  using assms(1) unfolding assign_handler_def Let_def
  by (elim checked_tx_cases answer_state)
    (blast intro: kept_refl kept_I assign_foreign [OF assms(2)] path_tenant_is)+

lemma unassign_handler_kept:
  assumes "unassign_handler x em pu r e w = (res, e', w')" and "harmless em"
  shows "kept_for r w w'"
  using assms(1) unfolding unassign_handler_def
  by (elim checked_tx_cases answer_state)
    (blast intro: kept_refl kept_I unassign_foreign [OF assms(2)] path_tenant_is)+

lemma assign_group_handler_kept:
  assumes "assign_group_handler x pu r e w = (res, e', w')"
  shows "kept_for r w w'"
  using assms(1) unfolding assign_group_handler_def Let_def
  by (elim checked_tx_cases answer_state) (blast intro: kept_refl kept_I assign_group_foreign path_tenant_is)+

lemma unassign_group_handler_kept:
  assumes "unassign_group_handler x pu r e w = (res, e', w')"
  shows "kept_for r w w'"
  using assms(1) unfolding unassign_group_handler_def
  by (elim checked_tx_cases answer_state) (blast intro: kept_refl kept_I remove_group_foreign path_tenant_is)+

text \<open>
  C39. The role handlers keep to the caller's tenant: whatever a handler that changes roles, grants,
  assignments or bindings answers, either nothing changed or the request has a tenant, and the roles of
  all other tenants, the permissions they confer, and the assignments and bindings in other tenants are
  as before, as are groups, members and the permission catalogue.
\<close>

theorem role_handlers_isolate_tenants:
  assumes "harmless em"
    and "create_role_handler x valid pu r body e w = (res, e', w') \<or> grant_handler x pu r e w = (res, e', w') \<or>
      revoke_handler x pu r e w = (res, e', w') \<or> assign_handler x em pu r e w = (res, e', w') \<or>
      unassign_handler x em pu r e w = (res, e', w') \<or> assign_group_handler x pu r e w = (res, e', w') \<or>
      unassign_group_handler x pu r e w = (res, e', w')"
  shows "w' = w \<or> (\<exists>t. require_tenant r = Inr t \<and> foreign_kept t w w')"
  using assms(2) unfolding kept_for_def [symmetric]
  by (elim disjE) (fact create_role_handler_kept grant_handler_kept revoke_handler_kept
      assign_handler_kept [OF _ assms(1)] unassign_handler_kept [OF _ assms(1)]
      assign_group_handler_kept unassign_group_handler_kept)+

theorem role_handlers_isolate_tenants_witness:
  "let w' = snd (snd (revoke_handler demo_rbac_ext demo_uuid
     (demo_request 1 [(''roleID'', ''31''), (''permID'', ''21'')] []) demo_env demo_rbac)) in
   w' = demo_rbac \<or> (\<exists>t. require_tenant (demo_request 1 [(''roleID'', ''31''), (''permID'', ''21'')] []) = Inr t \<and>
     foreign_kept t demo_rbac w')"
proof -
  let ?r = "demo_request 1 [(''roleID'', ''31''), (''permID'', ''21'')] []"
  obtain res e' w' where run: "revoke_handler demo_rbac_ext demo_uuid ?r demo_env demo_rbac = (res, e', w')"
    by (metis prod_cases3)
  from role_handlers_isolate_tenants [OF harmless_None disjI2 [OF disjI2 [OF disjI1 [OF run]]]] run
  show ?thesis by (simp add: Let_def)
qed

section \<open>The reach of a deletion\<close>

text \<open>
  C40. Deleting a group deletes its descendants of every tenant: the caller must own the group, but the
  groups, members and bindings that remain are those of groups that do not descend from it by the
  parent key, which the code does not keep within a tenant.
\<close>

theorem group_deletion_reaches_descendants:
  assumes "delete_group x i tenant who e w = (Inr (), e', w')"
  shows "(\<exists>g \<in> set (group_rows w). gp_id g = i \<and> gp_tenant g = tenant) \<and>
     group_rows w' = filter (\<lambda>g. (i, gp_id g) \<notin> (subgroup_of w)\<^sup>*) (group_rows w) \<and>
     member_rows w' = filter (\<lambda>m. (i, gm_group m) \<notin> (subgroup_of w)\<^sup>*) (member_rows w) \<and>
     group_role_rows w' = filter (\<lambda>q. (i, gr_group q) \<notin> (subgroup_of w)\<^sup>*) (group_role_rows w)"
proof -
  note d = delete_group_run [OF assms]
  from d(1) find_group_Some have "\<exists>g \<in> set (group_rows w). gp_id g = i \<and> gp_tenant g = tenant" by blast
  then show ?thesis by (simp add: d(2-4) cascade_fields)
qed

text \<open>A group of tenant 2 below one of tenant 1 is accepted, and goes when tenant 1 deletes its own.\<close>

theorem group_deletion_reaches_descendants_witness:
  "\<exists>g e1 w1 e2 w2. insert_group_row 2 \<lparr>gi_parent = Some 41, gi_name = ''mine'', gi_description = []\<rparr>
       demo_env demo_rbac = (Inr g, e1, w1) \<and> gp_tenant g = 2 \<and> g \<in> set (group_rows w1) \<and>
     delete_group demo_group_ext 41 1 demo_actor demo_env w1 = (Inr (), e2, w2) \<and> g \<notin> set (group_rows w2)"
proof -
  let ?inp = "\<lparr>gi_parent = Some 41, gi_name = ''mine'', gi_description = []\<rparr>"
  obtain g e1 w1 where c: "insert_group_row 2 ?inp demo_env demo_rbac = (Inr g, e1, w1)"
    by (auto simp: insert_group_row_def insert_group_def bind_io_def uuid_new_def time_now_def db_call_def Let_def
        quiet_env_def demo_rbac_def parent_exists_def)
  note ok = insert_group_row_ok [OF c]
  have in1: "g \<in> set (group_rows w1)" and l: "audit_rows w1 = []" "outbox_rows w1 = []" and
    f: "find_group 41 1 (group_rows w1) = Some (group_rows demo_rbac ! 0)"
    using ok(1) by (simp_all add: demo_rbac_def find_group_def)
  from delete_group_live [OF f l] obtain e2 w2 where
    run: "delete_group demo_group_ext 41 1 demo_actor demo_env w1 = (Inr (), e2, w2)" by blast
  have "(41, gp_id g) \<in> subgroup_of w1" using in1 ok(6) by (auto simp: subgroup_of_def)
  then have "g \<notin> set (group_rows w2)"
    using group_deletion_reaches_descendants [OF run] by auto
  with c ok(3) in1 run show ?thesis by blast
qed

end
