(* ===== verification/Authzen.thy ===== *)
theory Authzen imports RebacProps RbacProps begin

text \<open>
  The AuthZEN decision point, \<^verbatim>\<open>internal/access/authorization/authzen/authzen.go\<close>: a facade that routes
  a request to one of two engines and forwards its answer. What it needs of an engine is a locale,
  interpreted on the RBAC repository and on the ReBAC service.
\<close>

section \<open>The facade\<close>

record evaluation_request =
  aq_subject_type :: string
  aq_subject_id :: string
  aq_resource_type :: string
  aq_resource_id :: string
  aq_action :: string
  aq_context :: "(string \<times> json) list"

datatype authzen_trace = NoTrace | GrantPaths "grant_step list" | TuplePath "explain_step list"

record evaluation_response =
  ap_decision :: bool
  ap_context :: authzen_trace

record 'w authzen_engines =
  ae_rbac_check :: "uuid \<Rightarrow> uuid \<Rightarrow> string \<Rightarrow> ('w, bool) io"
  ae_rbac_explain :: "uuid \<Rightarrow> uuid \<Rightarrow> string \<Rightarrow> ('w, grant_explanation) io"
  ae_rebac_check :: "uuid \<Rightarrow> string \<Rightarrow> string \<Rightarrow> string \<Rightarrow> ('w, bool) io"
  ae_rebac_explain :: "uuid \<Rightarrow> string \<Rightarrow> string \<Rightarrow> string \<Rightarrow> ('w, explanation) io"

definition wants_explanation :: "evaluation_request \<Rightarrow> bool" where
  "wants_explanation q = (alookup ''explain'' (aq_context q) = Some (JBool True))"

definition authzen_evaluate ::
  "(string \<Rightarrow> uuid option) \<Rightarrow> 'w authzen_engines \<Rightarrow> uuid \<Rightarrow> evaluation_request \<Rightarrow> ('w, evaluation_response) io" where
  "authzen_evaluate pu s tenant q =
     (if aq_subject_id q = [] then fail (ApiErr (with_detail ErrUnprocessable ''subject.id is required''))
      else if aq_action q = [] then fail (ApiErr (with_detail ErrUnprocessable ''action.name is required''))
      else if aq_resource_type q = ''permission'' then
        (case pu (aq_subject_id q) of
           None \<Rightarrow> fail (ApiErr (with_detail ErrUnprocessable ''subject.id must be a UUID''))
         | Some user \<Rightarrow>
             if wants_explanation q then
               bind_io (ae_rbac_explain s user tenant (aq_action q)) (\<lambda>x.
                 ret \<lparr>ap_decision = ge_allowed x, ap_context = GrantPaths (ge_paths x)\<rparr>)
             else
               bind_io (ae_rbac_check s user tenant (aq_action q)) (\<lambda>b.
                 ret \<lparr>ap_decision = b, ap_context = NoTrace\<rparr>))
      else if aq_resource_type q = [] \<or> aq_resource_id q = [] then
        fail (ApiErr (with_detail ErrUnprocessable
          (''resource.type and resource.id are required (use resource.type='' @ [CHR 0x22] @ ''permission'' @
           [CHR 0x22] @ '' with resource.id omitted for an RBAC check)'')))
      else
        (let object = aq_resource_type q @ '':'' @ aq_resource_id q in
         if wants_explanation q then
           bind_io (ae_rebac_explain s tenant object (aq_action q) (aq_subject_id q)) (\<lambda>x.
             ret \<lparr>ap_decision = ex_allowed x, ap_context = TuplePath (ex_path x)\<rparr>)
         else
           bind_io (ae_rebac_check s tenant object (aq_action q) (aq_subject_id q)) (\<lambda>b.
             ret \<lparr>ap_decision = b, ap_context = NoTrace\<rparr>)))"

definition authzen_handler ::
  "(string \<Rightarrow> uuid option) \<Rightarrow> 'w authzen_engines \<Rightarrow> request \<Rightarrow> go_error + evaluation_request \<Rightarrow>
   ('w, nat \<times> evaluation_response) io" where
  "authzen_handler pu s r body =
     bind_io (lift_res (require_path_tenant pu r)) (\<lambda>tenant.
     bind_io (lift_res body) (\<lambda>q.
     bind_io (authzen_evaluate pu s tenant q) (\<lambda>out. ret (200, out))))"

text \<open>The engines the server wires in.\<close>

definition server_engines ::
  "rbac_ext \<Rightarrow> (rel_row list \<Rightarrow> rel_row list) \<Rightarrow> ('z rbac_db_scheme) authzen_engines" where
  "server_engines x scan = \<lparr>ae_rbac_check = rbac_check, ae_rbac_explain = explain x,
     ae_rebac_check = rebac_check scan, ae_rebac_explain = check_explain scan\<rparr>"

section \<open>What an engine promises\<close>

text \<open>
  Both questions of an engine answer one relation on the stored state, where the state is well-formed
  for the question, and change nothing; and without faults they answer.
\<close>

locale decision_engine =
  fixes ask :: "('w, bool) io"
    and ask_why :: "('w, 'x) io"
    and allowed :: "'x \<Rightarrow> bool"
    and sound :: "'w \<Rightarrow> bool"
    and related :: "'w \<Rightarrow> bool"
  assumes ask_decides: "sound w \<Longrightarrow> ask e w = (Inr b, e', w') \<Longrightarrow> w' = w \<and> b = related w"
    and why_decides: "sound w \<Longrightarrow> ask_why e w = (Inr x, e', w') \<Longrightarrow> w' = w \<and> allowed x = related w"
    and ask_live: "sound w \<Longrightarrow> no_faults e \<Longrightarrow> \<exists>b e' w'. ask e w = (Inr b, e', w')"
    and why_live: "sound w \<Longrightarrow> no_faults e \<Longrightarrow> \<exists>x e' w'. ask_why e w = (Inr x, e', w')"
begin

lemma forwards_ask:
  assumes "sound w" and "no_faults e"
  shows "\<exists>e'. bind_io ask (\<lambda>b. ret (f b)) e w = (Inr (f (related w)), e', w)"
proof -
  from ask_live [OF assms] obtain b e' w' where "ask e w = (Inr b, e', w')" by blast
  with ask_decides [OF assms(1) this] show ?thesis by (simp add: bind_io_def ret_def)
qed

lemma forwards_why:
  assumes "sound w" and "no_faults e"
  shows "\<exists>x e'. bind_io ask_why (\<lambda>x. ret (f x)) e w = (Inr (f x), e', w) \<and> allowed x = related w"
proof -
  from why_live [OF assms] obtain x e' w' where "ask_why e w = (Inr x, e', w')" by blast
  with why_decides [OF assms(1) this] show ?thesis by (simp add: bind_io_def ret_def) blast
qed

end

section \<open>The two engines\<close>

lemma explain_live: "live (explain x user tenant key)"
  by (simp add: live_def explain_def on_error_def db_read_def db_call_def Let_def no_faults_def bind_io_def ret_def)

interpretation rbac_engine: decision_engine "rbac_check user tenant key" "explain x user tenant key" ge_allowed
    access_ok "check_permission user tenant key"
proof unfold_locales
  fix e w b e' w'
  assume "rbac_check user tenant key e w = (Inr b, e', w')"
  then show "w' = w \<and> b = check_permission user tenant key w" by (rule rbac_check_answers)
next
  fix e w y e' w'
  assume "access_ok w" and run: "explain x user tenant key e w = (Inr y, e', w')"
  from explain_run [OF run] explain_complete [OF this(1), of x user tenant key]
  show "w' = w \<and> ge_allowed y = check_permission user tenant key w" by blast
qed (rule liveD [OF live_rbac_check], assumption, rule liveD [OF explain_live], assumption)

text \<open>
  The questions the ReBAC engine answers by its meaning: the object parses, the relation has no hash
  sign, the rows come in some order, and the tuples the question reaches are within the depth bound.
\<close>

definition rebac_askable ::
  "(rel_row list \<Rightarrow> rel_row list) \<Rightarrow> uuid \<Rightarrow> string \<Rightarrow> string \<Rightarrow> 'z rebac_db_scheme \<Rightarrow> bool" where
  "rebac_askable scan tenant object relation w \<longleftrightarrow> (\<forall>rows. set (scan rows) = set rows) \<and>
     CHR ''#'' \<notin> set relation \<and> tuples_ok (rel_rows w) \<and> (\<exists>ob. parse_object object = Some ob \<and>
     card (reachable (tenant_view tenant w) (or_type ob, or_id ob, relation)) \<le> Suc max_depth)"

definition rebac_related :: "uuid \<Rightarrow> string \<Rightarrow> string \<Rightarrow> string \<Rightarrow> 'z rebac_db_scheme \<Rightarrow> bool" where
  "rebac_related tenant object relation user w = (case parse_object object of None \<Rightarrow> False
     | Some ob \<Rightarrow> holds (tenant_view tenant w) user (or_type ob) (or_id ob) relation)"

lemma check_explain_is_check:
  "check_explain scan tenant object relation user e w = (Inr x, e', w') \<Longrightarrow>
   rebac_check scan tenant object relation user e w = (Inr (ex_allowed x), e', w')"
  by (auto simp: check_explain_def rebac_check_def bind_ok ret_ok fail_ok split: option.splits prod.splits)

lemma rebac_engine_live:
  assumes "parse_object object = Some ob"
  shows "live (rebac_check scan tenant object relation user)" "live (check_explain scan tenant object relation user)"
  unfolding rebac_check_def check_explain_def assms option.case
  by (rule live_bind, rule live_resolve(1), auto split: prod.splits)+

lemma rebac_engine_decides:
  assumes s: "rebac_askable scan tenant object relation w"
    and run: "rebac_check scan tenant object relation user e w = (Inr b, e', w')"
  shows "w' = w \<and> b = rebac_related tenant object relation user w"
proof -
  from s obtain ob where ob: "parse_object object = Some ob"
    and c: "card (reachable (tenant_view tenant w) (or_type ob, or_id ob, relation)) \<le> Suc max_depth"
    and sc: "set (scan rows) = set rows" and t: "tuples_ok (rel_rows w)" and h: "CHR ''#'' \<notin> set relation" for rows
    by (auto simp: rebac_askable_def)
  from rebac_check_meaning [OF sc t ob h c run] ob show ?thesis by (simp add: rebac_related_def)
qed

interpretation rebac_engine: decision_engine "rebac_check scan tenant object relation user"
    "check_explain scan tenant object relation user" ex_allowed "rebac_askable scan tenant object relation"
    "rebac_related tenant object relation user"
proof unfold_locales
  fix e w b e' w'
  assume "rebac_askable scan tenant object relation w"
    and "rebac_check scan tenant object relation user e w = (Inr b, e', w')"
  then show "w' = w \<and> b = rebac_related tenant object relation user w" by (rule rebac_engine_decides)
next
  fix e w x e' w'
  assume s: "rebac_askable scan tenant object relation w"
    and run: "check_explain scan tenant object relation user e w = (Inr x, e', w')"
  from rebac_engine_decides [OF s check_explain_is_check [OF run]]
  show "w' = w \<and> ex_allowed x = rebac_related tenant object relation user w" .
next
  fix w e
  assume s: "rebac_askable scan tenant object relation w" and n: "no_faults e"
  then obtain ob where ob: "parse_object object = Some ob" by (auto simp: rebac_askable_def)
  from liveD [OF rebac_engine_live(1) [OF ob] n]
  show "\<exists>b e' w'. rebac_check scan tenant object relation user e w = (Inr b, e', w')" .
  from liveD [OF rebac_engine_live(2) [OF ob] n]
  show "\<exists>x e' w'. check_explain scan tenant object relation user e w = (Inr x, e', w')" .
qed

section \<open>What the decision point answers\<close>

definition authzen_object :: "evaluation_request \<Rightarrow> string" where
  "authzen_object q = aq_resource_type q @ '':'' @ aq_resource_id q"

text \<open>The requests it refuses, and what the others are answered by.\<close>

definition authzen_malformed :: "(string \<Rightarrow> uuid option) \<Rightarrow> evaluation_request \<Rightarrow> bool" where
  "authzen_malformed pu q \<longleftrightarrow> aq_subject_id q = [] \<or> aq_action q = [] \<or>
     (if aq_resource_type q = ''permission'' then pu (aq_subject_id q) = None
      else aq_resource_type q = [] \<or> aq_resource_id q = [] \<or> parse_object (authzen_object q) = None)"

definition authzen_ready ::
  "(rel_row list \<Rightarrow> rel_row list) \<Rightarrow> uuid \<Rightarrow> evaluation_request \<Rightarrow> 'z rbac_db_scheme \<Rightarrow> bool" where
  "authzen_ready scan tenant q w \<longleftrightarrow>
     (if aq_resource_type q = ''permission'' then access_ok w
      else rebac_askable scan tenant (authzen_object q) (aq_action q) w)"

definition authzen_truth ::
  "(string \<Rightarrow> uuid option) \<Rightarrow> uuid \<Rightarrow> evaluation_request \<Rightarrow> 'z rbac_db_scheme \<Rightarrow> bool" where
  "authzen_truth pu tenant q w =
     (if aq_resource_type q = ''permission'' then
        (case pu (aq_subject_id q) of None \<Rightarrow> False | Some user \<Rightarrow> check_permission user tenant (aq_action q) w)
      else rebac_related tenant (authzen_object q) (aq_action q) (aq_subject_id q) w)"

lemma authzen_refuses:
  assumes "authzen_malformed pu q"
  shows "\<exists>err. authzen_evaluate pu (server_engines x scan) tenant q e w = (Inl err, e, w) \<and> error_status err = 422"
  using assms
  by (auto simp: authzen_malformed_def authzen_evaluate_def Let_def fail_def server_engines_def authzen_object_def
      bind_io_def rebac_check_def check_explain_def bad_object_def split: option.splits)

lemma authzen_answers_permission:
  assumes "no_faults e" and "access_ok w" and "\<not> authzen_malformed pu q" and "aq_resource_type q = ''permission''"
  shows "\<exists>out e'. authzen_evaluate pu (server_engines x scan) tenant q e w = (Inr out, e', w) \<and>
     ap_decision out = authzen_truth pu tenant q w"
proof -
  from assms(3,4) obtain user where u: "pu (aq_subject_id q) = Some user"
    and n: "aq_subject_id q \<noteq> []" "aq_action q \<noteq> []"
    by (auto simp: authzen_malformed_def)
  show ?thesis
  proof (cases "wants_explanation q")
    case True
    from rbac_engine.forwards_why [OF assms(2,1), of x user tenant "aq_action q"
        "\<lambda>y. \<lparr>ap_decision = ge_allowed y, ap_context = GrantPaths (ge_paths y)\<rparr>"] True u n assms(4)
    show ?thesis by (auto simp: authzen_evaluate_def authzen_truth_def server_engines_def)
  next
    case False
    from rbac_engine.forwards_ask [OF assms(2,1), of user tenant "aq_action q"
        "\<lambda>b. \<lparr>ap_decision = b, ap_context = NoTrace\<rparr>"] False u n assms(4)
    show ?thesis by (auto simp: authzen_evaluate_def authzen_truth_def server_engines_def)
  qed
qed

lemma authzen_answers_relation:
  assumes "no_faults e" and s: "rebac_askable scan tenant (authzen_object q) (aq_action q) w"
    and "\<not> authzen_malformed pu q" and "aq_resource_type q \<noteq> ''permission''"
  shows "\<exists>out e'. authzen_evaluate pu (server_engines x scan) tenant q e w = (Inr out, e', w) \<and>
     ap_decision out = authzen_truth pu tenant q w"
proof -
  have n: "aq_subject_id q \<noteq> []" "aq_action q \<noteq> []" "aq_resource_type q \<noteq> []" "aq_resource_id q \<noteq> []"
    using assms(3,4) by (auto simp: authzen_malformed_def)
  show ?thesis
  proof (cases "wants_explanation q")
    case True
    from rebac_engine.forwards_why [OF s assms(1), of "aq_subject_id q"
        "\<lambda>y. \<lparr>ap_decision = ex_allowed y, ap_context = TuplePath (ex_path y)\<rparr>"] True n assms(4)
    show ?thesis by (auto simp: authzen_evaluate_def authzen_truth_def server_engines_def authzen_object_def Let_def)
  next
    case False
    from rebac_engine.forwards_ask [OF s assms(1), of "aq_subject_id q"
        "\<lambda>b. \<lparr>ap_decision = b, ap_context = NoTrace\<rparr>"] False n assms(4)
    show ?thesis by (auto simp: authzen_evaluate_def authzen_truth_def server_engines_def authzen_object_def Let_def)
  qed
qed

text \<open>C31. The AuthZEN decision point is a faithful facade: a request that lacks its subject, its action or its
  resource, names a user that is no UUID or an object that does not parse is refused with 422 whatever is
  stored, and every other request, explained or not, is answered without faults by the truth of the engine it
  is routed to (the RBAC decision for the resource type \<^verbatim>\<open>permission\<close>, the derivable ReBAC relation
  otherwise) on a well-formed state, and changes nothing.\<close>

theorem authzen_answers:
  assumes "no_faults e" and "authzen_ready scan tenant q w"
  shows "if authzen_malformed pu q
     then \<exists>err. authzen_evaluate pu (server_engines x scan) tenant q e w = (Inl err, e, w) \<and> error_status err = 422
     else \<exists>out e'. authzen_evaluate pu (server_engines x scan) tenant q e w = (Inr out, e', w) \<and>
       ap_decision out = authzen_truth pu tenant q w"
  using authzen_refuses authzen_answers_permission [OF assms(1)] authzen_answers_relation [OF assms(1)] assms(2)
  unfolding authzen_ready_def by (cases "aq_resource_type q = ''permission''") auto

text \<open>Bob, a member of the group that may view the document, and the role holder 3, asked in one state.\<close>

definition demo_authzen :: rbac_db where
  "demo_authzen = demo_rbac\<lparr>rel_rows := demo_group\<rparr>"

definition demo_question :: "string \<Rightarrow> string \<Rightarrow> string \<Rightarrow> string \<Rightarrow> evaluation_request" where
  "demo_question sid ty rid act = \<lparr>aq_subject_type = ''user'', aq_subject_id = sid, aq_resource_type = ty,
     aq_resource_id = rid, aq_action = act, aq_context = []\<rparr>"

lemma demo_relation_reach:
  "card (reachable (tenant_view 1 demo_authzen) (''doc'', ''x'', ''view'')) \<le> Suc max_depth"
proof -
  have "reachable (tenant_view 1 demo_authzen) (''doc'', ''x'', ''view'') \<subseteq>
      {(''doc'', ''x'', ''view''), (''group'', ''eng'', ''member'')}"
  proof
    fix k assume "k \<in> reachable (tenant_view 1 demo_authzen) (''doc'', ''x'', ''view'')"
    then show "k \<in> {(''doc'', ''x'', ''view''), (''group'', ''eng'', ''member'')}"
      by (induction rule: reachable.induct)
        (auto simp: subjects_of_def tenant_view_def fetch_subjects_def demo_authzen_def demo_group_def demo_tuple_def)
  qed
  from card_mono [OF _ this] show ?thesis by (simp add: max_depth_def)
qed

lemma demo_ready:
  "authzen_ready rev 1 (demo_question ''bob'' ''doc'' ''x'' ''view'') demo_authzen"
  "authzen_ready rev 1 (demo_question ''3'' ''permission'' [] ''role.read'') demo_authzen"
proof -
  have "tuples_ok (rel_rows demo_authzen)" using demo_group_ok by (simp add: demo_authzen_def demo_rebac_def)
  moreover have "parse_object (authzen_object (demo_question ''bob'' ''doc'' ''x'' ''view'')) =
      Some \<lparr>or_type = ''doc'', or_id = ''x''\<rparr>"
    using demo_object by (simp add: authzen_object_def demo_question_def)
  ultimately show "authzen_ready rev 1 (demo_question ''bob'' ''doc'' ''x'' ''view'') demo_authzen"
    using demo_relation_reach by (simp add: authzen_ready_def rebac_askable_def demo_question_def)
  have "access_ok demo_authzen" using demo_access_ok 
    by (simp add: demo_authzen_def access_ok_def keys_ok_def refs_ok_def same_tenant_group_def same_tenant_role_def)
  then show "authzen_ready rev 1 (demo_question ''3'' ''permission'' [] ''role.read'') demo_authzen"
    by (simp add: authzen_ready_def demo_question_def)
qed

lemma demo_truth:
  "authzen_truth demo_uuid 1 (demo_question ''bob'' ''doc'' ''x'' ''view'') demo_authzen"
  "authzen_truth demo_uuid 1 (demo_question ''3'' ''permission'' [] ''role.read'') demo_authzen"
proof -
  have "holds (tenant_view 1 demo_authzen) ''bob'' ''group'' ''eng'' ''member''"
    by (rule holds.intros(1)) (simp add: user_subject_def tenant_view_def fetch_subjects_def demo_authzen_def demo_group_def demo_tuple_def)
  with holds.intros(2) [of "\<lparr>su_type = ''group'', su_id = ''eng'', su_relation = ''member''\<rparr>"
      "tenant_view 1 demo_authzen" "''doc''" "''x''" "''view''" "''bob''"]
  have "holds (tenant_view 1 demo_authzen) ''bob'' ''doc'' ''x'' ''view''"
    by (simp add: tenant_view_def fetch_subjects_def demo_authzen_def demo_group_def demo_tuple_def)
  then show "authzen_truth demo_uuid 1 (demo_question ''bob'' ''doc'' ''x'' ''view'') demo_authzen"
    using demo_object by (simp add: authzen_truth_def rebac_related_def authzen_object_def demo_question_def)
  show "authzen_truth demo_uuid 1 (demo_question ''3'' ''permission'' [] ''role.read'') demo_authzen"
    by code_simp
qed

theorem authzen_answers_witness:
  "(\<exists>out e'. authzen_evaluate demo_uuid (server_engines demo_rbac_ext rev) 1 (demo_question ''bob'' ''doc'' ''x'' ''view'')
      demo_env demo_authzen = (Inr out, e', demo_authzen) \<and> ap_decision out) \<and>
   (\<exists>out e'. authzen_evaluate demo_uuid (server_engines demo_rbac_ext rev) 1 (demo_question ''3'' ''permission'' [] ''role.read'')
      demo_env demo_authzen = (Inr out, e', demo_authzen) \<and> ap_decision out)"
proof -
  have "\<not> authzen_malformed demo_uuid (demo_question ''bob'' ''doc'' ''x'' ''view'')"
    "\<not> authzen_malformed demo_uuid (demo_question ''3'' ''permission'' [] ''role.read'')"
    using demo_object by (simp_all add: authzen_malformed_def authzen_object_def demo_question_def demo_uuid_def
        atoi_def is_digit_def digits_value_def)
  with authzen_answers [OF no_faults_quiet demo_ready(1), of demo_uuid demo_rbac_ext]
    authzen_answers [OF no_faults_quiet demo_ready(2), of demo_uuid demo_rbac_ext] demo_truth
  show ?thesis by simp
qed

end
