(* ===== verification/Base64.thy ===== *)
theory Base64 imports Prelude begin

text \<open>
  The unpadded encodings of Go's \<^verbatim>\<open>encoding/base64\<close> the code uses: \<^verbatim>\<open>RawStdEncoding\<close> for the salt
  and the key of a password hash, \<^verbatim>\<open>RawURLEncoding\<close> for tokens. Decoding skips carriage returns and
  line feeds, refuses every other character outside the alphabet, and does not look at the bits that
  are left over in the last character.
\<close>

definition b64_std :: string where
  "b64_std = ''ABCDEFGHIJKLMNOPQRSTUVWXYZabcdefghijklmnopqrstuvwxyz0123456789+/''"

definition b64_url :: string where
  "b64_url = ''ABCDEFGHIJKLMNOPQRSTUVWXYZabcdefghijklmnopqrstuvwxyz0123456789-_''"

text \<open>The digits of the bytes, six bits each, and back.\<close>

fun b64_digits :: "nat list \<Rightarrow> nat list" where
  "b64_digits [] = []"
| "b64_digits [a] = [a div 4, a mod 4 * 16]"
| "b64_digits [a, b] = [a div 4, a mod 4 * 16 + b div 16, b mod 16 * 4]"
| "b64_digits (a # b # c # bs) =
     a div 4 # (a mod 4 * 16 + b div 16) # (b mod 16 * 4 + c div 64) # c mod 64 # b64_digits bs"

fun b64_bytes :: "nat list \<Rightarrow> nat list option" where
  "b64_bytes [] = Some []"
| "b64_bytes [p] = None"
| "b64_bytes [p, q] = Some [p * 4 + q div 16]"
| "b64_bytes [p, q, r] = Some [p * 4 + q div 16, q mod 16 * 16 + r div 4]"
| "b64_bytes (p # q # r # s # ds) =
     map_option ((@) [p * 4 + q div 16, q mod 16 * 16 + r div 4, r mod 4 * 64 + s]) (b64_bytes ds)"

definition b64_encode :: "string \<Rightarrow> string \<Rightarrow> string" where
  "b64_encode alphabet s = map ((!) alphabet) (b64_digits (map of_char s))"

definition b64_digit :: "string \<Rightarrow> char \<Rightarrow> nat option" where
  "b64_digit alphabet c = first_index ((=) c) alphabet"

definition b64_decode :: "string \<Rightarrow> string \<Rightarrow> string option" where
  "b64_decode alphabet s =
     (case those (map (b64_digit alphabet) (filter (\<lambda>c. c \<notin> {CHR 0x0D, CHR 0x0A}) s)) of
        None \<Rightarrow> None
      | Some ds \<Rightarrow> map_option (map char_of) (b64_bytes ds))"

section \<open>Round trip\<close>

lemma b64_digits_bound: "\<forall>b \<in> set bs. b < 256 \<Longrightarrow> d \<in> set (b64_digits bs) \<Longrightarrow> d < 64"
proof (induction bs rule: b64_digits.induct)
  case (2 a)
  then have "a div 4 < 64" "a mod 4 < 4" by auto
  with 2 show ?case by auto
next
  case (3 a b)
  then have "a div 4 < 64" "a mod 4 < 4" "b div 16 < 16" "b mod 16 < 16" by auto
  with 3 show ?case by auto
next
  case (4 a b c bs)
  then have "a div 4 < 64" "a mod 4 < 4" "b div 16 < 16" "b mod 16 < 16" "c div 64 < 4" "c mod 64 < 64" by auto
  with 4 show ?case by auto
qed simp

lemma b64_bytes_digits: "\<forall>b \<in> set bs. b < 256 \<Longrightarrow> b64_bytes (b64_digits bs) = Some bs"
  by (induction bs rule: b64_digits.induct) auto

lemma length_b64_digits: "length (b64_digits bs) = (4 * length bs + 2) div 3"
  by (induction bs rule: b64_digits.induct) auto

lemma length_b64_encode [simp]: "length (b64_encode alphabet s) = (4 * length s + 2) div 3"
  by (simp add: b64_encode_def length_b64_digits)

definition b64_alphabet :: "string \<Rightarrow> bool" where
  "b64_alphabet alphabet \<longleftrightarrow> length alphabet = 64 \<and> distinct alphabet \<and>
     CHR 0x0D \<notin> set alphabet \<and> CHR 0x0A \<notin> set alphabet"

lemma b64_alphabets [simp]: "b64_alphabet b64_std" "b64_alphabet b64_url"
  by (simp_all add: b64_alphabet_def b64_std_def b64_url_def)

lemma b64_digit_nth:
  assumes "b64_alphabet alphabet" and "d < 64"
  shows "b64_digit alphabet (alphabet ! d) = Some d"
  using assms by (auto simp: b64_digit_def first_index_Some b64_alphabet_def nth_eq_iff_index_eq)

lemma those_map_Some: "\<forall>x \<in> set xs. f x = Some (g x) \<Longrightarrow> those (map f xs) = Some (map g xs)"
  by (induction xs) auto

lemma b64_encode_mem:
  assumes "b64_alphabet alphabet" and "c \<in> set (b64_encode alphabet s)"
  shows "c \<in> set alphabet"
proof -
  from assms(2) obtain d where "d \<in> set (b64_digits (map of_char s))" "c = alphabet ! d"
    by (auto simp: b64_encode_def)
  with b64_digits_bound [of "map of_char s" d] assms(1) show ?thesis by (auto simp: b64_alphabet_def)
qed

lemma b64_decode_encode:
  assumes "b64_alphabet alphabet"
  shows "b64_decode alphabet (b64_encode alphabet s) = Some s"
proof -
  let ?ds = "b64_digits (map of_char s)"
  have b: "\<forall>d \<in> set ?ds. d < 64" using b64_digits_bound [of "map of_char s"] by auto
  have "filter (\<lambda>c. c \<notin> {CHR 0x0D, CHR 0x0A}) (b64_encode alphabet s) = b64_encode alphabet s"
    using b64_encode_mem [OF assms, of _ s] assms by (auto simp: b64_alphabet_def intro!: filter_True)
  moreover have "those (map (b64_digit alphabet) (b64_encode alphabet s)) = Some ?ds"
    using b those_map_Some [of ?ds "\<lambda>d. b64_digit alphabet (alphabet ! d)" "\<lambda>d. d"] b64_digit_nth [OF assms]
    by (simp add: b64_encode_def comp_def)
  moreover have "b64_bytes ?ds = Some (map of_char s)" by (rule b64_bytes_digits) auto
  ultimately show ?thesis by (simp add: b64_decode_def comp_def)
qed

lemma b64_encode_inject:
  "b64_alphabet alphabet \<Longrightarrow> b64_encode alphabet s = b64_encode alphabet t \<longleftrightarrow> s = t"
  by (metis b64_decode_encode option.inject)

end
