(* ===== verification/Passwords.thy ===== *)
theory Passwords imports Httpx Base64 GoTime "HOL-Library.Word" begin

text \<open>
  Password hashes and the offline strength check, \<^verbatim>\<open>internal/platform/crypto/encryption\<close> (files
  \<^verbatim>\<open>hasher.go\<close> and \<^verbatim>\<open>strength.go\<close>). The key derivation \<^verbatim>\<open>argon2.IDKey\<close>, the comparison of
  \<^verbatim>\<open>bcrypt\<close> and the letters outside ASCII that \<^verbatim>\<open>strings.ToLower\<close> knows are parameters; the format of
  a hash is parsed as \<^verbatim>\<open>fmt.Sscanf\<close> does it, at the widths of the Go variables.
\<close>

record crypto_ext =
  cx_idkey :: "string \<Rightarrow> string \<Rightarrow> 32 word \<Rightarrow> 32 word \<Rightarrow> 8 word \<Rightarrow> 32 word \<Rightarrow> string"
  cx_bcrypt :: "string \<Rightarrow> string \<Rightarrow> bool"
  cx_rand :: "nat \<Rightarrow> nat \<Rightarrow> string option" \<comment> \<open>so many bytes of \<^verbatim>\<open>crypto/rand\<close>, at a draw\<close>
  cx_sha256 :: "string \<Rightarrow> string"
  cx_lower :: "string \<Rightarrow> string"

text \<open>\<^verbatim>\<open>strings.ToLower\<close>: the table is only consulted for a string with a byte outside ASCII.\<close>

definition to_lower :: "crypto_ext \<Rightarrow> string \<Rightarrow> string" where
  "to_lower x s = (if \<forall>c \<in> set s. of_char c < (128::nat) then ascii_lower s else cx_lower x s)"

text \<open>A draw of randomness: the draws are numbered by the generator of the environment.\<close>

definition rand_read :: "crypto_ext \<Rightarrow> nat \<Rightarrow> ('w, string) io" where
  "rand_read x n = bind_io uuid_new (\<lambda>k.
     (case cx_rand x n k of None \<Rightarrow> fail (PlainErr ''rand'') | Some b \<Rightarrow> ret b))"

section \<open>Scanning numbers\<close>

definition skip_spaces :: "string \<Rightarrow> string option" where
  "skip_spaces s =
     (let t = strip_left (filter (\<lambda>r. r \<noteq> [CHR 0x0A]) space_runes) s in
      if prefix [CHR 0x0A] t then None else Some t)"

definition scan_digits :: "string \<Rightarrow> (nat \<times> string) option" where
  "scan_digits s =
     (let d = takeWhile is_digit s in
      if d = [] then None else Some (digits_value d, dropWhile is_digit s))"

text \<open>\<^verbatim>\<open>%d\<close> into an unsigned variable of \<open>bits\<close> bits, and into an \<^verbatim>\<open>int\<close>.\<close>

definition scan_uint :: "nat \<Rightarrow> string \<Rightarrow> (nat \<times> string) option" where
  "scan_uint bits s =
     Option.bind (skip_spaces s) (\<lambda>t. Option.bind (scan_digits t) (\<lambda>(n, u).
       if n < 2 ^ bits then Some (n, u) else None))"

definition scan_int :: "string \<Rightarrow> (int \<times> string) option" where
  "scan_int s =
     Option.bind (skip_spaces s) (\<lambda>t.
       (let neg = prefix ''-'' t; u = (if prefix ''-'' t \<or> prefix ''+'' t then drop 1 t else t) in
        Option.bind (scan_digits u) (\<lambda>(n, v).
          let i = (if neg then - int n else int n) in
          if - (2 ^ 63) \<le> i \<and> i < 2 ^ 63 then Some (i, v) else None)))"

definition scan_lit :: "string \<Rightarrow> string \<Rightarrow> string option" where
  "scan_lit lit s = (if prefix lit s then Some (drop (length lit) s) else None)"

section \<open>The format of an Argon2id hash\<close>

definition argon_mem :: "32 word" where "argon_mem = 19456"
definition argon_time :: "32 word" where "argon_time = 2"
definition argon_threads :: "8 word" where "argon_threads = 1"
definition argon_salt_len :: nat where "argon_salt_len = 16"
definition argon_key_len :: "32 word" where "argon_key_len = 32"
definition argon_version :: nat where "argon_version = 19"

definition phc_encode :: "string \<Rightarrow> string \<Rightarrow> string" where
  "phc_encode salt key =
     ''$argon2id$v='' @ nat_digits argon_version @ ''$m='' @ nat_digits (unat argon_mem) @
     '',t='' @ nat_digits (unat argon_time) @ '',p='' @ nat_digits (unat argon_threads) @ ''$'' @
     b64_encode b64_std salt @ ''$'' @ b64_encode b64_std key"

definition password_hash :: "crypto_ext \<Rightarrow> string \<Rightarrow> string \<Rightarrow> string" where
  "password_hash x salt plain =
     phc_encode salt (cx_idkey x plain salt argon_time argon_mem argon_threads argon_key_len)"

definition hash_password :: "crypto_ext \<Rightarrow> string \<Rightarrow> ('w, string) io" where
  "hash_password x plain = bind_io (rand_read x argon_salt_len) (\<lambda>salt. ret (password_hash x salt plain))"

record argon_hash =
  ah_mem :: "32 word"
  ah_time :: "32 word"
  ah_threads :: "8 word"
  ah_salt :: string
  ah_key :: string

definition scan_version :: "string \<Rightarrow> int option" where
  "scan_version s = Option.bind (scan_lit ''v='' s) (\<lambda>t. map_option fst (scan_int t))"

definition scan_params :: "string \<Rightarrow> (32 word \<times> 32 word \<times> 8 word) option" where
  "scan_params s =
     Option.bind (scan_lit ''m='' s) (\<lambda>s1. Option.bind (scan_uint 32 s1) (\<lambda>(m, s2).
     Option.bind (scan_lit '',t='' s2) (\<lambda>s3. Option.bind (scan_uint 32 s3) (\<lambda>(t, s4).
     Option.bind (scan_lit '',p='' s4) (\<lambda>s5. Option.bind (scan_uint 8 s5) (\<lambda>(p, s6).
       Some (of_nat m, of_nat t, of_nat p)))))))"

definition decode_argon2id :: "string \<Rightarrow> argon_hash option" where
  "decode_argon2id hash =
     (let parts = str_split (CHR ''$'') hash in
      if length parts \<noteq> 6 \<or> parts ! 1 \<noteq> ''argon2id'' then None
      else if scan_version (parts ! 2) \<noteq> Some (int argon_version) then None
      else
        (case scan_params (parts ! 3) of
           None \<Rightarrow> None
         | Some (m, t, p) \<Rightarrow>
             (case (b64_decode b64_std (parts ! 4), b64_decode b64_std (parts ! 5)) of
                (Some salt, Some key) \<Rightarrow>
                  Some \<lparr>ah_mem = m, ah_time = t, ah_threads = p, ah_salt = salt, ah_key = key\<rparr>
              | _ \<Rightarrow> None)))"

section \<open>Verify and NeedsRehash\<close>

text \<open>\<^verbatim>\<open>argon2.IDKey\<close> panics on no rounds and on no lanes.\<close>

definition verify_argon2id :: "crypto_ext \<Rightarrow> string \<Rightarrow> string \<Rightarrow> go_error + bool" where
  "verify_argon2id x hash plain =
     (case decode_argon2id hash of
        None \<Rightarrow> Inr False
      | Some h \<Rightarrow>
          if ah_time h = 0 \<or> ah_threads h = 0 then Inl GoPanic
          else Inr (cx_idkey x plain (ah_salt h) (ah_time h) (ah_mem h) (ah_threads h)
                      (of_nat (length (ah_key h))) = ah_key h))"

definition password_verify :: "crypto_ext \<Rightarrow> string \<Rightarrow> string \<Rightarrow> go_error + bool" where
  "password_verify x hash plain =
     (if prefix ''$argon2id$'' hash then verify_argon2id x hash plain
      else if prefix ''$2'' hash then Inr (cx_bcrypt x hash plain)
      else Inr False)"

definition needs_rehash :: "string \<Rightarrow> bool" where
  "needs_rehash hash =
     (if \<not> prefix ''$argon2id$'' hash then True
      else (case decode_argon2id hash of
              None \<Rightarrow> True
            | Some h \<Rightarrow> ah_mem h < argon_mem \<or> ah_time h < argon_time \<or> ah_threads h \<noteq> argon_threads))"

section \<open>Password strength\<close>

definition common_passwords :: "string list" where
  "common_passwords =
     [''password'', ''password1'', ''password123'', ''passw0rd'', ''p@ssw0rd'', ''p@ssword'',
      ''12345678'', ''123456789'', ''1234567890'', ''123123123'', ''11111111'', ''00000000'',
      ''qwerty'', ''qwerty123'', ''qwertyuiop'', ''1q2w3e4r'', ''1qaz2wsx'', ''zaq12wsx'',
      ''abc12345'', ''a1b2c3d4'', ''iloveyou'', ''sunshine'', ''princess'', ''football'',
      ''baseball'', ''welcome'', ''welcome1'', ''admin'', ''admin123'', ''administrator'',
      ''letmein'', ''monkey'', ''dragon'', ''master'', ''shadow'', ''superman'', ''batman'',
      ''trustno1'', ''whatever'', ''starwars'', ''computer'', ''michael'', ''jennifer'',
      ''changeme'', ''secret'', ''default'', ''test1234'', ''login'', ''guest'', ''root'',
      ''qeetid'', ''qeet1234'']"

definition go_byte :: "char \<Rightarrow> 8 word" where
  "go_byte c = of_nat (of_char c)"

definition is_uniform :: "string \<Rightarrow> bool" where
  "is_uniform s = (if length s < 2 then False else list_all (\<lambda>c. c = hd s) (tl s))"

text \<open>The loop over \<^verbatim>\<open>s[i] - s[i-1]\<close>, a difference of bytes.\<close>

fun sequence_loop :: "bool \<Rightarrow> bool \<Rightarrow> 8 word \<Rightarrow> 8 word list \<Rightarrow> bool" where
  "sequence_loop asc desc b [] = (asc \<or> desc)"
| "sequence_loop asc desc b (c # cs) =
     (if c - b = 1 then sequence_loop asc False c cs
      else if c - b = 0xff then sequence_loop False desc c cs
      else False)"

definition is_sequential :: "string \<Rightarrow> bool" where
  "is_sequential s =
     (if length s < 4 then False
      else sequence_loop True True (go_byte (hd s)) (map go_byte (tl s)))"

definition weak_reason :: "crypto_ext \<Rightarrow> string \<Rightarrow> string \<Rightarrow> string" where
  "weak_reason x plain email =
     (let lower = to_lower x (trim_space plain); em = to_lower x (trim_space email) in
      if lower \<in> set common_passwords then
        ''This password is too common. Choose something harder to guess.''
      else if email \<noteq> [] \<and>
          (let loc = (case index_byte em (CHR ''@'') of
                        Some at \<Rightarrow> if at > 0 then take at em else em | None \<Rightarrow> em) in
           lower = em \<or> (loc \<noteq> [] \<and> lower = loc)) then
        ''Your password must not be the same as your email address.''
      else if is_uniform lower then
        ''This password is too simple. Choose something harder to guess.''
      else if is_sequential lower then
        ''This password is too predictable. Avoid sequences like 12345678 or abcdefg.''
      else [])"

end
