(* ===== verification/AuthStore.thy ===== *)
theory AuthStore imports Rbac Passwords begin

text \<open>
  The tables of authentication (migrations 0004, 0005, 0022, 0026, 0041, 0042, 0050, 0054, 0068) and the
  statements \<^verbatim>\<open>internal/access/authentication\<close> runs on them: the generated queries of
  \<^verbatim>\<open>dbgen/queries.sql.go\<close> and the ones written in \<^verbatim>\<open>service.go\<close>, \<^verbatim>\<open>loginsession.go\<close> and
  \<^verbatim>\<open>trusteddevice.go\<close>. A statement is an error or a value with the new state; \<^verbatim>\<open>NOW()\<close> and
  \<^verbatim>\<open>gen_random_uuid()\<close> are read from the environment.
\<close>

section \<open>Tables\<close>

record user_row =
  us_id :: uuid
  us_tenant :: "uuid option"
  us_email :: string
  us_display :: "string option"
  us_status :: string
  us_created :: time
  us_updated :: time
  us_deleted :: "time option"

record cred_row =
  cd_user :: uuid
  cd_hash :: string
  cd_updated :: time

record session_row =
  ss_id :: uuid
  ss_user :: uuid
  ss_tenant :: "uuid option"
  ss_ip :: "string option"
  ss_agent :: string
  ss_created :: time
  ss_seen :: time
  ss_revoked :: "time option"

record refresh_row =
  rf_id :: uuid
  rf_session :: uuid
  rf_hash :: string
  rf_issued :: time
  rf_expires :: time
  rf_used :: "time option"
  rf_replaced :: "uuid option"

record attempt_row =
  la_email :: string
  la_count :: int
  la_first :: time
  la_last :: time
  la_locked :: "time option"

type_synonym custom_claims = "(string \<times> json) list"

record challenge_row =
  mc_id :: uuid
  mc_user :: uuid
  mc_tenant :: "uuid option"
  mc_expires :: time
  mc_created :: time
  mc_claims :: "custom_claims option"

record login_session_row =
  ls_hash :: string
  ls_user :: uuid
  ls_created :: time
  ls_expires :: time
  ls_ip :: "string option"
  ls_agent :: string

record device_row =
  td_id :: uuid
  td_user :: uuid
  td_tenant :: "uuid option"
  td_hash :: string
  td_label :: string
  td_expires :: time
  td_created :: time
  td_used :: "time option"

record auth_db = rbac_db +
  user_rows :: "user_row list"
  cred_rows :: "cred_row list"
  session_rows :: "session_row list"
  refresh_rows :: "refresh_row list"
  attempt_rows :: "attempt_row list"
  challenge_rows :: "challenge_row list"
  login_rows :: "login_session_row list"
  device_rows :: "device_row list"

text \<open>What the statements use of the database: \<^verbatim>\<open>LOWER\<close>, the \<^verbatim>\<open>inet\<close> type, and what a \<^verbatim>\<open>jsonb\<close> column gives
  back for the claims stored in it.\<close>

record auth_ext =
  tx_audit :: audit_ext
  tx_crypto :: crypto_ext
  tx_lower :: "string \<Rightarrow> string"
  tx_claims :: "custom_claims \<Rightarrow> custom_claims option"

abbreviation out_of_range :: go_error where
  "out_of_range \<equiv> PgErr ''22003''"

abbreviation bad_inet :: go_error where
  "bad_inet \<equiv> PgErr ''22P02''"

section \<open>Users and credentials\<close>

definition user_exists :: "uuid \<Rightarrow> 'z auth_db_scheme \<Rightarrow> bool" where
  "user_exists u w \<longleftrightarrow> u \<in> us_id ` set (user_rows w)"

definition get_user_by_email :: "auth_ext \<Rightarrow> string \<Rightarrow> 'z auth_db_scheme \<Rightarrow> user_row option" where
  "get_user_by_email x email w =
     List.find (\<lambda>u. tx_lower x (us_email u) = tx_lower x email \<and> us_deleted u = None) (user_rows w)"

definition get_password_hash :: "uuid \<Rightarrow> 'z auth_db_scheme \<Rightarrow> string option" where
  "get_password_hash u w = map_option cd_hash (List.find (\<lambda>c. cd_user c = u) (cred_rows w))"

text \<open>\<^verbatim>\<open>InsertTenantlessUser\<close> and the insertion of \<^verbatim>\<open>RegisterInTenant\<close>; \<^verbatim>\<open>uq_users_email_global\<close> is the index.\<close>

definition new_user_row :: "uuid \<Rightarrow> uuid option \<Rightarrow> string \<Rightarrow> string option \<Rightarrow> time \<Rightarrow> user_row" where
  "new_user_row i tenant email display now =
     \<lparr>us_id = i, us_tenant = tenant, us_email = email, us_display = display, us_status = ''active'',
      us_created = now, us_updated = now, us_deleted = None\<rparr>"

definition insert_user :: "auth_ext \<Rightarrow> user_row \<Rightarrow> 'z auth_db_scheme \<Rightarrow> go_error + 'z auth_db_scheme" where
  "insert_user x u w =
     (if us_id u \<in> us_id ` set (user_rows w) \<or> get_user_by_email x (us_email u) w \<noteq> None then Inl unique_violation
      else if (case us_tenant u of None \<Rightarrow> False | Some t \<Rightarrow> t \<notin> set (tenant_ids w)) then Inl foreign_key_violation
      else Inr (w\<lparr>user_rows := user_rows w @ [u]\<rparr>))"

definition insert_credential :: "cred_row \<Rightarrow> 'z auth_db_scheme \<Rightarrow> go_error + 'z auth_db_scheme" where
  "insert_credential c w =
     (if cd_user c \<in> cd_user ` set (cred_rows w) then Inl unique_violation
      else if \<not> user_exists (cd_user c) w then Inl foreign_key_violation
      else Inr (w\<lparr>cred_rows := cred_rows w @ [c]\<rparr>))"

definition update_credential_hash :: "string \<Rightarrow> uuid \<Rightarrow> time \<Rightarrow> 'z auth_db_scheme \<Rightarrow> 'z auth_db_scheme" where
  "update_credential_hash h u now w = w\<lparr>cred_rows :=
     map (\<lambda>c. if cd_user c = u then c\<lparr>cd_hash := h, cd_updated := now\<rparr> else c) (cred_rows w)\<rparr>"

definition tenant_membership :: "uuid \<Rightarrow> uuid \<Rightarrow> 'z auth_db_scheme \<Rightarrow> bool" where
  "tenant_membership user tenant w \<longleftrightarrow>
     (\<exists>r \<in> set (user_role_rows w). ur_user r = user \<and> ur_tenant r = tenant)"

section \<open>Sessions and refresh tokens\<close>

definition insert_session ::
  "auth_ext \<Rightarrow> string \<Rightarrow> session_row \<Rightarrow> 'z auth_db_scheme \<Rightarrow> go_error + 'z auth_db_scheme" where
  "insert_session x ip s w =
     (if ip \<noteq> [] \<and> ax_inet (tx_audit x) ip = None then Inl bad_inet
      else if ss_id s \<in> ss_id ` set (session_rows w) then Inl unique_violation
      else if \<not> user_exists (ss_user s) w \<or>
        (case ss_tenant s of None \<Rightarrow> False | Some t \<Rightarrow> t \<notin> set (tenant_ids w)) then Inl foreign_key_violation
      else Inr (w\<lparr>session_rows := session_rows w @
        [s\<lparr>ss_ip := (if ip = [] then None else ax_inet (tx_audit x) ip)\<rparr>]\<rparr>))"

definition insert_refresh :: "refresh_row \<Rightarrow> 'z auth_db_scheme \<Rightarrow> go_error + 'z auth_db_scheme" where
  "insert_refresh t w =
     (if rf_id t \<in> rf_id ` set (refresh_rows w) \<or> rf_hash t \<in> rf_hash ` set (refresh_rows w) then Inl unique_violation
      else if rf_session t \<notin> ss_id ` set (session_rows w) then Inl foreign_key_violation
      else Inr (w\<lparr>refresh_rows := refresh_rows w @ [t]\<rparr>))"

text \<open>The join of \<^verbatim>\<open>Refresh\<close>: the token with its session and the session's user.\<close>

definition find_refresh ::
  "string \<Rightarrow> 'z auth_db_scheme \<Rightarrow> (refresh_row \<times> session_row \<times> user_row) option" where
  "find_refresh hash w =
     Option.bind (List.find (\<lambda>t. rf_hash t = hash) (refresh_rows w)) (\<lambda>t.
     Option.bind (List.find (\<lambda>s. ss_id s = rf_session t) (session_rows w)) (\<lambda>s.
     Option.bind (List.find (\<lambda>u. us_id u = ss_user s) (user_rows w)) (\<lambda>u. Some (t, s, u))))"

definition mark_refresh_used :: "uuid \<Rightarrow> uuid \<Rightarrow> time \<Rightarrow> 'z auth_db_scheme \<Rightarrow> 'z auth_db_scheme" where
  "mark_refresh_used replaced_by i now w = w\<lparr>refresh_rows :=
     map (\<lambda>t. if rf_id t = i then t\<lparr>rf_used := Some now, rf_replaced := Some replaced_by\<rparr> else t) (refresh_rows w)\<rparr>"

definition revoke_session_row :: "uuid \<Rightarrow> time \<Rightarrow> 'z auth_db_scheme \<Rightarrow> 'z auth_db_scheme" where
  "revoke_session_row i now w = w\<lparr>session_rows :=
     map (\<lambda>s. if ss_id s = i \<and> ss_revoked s = None then s\<lparr>ss_revoked := Some now\<rparr> else s) (session_rows w)\<rparr>"

definition touch_session :: "uuid \<Rightarrow> time \<Rightarrow> 'z auth_db_scheme \<Rightarrow> 'z auth_db_scheme" where
  "touch_session i now w = w\<lparr>session_rows :=
     map (\<lambda>s. if ss_id s = i then s\<lparr>ss_seen := now\<rparr> else s) (session_rows w)\<rparr>"

text \<open>The listing: newest first, at most a hundred, none for a deleted user.\<close>

definition sessions_of :: "uuid \<Rightarrow> 'z auth_db_scheme \<Rightarrow> session_row list" where
  "sessions_of user w =
     (if \<exists>u \<in> set (user_rows w). us_id u = user \<and> us_deleted u = None
      then take 100 (sort_key (\<lambda>s. - ss_created s) (filter (\<lambda>s. ss_user s = user) (session_rows w)))
      else [])"

section \<open>Login attempts\<close>

definition find_attempt :: "string \<Rightarrow> 'z auth_db_scheme \<Rightarrow> attempt_row option" where
  "find_attempt email w = List.find (\<lambda>a. la_email a = email) (attempt_rows w)"

definition bump_attempt :: "time \<Rightarrow> int \<Rightarrow> time \<Rightarrow> time \<Rightarrow> attempt_row \<Rightarrow> attempt_row" where
  "bump_attempt window_start max_failed lock_until now a =
     (let count = (if la_last a < window_start then 1 else la_count a + 1) in
      a\<lparr>la_count := count,
        la_first := (if la_last a < window_start then now else la_first a),
        la_last := now,
        la_locked := (if count \<ge> max_failed then Some lock_until else None)\<rparr>)"

text \<open>The counter is an \<^verbatim>\<open>INT\<close> column.\<close>

definition upsert_attempt ::
  "string \<Rightarrow> time \<Rightarrow> int \<Rightarrow> time \<Rightarrow> time \<Rightarrow> 'z auth_db_scheme \<Rightarrow> go_error + (int \<times> 'z auth_db_scheme)" where
  "upsert_attempt email window_start max_failed lock_until now w =
     (case find_attempt email w of
        None \<Rightarrow> Inr (1, w\<lparr>attempt_rows := attempt_rows w @
          [\<lparr>la_email = email, la_count = 1, la_first = now, la_last = now, la_locked = None\<rparr>]\<rparr>)
      | Some a \<Rightarrow>
          (let b = bump_attempt window_start max_failed lock_until now a in
           if la_count b \<ge> 2 ^ 31 then Inl out_of_range
           else Inr (la_count b, w\<lparr>attempt_rows := map (\<lambda>c. if la_email c = email then b else c) (attempt_rows w)\<rparr>)))"

definition delete_attempt :: "string \<Rightarrow> 'z auth_db_scheme \<Rightarrow> 'z auth_db_scheme" where
  "delete_attempt email w = w\<lparr>attempt_rows := filter (\<lambda>a. la_email a \<noteq> email) (attempt_rows w)\<rparr>"

section \<open>Challenges, hosted sessions, devices\<close>

definition insert_challenge :: "challenge_row \<Rightarrow> 'z auth_db_scheme \<Rightarrow> go_error + 'z auth_db_scheme" where
  "insert_challenge c w =
     (if mc_id c \<in> mc_id ` set (challenge_rows w) then Inl unique_violation
      else if \<not> user_exists (mc_user c) w then Inl foreign_key_violation
      else Inr (w\<lparr>challenge_rows := challenge_rows w @ [c]\<rparr>))"

definition find_challenge :: "uuid \<Rightarrow> 'z auth_db_scheme \<Rightarrow> challenge_row option" where
  "find_challenge i w = List.find (\<lambda>c. mc_id c = i) (challenge_rows w)"

definition delete_challenge :: "uuid \<Rightarrow> 'z auth_db_scheme \<Rightarrow> 'z auth_db_scheme" where
  "delete_challenge i w = w\<lparr>challenge_rows := filter (\<lambda>c. mc_id c \<noteq> i) (challenge_rows w)\<rparr>"

definition insert_login_session ::
  "auth_ext \<Rightarrow> string \<Rightarrow> login_session_row \<Rightarrow> 'z auth_db_scheme \<Rightarrow> go_error + 'z auth_db_scheme" where
  "insert_login_session x ip s w =
     (if ip \<noteq> [] \<and> ax_inet (tx_audit x) ip = None then Inl bad_inet
      else if ls_hash s \<in> ls_hash ` set (login_rows w) then Inl unique_violation
      else if \<not> user_exists (ls_user s) w then Inl foreign_key_violation
      else Inr (w\<lparr>login_rows := login_rows w @ [s\<lparr>ls_ip := (if ip = [] then None else ax_inet (tx_audit x) ip)\<rparr>]\<rparr>))"

definition find_login_session :: "string \<Rightarrow> 'z auth_db_scheme \<Rightarrow> login_session_row option" where
  "find_login_session hash w = List.find (\<lambda>s. ls_hash s = hash) (login_rows w)"

definition delete_login_session :: "string \<Rightarrow> 'z auth_db_scheme \<Rightarrow> 'z auth_db_scheme" where
  "delete_login_session hash w = w\<lparr>login_rows := filter (\<lambda>s. ls_hash s \<noteq> hash) (login_rows w)\<rparr>"

definition insert_device :: "device_row \<Rightarrow> 'z auth_db_scheme \<Rightarrow> go_error + 'z auth_db_scheme" where
  "insert_device d w =
     (if td_id d \<in> td_id ` set (device_rows w) \<or> td_hash d \<in> td_hash ` set (device_rows w) then Inl unique_violation
      else if \<not> user_exists (td_user d) w then Inl foreign_key_violation
      else Inr (w\<lparr>device_rows := device_rows w @ [d]\<rparr>))"

definition device_matches :: "string \<Rightarrow> uuid \<Rightarrow> time \<Rightarrow> device_row \<Rightarrow> bool" where
  "device_matches hash user now d \<longleftrightarrow> td_hash d = hash \<and> td_user d = user \<and> td_expires d > now"

definition touch_device :: "string \<Rightarrow> uuid \<Rightarrow> time \<Rightarrow> 'z auth_db_scheme \<Rightarrow> nat \<times> 'z auth_db_scheme" where
  "touch_device hash user now w =
     (length (filter (device_matches hash user now) (device_rows w)),
      w\<lparr>device_rows := map (\<lambda>d. if device_matches hash user now d then d\<lparr>td_used := Some now\<rparr> else d) (device_rows w)\<rparr>)"

text \<open>A statement that may fail, as one round trip.\<close>

definition db_exec :: "('w \<Rightarrow> go_error + 'w) \<Rightarrow> ('w, unit) io" where
  "db_exec f = db_call (\<lambda>w. case f w of Inl err \<Rightarrow> (Inl err, w) | Inr w' \<Rightarrow> (Inr (), w'))"

lemma db_exec_ok [io_ok]:
  "db_exec f e w = (Inr u, e', w') \<longleftrightarrow>
     \<not> e_fault e (e_calls e) \<and> e' = e\<lparr>e_calls := Suc (e_calls e)\<rparr> \<and> f w = Inr w'"
  by (auto simp: db_exec_def db_call_ok split: sum.splits)

lemma atomic_db_exec [intro, simp]: "atomic (db_exec f)"
  by (simp add: db_exec_def)

lemma keeps_db_exec [keeps_intros]:
  "(\<And>w w'. P w \<Longrightarrow> f w = Inr w' \<Longrightarrow> P w') \<Longrightarrow> keeps P (db_exec f)"
  unfolding db_exec_def by (rule keeps_db_call) (auto split: sum.splits)

end
