(* ===== verification/AuthSessions.thy ===== *)
theory AuthSessions imports AuthStore begin

text \<open>
  Token pairs and the sessions behind them, \<^verbatim>\<open>internal/access/authentication/service.go\<close>: the issue of a
  pair, the rotation of refresh tokens with the detection of reuse, logout, tenant switch; with the parts of
  \<^verbatim>\<open>internal/platform/crypto/tokens/jwt.go\<close> they call. Signing is a parameter, and so are the
  collaborators the service holds as interfaces (second factor, policies, hooks, webhooks).
\<close>

section \<open>The service and its collaborators\<close>

record access_claims =
  ac_user :: uuid
  ac_tenant :: uuid
  ac_session :: uuid
  ac_scope :: string
  ac_actor :: "string option"
  ac_custom :: custom_claims
  ac_issuer :: string
  ac_audience :: "string list"
  ac_subject :: string
  ac_issued :: int \<comment> \<open>seconds\<close>
  ac_not_before :: int
  ac_expires :: int
  ac_id :: uuid

record 'w mfa_enroller =
  me_enrolled :: "uuid \<Rightarrow> ('w, bool) io"
  me_verify :: "uuid \<Rightarrow> string \<Rightarrow> ('w, bool) io"

record 'w registration_policy =
  rg_enabled :: "uuid \<Rightarrow> ('w, bool) io"
  rg_validate :: "uuid \<Rightarrow> string \<Rightarrow> ('w, unit) io"

record 'w auth_service =
  as_ext :: auth_ext
  as_sign :: "access_claims \<Rightarrow> string option"
  as_issuer :: string
  as_audience :: string
  as_access_ttl :: time
  as_refresh_ttl :: time
  as_breach :: "(string \<Rightarrow> ('w, bool) io) option"
  as_mfa :: "'w mfa_enroller option"
  as_registration :: "'w registration_policy option"
  as_anomaly :: "(string \<Rightarrow> ('w, unit) io) option"
  as_devices :: "(uuid \<Rightarrow> ('w, bool) io) option"
  as_risk :: "(uuid \<Rightarrow> uuid \<Rightarrow> string \<Rightarrow> string \<Rightarrow> string \<Rightarrow> ('w, bool) io) option"
  as_hook :: "(uuid \<Rightarrow> uuid \<Rightarrow> string \<Rightarrow> ('w, custom_claims) io) option"
  as_emitter :: "'w emitter option"

definition auth_emit :: "'w auth_service \<Rightarrow> uuid \<Rightarrow> string \<Rightarrow> string \<Rightarrow> ('w, unit) io" where
  "auth_emit s tenant etype payload =
     (case as_emitter s of
        None \<Rightarrow> ret ()
      | Some f \<Rightarrow> if tenant = 0 then ret () else ignore_error (f tenant etype payload))"

definition nil_option :: "uuid \<Rightarrow> uuid option" where
  "nil_option u = (if u = 0 then None else Some u)"

definition option_nil :: "uuid option \<Rightarrow> uuid" where
  "option_nil t = (case t of None \<Rightarrow> 0 | Some u \<Rightarrow> u)"

section \<open>Tokens\<close>

definition hash_refresh :: "crypto_ext \<Rightarrow> string \<Rightarrow> string" where
  "hash_refresh x raw = b64_encode b64_url (cx_sha256 x raw)"

definition new_refresh_token :: "crypto_ext \<Rightarrow> ('w, string \<times> string) io" where
  "new_refresh_token x = bind_io (rand_read x 32) (\<lambda>b.
     let raw = b64_encode b64_url b in ret (raw, hash_refresh x raw))"

definition issue_access_full ::
  "'w auth_service \<Rightarrow> uuid \<Rightarrow> uuid \<Rightarrow> uuid \<Rightarrow> string \<Rightarrow> string option \<Rightarrow> string \<Rightarrow> custom_claims \<Rightarrow>
   ('v, string \<times> time) io" where
  "issue_access_full s user tenant session scopes act resource custom =
     bind_io time_now (\<lambda>now.
     bind_io uuid_new (\<lambda>jti.
       let exp = now + as_access_ttl s;
           aud = (if resource \<noteq> [] \<and> resource \<noteq> as_audience s then [as_audience s, resource] else [as_audience s]);
           c = \<lparr>ac_user = user, ac_tenant = tenant, ac_session = session, ac_scope = scopes, ac_actor = act,
                ac_custom = custom, ac_issuer = as_issuer s, ac_audience = aud,
                ac_subject = ax_uuid (tx_audit (as_ext s)) user, ac_issued = now div 1000000,
                ac_not_before = now div 1000000,
                ac_expires = exp div 1000000, ac_id = jti\<rparr> in
       (case as_sign s c of None \<Rightarrow> fail (PlainErr ''sign access'') | Some t \<Rightarrow> ret (t, exp))))"

definition issue_access :: "'w auth_service \<Rightarrow> uuid \<Rightarrow> uuid \<Rightarrow> uuid \<Rightarrow> string \<Rightarrow> ('v, string \<times> time) io" where
  "issue_access s user tenant session scopes = issue_access_full s user tenant session scopes None [] []"

definition issue_access_claims ::
  "'w auth_service \<Rightarrow> uuid \<Rightarrow> uuid \<Rightarrow> uuid \<Rightarrow> string \<Rightarrow> custom_claims \<Rightarrow> ('v, string \<times> time) io" where
  "issue_access_claims s user tenant session scopes custom =
     issue_access_full s user tenant session scopes None [] custom"

record token_pair =
  tp_access :: string
  tp_expires :: time
  tp_refresh :: string
  tp_session :: uuid
  tp_user :: uuid
  tp_tenant :: "uuid option"

text \<open>\<^verbatim>\<open>InsertRefreshToken\<close>: the id and the time of issue are defaults of the table.\<close>

definition insert_refresh_token :: "uuid \<Rightarrow> string \<Rightarrow> time \<Rightarrow> ('z auth_db_scheme, uuid) io" where
  "insert_refresh_token session hash expires =
     bind_io uuid_new (\<lambda>i.
     bind_io time_now (\<lambda>issued.
     then_io (db_exec (insert_refresh \<lparr>rf_id = i, rf_session = session, rf_hash = hash, rf_issued = issued,
         rf_expires = expires, rf_used = None, rf_replaced = None\<rparr>))
     (ret i)))"

definition new_session :: "uuid \<Rightarrow> uuid \<Rightarrow> uuid option \<Rightarrow> string \<Rightarrow> time \<Rightarrow> session_row" where
  "new_session i user tenant ua now =
     \<lparr>ss_id = i, ss_user = user, ss_tenant = tenant, ss_ip = None, ss_agent = ua, ss_created = now,
      ss_seen = now, ss_revoked = None\<rparr>"

section \<open>Issuing a pair\<close>

definition login_event ::
  "uuid \<Rightarrow> uuid option \<Rightarrow> uuid \<Rightarrow> string \<Rightarrow> string \<Rightarrow> string \<Rightarrow> audit_event" where
  "login_event user tenant session ip ua method =
     \<lparr>ev_tenant = tenant, ev_actor_user = Some user, ev_actor_type = ''user'', ev_action = ''auth.login_succeeded'',
      ev_res_type = ''session'', ev_res_id = Some session, ev_ip = ip, ev_user_agent = ua, ev_request_id = [],
      ev_metadata = json_object [(''method'', json_quote (if method = [] then ''unknown'' else method))]\<rparr>"

definition open_session ::
  "'z auth_db_scheme auth_service \<Rightarrow> uuid \<Rightarrow> uuid option \<Rightarrow> string \<Rightarrow> string \<Rightarrow> custom_claims \<Rightarrow>
   ('z auth_db_scheme, token_pair) io" where
  "open_session s user tenant ip ua custom =
     bind_io uuid_new (\<lambda>sid.
     bind_io time_now (\<lambda>now.
     then_io (db_exec (insert_session (as_ext s) ip (new_session sid user tenant ua now)))
     (bind_io (issue_access_claims s user (option_nil tenant) sid [] custom) (\<lambda>(access, exp).
      bind_io (new_refresh_token (tx_crypto (as_ext s))) (\<lambda>(raw, hash).
      bind_io time_now (\<lambda>now2.
      bind_io (insert_refresh_token sid hash (now2 + as_refresh_ttl s)) (\<lambda>_.
        ret \<lparr>tp_access = access, tp_expires = exp, tp_refresh = raw, tp_session = sid, tp_user = user,
             tp_tenant = tenant\<rparr>)))))))"

definition issue_pair ::
  "'z auth_db_scheme auth_service \<Rightarrow> uuid \<Rightarrow> uuid \<Rightarrow> string \<Rightarrow> string \<Rightarrow> string \<Rightarrow> custom_claims \<Rightarrow>
   ('z auth_db_scheme, token_pair) io" where
  "issue_pair s user tenant ip ua method custom = in_tx
     (bind_io (open_session s user (nil_option tenant) ip ua custom) (\<lambda>p.
      then_io (record_audit (tx_audit (as_ext s))
        (login_event user (nil_option tenant) (tp_session p) ip ua method))
      (ret p)))"

definition switch_tenant ::
  "'z auth_db_scheme auth_service \<Rightarrow> uuid \<Rightarrow> uuid \<Rightarrow> string \<Rightarrow> string \<Rightarrow> ('z auth_db_scheme, token_pair) io" where
  "switch_tenant s user tenant ip ua =
     bind_io (db_read (tenant_membership user tenant)) (\<lambda>member.
       if \<not> member then fail (ApiErr (with_detail ErrForbidden ''not a member of this tenant''))
       else issue_pair s user tenant ip ua ''tenant_switch'' [])"

section \<open>Refresh\<close>

record refresh_input =
  ri_token :: string
  ri_ip :: string
  ri_agent :: string
  ri_request :: string

definition uuid_json :: "auth_ext \<Rightarrow> uuid \<Rightarrow> string" where
  "uuid_json x u = json_quote (ax_uuid (tx_audit x) u)"

definition reuse_audit_event :: "auth_ext \<Rightarrow> uuid \<Rightarrow> uuid \<Rightarrow> uuid \<Rightarrow> uuid \<Rightarrow> refresh_input \<Rightarrow> audit_event" where
  "reuse_audit_event x user tenant session token i =
     \<lparr>ev_tenant = Some tenant, ev_actor_user = Some user, ev_actor_type = ''system'',
      ev_action = ''auth.token_reuse_detected'', ev_res_type = ''session'', ev_res_id = Some session,
      ev_ip = ri_ip i, ev_user_agent = ri_agent i, ev_request_id = ri_request i,
      ev_metadata = json_object
        ((if ri_ip i \<noteq> [] then [(''ip'', json_quote (ri_ip i))] else []) @
         [(''reason'', json_quote ''refresh_token_reuse''), (''refresh_token_id'', uuid_json x token),
          (''session_id'', uuid_json x session)] @
         (if ri_agent i \<noteq> [] then [(''user_agent'', json_quote (ri_agent i))] else []))\<rparr>"

definition reuse_outbox_event :: "auth_ext \<Rightarrow> uuid \<Rightarrow> uuid \<Rightarrow> uuid \<Rightarrow> refresh_input \<Rightarrow> outbox_event" where
  "reuse_outbox_event x user tenant session i =
     \<lparr>oe_id = 0, oe_aggregate = session, oe_topic = ''auth'', oe_event_type = ''auth.session.revoked_for_reuse'',
      oe_payload = json_object [(''ip'', json_quote (ri_ip i)), (''session_id'', uuid_json x session),
        (''tenant_id'', uuid_json x tenant), (''user_agent'', json_quote (ri_agent i)),
        (''user_id'', uuid_json x user)]\<rparr>"

definition revoke_session_by_id :: "uuid \<Rightarrow> ('z auth_db_scheme, unit) io" where
  "revoke_session_by_id i = bind_io time_now (\<lambda>now. db_write (revoke_session_row i now))"

definition handle_refresh_reuse ::
  "auth_ext \<Rightarrow> uuid \<Rightarrow> uuid \<Rightarrow> uuid \<Rightarrow> uuid \<Rightarrow> refresh_input \<Rightarrow> ('z auth_db_scheme, unit) io" where
  "handle_refresh_reuse x user tenant session token i =
     then_io (revoke_session_by_id session)
     (then_io (record_audit (tx_audit x) (reuse_audit_event x user tenant session token i))
      (enqueue (reuse_outbox_event x user tenant session i)))"

text \<open>What the transaction of \<^verbatim>\<open>Refresh\<close> commits: the revocation on reuse, or the new pair.\<close>

datatype refresh_outcome = Reused uuid uuid uuid | Rotated token_pair

definition rotate_token ::
  "'z auth_db_scheme auth_service \<Rightarrow> refresh_row \<Rightarrow> session_row \<Rightarrow> ('z auth_db_scheme, token_pair) io" where
  "rotate_token s t sess =
     bind_io (new_refresh_token (tx_crypto (as_ext s))) (\<lambda>(raw, hash).
     bind_io time_now (\<lambda>now.
     bind_io (insert_refresh_token (ss_id sess) hash (now + as_refresh_ttl s)) (\<lambda>i.
     bind_io time_now (\<lambda>used.
     then_io (db_write (mark_refresh_used i (rf_id t) used))
     (bind_io time_now (\<lambda>seen.
      then_io (db_write (touch_session (ss_id sess) seen))
      (bind_io (issue_access s (ss_user sess) (option_nil (ss_tenant sess)) (ss_id sess) []) (\<lambda>(access, exp).
        ret \<lparr>tp_access = access, tp_expires = exp, tp_refresh = raw, tp_session = ss_id sess,
             tp_user = ss_user sess, tp_tenant = ss_tenant sess\<rparr>))))))))"

definition refresh_tx ::
  "'z auth_db_scheme auth_service \<Rightarrow> refresh_input \<Rightarrow> ('z auth_db_scheme, refresh_outcome) io" where
  "refresh_tx s i =
     bind_io (db_read (find_refresh (hash_refresh (tx_crypto (as_ext s)) (ri_token i)))) (\<lambda>found.
     case found of
       None \<Rightarrow> fail (ApiErr (with_detail ErrUnauthorized ''unknown refresh token''))
     | Some (t, sess, u) \<Rightarrow>
         if ss_revoked sess \<noteq> None then fail (ApiErr (with_detail ErrUnauthorized ''session revoked''))
         else if us_deleted u \<noteq> None \<or> us_status u = ''suspended'' then
           fail (ApiErr (with_detail ErrUnauthorized ''account suspended or deleted''))
         else
           bind_io time_now (\<lambda>now.
           if now > rf_expires t then fail (ApiErr (with_detail ErrUnauthorized ''refresh token expired''))
           else if rf_used t \<noteq> None then
             then_io (handle_refresh_reuse (as_ext s) (ss_user sess) (option_nil (ss_tenant sess)) (ss_id sess) (rf_id t) i)
               (ret (Reused (ss_user sess) (option_nil (ss_tenant sess)) (ss_id sess)))
           else bind_io (rotate_token s t sess) (\<lambda>p. ret (Rotated p))))"

definition session_revoked_payload :: "auth_ext \<Rightarrow> uuid \<Rightarrow> uuid \<Rightarrow> string \<Rightarrow> time \<Rightarrow> string" where
  "session_revoked_payload x user session reason now =
     json_object [(''reason'', json_quote reason), (''revoked_at'', json_quote (format_rfc3339nano now)),
       (''session_id'', uuid_json x session), (''user_id'', uuid_json x user)]"

definition refresh ::
  "'z auth_db_scheme auth_service \<Rightarrow> refresh_input \<Rightarrow> ('z auth_db_scheme, token_pair) io" where
  "refresh s i =
     bind_io (in_tx (refresh_tx s i)) (\<lambda>out.
     case out of
       Rotated p \<Rightarrow> ret p
     | Reused user tenant session \<Rightarrow>
         bind_io time_now (\<lambda>now.
         then_io (auth_emit s tenant ''session.revoked''
             (session_revoked_payload (as_ext s) user session ''reuse_detected'' now))
           (fail (ApiErr (with_detail ErrUnauthorized
             (''refresh token reuse '' @ [CHR 0xE2, CHR 0x80, CHR 0x94] @ '' session revoked''))))))"

section \<open>Logout and the list of sessions\<close>

text \<open>The update returns the owner and the tenant of the row it revoked, if it revoked one.\<close>

definition revoke_returning :: "uuid \<Rightarrow> ('z auth_db_scheme, (uuid \<times> uuid option) option) io" where
  "revoke_returning i =
     bind_io time_now (\<lambda>now. db_call (\<lambda>w.
       (Inr (map_option (\<lambda>s. (ss_user s, ss_tenant s))
               (List.find (\<lambda>s. ss_id s = i \<and> ss_revoked s = None) (session_rows w))),
        revoke_session_row i now w)))"

definition logout ::
  "'z auth_db_scheme auth_service \<Rightarrow> uuid \<Rightarrow> ('z auth_db_scheme, unit) io" where
  "logout s session =
     bind_io (revoke_returning session) (\<lambda>found.
     case found of
       None \<Rightarrow> ret ()
     | Some (user, None) \<Rightarrow> ret ()
     | Some (user, Some tenant) \<Rightarrow>
         bind_io time_now (\<lambda>now.
           auth_emit s tenant ''session.revoked'' (session_revoked_payload (as_ext s) user session ''logout'' now)))"

definition list_sessions :: "uuid \<Rightarrow> ('z auth_db_scheme, session_row list) io" where
  "list_sessions user = db_read (sessions_of user)"

end
