(* ===== verification/AuthLogin.thy ===== *)
theory AuthLogin imports AuthSessions begin

text \<open>
  Sign-in, \<^verbatim>\<open>internal/access/authentication\<close>: the brute-force lockout (\<^verbatim>\<open>lockout.go\<close>), the check of
  credentials, the second-factor challenge, sign-up and registration (\<^verbatim>\<open>service.go\<close>), hosted sessions
  (\<^verbatim>\<open>loginsession.go\<close>) and trusted devices (\<^verbatim>\<open>trusteddevice.go\<close>). A duration is in microseconds.
\<close>

section \<open>Lockout\<close>

definition minutes :: "int \<Rightarrow> time" where
  "minutes n = n * 60000000"

definition max_failed_logins :: int where
  "max_failed_logins = 5"

definition failure_window :: time where
  "failure_window = minutes 15"

definition lockout_duration :: time where
  "lockout_duration = minutes 15"

text \<open>The lock of an e-mail address, if there is one that has not expired; none on a storage error.\<close>

definition login_locked_until :: "string \<Rightarrow> ('z auth_db_scheme, time option) io" where
  "login_locked_until email =
     bind_io (on_error (db_read (\<lambda>w. Option.bind (find_attempt email w) la_locked)) (\<lambda>_. ret None)) (\<lambda>row.
     case row of
       None \<Rightarrow> ret None
     | Some t \<Rightarrow> bind_io time_now (\<lambda>now. ret (if now < t then Some t else None)))"

definition upsert_login_attempt :: "string \<Rightarrow> time \<Rightarrow> int \<Rightarrow> time \<Rightarrow> ('z auth_db_scheme, int) io" where
  "upsert_login_attempt email window_start max_failed lock_until =
     bind_io time_now (\<lambda>now. db_call (\<lambda>w.
       case upsert_attempt email window_start max_failed lock_until now w of
         Inl err \<Rightarrow> (Inl err, w) | Inr (n, w') \<Rightarrow> (Inr n, w')))"

definition record_failed_login ::
  "'z auth_db_scheme auth_service \<Rightarrow> string \<Rightarrow> ('z auth_db_scheme, unit) io" where
  "record_failed_login s email =
     bind_io time_now (\<lambda>now.
     on_error
       (bind_io (upsert_login_attempt email (now - failure_window) max_failed_logins (now + lockout_duration)) (\<lambda>n.
         case as_anomaly s of
           None \<Rightarrow> ret ()
         | Some f \<Rightarrow> if n = max_failed_logins then ignore_error (f email) else ret ()))
       (\<lambda>_. ret ()))"

definition clear_login_attempts :: "string \<Rightarrow> ('z auth_db_scheme, unit) io" where
  "clear_login_attempts email = ignore_error (db_write (delete_attempt email))"

section \<open>Credentials\<close>

definition get_by_email_global :: "auth_ext \<Rightarrow> string \<Rightarrow> ('z auth_db_scheme, user_row) io" where
  "get_by_email_global x email =
     bind_io (db_read (get_user_by_email x email)) (\<lambda>u.
     case u of None \<Rightarrow> fail (ApiErr ErrNotFound) | Some u \<Rightarrow> ret u)"

definition password_hash_of :: "uuid \<Rightarrow> ('z auth_db_scheme, string) io" where
  "password_hash_of u =
     bind_io (db_read (get_password_hash u)) (\<lambda>h. ret (case h of None \<Rightarrow> [] | Some h \<Rightarrow> h))"

definition invalid_credentials :: go_error where
  "invalid_credentials =
     ApiErr (with_detail (with_message ErrUnauthorized ''Invalid email or password.'') ''invalid credentials'')"

text \<open>The message of the server has an em dash where this has \<open>[0xE2, 0x80, 0x94]\<close>.\<close>

definition account_locked :: go_error where
  "account_locked =
     ApiErr (with_detail (with_message ErrTooManyRequests
       (''Too many failed attempts. Your account is temporarily locked '' @ [CHR 0xE2, CHR 0x80, CHR 0x94] @
        '' please try again later.'')) ''account temporarily locked'')"

definition rehash_on_login :: "auth_ext \<Rightarrow> uuid \<Rightarrow> string \<Rightarrow> string \<Rightarrow> ('z auth_db_scheme, unit) io" where
  "rehash_on_login x user hash plain =
     (if needs_rehash hash then
        ignore_error (bind_io (hash_password (tx_crypto x) plain) (\<lambda>nh.
          bind_io time_now (\<lambda>now. db_write (update_credential_hash nh user now))))
      else ret ())"

definition run_login_hook ::
  "'z auth_db_scheme auth_service \<Rightarrow> user_row \<Rightarrow> ('z auth_db_scheme, user_row \<times> custom_claims) io" where
  "run_login_hook s u =
     (case as_hook s of
        None \<Rightarrow> ret (u, [])
      | Some f \<Rightarrow> bind_io (f (option_nil (us_tenant u)) (us_id u) (us_email u)) (\<lambda>c. ret (u, c)))"

definition verify_user ::
  "'z auth_db_scheme auth_service \<Rightarrow> string \<Rightarrow> string \<Rightarrow> user_row \<Rightarrow>
   ('z auth_db_scheme, user_row \<times> custom_claims) io" where
  "verify_user s email plain u =
     (if us_status u \<noteq> ''active'' \<and> us_status u \<noteq> ''invited'' then
        fail (ApiErr (with_detail ErrForbidden (''account '' @ us_status u)))
      else
        bind_io (password_hash_of (us_id u)) (\<lambda>hash.
        bind_io (if hash = [] then ret False
                 else lift_res (password_verify (tx_crypto (as_ext s)) hash plain)) (\<lambda>ok.
        if \<not> ok then then_io (record_failed_login s email) (fail invalid_credentials)
        else
          then_io (clear_login_attempts email)
          (then_io (rehash_on_login (as_ext s) (us_id u) hash plain)
            (run_login_hook s u)))))"

definition check_password ::
  "'z auth_db_scheme auth_service \<Rightarrow> string \<Rightarrow> string \<Rightarrow> ('z auth_db_scheme, user_row \<times> custom_claims) io" where
  "check_password s raw_email plain =
     (let email = to_lower (tx_crypto (as_ext s)) (trim_space raw_email) in
      bind_io (login_locked_until email) (\<lambda>locked.
      if locked \<noteq> None then fail account_locked
      else
        bind_io (on_error (bind_io (get_by_email_global (as_ext s) raw_email) (\<lambda>u. ret (Some u)))
                   (\<lambda>err. if err = ApiErr ErrNotFound then ret None else fail err)) (\<lambda>found.
        case found of
          None \<Rightarrow> then_io (record_failed_login s email) (fail invalid_credentials)
        | Some u \<Rightarrow> verify_user s email plain u)))"

section \<open>The second factor\<close>

definition mfa_challenge_ttl :: time where
  "mfa_challenge_ttl = minutes 10"

definition create_mfa_challenge ::
  "uuid \<Rightarrow> uuid \<Rightarrow> custom_claims \<Rightarrow> ('z auth_db_scheme, uuid) io" where
  "create_mfa_challenge user tenant claims =
     bind_io time_now (\<lambda>now.
     bind_io uuid_new (\<lambda>i.
     bind_io time_now (\<lambda>created.
     then_io (db_exec (insert_challenge \<lparr>mc_id = i, mc_user = user, mc_tenant = nil_option tenant,
         mc_expires = now + mfa_challenge_ttl, mc_created = created,
         mc_claims = (if claims = [] then None else Some claims)\<rparr>))
     (ret i))))"

definition challenge_error :: "string \<Rightarrow> go_error" where
  "challenge_error d = ApiErr (with_detail (with_message ErrUnauthorized
     ''Your sign-in session expired. Please sign in again.'') d)"

definition wrong_code :: go_error where
  "wrong_code = ApiErr (with_detail (with_message ErrUnauthorized ''Invalid verification code.'') ''invalid mfa code'')"

text \<open>The user, its tenant and the stored claims of a challenge that is met; the deletion may fail unnoticed.\<close>

definition verify_and_consume ::
  "(string \<Rightarrow> uuid option) \<Rightarrow> 'z auth_db_scheme auth_service \<Rightarrow> string \<Rightarrow> string \<Rightarrow>
   ('z auth_db_scheme, uuid \<times> uuid \<times> custom_claims) io" where
  "verify_and_consume pu s mfa_token code =
     (case as_mfa s of
        None \<Rightarrow> fail (ApiErr ErrNotImplemented)
      | Some m \<Rightarrow>
        (case pu mfa_token of
           None \<Rightarrow> fail (ApiErr (with_detail ErrBadRequest ''invalid mfa_token''))
         | Some i \<Rightarrow>
             bind_io (db_read (find_challenge i)) (\<lambda>found.
             case found of
               None \<Rightarrow> fail (challenge_error ''mfa challenge not found'')
             | Some c \<Rightarrow>
                 bind_io time_now (\<lambda>now.
                 if now > mc_expires c then
                   then_io (ignore_error (db_write (delete_challenge i)))
                     (fail (challenge_error ''mfa challenge expired''))
                 else
                   bind_io (me_verify m (mc_user c) code) (\<lambda>ok.
                   if \<not> ok then fail wrong_code
                   else then_io (ignore_error (db_write (delete_challenge i)))
                     (ret (mc_user c, option_nil (mc_tenant c),
                       (case Option.bind (mc_claims c) (tx_claims (as_ext s)) of None \<Rightarrow> [] | Some k \<Rightarrow> k))))))))"

text \<open>A login that is complete, or that waits for its second factor.\<close>

datatype login_result = Signed_in token_pair | Mfa_required uuid

definition login_result_of ::
  "'z auth_db_scheme auth_service \<Rightarrow> string \<Rightarrow> string \<Rightarrow> user_row \<Rightarrow> custom_claims \<Rightarrow> bool \<Rightarrow>
   ('z auth_db_scheme, login_result) io" where
  "login_result_of s ip ua u claims enrolled =
     (if enrolled then
        bind_io (create_mfa_challenge (us_id u) (option_nil (us_tenant u)) claims) (\<lambda>i. ret (Mfa_required i))
      else
        bind_io (issue_pair s (us_id u) (option_nil (us_tenant u)) ip ua ''password'' claims) (\<lambda>p. ret (Signed_in p)))"

definition mfa_enrolled :: "'z auth_db_scheme auth_service \<Rightarrow> uuid \<Rightarrow> ('z auth_db_scheme, bool) io" where
  "mfa_enrolled s u = (case as_mfa s of None \<Rightarrow> ret False | Some m \<Rightarrow> me_enrolled m u)"

definition login ::
  "'z auth_db_scheme auth_service \<Rightarrow> string \<Rightarrow> string \<Rightarrow> string \<Rightarrow> string \<Rightarrow> ('z auth_db_scheme, login_result) io" where
  "login s email plain ip ua =
     bind_io (check_password s email plain) (\<lambda>(u, claims).
     bind_io (mfa_enrolled s (us_id u)) (login_result_of s ip ua u claims))"

definition complete_mfa_login ::
  "(string \<Rightarrow> uuid option) \<Rightarrow> 'z auth_db_scheme auth_service \<Rightarrow> string \<Rightarrow> string \<Rightarrow> string \<Rightarrow> string \<Rightarrow>
   ('z auth_db_scheme, token_pair) io" where
  "complete_mfa_login pu s mfa_token code ip ua =
     bind_io (verify_and_consume pu s mfa_token code) (\<lambda>(user, tenant, claims).
       issue_pair s user tenant ip ua ''password_mfa'' claims)"

section \<open>Hosted sessions\<close>

definition login_session_ttl :: time where
  "login_session_ttl = minutes 30"

definition create_login_session ::
  "auth_ext \<Rightarrow> uuid \<Rightarrow> string \<Rightarrow> string \<Rightarrow> ('z auth_db_scheme, string) io" where
  "create_login_session x user ip ua =
     bind_io (new_refresh_token (tx_crypto x)) (\<lambda>(raw, hash).
     bind_io time_now (\<lambda>now.
     bind_io time_now (\<lambda>created.
     then_io (db_exec (insert_login_session x ip \<lparr>ls_hash = hash, ls_user = user, ls_created = created,
         ls_expires = now + login_session_ttl, ls_ip = None, ls_agent = ua\<rparr>))
     (ret raw))))"

definition resolve_login_session :: "auth_ext \<Rightarrow> string \<Rightarrow> ('z auth_db_scheme, uuid) io" where
  "resolve_login_session x raw =
     (if raw = [] then fail (ApiErr ErrUnauthorized)
      else
        bind_io (db_read (find_login_session (hash_refresh (tx_crypto x) raw))) (\<lambda>row.
        case row of
          None \<Rightarrow> fail (ApiErr ErrUnauthorized)
        | Some r \<Rightarrow> bind_io time_now (\<lambda>now.
            if now > ls_expires r then fail (ApiErr ErrUnauthorized) else ret (ls_user r))))"

definition revoke_login_session :: "auth_ext \<Rightarrow> string \<Rightarrow> ('z auth_db_scheme, unit) io" where
  "revoke_login_session x raw =
     (if raw = [] then ret () else db_write (delete_login_session (hash_refresh (tx_crypto x) raw)))"

definition complete_mfa_login_session ::
  "(string \<Rightarrow> uuid option) \<Rightarrow> 'z auth_db_scheme auth_service \<Rightarrow> string \<Rightarrow> string \<Rightarrow> string \<Rightarrow> string \<Rightarrow>
   ('z auth_db_scheme, uuid \<times> uuid \<times> string) io" where
  "complete_mfa_login_session pu s mfa_token code ip ua =
     bind_io (verify_and_consume pu s mfa_token code) (\<lambda>(user, tenant, _).
     bind_io (create_login_session (as_ext s) user ip ua) (\<lambda>raw. ret (user, tenant, raw)))"

section \<open>Trusted devices\<close>

definition trusted_device_ttl :: time where
  "trusted_device_ttl = minutes (30 * 24 * 60)"

definition create_trusted_device ::
  "auth_ext \<Rightarrow> uuid \<Rightarrow> uuid \<Rightarrow> string \<Rightarrow> ('z auth_db_scheme, string) io" where
  "create_trusted_device x user tenant label =
     bind_io (new_refresh_token (tx_crypto x)) (\<lambda>(raw, hash).
     bind_io time_now (\<lambda>now.
     bind_io uuid_new (\<lambda>i.
     bind_io time_now (\<lambda>created.
     then_io (db_exec (insert_device \<lparr>td_id = i, td_user = user, td_tenant = nil_option tenant, td_hash = hash,
         td_label = label, td_expires = now + trusted_device_ttl, td_created = created, td_used = None\<rparr>))
     (ret raw)))))"

definition is_trusted_device :: "auth_ext \<Rightarrow> uuid \<Rightarrow> string \<Rightarrow> ('z auth_db_scheme, bool) io" where
  "is_trusted_device x user raw =
     (if raw = [] then ret False
      else
        bind_io time_now (\<lambda>now.
        on_error (bind_io (db_call (\<lambda>w. let (n, w') = touch_device (hash_refresh (tx_crypto x) raw) user now w in (Inr n, w')))
            (\<lambda>n. ret (n > 0)))
          (\<lambda>_. ret False)))"

definition maybe_remember_device ::
  "'z auth_db_scheme auth_service \<Rightarrow> uuid \<Rightarrow> uuid \<Rightarrow> string \<Rightarrow> ('z auth_db_scheme, string) io" where
  "maybe_remember_device s user tenant label =
     (case as_devices s of
        None \<Rightarrow> ret []
      | Some enabled \<Rightarrow>
          if tenant = 0 then ret []
          else bind_io (enabled tenant) (\<lambda>ok.
            if \<not> ok then ret [] else create_trusted_device (as_ext s) user tenant label))"

definition device_trusted ::
  "'z auth_db_scheme auth_service \<Rightarrow> uuid \<Rightarrow> uuid \<Rightarrow> string \<Rightarrow> string \<Rightarrow> string \<Rightarrow> string \<Rightarrow>
   ('z auth_db_scheme, bool) io" where
  "device_trusted s user tenant token ip ua country =
     (case as_devices s of
        None \<Rightarrow> ret False
      | Some enabled \<Rightarrow>
          if token = [] then ret False
          else
            bind_io (on_error (enabled tenant) (\<lambda>_. ret False)) (\<lambda>ok.
            if \<not> ok then ret False
            else
              bind_io (case as_risk s of None \<Rightarrow> ret False | Some f \<Rightarrow> f tenant user ip ua country) (\<lambda>forced.
              if forced then ret False else is_trusted_device (as_ext s) user token)))"

datatype session_result = Session_opened uuid string | Session_mfa uuid

definition begin_login_session ::
  "'z auth_db_scheme auth_service \<Rightarrow> string \<Rightarrow> string \<Rightarrow> string \<Rightarrow> string \<Rightarrow> string \<Rightarrow> string \<Rightarrow>
   ('z auth_db_scheme, session_result) io" where
  "begin_login_session s email plain ip ua token country =
     bind_io (check_password s email plain) (\<lambda>(u, _).
     bind_io (mfa_enrolled s (us_id u)) (\<lambda>enrolled.
     bind_io (if enrolled then device_trusted s (us_id u) (option_nil (us_tenant u)) token ip ua country
              else ret True) (\<lambda>pass.
     if pass then
       bind_io (create_login_session (as_ext s) (us_id u) ip ua) (\<lambda>raw. ret (Session_opened (us_id u) raw))
     else
       bind_io (create_mfa_challenge (us_id u) (option_nil (us_tenant u)) []) (\<lambda>i. ret (Session_mfa i)))))"

section \<open>Sign-up and registration\<close>

text \<open>The user and its credential, in the caller's transaction.\<close>

definition create_identity ::
  "auth_ext \<Rightarrow> uuid option \<Rightarrow> string \<Rightarrow> string \<Rightarrow> string \<Rightarrow> ('z auth_db_scheme, user_row) io" where
  "create_identity x tenant email display hash =
     bind_io uuid_new (\<lambda>i.
     bind_io time_now (\<lambda>now.
       let u = new_user_row i tenant (trim_space email) (if display = [] then None else Some display) now in
       then_io (on_error (db_exec (insert_user x u))
           (\<lambda>err. if is_unique err then fail (ApiErr (with_detail ErrConflict ''email already exists'')) else fail err))
       (bind_io time_now (\<lambda>now2.
        then_io (db_exec (insert_credential \<lparr>cd_user = i, cd_hash = hash, cd_updated = now2\<rparr>)) (ret u)))))"

definition pwned :: "'z auth_db_scheme auth_service \<Rightarrow> string \<Rightarrow> ('z auth_db_scheme, bool) io" where
  "pwned s plain = (case as_breach s of None \<Rightarrow> ret False | Some f \<Rightarrow> on_error (f plain) (\<lambda>_. ret False))"

definition strong_password :: "auth_ext \<Rightarrow> string \<Rightarrow> string \<Rightarrow> ('w, unit) io" where
  "strong_password x plain email =
     (let reason = weak_reason (tx_crypto x) plain email in
      if reason \<noteq> [] then fail (ApiErr (with_message ErrUnprocessable reason)) else ret ())"

definition signup ::
  "'z auth_db_scheme auth_service \<Rightarrow> string \<Rightarrow> string \<Rightarrow> string \<Rightarrow> string \<Rightarrow> string \<Rightarrow>
   ('z auth_db_scheme, token_pair \<times> user_row) io" where
  "signup s email plain display ip ua =
     then_io (strong_password (as_ext s) plain email)
     (bind_io (pwned s plain) (\<lambda>breached.
      if breached then fail (ApiErr (with_message ErrUnprocessable
        ''This password has appeared in known data breaches. Choose a different one.''))
      else
        bind_io (hash_password (tx_crypto (as_ext s)) plain) (\<lambda>hash.
        in_tx (bind_io (create_identity (as_ext s) None email display hash) (\<lambda>u.
               bind_io (open_session s (us_id u) None ip ua []) (\<lambda>p. ret (p, u)))))))"

definition register_in_tenant ::
  "'z auth_db_scheme auth_service \<Rightarrow> uuid \<Rightarrow> string \<Rightarrow> string \<Rightarrow> string \<Rightarrow> string \<Rightarrow> string \<Rightarrow>
   ('z auth_db_scheme, user_row \<times> string) io" where
  "register_in_tenant s tenant email plain display ip ua =
     (case as_registration s of
        None \<Rightarrow> fail (ApiErr ErrNotImplemented)
      | Some g \<Rightarrow>
          bind_io (rg_enabled g tenant) (\<lambda>enabled.
          if \<not> enabled then fail (ApiErr (with_detail (with_message ErrForbidden
              ''Self-registration is not enabled for this application.'') ''self-registration disabled''))
          else
            then_io (strong_password (as_ext s) plain email)
            (then_io (rg_validate g tenant plain)
             (bind_io (hash_password (tx_crypto (as_ext s)) plain) (\<lambda>hash.
              bind_io (in_tx (create_identity (as_ext s) (Some tenant) email display hash)) (\<lambda>u.
              bind_io (create_login_session (as_ext s) (us_id u) ip ua) (\<lambda>raw. ret (u, raw))))))))"

definition self_registration_enabled :: "'z auth_db_scheme auth_service \<Rightarrow> uuid \<Rightarrow> ('z auth_db_scheme, bool) io" where
  "self_registration_enabled s tenant = (case as_registration s of None \<Rightarrow> ret False | Some g \<Rightarrow> rg_enabled g tenant)"

end
