(* ===== verification/AuthHttp.thy ===== *)
theory AuthHttp imports AuthLogin RbacHttp begin

text \<open>
  The handlers of \<^verbatim>\<open>internal/access/authentication/http.go\<close> with the cookies they set
  (\<^verbatim>\<open>loginsession.go\<close>, \<^verbatim>\<open>trusteddevice.go\<close>). A body arrives decoded, or as the error of the decoder; the struct
  validator is the argument \<open>valid\<close>, the value of a request cookie the argument \<open>cookie\<close>, as \<^verbatim>\<open>net/http\<close> parses it.
  The floor on the duration of a sign-up is not modelled.
\<close>

section \<open>Cookies and answers\<close>

record set_cookie =
  sc_name :: string
  sc_value :: string
  sc_secure :: bool
  sc_max_age :: int \<comment> \<open>seconds; negative deletes\<close>

definition login_session_cookie :: string where
  "login_session_cookie = ''qe_ls''"

definition trusted_device_cookie :: string where
  "trusted_device_cookie = ''qe_td''"

definition set_login_session_cookie :: "string \<Rightarrow> bool \<Rightarrow> set_cookie" where
  "set_login_session_cookie raw secure = \<lparr>sc_name = login_session_cookie, sc_value = raw, sc_secure = secure,
     sc_max_age = login_session_ttl div 1000000\<rparr>"

definition clear_login_session_cookie :: "bool \<Rightarrow> set_cookie" where
  "clear_login_session_cookie secure = \<lparr>sc_name = login_session_cookie, sc_value = [], sc_secure = secure, sc_max_age = - 1\<rparr>"

definition set_trusted_device_cookie :: "string \<Rightarrow> bool \<Rightarrow> set_cookie" where
  "set_trusted_device_cookie raw secure = \<lparr>sc_name = trusted_device_cookie, sc_value = raw, sc_secure = secure,
     sc_max_age = trusted_device_ttl div 1000000\<rparr>"

datatype auth_body =
    AuthNone
  | AuthPair token_pair
  | AuthSignedUp user_row token_pair
  | AuthChallenge uuid "string list"
  | AuthUser uuid
  | AuthMessage string
  | AuthSessions "session_row list"
  | AuthMe principal

type_synonym 'z auth_reply = "('z auth_db_scheme, nat \<times> set_cookie list \<times> auth_body) io"

record 'w auth_handler =
  ah_service :: "'w auth_service"
  ah_cookie_secure :: bool
  ah_bot :: "(string \<Rightarrow> string \<Rightarrow> string \<Rightarrow> ('w, unit) io) option"
  ah_geo_header :: string

definition validated :: "('a \<Rightarrow> go_error option) \<Rightarrow> go_error + 'a \<Rightarrow> go_error + 'a" where
  "validated valid body = (case body of Inl err \<Rightarrow> Inl err
     | Inr a \<Rightarrow> (case valid a of Some err \<Rightarrow> Inl err | None \<Rightarrow> Inr a))"

definition user_agent :: "request \<Rightarrow> string" where
  "user_agent r = header_get r ''User-Agent''"

definition eval_bot :: "'w auth_handler \<Rightarrow> request \<Rightarrow> string \<Rightarrow> ('w, unit) io" where
  "eval_bot h r email = (case ah_bot h of None \<Rightarrow> ret ()
     | Some f \<Rightarrow> ignore_error (f email (client_ip r) (user_agent r)))"

definition geo_country :: "'w auth_handler \<Rightarrow> request \<Rightarrow> string" where
  "geo_country h r = (if ah_geo_header h = [] then [] else header_get r (ah_geo_header h))"

definition mfa_methods :: "string list" where
  "mfa_methods = [''totp'', ''recovery_code'']"

text \<open>A conflict is answered like any other refusal of the input.\<close>

definition neutral_conflict :: "go_error \<Rightarrow> go_error" where
  "neutral_conflict err =
     (case errs_as err of
        None \<Rightarrow> err
      | Some a \<Rightarrow> if err_code a = err_code ErrConflict then ApiErr (with_message ErrUnprocessable
          (''We couldn'' @ [CHR 0x27] @ ''t complete your signup. If you already have an account, try signing in or resetting your password.''))
        else err)"

section \<open>Handlers\<close>

definition signup_handler ::
  "'z auth_db_scheme auth_handler \<Rightarrow> (string \<times> string \<times> string \<Rightarrow> go_error option) \<Rightarrow> request \<Rightarrow>
   go_error + string \<times> string \<times> string \<Rightarrow> 'z auth_reply" where
  "signup_handler h valid r body =
     bind_io (lift_res (validated valid body)) (\<lambda>(email, plain, display).
     bind_io (on_error (signup (ah_service h) email plain display (client_ip r) (user_agent r))
                (\<lambda>err. fail (neutral_conflict err))) (\<lambda>(p, u).
       ret (201, [], AuthSignedUp u p)))"

definition login_handler ::
  "'z auth_db_scheme auth_handler \<Rightarrow> (string \<times> string \<Rightarrow> go_error option) \<Rightarrow> request \<Rightarrow>
   go_error + string \<times> string \<Rightarrow> 'z auth_reply" where
  "login_handler h valid r body =
     bind_io (lift_res (validated valid body)) (\<lambda>(email, plain).
     then_io (eval_bot h r email)
     (bind_io (login (ah_service h) email plain (client_ip r) (user_agent r)) (\<lambda>res.
      case res of
        Mfa_required i \<Rightarrow> ret (200, [], AuthChallenge i mfa_methods)
      | Signed_in p \<Rightarrow> ret (200, [], AuthPair p))))"

definition mfa_login_handler ::
  "'z auth_db_scheme auth_handler \<Rightarrow> (string \<Rightarrow> uuid option) \<Rightarrow> (string \<times> string \<times> bool \<Rightarrow> go_error option) \<Rightarrow>
   request \<Rightarrow> go_error + string \<times> string \<times> bool \<Rightarrow> 'z auth_reply" where
  "mfa_login_handler h pu valid r body =
     bind_io (lift_res (validated valid body)) (\<lambda>(tok, code, _).
     bind_io (complete_mfa_login pu (ah_service h) tok code (client_ip r) (user_agent r)) (\<lambda>p.
       ret (200, [], AuthPair p)))"

definition create_session_handler ::
  "'z auth_db_scheme auth_handler \<Rightarrow> (request \<Rightarrow> string \<Rightarrow> string option) \<Rightarrow> (string \<times> string \<Rightarrow> go_error option) \<Rightarrow>
   request \<Rightarrow> go_error + string \<times> string \<Rightarrow> 'z auth_reply" where
  "create_session_handler h cookie valid r body =
     bind_io (lift_res (validated valid body)) (\<lambda>(email, plain).
     then_io (eval_bot h r email)
     (let trusted = (case cookie r trusted_device_cookie of None \<Rightarrow> [] | Some v \<Rightarrow> v) in
      bind_io (begin_login_session (ah_service h) email plain (client_ip r) (user_agent r) trusted (geo_country h r)) (\<lambda>res.
      case res of
        Session_mfa i \<Rightarrow> ret (200, [], AuthChallenge i mfa_methods)
      | Session_opened u raw \<Rightarrow> ret (200, [set_login_session_cookie raw (ah_cookie_secure h)], AuthUser u))))"

definition create_session_mfa_handler ::
  "'z auth_db_scheme auth_handler \<Rightarrow> (string \<Rightarrow> uuid option) \<Rightarrow> (string \<times> string \<times> bool \<Rightarrow> go_error option) \<Rightarrow>
   request \<Rightarrow> go_error + string \<times> string \<times> bool \<Rightarrow> 'z auth_reply" where
  "create_session_mfa_handler h pu valid r body =
     bind_io (lift_res (validated valid body)) (\<lambda>(tok, code, remember).
     bind_io (complete_mfa_login_session pu (ah_service h) tok code (client_ip r) (user_agent r)) (\<lambda>(user, tenant, raw).
     bind_io (if remember
              then on_error (maybe_remember_device (ah_service h) user tenant (user_agent r)) (\<lambda>_. ret [])
              else ret []) (\<lambda>draw.
       ret (200, set_login_session_cookie raw (ah_cookie_secure h) #
              (if draw \<noteq> [] then [set_trusted_device_cookie draw (ah_cookie_secure h)] else []), AuthUser user))))"

definition register_handler ::
  "'z auth_db_scheme auth_handler \<Rightarrow> (uuid \<times> string \<times> string \<times> string \<Rightarrow> go_error option) \<Rightarrow> request \<Rightarrow>
   go_error + uuid \<times> string \<times> string \<times> string \<Rightarrow> 'z auth_reply" where
  "register_handler h valid r body =
     bind_io (lift_res (validated valid body)) (\<lambda>(tenant, email, plain, display).
     bind_io (on_error (register_in_tenant (ah_service h) tenant email plain display (client_ip r) (user_agent r))
                (\<lambda>err. fail (neutral_conflict err))) (\<lambda>(u, raw).
       ret (201, [set_login_session_cookie raw (ah_cookie_secure h)], AuthUser (us_id u))))"

definition destroy_session_handler ::
  "'z auth_db_scheme auth_handler \<Rightarrow> (request \<Rightarrow> string \<Rightarrow> string option) \<Rightarrow> request \<Rightarrow> 'z auth_reply" where
  "destroy_session_handler h cookie r =
     then_io (case cookie r login_session_cookie of
                None \<Rightarrow> ret ()
              | Some raw \<Rightarrow> ignore_error (revoke_login_session (as_ext (ah_service h)) raw))
       (ret (204, [clear_login_session_cookie (ah_cookie_secure h)], AuthNone))"

definition refresh_handler ::
  "'z auth_db_scheme auth_handler \<Rightarrow> (string \<Rightarrow> go_error option) \<Rightarrow> request \<Rightarrow> go_error + string \<Rightarrow> 'z auth_reply" where
  "refresh_handler h valid r body =
     bind_io (lift_res (validated valid body)) (\<lambda>tok.
     bind_io (refresh (ah_service h) \<lparr>ri_token = tok, ri_ip = client_ip r, ri_agent = user_agent r, ri_request = rq_id r\<rparr>)
       (\<lambda>p. ret (200, [], AuthPair p)))"

definition logout_handler :: "'z auth_db_scheme auth_handler \<Rightarrow> request \<Rightarrow> 'z auth_reply" where
  "logout_handler h r =
     (case Option.bind (rq_principal r) p_session_id of
        None \<Rightarrow> fail (ApiErr ErrUnauthorized)
      | Some sid \<Rightarrow> then_io (logout (ah_service h) sid)
          (ret (200, [], AuthMessage (''You'' @ [CHR 0x27] @ ''ve been signed out.''))))"

definition switch_tenant_handler ::
  "'z auth_db_scheme auth_handler \<Rightarrow> (string \<Rightarrow> uuid option) \<Rightarrow> (string \<Rightarrow> go_error option) \<Rightarrow> request \<Rightarrow>
   go_error + string \<Rightarrow> 'z auth_reply" where
  "switch_tenant_handler h pu valid r body =
     bind_io (lift_res (require_user r)) (\<lambda>user.
     bind_io (lift_res (validated valid body)) (\<lambda>tid.
     case pu tid of
       None \<Rightarrow> fail (ApiErr (with_detail ErrBadRequest ''invalid tenant_id''))
     | Some tenant \<Rightarrow>
         bind_io (switch_tenant (ah_service h) user tenant (client_ip r) (user_agent r)) (\<lambda>p.
           ret (200, [], AuthPair (p\<lparr>tp_tenant := Some tenant\<rparr>)))))"

definition list_sessions_handler :: "request \<Rightarrow> 'z auth_reply" where
  "list_sessions_handler r =
     bind_io (lift_res (require_user r)) (\<lambda>user.
     bind_io (list_sessions user) (\<lambda>rows. ret (200, [], AuthSessions rows)))"

definition revoke_session_handler ::
  "'z auth_db_scheme auth_handler \<Rightarrow> (string \<Rightarrow> uuid option) \<Rightarrow> request \<Rightarrow> 'z auth_reply" where
  "revoke_session_handler h pu r =
     bind_io (lift_res (uuid_param pu r ''id'')) (\<lambda>i.
     then_io (logout (ah_service h) i) (ret (200, [], AuthMessage ''Session revoked.'')))"

definition me_handler :: "request \<Rightarrow> 'z auth_reply" where
  "me_handler r = (case rq_principal r of None \<Rightarrow> fail (ApiErr ErrUnauthorized) | Some p \<Rightarrow> ret (200, [], AuthMe p))"

end
