(* ===== verification/AuthFamilies.thy ===== *)
theory AuthFamilies imports AuthLogin begin

text \<open>
  The abstract view of sessions: a session is a family of refresh tokens with at most one live token and a set of
  spent ones, and it is revoked or not. Below the view, the invariant of the two tables that makes it one; and
  what the three changes of the tables (a session opened, a token rotated, a session revoked) are on it.
\<close>

section \<open>Finding rows\<close>

lemma find_append: "List.find P (xs @ ys) = (case List.find P xs of None \<Rightarrow> List.find P ys | Some x \<Rightarrow> Some x)"
  by (induction xs) auto

lemma find_map: "List.find P (map f xs) = map_option f (List.find (P \<circ> f) xs)"
  by (induction xs) auto

lemma find_congruent: "(\<And>x. x \<in> set xs \<Longrightarrow> P x = Q x) \<Longrightarrow> List.find P xs = List.find Q xs"
  by (induction xs) auto

lemma find_mem: "List.find P xs = Some x \<Longrightarrow> x \<in> set xs" and find_holds: "List.find P xs = Some x \<Longrightarrow> P x"
  by (induction xs) (auto split: if_splits)

lemma find_None_all: "List.find P xs = None \<longleftrightarrow> (\<forall>x \<in> set xs. \<not> P x)"
  by (induction xs) auto

lemma find_self: "x \<in> set xs \<Longrightarrow> List.find (\<lambda>y. y = x) xs = Some x"
  by (induction xs) auto

lemma find_unique:
  assumes "distinct (map f xs)" and "x \<in> set xs"
  shows "List.find (\<lambda>y. f y = f x) xs = Some x"
  using assms by (induction xs) (auto simp: image_iff)

section \<open>The invariant\<close>

definition live_tokens_unique :: "refresh_row list \<Rightarrow> bool" where
  "live_tokens_unique rows \<longleftrightarrow> (\<forall>t \<in> set rows. \<forall>u \<in> set rows.
     rf_used t = None \<and> rf_used u = None \<and> rf_session t = rf_session u \<longrightarrow> t = u)"

definition sessions_ok :: "'z auth_db_scheme \<Rightarrow> bool" where
  "sessions_ok w \<longleftrightarrow> distinct (map ss_id (session_rows w)) \<and> distinct (map rf_id (refresh_rows w)) \<and>
     distinct (map rf_hash (refresh_rows w)) \<and>
     (\<forall>t \<in> set (refresh_rows w). rf_session t \<in> ss_id ` set (session_rows w)) \<and>
     live_tokens_unique (refresh_rows w)"

definition same_sessions :: "'z auth_db_scheme \<Rightarrow> 'y auth_db_scheme \<Rightarrow> bool" where
  "same_sessions w w' \<longleftrightarrow> session_rows w' = session_rows w \<and> refresh_rows w' = refresh_rows w"

lemma same_sessions_ok: "same_sessions w w' \<Longrightarrow> sessions_ok w' = sessions_ok w"
  by (simp add: same_sessions_def sessions_ok_def)

section \<open>Families\<close>

record family =
  fm_user :: uuid
  fm_tenant :: "uuid option"
  fm_revoked :: bool
  fm_live :: "string option"
  fm_spent :: "string set"

definition live_token :: "uuid \<Rightarrow> refresh_row list \<Rightarrow> string option" where
  "live_token i rows = map_option rf_hash (List.find (\<lambda>t. rf_session t = i \<and> rf_used t = None) rows)"

definition spent_tokens :: "uuid \<Rightarrow> refresh_row list \<Rightarrow> string set" where
  "spent_tokens i rows = rf_hash ` {t \<in> set rows. rf_session t = i \<and> rf_used t \<noteq> None}"

definition family_of :: "refresh_row list \<Rightarrow> session_row \<Rightarrow> family" where
  "family_of rows s = \<lparr>fm_user = ss_user s, fm_tenant = ss_tenant s, fm_revoked = (ss_revoked s \<noteq> None),
     fm_live = live_token (ss_id s) rows, fm_spent = spent_tokens (ss_id s) rows\<rparr>"

definition find_session :: "uuid \<Rightarrow> 'z auth_db_scheme \<Rightarrow> session_row option" where
  "find_session i w = List.find (\<lambda>s. ss_id s = i) (session_rows w)"

lemma find_session_id: "find_session i w = Some s \<Longrightarrow> ss_id s = i"
  unfolding find_session_def by (drule find_holds)

definition families :: "'z auth_db_scheme \<Rightarrow> uuid \<rightharpoonup> family" where
  "families w i = map_option (family_of (refresh_rows w)) (find_session i w)"

text \<open>The abstract steps.\<close>

inductive family_step :: "(uuid \<rightharpoonup> family) \<Rightarrow> (uuid \<rightharpoonup> family) \<Rightarrow> bool" where
  stutter: "family_step F F"
| opened: "F i = None \<Longrightarrow> (\<forall>j f. F j = Some f \<longrightarrow> fm_live f \<noteq> Some h \<and> h \<notin> fm_spent f) \<Longrightarrow>
    family_step F (F(i \<mapsto> \<lparr>fm_user = u, fm_tenant = t, fm_revoked = False, fm_live = Some h, fm_spent = {}\<rparr>))"
| rotated: "F i = Some f \<Longrightarrow> \<not> fm_revoked f \<Longrightarrow> fm_live f = Some h \<Longrightarrow>
    (\<forall>j f. F j = Some f \<longrightarrow> fm_live f \<noteq> Some h' \<and> h' \<notin> fm_spent f) \<Longrightarrow>
    family_step F (F(i \<mapsto> f\<lparr>fm_live := Some h', fm_spent := insert h (fm_spent f)\<rparr>))"
| revoked: "F i = Some f \<Longrightarrow> \<not> fm_revoked f \<Longrightarrow> family_step F (F(i \<mapsto> f\<lparr>fm_revoked := True\<rparr>))"

section \<open>The changes of the tables\<close>

definition new_token :: "uuid \<Rightarrow> uuid \<Rightarrow> string \<Rightarrow> time \<Rightarrow> time \<Rightarrow> refresh_row" where
  "new_token i session hash issued expires = \<lparr>rf_id = i, rf_session = session, rf_hash = hash, rf_issued = issued,
     rf_expires = expires, rf_used = None, rf_replaced = None\<rparr>"

definition with_session :: "session_row \<Rightarrow> refresh_row \<Rightarrow> 'z auth_db_scheme \<Rightarrow> 'z auth_db_scheme" where
  "with_session s t w = w\<lparr>session_rows := session_rows w @ [s], refresh_rows := refresh_rows w @ [t]\<rparr>"

definition session_addable :: "session_row \<Rightarrow> refresh_row \<Rightarrow> 'z auth_db_scheme \<Rightarrow> bool" where
  "session_addable s t w \<longleftrightarrow> ss_id s \<notin> ss_id ` set (session_rows w) \<and> rf_id t \<notin> rf_id ` set (refresh_rows w) \<and>
     rf_hash t \<notin> rf_hash ` set (refresh_rows w) \<and> rf_session t = ss_id s \<and> rf_used t = None \<and> ss_revoked s = None"

lemma with_session_ok:
  assumes "sessions_ok w" and "session_addable s t w"
  shows "sessions_ok (with_session s t w)"
proof -
  have "rf_session q \<noteq> ss_id s" if "q \<in> set (refresh_rows w)" for q
    using assms that unfolding sessions_ok_def session_addable_def by metis
  then have "live_tokens_unique (refresh_rows w @ [t])"
    using assms by (auto simp: sessions_ok_def session_addable_def live_tokens_unique_def)
  with assms show ?thesis by (auto simp: sessions_ok_def with_session_def session_addable_def)
qed

lemma token_hash_known:
  assumes "families w j = Some f" and "h \<notin> rf_hash ` set (refresh_rows w)"
  shows "fm_live f \<noteq> Some h \<and> h \<notin> fm_spent f"
proof -
  from assms(1) obtain s where f: "f = family_of (refresh_rows w) s" by (auto simp: families_def)
  have "fm_live f \<noteq> Some h"
    using assms(2) find_mem [of _ "refresh_rows w"] by (fastforce simp: f family_of_def live_token_def)
  moreover have "h \<notin> fm_spent f" using assms(2) by (auto simp: f family_of_def spent_tokens_def)
  ultimately show ?thesis ..
qed

lemma with_session_families:
  assumes "sessions_ok w" and "session_addable s t w"
  shows "families (with_session s t w) = (families w)(ss_id s \<mapsto> \<lparr>fm_user = ss_user s, fm_tenant = ss_tenant s,
     fm_revoked = False, fm_live = Some (rf_hash t), fm_spent = {}\<rparr>)" and "families w (ss_id s) = None"
proof -
  have n: "find_session (ss_id s) w = None" unfolding find_session_def find_None_all
    using assms(2) unfolding session_addable_def by (metis image_eqI)
  then show "families w (ss_id s) = None" by (simp add: families_def)
  have r: "\<forall>q \<in> set (refresh_rows w). rf_session q \<noteq> ss_id s" using assms unfolding sessions_ok_def session_addable_def by metis
  show "families (with_session s t w) = (families w)(ss_id s \<mapsto> \<lparr>fm_user = ss_user s, fm_tenant = ss_tenant s,
     fm_revoked = False, fm_live = Some (rf_hash t), fm_spent = {}\<rparr>)"
  proof
    fix i
    show "families (with_session s t w) i = ((families w)(ss_id s \<mapsto> \<lparr>fm_user = ss_user s, fm_tenant = ss_tenant s,
       fm_revoked = False, fm_live = Some (rf_hash t), fm_spent = {}\<rparr>)) i"
    proof (cases "i = ss_id s")
      case True
      have "List.find (\<lambda>t. rf_session t = ss_id s \<and> rf_used t = None) (refresh_rows w) = None"
        using r by (simp add: find_None_all)
      moreover have "spent_tokens (ss_id s) (refresh_rows w @ [t]) = {}"
        using r assms(2) by (auto simp: spent_tokens_def session_addable_def)
      ultimately show ?thesis using True n assms(2)
        by (simp add: families_def find_session_def with_session_def find_append family_of_def live_token_def
            session_addable_def)
    next
      case False
      have "live_token i (refresh_rows w @ [t]) = live_token i (refresh_rows w)"
        "spent_tokens i (refresh_rows w @ [t]) = spent_tokens i (refresh_rows w)"
        using False assms(2)
        by (auto simp: live_token_def spent_tokens_def find_append session_addable_def split: option.splits)
      moreover have "find_session i (with_session s t w) = find_session i w"
        using False by (simp add: find_session_def with_session_def find_append split: option.splits)
      ultimately show ?thesis using False
        by (cases "find_session i w")
          (auto simp: families_def family_of_def with_session_def find_session_def dest: find_holds)
    qed
  qed
qed

text \<open>A rotation: the old token used, its successor stored, the session seen.\<close>

definition with_rotation :: "refresh_row \<Rightarrow> time \<Rightarrow> refresh_row \<Rightarrow> time \<Rightarrow> 'z auth_db_scheme \<Rightarrow> 'z auth_db_scheme" where
  "with_rotation t used n seen w = touch_session (rf_session t) seen
     (mark_refresh_used (rf_id n) (rf_id t) used (w\<lparr>refresh_rows := refresh_rows w @ [n]\<rparr>))"

definition rotatable :: "refresh_row \<Rightarrow> session_row \<Rightarrow> refresh_row \<Rightarrow> 'z auth_db_scheme \<Rightarrow> bool" where
  "rotatable t s n w \<longleftrightarrow> t \<in> set (refresh_rows w) \<and> rf_used t = None \<and> find_session (rf_session t) w = Some s \<and>
     ss_revoked s = None \<and> rf_id n \<notin> rf_id ` set (refresh_rows w) \<and> rf_hash n \<notin> rf_hash ` set (refresh_rows w) \<and>
     rf_session n = rf_session t \<and> rf_used n = None"

text \<open>The tokens after the rotation, without the ids: exactly \<open>t\<close> changed.\<close>

definition spend :: "refresh_row \<Rightarrow> time \<Rightarrow> uuid \<Rightarrow> refresh_row \<Rightarrow> refresh_row" where
  "spend t used i q = (if q = t then t\<lparr>rf_used := Some used, rf_replaced := Some i\<rparr> else q)"

lemma spend_simps [simp]:
  "rf_id (spend t used i q) = rf_id q" "rf_hash (spend t used i q) = rf_hash q"
  "rf_session (spend t used i q) = rf_session q" "rf_used (spend t used i q) = None \<longleftrightarrow> q \<noteq> t \<and> rf_used q = None"
  by (simp_all add: spend_def)

lemma with_rotation_tables:
  assumes "sessions_ok w" and "rotatable t s n w"
  shows "refresh_rows (with_rotation t used n seen w) = map (spend t used (rf_id n)) (refresh_rows w) @ [n]"
    and "session_rows (with_rotation t used n seen w) =
      map (\<lambda>s. if ss_id s = rf_session t then s\<lparr>ss_seen := seen\<rparr> else s) (session_rows w)"
proof -
  have d: "distinct (map rf_id (refresh_rows w))" "t \<in> set (refresh_rows w)" "rf_id n \<notin> rf_id ` set (refresh_rows w)"
    using assms by (simp_all add: sessions_ok_def rotatable_def)
  have "rf_id q = rf_id t \<longleftrightarrow> q = t" if "q \<in> set (refresh_rows w)" for q
    using d(1,2) that by (meson eq_key_imp_eq_value inj_onD distinct_map)
  moreover have "rf_id n \<noteq> rf_id t" using d(2,3) by (metis image_eqI)
  ultimately show "refresh_rows (with_rotation t used n seen w) = map (spend t used (rf_id n)) (refresh_rows w) @ [n]"
    by (auto simp: with_rotation_def touch_session_def mark_refresh_used_def spend_def)
  show "session_rows (with_rotation t used n seen w) =
      map (\<lambda>s. if ss_id s = rf_session t then s\<lparr>ss_seen := seen\<rparr> else s) (session_rows w)"
    by (simp add: with_rotation_def touch_session_def mark_refresh_used_def)
qed

lemma with_rotation_ok:
  assumes "sessions_ok w" and "rotatable t s n w"
  shows "sessions_ok (with_rotation t used n seen w)"
proof -
  note tables = with_rotation_tables [OF assms, of used seen]
  have u: "q = t" if "q \<in> set (refresh_rows w)" "rf_used q = None" "rf_session q = rf_session t" for q
    using assms that by (simp add: sessions_ok_def rotatable_def live_tokens_unique_def)
  have live: "live_tokens_unique (map (spend t used (rf_id n)) (refresh_rows w) @ [n])"
    unfolding live_tokens_unique_def
  proof (intro ballI impI)
    fix a b
    assume a: "a \<in> set (map (spend t used (rf_id n)) (refresh_rows w) @ [n])"
      and b: "b \<in> set (map (spend t used (rf_id n)) (refresh_rows w) @ [n])"
      and l: "rf_used a = None \<and> rf_used b = None \<and> rf_session a = rf_session b"
    have old: "c \<in> set (refresh_rows w) \<and> c \<noteq> t \<or> c = n"
      if "c \<in> set (map (spend t used (rf_id n)) (refresh_rows w) @ [n])" "rf_used c = None" for c
    proof (cases "c = n")
      case False
      with that(1) obtain q where q: "q \<in> set (refresh_rows w)" "c = spend t used (rf_id n) q" by auto
      with that(2) have "q \<noteq> t" by simp
      with q show ?thesis by (simp add: spend_def)
    qed simp
    have "rf_session n = rf_session t" using assms(2) by (simp add: rotatable_def)
    with old [OF a] old [OF b] l u assms(1) show "a = b"
      unfolding sessions_ok_def live_tokens_unique_def by metis
  qed
  have m: "map ss_id (session_rows (with_rotation t used n seen w)) = map ss_id (session_rows w)"
    by (simp add: tables(2))
  then have ids: "ss_id ` set (session_rows (with_rotation t used n seen w)) = ss_id ` set (session_rows w)"
    by (metis set_map)
  have r: "rf_session t \<in> ss_id ` set (session_rows w)" "rf_session n = rf_session t"
    using assms unfolding sessions_ok_def rotatable_def by blast+
  have "map rf_id (refresh_rows (with_rotation t used n seen w)) = map rf_id (refresh_rows w) @ [rf_id n]"
    "map rf_hash (refresh_rows (with_rotation t used n seen w)) = map rf_hash (refresh_rows w) @ [rf_hash n]"
    by (simp_all add: tables(1))
  then have d: "distinct (map rf_id (refresh_rows (with_rotation t used n seen w)))"
    "distinct (map rf_hash (refresh_rows (with_rotation t used n seen w)))"
    using assms by (simp_all add: sessions_ok_def rotatable_def)
  have "\<forall>q \<in> set (refresh_rows (with_rotation t used n seen w)). rf_session q \<in> ss_id ` set (session_rows w)"
    using assms(1) r unfolding sessions_ok_def tables(1) by auto
  with live d assms(1) show ?thesis unfolding sessions_ok_def m ids by (simp add: tables(1))
qed

lemma with_rotation_families:
  assumes ok: "sessions_ok w" and r: "rotatable t s n w" and f: "families w (rf_session t) = Some f"
  shows "families (with_rotation t used n seen w) = (families w)(rf_session t \<mapsto>
      f\<lparr>fm_live := Some (rf_hash n), fm_spent := insert (rf_hash t) (fm_spent f)\<rparr>)"
    and "fm_live f = Some (rf_hash t)" and "\<not> fm_revoked f"
proof -
  note tables = with_rotation_tables [OF ok r, of used seen]
  let ?i = "rf_session t" and ?rows = "map (spend t used (rf_id n)) (refresh_rows w) @ [n]"
  have t: "t \<in> set (refresh_rows w)" "rf_used t = None" and s: "find_session ?i w = Some s" "ss_revoked s = None"
    and n: "rf_session n = ?i" "rf_used n = None" using r by (simp_all add: rotatable_def)
  have u: "rf_session q = ?i \<and> rf_used q = None \<longleftrightarrow> q = t" if "q \<in> set (refresh_rows w)" for q
    using ok t that by (auto simp: sessions_ok_def live_tokens_unique_def)
  have fs: "f = family_of (refresh_rows w) s" "ss_id s = ?i"
    using f s find_holds [of _ "session_rows w" s] by (auto simp: families_def find_session_def)
  have "List.find (\<lambda>q. rf_session q = ?i \<and> rf_used q = None) (refresh_rows w) = List.find (\<lambda>q. q = t) (refresh_rows w)"
    by (rule find_congruent) (rule u)
  also have "\<dots> = Some t" using t(1) by (rule find_self)
  finally show "fm_live f = Some (rf_hash t)" by (simp add: fs family_of_def live_token_def)
  show "\<not> fm_revoked f" using s(2) by (simp add: fs(1) family_of_def)
  have "List.find ((\<lambda>q. rf_session q = ?i \<and> rf_used q = None) \<circ> spend t used (rf_id n)) (refresh_rows w) = None"
    by (simp add: find_None_all) (use u in \<open>metis option.exhaust\<close>)
  then have live: "live_token ?i ?rows = Some (rf_hash n)" using n by (simp add: live_token_def find_append find_map)
  have "{q \<in> set ?rows. rf_session q = ?i \<and> rf_used q \<noteq> None} =
      insert (spend t used (rf_id n) t) {q \<in> set (refresh_rows w). rf_session q = ?i \<and> rf_used q \<noteq> None}"
    using t n by (auto simp: spend_def)
  then have spent: "spent_tokens ?i ?rows = insert (rf_hash t) (spent_tokens ?i (refresh_rows w))"
    unfolding spent_tokens_def by simp
  have find: "find_session j (with_rotation t used n seen w) =
      map_option (\<lambda>s. if ss_id s = ?i then s\<lparr>ss_seen := seen\<rparr> else s) (find_session j w)" for j
    unfolding find_session_def tables(2) find_map by (intro arg_cong [where f = "map_option _"] find_congruent) simp
  show "families (with_rotation t used n seen w) = (families w)(?i \<mapsto>
      f\<lparr>fm_live := Some (rf_hash n), fm_spent := insert (rf_hash t) (fm_spent f)\<rparr>)"
  proof
    fix i
    show "families (with_rotation t used n seen w) i = ((families w)(?i \<mapsto>
      f\<lparr>fm_live := Some (rf_hash n), fm_spent := insert (rf_hash t) (fm_spent f)\<rparr>)) i"
    proof (cases "i = ?i")
      case True
      then show ?thesis using s fs(2) live spent
        by (simp add: families_def find tables(1) family_of_def fs(1))
    next
      case False
      have "List.find ((\<lambda>q. rf_session q = i \<and> rf_used q = None) \<circ> spend t used (rf_id n)) (refresh_rows w) =
          List.find (\<lambda>q. rf_session q = i \<and> rf_used q = None) (refresh_rows w)"
        by (rule find_congruent) (use False in auto)
      moreover have "map_option rf_hash (map_option (spend t used (rf_id n)) y) = map_option rf_hash y" for y
        by (cases y) simp_all
      ultimately have "live_token i ?rows = live_token i (refresh_rows w)"
        using False n by (auto simp: live_token_def find_append find_map split: option.splits)
      moreover have "{q \<in> set ?rows. rf_session q = i \<and> rf_used q \<noteq> None} =
          {q \<in> set (refresh_rows w). rf_session q = i \<and> rf_used q \<noteq> None}"
        using False n t by (auto simp: spend_def)
      then have "spent_tokens i ?rows = spent_tokens i (refresh_rows w)" by (simp only: spent_tokens_def)
      ultimately show ?thesis using False
        by (cases "find_session i w")
          (auto simp: families_def find tables(1) family_of_def dest: find_session_id)
    qed
  qed
qed

lemma revoke_ids: "map ss_id (session_rows (revoke_session_row i now w)) = map ss_id (session_rows w)"
  by (simp add: revoke_session_row_def)

lemma revoke_ok:
  assumes "sessions_ok w"
  shows "sessions_ok (revoke_session_row i now w)"
proof -
  have "refresh_rows (revoke_session_row i now w) = refresh_rows w" by (simp add: revoke_session_row_def)
  with assms revoke_ids [of i now w] show ?thesis unfolding sessions_ok_def by (metis set_map)
qed

lemma revoke_families:
  shows "families w i = None \<Longrightarrow> families (revoke_session_row i now w) = families w"
    and "families w i = Some f \<Longrightarrow> families (revoke_session_row i now w) = (families w)(i \<mapsto> f\<lparr>fm_revoked := True\<rparr>)"
proof -
  let ?r = "\<lambda>s. if ss_id s = i \<and> ss_revoked s = None then s\<lparr>ss_revoked := Some now\<rparr> else s"
  have find: "find_session j (revoke_session_row i now w) = map_option ?r (find_session j w)" for j
    unfolding find_session_def revoke_session_row_def
    by (simp add: find_map, intro arg_cong [where f = "map_option _"] find_congruent) simp
  have rows: "refresh_rows (revoke_session_row i now w) = refresh_rows w" by (simp add: revoke_session_row_def)
  have other: "families (revoke_session_row i now w) j = families w j" if "j \<noteq> i" for j
    using that by (cases "find_session j w") (auto simp: families_def find rows dest: find_session_id)
  show "families (revoke_session_row i now w) = families w" if "families w i = None"
  proof
    fix j show "families (revoke_session_row i now w) j = families w j"
      using that other [of j] by (cases "j = i") (auto simp: families_def find rows)
  qed
  show "families (revoke_session_row i now w) = (families w)(i \<mapsto> f\<lparr>fm_revoked := True\<rparr>)" if "families w i = Some f"
  proof
    fix j
    from that obtain s where s: "find_session i w = Some s" "f = family_of (refresh_rows w) s" by (auto simp: families_def)
    have "families (revoke_session_row i now w) i = Some (f\<lparr>fm_revoked := True\<rparr>)"
      using find_session_id [OF s(1)] s by (cases "ss_revoked s") (simp_all add: families_def find rows family_of_def)
    with other [of j] show "families (revoke_session_row i now w) j = ((families w)(i \<mapsto> f\<lparr>fm_revoked := True\<rparr>)) j"
      by (cases "j = i") simp_all
  qed
qed

lemma same_families: "same_sessions w w' \<Longrightarrow> families w' = families w"
  by (simp add: same_sessions_def families_def find_session_def fun_eq_iff)

section \<open>Histories of families\<close>

text \<open>What a step never undoes: a session stays, its owner and tenant with it, revoked stays revoked, spent spent.\<close>

definition later :: "(uuid \<rightharpoonup> family) \<Rightarrow> (uuid \<rightharpoonup> family) \<Rightarrow> bool" where
  "later F G \<longleftrightarrow> (\<forall>i f. F i = Some f \<longrightarrow> (\<exists>g. G i = Some g \<and> fm_user g = fm_user f \<and> fm_tenant g = fm_tenant f \<and>
     (fm_revoked f \<longrightarrow> fm_revoked g \<and> fm_live g = fm_live f \<and> fm_spent g = fm_spent f) \<and> fm_spent f \<subseteq> fm_spent g))"

lemma later_refl: "later F F"
  by (simp add: later_def)

lemma later_trans:
  assumes "later F G" and "later G H"
  shows "later F H"
  unfolding later_def
proof (intro allI impI)
  fix i f assume "F i = Some f"
  with assms(1) obtain g where "G i = Some g" and g: "fm_user g = fm_user f" "fm_tenant g = fm_tenant f"
    "fm_revoked f \<longrightarrow> fm_revoked g \<and> fm_live g = fm_live f \<and> fm_spent g = fm_spent f" "fm_spent f \<subseteq> fm_spent g"
    unfolding later_def by blast
  with assms(2) obtain h where "H i = Some h" and "fm_user h = fm_user g" "fm_tenant h = fm_tenant g"
    "fm_revoked g \<longrightarrow> fm_revoked h \<and> fm_live h = fm_live g \<and> fm_spent h = fm_spent g" "fm_spent g \<subseteq> fm_spent h"
    unfolding later_def by blast
  with g show "\<exists>g. H i = Some g \<and> fm_user g = fm_user f \<and> fm_tenant g = fm_tenant f \<and>
     (fm_revoked f \<longrightarrow> fm_revoked g \<and> fm_live g = fm_live f \<and> fm_spent g = fm_spent f) \<and> fm_spent f \<subseteq> fm_spent g"
    by (intro exI [of _ h]) auto
qed

lemma later_new: "F i = None \<Longrightarrow> later F (F(i \<mapsto> g))"
  by (simp add: later_def)

lemma later_upd:
  "F i = Some f \<Longrightarrow> fm_user g = fm_user f \<Longrightarrow> fm_tenant g = fm_tenant f \<Longrightarrow> \<not> fm_revoked f \<Longrightarrow>
   fm_spent f \<subseteq> fm_spent g \<Longrightarrow> later F (F(i \<mapsto> g))"
  by (simp add: later_def)

lemma family_step_later: "family_step F G \<Longrightarrow> later F G"
proof (induction rule: family_step.induct)
  case stutter
  show ?case by (rule later_refl)
next
  case (opened F i h u t)
  from opened(1) show ?case by (rule later_new)
next
  case (rotated F i f h h')
  from rotated(1,2) show ?case by (intro later_upd) auto
next
  case (revoked F i f)
  from revoked show ?case by (intro later_upd) auto
qed

lemma family_steps_later: "family_step\<^sup>*\<^sup>* F G \<Longrightarrow> later F G"
proof (induction rule: rtranclp_induct)
  case base
  show ?case by (rule later_refl)
next
  case (step G H)
  from later_trans [OF step.IH family_step_later [OF step.hyps(2)]] show ?case .
qed

end
