(* ===== verification/Runs.thy ===== *)
theory Runs imports Audited begin

text \<open>
  Runs without faults. \<open>wp U C m Q w\<close>: from the state \<open>w\<close>, in every environment without faults whose generator and
  clock read from \<open>U\<close> and \<open>C\<close>, the operation ends in a result and a state that \<open>Q\<close> accepts. The rules follow the
  shape of the operation, so that a claim that an operation answers is proved by going through its code.
\<close>

named_theorems wp_intros \<open>what an operation ends in, without faults\<close>

definition steady :: "(nat \<Rightarrow> uuid) \<Rightarrow> (nat \<Rightarrow> time) \<Rightarrow> env \<Rightarrow> bool" where
  "steady U C e \<longleftrightarrow> no_faults e \<and> e_uuid e = U \<and> e_clock e = C"

definition wp ::
  "(nat \<Rightarrow> uuid) \<Rightarrow> (nat \<Rightarrow> time) \<Rightarrow> ('w, 'a) io \<Rightarrow> (go_error + 'a \<Rightarrow> 'w \<Rightarrow> bool) \<Rightarrow> 'w \<Rightarrow> bool" where
  "wp U C m Q w \<longleftrightarrow> (\<forall>e. steady U C e \<longrightarrow> (case m e w of (r, e', w') \<Rightarrow> steady U C e' \<and> Q r w'))"

lemma wpI:
  assumes "\<And>e. steady U C e \<Longrightarrow> \<exists>r e' w'. m e w = (r, e', w') \<and> steady U C e' \<and> Q r w'"
  shows "wp U C m Q w"
  unfolding wp_def
proof (intro allI impI)
  fix e assume "steady U C e"
  from assms [OF this] obtain r e' w' where "m e w = (r, e', w')" and "steady U C e'" and "Q r w'"
    by (elim exE conjE)
  then show "case m e w of (r, e', w') \<Rightarrow> steady U C e' \<and> Q r w'" by (simp only: prod.case)
qed

lemma wpD:
  assumes "wp U C m Q w" and "steady U C e" and "m e w = (r, e', w')"
  shows "steady U C e'" and "Q r w'"
  using assms(1) [unfolded wp_def, rule_format, OF assms(2)] assms(3) by simp_all

lemma steady_next: "steady U C e \<Longrightarrow> steady U C (next_call e)" and steady_ok: "steady U C e \<Longrightarrow> \<not> e_fault e k"
  by (simp_all add: steady_def next_call_def no_faults_def)

lemma wp_run:
  assumes "wp (e_uuid e) (e_clock e) m Q w" and "no_faults e"
  shows "\<exists>r e' w'. m e w = (r, e', w') \<and> Q r w'"
proof -
  obtain r e' w' where m: "m e w = (r, e', w')" by (metis prod_cases3)
  have "steady (e_uuid e) (e_clock e) e" using assms(2) by (simp add: steady_def)
  from wpD(2) [OF assms(1) this m] m show ?thesis by blast
qed

lemma wp_mono:
  assumes "wp U C m P w" and "\<And>r w'. P r w' \<Longrightarrow> Q r w'"
  shows "wp U C m Q w"
proof (rule wpI)
  fix e assume e: "steady U C e"
  obtain r e' w' where m: "m e w = (r, e', w')" by (metis prod_cases3)
  from wpD [OF assms(1) e m] assms(2) m show "\<exists>r e' w'. m e w = (r, e', w') \<and> steady U C e' \<and> Q r w'" by blast
qed

lemma wp_ret [wp_intros]: "Q (Inr a) w \<Longrightarrow> wp U C (ret a) Q w"
  by (simp add: wp_def ret_def)

lemma wp_fail [wp_intros]: "Q (Inl x) w \<Longrightarrow> wp U C (fail x) Q w"
  by (simp add: wp_def fail_def)

lemma wp_bind [wp_intros]:
  assumes "wp U C m (\<lambda>r w'. case r of Inl x \<Rightarrow> Q (Inl x) w' | Inr a \<Rightarrow> wp U C (f a) Q w') w"
  shows "wp U C (bind_io m f) Q w"
  unfolding wp_def
proof (intro allI impI)
  fix e assume e: "steady U C e"
  obtain r e1 w1 where m: "m e w = (r, e1, w1)" by (metis prod_cases3)
  from wpD [OF assms e m] show "case bind_io m f e w of (r, e', w') \<Rightarrow> steady U C e' \<and> Q r w'"
    by (cases r) (auto simp: bind_io_def m wp_def)
qed

lemma wp_on_error [wp_intros]:
  assumes "wp U C m (\<lambda>r w'. case r of Inl x \<Rightarrow> wp U C (h x) Q w' | Inr a \<Rightarrow> Q (Inr a) w') w"
  shows "wp U C (on_error m h) Q w"
  unfolding wp_def
proof (intro allI impI)
  fix e assume e: "steady U C e"
  obtain r e1 w1 where m: "m e w = (r, e1, w1)" by (metis prod_cases3)
  from wpD [OF assms e m] show "case on_error m h e w of (r, e', w') \<Rightarrow> steady U C e' \<and> Q r w'"
    by (cases r) (auto simp: on_error_def m wp_def)
qed

lemma wp_db_call [wp_intros]:
  "(case f w of (Inl x, _) \<Rightarrow> Q (Inl x) w | (Inr a, w') \<Rightarrow> Q (Inr a) w') \<Longrightarrow> wp U C (db_call f) Q w"
  by (auto simp: wp_def db_call_def steady_def no_faults_def Let_def split: prod.splits sum.splits)

lemma wp_db_read [wp_intros]: "Q (Inr (f w)) w \<Longrightarrow> wp U C (db_read f) Q w"
  unfolding db_read_def by (rule wp_db_call) simp

lemma wp_db_write [wp_intros]: "Q (Inr ()) (f w) \<Longrightarrow> wp U C (db_write f) Q w"
  unfolding db_write_def by (rule wp_db_call) simp

lemma wp_time_now [wp_intros]: "(\<And>k. Q (Inr (C k)) w) \<Longrightarrow> wp U C time_now Q w"
  by (auto simp: wp_def time_now_def steady_def no_faults_def)

lemma wp_uuid_new [wp_intros]: "(\<And>k. Q (Inr (U k)) w) \<Longrightarrow> wp U C uuid_new Q w"
  by (auto simp: wp_def uuid_new_def steady_def no_faults_def)

lemma wp_lift_res [wp_intros]: "Q r w \<Longrightarrow> wp U C (lift_res r) Q w"
  by (cases r) (simp_all add: wp_def lift_res_def fail_def ret_def)

lemma wp_guard [wp_intros]: "(b \<Longrightarrow> Q (Inr ()) w) \<Longrightarrow> (\<not> b \<Longrightarrow> Q (Inl x) w) \<Longrightarrow> wp U C (guard b x) Q w"
  by (simp add: wp_def guard_def fail_def ret_def)

lemma wp_if: "(c \<Longrightarrow> wp U C a Q w) \<Longrightarrow> (\<not> c \<Longrightarrow> wp U C b Q w) \<Longrightarrow> wp U C (if c then a else b) Q w"
  by simp

text \<open>A transaction whose body ends in an error leaves the state as it was.\<close>

lemma wp_in_tx [wp_intros]:
  assumes "wp U C b (\<lambda>r w'. case r of Inl x \<Rightarrow> Q (Inl x) w | Inr a \<Rightarrow> Q (Inr a) w') w"
  shows "wp U C (in_tx b) Q w"
  unfolding wp_def
proof (intro allI impI)
  fix e assume e: "steady U C e"
  then have n: "steady U C (next_call e)" and f: "\<not> e_fault e (e_calls e)" by (rule steady_next, rule steady_ok)
  obtain r e1 w1 where b: "b (next_call e) w = (r, e1, w1)" by (metis prod_cases3)
  from wpD [OF assms n b] have e1: "steady U C e1" and q: "case r of Inl x \<Rightarrow> Q (Inl x) w | Inr a \<Rightarrow> Q (Inr a) w1" .
  show "case in_tx b e w of (r, e', w') \<Rightarrow> steady U C e' \<and> Q r w'"
    using q f e1 steady_ok [OF e1] steady_next [OF e1] by (cases r) (simp_all add: in_tx_def b)
qed

text \<open>An audit row and an event: readable address, new ids.\<close>

definition new_ids :: "(nat \<Rightarrow> uuid) \<Rightarrow> 'z outbox_db_scheme \<Rightarrow> bool" where
  "new_ids U w \<longleftrightarrow> (\<forall>k. U k \<notin> set (map ar_id (audit_rows w)) \<and> U k \<notin> set (map ob_id (outbox_rows w)))"

lemma wp_record_audit:
  assumes "ev_ip ev = [] \<or> ax_inet x (ev_ip ev) \<noteq> None" and "\<forall>k. U k \<notin> set (map ar_id (audit_rows w))"
    and "\<And>rows. audited x ev (audit_rows w) rows \<Longrightarrow> Q (Inr ()) (w\<lparr>audit_rows := rows\<rparr>)"
  shows "wp U C (record_audit x ev) Q w"
proof (rule wpI)
  fix e assume e: "steady U C e"
  then have "\<And>n. \<not> e_fault e n" "e_uuid e (e_uuids e) \<notin> set (map ar_id (audit_rows w))"
    using assms(2) by (auto simp: steady_def no_faults_def)
  from record_audit_runs [OF this(1) assms(1) this(2)] assms(3) e
  show "\<exists>r e' w'. record_audit x ev e w = (r, e', w') \<and> steady U C e' \<and> Q r w'"
    by (auto simp: steady_def no_faults_def audited_def link_hash_def)
qed

lemma wp_enqueue:
  assumes "oe_id msg = 0" and "\<forall>k. U k \<notin> set (map ob_id (outbox_rows w))"
    and "\<And>evs. queued msg (outbox_rows w) evs \<Longrightarrow> Q (Inr ()) (w\<lparr>outbox_rows := evs\<rparr>)"
  shows "wp U C (enqueue msg) Q w"
  unfolding enqueue_def using assms(1,2)
  by (auto intro!: wp_intros assms(3) simp: queued_def, blast)

end
