(* ===== verification/SignIn.thy ===== *)
theory SignIn imports AuthFamilies Runs begin

text \<open>
  Sign-in: the verdict on a pair of address and password as a function of the tables and of one reading of the
  clock, the proof that \<^verbatim>\<open>CheckPassword\<close> computes it, and the bound the lockout puts on guessing.
\<close>

section \<open>Runs that may end in a call of a collaborator\<close>

text \<open>As \<open>wp\<close>, but nothing is asked of the environment the run leaves.\<close>

definition ends ::
  "(nat \<Rightarrow> uuid) \<Rightarrow> (nat \<Rightarrow> time) \<Rightarrow> ('w, 'a) io \<Rightarrow> (go_error + 'a \<Rightarrow> 'w \<Rightarrow> bool) \<Rightarrow> 'w \<Rightarrow> bool" where
  "ends U C m Q w \<longleftrightarrow> (\<forall>e. steady U C e \<longrightarrow> (case m e w of (r, e', w') \<Rightarrow> Q r w'))"

lemma endsD:
  assumes "ends U C m Q w" and "steady U C e" and "m e w = (r, e', w')"
  shows "Q r w'"
  using assms(1) [unfolded ends_def, rule_format, OF assms(2)] assms(3) by simp

lemma ends_wp: "wp U C m Q w \<Longrightarrow> ends U C m Q w"
  unfolding ends_def wp_def by (auto split: prod.splits)

lemma ends_call: "(\<And>e r e' w'. m e w = (r, e', w') \<Longrightarrow> Q r w') \<Longrightarrow> ends U C m Q w"
  unfolding ends_def by (auto split: prod.splits)

lemma ends_fail: "Q (Inl x) w \<Longrightarrow> ends U C (fail x) Q w"
  by (simp add: ends_def fail_def)

lemma ends_if: "(c \<Longrightarrow> ends U C a Q w) \<Longrightarrow> (\<not> c \<Longrightarrow> ends U C b Q w) \<Longrightarrow> ends U C (if c then a else b) Q w"
  by simp

lemma ends_bind:
  assumes "wp U C m (\<lambda>r w'. case r of Inl x \<Rightarrow> Q (Inl x) w' | Inr a \<Rightarrow> ends U C (f a) Q w') w"
  shows "ends U C (bind_io m f) Q w"
  unfolding ends_def
proof (intro allI impI)
  fix e assume e: "steady U C e"
  obtain r e1 w1 where m: "m e w = (r, e1, w1)" by (metis prod_cases3)
  from wpD [OF assms e m] show "case bind_io m f e w of (r, e', w') \<Rightarrow> Q r w'"
    by (cases r) (auto simp: bind_io_def m ends_def)
qed

lemma ends_then_fail:
  assumes "ends U C m (\<lambda>r w'. case r of Inl y \<Rightarrow> Q (Inl y) w' | Inr _ \<Rightarrow> Q (Inl x) w') w"
  shows "ends U C (then_io m (fail x)) Q w"
  unfolding ends_def
proof (intro allI impI)
  fix e assume e: "steady U C e"
  obtain r e1 w1 where m: "m e w = (r, e1, w1)" by (metis prod_cases3)
  from endsD [OF assms e m] show "case then_io m (fail x) e w of (r, e', w') \<Rightarrow> Q r w'"
    by (cases r) (auto simp: bind_io_def m fail_def)
qed

lemma ends_ignore:
  assumes "ends U C m (\<lambda>_. Q (Inr ())) w"
  shows "ends U C (on_error m (\<lambda>_. ret ())) Q w"
  unfolding ends_def
proof (intro allI impI)
  fix e assume e: "steady U C e"
  obtain r e1 w1 where m: "m e w = (r, e1, w1)" by (metis prod_cases3)
  from endsD [OF assms e m] show "case on_error m (\<lambda>_. ret ()) e w of (r, e', w') \<Rightarrow> Q r w'"
    by (cases r) (auto simp: on_error_def m ret_def)
qed

section \<open>The verdict\<close>

definition login_key :: "auth_ext \<Rightarrow> string \<Rightarrow> string" where
  "login_key x raw = to_lower (tx_crypto x) (trim_space raw)"

definition locked_at :: "time \<Rightarrow> attempt_row option \<Rightarrow> bool" where
  "locked_at now a \<longleftrightarrow> (case Option.bind a la_locked of None \<Rightarrow> False | Some t \<Rightarrow> now < t)"

datatype verdict = Locked | Refused | Barred string | Broken go_error | Accepted user_row string

definition verdict_on :: "auth_ext \<Rightarrow> string \<Rightarrow> string \<Rightarrow> time \<Rightarrow> 'z auth_db_scheme \<Rightarrow> verdict" where
  "verdict_on x raw plain now w =
     (if locked_at now (find_attempt (login_key x raw) w) then Locked
      else case get_user_by_email x raw w of
        None \<Rightarrow> Refused
      | Some u \<Rightarrow>
          if us_status u \<notin> {''active'', ''invited''} then Barred (us_status u)
          else case get_password_hash (us_id u) w of
            None \<Rightarrow> Refused
          | Some h \<Rightarrow> if h = [] then Refused
              else case password_verify (tx_crypto x) h plain of
                Inl err \<Rightarrow> Broken err | Inr ok \<Rightarrow> if ok then Accepted u h else Refused)"

text \<open>The attempts after a failure recorded with the two readings, on the client and in the database.\<close>

definition after_failure :: "string \<Rightarrow> time \<Rightarrow> time \<Rightarrow> 'z auth_db_scheme \<Rightarrow> 'z auth_db_scheme" where
  "after_failure email t1 t2 w =
     (case upsert_attempt email (t1 - failure_window) max_failed_logins (t1 + lockout_duration) t2 w of
        Inl _ \<Rightarrow> w | Inr (_, v) \<Rightarrow> v)"

text \<open>What a collaborator is asked: the recorder of anomalies leaves the counters alone.\<close>

definition attempts_spared :: "'z auth_db_scheme auth_service \<Rightarrow> bool" where
  "attempts_spared s \<longleftrightarrow> (\<forall>f email e w. as_anomaly s = Some f \<longrightarrow>
     attempt_rows (snd (snd (f email e w))) = attempt_rows w)"

lemma wp_locked:
  assumes "\<And>k. Q (Inr (if locked_at (C k) (find_attempt email w) then Option.bind (find_attempt email w) la_locked else None)) w"
  shows "wp U C (login_locked_until email) Q w"
  unfolding login_locked_until_def
proof (intro wp_bind wp_on_error wp_db_read, simp only: sum.case)
  show "wp U C (case Option.bind (find_attempt email w) la_locked of None \<Rightarrow> ret None
      | Some t \<Rightarrow> bind_io time_now (\<lambda>now. ret (if now < t then Some t else None))) Q w"
  proof (cases "Option.bind (find_attempt email w) la_locked")
    case None
    then show ?thesis using assms [of 0] by (auto simp: locked_at_def intro!: wp_intros)
  next
    case (Some t)
    have "Q (Inr (if C k < t then Some t else None)) w" for k
      using assms [of k] by (simp add: locked_at_def Some split: if_splits)
    then have "wp U C (bind_io time_now (\<lambda>now. ret (if now < t then Some t else None))) Q w"
      by (intro wp_bind wp_time_now, simp only: sum.case, rule wp_ret)
    with Some show ?thesis by simp
  qed
qed

lemma ends_record_failed:
  assumes "attempts_spared s"
    and "\<And>i j w'. attempt_rows w' = attempt_rows (after_failure email (C i) (C j) w) \<Longrightarrow> Q (Inr ()) w'"
  shows "ends U C (record_failed_login s email) Q w"
  unfolding record_failed_login_def
proof (intro ends_bind wp_time_now, simp only: sum.case, rule ends_ignore)
  fix i
  let ?up = "upsert_login_attempt email (C i - failure_window) max_failed_logins (C i + lockout_duration)"
  let ?then = "\<lambda>n. case as_anomaly s of None \<Rightarrow> ret ()
      | Some f \<Rightarrow> if n = max_failed_logins then ignore_error (f email) else ret ()"
  have spare: "attempt_rows v' = attempt_rows v" if "?then n e v = (r, e', v')" for n e v r e' v'
  proof (cases "as_anomaly s")
    case (Some f)
    obtain r1 e1 v1 where f: "f email e v = (r1, e1, v1)" by (metis prod_cases3)
    with assms(1) Some have "attempt_rows v1 = attempt_rows v" by (metis attempts_spared_def snd_conv)
    with that Some f show ?thesis
      by (cases r1) (auto simp: ignore_error_def on_error_def ret_def split: if_splits)
  qed (use that in \<open>simp add: ret_def\<close>)
  show "ends U C (bind_io ?up ?then) (\<lambda>_. Q (Inr ())) w"
  proof (rule ends_bind, unfold upsert_login_attempt_def, intro wp_bind wp_time_now, simp only: sum.case, rule wp_db_call)
    fix j
    have "ends U C (?then n) (\<lambda>_. Q (Inr ())) v" if "v = after_failure email (C i) (C j) w" for n v
      using spare assms(2) that by (intro ends_call) blast
    then show "case case upsert_attempt email (C i - failure_window) max_failed_logins (C i + lockout_duration) (C j) w of
          Inl err \<Rightarrow> (Inl err, w) | Inr (n, w') \<Rightarrow> (Inr n, w') of
        (Inl x, _) \<Rightarrow> (case Inl x of Inl x \<Rightarrow> Q (Inr ()) w | Inr a \<Rightarrow> ends U C (?then a) (\<lambda>_. Q (Inr ())) w)
      | (Inr a, w') \<Rightarrow> (case Inr a of Inl x \<Rightarrow> Q (Inr ()) w' | Inr a \<Rightarrow> ends U C (?then a) (\<lambda>_. Q (Inr ())) w')"
      using assms(2) [of w i j] by (auto simp: after_failure_def split: sum.splits prod.splits)
  qed
qed

text \<open>The state in which the login hook of an accepted sign-in is called.\<close>

definition accepted_state :: "string \<Rightarrow> string \<Rightarrow> 'z auth_db_scheme \<Rightarrow> 'z auth_db_scheme \<Rightarrow> bool" where
  "accepted_state email h w v \<longleftrightarrow> (\<exists>creds. v = (delete_attempt email w)\<lparr>cred_rows := creds\<rparr> \<and>
     (\<not> needs_rehash h \<longrightarrow> creds = cred_rows w) \<and> map cd_user creds = map cd_user (cred_rows w))"

definition verdict_outcome ::
  "'z auth_db_scheme auth_service \<Rightarrow> string \<Rightarrow> verdict \<Rightarrow> (nat \<Rightarrow> time) \<Rightarrow> 'z auth_db_scheme \<Rightarrow>
   go_error + user_row \<times> custom_claims \<Rightarrow> 'z auth_db_scheme \<Rightarrow> bool" where
  "verdict_outcome s email v C w r w' \<longleftrightarrow>
     (case v of
        Locked \<Rightarrow> r = Inl account_locked \<and> w' = w
      | Refused \<Rightarrow> r = Inl invalid_credentials \<and> (\<exists>i j. attempt_rows w' = attempt_rows (after_failure email (C i) (C j) w))
      | Barred status \<Rightarrow> r = Inl (ApiErr (with_detail ErrForbidden (''account '' @ status))) \<and> w' = w
      | Broken err \<Rightarrow> r = Inl err \<and> w' = w
      | Accepted u h \<Rightarrow> \<exists>v e1 e2. accepted_state email h w v \<and> run_login_hook s u e1 v = (r, e2, w'))"

lemma ends_rehash_hook:
  assumes "\<And>v e1 e2 r w'. accepted_state email h w v \<Longrightarrow> run_login_hook s u e1 v = (r, e2, w') \<Longrightarrow> Q r w'"
  shows "ends U C (then_io (clear_login_attempts email) (then_io (rehash_on_login x (us_id u) h plain) (run_login_hook s u))) Q w"
  unfolding clear_login_attempts_def rehash_on_login_def ignore_error_def hash_password_def rand_read_def
proof (intro ends_bind wp_on_error wp_db_write, simp only: sum.case, intro ends_bind)
  let ?v = "delete_attempt email w"
  have hook: "ends U C (run_login_hook s u) Q v" if "accepted_state email h w v" for v
    using assms that by (intro ends_call) blast
  have same: "accepted_state email h w ?v"
    by (auto simp: accepted_state_def delete_attempt_def intro!: exI [of _ "cred_rows w"])
  have upd: "accepted_state email h w (update_credential_hash nh (us_id u) now ?v)" if "needs_rehash h" for nh now
    using that by (auto simp: accepted_state_def delete_attempt_def update_credential_hash_def
        intro!: exI [of _ "map (\<lambda>c. if cd_user c = us_id u then c\<lparr>cd_hash := nh, cd_updated := now\<rparr> else c) (cred_rows w)"])
  show "wp U C (if needs_rehash h then on_error (bind_io (bind_io (bind_io uuid_new (\<lambda>k.
      case cx_rand (tx_crypto x) argon_salt_len k of None \<Rightarrow> fail (PlainErr ''rand'') | Some b \<Rightarrow> ret b))
      (\<lambda>salt. ret (password_hash (tx_crypto x) salt plain)))
      (\<lambda>nh. bind_io time_now (\<lambda>now. db_write (update_credential_hash nh (us_id u) now)))) (\<lambda>_. ret ()) else ret ())
    (\<lambda>r w'. case r of Inl x \<Rightarrow> Q (Inl x) w' | Inr a \<Rightarrow> ends U C (run_login_hook s u) Q w') ?v"
    using hook same upd by (auto intro!: wp_intros split: option.splits)
qed

lemma ends_verify_user:
  fixes k :: nat and C raw plain and s :: "'z auth_db_scheme auth_service"
  defines "key \<equiv> login_key (as_ext s) raw" and "v \<equiv> (\<lambda>w. verdict_on (as_ext s) raw plain (C k) w)"
  assumes u: "get_user_by_email (as_ext s) raw w = Some u" and free: "\<not> locked_at (C k) (find_attempt key w)"
    and refused: "v w = Refused \<Longrightarrow> ends U C (then_io (record_failed_login s key) (fail invalid_credentials))
      (\<lambda>r w'. \<exists>k. verdict_outcome s key (verdict_on (as_ext s) raw plain (C k) w) C w r w') w"
  shows "ends U C (verify_user s key plain u) (\<lambda>r w'. \<exists>k. verdict_outcome s key (verdict_on (as_ext s) raw plain (C k) w) C w r w') w"
    (is "ends U C _ ?Q w")
proof -
  have Q: "?Q r w'" if "verdict_outcome s key (v w) C w r w'" for r w' using that unfolding v_def by blast
  have v: "v w = (if us_status u \<notin> {''active'', ''invited''} then Barred (us_status u)
      else case get_password_hash (us_id u) w of None \<Rightarrow> Refused
        | Some h \<Rightarrow> if h = [] then Refused
            else case password_verify (tx_crypto (as_ext s)) h plain of
              Inl err \<Rightarrow> Broken err | Inr ok \<Rightarrow> if ok then Accepted u h else Refused)"
    using u free by (simp add: v_def verdict_on_def key_def)
  show ?thesis
    unfolding verify_user_def password_hash_of_def
  proof (rule ends_if)
    assume "us_status u \<noteq> ''active'' \<and> us_status u \<noteq> ''invited''"
    with v have "v w = Barred (us_status u)" by simp
    then have "verdict_outcome s key (v w) C w (Inl (ApiErr (with_detail ErrForbidden (''account '' @ us_status u)))) w"
      unfolding verdict_outcome_def by (simp del: append.simps)
    then show "ends U C (fail (ApiErr (with_detail ErrForbidden (''account '' @ us_status u)))) ?Q w"
      by (intro ends_fail Q)
  next
    assume active: "\<not> (us_status u \<noteq> ''active'' \<and> us_status u \<noteq> ''invited'')"
    define h where "h = (case get_password_hash (us_id u) w of None \<Rightarrow> [] | Some h \<Rightarrow> h)"
    define out where "out = (if h = [] then Inr False else password_verify (tx_crypto (as_ext s)) h plain)"
    have v: "v w = (case out of Inl err \<Rightarrow> Broken err | Inr ok \<Rightarrow> if ok then Accepted u h else Refused)"
      using v active by (cases "get_password_hash (us_id u) w") (auto simp: h_def out_def split: sum.splits)
    let ?tail = "\<lambda>ok. if \<not> ok then then_io (record_failed_login s key) (fail invalid_credentials)
      else then_io (clear_login_attempts key) (then_io (rehash_on_login (as_ext s) (us_id u) h plain) (run_login_hook s u))"
    have tail: "ends U C (?tail ok) ?Q w" if "out = Inr ok" for ok
    proof (rule ends_if)
      assume "\<not> ok"
      with that v refused show "ends U C (then_io (record_failed_login s key) (fail invalid_credentials)) ?Q w" by simp
    next
      assume "\<not> \<not> ok"
      with that v have acc: "v w = Accepted u h" by simp
      show "ends U C (then_io (clear_login_attempts key) (then_io (rehash_on_login (as_ext s) (us_id u) h plain)
          (run_login_hook s u))) ?Q w"
      proof (rule ends_rehash_hook)
        fix v' e1 e2 r w' assume "accepted_state key h w v'" and "run_login_hook s u e1 v' = (r, e2, w')"
        then have "verdict_outcome s key (v w) C w r w'" unfolding verdict_outcome_def acc by auto
        then show "?Q r w'" by (rule Q)
      qed
    qed
    have broken: "?Q (Inl err) w" if "out = Inl err" for err
      using v that by (intro Q) (simp add: verdict_outcome_def)
    have "ends U C (bind_io (if h = [] then ret False else lift_res (password_verify (tx_crypto (as_ext s)) h plain)) ?tail) ?Q w"
    proof (rule ends_bind, cases "h = []")
      case True
      then have "out = Inr False" by (simp add: out_def)
      with tail True show "wp U C (if h = [] then ret False else lift_res (password_verify (tx_crypto (as_ext s)) h plain))
          (\<lambda>r w'. case r of Inl x \<Rightarrow> ?Q (Inl x) w' | Inr a \<Rightarrow> ends U C (?tail a) ?Q w') w"
        by (simp only: if_True simp_thms) (rule wp_ret, simp only: sum.case)
    next
      case False
      then have out: "out = password_verify (tx_crypto (as_ext s)) h plain" by (simp add: out_def)
      show "wp U C (if h = [] then ret False else lift_res (password_verify (tx_crypto (as_ext s)) h plain))
          (\<lambda>r w'. case r of Inl x \<Rightarrow> ?Q (Inl x) w' | Inr a \<Rightarrow> ends U C (?tail a) ?Q w') w"
        unfolding out [symmetric] if_not_P [OF False]
        by (rule wp_lift_res, cases out) (use tail broken in \<open>simp_all only: sum.case\<close>)
    qed
    then show "ends U C (bind_io (bind_io (db_read (get_password_hash (us_id u)))
        (\<lambda>h. ret (case h of None \<Rightarrow> [] | Some h \<Rightarrow> h))) (\<lambda>hash.
        bind_io (if hash = [] then ret False else lift_res (password_verify (tx_crypto (as_ext s)) hash plain)) (\<lambda>ok.
        if \<not> ok then then_io (record_failed_login s key) (fail invalid_credentials)
        else then_io (clear_login_attempts key) (then_io (rehash_on_login (as_ext s) (us_id u) hash plain)
            (run_login_hook s u))))) ?Q w"
      unfolding h_def by (intro ends_bind wp_bind wp_db_read) (simp only: sum.case, rule wp_ret, simp only: sum.case)
  qed
qed

lemma ends_check_password:
  assumes "attempts_spared s"
  shows "ends U C (check_password s raw plain)
    (\<lambda>r w'. \<exists>k. verdict_outcome s (login_key (as_ext s) raw) (verdict_on (as_ext s) raw plain (C k) w) C w r w') w"
  (is "ends U C _ ?Q w")
proof -
  let ?key = "login_key (as_ext s) raw" and ?a = "find_attempt (login_key (as_ext s) raw) w"
  have refused: "ends U C (then_io (record_failed_login s ?key) (fail invalid_credentials)) ?Q w"
    if "verdict_on (as_ext s) raw plain (C k) w = Refused" for k
  proof (rule ends_then_fail, rule ends_record_failed [OF assms], simp only: sum.case)
    fix i j and w' :: "'a auth_db_scheme" assume "attempt_rows w' = attempt_rows (after_failure ?key (C i) (C j) w)"
    then have "verdict_outcome s ?key (verdict_on (as_ext s) raw plain (C k) w) C w (Inl invalid_credentials) w'"
      unfolding verdict_outcome_def that by simp blast
    then show "?Q (Inl invalid_credentials) w'" ..
  qed
  show ?thesis
    unfolding check_password_def Let_def login_key_def [symmetric]
  proof (rule ends_bind, rule wp_locked, simp only: sum.case)
    fix k
    show "ends U C (if (if locked_at (C k) ?a then Option.bind ?a la_locked else None) \<noteq> None then fail account_locked
        else bind_io (on_error (bind_io (get_by_email_global (as_ext s) raw) (\<lambda>u. ret (Some u)))
            (\<lambda>err. if err = ApiErr ErrNotFound then ret None else fail err))
          (\<lambda>found. case found of None \<Rightarrow> then_io (record_failed_login s ?key) (fail invalid_credentials)
            | Some u \<Rightarrow> verify_user s ?key plain u)) ?Q w"
    proof (rule ends_if)
      assume "(if locked_at (C k) ?a then Option.bind ?a la_locked else None) \<noteq> None"
      then have "verdict_on (as_ext s) raw plain (C k) w = Locked" by (simp add: verdict_on_def split: if_splits)
      then show "ends U C (fail account_locked) ?Q w"
        by (intro ends_fail exI [of _ k]) (simp add: verdict_outcome_def)
    next
      assume "\<not> (if locked_at (C k) ?a then Option.bind ?a la_locked else None) \<noteq> None"
      then have free: "\<not> locked_at (C k) ?a" by (auto simp: locked_at_def split: option.splits if_splits)
      show "ends U C (bind_io (on_error (bind_io (get_by_email_global (as_ext s) raw) (\<lambda>u. ret (Some u)))
            (\<lambda>err. if err = ApiErr ErrNotFound then ret None else fail err))
          (\<lambda>found. case found of None \<Rightarrow> then_io (record_failed_login s ?key) (fail invalid_credentials)
            | Some u \<Rightarrow> verify_user s ?key plain u)) ?Q w"
      proof (cases "get_user_by_email (as_ext s) raw w")
        case None
        with free have "verdict_on (as_ext s) raw plain (C k) w = Refused" by (simp add: verdict_on_def)
        from refused [OF this] None show ?thesis
          unfolding get_by_email_global_def by (intro ends_bind) (auto intro!: wp_intros)
      next
        case (Some u)
        have "ends U C (verify_user s ?key plain u) ?Q w"
          using ends_verify_user [OF Some free refused] .
        with Some show ?thesis
          unfolding get_by_email_global_def by (intro ends_bind) (auto intro!: wp_intros)
      qed
    qed
  qed
qed

end
