(* ===== verification/SignInProps.thy ===== *)
theory SignInProps imports SignIn begin

text \<open>
  The properties of sign-in: the check decides the verdict, and six guesses at an address take at least a quarter of
  an hour.
\<close>

lemma check_password_verdict:
  assumes "no_faults e" and "attempts_spared s" and "check_password s raw plain e w = (r, e', w')"
  shows "\<exists>k. verdict_outcome s (login_key (as_ext s) raw) (verdict_on (as_ext s) raw plain (e_clock e k) w) (e_clock e) w r w'"
proof -
  have "steady (e_uuid e) (e_clock e) e" using assms(1) by (simp add: steady_def)
  from endsD [OF ends_check_password [OF assms(2)] this assms(3)] show ?thesis .
qed

section \<open>Guessing\<close>

text \<open>A guess: a sign-in that is refused, with every reading of the clock between \<open>a\<close> and \<open>b\<close>.\<close>

definition failed_guess ::
  "'z auth_db_scheme auth_service \<Rightarrow> string \<Rightarrow> time \<Rightarrow> time \<Rightarrow> 'z auth_db_scheme \<Rightarrow> 'z auth_db_scheme \<Rightarrow> bool" where
  "failed_guess s email a b w w' \<longleftrightarrow> (\<exists>raw plain e e'. login_key (as_ext s) raw = email \<and> no_faults e \<and>
     (\<forall>k. a \<le> e_clock e k \<and> e_clock e k \<le> b) \<and>
     check_password s raw plain e w = (Inl invalid_credentials, e', w'))"

text \<open>Guesses one after another, and between them anything that leaves the counter of the address alone.\<close>

inductive guesses ::
  "'z auth_db_scheme auth_service \<Rightarrow> string \<Rightarrow> 'z auth_db_scheme \<Rightarrow> (time \<times> time) list \<Rightarrow> 'z auth_db_scheme \<Rightarrow> bool"
  for s email w0 where
  none: "guesses s email w0 [] w0"
| other: "guesses s email w0 ts w \<Longrightarrow> find_attempt email w' = find_attempt email w \<Longrightarrow> guesses s email w0 ts w'"
| guess: "guesses s email w0 ts w \<Longrightarrow> ts = [] \<or> snd (last ts) \<le> a \<Longrightarrow> failed_guess s email a b w w' \<Longrightarrow>
    guesses s email w0 (ts @ [(a, b)]) w'"

text \<open>The hook has errors of its own.\<close>

definition hook_speaks_for_itself :: "'z auth_db_scheme auth_service \<Rightarrow> bool" where
  "hook_speaks_for_itself s \<longleftrightarrow> (\<forall>f t u m e w. as_hook s = Some f \<longrightarrow> fst (f t u m e w) \<noteq> Inl invalid_credentials)"

lemma hook_not_invalid:
  assumes "hook_speaks_for_itself s" and "run_login_hook s u e w = (r, e', w')"
  shows "r \<noteq> Inl invalid_credentials"
proof (cases "as_hook s")
  case (Some f)
  obtain r1 e1 w1 where f: "f (option_nil (us_tenant u)) (us_id u) (us_email u) e w = (r1, e1, w1)" by (metis prod_cases3)
  with assms(1) Some have "r1 \<noteq> Inl invalid_credentials" unfolding hook_speaks_for_itself_def by (metis fst_conv)
  with assms(2) Some f show ?thesis by (cases r1) (auto simp: run_login_hook_def bind_io_def ret_def)
qed (use assms(2) in \<open>auto simp: run_login_hook_def ret_def\<close>)

lemma verify_panics: "password_verify x h plain = Inl err \<Longrightarrow> err = GoPanic"
  by (auto simp: password_verify_def verify_argon2id_def split: if_splits option.splits)

text \<open>What a guess does to the counter of its address.\<close>

definition counted :: "time \<Rightarrow> time \<Rightarrow> attempt_row option \<Rightarrow> attempt_row option \<Rightarrow> bool" where
  "counted a b row row' \<longleftrightarrow> (\<exists>t0 t1 t2. {t0, t1, t2} \<subseteq> {a..b} \<and> \<not> locked_at t0 row \<and>
     (case row of
        None \<Rightarrow> \<exists>r. row' = Some r \<and> la_count r = 1 \<and> la_last r = t2 \<and> la_locked r = None
      | Some r \<Rightarrow> let r' = bump_attempt (t1 - failure_window) max_failed_logins (t1 + lockout_duration) t2 r in
          row' = (if la_count r' \<ge> 2 ^ 31 then Some r else Some r')))"

lemma after_failure_row:
  "find_attempt email (after_failure email t1 t2 w) =
     (case find_attempt email w of
        None \<Rightarrow> Some \<lparr>la_email = email, la_count = 1, la_first = t2, la_last = t2, la_locked = None\<rparr>
      | Some r \<Rightarrow> let r' = bump_attempt (t1 - failure_window) max_failed_logins (t1 + lockout_duration) t2 r in
          if la_count r' \<ge> 2 ^ 31 then Some r else Some r')"
proof (cases "find_attempt email w")
  case None
  then show ?thesis by (simp add: after_failure_def upsert_attempt_def find_attempt_def find_append)
next
  case (Some r)
  let ?b = "bump_attempt (t1 - failure_window) max_failed_logins (t1 + lockout_duration) t2 r"
  have email: "la_email r = email" using find_holds [OF Some [unfolded find_attempt_def]] by simp
  have e: "la_email ?b = email" by (simp add: bump_attempt_def Let_def email)
  have "List.find ((\<lambda>c. la_email c = email) \<circ> (\<lambda>c. if la_email c = email then ?b else c)) xs = List.find (\<lambda>c. la_email c = email) xs" for xs
    by (rule find_congruent) (simp add: e)
  then have "List.find (\<lambda>c. la_email c = email) (map (\<lambda>c. if la_email c = email then ?b else c) (attempt_rows w)) = Some ?b"
    using Some by (simp add: find_map find_attempt_def email)
  with Some show ?thesis
    by (simp add: after_failure_def upsert_attempt_def find_attempt_def Let_def)
qed

lemma failed_guess_counted:
  assumes "attempts_spared s" and "hook_speaks_for_itself s" and "failed_guess s email a b w w'"
  shows "counted a b (find_attempt email w) (find_attempt email w')"
proof -
  obtain raw plain e e' where k: "login_key (as_ext s) raw = email" and e: "no_faults e"
    and c: "\<forall>k. a \<le> e_clock e k \<and> e_clock e k \<le> b"
    and run: "check_password s raw plain e w = (Inl invalid_credentials, e', w')"
    using assms(3) unfolding failed_guess_def by blast
  from check_password_verdict [OF e assms(1) run] obtain n where
    v: "verdict_outcome s email (verdict_on (as_ext s) raw plain (e_clock e n) w) (e_clock e) w (Inl invalid_credentials) w'"
    unfolding k by blast
  have refused: "verdict_on (as_ext s) raw plain (e_clock e n) w = Refused"
  proof (cases "verdict_on (as_ext s) raw plain (e_clock e n) w")
    case Locked
    with v show ?thesis by (simp add: verdict_outcome_def account_locked_def invalid_credentials_def err_defs)
  next
    case (Barred st)
    with v show ?thesis by (simp add: verdict_outcome_def invalid_credentials_def err_defs)
  next
    case (Broken err)
    then have "err = GoPanic" unfolding verdict_on_def
      by (auto dest: verify_panics split: if_splits option.splits sum.splits)
    with Broken v show ?thesis by (simp add: verdict_outcome_def invalid_credentials_def)
  next
    case (Accepted u h)
    with v obtain v1 e1 e2 where "run_login_hook s u e1 v1 = (Inl invalid_credentials, e2, w')"
      by (auto simp: verdict_outcome_def)
    from hook_not_invalid [OF assms(2) this] show ?thesis by simp
  qed
  with v obtain i j where rows: "attempt_rows w' = attempt_rows (after_failure email (e_clock e i) (e_clock e j) w)"
    by (auto simp: verdict_outcome_def)
  then have "find_attempt email w' = find_attempt email (after_failure email (e_clock e i) (e_clock e j) w)"
    by (simp add: find_attempt_def)
  note row = this [unfolded after_failure_row]
  have free: "\<not> locked_at (e_clock e n) (find_attempt email w)"
    using refused by (auto simp: verdict_on_def k split: if_splits)
  show ?thesis unfolding counted_def
  proof (intro exI conjI)
    show "{e_clock e n, e_clock e i, e_clock e j} \<subseteq> {a..b}" using c by simp
  qed (use free row in \<open>auto simp: Let_def split: option.splits\<close>)
qed

text \<open>The counter after some guesses: it is at least the number of the guesses since any of them, unless that one is
  more than a quarter of an hour old; and a counter at the limit comes with a lock.\<close>

definition far_apart :: "time \<times> time \<Rightarrow> time \<times> time \<Rightarrow> bool" where
  "far_apart g h \<longleftrightarrow> fst g + minutes 15 \<le> snd h"

definition counter_inv :: "int \<Rightarrow> (time \<times> time) list \<Rightarrow> attempt_row option \<Rightarrow> bool" where
  "counter_inv c0 ts row \<longleftrightarrow>
     (\<forall>g \<in> set ts. fst g \<le> fst (last ts)) \<and>
     (\<forall>r. row = Some r \<longrightarrow> 0 \<le> la_count r \<and> la_count r \<le> c0 + int (length ts)) \<and>
     (ts \<noteq> [] \<longrightarrow> (\<exists>r. row = Some r \<and> la_last r \<in> {fst (last ts)..snd (last ts)} \<and>
        (la_count r \<ge> 5 \<longrightarrow> (\<exists>t \<ge> fst (last ts) + minutes 15. la_locked r = Some t)) \<and>
        (\<forall>j < length ts. int (length ts - j) \<le> la_count r \<or> far_apart (ts ! j) (last ts))))"

lemma bump_simps:
  "la_last (bump_attempt ws m lu now r) = now"
  "la_count (bump_attempt ws m lu now r) = (if la_last r < ws then 1 else la_count r + 1)"
  "la_locked (bump_attempt ws m lu now r) = (if la_count (bump_attempt ws m lu now r) \<ge> m then Some lu else None)"
  by (simp_all add: bump_attempt_def Let_def)

lemma counter_inv_guess:
  assumes inv: "counter_inv c0 ts row" and c: "counted a b row row'"
    and order: "ts = [] \<or> snd (last ts) \<le> a" and small: "c0 + int (length ts) + 1 < 2 ^ 31" and c0: "0 \<le> c0"
  shows "counter_inv c0 (ts @ [(a, b)]) row'"
    and "\<forall>i. length ts = i + 5 \<longrightarrow> far_apart (ts ! i) (a, b)"
proof -
  obtain t0 t1 t2 where t: "t0 \<in> {a..b}" "t1 \<in> {a..b}" "t2 \<in> {a..b}" and free: "\<not> locked_at t0 row"
    and row': "case row of None \<Rightarrow> \<exists>r. row' = Some r \<and> la_count r = 1 \<and> la_last r = t2 \<and> la_locked r = None
      | Some r \<Rightarrow> let r' = bump_attempt (t1 - failure_window) max_failed_logins (t1 + lockout_duration) t2 r in
          row' = (if la_count r' \<ge> 2 ^ 31 then Some r else Some r')"
    using c unfolding counted_def by auto
  have apart: "far_apart (ts ! j) (a, b)" if "far_apart (ts ! j) (last ts)" "j < length ts" for j
    using that order t(1) by (auto simp: far_apart_def)
  have first: "fst g \<le> fst (last ts)" if "g \<in> set ts" for g using inv that by (simp add: counter_inv_def)
  have old: "int (length ts - j) \<le> 4 \<or> far_apart (ts ! j) (a, b)" if "j < length ts" for j
  proof -
    from that inv obtain r where r: "row = Some r"
      and lock: "la_count r \<ge> 5 \<longrightarrow> (\<exists>t \<ge> fst (last ts) + minutes 15. la_locked r = Some t)"
      and cnt: "int (length ts - j) \<le> la_count r \<or> far_apart (ts ! j) (last ts)"
      by (auto simp: counter_inv_def)
    show ?thesis
    proof (cases "la_count r \<ge> 5")
      case True
      with lock free r have "fst (last ts) + minutes 15 \<le> t0" by (auto simp: locked_at_def)
      with t(1) first [of "ts ! j"] that show ?thesis by (auto simp: far_apart_def)
    next
      case False
      with cnt apart that show ?thesis by auto
    qed
  qed
  show "\<forall>i. length ts = i + 5 \<longrightarrow> far_apart (ts ! i) (a, b)"
  proof (intro allI impI)
    fix i assume "length ts = i + 5"
    with old [of i] show "far_apart (ts ! i) (a, b)" by simp
  qed
  show "counter_inv c0 (ts @ [(a, b)]) row'"
  proof (cases row)
    case None
    with inv have "ts = []" by (auto simp: counter_inv_def)
    with row' None t c0 show ?thesis by (auto simp: counter_inv_def)
  next
    case (Some r)
    let ?r = "bump_attempt (t1 - failure_window) max_failed_logins (t1 + lockout_duration) t2 r"
    have cnt: "0 \<le> la_count r" "la_count r \<le> c0 + int (length ts)" using inv Some by (auto simp: counter_inv_def)
    then have cnt': "1 \<le> la_count ?r" "la_count ?r \<le> c0 + int (length ts) + 1" using c0 by (simp_all add: bump_simps)
    then have new: "row' = Some ?r" using row' Some small by (simp add: Let_def)
    have bounds: "ts \<noteq> [] \<longrightarrow> fst (last ts) \<le> la_last r \<and> la_last r \<le> snd (last ts)" using inv Some by (auto simp: counter_inv_def)
    have ab: "a \<le> b" using t(1) by simp
    have before: "fst g \<le> a" if "g \<in> set ts" for g
      using first [OF that] bounds order that by (cases ts) auto
    have step: "int (length ts + 1 - j) \<le> la_count ?r \<or> far_apart (ts ! j) (a, b)" if j: "j < length ts" for j
    proof (cases "la_last r < t1 - failure_window")
      case True
      with bounds j first [of "ts ! j"] t(2) show ?thesis by (auto simp: far_apart_def failure_window_def)
    next
      case False
      from inv Some j have "int (length ts - j) \<le> la_count r \<or> far_apart (ts ! j) (last ts)"
        by (auto simp: counter_inv_def)
      with False apart [OF _ j] j show ?thesis by (auto simp: bump_simps of_nat_diff)
    qed
    have lock: "la_count ?r \<ge> 5 \<longrightarrow> (\<exists>t \<ge> a + minutes 15. la_locked ?r = Some t)"
      using t(2) by (simp add: bump_simps(3) max_failed_logins_def lockout_duration_def)
    have each: "int (length ts + 1 - j) \<le> la_count ?r \<or> far_apart ((ts @ [(a, b)]) ! j) (a, b)" if "j < length ts + 1" for j
      using step [of j] cnt'(1) that by (cases "j = length ts") (auto simp: nth_append)
    show ?thesis
      unfolding counter_inv_def new using before ab cnt' t(3) lock each by (simp add: bump_simps(1))
  qed
qed

text \<open>C3. The lockout bounds guessing. As long as the counter of an address is changed by failed sign-ins only (a
  successful one clears it), in a run of failed sign-ins at the address, one after another and without faults of
  the database, whatever passwords and spellings of the address they use, any six of them take at least
  fifteen minutes: the last clock reading of the sixth is that much later than the first one of the first.\<close>

theorem lockout_bounds_guessing:
  assumes "attempts_spared s" and "hook_speaks_for_itself s" and "guesses s email w ts w'"
    and "\<forall>r. find_attempt email w = Some r \<longrightarrow> 0 \<le> la_count r \<and> la_count r + int (length ts) < 2 ^ 31"
    and "length ts < 2 ^ 31" and "i + 5 < length ts"
  shows "fst (ts ! i) + minutes 15 \<le> snd (ts ! (i + 5))"
proof -
  define c0 where "c0 = (case find_attempt email w of None \<Rightarrow> 0 | Some r \<Rightarrow> la_count r)"
  have c0: "0 \<le> c0" and small: "c0 + int (length ts) < 2 ^ 31" using assms(4,5) by (auto simp: c0_def split: option.splits)
  from assms(3) have "c0 + int (length ts) < 2 ^ 31 \<longrightarrow> counter_inv c0 ts (find_attempt email w') \<and>
    (\<forall>i. i + 5 < length ts \<longrightarrow> far_apart (ts ! i) (ts ! (i + 5)))"
  proof induction
    case none
    from c0 show ?case by (auto simp: counter_inv_def c0_def)
  next
    case (other ts v v')
    then show ?case by simp
  next
    case (guess ts v a b v')
    show ?case
    proof (intro impI)
      assume s: "c0 + int (length (ts @ [(a, b)])) < 2 ^ 31"
      then have inv: "counter_inv c0 ts (find_attempt email v)"
        and old: "\<forall>i. i + 5 < length ts \<longrightarrow> far_apart (ts ! i) (ts ! (i + 5))" using guess.IH by simp_all
      note step = counter_inv_guess [OF inv failed_guess_counted [OF assms(1,2) guess.hyps(3)] guess.hyps(2) _ c0]
      have "far_apart ((ts @ [(a, b)]) ! i) ((ts @ [(a, b)]) ! (i + 5))" if "i + 5 < length (ts @ [(a, b)])" for i
        using old step(2) s that by (cases "i + 5 = length ts") (auto simp: nth_append)
      with step(1) s show "counter_inv c0 (ts @ [(a, b)]) (find_attempt email v') \<and>
          (\<forall>i. i + 5 < length (ts @ [(a, b)]) \<longrightarrow> far_apart ((ts @ [(a, b)]) ! i) ((ts @ [(a, b)]) ! (i + 5)))" by simp
    qed
  qed
  with small assms(6) show ?thesis by (simp add: far_apart_def)
qed

end
