(* ===== verification/AuthRefine.thy ===== *)
theory AuthRefine imports AuthFamilies begin

text \<open>
  The session operations refine the family automaton: what each leaves in the tables, and the abstract step it is.
\<close>

section \<open>The pieces\<close>

lemma reads_rand [intro, simp]: "reads (rand_read x n)"
  unfolding rand_read_def by (rule reads_bind) (auto split: option.splits)

lemma reads_new_refresh_token [intro, simp]: "reads (new_refresh_token x)"
  unfolding new_refresh_token_def Let_def by (rule reads_bind) auto

lemma reads_issue_access [intro, simp]:
  "reads (issue_access_full s u t i sc a r c)" "reads (issue_access s u t i sc)" "reads (issue_access_claims s u t i sc c)"
proof -
  show "reads (issue_access_full s u t i sc a r c)" for a r c
    unfolding issue_access_full_def Let_def by (intro reads_bind reads_intros) (auto split: option.splits)
  then show "reads (issue_access s u t i sc)" "reads (issue_access_claims s u t i sc c)"
    by (simp_all add: issue_access_def issue_access_claims_def)
qed

lemma new_refresh_token_ok:
  "new_refresh_token x e w = (Inr (raw, hash), e', w') \<Longrightarrow> w' = w \<and> hash = hash_refresh x raw"
  using readsD [OF reads_new_refresh_token, of x e w "Inr (raw, hash)" e' w']
  by (auto simp: new_refresh_token_def bind_ok ret_ok Let_def)

lemma insert_refresh_token_ok:
  assumes "insert_refresh_token session hash expires e w = (Inr i, e', w')"
  obtains issued where "w' = w\<lparr>refresh_rows := refresh_rows w @ [new_token i session hash issued expires]\<rparr>"
    and "i \<notin> rf_id ` set (refresh_rows w)" and "hash \<notin> rf_hash ` set (refresh_rows w)"
    and "session \<in> ss_id ` set (session_rows w)"
  using assms by (auto simp: insert_refresh_token_def io_ok insert_refresh_def new_token_def split: if_splits)

lemma new_token_simps [simp]:
  "rf_id (new_token i s h t x) = i" "rf_session (new_token i s h t x) = s" "rf_hash (new_token i s h t x) = h"
  "rf_used (new_token i s h t x) = None" "rf_expires (new_token i s h t x) = x" "rf_replaced (new_token i s h t x) = None"
  by (simp_all add: new_token_def)

lemma new_session_simps [simp]:
  "ss_id (new_session i u t a now) = i" "ss_user (new_session i u t a now) = u"
  "ss_tenant (new_session i u t a now) = t" "ss_revoked (new_session i u t a now) = None"
  by (simp_all add: new_session_def)

lemma open_session_ok:
  assumes "open_session s user tenant ip ua custom e w = (Inr p, e', w')"
  obtains sess t where "session_addable sess t w" and "w' = with_session sess t w" and "ss_id sess = tp_session p"
    and "ss_user sess = user" and "ss_tenant sess = tenant" and "tp_user p = user" and "tp_tenant p = tenant"
    and "rf_hash t = hash_refresh (tx_crypto (as_ext s)) (tp_refresh p)" and "user_exists user w"
proof -
  from assms obtain sid e1 now w1 u e2 access exp e3 w2 raw hash e4 w3 ex e5 i e6 where
    ins: "db_exec (insert_session (as_ext s) ip (new_session sid user tenant ua now)) e1 w = (Inr u, e2, w1)"
    and acc: "issue_access_claims s user (option_nil tenant) sid [] custom e2 w1 = (Inr (access, exp), e3, w2)"
    and tok: "new_refresh_token (tx_crypto (as_ext s)) e3 w2 = (Inr (raw, hash), e4, w3)"
    and ref: "insert_refresh_token sid hash ex e5 w3 = (Inr i, e6, w')"
    and p: "p = \<lparr>tp_access = access, tp_expires = exp, tp_refresh = raw, tp_session = sid, tp_user = user, tp_tenant = tenant\<rparr>"
    unfolding open_session_def by (auto simp: bind_ok ret_ok time_now_ok uuid_new_ok)
  have w: "w2 = w1" "w3 = w1" "hash = hash_refresh (tx_crypto (as_ext s)) raw"
    using readsD [OF reads_issue_access(3) acc] new_refresh_token_ok [OF tok] by auto
  let ?s = "(new_session sid user tenant ua now)\<lparr>ss_ip := (if ip = [] then None else ax_inet (tx_audit (as_ext s)) ip)\<rparr>"
  from ins have w1: "w1 = w\<lparr>session_rows := session_rows w @ [?s]\<rparr>" "sid \<notin> ss_id ` set (session_rows w)" "user_exists user w"
    by (auto simp: db_exec_ok insert_session_def split: if_splits)
  from ref [unfolded w] obtain issued where
    t: "w' = w1\<lparr>refresh_rows := refresh_rows w1 @ [new_token i sid hash issued ex]\<rparr>"
    "i \<notin> rf_id ` set (refresh_rows w1)" "hash \<notin> rf_hash ` set (refresh_rows w1)"
    unfolding w(3) by (rule insert_refresh_token_ok) 
  show thesis
    by (rule that [of ?s "new_token i sid hash issued ex"])
      (use t w1 w p in \<open>simp_all add: session_addable_def with_session_def\<close>)
qed

lemma issue_pair_ok:
  assumes "issue_pair s user tenant ip ua method custom e w = (Inr p, e', w')"
  obtains sess t rows where "session_addable sess t w" and "w' = (with_session sess t w)\<lparr>audit_rows := rows\<rparr>"
    and "audited (tx_audit (as_ext s)) (login_event user (nil_option tenant) (tp_session p) ip ua method) (audit_rows w) rows"
    and "ss_id sess = tp_session p" and "ss_user sess = user" and "ss_tenant sess = nil_option tenant"
    and "tp_user p = user" and "tp_tenant p = nil_option tenant"
    and "rf_hash t = hash_refresh (tx_crypto (as_ext s)) (tp_refresh p)" and "user_exists user w"
proof -
  from assms obtain e1 e2 w1 e3 u where
    o: "open_session s user (nil_option tenant) ip ua custom e1 w = (Inr p, e2, w1)"
    and r: "record_audit (tx_audit (as_ext s)) (login_event user (nil_option tenant) (tp_session p) ip ua method) e2 w1 =
      (Inr u, e3, w')"
    unfolding issue_pair_def by (auto simp: io_ok elim!: in_tx_ok)
  from open_session_ok [OF o] obtain sess t where c: "session_addable sess t w" "w1 = with_session sess t w"
    "ss_id sess = tp_session p" "ss_user sess = user" "ss_tenant sess = nil_option tenant" "tp_user p = user"
    "tp_tenant p = nil_option tenant" "rf_hash t = hash_refresh (tx_crypto (as_ext s)) (tp_refresh p)" "user_exists user w" .
  from record_audit_audited [OF r] obtain rows where "w' = w1\<lparr>audit_rows := rows\<rparr>"
    "audited (tx_audit (as_ext s)) (login_event user (nil_option tenant) (tp_session p) ip ua method) (audit_rows w1) rows"
    by blast
  with that [OF c(1) _ _ c(3-9)] c(2) show thesis by (simp add: with_session_def)
qed

lemma atomic_issue_pair: "atomic (issue_pair s user tenant ip ua method custom)"
  by (simp add: issue_pair_def)

section \<open>Refresh\<close>

lemma find_refresh_Some:
  assumes "find_refresh hash w = Some (t, sess, u)"
  shows "t \<in> set (refresh_rows w)" and "rf_hash t = hash" and "find_session (rf_session t) w = Some sess"
    and "ss_id sess = rf_session t" and "u \<in> set (user_rows w)" and "us_id u = ss_user sess"
proof -
  from assms have t: "List.find (\<lambda>t. rf_hash t = hash) (refresh_rows w) = Some t"
    and s: "List.find (\<lambda>s. ss_id s = rf_session t) (session_rows w) = Some sess"
    and u: "List.find (\<lambda>u. us_id u = ss_user sess) (user_rows w) = Some u"
    by (auto simp: find_refresh_def split: Option.bind_splits)
  from find_mem [OF t] find_holds [OF t] show "t \<in> set (refresh_rows w)" "rf_hash t = hash" by simp_all
  from s show "find_session (rf_session t) w = Some sess" by (simp add: find_session_def)
  from find_holds [OF s] show "ss_id sess = rf_session t" .
  from find_mem [OF u] find_holds [OF u] show "u \<in> set (user_rows w)" "us_id u = ss_user sess" by simp_all
qed

lemma rotate_token_ok:
  assumes "rotate_token s t sess e w = (Inr p, e', w')" and "ss_id sess = rf_session t" and "t \<in> set (refresh_rows w)"
    and "rf_used t = None" and "find_session (rf_session t) w = Some sess" and "ss_revoked sess = None"
  obtains used n seen where "rotatable t sess n w" and "w' = with_rotation t used n seen w"
    and "rf_hash n = hash_refresh (tx_crypto (as_ext s)) (tp_refresh p)" and "tp_session p = rf_session t"
    and "tp_user p = ss_user sess" and "tp_tenant p = ss_tenant sess"
proof -
  from assms(1) obtain raw hash e1 w1 now e2 i e3 w2 used seen access exp e4 w3 e5 where
    tok: "new_refresh_token (tx_crypto (as_ext s)) e w = (Inr (raw, hash), e1, w1)"
    and ins: "insert_refresh_token (ss_id sess) hash (now + as_refresh_ttl s) e2 w1 = (Inr i, e3, w2)"
    and acc: "issue_access s (ss_user sess) (option_nil (ss_tenant sess)) (ss_id sess) [] e4
      (touch_session (ss_id sess) seen (mark_refresh_used i (rf_id t) used w2)) = (Inr (access, exp), e5, w')"
    and p: "p = \<lparr>tp_access = access, tp_expires = exp, tp_refresh = raw, tp_session = ss_id sess,
      tp_user = ss_user sess, tp_tenant = ss_tenant sess\<rparr>"
    unfolding rotate_token_def by (auto simp: io_ok)
  have w: "w1 = w" "hash = hash_refresh (tx_crypto (as_ext s)) raw" using new_refresh_token_ok [OF tok] by auto
  have w': "w' = touch_session (ss_id sess) seen (mark_refresh_used i (rf_id t) used w2)"
    using readsD [OF reads_issue_access(2) acc] by simp
  from ins [unfolded w] obtain issued where
    n: "w2 = w\<lparr>refresh_rows := refresh_rows w @ [new_token i (ss_id sess) hash issued (now + as_refresh_ttl s)]\<rparr>"
    "i \<notin> rf_id ` set (refresh_rows w)" "hash \<notin> rf_hash ` set (refresh_rows w)"
    unfolding w(2) by (rule insert_refresh_token_ok)
  show thesis
    by (rule that [of "new_token i (ss_id sess) hash issued (now + as_refresh_ttl s)" used seen])
      (use n w w' p assms in \<open>simp_all add: rotatable_def with_rotation_def\<close>)
qed

lemma handle_reuse_ok:
  assumes "handle_refresh_reuse x user tenant session token i e w = (Inr u, e', w')"
  obtains now and rows and evs where "w' = (revoke_session_row session now w)\<lparr>audit_rows := rows, outbox_rows := evs\<rparr>"
    and "audited (tx_audit x) (reuse_audit_event x user tenant session token i) (audit_rows w) rows"
    and "queued (reuse_outbox_event x user tenant session i) (outbox_rows w) evs"
proof -
  from assms obtain now e1 e2 w1 v where
    r: "record_audit (tx_audit x) (reuse_audit_event x user tenant session token i) e1 (revoke_session_row session now w) =
      (Inr v, e2, w1)"
    and q: "enqueue (reuse_outbox_event x user tenant session i) e2 w1 = (Inr u, e', w')"
    by (auto simp: handle_refresh_reuse_def revoke_session_by_id_def io_ok)
  from record_audit_audited [OF r] obtain rows where w1: "w1 = (revoke_session_row session now w)\<lparr>audit_rows := rows\<rparr>"
    and a: "audited (tx_audit x) (reuse_audit_event x user tenant session token i)
      (audit_rows (revoke_session_row session now w)) rows" by blast
  from enqueue_queued [OF q] obtain evs where "w' = w1\<lparr>outbox_rows := evs\<rparr>"
    and "queued (reuse_outbox_event x user tenant session i) (outbox_rows w1) evs" by blast
  with w1 a show thesis by (intro that) (simp_all add: revoke_session_row_def)
qed

text \<open>What the transaction of \<^verbatim>\<open>Refresh\<close> commits, and from which state.\<close>

definition refreshable :: "string \<Rightarrow> refresh_row \<Rightarrow> session_row \<Rightarrow> user_row \<Rightarrow> 'z auth_db_scheme \<Rightarrow> bool" where
  "refreshable hash t sess u w \<longleftrightarrow> find_refresh hash w = Some (t, sess, u) \<and> ss_revoked sess = None \<and>
     us_deleted u = None \<and> us_status u \<noteq> ''suspended''"

lemma refresh_tx_ok:
  assumes "refresh_tx s i e w = (Inr out, e', w')"
  obtains t sess u now e1 where "refreshable (hash_refresh (tx_crypto (as_ext s)) (ri_token i)) t sess u w"
      and "now \<le> rf_expires t" and "rf_used t \<noteq> None"
      and "out = Reused (ss_user sess) (option_nil (ss_tenant sess)) (ss_id sess)"
      and "handle_refresh_reuse (as_ext s) (ss_user sess) (option_nil (ss_tenant sess)) (ss_id sess) (rf_id t) i e1 w =
        (Inr (), e', w')"
  | t sess u now p e1 where "refreshable (hash_refresh (tx_crypto (as_ext s)) (ri_token i)) t sess u w"
      and "now \<le> rf_expires t" and "rf_used t = None" and "out = Rotated p"
      and "rotate_token s t sess e1 w = (Inr p, e', w')"
proof -
  let ?h = "hash_refresh (tx_crypto (as_ext s)) (ri_token i)"
  from assms obtain t sess u where f: "find_refresh ?h w = Some (t, sess, u)"
    by (auto simp: refresh_tx_def bind_ok db_read_ok fail_ok split: option.splits)
  with assms have r: "refreshable ?h t sess u w"
    by (auto simp: refresh_tx_def refreshable_def bind_ok db_read_ok fail_ok split: if_splits)
  from assms f r have "e_clock e (e_ticks e) \<le> rf_expires t"
    by (auto simp: refresh_tx_def refreshable_def bind_ok db_read_ok fail_ok time_now_ok not_less split: if_splits)
  then show thesis
  proof (cases "rf_used t")
    case None
    with assms f r \<open>e_clock e (e_ticks e) \<le> rf_expires t\<close> obtain e1 p where "rotate_token s t sess e1 w = (Inr p, e', w')" "out = Rotated p"
      by (auto simp: refresh_tx_def refreshable_def bind_ok db_read_ok time_now_ok ret_ok)
    with that(2) [OF r \<open>e_clock e (e_ticks e) \<le> rf_expires t\<close> None] show thesis by blast
  next
    case (Some used)
    with assms f r \<open>e_clock e (e_ticks e) \<le> rf_expires t\<close> obtain e1 where
      "handle_refresh_reuse (as_ext s) (ss_user sess) (option_nil (ss_tenant sess)) (ss_id sess) (rf_id t) i e1 w = (Inr (), e', w')"
      "out = Reused (ss_user sess) (option_nil (ss_tenant sess)) (ss_id sess)"
      by (auto simp: refresh_tx_def refreshable_def bind_ok db_read_ok time_now_ok ret_ok)
    with that(1) [OF r \<open>e_clock e (e_ticks e) \<le> rf_expires t\<close>] Some show thesis by blast
  qed
qed

section \<open>Operations that spare the sessions\<close>

definition spares :: "('z auth_db_scheme, 'a) io \<Rightarrow> bool" where
  "spares m \<longleftrightarrow> (\<forall>e w r e' w'. m e w = (r, e', w') \<longrightarrow> same_sessions w w')"

lemma sparesD: "spares m \<Longrightarrow> m e w = (r, e', w') \<Longrightarrow> same_sessions w w'"
  unfolding spares_def by blast

lemma same_sessions_refl [simp]: "same_sessions w w"
  by (simp add: same_sessions_def)

lemma same_sessions_trans: "same_sessions u v \<Longrightarrow> same_sessions v w \<Longrightarrow> same_sessions u w"
  by (simp add: same_sessions_def)

lemma spares_reads: "reads m \<Longrightarrow> spares m"
  unfolding spares_def by (metis readsD same_sessions_refl)

lemma spares_bind:
  assumes "spares m" and "\<And>a. spares (f a)"
  shows "spares (bind_io m f)"
  unfolding spares_def
proof (intro allI impI)
  fix e w r e' w' assume run: "bind_io m f e w = (r, e', w')"
  obtain r1 e1 w1 where m: "m e w = (r1, e1, w1)" by (metis prod_cases3)
  with assms(1) have s: "same_sessions w w1" by (rule sparesD)
  show "same_sessions w w'"
  proof (cases r1)
    case (Inl err)
    with m run s show ?thesis by (simp add: bind_io_def)
  next
    case (Inr a)
    with m run have "f a e1 w1 = (r, e', w')" by (simp add: bind_io_def)
    from same_sessions_trans [OF s sparesD [OF assms(2) this]] show ?thesis .
  qed
qed

lemma spares_on_error:
  assumes "spares m" and "\<And>x. spares (h x)"
  shows "spares (on_error m h)"
  unfolding spares_def
proof (intro allI impI)
  fix e w r e' w' assume run: "on_error m h e w = (r, e', w')"
  obtain r1 e1 w1 where m: "m e w = (r1, e1, w1)" by (metis prod_cases3)
  with assms(1) have s: "same_sessions w w1" by (rule sparesD)
  show "same_sessions w w'"
  proof (cases r1)
    case (Inr a)
    with m run s show ?thesis by (simp add: on_error_def)
  next
    case (Inl err)
    with m run have "h err e1 w1 = (r, e', w')" by (simp add: on_error_def)
    from same_sessions_trans [OF s sparesD [OF assms(2) this]] show ?thesis .
  qed
qed

lemma spares_db_call: "(\<And>w a w'. f w = (Inr a, w') \<Longrightarrow> same_sessions w w') \<Longrightarrow> spares (db_call f)"
  by (auto simp: spares_def db_call_def Let_def split: if_splits prod.splits sum.splits)

lemma spares_db_write: "(\<And>w. same_sessions w (f w)) \<Longrightarrow> spares (db_write f)"
  unfolding db_write_def by (rule spares_db_call) auto

lemma spares_db_exec: "(\<And>w w'. f w = Inr w' \<Longrightarrow> same_sessions w w') \<Longrightarrow> spares (db_exec f)"
  unfolding db_exec_def by (rule spares_db_call) (auto split: sum.splits)

lemma spares_in_tx: "spares b \<Longrightarrow> spares (in_tx b)"
  unfolding spares_def by (metis in_tx_result same_sessions_refl)

lemma spares_base [simp, intro]:
  "spares (ret a)" "spares (fail x)" "spares (guard b x)" "spares (lift_res r)" "spares (db_read f)"
  "spares time_now" "spares uuid_new" "spares (rand_read y n)" "spares (new_refresh_token y)"
  by (simp_all add: spares_reads)

lemma spares_ignore: "spares m \<Longrightarrow> spares (ignore_error m)"
  unfolding ignore_error_def by (rule spares_on_error) auto

lemmas spares_intros = spares_base spares_bind spares_on_error spares_in_tx spares_ignore

section \<open>Operations that refine the automaton\<close>

definition refines :: "('z auth_db_scheme, 'a) io \<Rightarrow> bool" where
  "refines m \<longleftrightarrow> (\<forall>e w r e' w'. sessions_ok w \<longrightarrow> m e w = (r, e', w') \<longrightarrow>
     sessions_ok w' \<and> family_step (families w) (families w'))"

lemma refinesD:
  "refines m \<Longrightarrow> sessions_ok w \<Longrightarrow> m e w = (r, e', w') \<Longrightarrow> sessions_ok w' \<and> family_step (families w) (families w')"
  unfolding refines_def by blast

lemma refines_spares: "spares m \<Longrightarrow> refines m"
  unfolding refines_def using same_sessions_ok same_families family_step.stutter by (metis sparesD)

lemma refines_after:
  assumes "spares m" and "\<And>a. refines (f a)"
  shows "refines (bind_io m f)"
  unfolding refines_def
proof (intro allI impI)
  fix e w r e' w' assume ok: "sessions_ok w" and run: "bind_io m f e w = (r, e', w')"
  obtain r1 e1 w1 where m: "m e w = (r1, e1, w1)" by (metis prod_cases3)
  with assms(1) have s: "same_sessions w w1" by (rule sparesD)
  show "sessions_ok w' \<and> family_step (families w) (families w')"
  proof (cases r1)
    case (Inl err)
    with m run have "w' = w1" by (simp add: bind_io_def)
    with s ok show ?thesis by (simp add: same_sessions_ok same_families family_step.stutter)
  next
    case (Inr a)
    with m run have "f a e1 w1 = (r, e', w')" by (simp add: bind_io_def)
    with refinesD [OF assms(2) _ this] s ok show ?thesis by (simp add: same_sessions_ok same_families)
  qed
qed

lemma refines_before:
  assumes "refines m" and "\<And>a. spares (f a)"
  shows "refines (bind_io m f)"
  unfolding refines_def
proof (intro allI impI)
  fix e w r e' w' assume ok: "sessions_ok w" and run: "bind_io m f e w = (r, e', w')"
  obtain r1 e1 w1 where m: "m e w = (r1, e1, w1)" by (metis prod_cases3)
  with assms(1) ok have s: "sessions_ok w1 \<and> family_step (families w) (families w1)" by (rule_tac refinesD)
  show "sessions_ok w' \<and> family_step (families w) (families w')"
  proof (cases r1)
    case (Inl err)
    with m run s show ?thesis by (simp add: bind_io_def)
  next
    case (Inr a)
    with m run have "f a e1 w1 = (r, e', w')" by (simp add: bind_io_def)
    with sparesD [OF assms(2) this] s show ?thesis by (simp add: same_sessions_ok same_families)
  qed
qed

lemma refines_atomic:
  assumes "atomic m" and "\<And>a e e' w w'. sessions_ok w \<Longrightarrow> m e w = (Inr a, e', w') \<Longrightarrow>
     sessions_ok w' \<and> family_step (families w) (families w')"
  shows "refines m"
  unfolding refines_def
proof (intro allI impI)
  fix e w r e' w' assume ok: "sessions_ok w" and run: "m e w = (r, e', w')"
  show "sessions_ok w' \<and> family_step (families w) (families w')"
  proof (cases r)
    case (Inl err)
    with run have "w' = w" using atomicD [OF assms(1)] by blast
    with ok show ?thesis by (simp add: family_step.stutter)
  next
    case (Inr a)
    with run assms(2) [OF ok] show ?thesis by blast
  qed
qed

end
