(* ===== verification/SignInSafety.thy ===== *)
theory SignInSafety imports SignInProps AuthRefine begin

text \<open>
  What a sign-in proves: whoever is given a token pair or a hosted session has shown the password of the user, and the
  second factor where the user has one; and the outcome of a sign-in as a function of the verdict.
\<close>

section \<open>Inversion\<close>

lemma reads_lock: "reads (login_locked_until email)"
  unfolding login_locked_until_def
proof (intro reads_bind)
  show "reads (on_error (db_read (\<lambda>w. Option.bind (find_attempt email w) la_locked)) (\<lambda>_. ret None))"
    by (auto simp: reads_def on_error_def db_read_def db_call_def ret_def Let_def)
qed (auto split: option.splits)

definition shows_password :: "auth_ext \<Rightarrow> string \<Rightarrow> string \<Rightarrow> 'z auth_db_scheme \<Rightarrow> user_row \<Rightarrow> bool" where
  "shows_password x raw plain w u \<longleftrightarrow> get_user_by_email x raw w = Some u \<and> us_status u \<in> {''active'', ''invited''} \<and>
     (\<exists>h. get_password_hash (us_id u) w = Some h \<and> h \<noteq> [] \<and> password_verify (tx_crypto x) h plain = Inr True)"

lemma verify_user_ok:
  assumes "verify_user s email plain u e w = (Inr (v, cl), e', w')"
  shows "v = u \<and> us_status u \<in> {''active'', ''invited''} \<and>
     (\<exists>h. get_password_hash (us_id u) w = Some h \<and> h \<noteq> [] \<and> password_verify (tx_crypto (as_ext s)) h plain = Inr True)"
  using assms
  by (auto simp: verify_user_def password_hash_of_def run_login_hook_def io_ok split: if_splits option.splits)

lemma check_password_ok:
  assumes "check_password s raw plain e w = (Inr (u, cl), e', w')"
  shows "shows_password (as_ext s) raw plain w u"
proof -
  let ?key = "to_lower (tx_crypto (as_ext s)) (trim_space raw)"
  obtain l e1 w1 where lock: "login_locked_until ?key e w = (Inr l, e1, w1)"
    and r: "(if l \<noteq> None then fail account_locked
        else bind_io (on_error (bind_io (get_by_email_global (as_ext s) raw) (\<lambda>u. ret (Some u)))
            (\<lambda>err. if err = ApiErr ErrNotFound then ret None else fail err))
          (\<lambda>found. case found of None \<Rightarrow> then_io (record_failed_login s ?key) (fail invalid_credentials)
            | Some u \<Rightarrow> verify_user s ?key plain u)) e1 w1 = (Inr (u, cl), e', w')"
    using assms unfolding check_password_def Let_def bind_ok by blast
  from readsD [OF reads_lock lock] have w1: "w1 = w" .
  from r obtain found e2 w2 where
    f: "on_error (bind_io (get_by_email_global (as_ext s) raw) (\<lambda>u. ret (Some u)))
          (\<lambda>err. if err = ApiErr ErrNotFound then ret None else fail err) e1 w = (Inr found, e2, w2)"
    and v: "(case found of None \<Rightarrow> then_io (record_failed_login s ?key) (fail invalid_credentials)
            | Some u \<Rightarrow> verify_user s ?key plain u) e2 w2 = (Inr (u, cl), e', w')"
    by (auto simp: w1 bind_ok fail_ok split: if_splits)
  from v obtain u0 where u0: "found = Some u0" and v: "verify_user s ?key plain u0 e2 w2 = (Inr (u, cl), e', w')"
    by (cases found) (auto simp: bind_ok fail_ok)
  from f u0 have "get_user_by_email (as_ext s) raw w = Some u0 \<and> w2 = w"
    by (auto simp: get_by_email_global_def on_error_ok bind_ok ret_ok db_read_ok fail_ok split: option.splits if_splits)
  with verify_user_ok [OF v] show ?thesis by (auto simp: shows_password_def)
qed

lemma issue_pair_user: "issue_pair s user tenant ip ua method custom e w = (Inr p, e', w') \<Longrightarrow> tp_user p = user"
  unfolding issue_pair_def
  by (erule in_tx_ok) (auto simp: bind_ok ret_ok open_session_def split: prod.splits)

text \<open>What the second factor is asked, and when: after the challenge was read and the clock compared with its expiry.\<close>

definition after_lookup :: "env \<Rightarrow> env" where
  "after_lookup e = e\<lparr>e_calls := Suc (e_calls e), e_ticks := Suc (e_ticks e)\<rparr>"

definition meets_challenge ::
  "(string \<Rightarrow> uuid option) \<Rightarrow> 'z auth_db_scheme auth_service \<Rightarrow> string \<Rightarrow> string \<Rightarrow> env \<Rightarrow> 'z auth_db_scheme \<Rightarrow> uuid \<Rightarrow> bool" where
  "meets_challenge pu s tok code e w user \<longleftrightarrow>
     (\<exists>m i c e2 w2. as_mfa s = Some m \<and> pu tok = Some i \<and> find_challenge i w = Some c \<and>
        e_clock e (e_ticks e) \<le> mc_expires c \<and> mc_user c = user \<and>
        me_verify m user code (after_lookup e) w = (Inr True, e2, w2))"

lemma consume_run:
  assumes "verify_and_consume pu s tok code e w = (Inr (user, tenant, cl), e', w')"
  obtains m i c e2 w2 where "as_mfa s = Some m" and "pu tok = Some i" and "find_challenge i w = Some c"
    and "e_clock e (e_ticks e) \<le> mc_expires c" and "mc_user c = user"
    and "me_verify m user code (after_lookup e) w = (Inr True, e2, w2)" and "w' = w2 \<or> w' = delete_challenge i w2"
proof -
  obtain m i where m: "as_mfa s = Some m" and i: "pu tok = Some i"
    using assms by (auto simp: verify_and_consume_def fail_ok split: option.splits)
  from assms obtain c where c: "find_challenge i w = Some c" and r: "bind_io time_now (\<lambda>now.
      if now > mc_expires c then then_io (ignore_error (db_write (delete_challenge i))) (fail (challenge_error ''mfa challenge expired''))
      else bind_io (me_verify m (mc_user c) code) (\<lambda>ok.
        if \<not> ok then fail wrong_code
        else then_io (ignore_error (db_write (delete_challenge i)))
          (ret (mc_user c, option_nil (mc_tenant c),
            (case Option.bind (mc_claims c) (tx_claims (as_ext s)) of None \<Rightarrow> [] | Some k \<Rightarrow> k)))))
      (e\<lparr>e_calls := Suc (e_calls e)\<rparr>) w = (Inr (user, tenant, cl), e', w')"
    unfolding verify_and_consume_def m i
    by (cases "find_challenge i w") (auto simp: bind_ok db_read_ok fail_ok)
  then obtain ok e2 w2 where t: "e_clock e (e_ticks e) \<le> mc_expires c"
    and v: "me_verify m (mc_user c) code (e\<lparr>e_calls := Suc (e_calls e), e_ticks := Suc (e_ticks e)\<rparr>) w = (Inr ok, e2, w2)"
    and rest: "(if \<not> ok then fail wrong_code
        else then_io (ignore_error (db_write (delete_challenge i)))
          (ret (mc_user c, option_nil (mc_tenant c),
            (case Option.bind (mc_claims c) (tx_claims (as_ext s)) of None \<Rightarrow> [] | Some k \<Rightarrow> k)))) e2 w2
      = (Inr (user, tenant, cl), e', w')"
    by (auto simp: bind_ok time_now_ok fail_ok split: if_splits)
  from rest have "ok" and u: "mc_user c = user" by (auto simp: bind_ok fail_ok ret_ok split: if_splits)
  with v have v: "me_verify m user code (after_lookup e) w = (Inr True, e2, w2)" by (simp add: after_lookup_def)
  from rest \<open>ok\<close> have "w' = w2 \<or> w' = delete_challenge i w2"
    by (auto simp: bind_ok ret_ok ignore_error_def on_error_ok db_write_def db_call_def Let_def split: if_splits)
  with m i c t u v show thesis by (rule that)
qed

lemma consume_ok:
  assumes "verify_and_consume pu s tok code e w = (Inr (user, tenant, cl), e', w')"
  shows "meets_challenge pu s tok code e w user"
  using assms by (rule consume_run) (unfold meets_challenge_def, blast)

section \<open>Time\<close>

text \<open>An operation that reads the clock of its environment, and does not set it back.\<close>

definition timely :: "('w, 'a) io \<Rightarrow> bool" where
  "timely m \<longleftrightarrow> (\<forall>e w r e' w'. m e w = (r, e', w') \<longrightarrow> e_clock e' = e_clock e \<and> e_ticks e \<le> e_ticks e')"

lemma timelyD: "timely m \<Longrightarrow> m e w = (r, e', w') \<Longrightarrow> e_clock e' = e_clock e \<and> e_ticks e \<le> e_ticks e'"
  unfolding timely_def by blast

named_theorems timely_intros \<open>operations that do not set the clock back\<close>

lemma timely_basic [timely_intros]:
  "timely (ret a)" "timely (fail x)" "timely time_now" "timely uuid_new" "timely (db_call f)" "timely (db_read g)"
  "timely (db_write h)" "timely (db_exec k)" "timely (lift_res r)"
  by (auto simp: timely_def ret_def fail_def time_now_def uuid_new_def db_call_def db_read_def db_write_def db_exec_def
      lift_res_def Let_def split: prod.splits sum.splits if_splits)

lemma timely_bind [timely_intros]:
  assumes "timely m" and "\<And>a. timely (f a)"
  shows "timely (bind_io m f)"
  unfolding timely_def
proof (intro allI impI)
  fix e w r e' w' assume run: "bind_io m f e w = (r, e', w')"
  obtain r1 e1 w1 where m: "m e w = (r1, e1, w1)" by (metis prod_cases3)
  show "e_clock e' = e_clock e \<and> e_ticks e \<le> e_ticks e'"
  proof (cases r1)
    case (Inl x)
    with run m timelyD [OF assms(1) m] show ?thesis by (auto simp: bind_io_def)
  next
    case (Inr a)
    with run m have "f a e1 w1 = (r, e', w')" by (simp add: bind_io_def)
    from timelyD [OF assms(2) this] timelyD [OF assms(1) m] show ?thesis by simp
  qed
qed

lemma timely_on_error [timely_intros]:
  assumes "timely m" and "\<And>x. timely (h x)"
  shows "timely (on_error m h)"
  unfolding timely_def
proof (intro allI impI)
  fix e w r e' w' assume run: "on_error m h e w = (r, e', w')"
  obtain r1 e1 w1 where m: "m e w = (r1, e1, w1)" by (metis prod_cases3)
  show "e_clock e' = e_clock e \<and> e_ticks e \<le> e_ticks e'"
  proof (cases r1)
    case (Inr a)
    with run m timelyD [OF assms(1) m] show ?thesis by (auto simp: on_error_def)
  next
    case (Inl x)
    with run m have "h x e1 w1 = (r, e', w')" by (simp add: on_error_def)
    from timelyD [OF assms(2) this] timelyD [OF assms(1) m] show ?thesis by simp
  qed
qed

lemma timely_cases [timely_intros]:
  "(c \<Longrightarrow> timely a) \<Longrightarrow> (\<not> c \<Longrightarrow> timely b) \<Longrightarrow> timely (if c then a else b)"
  "timely a \<Longrightarrow> (\<And>y. o1 = Some y \<Longrightarrow> timely (g y)) \<Longrightarrow> timely (case o1 of None \<Rightarrow> a | Some y \<Rightarrow> g y)"
  "(\<And>y z. timely (k y z)) \<Longrightarrow> timely (case p of (y, z) \<Rightarrow> k y z)"
  by (simp, cases o1, simp_all, cases p, simp)

lemma timely_ignore [timely_intros]: "timely m \<Longrightarrow> timely (ignore_error m)"
  unfolding ignore_error_def by (intro timely_intros)

text \<open>What is asked of the collaborators of the service.\<close>

definition timely_service :: "'z auth_db_scheme auth_service \<Rightarrow> bool" where
  "timely_service s \<longleftrightarrow>
     (\<forall>m u. as_mfa s = Some m \<longrightarrow> timely (me_enrolled m u)) \<and> (\<forall>f a. as_anomaly s = Some f \<longrightarrow> timely (f a)) \<and>
     (\<forall>f t. as_devices s = Some f \<longrightarrow> timely (f t)) \<and> (\<forall>f t u a b c. as_risk s = Some f \<longrightarrow> timely (f t u a b c)) \<and>
     (\<forall>f t u m. as_hook s = Some f \<longrightarrow> timely (f t u m))"

lemma timely_login:
  assumes "timely_service s"
  shows "timely (check_password s raw plain)" "timely (mfa_enrolled s u)" "timely (create_login_session x v ip ua)"
proof -
  note parts = assms [unfolded timely_service_def]
  have failed: "timely (record_failed_login s email)" for email
    unfolding record_failed_login_def upsert_login_attempt_def by (intro timely_intros) (use parts in blast)
  have hash: "timely (hash_password y p)" for y p
    unfolding hash_password_def rand_read_def by (intro timely_intros)
  have rehash: "timely (rehash_on_login y v h p)" for y v h p
    unfolding rehash_on_login_def by (intro timely_intros hash)
  have hook: "timely (run_login_hook s v)" for v
    unfolding run_login_hook_def by (intro timely_intros) (use parts in blast)
  have verify: "timely (verify_user s email plain v)" for email v
    unfolding verify_user_def password_hash_of_def clear_login_attempts_def by (intro timely_intros failed rehash hook)
  show "timely (check_password s raw plain)"
    unfolding check_password_def Let_def login_locked_until_def get_by_email_global_def by (intro timely_intros failed verify)
  show "timely (mfa_enrolled s u)"
    unfolding mfa_enrolled_def by (intro timely_intros) (use parts in blast)
  show "timely (create_login_session x v ip ua)"
    unfolding create_login_session_def new_refresh_token_def rand_read_def Let_def by (intro timely_intros)
qed

section \<open>Trusted devices\<close>

definition devices_spared :: "'z auth_db_scheme auth_service \<Rightarrow> bool" where
  "devices_spared s \<longleftrightarrow>
     (\<forall>f t ds. as_devices s = Some f \<longrightarrow> keeps (\<lambda>w. device_rows w = ds) (f t)) \<and>
     (\<forall>f t u a b c ds. as_risk s = Some f \<longrightarrow> keeps (\<lambda>w. device_rows w = ds) (f t u a b c))"

lemma is_trusted_device_ok:
  assumes "is_trusted_device x user raw e w = (Inr True, e', w')"
  shows "(\<exists>d \<in> set (device_rows w). device_matches (hash_refresh (tx_crypto x) raw) user (e_clock e (e_ticks e)) d) \<and>
    e_ticks e < e_ticks e'"
  using assms by (auto simp: is_trusted_device_def io_ok touch_device_def Let_def filter_empty_conv split: if_splits)

lemma device_trusted_ok:
  assumes "devices_spared s" and "timely_service s" and "device_trusted s user tenant tok ip ua co e w = (Inr True, e', w')"
  shows "tok \<noteq> [] \<and> (\<exists>d \<in> set (device_rows w). \<exists>n. e_ticks e \<le> n \<and> n < e_ticks e' \<and>
    device_matches (hash_refresh (tx_crypto (as_ext s)) tok) user (e_clock e n) d)"
proof -
  note parts = assms(2) [unfolded timely_service_def]
  obtain f where f: "as_devices s = Some f" and tok: "tok \<noteq> []"
    using assms(3) by (auto simp: device_trusted_def ret_ok split: option.splits if_splits)
  from assms(3) obtain ok e1 w1 where en: "on_error (f tenant) (\<lambda>_. ret False) e w = (Inr ok, e1, w1)"
    and r: "(if \<not> ok then ret False
            else bind_io (case as_risk s of None \<Rightarrow> ret False | Some f \<Rightarrow> f tenant user ip ua co) (\<lambda>forced.
              if forced then ret False else is_trusted_device (as_ext s) user tok)) e1 w1 = (Inr True, e', w')"
    unfolding device_trusted_def f using tok by (auto simp: bind_ok)
  have "keeps (\<lambda>v. device_rows v = device_rows w) (on_error (f tenant) (\<lambda>_. ret False))"
    using assms(1) f by (intro keeps_on_error) (auto simp: devices_spared_def intro: keeps_reads)
  from keepsD [OF this refl en] have w1: "device_rows w1 = device_rows w" .
  have "timely (on_error (f tenant) (\<lambda>_. ret False))" using parts f by (intro timely_intros) blast
  from timelyD [OF this en] have t1: "e_clock e1 = e_clock e" "e_ticks e \<le> e_ticks e1" by simp_all
  from r obtain forced e2 w2 where
    k: "(case as_risk s of None \<Rightarrow> ret False | Some f \<Rightarrow> f tenant user ip ua co) e1 w1 = (Inr forced, e2, w2)"
    and d: "(if forced then ret False else is_trusted_device (as_ext s) user tok) e2 w2 = (Inr True, e', w')"
    by (auto simp: bind_ok ret_ok split: if_splits)
  have "keeps (\<lambda>v. device_rows v = device_rows w) (case as_risk s of None \<Rightarrow> ret False | Some f \<Rightarrow> f tenant user ip ua co)"
    using assms(1) by (auto simp: devices_spared_def intro: keeps_reads split: option.splits)
  from keepsD [OF this w1 k] have w2: "device_rows w2 = device_rows w" .
  have "timely (case as_risk s of None \<Rightarrow> ret False | Some f \<Rightarrow> f tenant user ip ua co)"
    using parts by (intro timely_intros) blast
  from timelyD [OF this k] t1 have t2: "e_clock e2 = e_clock e" "e_ticks e \<le> e_ticks e2" by simp_all
  from d have "is_trusted_device (as_ext s) user tok e2 w2 = (Inr True, e', w')" by (auto simp: ret_ok split: if_splits)
  from is_trusted_device_ok [OF this] w2 tok t2 show ?thesis by auto
qed


end
