(* ===== verification/AuthProps.thy ===== *)
theory AuthProps imports AuthRefine begin

text \<open>
  Properties of sessions and refresh tokens: every operation refines the family automaton, a refresh token works
  once, a revoked family is dead.
\<close>

section \<open>The operations\<close>

text \<open>The collaborators keep their hands off the two tables.\<close>

definition collaborators_spare :: "'z auth_db_scheme auth_service \<Rightarrow> bool" where
  "collaborators_spare s \<longleftrightarrow>
     (\<forall>f t ty p. as_emitter s = Some f \<longrightarrow> spares (f t ty p)) \<and>
     (\<forall>m u c. as_mfa s = Some m \<longrightarrow> spares (me_enrolled m u) \<and> spares (me_verify m u c)) \<and>
     (\<forall>g t p. as_registration s = Some g \<longrightarrow> spares (rg_enabled g t) \<and> spares (rg_validate g t p)) \<and>
     (\<forall>f a. as_anomaly s = Some f \<longrightarrow> spares (f a)) \<and>
     (\<forall>f p. as_breach s = Some f \<longrightarrow> spares (f p)) \<and>
     (\<forall>f t. as_devices s = Some f \<longrightarrow> spares (f t)) \<and>
     (\<forall>f t u a b c. as_risk s = Some f \<longrightarrow> spares (f t u a b c)) \<and>
     (\<forall>f t u m. as_hook s = Some f \<longrightarrow> spares (f t u m))"

lemma spares_emit: "collaborators_spare s \<Longrightarrow> spares (auth_emit s t ty p)"
  by (auto simp: auth_emit_def collaborators_spare_def intro!: spares_ignore split: option.splits)

lemma auth_emit_answers: "\<exists>e' w'. auth_emit s t ty p e w = (Inr (), e', w')"
proof (cases "as_emitter s")
  case (Some f)
  obtain r e1 w1 where "f t ty p e w = (r, e1, w1)" by (metis prod_cases3)
  with Some show ?thesis by (cases r) (auto simp: auth_emit_def ignore_error_def on_error_def ret_def)
qed (simp add: auth_emit_def ret_def)

lemma with_session_step:
  assumes "sessions_ok w" and "session_addable sess t w"
  shows "sessions_ok (with_session sess t w) \<and> family_step (families w) (families (with_session sess t w))"
proof -
  have "\<forall>j f. families w j = Some f \<longrightarrow> fm_live f \<noteq> Some (rf_hash t) \<and> rf_hash t \<notin> fm_spent f"
    using token_hash_known [of w _ _ "rf_hash t"] assms(2) by (simp add: session_addable_def)
  with with_session_ok [OF assms] with_session_families [OF assms] family_step.opened show ?thesis by simp
qed

lemma refines_issue_pair: "refines (issue_pair s user tenant ip ua method custom)"
proof (rule refines_atomic [OF atomic_issue_pair])
  fix p e e' and w w' :: "'a auth_db_scheme"
  assume ok: "sessions_ok w" and run: "issue_pair s user tenant ip ua method custom e w = (Inr p, e', w')"
  from issue_pair_ok [OF run] obtain sess t rows where a: "session_addable sess t w"
    and w': "w' = (with_session sess t w)\<lparr>audit_rows := rows\<rparr>" .
  have "same_sessions (with_session sess t w) w'" by (simp add: w' same_sessions_def)
  with with_session_step [OF ok a] show "sessions_ok w' \<and> family_step (families w) (families w')"
    by (simp add: same_sessions_ok same_families)
qed

lemma refines_revoke_returning: "refines (revoke_returning session)"
  unfolding revoke_returning_def refines_def
proof (intro allI impI)
  fix e r e' and w w' :: "'a auth_db_scheme"
  assume ok: "sessions_ok w" and run: "bind_io time_now (\<lambda>now. db_call (\<lambda>w.
     (Inr (map_option (\<lambda>s. (ss_user s, ss_tenant s))
             (List.find (\<lambda>s. ss_id s = session \<and> ss_revoked s = None) (session_rows w))),
      revoke_session_row session now w))) e w = (r, e', w')"
  then have "w' = w \<or> (\<exists>now. w' = revoke_session_row session now w)"
    by (auto simp: bind_io_def time_now_def db_call_def Let_def split: if_splits)
  then show "sessions_ok w' \<and> family_step (families w) (families w')"
  proof
    assume "\<exists>now. w' = revoke_session_row session now w"
    then obtain now where w': "w' = revoke_session_row session now w" ..
    have "family_step (families w) (families w')"
    proof (cases "families w session")
      case None
      then show ?thesis by (simp add: w' revoke_families(1) family_step.stutter)
    next
      case (Some f)
      show ?thesis
      proof (cases "fm_revoked f")
        case True
        then have "f\<lparr>fm_revoked := True\<rparr> = f" by simp
        with Some have "families w' = families w" by (simp add: w' revoke_families(2) fun_upd_idem)
        then show ?thesis by (simp add: family_step.stutter)
      next
        case False
        with Some family_step.revoked [where F = "families w" and i = session and f = f] show ?thesis by (simp add: w' revoke_families(2))
      qed
    qed
    with revoke_ok [OF ok] show ?thesis by (simp add: w')
  qed (use ok in \<open>simp add: family_step.stutter\<close>)
qed

lemma refines_logout: "collaborators_spare s \<Longrightarrow> refines (logout s session)"
  unfolding logout_def
  by (rule refines_before [OF refines_revoke_returning])
    (auto split: option.splits prod.splits intro!: spares_intros spares_emit)

subsection \<open>Refresh\<close>

text \<open>What one call of \<^verbatim>\<open>Refresh\<close> does to the families, for each of its answers.\<close>

definition refresh_spec ::
  "'z auth_db_scheme auth_service \<Rightarrow> string \<Rightarrow> go_error + token_pair \<Rightarrow> 'z auth_db_scheme \<Rightarrow> 'z auth_db_scheme \<Rightarrow> bool" where
  "refresh_spec s token res w w' \<longleftrightarrow>
     (let h = hash_refresh (tx_crypto (as_ext s)) in
      case res of
        Inr p \<Rightarrow> (\<exists>f. families w (tp_session p) = Some f \<and> \<not> fm_revoked f \<and> fm_live f = Some (h token) \<and>
          fm_user f = tp_user p \<and> fm_tenant f = tp_tenant p \<and>
          families w' = (families w)(tp_session p \<mapsto>
            f\<lparr>fm_live := Some (h (tp_refresh p)), fm_spent := insert (h token) (fm_spent f)\<rparr>))
      | Inl err \<Rightarrow> families w' = families w \<or>
          (error_status err = 401 \<and> (\<exists>i f. families w i = Some f \<and> \<not> fm_revoked f \<and> h token \<in> fm_spent f \<and>
             families w' = (families w)(i \<mapsto> f\<lparr>fm_revoked := True\<rparr>))))"

lemma refreshable_family:
  assumes "refreshable hash t sess u w"
  shows "families w (rf_session t) = Some (family_of (refresh_rows w) sess)"
    and "\<not> fm_revoked (family_of (refresh_rows w) sess)"
    and "ss_id sess = rf_session t" and "t \<in> set (refresh_rows w)" and "rf_hash t = hash"
    and "find_session (rf_session t) w = Some sess" and "ss_revoked sess = None"
  using find_refresh_Some [of hash w t sess u] assms
  by (auto simp: refreshable_def families_def family_of_def)

lemma refresh_tx_families:
  assumes ok: "sessions_ok w" and run: "refresh_tx s i e w = (Inr out, e', w')"
  shows "sessions_ok w' \<and>
    (let h = hash_refresh (tx_crypto (as_ext s)) (ri_token i) in
     case out of
       Rotated p \<Rightarrow> refresh_spec s (ri_token i) (Inr p) w w' \<and>
         (\<forall>j f. families w j = Some f \<longrightarrow> fm_live f \<noteq> Some (hash_refresh (tx_crypto (as_ext s)) (tp_refresh p)) \<and>
            hash_refresh (tx_crypto (as_ext s)) (tp_refresh p) \<notin> fm_spent f)
     | Reused user tenant session \<Rightarrow> (\<exists>f. families w session = Some f \<and> \<not> fm_revoked f \<and> h \<in> fm_spent f \<and>
         families w' = (families w)(session \<mapsto> f\<lparr>fm_revoked := True\<rparr>)))"
  using run
proof (cases rule: refresh_tx_ok)
  case (1 t sess u now e1)
  note fam = refreshable_family [OF 1(1)]
  from handle_reuse_ok [OF 1(5)] obtain time rows evs where
    w': "w' = (revoke_session_row (ss_id sess) time w)\<lparr>audit_rows := rows, outbox_rows := evs\<rparr>" .
  have same: "same_sessions (revoke_session_row (ss_id sess) time w) w'" by (simp add: w' same_sessions_def)
  have "rf_hash t \<in> fm_spent (family_of (refresh_rows w) sess)"
    using fam(3,4) 1(3) by (auto simp: family_of_def spent_tokens_def)
  moreover have "families w' = (families w)(ss_id sess \<mapsto> (family_of (refresh_rows w) sess)\<lparr>fm_revoked := True\<rparr>)"
    using revoke_families(2) [of w "ss_id sess"] fam(1,3) by (simp add: same_families [OF same])
  ultimately show ?thesis using fam revoke_ok [OF ok, of "ss_id sess" time] same_sessions_ok [OF same] 1(4) by simp
next
  case (2 t sess u now p e1)
  note fam = refreshable_family [OF 2(1)]
  from rotate_token_ok [OF 2(5) fam(3,4) 2(3) fam(6,7)] obtain used n seen where r: "rotatable t sess n w"
    and w': "w' = with_rotation t used n seen w" and h: "rf_hash n = hash_refresh (tx_crypto (as_ext s)) (tp_refresh p)"
    and p: "tp_session p = rf_session t" "tp_user p = ss_user sess" "tp_tenant p = ss_tenant sess" .
  note rot = with_rotation_families(1) [OF ok r fam(1), of used seen] with_rotation_families(2,3) [OF ok r fam(1)]
  have "\<forall>j f. families w j = Some f \<longrightarrow> fm_live f \<noteq> Some (rf_hash n) \<and> rf_hash n \<notin> fm_spent f"
    using token_hash_known [of w _ _ "rf_hash n"] r by (simp add: rotatable_def)
  moreover have "refresh_spec s (ri_token i) (Inr p) w w'"
    using rot fam p h by (simp add: refresh_spec_def w' family_of_def)
  ultimately show ?thesis using with_rotation_ok [OF ok r, of used seen] 2(4) h by (simp add: w' Let_def)
qed

lemma refresh_reused:
  assumes sp: "collaborators_spare s" and tx: "in_tx (refresh_tx s i) e w = (Inr (Reused user tenant session), e1, w1)"
  obtains err e' w' ev where "refresh s i e w = (Inl err, e', w')" and "error_status err = 401" and "same_sessions w1 w'"
    and "auth_emit s tenant ''session.revoked'' ev (e1\<lparr>e_ticks := Suc (e_ticks e1)\<rparr>) w1 = (Inr (), e', w')"
proof -
  let ?emit = "auth_emit s tenant ''session.revoked''
      (session_revoked_payload (as_ext s) user session ''reuse_detected'' (e_clock e1 (e_ticks e1)))"
  obtain e2 w2 where em: "?emit (e1\<lparr>e_ticks := Suc (e_ticks e1)\<rparr>) w1 = (Inr (), e2, w2)"
    using auth_emit_answers [of s tenant "''session.revoked''"
      "session_revoked_payload (as_ext s) user session ''reuse_detected'' (e_clock e1 (e_ticks e1))"] by blast
  have "same_sessions w1 w2" using em by (rule sparesD [rotated]) (rule spares_emit [OF sp])
  moreover have "refresh s i e w = (Inl (ApiErr (with_detail ErrUnauthorized
             (''refresh token reuse '' @ [CHR 0xE2, CHR 0x80, CHR 0x94] @ '' session revoked''))), e2, w2)"
    using tx em by (simp add: refresh_def bind_io_def time_now_def fail_def)
  ultimately show thesis using that [OF _ _ _ em] by simp
qed

lemma refresh_cases:
  assumes sp: "collaborators_spare s" and ok: "sessions_ok w" and run: "refresh s i e w = (res, e', w')"
  shows "sessions_ok w' \<and> refresh_spec s (ri_token i) res w w' \<and> family_step (families w) (families w')"
proof -
  obtain r1 e1 w1 where tx: "in_tx (refresh_tx s i) e w = (r1, e1, w1)" by (metis prod_cases3)
  show ?thesis
  proof (cases r1)
    case (Inl err)
    from atomicD [OF atomic_in_tx tx [unfolded Inl]] have "w1 = w" .
    with Inl tx run have "w' = w" "res = Inl err" by (simp_all add: refresh_def bind_io_def)
    with ok show ?thesis by (simp add: refresh_spec_def family_step.stutter)
  next
    case (Inr out)
    with tx obtain e2 where "refresh_tx s i (next_call e) w = (Inr out, e2, w1)" by (auto elim: in_tx_ok)
    from refresh_tx_families [OF ok this] have ok1: "sessions_ok w1" and
      spec: "case out of Rotated p \<Rightarrow> refresh_spec s (ri_token i) (Inr p) w w1 \<and>
         (\<forall>j f. families w j = Some f \<longrightarrow> fm_live f \<noteq> Some (hash_refresh (tx_crypto (as_ext s)) (tp_refresh p)) \<and>
            hash_refresh (tx_crypto (as_ext s)) (tp_refresh p) \<notin> fm_spent f)
     | Reused user tenant session \<Rightarrow> (\<exists>f. families w session = Some f \<and> \<not> fm_revoked f \<and>
         hash_refresh (tx_crypto (as_ext s)) (ri_token i) \<in> fm_spent f \<and>
         families w1 = (families w)(session \<mapsto> f\<lparr>fm_revoked := True\<rparr>))" by (simp_all add: Let_def)
    show ?thesis
    proof (cases out)
      case (Rotated p)
      with Inr tx run have w': "w' = w1" "res = Inr p" by (simp_all add: refresh_def bind_io_def ret_def)
      from spec Rotated have r: "refresh_spec s (ri_token i) (Inr p) w w1"
        and fresh: "\<forall>j f. families w j = Some f \<longrightarrow> fm_live f \<noteq> Some (hash_refresh (tx_crypto (as_ext s)) (tp_refresh p)) \<and>
            hash_refresh (tx_crypto (as_ext s)) (tp_refresh p) \<notin> fm_spent f" by simp_all
      from r obtain f where f: "families w (tp_session p) = Some f" "\<not> fm_revoked f"
        "fm_live f = Some (hash_refresh (tx_crypto (as_ext s)) (ri_token i))"
        "families w1 = (families w)(tp_session p \<mapsto> f\<lparr>fm_live := Some (hash_refresh (tx_crypto (as_ext s)) (tp_refresh p)),
           fm_spent := insert (hash_refresh (tx_crypto (as_ext s)) (ri_token i)) (fm_spent f)\<rparr>)"
        by (auto simp: refresh_spec_def Let_def)
      from family_step.rotated [OF f(1-3) fresh] ok1 r show ?thesis by (simp add: w' f(4))
    next
      case (Reused user tenant session)
      from refresh_reused [OF sp tx [unfolded Inr Reused]] obtain err e3 w2 where
        err: "refresh s i e w = (Inl err, e3, w2)" "error_status err = 401" and same: "same_sessions w1 w2" by blast
      from spec Reused obtain f where f: "families w session = Some f" "\<not> fm_revoked f"
        "hash_refresh (tx_crypto (as_ext s)) (ri_token i) \<in> fm_spent f"
        and f1: "families w1 = (families w)(session \<mapsto> f\<lparr>fm_revoked := True\<rparr>)" by auto
      have f2: "families w2 = (families w)(session \<mapsto> f\<lparr>fm_revoked := True\<rparr>)" using same f1 by (simp add: same_families)
      then have "refresh_spec s (ri_token i) (Inl err) w w2"
        unfolding refresh_spec_def Let_def sum.case using f err(2) by blast
      moreover from f(1,2) have "family_step (families w) (families w2)" unfolding f2 by (rule family_step.revoked)
      moreover from ok1 same have "sessions_ok w2" by (simp add: same_sessions_ok)
      ultimately show ?thesis using run err(1) by simp
    qed
  qed
qed

text \<open>The old token is marked with the time of its use and with the id of the new one.\<close>

definition succeeded_by ::
  "'z auth_db_scheme auth_service \<Rightarrow> string \<Rightarrow> token_pair \<Rightarrow> 'z auth_db_scheme \<Rightarrow> bool" where
  "succeeded_by s token p w \<longleftrightarrow> (\<exists>t n. t \<in> set (refresh_rows w) \<and> n \<in> set (refresh_rows w) \<and>
     rf_hash t = hash_refresh (tx_crypto (as_ext s)) token \<and> rf_session t = tp_session p \<and> rf_used t \<noteq> None \<and>
     rf_replaced t = Some (rf_id n) \<and> rf_hash n = hash_refresh (tx_crypto (as_ext s)) (tp_refresh p) \<and>
     rf_session n = tp_session p \<and> rf_used n = None)"

lemma refresh_names_successor:
  assumes ok: "sessions_ok w" and run: "refresh s i e w = (Inr p, e', w')"
  shows "succeeded_by s (ri_token i) p w'"
proof -
  from run obtain out e1 w1 where tx: "in_tx (refresh_tx s i) e w = (Inr out, e1, w1)"
    and r: "(case out of Rotated p \<Rightarrow> ret p | Reused user tenant session \<Rightarrow> bind_io time_now (\<lambda>now.
        then_io (auth_emit s tenant ''session.revoked'' (session_revoked_payload (as_ext s) user session ''reuse_detected'' now))
          (fail (ApiErr (with_detail ErrUnauthorized
            (''refresh token reuse '' @ [CHR 0xE2, CHR 0x80, CHR 0x94] @ '' session revoked'')))))) e1 w1 = (Inr p, e', w')"
    unfolding refresh_def bind_ok by blast
  from r have out: "out = Rotated p" "w' = w1" by (cases out; auto simp: bind_ok fail_ok ret_ok)+
  from tx obtain e2 where "refresh_tx s i (next_call e) w = (Inr (Rotated p), e2, w')" using out by (auto elim: in_tx_ok)
  then show ?thesis
  proof (cases rule: refresh_tx_ok)
    case (2 t sess u now q e3)
    note fam = refreshable_family [OF 2(1)]
    from 2(4) have "q = p" by simp
    from rotate_token_ok [OF 2(5) [unfolded this] fam(3,4) 2(3) fam(6,7)] obtain used n seen where r: "rotatable t sess n w"
      and w': "w' = with_rotation t used n seen w" and h: "rf_hash n = hash_refresh (tx_crypto (as_ext s)) (tp_refresh p)"
      and p: "tp_session p = rf_session t" .
    have rows: "refresh_rows w' = map (spend t used (rf_id n)) (refresh_rows w) @ [n]"
      unfolding w' by (rule with_rotation_tables(1) [OF ok r])
    let ?t = "t\<lparr>rf_used := Some used, rf_replaced := Some (rf_id n)\<rparr>"
    have "?t = spend t used (rf_id n) t" by (simp add: spend_def)
    with fam(4) have "?t \<in> set (refresh_rows w')" unfolding rows by auto
    moreover have "n \<in> set (refresh_rows w')" by (simp add: rows)
    moreover have "rf_session n = tp_session p" "rf_used n = None" using r p by (simp_all add: rotatable_def)
    ultimately show ?thesis unfolding succeeded_by_def using fam(5) p h
      by (intro exI [of _ ?t] exI [of _ n]) simp
  qed simp
qed

subsection \<open>Sign-in and sign-up\<close>

lemma spares_lock [simp, intro]: "spares (login_locked_until email)"
  unfolding login_locked_until_def by (intro spares_intros) (auto intro!: spares_intros split: option.splits)

lemma spares_exec_simps [simp, intro]:
  "spares (db_exec (insert_user x u))" "spares (db_exec (insert_credential c))" "spares (db_exec (insert_challenge d))"
  "spares (db_exec (insert_login_session x ip l))" "spares (db_exec (insert_device dv))"
  "spares (db_write (delete_attempt email))" "spares (db_write (delete_challenge i))"
  "spares (db_write (delete_login_session h))" "spares (db_write (update_credential_hash h uid now))"
  by (auto simp: same_sessions_def insert_user_def insert_credential_def insert_challenge_def insert_login_session_def
      insert_device_def delete_attempt_def delete_challenge_def delete_login_session_def update_credential_hash_def
      intro!: spares_db_exec spares_db_write split: if_splits)

lemma spares_record_failed [intro]: "collaborators_spare s \<Longrightarrow> spares (record_failed_login s email)"
  unfolding record_failed_login_def upsert_login_attempt_def
  by (intro spares_intros spares_db_call)
    (auto simp: collaborators_spare_def same_sessions_def upsert_attempt_def Let_def intro!: spares_intros
      split: option.splits if_splits sum.splits)

lemma spares_verify_user [intro]: "collaborators_spare s \<Longrightarrow> spares (verify_user s email plain u)"
  unfolding verify_user_def password_hash_of_def clear_login_attempts_def rehash_on_login_def hash_password_def run_login_hook_def
  by (auto simp: collaborators_spare_def intro!: spares_intros spares_record_failed split: option.splits)

lemma spares_check_password [intro]: "collaborators_spare s \<Longrightarrow> spares (check_password s email plain)"
  unfolding check_password_def Let_def get_by_email_global_def
  by (auto intro!: spares_intros spares_verify_user spares_record_failed split: option.splits)

lemma spares_enrolled [intro]: "collaborators_spare s \<Longrightarrow> spares (mfa_enrolled s u)"
  by (auto simp: mfa_enrolled_def collaborators_spare_def split: option.splits)

lemma spares_challenge [intro, simp]: "spares (create_mfa_challenge u t c)"
  unfolding create_mfa_challenge_def by (intro spares_intros spares_exec_simps)

lemma spares_consume [intro]: "collaborators_spare s \<Longrightarrow> spares (verify_and_consume pu s tok code)"
  by (auto simp: verify_and_consume_def collaborators_spare_def intro!: spares_intros split: option.splits)

lemma spares_hosted [intro, simp]:
  "spares (create_login_session x u ip ua)" "spares (resolve_login_session x raw)" "spares (revoke_login_session x raw)"
  "spares (create_trusted_device x u t l)" "spares (is_trusted_device x u raw)"
proof -
  show "spares (create_login_session x u ip ua)" "spares (create_trusted_device x u t l)"
    unfolding create_login_session_def create_trusted_device_def
    by (auto intro!: spares_intros split: prod.splits)
  show "spares (resolve_login_session x raw)" "spares (revoke_login_session x raw)"
    unfolding resolve_login_session_def revoke_login_session_def by (auto intro!: spares_intros split: option.splits)
  show "spares (is_trusted_device x u raw)"
    unfolding is_trusted_device_def
    by (auto simp: touch_device_def same_sessions_def Let_def intro!: spares_intros spares_db_call)
qed

lemma spares_device_trusted [intro]: "collaborators_spare s \<Longrightarrow> spares (device_trusted s u t tok ip ua co)"
  by (auto simp: device_trusted_def collaborators_spare_def intro!: spares_intros split: option.splits)

lemma spares_remember [intro]: "collaborators_spare s \<Longrightarrow> spares (maybe_remember_device s u t l)"
  by (auto simp: maybe_remember_device_def collaborators_spare_def intro!: spares_intros split: option.splits)

lemma spares_identity [intro, simp]: "spares (create_identity x t email display hash)"
  unfolding create_identity_def Let_def by (auto intro!: spares_intros)

lemma spares_begin [intro]: "collaborators_spare s \<Longrightarrow> spares (begin_login_session s email plain ip ua tok co)"
  unfolding begin_login_session_def by (auto intro!: spares_bind spares_base split: prod.splits)

lemma spares_register [intro]: "collaborators_spare s \<Longrightarrow> spares (register_in_tenant s t email plain display ip ua)"
  unfolding register_in_tenant_def strong_password_def Let_def hash_password_def
  by (auto simp: collaborators_spare_def intro!: spares_intros split: option.splits)

lemma spares_complete_session [intro]: "collaborators_spare s \<Longrightarrow> spares (complete_mfa_login_session pu s tok code ip ua)"
  unfolding complete_mfa_login_session_def by (auto intro!: spares_intros spares_consume split: prod.splits)

lemma refines_if: "refines a \<Longrightarrow> refines b \<Longrightarrow> refines (if c then a else b)"
  by simp

lemma spares_signup_checks:
  "spares (strong_password x plain email)" "spares (hash_password y plain)"
  "collaborators_spare s \<Longrightarrow> spares (pwned s plain)"
  by (auto simp: strong_password_def Let_def hash_password_def pwned_def collaborators_spare_def intro!: spares_intros
      split: option.splits)

lemma refines_switch: "refines (switch_tenant s u t ip ua)"
  unfolding switch_tenant_def
  by (rule refines_after) (auto intro: refines_issue_pair refines_spares)

lemma refines_login:
  assumes "collaborators_spare s"
  shows "refines (login s email plain ip ua)"
proof -
  have "refines (login_result_of s ip ua u claims enrolled)" for u claims enrolled
    unfolding login_result_of_def
    by (intro refines_if refines_before refines_issue_pair spares_base refines_spares spares_challenge)
  then show ?thesis
    unfolding login_def using assms by (auto intro!: refines_after split: prod.splits)
qed

lemma refines_complete: "collaborators_spare s \<Longrightarrow> refines (complete_mfa_login pu s tok code ip ua)"
  unfolding complete_mfa_login_def by (auto intro!: refines_after refines_issue_pair split: prod.splits)

lemma refines_signup:
  assumes "collaborators_spare s"
  shows "refines (signup s email plain display ip ua)"
proof -
  let ?tx = "\<lambda>hash. in_tx (bind_io (create_identity (as_ext s) None email display hash) (\<lambda>u.
               bind_io (open_session s (us_id u) None ip ua []) (\<lambda>p. ret (p, u))))"
  have "refines (?tx hash)" for hash
  proof (rule refines_atomic [OF atomic_in_tx])
    fix pu e e' and w w' :: "'a auth_db_scheme"
    assume ok: "sessions_ok w" and run: "?tx hash e w = (Inr pu, e', w')"
    then obtain u e1 w1 p e2 where c: "create_identity (as_ext s) None email display hash (next_call e) w = (Inr u, e1, w1)"
      and o: "open_session s (us_id u) None ip ua [] e1 w1 = (Inr p, e2, w')"
      by (auto simp: bind_ok ret_ok elim!: in_tx_ok)
    from c have same: "same_sessions w w1" by (rule sparesD [OF spares_identity])
    from open_session_ok [OF o] obtain sess t where "session_addable sess t w1" "w' = with_session sess t w1" .
    with with_session_step [of w1] ok same show "sessions_ok w' \<and> family_step (families w) (families w')"
      by (simp add: same_sessions_ok same_families)
  qed
  then show ?thesis
    unfolding signup_def using assms
    by (intro refines_after refines_if refines_spares [OF spares_base(2)] spares_signup_checks)
qed

section \<open>Histories\<close>

text \<open>One call of the service, whatever it answers, or a step of another component that leaves the two tables.\<close>

inductive auth_step :: "'z auth_db_scheme auth_service \<Rightarrow> 'z auth_db_scheme \<Rightarrow> 'z auth_db_scheme \<Rightarrow> bool" for s where
  pair: "issue_pair s user tenant ip ua method custom e w = (rp, e', w') \<Longrightarrow> auth_step s w w'"
| refresh: "refresh s i e w = (rp, e', w') \<Longrightarrow> auth_step s w w'"
| logout: "logout s session e w = (ru, e', w') \<Longrightarrow> auth_step s w w'"
| switch: "switch_tenant s user tenant ip ua e w = (rp, e', w') \<Longrightarrow> auth_step s w w'"
| login: "login s email plain ip ua e w = (rl, e', w') \<Longrightarrow> auth_step s w w'"
| second: "complete_mfa_login pu s tok code ip ua e w = (rp, e', w') \<Longrightarrow> auth_step s w w'"
| signup: "signup s email plain display ip ua e w = (rs, e', w') \<Longrightarrow> auth_step s w w'"
| hosted: "begin_login_session s email plain ip ua tok co e w = (rh, e', w') \<Longrightarrow> auth_step s w w'"
| hosted_second: "complete_mfa_login_session pu s tok code ip ua e w = (rc, e', w') \<Longrightarrow> auth_step s w w'"
| register: "register_in_tenant s tenant email plain display ip ua e w = (rr, e', w') \<Longrightarrow> auth_step s w w'"
| hosted_logout: "revoke_login_session (as_ext s) raw e w = (ru, e', w') \<Longrightarrow> auth_step s w w'"
| remember: "maybe_remember_device s user tenant label e w = (rd, e', w') \<Longrightarrow> auth_step s w w'"
| other: "same_sessions w w' \<Longrightarrow> auth_step s w w'"

lemma auth_step_refines:
  assumes "collaborators_spare s" and "auth_step s w w'" and "sessions_ok w"
  shows "sessions_ok w' \<and> family_step (families w) (families w')"
  using assms(2)
proof cases
  case (refresh i e rp e')
  from refresh_cases [OF assms(1,3) refresh] show ?thesis by blast
next
  case other
  with assms(3) show ?thesis by (simp add: same_sessions_ok same_families family_step.stutter)
qed (use assms(1,3) in \<open>blast dest: refinesD [OF refines_issue_pair] refinesD [OF refines_logout] refinesD [OF refines_switch]
   refinesD [OF refines_login] refinesD [OF refines_complete] refinesD [OF refines_signup]
   refinesD [OF refines_spares, OF spares_begin] refinesD [OF refines_spares, OF spares_complete_session]
   refinesD [OF refines_spares, OF spares_register] refinesD [OF refines_spares, OF spares_hosted(3)]
   refinesD [OF refines_spares, OF spares_remember]\<close>)+

end
