(* ===== verification/AuthSafety.thy ===== *)
theory AuthSafety imports AuthProps Runs begin

text \<open>
  What the refinement gives: refresh tokens work once, revoked families stay dead; and, without faults, what
  \<^verbatim>\<open>Refresh\<close> answers.
\<close>

section \<open>Histories\<close>

lemma auth_steps_refine:
  assumes "collaborators_spare s" and "(auth_step s)\<^sup>*\<^sup>* w w'" and "sessions_ok w"
  shows "sessions_ok w' \<and> family_step\<^sup>*\<^sup>* (families w) (families w')"
  using assms(2)
proof (induction rule: rtranclp_induct)
  case (step u v)
  with auth_step_refines [OF assms(1) step.hyps(2)] show ?case by (auto intro: rtranclp.rtrancl_into_rtrancl)
qed (use assms(3) in simp)

text \<open>A token belongs to one family: it is live or spent there and nowhere else.\<close>

definition fm_tokens :: "family \<Rightarrow> string set" where
  "fm_tokens f = fm_spent f \<union> set_option (fm_live f)"

lemma family_tokens:
  assumes "families w i = Some f"
  shows "fm_live f = Some h \<Longrightarrow> \<exists>t \<in> set (refresh_rows w). rf_hash t = h \<and> rf_session t = i \<and> rf_used t = None"
    and "h \<in> fm_spent f \<Longrightarrow> \<exists>t \<in> set (refresh_rows w). rf_hash t = h \<and> rf_session t = i \<and> rf_used t \<noteq> None"
proof -
  from assms obtain s where s: "find_session i w = Some s" "f = family_of (refresh_rows w) s" by (auto simp: families_def)
  from find_session_id [OF s(1)] have i: "ss_id s = i" .
  show "\<exists>t \<in> set (refresh_rows w). rf_hash t = h \<and> rf_session t = i \<and> rf_used t = None" if live: "fm_live f = Some h"
  proof -
    from live obtain t where t: "List.find (\<lambda>t. rf_session t = i \<and> rf_used t = None) (refresh_rows w) = Some t" "rf_hash t = h"
      by (auto simp: s(2) i family_of_def live_token_def)
    from find_mem [OF t(1)] find_holds [OF t(1)] t(2) show ?thesis by blast
  qed
  show "\<exists>t \<in> set (refresh_rows w). rf_hash t = h \<and> rf_session t = i \<and> rf_used t \<noteq> None" if "h \<in> fm_spent f"
    using that by (auto simp: s(2) i family_of_def spent_tokens_def)
qed

lemma token_of_one_family:
  assumes ok: "sessions_ok w" and F: "families w i = Some f" "families w j = Some g"
    and "h \<in> fm_tokens f" and "h \<in> fm_tokens g"
  shows "i = j" and "\<not> (h \<in> fm_spent f \<and> fm_live f = Some h)"
proof -
  have u: "t = u" if "t \<in> set (refresh_rows w)" "u \<in> set (refresh_rows w)" "rf_hash t = rf_hash u" for t u
    using ok that by (auto simp: sessions_ok_def distinct_map dest: inj_onD)
  have m: "\<exists>t \<in> set (refresh_rows w). rf_hash t = h \<and> rf_session t = k" if "families w k = Some x" "h \<in> fm_tokens x" for k x
    using that family_tokens [OF that(1), of h] by (auto simp: fm_tokens_def)
  from m [OF F(1) assms(4)] m [OF F(2) assms(5)] u show "i = j" by metis
  show "\<not> (h \<in> fm_spent f \<and> fm_live f = Some h)" using family_tokens [OF F(1), of h] u by metis
qed

text \<open>A token that is spent, or of a revoked family, buys nothing, now and in any later state.\<close>

definition dead_token :: "string \<Rightarrow> (uuid \<rightharpoonup> family) \<Rightarrow> bool" where
  "dead_token h F \<longleftrightarrow> (\<exists>i f. F i = Some f \<and> (h \<in> fm_spent f \<or> fm_revoked f \<and> fm_live f = Some h))"

lemma dead_token_later: "dead_token h F \<Longrightarrow> later F G \<Longrightarrow> dead_token h G"
proof -
  assume "dead_token h F" and l: "later F G"
  then obtain i f where "F i = Some f" and f: "h \<in> fm_spent f \<or> fm_revoked f \<and> fm_live f = Some h"
    by (auto simp: dead_token_def)
  with l obtain g where "G i = Some g" "fm_revoked f \<longrightarrow> fm_revoked g \<and> fm_live g = fm_live f" "fm_spent f \<subseteq> fm_spent g"
    unfolding later_def by blast
  with f show ?thesis unfolding dead_token_def by (metis subsetD)
qed

lemma dead_token_refused:
  assumes sp: "collaborators_spare s" and ok: "sessions_ok w"
    and dead: "dead_token (hash_refresh (tx_crypto (as_ext s)) (ri_token i)) (families w)"
  shows "\<exists>err. fst (refresh s i e w) = Inl err"
proof (rule ccontr)
  let ?h = "hash_refresh (tx_crypto (as_ext s)) (ri_token i)"
  assume "\<nexists>err. fst (refresh s i e w) = Inl err"
  moreover obtain res e' w' where run: "refresh s i e w = (res, e', w')" by (metis prod_cases3)
  ultimately obtain p where "res = Inr p" by (cases res) auto
  with refresh_cases [OF sp ok run] obtain f where f: "families w (tp_session p) = Some f" "\<not> fm_revoked f" "fm_live f = Some ?h"
    by (auto simp: refresh_spec_def Let_def)
  from dead obtain j g where g: "families w j = Some g" "?h \<in> fm_spent g \<or> fm_revoked g \<and> fm_live g = Some ?h"
    by (auto simp: dead_token_def)
  have "?h \<in> fm_tokens f" "?h \<in> fm_tokens g" using f(3) g(2) by (auto simp: fm_tokens_def)
  from token_of_one_family(1) [OF ok f(1) g(1) this] f g have "g = f" by auto
  with token_of_one_family(2) [OF ok f(1) g(1) \<open>?h \<in> fm_tokens f\<close> \<open>?h \<in> fm_tokens g\<close>] f g show False by auto
qed

section \<open>Without faults\<close>

lemma wp_db_exec [wp_intros]:
  "(case f w of Inl x \<Rightarrow> Q (Inl x) w | Inr w' \<Rightarrow> Q (Inr ()) w') \<Longrightarrow> wp U C (db_exec f) Q w"
  unfolding db_exec_def by (rule wp_db_call) (auto split: sum.splits)

text \<open>The draws of the environment are new, and signing works.\<close>

definition draws_fresh :: "'z auth_db_scheme auth_service \<Rightarrow> (nat \<Rightarrow> uuid) \<Rightarrow> 'z auth_db_scheme \<Rightarrow> bool" where
  "draws_fresh s U w \<longleftrightarrow> (\<forall>c. as_sign s c \<noteq> None) \<and> new_ids U w \<and> (\<forall>k. U k \<notin> rf_id ` set (refresh_rows w) \<and>
     U k \<notin> ss_id ` set (session_rows w) \<and>
     (\<exists>b. cx_rand (tx_crypto (as_ext s)) 32 (U k) = Some b \<and>
        hash_refresh (tx_crypto (as_ext s)) (b64_encode b64_url b) \<notin> rf_hash ` set (refresh_rows w)))"

lemma wp_new_refresh_token:
  assumes "draws_fresh s U w" and
    "\<And>raw. hash_refresh (tx_crypto (as_ext s)) raw \<notin> rf_hash ` set (refresh_rows w) \<Longrightarrow>
       Q (Inr (raw, hash_refresh (tx_crypto (as_ext s)) raw)) w'"
  shows "wp U C (new_refresh_token (tx_crypto (as_ext s))) Q w'"
  unfolding new_refresh_token_def rand_read_def Let_def
proof (rule wp_bind, rule wp_bind, rule wp_uuid_new)
  fix k
  from assms(1) obtain b where "cx_rand (tx_crypto (as_ext s)) 32 (U k) = Some b"
    "hash_refresh (tx_crypto (as_ext s)) (b64_encode b64_url b) \<notin> rf_hash ` set (refresh_rows w)"
    unfolding draws_fresh_def by blast
  with assms(2) show "case Inr (U k) of Inl x \<Rightarrow> case Inl x of Inl x \<Rightarrow> Q (Inl x) w' | Inr a \<Rightarrow> wp U C (ret (b64_encode b64_url a,
        hash_refresh (tx_crypto (as_ext s)) (b64_encode b64_url a))) Q w'
     | Inr k \<Rightarrow> wp U C (case cx_rand (tx_crypto (as_ext s)) 32 k of None \<Rightarrow> fail (PlainErr ''rand'') | Some b \<Rightarrow> ret b)
         (\<lambda>r w'. case r of Inl x \<Rightarrow> Q (Inl x) w' | Inr a \<Rightarrow> wp U C (ret (b64_encode b64_url a,
            hash_refresh (tx_crypto (as_ext s)) (b64_encode b64_url a))) Q w') w'"
    by (simp add: wp_ret)
qed

lemma wp_insert_refresh_token:
  assumes "\<forall>k. U k \<notin> rf_id ` set (refresh_rows w)" and "hash \<notin> rf_hash ` set (refresh_rows w)"
    and "session \<in> ss_id ` set (session_rows w)"
    and "\<And>i issued. Q (Inr i) (w\<lparr>refresh_rows := refresh_rows w @ [new_token i session hash issued expires]\<rparr>)"
  shows "wp U C (insert_refresh_token session hash expires) Q w"
proof -
  have "wp U C (db_exec (insert_refresh (new_token (U k) session hash (C j) expires)))
      (\<lambda>r w'. case r of Inl x \<Rightarrow> Q (Inl x) w' | Inr _ \<Rightarrow> wp U C (ret (U k)) Q w') w" for k j
    by (rule wp_db_exec) (simp add: insert_refresh_def assms wp_ret)
  then show ?thesis
    unfolding insert_refresh_token_def new_token_def by (simp add: wp_bind wp_uuid_new wp_time_now)
qed

lemma wp_issue_access:
  assumes "\<forall>c. as_sign s c \<noteq> None" and "\<And>a t. Q (Inr (a, t)) w"
  shows "wp U C (issue_access_full s u te i sc act res cu) Q w"
proof -
  define sg where "sg c = the (as_sign s c)" for c
  have "as_sign s c = Some (sg c)" for c using assms(1) by (simp add: sg_def)
  then show ?thesis
    unfolding issue_access_full_def Let_def by (simp add: assms(2) wp_bind wp_time_now wp_uuid_new wp_ret)
qed

lemma wp_rotate_token:
  assumes "draws_fresh s U w" and "find_session (ss_id sess) w = Some sess" and "\<And>p w'. Q (Inr p) w'"
  shows "wp U C (rotate_token s t sess) Q w"
proof -
  have m: "ss_id sess \<in> ss_id ` set (session_rows w)"
    using assms(2) find_mem [of _ "session_rows w" sess] by (auto simp: find_session_def)
  have d: "\<forall>c. as_sign s c \<noteq> None" "\<forall>k. U k \<notin> rf_id ` set (refresh_rows w)" using assms(1) unfolding draws_fresh_def by blast+
  have acc: "wp U C (issue_access s a b c []) (\<lambda>r w'. case r of Inl x \<Rightarrow> Q (Inl x) w' | Inr a \<Rightarrow> wp U C (k a) Q w') w1"
    if "\<And>x w1. wp U C (k x) Q w1" for a b c k w1
    unfolding issue_access_def by (rule wp_issue_access [OF d(1)]) (simp add: that)
  have ins: "wp U C (insert_refresh_token (ss_id sess) h ex) (\<lambda>r w'. case r of Inl x \<Rightarrow> Q (Inl x) w' | Inr a \<Rightarrow> wp U C (k a) Q w') w"
    if "h \<notin> rf_hash ` set (refresh_rows w)" "\<And>x w1. wp U C (k x) Q w1" for h ex k
    by (rule wp_insert_refresh_token [OF d(2) that(1) m]) (simp add: that(2))
  show ?thesis
    unfolding rotate_token_def
    by (rule wp_bind, rule wp_new_refresh_token [OF assms(1)])
      (auto intro!: wp_bind wp_time_now ins acc wp_db_write wp_ret assms(3) split: prod.splits)
qed

text \<open>A token that is neither revoked nor expired, of a user in good standing: what the clock cannot spoil.\<close>

definition presentable ::
  "'z auth_db_scheme auth_service \<Rightarrow> string \<Rightarrow> env \<Rightarrow> 'z auth_db_scheme \<Rightarrow> refresh_row \<Rightarrow> session_row \<Rightarrow> bool" where
  "presentable s token e w t sess \<longleftrightarrow>
     (\<exists>u. refreshable (hash_refresh (tx_crypto (as_ext s)) token) t sess u w) \<and> (\<forall>k. e_clock e k \<le> rf_expires t)"

lemma live_refresh:
  assumes "no_faults e" and "draws_fresh s (e_uuid e) w" and "presentable s (ri_token i) e w t sess" and "rf_used t = None"
  shows "\<exists>p e' w'. refresh s i e w = (Inr p, e', w')"
proof -
  from assms(3) obtain u where r: "refreshable (hash_refresh (tx_crypto (as_ext s)) (ri_token i)) t sess u w"
    and c: "\<And>k. \<not> rf_expires t < e_clock e k" by (auto simp: presentable_def not_less)
  from refreshable_family(3,6) [OF r] have f: "find_session (ss_id sess) w = Some sess" by simp
  have "wp (e_uuid e) (e_clock e) (bind_io (rotate_token s t sess) (\<lambda>p. ret (Rotated p))) (\<lambda>r w'. \<exists>p. r = Inr (Rotated p)) w"
    by (rule wp_bind, rule wp_rotate_token [OF assms(2) f]) (simp add: wp_ret)
  then have "wp (e_uuid e) (e_clock e) (refresh_tx s i) (\<lambda>r w'. \<exists>p. r = Inr (Rotated p)) w"
    unfolding refresh_tx_def using r assms(4)
    by (intro wp_bind wp_db_read) (simp add: refreshable_def wp_bind [OF wp_time_now] c)
  then have "wp (e_uuid e) (e_clock e) (in_tx (refresh_tx s i)) (\<lambda>r w'. \<exists>p. r = Inr (Rotated p)) w"
    by (intro wp_in_tx) (auto elim: wp_mono split: sum.splits)
  from wp_run [OF this assms(1)] obtain p e1 w1 where "in_tx (refresh_tx s i) e w = (Inr (Rotated p), e1, w1)" by blast
  then show ?thesis by (simp add: refresh_def bind_io_def ret_def)
qed

lemma wp_handle_reuse:
  assumes "ri_ip i = [] \<or> ax_inet (tx_audit x) (ri_ip i) \<noteq> None" and "new_ids U w" and "\<And>w'. Q (Inr ()) w'"
  shows "wp U C (handle_refresh_reuse x user tenant session token i) Q w"
proof -
  have a: "wp U C (record_audit (tx_audit x) (reuse_audit_event x user tenant session token i))
      (\<lambda>r w'. case r of Inl y \<Rightarrow> Q (Inl y) w' | Inr _ \<Rightarrow> wp U C (enqueue (reuse_outbox_event x user tenant session i)) Q w')
      (revoke_session_row session now w)" for now
    by (rule wp_record_audit)
      (use assms(1,2) in \<open>auto simp: reuse_audit_event_def revoke_session_row_def new_ids_def reuse_outbox_event_def
        intro!: wp_enqueue assms(3)\<close>)
  show ?thesis
    unfolding handle_refresh_reuse_def revoke_session_by_id_def
    by (simp add: wp_bind wp_time_now wp_db_write a)
qed

lemma live_reuse:
  assumes "no_faults e" and "new_ids (e_uuid e) w" and "ri_ip i = [] \<or> ax_inet (tx_audit (as_ext s)) (ri_ip i) \<noteq> None"
    and "presentable s (ri_token i) e w t sess" and "rf_used t \<noteq> None"
  shows "\<exists>e1 w1. in_tx (refresh_tx s i) e w = (Inr (Reused (ss_user sess) (option_nil (ss_tenant sess)) (ss_id sess)), e1, w1)"
proof -
  let ?out = "Reused (ss_user sess) (option_nil (ss_tenant sess)) (ss_id sess)"
  from assms(4) obtain u where r: "refreshable (hash_refresh (tx_crypto (as_ext s)) (ri_token i)) t sess u w"
    and c: "\<And>k. \<not> rf_expires t < e_clock e k" by (auto simp: presentable_def not_less)
  have "wp (e_uuid e) (e_clock e) (then_io (handle_refresh_reuse (as_ext s) (ss_user sess) (option_nil (ss_tenant sess))
      (ss_id sess) (rf_id t) i) (ret ?out)) (\<lambda>r w'. r = Inr ?out) w"
    by (rule wp_bind, rule wp_handle_reuse [OF assms(3,2)]) (simp add: wp_ret)
  then have "wp (e_uuid e) (e_clock e) (refresh_tx s i) (\<lambda>r w'. r = Inr ?out) w"
    unfolding refresh_tx_def using r assms(5)
    by (intro wp_bind wp_db_read) (auto simp: refreshable_def c intro!: wp_bind [OF wp_time_now])
  then have "wp (e_uuid e) (e_clock e) (in_tx (refresh_tx s i)) (\<lambda>r w'. r = Inr ?out) w"
    by (intro wp_in_tx) (auto elim: wp_mono split: sum.splits)
  from wp_run [OF this assms(1)] show ?thesis by blast
qed

text \<open>What the transaction has logged of the reuse, and the emitter, which may write to the logs but takes nothing out.\<close>

definition emitter_appends :: "'z auth_db_scheme auth_service \<Rightarrow> bool" where
  "emitter_appends s \<longleftrightarrow> (\<forall>f. as_emitter s = Some f \<longrightarrow> (\<forall>t ty p e w r e' w'. f t ty p e w = (r, e', w') \<longrightarrow>
     prefix (audit_rows w) (audit_rows w') \<and> prefix (outbox_rows w) (outbox_rows w')))"

lemma emit_appends:
  assumes "emitter_appends s" and "auth_emit s t ty p e w = (res, e', w')"
  shows "prefix (audit_rows w) (audit_rows w') \<and> prefix (outbox_rows w) (outbox_rows w')"
proof (cases "as_emitter s")
  case (Some f)
  obtain r e1 w1 where f: "f t ty p e w = (r, e1, w1)" by (metis prod_cases3)
  with Some assms(2) have "w' = w1 \<or> w' = w" by (cases r; cases "t = 0") (auto simp: auth_emit_def ignore_error_def on_error_def ret_def)
  with f Some assms(1) show ?thesis unfolding emitter_appends_def by blast
qed (use assms(2) in \<open>simp add: auth_emit_def ret_def\<close>)

lemma reuse_is_logged:
  assumes "presentable s (ri_token i) e w t sess" and "rf_used t \<noteq> None"
    and "refresh_tx s i e2 w = (Inr (Reused user tenant session), e1, w1)"
  shows "audited (tx_audit (as_ext s)) (reuse_audit_event (as_ext s) user tenant session (rf_id t) i) (audit_rows w) (audit_rows w1) \<and>
    queued (reuse_outbox_event (as_ext s) user tenant session i) (outbox_rows w) (outbox_rows w1)"
  using assms(3)
proof (cases rule: refresh_tx_ok)
  case (1 t' sess' u' now e3)
  have "t' = t" using 1(1) assms(1) by (auto simp: refreshable_def presentable_def)
  with 1(4,5) have "handle_refresh_reuse (as_ext s) user tenant session (rf_id t) i e3 w = (Inr (), e1, w1)" by simp
  then show ?thesis by (rule handle_reuse_ok) simp
qed simp

section \<open>Logout\<close>

lemma logout_revokes:
  assumes "collaborators_spare s" and "logout s i e w = (Inr u, e', w')"
  shows "families w' = (case families w i of None \<Rightarrow> families w | Some f \<Rightarrow> (families w)(i \<mapsto> f\<lparr>fm_revoked := True\<rparr>))"
proof -
  from assms(2) obtain found e1 w1 where r: "revoke_returning i e w = (Inr found, e1, w1)"
    and c: "(case found of None \<Rightarrow> ret () | Some (user, None) \<Rightarrow> ret () | Some (user, Some tenant) \<Rightarrow> bind_io time_now (\<lambda>now.
           auth_emit s tenant ''session.revoked'' (session_revoked_payload (as_ext s) user i ''logout'' now))) e1 w1 = (Inr u, e', w')"
    unfolding logout_def bind_ok by blast
  from r obtain now where w1: "w1 = revoke_session_row i now w" by (auto simp: revoke_returning_def io_ok)
  have "same_sessions w1 w'"
    using c by (rule sparesD [rotated]) (auto split: option.splits prod.splits intro!: spares_intros spares_emit [OF assms(1)])
  then have "families w' = families w1" by (rule same_families)
  then show ?thesis using revoke_families [of w i] w1 by (cases "families w i") simp_all
qed

section \<open>Properties\<close>

text \<open>C2. Sessions refine the automaton of token families. Every call of the authentication service, with any
  input, in any environment and whatever it answers, keeps the tables of sessions and refresh tokens well-formed
  (ids and hashes distinct, every token of a stored session, at most one unused token per session) and is one
  step of the automaton: nothing, a session opened with a token that no family knows, the live token of an
  unrevoked family replaced by such a token and kept as spent, or a family revoked.\<close>

theorem session_operations_refine:
  assumes "collaborators_spare s" and "sessions_ok w" and "auth_step s w w'"
  shows "sessions_ok w' \<and> family_step (families w) (families w')"
  by (rule auth_step_refines [OF assms(1,3,2)])

text \<open>C21. What \<^verbatim>\<open>Refresh\<close> answers and does. On success the token presented was the live token of an unrevoked
  session, the pair is for its user and tenant, the family has the new token as its live one and the old one
  among its spent, and the stored row of the old token is marked used and names the row of the new one as its
  successor; on an error nothing happened to any family, or the token was a spent one, its family is revoked
  and the answer is 401. Without faults, with new draws, the live token of an unrevoked session whose user is
  neither deleted nor suspended is rotated before it expires.\<close>

theorem refresh_rotates:
  assumes "collaborators_spare s" and "sessions_ok w"
  shows "(refresh s i e w = (res, e', w') \<longrightarrow> refresh_spec s (ri_token i) res w w' \<and>
      (\<forall>p. res = Inr p \<longrightarrow> succeeded_by s (ri_token i) p w')) \<and>
    (no_faults e \<and> draws_fresh s (e_uuid e) w \<and> presentable s (ri_token i) e w t sess \<and> rf_used t = None \<longrightarrow>
       (\<exists>p e' w'. refresh s i e w = (Inr p, e', w')))"
  using refresh_cases [OF assms] refresh_names_successor [OF assms(2)] live_refresh by blast

text \<open>C22. Reuse is detected and kills the session. Without faults, with new ids and a readable client address, presenting
  a spent, unexpired token of an unrevoked session of a user in good standing answers 401 and revokes the family, so that
  every token of the family, the live one too, is dead from then on; the audit log has gained the record of the reuse, which
  names the user, the session and the token, and the outbox the event of the revocation.\<close>

theorem reuse_revokes_family:
  assumes "collaborators_spare s" and "sessions_ok w" and "no_faults e" and "new_ids (e_uuid e) w"
    and "ri_ip i = [] \<or> ax_inet (tx_audit (as_ext s)) (ri_ip i) \<noteq> None"
    and "presentable s (ri_token i) e w t sess" and "rf_used t \<noteq> None" and "emitter_appends s"
  shows "\<exists>err e' w' f rows evs. refresh s i e w = (Inl err, e', w') \<and> error_status err = 401 \<and>
     families w (ss_id sess) = Some f \<and> families w' = (families w)(ss_id sess \<mapsto> f\<lparr>fm_revoked := True\<rparr>) \<and>
     (\<forall>h \<in> fm_tokens f. dead_token h (families w')) \<and>
     audited (tx_audit (as_ext s)) (reuse_audit_event (as_ext s) (ss_user sess) (option_nil (ss_tenant sess)) (ss_id sess) (rf_id t) i)
       (audit_rows w) rows \<and> prefix rows (audit_rows w') \<and>
     queued (reuse_outbox_event (as_ext s) (ss_user sess) (option_nil (ss_tenant sess)) (ss_id sess) i)
       (outbox_rows w) evs \<and> prefix evs (outbox_rows w')"
proof -
  let ?out = "Reused (ss_user sess) (option_nil (ss_tenant sess)) (ss_id sess)"
  from live_reuse [OF assms(3-7)] obtain e1 w1 where tx: "in_tx (refresh_tx s i) e w = (Inr ?out, e1, w1)" by blast
  from refresh_reused [OF assms(1) tx] obtain err e' w' ev where run: "refresh s i e w = (Inl err, e', w')"
    and err: "error_status err = 401" and same: "same_sessions w1 w'"
    and em: "auth_emit s (option_nil (ss_tenant sess)) ''session.revoked'' ev (e1\<lparr>e_ticks := Suc (e_ticks e1)\<rparr>) w1 = (Inr (), e', w')" .
  from tx obtain e2 where rt: "refresh_tx s i (next_call e) w = (Inr ?out, e2, w1)" by (auto elim: in_tx_ok)
  from refresh_tx_families [OF assms(2) rt] obtain f where f: "families w (ss_id sess) = Some f"
    and w1: "families w1 = (families w)(ss_id sess \<mapsto> f\<lparr>fm_revoked := True\<rparr>)" by (auto simp: Let_def)
  from w1 same have w': "families w' = (families w)(ss_id sess \<mapsto> f\<lparr>fm_revoked := True\<rparr>)" by (simp add: same_families)
  have dead: "\<forall>h \<in> fm_tokens f. dead_token h (families w')"
    unfolding w' dead_token_def fm_tokens_def
    by (intro ballI exI [of _ "ss_id sess"] exI [of _ "f\<lparr>fm_revoked := True\<rparr>"]) auto
  from reuse_is_logged [OF assms(6,7) rt] obtain rows evs where
    rows: "audit_rows w1 = rows" "audited (tx_audit (as_ext s)) (reuse_audit_event (as_ext s) (ss_user sess)
        (option_nil (ss_tenant sess)) (ss_id sess) (rf_id t) i) (audit_rows w) rows"
    and evs: "outbox_rows w1 = evs" "queued (reuse_outbox_event (as_ext s) (ss_user sess) (option_nil (ss_tenant sess)) (ss_id sess) i)
        (outbox_rows w) evs" by blast
  from emit_appends [OF assms(8) em] have "prefix rows (audit_rows w')" "prefix evs (outbox_rows w')"
    by (simp_all add: rows(1) evs(1))
  with run err f w' dead rows(2) evs(2) show ?thesis by blast
qed

text \<open>C7. A refresh token works once, and none works after its session is revoked. Once a refresh with a token has
  succeeded, and once a logout of the session of a token has gone through, then after any sequence of calls of the
  service and steps of other components, a refresh with that token is refused.\<close>

theorem refresh_tokens_die:
  assumes "collaborators_spare s" and "sessions_ok w" and "(auth_step s)\<^sup>*\<^sup>* w1 w2"
  shows "(refresh s i e w = (Inr p, e1, w1) \<and> ri_token j = ri_token i \<longrightarrow> (\<exists>err. fst (refresh s j e2 w2) = Inl err)) \<and>
    (logout s sid e w = (Inr (), e1, w1) \<and> families w sid = Some f \<and>
       hash_refresh (tx_crypto (as_ext s)) (ri_token j) \<in> fm_tokens f \<longrightarrow> (\<exists>err. fst (refresh s j e2 w2) = Inl err))"
proof -
  let ?h = "hash_refresh (tx_crypto (as_ext s)) (ri_token j)"
  have refused: "\<exists>err. fst (refresh s j e2 w2) = Inl err" if "auth_step s w w1" "dead_token ?h (families w1)"
  proof -
    from auth_step_refines [OF assms(1) that(1) assms(2)] auth_steps_refine [OF assms(1,3)]
    have ok: "sessions_ok w2" and st: "family_step\<^sup>*\<^sup>* (families w1) (families w2)" by blast+
    from dead_token_refused [OF assms(1) ok dead_token_later [OF that(2) family_steps_later [OF st]]] show ?thesis .
  qed
  have "\<exists>err. fst (refresh s j e2 w2) = Inl err" if r: "refresh s i e w = (Inr p, e1, w1)" and j: "ri_token j = ri_token i"
  proof -
    from refresh_cases [OF assms(1,2) r] obtain f where
      "families w1 (tp_session p) = Some f" "hash_refresh (tx_crypto (as_ext s)) (ri_token i) \<in> fm_spent f"
      by (auto simp: refresh_spec_def Let_def)
    then have "dead_token ?h (families w1)" unfolding j dead_token_def by blast
    with refused [OF auth_step.refresh [OF r]] show ?thesis .
  qed
  moreover have "\<exists>err. fst (refresh s j e2 w2) = Inl err"
    if l: "logout s sid e w = (Inr (), e1, w1)" and f: "families w sid = Some f" "?h \<in> fm_tokens f"
  proof -
    have "families w1 sid = Some (f\<lparr>fm_revoked := True\<rparr>)" using logout_revokes [OF assms(1) l] f(1) by simp
    with f(2) have "dead_token ?h (families w1)" unfolding dead_token_def fm_tokens_def
      by (intro exI [of _ sid] exI [of _ "f\<lparr>fm_revoked := True\<rparr>"]) auto
    with refused [OF auth_step.logout [OF l]] show ?thesis .
  qed
  ultimately show ?thesis by blast
qed

end
