(* ===== verification/PasswordProps.thy ===== *)
theory PasswordProps imports Passwords begin

text \<open>
  Password hashes verify, and what the strength check refuses.
\<close>

section \<open>Round trip\<close>

lemma decimal [simp]: "nat_digits 19 = ''19''" "nat_digits 19456 = ''19456''" "nat_digits 2 = ''2''" "nat_digits (Suc 0) = ''1''"
  by (simp_all add: nat_digits.simps digit_char_def)

lemma phc_text:
  "phc_encode salt key = ''$argon2id$v=19$m=19456,t=2,p=1$'' @ b64_encode b64_std salt @ ''$'' @ b64_encode b64_std key"
  by (simp add: phc_encode_def argon_version_def argon_mem_def argon_time_def argon_threads_def digit_char_def)

lemma dollar_free: "CHR ''$'' \<notin> set (b64_encode b64_std s)"
  using b64_encode_mem [OF b64_alphabets(1)] by (auto simp: b64_std_def)

lemma skip_nothing: "t \<noteq> [] \<Longrightarrow> is_digit (hd t) \<Longrightarrow> skip_spaces t = Some t"
proof -
  assume t: "t \<noteq> []" "is_digit (hd t)"
  have "strip_left (filter (\<lambda>r. r \<noteq> [CHR 0x0A]) space_runes) t = t"
    by (rule strip_left_id) (use t in \<open>auto simp: space_runes_def is_digit_def neq_Nil_conv\<close>)
  with t show ?thesis by (auto simp: skip_spaces_def is_digit_def neq_Nil_conv)
qed

lemma scan_here [simp]: "scan_version ''v=19'' = Some 19" "scan_params ''m=19456,t=2,p=1'' = Some (19456, 2, 1)"
  by (simp_all add: scan_version_def scan_params_def scan_lit_def scan_int_def scan_uint_def skip_nothing
      scan_digits_def is_digit_def digits_value_def)

lemma decode_phc:
  "decode_argon2id (phc_encode salt key) = Some \<lparr>ah_mem = argon_mem, ah_time = argon_time, ah_threads = argon_threads,
     ah_salt = salt, ah_key = key\<rparr>"
proof -
  have "str_split (CHR ''$'') (phc_encode salt key) =
      [[], ''argon2id'', ''v=19'', ''m=19456,t=2,p=1'', b64_encode b64_std salt, b64_encode b64_std key]"
    unfolding phc_text using str_split_append [OF dollar_free] str_split_no_occ [OF dollar_free] by simp
  then show ?thesis
    by (simp add: decode_argon2id_def b64_decode_encode argon_version_def argon_mem_def argon_time_def argon_threads_def)
qed

text \<open>What \<^verbatim>\<open>argon2.IDKey\<close> documents of its result.\<close>

definition idkey_sized :: "crypto_ext \<Rightarrow> bool" where
  "idkey_sized x \<longleftrightarrow> (\<forall>p s t m l n. length (cx_idkey x p s t m l n) = unat n)"

lemma verify_phc:
  assumes "length key < 2 ^ 32"
  shows "password_verify x (phc_encode salt key) plain =
     Inr (cx_idkey x plain salt argon_time argon_mem argon_threads (of_nat (length key)) = key)"
proof -
  have "prefix ''$argon2id$'' (phc_encode salt key)" by (simp add: phc_text)
  then show ?thesis by (simp add: password_verify_def verify_argon2id_def decode_phc argon_time_def argon_threads_def)
qed

lemma needs_rehash_phc: "\<not> needs_rehash (phc_encode salt key)"
proof -
  have "prefix ''$argon2id$'' (phc_encode salt key)" by (simp add: phc_text)
  then show ?thesis by (simp add: needs_rehash_def decode_phc)
qed

lemma verify_hash:
  assumes "idkey_sized x"
  shows "password_verify x (password_hash x salt plain) other =
     Inr (cx_idkey x other salt argon_time argon_mem argon_threads argon_key_len =
          cx_idkey x plain salt argon_time argon_mem argon_threads argon_key_len)"
proof -
  have "length (cx_idkey x plain salt argon_time argon_mem argon_threads argon_key_len) = 32"
    using assms by (simp add: idkey_sized_def argon_key_len_def)
  with verify_phc [of "cx_idkey x plain salt argon_time argon_mem argon_threads argon_key_len" x salt other]
  show ?thesis by (simp add: password_hash_def argon_key_len_def)
qed

text \<open>A hash that needs no rehash has at least two rounds and one lane, so verifying it does not panic.\<close>

lemma current_no_panic:
  assumes "\<not> needs_rehash hash"
  shows "\<exists>b. password_verify x hash plain = Inr b"
proof -
  from assms obtain h where h: "prefix ''$argon2id$'' hash" "decode_argon2id hash = Some h"
    and t: "\<not> ah_time h < argon_time" "ah_threads h = argon_threads"
    by (auto simp: needs_rehash_def split: if_splits option.splits)
  from t have "ah_time h \<noteq> 0" "ah_threads h \<noteq> 0" by (auto simp: argon_time_def argon_threads_def)
  with h show ?thesis by (simp add: password_verify_def verify_argon2id_def)
qed

text \<open>C30. Hashing a password and verifying it fit together: the text \<^verbatim>\<open>Hash\<close> produces, whatever the salt,
  decodes to the current parameters, the salt and the key, verifies against the password that was hashed,
  against another one exactly when the key derivation does not tell the two apart, and is not flagged for
  rehashing; and no hash that is not flagged can make \<^verbatim>\<open>Verify\<close> panic.\<close>

theorem password_hash_verifies:
  assumes "idkey_sized x"
  shows "decode_argon2id (password_hash x salt plain) = Some \<lparr>ah_mem = 19456, ah_time = 2, ah_threads = 1,
       ah_salt = salt, ah_key = cx_idkey x plain salt 2 19456 1 32\<rparr> \<and>
     password_verify x (password_hash x salt plain) plain = Inr True \<and>
     (password_verify x (password_hash x salt plain) other = Inr True \<longleftrightarrow>
        cx_idkey x other salt 2 19456 1 32 = cx_idkey x plain salt 2 19456 1 32) \<and>
     \<not> needs_rehash (password_hash x salt plain) \<and>
     (\<not> needs_rehash hash \<longrightarrow> password_verify x hash other \<noteq> Inl GoPanic)"
  using verify_hash [OF assms] needs_rehash_phc current_no_panic [of hash x other]
  by (auto simp: password_hash_def decode_phc argon_mem_def argon_time_def argon_threads_def argon_key_len_def)

definition demo_crypto :: crypto_ext where
  "demo_crypto = \<lparr>cx_idkey = (\<lambda>p s t m l n. take (unat n) (p @ replicate (unat n) (CHR ''.''))),
     cx_bcrypt = (\<lambda>h p. False), cx_rand = (\<lambda>n k. Some (replicate n (char_of k))),
     cx_sha256 = (\<lambda>s. rev s), cx_lower = (\<lambda>s. s)\<rparr>"

theorem password_hash_verifies_witness:
  "password_verify demo_crypto (password_hash demo_crypto ''salt'' ''pw'') ''pw'' = Inr True \<and>
   password_verify demo_crypto (password_hash demo_crypto ''salt'' ''pw'') ''other'' \<noteq> Inr True"
proof -
  have "idkey_sized demo_crypto" by (auto simp: idkey_sized_def demo_crypto_def min_def)
  from password_hash_verifies [OF this, of "''salt''" "''pw''" "''other''"] show ?thesis
    by (simp add: demo_crypto_def)
qed

section \<open>Strength\<close>

fun steps_by :: "8 word \<Rightarrow> 8 word \<Rightarrow> 8 word list \<Rightarrow> bool" where
  "steps_by d b [] = True"
| "steps_by d b (c # cs) = (c = b + d \<and> steps_by d c cs)"

lemma sequence_loop_steps:
  "sequence_loop asc desc b cs \<longleftrightarrow> asc \<and> steps_by 1 b cs \<or> desc \<and> steps_by 0xff b cs"
proof (induction cs arbitrary: asc desc b)
  case (Cons c cs)
  have "c - b = 1 \<longleftrightarrow> c = b + 1" "c - b = 0xff \<longleftrightarrow> c = b + 0xff" by (auto simp: diff_eq_eq add.commute)
  then show ?case by (auto simp: Cons.IH)
qed simp

lemma steps_by_nth: "steps_by d b cs \<longleftrightarrow> (\<forall>i < length cs. cs ! i = b + of_nat (Suc i) * d)"
  by (induction cs arbitrary: b) (auto simp: All_less_Suc2 algebra_simps)

text \<open>The bytes of a text run up or down by one, modulo 256.\<close>

definition byte_run :: "int \<Rightarrow> string \<Rightarrow> bool" where
  "byte_run d s \<longleftrightarrow> (\<forall>i < length s. int (of_char (s ! i)) = (int (of_char (s ! 0)) + d * int i) mod 256)"

lemma go_byte_eq:
  "go_byte c = go_byte b + of_nat k * word_of_int d \<longleftrightarrow> int (of_char c) = (int (of_char b) + d * int k) mod 256"
proof -
  have r: "go_byte b + of_nat k * word_of_int d = word_of_int (int (of_char b) + d * int k)"
    by (simp add: go_byte_def algebra_simps)
  have l: "go_byte c = word_of_int (int (of_char c))" by (simp add: go_byte_def)
  have m: "word_of_int i = (word_of_int j :: 8 word) \<longleftrightarrow> i mod 256 = j mod 256" for i j
    by (simp add: word_of_int_eq_iff take_bit_eq_mod)
  have "int (of_char c) mod 256 = int (of_char c)" by simp
  then show ?thesis unfolding r l m by simp
qed

lemma steps_by_run:
  assumes "s \<noteq> []"
  shows "steps_by (word_of_int d) (go_byte (hd s)) (map go_byte (tl s)) \<longleftrightarrow> byte_run d s"
proof -
  obtain c cs where "s = c # cs" using assms by (cases s) auto
  have "int (of_char c) mod 256 = int (of_char c)" by simp
  with \<open>s = c # cs\<close> show ?thesis
    by (simp add: steps_by_nth byte_run_def All_less_Suc2 go_byte_eq del: of_nat_Suc)
qed

lemma is_sequential_iff: "is_sequential s \<longleftrightarrow> 4 \<le> length s \<and> (byte_run 1 s \<or> byte_run 255 s)"
proof (cases "length s < 4")
  case False
  then have "s \<noteq> []" by auto
  from steps_by_run [OF this, of 1] steps_by_run [OF this, of 255] False show ?thesis
    by (simp add: is_sequential_def sequence_loop_steps)
qed (simp add: is_sequential_def)

lemma is_uniform_iff: "is_uniform s \<longleftrightarrow> 2 \<le> length s \<and> (\<exists>c. set s = {c})"
  by (cases s; cases "tl s") (auto simp: is_uniform_def list_all_iff)

definition echoes_email :: "crypto_ext \<Rightarrow> string \<Rightarrow> string \<Rightarrow> bool" where
  "echoes_email x plain email \<longleftrightarrow> email \<noteq> [] \<and>
     (let p = to_lower x (trim_space plain); em = to_lower x (trim_space email) in
      p = em \<or> (\<exists>domain. p \<noteq> [] \<and> CHR ''@'' \<notin> set p \<and> em = p @ CHR ''@'' # domain))"

lemma echoes_email_code:
  "(let loc = (case index_byte em (CHR ''@'') of Some at \<Rightarrow> if at > 0 then take at em else em | None \<Rightarrow> em) in
     p = em \<or> (loc \<noteq> [] \<and> p = loc)) \<longleftrightarrow>
   p = em \<or> (\<exists>domain. p \<noteq> [] \<and> CHR ''@'' \<notin> set p \<and> em = p @ CHR ''@'' # domain)"
proof (cases "index_byte em (CHR ''@'')")
  case (Some at)
  from index_byte_Some_split [OF Some] have em: "em = take at em @ CHR ''@'' # drop (Suc at) em"
    and n: "CHR ''@'' \<notin> set (take at em)" and l: "at < length em" by auto
  have d: "(\<exists>domain. p \<noteq> [] \<and> CHR ''@'' \<notin> set p \<and> em = p @ CHR ''@'' # domain) \<longleftrightarrow> at > 0 \<and> p = take at em"
  proof
    assume "\<exists>domain. p \<noteq> [] \<and> CHR ''@'' \<notin> set p \<and> em = p @ CHR ''@'' # domain"
    then obtain domain where p: "p \<noteq> []" "CHR ''@'' \<notin> set p" "em = p @ CHR ''@'' # domain" by blast
    with Some have "at = length p" by simp
    with p show "at > 0 \<and> p = take at em" by simp
  next
    assume "at > 0 \<and> p = take at em"
    with em n l show "\<exists>domain. p \<noteq> [] \<and> CHR ''@'' \<notin> set p \<and> em = p @ CHR ''@'' # domain" by auto
  qed
  have "take at em \<noteq> []" if "at > 0" using that l by auto
  with Some show ?thesis unfolding d by (auto simp: Let_def)
qed auto

text \<open>The offline strength check accepts a password exactly when its lowercased trim is not on the list of
  common ones, is neither the lowercased e-mail nor its part before the at sign, is not one byte repeated, and is
  not a run of at least four bytes that go up by one, or by 255 (that is down by one), modulo 256; it looks at nothing else, so shorter runs and short passwords pass.\<close>

theorem weak_reason_accepts:
  "weak_reason x plain email = [] \<longleftrightarrow> (let p = to_lower x (trim_space plain) in
     p \<notin> set common_passwords \<and> \<not> echoes_email x plain email \<and>
     \<not> (2 \<le> length p \<and> (\<exists>c. set p = {c})) \<and> \<not> (4 \<le> length p \<and> (byte_run 1 p \<or> byte_run 255 p)))"
  by (auto simp: weak_reason_def Let_def is_uniform_iff is_sequential_iff echoes_email_def echoes_email_code [unfolded Let_def])

end
