(* ===== verification/AuthAnswers.thy ===== *)
theory AuthAnswers imports SignInSafety AuthSafety AuthHttp PasswordProps begin

text \<open>
  What the operations of authentication answer: the outcome of a login, a sign-up that can be signed in to, the life
  of a hosted session, and who may revoke a session.
\<close>

section \<open>Login\<close>

definition login_outcome ::
  "'z auth_db_scheme auth_service \<Rightarrow> string \<Rightarrow> string \<Rightarrow> string \<Rightarrow> verdict \<Rightarrow> (nat \<Rightarrow> time) \<Rightarrow> 'z auth_db_scheme \<Rightarrow>
   go_error + login_result \<Rightarrow> 'z auth_db_scheme \<Rightarrow> bool" where
  "login_outcome s email ip ua v C w r w' \<longleftrightarrow>
     (case v of
        Locked \<Rightarrow> r = Inl account_locked \<and> w' = w
      | Refused \<Rightarrow> r = Inl invalid_credentials \<and> (\<exists>i j. attempt_rows w' = attempt_rows (after_failure email (C i) (C j) w))
      | Barred status \<Rightarrow> r = Inl (ApiErr (with_detail ErrForbidden (''account '' @ status))) \<and> w' = w
      | Broken err \<Rightarrow> r = Inl err \<and> w' = w
      | Accepted u h \<Rightarrow> \<exists>v e1 q e2 v'. accepted_state email h w v \<and> run_login_hook s u e1 v = (q, e2, v') \<and>
          (case q of
             Inl err \<Rightarrow> r = Inl err \<and> w' = v'
           | Inr (_, cl) \<Rightarrow> \<exists>e3 e4. bind_io (mfa_enrolled s (us_id u)) (login_result_of s ip ua u cl) e3 v' = (r, e4, w')))"

lemma hook_user: "run_login_hook s u e w = (Inr (u', cl), e', w') \<Longrightarrow> u' = u"
  by (auto simp: run_login_hook_def ret_ok bind_ok split: option.splits)

text \<open>C23. What a login answers. Without faults it is decided by the verdict on the address and the password at one
  reading of the clock: a locked address is refused whatever the password; an address no user has, a user without
  password and a wrong password are all answered alike and counted alike; a user that is neither active nor
  invited is told its status, and nothing is counted, before the password is looked at; and an accepted user has its
  counter cleared and gets the answer of the login hook and then a challenge or tokens.\<close>

theorem login_decides:
  assumes "no_faults e" and "attempts_spared s" and "login s raw plain ip ua e w = (r, e', w')"
  shows "\<exists>k. login_outcome s (login_key (as_ext s) raw) ip ua (verdict_on (as_ext s) raw plain (e_clock e k) w) (e_clock e) w r w'"
proof -
  obtain q e1 w1 where c: "check_password s raw plain e w = (q, e1, w1)" by (metis prod_cases3)
  from check_password_verdict [OF assms(1,2) c] obtain k where
    v: "verdict_outcome s (login_key (as_ext s) raw) (verdict_on (as_ext s) raw plain (e_clock e k) w) (e_clock e) w q w1" ..
  have l: "(case q of Inl err \<Rightarrow> r = Inl err \<and> w' = w1
      | Inr (u, cl) \<Rightarrow> bind_io (mfa_enrolled s (us_id u)) (login_result_of s ip ua u cl) e1 w1 = (r, e', w'))"
    using assms(3) c by (auto simp: login_def bind_io_def split: sum.splits prod.splits)
  have "login_outcome s (login_key (as_ext s) raw) ip ua (verdict_on (as_ext s) raw plain (e_clock e k) w) (e_clock e) w r w'"
  proof (cases "verdict_on (as_ext s) raw plain (e_clock e k) w")
    case (Accepted u h)
    with v obtain v1 e2 e3 where a: "accepted_state (login_key (as_ext s) raw) h w v1"
      and h: "run_login_hook s u e2 v1 = (q, e3, w1)" by (auto simp: verdict_outcome_def)
    have "case q of Inl err \<Rightarrow> r = Inl err \<and> w' = w1
        | Inr (_, cl) \<Rightarrow> \<exists>e3 e4. bind_io (mfa_enrolled s (us_id u)) (login_result_of s ip ua u cl) e3 w1 = (r, e4, w')"
      using l h hook_user [of s u e2 v1] by (cases q) auto
    with a h show ?thesis unfolding login_outcome_def Accepted verdict.case by (intro exI conjI)
  qed (use v l in \<open>auto simp: verdict_outcome_def login_outcome_def\<close>)
  then show ?thesis ..
qed

section \<open>Sign-up\<close>

text \<open>The account a sign-up leaves: its address was free, and its password is accepted.\<close>

definition new_account ::
  "auth_ext \<Rightarrow> string \<Rightarrow> string \<Rightarrow> uuid option \<Rightarrow> 'z auth_db_scheme \<Rightarrow> user_row \<Rightarrow> 'z auth_db_scheme \<Rightarrow> bool" where
  "new_account x email plain tenant w u w' \<longleftrightarrow>
     get_user_by_email x (trim_space email) w = None \<and> us_tenant u = tenant \<and> us_email u = trim_space email \<and>
     get_user_by_email x (trim_space email) w' = Some u \<and>
     (\<forall>now. verdict_on x (trim_space email) plain now w' =
        (if locked_at now (find_attempt (login_key x (trim_space email)) w') then Locked
         else Accepted u (the (get_password_hash (us_id u) w'))))"

lemma create_identity_ok:
  assumes "create_identity x tenant email display hash e w = (Inr u, e', w')"
  shows "get_user_by_email x (trim_space email) w = None \<and> us_tenant u = tenant \<and> us_email u = trim_space email \<and>
    us_status u = ''active'' \<and> us_deleted u = None \<and> user_rows w' = user_rows w @ [u] \<and>
    attempt_rows w' = attempt_rows w \<and> get_password_hash (us_id u) w' = Some hash"
proof -
  from assms obtain i now e1 w1 e2 e3 now2 where u: "u = new_user_row i tenant (trim_space email) (if display = [] then None else Some display) now"
    and ins: "db_exec (insert_user x u) e1 w = (Inr (), e2, w1)"
    and cred: "db_exec (insert_credential \<lparr>cd_user = i, cd_hash = hash, cd_updated = now2\<rparr>) e3 w1 = (Inr (), e', w')"
    by (auto simp: create_identity_def Let_def bind_ok uuid_new_ok time_now_ok on_error_ok fail_ok ret_ok split: if_splits)
  from ins have w1: "w1 = w\<lparr>user_rows := user_rows w @ [u]\<rparr>" and free: "get_user_by_email x (us_email u) w = None"
    by (auto simp: db_exec_ok insert_user_def split: if_splits)
  from cred have "w' = w1\<lparr>cred_rows := cred_rows w1 @ [\<lparr>cd_user = i, cd_hash = hash, cd_updated = now2\<rparr>]\<rparr>"
    and "i \<notin> cd_user ` set (cred_rows w1)"
    by (auto simp: db_exec_ok insert_credential_def split: if_splits)
  moreover from this(2) have "List.find (\<lambda>c. cd_user c = i) (cred_rows w1) = None" by (auto simp: find_None_all)
  ultimately show ?thesis using free u w1
    by (simp add: new_user_row_def get_password_hash_def find_append)
qed

lemma identity_account:
  assumes x: "idkey_sized (tx_crypto x)"
    and c: "create_identity x tenant email display (password_hash (tx_crypto x) salt plain) e w = (Inr u, e', v)"
    and same: "user_rows w' = user_rows v" "cred_rows w' = cred_rows v" "attempt_rows w' = attempt_rows v"
  shows "new_account x email plain tenant w u w'"
proof -
  note i = create_identity_ok [OF c]
  have "get_user_by_email x (trim_space email) w' = Some u"
    using i same(1) by (simp add: get_user_by_email_def find_append)
  moreover have h: "get_password_hash (us_id u) w' = Some (password_hash (tx_crypto x) salt plain)"
    using i same(2) by (simp add: get_password_hash_def)
  moreover have "password_hash (tx_crypto x) salt plain \<noteq> []" by (simp add: password_hash_def phc_text)
  ultimately show ?thesis
    using i by (simp add: new_account_def verdict_on_def verify_hash [OF x])
qed

lemma reads_pwned: "\<forall>f. as_breach s = Some f \<longrightarrow> reads (f plain) \<Longrightarrow> reads (pwned s plain)"
  by (auto simp: pwned_def reads_def on_error_def ret_def split: option.splits prod.splits sum.splits)
    (metis snd_conv)+

lemma hash_password_ok:
  assumes "hash_password x plain e w = (Inr hash, e', w')"
  shows "w' = w \<and> (\<exists>salt. hash = password_hash x salt plain)"
  using assms by (auto simp: hash_password_def rand_read_def bind_ok ret_ok uuid_new_ok fail_ok split: option.splits)

text \<open>C24. A sign-up that succeeds makes an account one can sign in to. The address was free, which the answer 201
  thereby reveals; the user is stored with it, trimmed, and with no tenant, or with the tenant of a registration; a
  sign-in with the trimmed address and the password is accepted at any time the address is not locked; and
  the tokens are of this user, with no tenant.\<close>

theorem sign_up_can_sign_in:
  assumes "idkey_sized (tx_crypto (as_ext s))"
    and "\<forall>f. as_breach s = Some f \<longrightarrow> reads (f plain)"
    and "\<forall>g. as_registration s = Some g \<longrightarrow> reads (rg_enabled g tenant) \<and> reads (rg_validate g tenant plain)"
  shows "(signup s email plain display ip ua e w = (Inr (p, u), e', w') \<longrightarrow>
      new_account (as_ext s) email plain None w u w' \<and> tp_user p = us_id u \<and> tp_tenant p = None) \<and>
    (register_in_tenant s tenant email plain display ip ua e w = (Inr (u, raw), e', w') \<longrightarrow>
      new_account (as_ext s) email plain (Some tenant) w u w')"
proof (intro conjI impI)
  assume run: "signup s email plain display ip ua e w = (Inr (p, u), e', w')"
  then obtain e1 w1 e2 w2 hash e3 w3 where
    s: "strong_password (as_ext s) plain email e w = (Inr (), e1, w1)" and b: "pwned s plain e1 w1 = (Inr False, e2, w2)"
    and h: "hash_password (tx_crypto (as_ext s)) plain e2 w2 = (Inr hash, e3, w3)"
    and t: "in_tx (bind_io (create_identity (as_ext s) None email display hash) (\<lambda>u.
               bind_io (open_session s (us_id u) None ip ua []) (\<lambda>p. ret (p, u)))) e3 w3 = (Inr (p, u), e', w')"
    unfolding signup_def bind_ok by (auto simp: fail_ok bind_ok split: if_splits)
  have "w1 = w" using s by (rule readsD [rotated]) (auto simp: strong_password_def Let_def)
  moreover have "w2 = w1" using b by (rule readsD [rotated]) (rule reads_pwned [OF assms(2)])
  moreover from hash_password_ok [OF h] obtain salt where "w3 = w2" "hash = password_hash (tx_crypto (as_ext s)) salt plain" by blast
  ultimately obtain e4 v e5 where c: "create_identity (as_ext s) None email display
      (password_hash (tx_crypto (as_ext s)) salt plain) e4 w = (Inr u, e5, v)"
    and o: "\<exists>e6. open_session s (us_id u) None ip ua [] e5 v = (Inr p, e6, w')"
    using t by (auto simp: bind_ok ret_ok elim!: in_tx_ok)
  from o obtain e6 where o: "open_session s (us_id u) None ip ua [] e5 v = (Inr p, e6, w')" ..
  from open_session_ok [OF o] obtain sess tok where "w' = with_session sess tok v" and p: "tp_user p = us_id u" "tp_tenant p = None" .
  then have "new_account (as_ext s) email plain None w u w'"
    by (intro identity_account [OF assms(1) c]) (simp_all add: with_session_def)
  with p show "new_account (as_ext s) email plain None w u w'" "tp_user p = us_id u" "tp_tenant p = None" by simp_all
next
  assume run: "register_in_tenant s tenant email plain display ip ua e w = (Inr (u, raw), e', w')"
  then obtain g where g: "as_registration s = Some g" by (auto simp: register_in_tenant_def fail_ok split: option.splits)
  with run obtain e0 w0 e1 w1 e2 w2 hash e3 w3 e4 w4 where
    en: "rg_enabled g tenant e w = (Inr True, e0, w0)"
    and s: "strong_password (as_ext s) plain email e0 w0 = (Inr (), e1, w1)" and b: "rg_validate g tenant plain e1 w1 = (Inr (), e2, w2)"
    and h: "hash_password (tx_crypto (as_ext s)) plain e2 w2 = (Inr hash, e3, w3)"
    and t: "in_tx (create_identity (as_ext s) (Some tenant) email display hash) e3 w3 = (Inr u, e4, w4)"
    and l: "create_login_session (as_ext s) (us_id u) ip ua e4 w4 = (Inr raw, e', w')"
    unfolding register_in_tenant_def g by (auto simp: fail_ok bind_ok ret_ok split: if_splits)
  have "w1 = w0" using s by (rule readsD [rotated]) (auto simp: strong_password_def Let_def)
  moreover have "w0 = w" using en by (rule readsD [rotated]) (use assms(3) g in simp)
  moreover have "w2 = w1" using b by (rule readsD [rotated]) (use assms(3) g in simp)
  moreover from hash_password_ok [OF h] obtain salt where "w3 = w2" "hash = password_hash (tx_crypto (as_ext s)) salt plain" by blast
  ultimately obtain e5 e6 where c: "create_identity (as_ext s) (Some tenant) email display
      (password_hash (tx_crypto (as_ext s)) salt plain) e5 w = (Inr u, e6, w4)"
    using t by (auto elim!: in_tx_ok)
  have "keeps (\<lambda>v. user_rows v = user_rows w4 \<and> cred_rows v = cred_rows w4 \<and> attempt_rows v = attempt_rows w4)
      (create_login_session (as_ext s) (us_id u) ip ua)"
    unfolding create_login_session_def
    by (auto simp: insert_login_session_def intro!: keeps_bind keeps_db_exec intro: keeps_reads split: prod.splits if_splits)
  from keepsD [OF this _ l] show "new_account (as_ext s) email plain (Some tenant) w u w'"
    by (intro identity_account [OF assms(1) c]) simp_all
qed

section \<open>Hosted sessions\<close>

lemma create_login_session_ok:
  assumes "create_login_session x user ip ua e w = (Inr raw, e', w')"
  shows "\<exists>r k. find_login_session (hash_refresh (tx_crypto x) raw) w' = Some r \<and> ls_user r = user \<and>
    ls_expires r = e_clock e k + login_session_ttl \<and> user_exists user w"
proof -
  from assms obtain hash e1 w1 e2 now created where t: "new_refresh_token (tx_crypto x) e w = (Inr (raw, hash), e1, w1)"
    and now: "now = e_clock e1 (e_ticks e1)"
    and ins: "db_exec (insert_login_session x ip \<lparr>ls_hash = hash, ls_user = user, ls_created = created,
         ls_expires = now + login_session_ttl, ls_ip = None, ls_agent = ua\<rparr>) e2 w1 = (Inr (), e', w')"
    by (auto simp: create_login_session_def bind_ok time_now_ok ret_ok)
  from new_refresh_token_ok [OF t] have h: "w1 = w" "hash = hash_refresh (tx_crypto x) raw" by simp_all
  from t have "e_clock e1 = e_clock e"
    by (auto simp: new_refresh_token_def rand_read_def bind_ok uuid_new_ok ret_ok fail_ok Let_def split: option.splits)
  moreover from ins have "hash \<notin> ls_hash ` set (login_rows w1)" by (auto simp: db_exec_ok insert_login_session_def split: if_splits)
  then have "List.find (\<lambda>s. ls_hash s = hash) (login_rows w1) = None" by (auto simp: find_None_all)
  with ins have "find_login_session hash w' = Some \<lparr>ls_hash = hash, ls_user = user, ls_created = created,
      ls_expires = now + login_session_ttl, ls_ip = (if ip = [] then None else ax_inet (tx_audit x) ip), ls_agent = ua\<rparr>"
    and "user_exists user w1"
    by (auto simp: db_exec_ok insert_login_session_def find_login_session_def find_append split: if_splits)
  ultimately show ?thesis using h now by auto
qed

text \<open>C25. A hosted session lives its half hour and no longer. The cookie of a session created for a user, shown while
  its row is stored, is resolved to that user until thirty minutes after the clock reading of its creation, used or
  not in between, and to 401 afterwards; once the session is revoked, or if no row has the hash of the cookie, it is
  refused.\<close>

theorem hosted_session_lives_its_time:
  assumes "create_login_session x user ip ua e w = (Inr raw, e1, w1)" and "raw \<noteq> []"
  shows "\<exists>k. (\<forall>e2 w2. no_faults e2 \<and> find_login_session (hash_refresh (tx_crypto x) raw) w2 =
          find_login_session (hash_refresh (tx_crypto x) raw) w1 \<longrightarrow>
        fst (resolve_login_session x raw e2 w2) =
          (if e_clock e2 (e_ticks e2) \<le> e_clock e k + minutes 30 then Inr user else Inl (ApiErr ErrUnauthorized))) \<and>
      (\<forall>e2 w2 e3 w3 e4. revoke_login_session x raw e2 w2 = (Inr (), e3, w3) \<and> no_faults e4 \<longrightarrow>
        fst (resolve_login_session x raw e4 w3) = Inl (ApiErr ErrUnauthorized))"
proof -
  let ?h = "hash_refresh (tx_crypto x) raw"
  from create_login_session_ok [OF assms(1)] obtain r k where r: "find_login_session ?h w1 = Some r" "ls_user r = user"
    and x: "ls_expires r = e_clock e k + login_session_ttl" by blast
  have "fst (resolve_login_session x raw e2 w2) =
      (if e_clock e2 (e_ticks e2) \<le> e_clock e k + minutes 30 then Inr user else Inl (ApiErr ErrUnauthorized))"
    if "no_faults e2" and "find_login_session ?h w2 = find_login_session ?h w1" for e2 w2
    using that r x assms(2) by (simp add: resolve_login_session_def bind_io_def db_read_def db_call_def Let_def no_faults_def
        time_now_def fail_def ret_def login_session_ttl_def)
  moreover have "fst (resolve_login_session x raw e4 w3) = Inl (ApiErr ErrUnauthorized)"
    if "revoke_login_session x raw e2 w2 = (Inr (), e3, w3)" and "no_faults e4" for e2 w2 e3 w3 e4
  proof -
    from that(1) have "w3 = delete_login_session ?h w2" using assms(2) by (simp add: revoke_login_session_def db_write_ok)
    then have "find_login_session ?h w3 = None"
      by (auto simp: find_login_session_def delete_login_session_def find_None_all)
    with that(2) assms(2) show ?thesis
      by (simp add: resolve_login_session_def bind_io_def db_read_def db_call_def Let_def no_faults_def fail_def)
  qed
  ultimately show ?thesis by blast
qed

section \<open>Revoking the sessions of others\<close>

text \<open>C29. The handler that revokes a session never asks whose session it is. For every request, its answer and its
  effect are the same whatever principal the request carries; and without faults it answers 200 and revokes the
  session it names, of whatever user and tenant, if that is stored.\<close>

theorem any_session_can_be_revoked:
  assumes "collaborators_spare (ah_service h)"
  shows "revoke_session_handler h pu (r\<lparr>rq_principal := p\<rparr>) = revoke_session_handler h pu r \<and>
    (no_faults e \<and> uuid_param pu r ''id'' = Inr i \<and> families w i = Some f \<longrightarrow>
      (\<exists>e' w'. revoke_session_handler h pu r e w = (Inr (200, [], AuthMessage ''Session revoked.''), e', w') \<and>
         families w' = (families w)(i \<mapsto> f\<lparr>fm_revoked := True\<rparr>)))"
proof
  show "revoke_session_handler h pu (r\<lparr>rq_principal := p\<rparr>) = revoke_session_handler h pu r"
    by (simp add: revoke_session_handler_def uuid_param_def url_param_def)
  have answers: "\<exists>e' w'. logout s i e w = (Inr (), e', w')" if "no_faults e" for s i e and w :: "'a auth_db_scheme"
    using that auth_emit_answers [where w = "_ :: 'a auth_db_scheme"]
    by (simp add: logout_def revoke_returning_def bind_io_def time_now_def db_call_def Let_def no_faults_def ret_def
        split: option.splits prod.splits) 
  show "no_faults e \<and> uuid_param pu r ''id'' = Inr i \<and> families w i = Some f \<longrightarrow>
      (\<exists>e' w'. revoke_session_handler h pu r e w = (Inr (200, [], AuthMessage ''Session revoked.''), e', w') \<and>
         families w' = (families w)(i \<mapsto> f\<lparr>fm_revoked := True\<rparr>))"
  proof
    assume a: "no_faults e \<and> uuid_param pu r ''id'' = Inr i \<and> families w i = Some f"
    then obtain e1 w1 where l: "logout (ah_service h) i e w = (Inr (), e1, w1)" using answers by blast
    from logout_revokes [OF assms l] a have "families w1 = (families w)(i \<mapsto> f\<lparr>fm_revoked := True\<rparr>)" by simp
    moreover have "revoke_session_handler h pu r e w = (Inr (200, [], AuthMessage ''Session revoked.''), e1, w1)"
      using a l by (simp add: revoke_session_handler_def lift_res_def bind_io_def ret_def)
    ultimately show "\<exists>e' w'. revoke_session_handler h pu r e w = (Inr (200, [], AuthMessage ''Session revoked.''), e', w') \<and>
         families w' = (families w)(i \<mapsto> f\<lparr>fm_revoked := True\<rparr>)" by blast
  qed
qed

end
