(* ===== verification/Triples.thy ===== *)
theory Triples imports Audited AuthStore begin

text \<open>
  Partial correctness of operations, faults included: from a state that satisfies the precondition a run ends in a
  value and a state the postcondition accepts, or in an error and a state the error condition accepts. The rules
  follow the shape of the operation; a transaction that ends in an error is back where it began.
\<close>

named_theorems triple_intros \<open>what an operation leaves behind, on success and on error\<close>

definition triple ::
  "('w \<Rightarrow> bool) \<Rightarrow> ('w, 'a) io \<Rightarrow> ('a \<Rightarrow> 'w \<Rightarrow> bool) \<Rightarrow> ('w \<Rightarrow> bool) \<Rightarrow> bool" where
  "triple P m Q E \<longleftrightarrow> (\<forall>e w. P w \<longrightarrow> (case m e w of (r, e', w') \<Rightarrow> (case r of Inl _ \<Rightarrow> E w' | Inr a \<Rightarrow> Q a w')))"

lemma tripleD:
  assumes "triple P m Q E" and "P w" and "m e w = (r, e', w')"
  shows "case r of Inl _ \<Rightarrow> E w' | Inr a \<Rightarrow> Q a w'"
  using assms(1) [unfolded triple_def, rule_format, OF assms(2), of e] assms(3) by simp

lemma triple_okD: "triple P m Q E \<Longrightarrow> P w \<Longrightarrow> m e w = (Inr a, e', w') \<Longrightarrow> Q a w'"
  using tripleD [of P m Q E w e "Inr a" e' w'] by simp

lemma triple_errD: "triple P m Q E \<Longrightarrow> P w \<Longrightarrow> m e w = (Inl x, e', w') \<Longrightarrow> E w'"
  using tripleD [of P m Q E w e "Inl x" e' w'] by simp

lemma tripleI:
  assumes "\<And>e w a e' w'. P w \<Longrightarrow> m e w = (Inr a, e', w') \<Longrightarrow> Q a w'"
    and "\<And>e w x e' w'. P w \<Longrightarrow> m e w = (Inl x, e', w') \<Longrightarrow> E w'"
  shows "triple P m Q E"
  unfolding triple_def
proof (intro allI impI)
  fix e w assume w: "P w"
  obtain r e' w' where m: "m e w = (r, e', w')" by (metis prod_cases3)
  with assms w show "case m e w of (r, e', w') \<Rightarrow> (case r of Inl _ \<Rightarrow> E w' | Inr a \<Rightarrow> Q a w')" by (cases r) auto
qed

lemma triple_conseq:
  "triple P m Q E \<Longrightarrow> (\<And>w. P' w \<Longrightarrow> P w) \<Longrightarrow> (\<And>a w. Q a w \<Longrightarrow> Q' a w) \<Longrightarrow> (\<And>w. E w \<Longrightarrow> E' w) \<Longrightarrow> triple P' m Q' E'"
  by (rule tripleI, blast dest: triple_okD, blast dest: triple_errD)

lemma triple_ret [triple_intros]: "(\<And>w. P w \<Longrightarrow> Q a w) \<Longrightarrow> triple P (ret a) Q E"
  by (simp add: triple_def ret_def)

lemma triple_fail [triple_intros]: "(\<And>w. P w \<Longrightarrow> E w) \<Longrightarrow> triple P (fail x) Q E"
  by (simp add: triple_def fail_def)

lemma triple_lift_res [triple_intros]:
  "(\<And>a w. P w \<Longrightarrow> r = Inr a \<Longrightarrow> Q a w) \<Longrightarrow> (\<And>w. P w \<Longrightarrow> E w) \<Longrightarrow> triple P (lift_res r) Q E"
  by (cases r) (simp_all add: triple_def lift_res_def ret_def fail_def)

lemma triple_bind [triple_intros]:
  assumes "triple P m R E" and "\<And>a. triple (R a) (f a) Q E"
  shows "triple P (bind_io m f) Q E"
  unfolding triple_def
proof (intro allI impI)
  fix e w assume w: "P w"
  obtain r e1 w1 where m: "m e w = (r, e1, w1)" by (metis prod_cases3)
  show "case bind_io m f e w of (r, e', w') \<Rightarrow> (case r of Inl _ \<Rightarrow> E w' | Inr a \<Rightarrow> Q a w')"
  proof (cases r)
    case (Inl x)
    with triple_errD [OF assms(1) w] m show ?thesis by (simp add: bind_io_def)
  next
    case (Inr a)
    with triple_okD [OF assms(1) w] m have "R a w1" by blast
    with assms(2) [of a] m Inr show ?thesis by (simp add: bind_io_def triple_def)
  qed
qed

lemma triple_on_error [triple_intros]:
  assumes "triple P m Q R" and "\<And>x. triple R (h x) Q E"
  shows "triple P (on_error m h) Q E"
  unfolding triple_def
proof (intro allI impI)
  fix e w assume w: "P w"
  obtain r e1 w1 where m: "m e w = (r, e1, w1)" by (metis prod_cases3)
  show "case on_error m h e w of (r, e', w') \<Rightarrow> (case r of Inl _ \<Rightarrow> E w' | Inr a \<Rightarrow> Q a w')"
  proof (cases r)
    case (Inl x)
    with triple_errD [OF assms(1) w] m have "R w1" by blast
    with assms(2) [of x] m Inl show ?thesis by (simp add: on_error_def triple_def)
  next
    case (Inr a)
    with triple_okD [OF assms(1) w] m show ?thesis by (simp add: on_error_def)
  qed
qed

lemma triple_db_call [triple_intros]:
  "(\<And>w a w'. P w \<Longrightarrow> f w = (Inr a, w') \<Longrightarrow> Q a w') \<Longrightarrow> (\<And>w. P w \<Longrightarrow> E w) \<Longrightarrow> triple P (db_call f) Q E"
  by (auto simp: triple_def db_call_def Let_def split: prod.splits sum.splits)

lemma triple_db_exec [triple_intros]:
  "(\<And>w w'. P w \<Longrightarrow> f w = Inr w' \<Longrightarrow> Q () w') \<Longrightarrow> (\<And>w. P w \<Longrightarrow> E w) \<Longrightarrow> triple P (db_exec f) Q E"
  unfolding db_exec_def by (rule triple_db_call) (auto split: sum.splits)

lemma triple_db_read [triple_intros]:
  "(\<And>w. P w \<Longrightarrow> Q (f w) w) \<Longrightarrow> (\<And>w. P w \<Longrightarrow> E w) \<Longrightarrow> triple P (db_read f) Q E"
  unfolding db_read_def by (rule triple_db_call) auto

lemma triple_db_write [triple_intros]:
  "(\<And>w. P w \<Longrightarrow> Q () (f w)) \<Longrightarrow> (\<And>w. P w \<Longrightarrow> E w) \<Longrightarrow> triple P (db_write f) Q E"
  unfolding db_write_def by (rule triple_db_call) auto

lemma triple_reads: "reads m \<Longrightarrow> (\<And>a w. P w \<Longrightarrow> Q a w) \<Longrightarrow> (\<And>w. P w \<Longrightarrow> E w) \<Longrightarrow> triple P m Q E"
  by (rule tripleI) (auto dest: readsD)

lemma triple_draws [triple_intros]:
  "(\<And>a w. P w \<Longrightarrow> Q a w) \<Longrightarrow> triple P time_now Q E" "(\<And>a w. P w \<Longrightarrow> Q a w) \<Longrightarrow> triple P uuid_new Q E"
  by (auto simp: triple_def time_now_def uuid_new_def)

lemma triple_in_tx [triple_intros]:
  assumes "triple P m Q (\<lambda>_. True)" and "\<And>w. P w \<Longrightarrow> E w"
  shows "triple P (in_tx m) Q E"
proof (rule tripleI)
  fix e w a e' w' assume "P w" and "in_tx m e w = (Inr a, e', w')"
  then show "Q a w'" by (auto elim!: in_tx_ok dest: triple_okD [OF assms(1)])
next
  fix e w x e' w' assume "P w" and "in_tx m e w = (Inl x, e', w')"
  then show "E w'" using assms(2) [of w] atomicD [OF atomic_in_tx, of m e w x e' w'] by simp
qed

lemma triple_if: "(c \<Longrightarrow> triple P a Q E) \<Longrightarrow> (\<not> c \<Longrightarrow> triple P b Q E) \<Longrightarrow> triple P (if c then a else b) Q E"
  by simp

lemma triple_option:
  "(r = None \<Longrightarrow> triple P a Q E) \<Longrightarrow> (\<And>y. r = Some y \<Longrightarrow> triple P (b y) Q E) \<Longrightarrow>
   triple P (case r of None \<Rightarrow> a | Some y \<Rightarrow> b y) Q E"
  by (cases r) simp_all

lemma triple_pair: "(\<And>a b. p = (a, b) \<Longrightarrow> triple P (f a b) Q E) \<Longrightarrow> triple P (case p of (a, b) \<Rightarrow> f a b) Q E"
  by (cases p) simp

lemma triple_keeps: "triple P m (\<lambda>_. P) P \<longleftrightarrow> keeps P m"
proof
  assume t: "triple P m (\<lambda>_. P) P"
  show "keeps P m"
    by (rule keepsI) (use tripleD [OF t] in \<open>auto split: sum.splits\<close>)
qed (auto intro!: tripleI dest: keepsD)

text \<open>A precondition that does not look at the state.\<close>

lemma triple_fact: "(c \<Longrightarrow> triple P m Q E) \<Longrightarrow> triple (\<lambda>w. c \<and> P w) m Q E"
  by (cases c) (simp_all add: triple_def)

lemma triple_record_audit:
  assumes "\<And>w rows. P w \<Longrightarrow> Q () (w\<lparr>audit_rows := rows\<rparr>)" and "\<And>w. P w \<Longrightarrow> E w"
  shows "triple P (record_audit x ev) Q E"
proof (rule tripleI)
  fix e w a e' w' assume "P w" and "record_audit x ev e w = (Inr a, e', w')"
  with record_audit_audited [of x ev e w a e' w'] assms(1) show "Q a w'" by auto
next
  fix e w err e' w' assume "P w" and "record_audit x ev e w = (Inl err, e', w')"
  with assms(2) [of w] atomicD [OF atomic_record_audit, of x ev e w err e' w'] show "E w'" by simp
qed

end
