(* ===== verification/AuthTables.thy ===== *)
theory AuthTables imports AuthProps Triples begin

text \<open>
  The types of the authentication tables: keys are unique, the references between the tables lead to rows, the
  counters of failed sign-ins fit their column. Every operation of the service keeps them, whatever fails.
\<close>

section \<open>The invariant\<close>

definition keys_unique :: "auth_ext \<Rightarrow> 'z auth_db_scheme \<Rightarrow> bool" where
  "keys_unique x w \<longleftrightarrow> distinct (map us_id (user_rows w)) \<and>
     distinct (map (\<lambda>u. tx_lower x (us_email u)) (filter (\<lambda>u. us_deleted u = None) (user_rows w))) \<and>
     distinct (map cd_user (cred_rows w)) \<and> distinct (map ss_id (session_rows w)) \<and>
     distinct (map rf_id (refresh_rows w)) \<and> distinct (map rf_hash (refresh_rows w)) \<and>
     distinct (map la_email (attempt_rows w)) \<and> distinct (map mc_id (challenge_rows w)) \<and>
     distinct (map ls_hash (login_rows w)) \<and> distinct (map td_id (device_rows w)) \<and> distinct (map td_hash (device_rows w))"

definition successors_stored :: "refresh_row list \<Rightarrow> bool" where
  "successors_stored rows \<longleftrightarrow> rf_replaced ` set rows \<subseteq> insert None (Some ` rf_id ` set rows)"

definition references_ok :: "'z auth_db_scheme \<Rightarrow> bool" where
  "references_ok w \<longleftrightarrow> cd_user ` set (cred_rows w) \<subseteq> us_id ` set (user_rows w) \<and>
     ss_user ` set (session_rows w) \<subseteq> us_id ` set (user_rows w) \<and>
     mc_user ` set (challenge_rows w) \<subseteq> us_id ` set (user_rows w) \<and>
     ls_user ` set (login_rows w) \<subseteq> us_id ` set (user_rows w) \<and>
     td_user ` set (device_rows w) \<subseteq> us_id ` set (user_rows w) \<and>
     rf_session ` set (refresh_rows w) \<subseteq> ss_id ` set (session_rows w) \<and>
     successors_stored (refresh_rows w) \<and>
     us_tenant ` set (user_rows w) \<subseteq> insert None (Some ` set (tenant_ids w)) \<and>
     ss_tenant ` set (session_rows w) \<subseteq> insert None (Some ` set (tenant_ids w))"

definition counters_ok :: "'z auth_db_scheme \<Rightarrow> bool" where
  "counters_ok w \<longleftrightarrow> (\<forall>a \<in> set (attempt_rows w). 1 \<le> la_count a \<and> la_count a < 2 ^ 31)"

definition auth_tables_ok :: "auth_ext \<Rightarrow> 'z auth_db_scheme \<Rightarrow> bool" where
  "auth_tables_ok x w \<longleftrightarrow> keys_unique x w \<and> references_ok w \<and> counters_ok w"

lemmas tables_defs = auth_tables_ok_def keys_unique_def references_ok_def counters_ok_def

section \<open>The statements\<close>

lemma tables_log [simp]:
  "auth_tables_ok x (w\<lparr>audit_rows := rows\<rparr>) = auth_tables_ok x w"
  "auth_tables_ok x (w\<lparr>outbox_rows := evs\<rparr>) = auth_tables_ok x w"
  by (simp_all add: tables_defs)

lemma email_free:
  assumes "get_user_by_email x email w = None"
  shows "tx_lower x email \<notin> (\<lambda>u. tx_lower x (us_email u)) ` {u \<in> set (user_rows w). us_deleted u = None}"
  using assms by (auto simp: get_user_by_email_def find_None_all)

lemma tenant_known:
  "\<not> (case t of None \<Rightarrow> False | Some t \<Rightarrow> t \<notin> set ts) \<Longrightarrow> t \<in> insert None (Some ` set ts)"
  by (cases t) auto

lemma insert_user_keeps:
  assumes "auth_tables_ok x w" and "insert_user x u w = Inr w'" and "us_deleted u = None"
  shows "auth_tables_ok x w'"
proof -
  from assms(2) have w': "w' = w\<lparr>user_rows := user_rows w @ [u]\<rparr>" and i: "us_id u \<notin> us_id ` set (user_rows w)"
    and m: "get_user_by_email x (us_email u) w = None"
    and t: "\<not> (case us_tenant u of None \<Rightarrow> False | Some t \<Rightarrow> t \<notin> set (tenant_ids w))"
    unfolding insert_user_def by (simp_all only: split: if_splits) simp_all
  from assms(1,3) i email_free [OF m] tenant_known [OF t] show ?thesis
    unfolding w' tables_defs by (simp add: subset_insertI2)
qed

lemma insert_credential_keeps:
  assumes "auth_tables_ok x w" and "insert_credential c w = Inr w'"
  shows "auth_tables_ok x w'"
proof -
  from assms(2) have "w' = w\<lparr>cred_rows := cred_rows w @ [c]\<rparr>" and "cd_user c \<notin> cd_user ` set (cred_rows w)"
    and "user_exists (cd_user c) w"
    unfolding insert_credential_def by (simp_all only: split: if_splits) simp_all
  with assms(1) show ?thesis by (simp add: tables_defs user_exists_def)
qed

lemma insert_session_keeps:
  assumes "auth_tables_ok x w" and "insert_session x ip s w = Inr w'"
  shows "auth_tables_ok x w'"
proof -
  from assms(2) have w': "w' = w\<lparr>session_rows := session_rows w @
      [s\<lparr>ss_ip := (if ip = [] then None else ax_inet (tx_audit x) ip)\<rparr>]\<rparr>"
    and i: "ss_id s \<notin> ss_id ` set (session_rows w)" and u: "user_exists (ss_user s) w"
    and t: "\<not> (case ss_tenant s of None \<Rightarrow> False | Some t \<Rightarrow> t \<notin> set (tenant_ids w))"
    unfolding insert_session_def by (simp_all only: split: if_splits) simp_all
  from assms(1) i u tenant_known [OF t] show ?thesis
    unfolding w' tables_defs user_exists_def by (simp add: subset_insertI2)
qed

lemma insert_refresh_keeps:
  assumes "auth_tables_ok x w" and "insert_refresh t w = Inr w'" and "rf_replaced t = None"
  shows "auth_tables_ok x w' \<and> rf_id t \<in> rf_id ` set (refresh_rows w')"
proof -
  from assms(2) have "w' = w\<lparr>refresh_rows := refresh_rows w @ [t]\<rparr>" and "rf_id t \<notin> rf_id ` set (refresh_rows w)"
    and "rf_hash t \<notin> rf_hash ` set (refresh_rows w)" and "rf_session t \<in> ss_id ` set (session_rows w)"
    unfolding insert_refresh_def by (simp_all only: split: if_splits) simp_all
  moreover have "successors_stored rows \<Longrightarrow> successors_stored (rows @ [t])" for rows
    using assms(3) unfolding successors_stored_def set_append image_Un by auto
  ultimately show ?thesis using assms(1) by (simp add: tables_defs)
qed

lemma insert_challenge_keeps:
  assumes "auth_tables_ok x w" and "insert_challenge c w = Inr w'"
  shows "auth_tables_ok x w'"
proof -
  from assms(2) have "w' = w\<lparr>challenge_rows := challenge_rows w @ [c]\<rparr>" and "mc_id c \<notin> mc_id ` set (challenge_rows w)"
    and "user_exists (mc_user c) w"
    unfolding insert_challenge_def by (simp_all only: split: if_splits) simp_all
  with assms(1) show ?thesis by (simp add: tables_defs user_exists_def)
qed

lemma insert_login_session_keeps:
  assumes "auth_tables_ok x w" and "insert_login_session x ip s w = Inr w'"
  shows "auth_tables_ok x w'"
proof -
  from assms(2) have "w' = w\<lparr>login_rows := login_rows w @ [s\<lparr>ls_ip := (if ip = [] then None else ax_inet (tx_audit x) ip)\<rparr>]\<rparr>"
    and "ls_hash s \<notin> ls_hash ` set (login_rows w)" and "user_exists (ls_user s) w"
    unfolding insert_login_session_def by (simp_all only: split: if_splits) simp_all
  with assms(1) show ?thesis by (simp add: tables_defs user_exists_def)
qed

lemma insert_device_keeps:
  assumes "auth_tables_ok x w" and "insert_device d w = Inr w'"
  shows "auth_tables_ok x w'"
proof -
  from assms(2) have "w' = w\<lparr>device_rows := device_rows w @ [d]\<rparr>" and "td_id d \<notin> td_id ` set (device_rows w)"
    and "td_hash d \<notin> td_hash ` set (device_rows w)" and "user_exists (td_user d) w"
    unfolding insert_device_def by (simp_all only: split: if_splits) simp_all
  with assms(1) show ?thesis by (simp add: tables_defs user_exists_def)
qed

text \<open>An update that leaves a column leaves its list of values.\<close>

lemma same_column: "(\<And>a. f (g a) = f a) \<Longrightarrow> map f (map g xs) = map f xs"
  by simp

lemma same_values: "(\<And>a. f (g a) = f a) \<Longrightarrow> f ` set (map g xs) = f ` set xs"
  by (simp add: image_image)

lemma updates_keep:
  assumes "auth_tables_ok x w"
  shows "auth_tables_ok x (update_credential_hash h u now w)"
    "auth_tables_ok x (revoke_session_row i now w)" "auth_tables_ok x (touch_session i now w)"
    "auth_tables_ok x (snd (touch_device h u now w))"
  using assms
  unfolding tables_defs update_credential_hash_def revoke_session_row_def touch_session_def touch_device_def
  by (simp_all del: map_map image_image set_map add: same_column same_values)

text \<open>A token can name as its successor only a token that is stored.\<close>

lemma mark_refresh_keeps:
  assumes "auth_tables_ok x w" and "r \<in> rf_id ` set (refresh_rows w)"
  shows "auth_tables_ok x (mark_refresh_used r i now w)"
proof -
  let ?f = "\<lambda>t. if rf_id t = i then t\<lparr>rf_used := Some now, rf_replaced := Some r\<rparr> else t"
  have "successors_stored (map ?f (refresh_rows w))"
    unfolding successors_stored_def
  proof
    fix y assume "y \<in> rf_replaced ` set (map ?f (refresh_rows w))"
    then obtain t where t: "t \<in> set (refresh_rows w)" "y = rf_replaced (?f t)" unfolding set_map by blast
    have "y \<in> insert None (Some ` rf_id ` set (refresh_rows w))"
      using t assms unfolding tables_defs successors_stored_def by (cases "rf_id t = i") auto
    moreover have "rf_id ` set (map ?f (refresh_rows w)) = rf_id ` set (refresh_rows w)" by (rule same_values) simp
    ultimately show "y \<in> insert None (Some ` rf_id ` set (map ?f (refresh_rows w)))" by simp
  qed
  then show ?thesis using assms(1) unfolding tables_defs
    by (simp del: map_map image_image set_map add: mark_refresh_used_def same_column same_values)
qed

lemma deletions_keep:
  assumes "auth_tables_ok x w"
  shows "auth_tables_ok x (delete_attempt email w)" "auth_tables_ok x (delete_challenge i w)"
    "auth_tables_ok x (delete_login_session h w)"
  using assms
  unfolding delete_attempt_def delete_challenge_def delete_login_session_def tables_defs
  by (auto simp: distinct_map_filter)

lemma upsert_attempt_keeps:
  assumes "auth_tables_ok x w" and "upsert_attempt email ws m lu now w = Inr (n, w')"
  shows "auth_tables_ok x w'"
proof (cases "find_attempt email w")
  case None
  with assms(2) have w': "w' = w\<lparr>attempt_rows := attempt_rows w @
      [\<lparr>la_email = email, la_count = 1, la_first = now, la_last = now, la_locked = None\<rparr>]\<rparr>"
    by (simp add: upsert_attempt_def)
  from None have "email \<notin> la_email ` set (attempt_rows w)" by (auto simp: find_attempt_def find_None_all)
  with assms(1) show ?thesis unfolding w' tables_defs by simp
next
  case (Some a)
  let ?b = "bump_attempt ws m lu now a"
  from Some have a: "a \<in> set (attempt_rows w)" "la_email a = email"
    using find_mem find_holds unfolding find_attempt_def by fast+
  with assms(1) have "1 \<le> la_count a" by (simp add: tables_defs)
  then have b: "la_email ?b = email" "1 \<le> la_count ?b" using a(2) by (auto simp: bump_attempt_def Let_def)
  from Some assms(2) have w': "w' = w\<lparr>attempt_rows := map (\<lambda>c. if la_email c = email then ?b else c) (attempt_rows w)\<rparr>"
    and "la_count ?b < 2 ^ 31" by (auto simp: upsert_attempt_def Let_def split: if_splits)
  moreover have "map la_email (map (\<lambda>c. if la_email c = email then ?b else c) xs) = map la_email xs" for xs
    using b(1) by (intro same_column) simp
  ultimately show ?thesis using assms(1) b by (simp add: tables_defs del: map_map) auto
qed

section \<open>The operations\<close>

definition collaborators_keep :: "('z auth_db_scheme \<Rightarrow> bool) \<Rightarrow> 'z auth_db_scheme auth_service \<Rightarrow> bool" where
  "collaborators_keep P s \<longleftrightarrow>
     (\<forall>f t ty p. as_emitter s = Some f \<longrightarrow> keeps P (f t ty p)) \<and>
     (\<forall>m u c. as_mfa s = Some m \<longrightarrow> keeps P (me_enrolled m u) \<and> keeps P (me_verify m u c)) \<and>
     (\<forall>g t p. as_registration s = Some g \<longrightarrow> keeps P (rg_enabled g t) \<and> keeps P (rg_validate g t p)) \<and>
     (\<forall>f a. as_anomaly s = Some f \<longrightarrow> keeps P (f a)) \<and>
     (\<forall>f p. as_breach s = Some f \<longrightarrow> keeps P (f p)) \<and>
     (\<forall>f t. as_devices s = Some f \<longrightarrow> keeps P (f t)) \<and>
     (\<forall>f t u a b c. as_risk s = Some f \<longrightarrow> keeps P (f t u a b c)) \<and>
     (\<forall>f t u m. as_hook s = Some f \<longrightarrow> keeps P (f t u m))"

lemma keeps_base [simp, intro]:
  "keeps P (ret a)" "keeps P (fail x)" "keeps P time_now" "keeps P uuid_new" "keeps P (db_read f)" "keeps P (lift_res r)"
  "keeps P (rand_read y n)" "keeps P (new_refresh_token y)" "keeps P (issue_access s u t i sc)"
  "keeps P (issue_access_claims s u t i sc cl)" "keeps P (hash_password y plain)"
  by (auto intro!: keeps_reads reads_bind simp: hash_password_def issue_access_claims_def issue_access_full_def Let_def
      split: option.splits)

lemma keeps_ignore: "keeps P m \<Longrightarrow> keeps P (ignore_error m)"
  unfolding ignore_error_def by (intro keeps_on_error keeps_base)

lemma keeps_tables_log [simp, intro]:
  "keeps (auth_tables_ok x) (record_audit y ev)" "keeps (auth_tables_ok x) (enqueue oe)"
proof -
  show "keeps (auth_tables_ok x) (record_audit y ev)"
    unfolding record_audit_def Let_def by (intro keeps_bind keeps_base keeps_db_call) (auto split: sum.splits)
  have "keeps (auth_tables_ok x) (if oe_id oe = 0 then uuid_new else ret (oe_id oe))" by simp
  then show "keeps (auth_tables_ok x) (enqueue oe)"
    unfolding enqueue_def by (intro keeps_bind keeps_base keeps_db_call) (auto split: if_splits)
qed

text \<open>The id of a new refresh token is stored when it is given out.\<close>

lemma insert_refresh_token_stored:
  "triple (auth_tables_ok x) (insert_refresh_token session hash until)
     (\<lambda>i w. auth_tables_ok x w \<and> i \<in> rf_id ` set (refresh_rows w)) (auth_tables_ok x)"
proof -
  have ins: "triple (auth_tables_ok x) (db_exec (insert_refresh t))
      (\<lambda>_ w. auth_tables_ok x w \<and> rf_id t \<in> rf_id ` set (refresh_rows w)) (auth_tables_ok x)" if "rf_replaced t = None" for t
    by (rule triple_db_exec) (use insert_refresh_keeps that in \<open>blast+\<close>)
  have body: "triple (auth_tables_ok x) (then_io (db_exec (insert_refresh \<lparr>rf_id = i, rf_session = session, rf_hash = hash,
      rf_issued = issued, rf_expires = until, rf_used = None, rf_replaced = None\<rparr>)) (ret i))
      (\<lambda>i w. auth_tables_ok x w \<and> i \<in> rf_id ` set (refresh_rows w)) (auth_tables_ok x)" for i issued
    by (rule triple_bind [OF ins]) (simp_all add: triple_ret)
  show ?thesis
    unfolding insert_refresh_token_def by (rule triple_bind, rule triple_draws, assumption)+ (rule body)
qed

lemma keeps_insert_refresh_token [simp, intro]: "keeps (auth_tables_ok x) (insert_refresh_token session hash until)"
  unfolding triple_keeps [symmetric] using insert_refresh_token_stored by (rule triple_conseq) simp_all

lemma keeps_tables_statements [simp, intro]:
  "us_deleted u = None \<Longrightarrow> keeps (auth_tables_ok x) (db_exec (insert_user x u))"
  "keeps (auth_tables_ok x) (db_exec (insert_credential c))" "keeps (auth_tables_ok x) (db_exec (insert_session x ip ss))"
  "keeps (auth_tables_ok x) (db_exec (insert_challenge d))"
  "keeps (auth_tables_ok x) (db_exec (insert_login_session x ip l))" "keeps (auth_tables_ok x) (db_exec (insert_device dv))"
  "keeps (auth_tables_ok x) (db_write (delete_attempt email))" "keeps (auth_tables_ok x) (db_write (delete_challenge i))"
  "keeps (auth_tables_ok x) (db_write (delete_login_session h))" "keeps (auth_tables_ok x) (db_write (update_credential_hash h uid now))"
  "keeps (auth_tables_ok x) (db_write (touch_session i now))" "keeps (auth_tables_ok x) (db_write (revoke_session_row i now))"
  by (auto intro!: keeps_db_exec keeps_db_write updates_keep deletions_keep elim: insert_user_keeps insert_credential_keeps
      insert_session_keeps insert_challenge_keeps insert_login_session_keeps insert_device_keeps)

lemmas tables_intros = keeps_base keeps_bind keeps_on_error keeps_in_tx keeps_ignore keeps_tables_log keeps_tables_statements
  keeps_insert_refresh_token

lemma keeps_revoke_returning [simp, intro]: "keeps (auth_tables_ok x) (revoke_returning i)"
  unfolding revoke_returning_def by (intro tables_intros keeps_db_call) (auto intro: updates_keep)

lemma keeps_open_session [intro]: "x = as_ext s \<Longrightarrow> keeps (auth_tables_ok x) (open_session s user tenant ip ua custom)"
  unfolding open_session_def by (auto intro!: tables_intros split: prod.splits)

lemma keeps_issue_pair [intro]: "x = as_ext s \<Longrightarrow> keeps (auth_tables_ok x) (issue_pair s user tenant ip ua method custom)"
  unfolding issue_pair_def by (auto intro!: tables_intros keeps_open_session)

lemma keeps_emit: "collaborators_keep P s \<Longrightarrow> keeps P (auth_emit s t ty p)"
  by (auto simp: auth_emit_def collaborators_keep_def intro!: keeps_ignore split: option.splits)

lemma keeps_rotate: "keeps (auth_tables_ok x) (rotate_token s t sess)"
proof -
  have rest: "keeps (auth_tables_ok x) (bind_io time_now (\<lambda>seen. then_io (db_write (touch_session i seen))
      (bind_io (issue_access s u tn i sc) (\<lambda>(access, exp). ret (f access exp)))))" for i u tn sc and f :: "string \<Rightarrow> time \<Rightarrow> token_pair"
    by (auto intro!: tables_intros split: prod.splits)
  have mark: "triple (\<lambda>w. auth_tables_ok x w \<and> i \<in> rf_id ` set (refresh_rows w)) (bind_io time_now (\<lambda>used.
      then_io (db_write (mark_refresh_used i j used)) m)) (\<lambda>_. auth_tables_ok x) (auth_tables_ok x)"
    if "keeps (auth_tables_ok x) m" for i j and m :: "('a auth_db_scheme, token_pair) io"
  proof (rule triple_bind)
    show "triple (\<lambda>w. auth_tables_ok x w \<and> i \<in> rf_id ` set (refresh_rows w)) time_now
        (\<lambda>_ w. auth_tables_ok x w \<and> i \<in> rf_id ` set (refresh_rows w)) (auth_tables_ok x)" by (rule triple_draws)
    fix used
    show "triple (\<lambda>w. auth_tables_ok x w \<and> i \<in> rf_id ` set (refresh_rows w))
        (then_io (db_write (mark_refresh_used i j used)) m) (\<lambda>_. auth_tables_ok x) (auth_tables_ok x)"
    proof (rule triple_bind [where R = "\<lambda>_. auth_tables_ok x"], rule triple_db_write)
      show "triple (auth_tables_ok x) m (\<lambda>_. auth_tables_ok x) (auth_tables_ok x)" using that by (simp add: triple_keeps)
    qed (use mark_refresh_keeps in blast)+
  qed
  have "keeps (auth_tables_ok x) (bind_io (insert_refresh_token i h until) (\<lambda>j. bind_io time_now (\<lambda>used.
      then_io (db_write (mark_refresh_used j k used)) m)))"
    if "keeps (auth_tables_ok x) m" for i h until k and m :: "('a auth_db_scheme, token_pair) io"
    unfolding triple_keeps [symmetric] by (rule triple_bind [OF insert_refresh_token_stored mark [OF that]])
  note body = this [OF rest, unfolded split_beta]
  show ?thesis
    unfolding rotate_token_def split_beta by (rule keeps_bind [OF keeps_base(8)], rule keeps_bind [OF keeps_base(3)], rule body)
qed

lemma keeps_refresh:
  assumes "collaborators_keep (auth_tables_ok x) s"
  shows "keeps (auth_tables_ok x) (refresh s i)"
proof -
  have rotate: "keeps (auth_tables_ok x) (rotate_token s t sess)" for t sess by (rule keeps_rotate)
  have reuse: "keeps (auth_tables_ok x) (handle_refresh_reuse y u t j k i)" for y u t j k i
    unfolding handle_refresh_reuse_def revoke_session_by_id_def by (intro tables_intros)
  have "keeps (auth_tables_ok x) (refresh_tx s i)"
    unfolding refresh_tx_def by (auto intro!: tables_intros rotate reuse split: option.splits)
  then show ?thesis
    unfolding refresh_def using keeps_emit [OF assms] by (auto intro!: tables_intros split: refresh_outcome.splits)
qed

lemma keeps_logout: "collaborators_keep (auth_tables_ok x) s \<Longrightarrow> keeps (auth_tables_ok x) (logout s i)"
  unfolding logout_def by (auto intro!: tables_intros keeps_emit split: option.splits)

lemma keeps_record_failed [intro]:
  "collaborators_keep (auth_tables_ok x) s \<Longrightarrow> keeps (auth_tables_ok x) (record_failed_login s email)"
  unfolding record_failed_login_def upsert_login_attempt_def
  by (intro tables_intros keeps_db_call)
    (auto simp: collaborators_keep_def intro!: tables_intros elim: upsert_attempt_keeps split: option.splits if_splits sum.splits)

lemma keeps_check_password:
  assumes "collaborators_keep (auth_tables_ok x) s"
  shows "keeps (auth_tables_ok x) (check_password s email plain)"
proof -
  have "keeps (auth_tables_ok x) (verify_user s key plain u)" for key u
    unfolding verify_user_def password_hash_of_def clear_login_attempts_def rehash_on_login_def run_login_hook_def
    using assms by (auto simp: collaborators_keep_def intro!: tables_intros keeps_record_failed split: option.splits)
  moreover have "keeps (auth_tables_ok x) (login_locked_until key)" for key
    unfolding login_locked_until_def by (auto intro!: tables_intros split: option.splits)
  ultimately show ?thesis
    unfolding check_password_def Let_def get_by_email_global_def
    using assms by (auto intro!: tables_intros keeps_record_failed split: option.splits)
qed

lemma keeps_challenges:
  "keeps (auth_tables_ok x) (create_mfa_challenge u t c)"
  "collaborators_keep (auth_tables_ok x) s \<Longrightarrow> keeps (auth_tables_ok x) (verify_and_consume pu s tok code)"
  "collaborators_keep (auth_tables_ok x) s \<Longrightarrow> keeps (auth_tables_ok x) (mfa_enrolled s u)"
  by (auto simp: create_mfa_challenge_def verify_and_consume_def mfa_enrolled_def collaborators_keep_def
      intro!: tables_intros split: option.splits)

lemma keeps_hosted:
  "keeps (auth_tables_ok x) (create_login_session x u ip ua)" "keeps (auth_tables_ok x) (revoke_login_session y raw)"
  "keeps (auth_tables_ok x) (create_trusted_device y u t l)" "keeps (auth_tables_ok x) (is_trusted_device y u raw)"
proof -
  show "keeps (auth_tables_ok x) (create_login_session x u ip ua)" "keeps (auth_tables_ok x) (create_trusted_device y u t l)"
    unfolding create_login_session_def create_trusted_device_def by (auto intro!: tables_intros split: prod.splits)
  show "keeps (auth_tables_ok x) (revoke_login_session y raw)"
    unfolding revoke_login_session_def by (auto intro!: tables_intros)
  have "keeps (auth_tables_ok x) (db_call (\<lambda>w. let (n, w') = touch_device h u now w in (Inr n, w')))" for h now
  proof (rule keeps_db_call)
    fix w a w'
    assume ok: "auth_tables_ok x w" and "(let (n, w') = touch_device h u now w in (Inr n, w')) = (Inr a, w')"
    then have "w' = snd (touch_device h u now w)" by (simp add: touch_device_def)
    with updates_keep(4) [OF ok] show "auth_tables_ok x w'" by simp
  qed
  then show "keeps (auth_tables_ok x) (is_trusted_device y u raw)"
    unfolding is_trusted_device_def by (auto intro!: tables_intros)
qed

lemma keeps_identity: "keeps (auth_tables_ok x) (create_identity x tenant email display hash)"
  unfolding create_identity_def Let_def by (auto simp: new_user_row_def intro!: tables_intros)

lemma keeps_sign_ups:
  assumes "collaborators_keep (auth_tables_ok (as_ext s)) s"
  shows "keeps (auth_tables_ok (as_ext s)) (signup s email plain display ip ua)"
    and "keeps (auth_tables_ok (as_ext s)) (register_in_tenant s tenant email plain display ip ua)"
proof -
  have weak: "keeps P (strong_password y plain email)" for P y by (auto simp: strong_password_def Let_def)
  have pwned: "keeps (auth_tables_ok (as_ext s)) (pwned s plain)"
    using assms by (auto simp: pwned_def collaborators_keep_def intro!: tables_intros split: option.splits)
  show "keeps (auth_tables_ok (as_ext s)) (signup s email plain display ip ua)"
    unfolding signup_def using weak pwned
    by (auto intro!: tables_intros keeps_open_session keeps_identity split: if_splits)
  show "keeps (auth_tables_ok (as_ext s)) (register_in_tenant s tenant email plain display ip ua)"
    unfolding register_in_tenant_def using assms weak
    by (auto simp: collaborators_keep_def intro!: tables_intros keeps_identity keeps_hosted split: option.splits)
qed

lemma keeps_sign_ins:
  assumes "collaborators_keep (auth_tables_ok (as_ext s)) s"
  shows "keeps (auth_tables_ok (as_ext s)) (login s email plain ip ua)"
    and "keeps (auth_tables_ok (as_ext s)) (complete_mfa_login pu s tok code ip ua)"
    and "keeps (auth_tables_ok (as_ext s)) (complete_mfa_login_session pu s tok code ip ua)"
    and "keeps (auth_tables_ok (as_ext s)) (begin_login_session s email plain ip ua td co)"
    and "keeps (auth_tables_ok (as_ext s)) (maybe_remember_device s user tenant label)"
    and "keeps (auth_tables_ok (as_ext s)) (switch_tenant s user tenant ip ua)"
proof -
  have pair: "keeps (auth_tables_ok (as_ext s)) (issue_pair s u t ip ua m c)" for u t m c by (rule keeps_issue_pair) simp
  have trusted: "keeps (auth_tables_ok (as_ext s)) (device_trusted s u t td ip ua co)" for u t
    unfolding device_trusted_def using assms
    by (auto simp: collaborators_keep_def intro!: tables_intros keeps_hosted split: option.splits)
  show "keeps (auth_tables_ok (as_ext s)) (login s email plain ip ua)"
    unfolding login_def login_result_of_def using assms pair
    by (auto intro!: tables_intros keeps_check_password keeps_challenges split: prod.splits)
  show "keeps (auth_tables_ok (as_ext s)) (complete_mfa_login pu s tok code ip ua)"
    unfolding complete_mfa_login_def using assms pair
    by (auto intro!: tables_intros keeps_challenges split: prod.splits)
  show "keeps (auth_tables_ok (as_ext s)) (complete_mfa_login_session pu s tok code ip ua)"
    unfolding complete_mfa_login_session_def using assms
    by (auto intro!: tables_intros keeps_challenges keeps_hosted split: prod.splits)
  show "keeps (auth_tables_ok (as_ext s)) (begin_login_session s email plain ip ua td co)"
    unfolding begin_login_session_def using assms trusted
    by (auto intro!: tables_intros keeps_check_password keeps_challenges keeps_hosted split: prod.splits)
  show "keeps (auth_tables_ok (as_ext s)) (maybe_remember_device s user tenant label)"
    unfolding maybe_remember_device_def using assms
    by (auto simp: collaborators_keep_def intro!: tables_intros keeps_hosted split: option.splits)
  show "keeps (auth_tables_ok (as_ext s)) (switch_tenant s user tenant ip ua)"
    unfolding switch_tenant_def using pair by (auto intro!: tables_intros)
qed

text \<open>The authentication tables stay typed. Every operation of the service, whatever it is given, whatever it
  answers and whatever fails on the way, keeps the ids, token hashes, challenge ids and the addresses of the users
  that are not deleted unique, credentials, sessions, challenges, hosted sessions and devices with stored users,
  refresh tokens with stored sessions and successors, tenants stored, and the counters of failed sign-ins positive and within an
  \<^verbatim>\<open>INT\<close>, if the collaborators do.\<close>

lemma auth_tables_stay_typed:
  assumes "collaborators_keep (auth_tables_ok (as_ext s)) s"
  shows "keeps (auth_tables_ok (as_ext s)) (signup s email plain display ip ua)
    \<and> keeps (auth_tables_ok (as_ext s)) (register_in_tenant s tenant email plain display ip ua)
    \<and> keeps (auth_tables_ok (as_ext s)) (login s email plain ip ua)
    \<and> keeps (auth_tables_ok (as_ext s)) (complete_mfa_login pu s ch code ip ua)
    \<and> keeps (auth_tables_ok (as_ext s)) (begin_login_session s email plain ip ua td co)
    \<and> keeps (auth_tables_ok (as_ext s)) (complete_mfa_login_session pu s ch code ip ua)
    \<and> keeps (auth_tables_ok (as_ext s)) (maybe_remember_device s user tenant label)
    \<and> keeps (auth_tables_ok (as_ext s)) (revoke_login_session (as_ext s) raw)
    \<and> keeps (auth_tables_ok (as_ext s)) (issue_pair s user tenant ip ua how cl)
    \<and> keeps (auth_tables_ok (as_ext s)) (switch_tenant s user tenant ip ua)
    \<and> keeps (auth_tables_ok (as_ext s)) (refresh s i)
    \<and> keeps (auth_tables_ok (as_ext s)) (logout s session)"
  using assms by (intro conjI keeps_sign_ups keeps_sign_ins keeps_hosted keeps_issue_pair keeps_refresh keeps_logout refl)

end
