(* ===== verification/AuthWitness.thy ===== *)
theory AuthWitness imports AuthSafety PasswordProps begin

text \<open>
  One concrete state of the authentication tables at which the properties on sessions are applied: the user 3 with a
  session of tenant 1, its first refresh token spent and its second live.
\<close>

definition demo_auth_ext :: auth_ext where
  "demo_auth_ext = \<lparr>tx_audit = demo_ext, tx_crypto = demo_crypto, tx_lower = ascii_lower, tx_claims = Some\<rparr>"

definition demo_service :: "'z auth_db_scheme auth_service" where
  "demo_service = \<lparr>as_ext = demo_auth_ext, as_sign = (\<lambda>c. Some ''jwt''), as_issuer = ''iss'', as_audience = ''aud'',
     as_access_ttl = 900000000, as_refresh_ttl = 2592000000000, as_breach = None, as_mfa = None,
     as_registration = None, as_anomaly = None, as_devices = None, as_risk = None, as_hook = None, as_emitter = None\<rparr>"

definition demo_hash :: "string \<Rightarrow> string" where
  "demo_hash raw = hash_refresh demo_crypto raw"

definition demo_token :: "uuid \<Rightarrow> string \<Rightarrow> time option \<Rightarrow> refresh_row" where
  "demo_token i raw used = \<lparr>rf_id = i, rf_session = 100, rf_hash = demo_hash raw, rf_issued = 0, rf_expires = 10 ^ 15,
     rf_used = used, rf_replaced = None\<rparr>"

definition demo_user :: user_row where
  "demo_user = \<lparr>us_id = 3, us_tenant = Some 1, us_email = ''amy@acme.test'', us_display = None, us_status = ''active'',
     us_created = 0, us_updated = 0, us_deleted = None\<rparr>"

definition demo_session :: session_row where
  "demo_session = \<lparr>ss_id = 100, ss_user = 3, ss_tenant = Some 1, ss_ip = None, ss_agent = [], ss_created = 0, ss_seen = 0,
     ss_revoked = None\<rparr>"

definition demo_auth :: auth_db where
  "demo_auth = \<lparr>audit_rows = [], outbox_rows = [], dlq_rows = [], rel_rows = [], abac_policies = [], tenant_ids = [1],
     perm_rows = [], role_rows = [], role_perm_rows = [], user_role_rows = [], group_rows = [], member_rows = [],
     group_role_rows = [], user_rows = [demo_user], cred_rows = [],
     session_rows = [demo_session], refresh_rows = [demo_token 201 ''t1'' (Some 5), demo_token 202 ''t2'' None],
     attempt_rows = [], challenge_rows = [], login_rows = [], device_rows = []\<rparr>"

definition demo_refresh :: "string \<Rightarrow> refresh_input" where
  "demo_refresh raw = \<lparr>ri_token = raw, ri_ip = [], ri_agent = [], ri_request = []\<rparr>"

lemma demo_hash_inject [simp]: "demo_hash a = demo_hash b \<longleftrightarrow> a = b"
  by (simp add: demo_hash_def hash_refresh_def demo_crypto_def b64_encode_inject)

lemma demo_spares: "collaborators_spare demo_service"
  by (simp add: collaborators_spare_def demo_service_def)

lemma demo_sessions_ok: "sessions_ok demo_auth"
  by (simp add: sessions_ok_def demo_auth_def demo_token_def demo_session_def live_tokens_unique_def)

lemma demo_hash_refresh: "hash_refresh (tx_crypto (as_ext demo_service)) raw = demo_hash raw"
  by (simp add: demo_service_def demo_auth_ext_def demo_hash_def)

lemma demo_find:
  "find_refresh (demo_hash ''t1'') demo_auth = Some (demo_token 201 ''t1'' (Some 5), demo_session, demo_user)"
  "find_refresh (demo_hash ''t2'') demo_auth = Some (demo_token 202 ''t2'' None, demo_session, demo_user)"
  by (simp_all add: find_refresh_def demo_auth_def demo_token_def demo_session_def demo_user_def)

text \<open>A clock that never reaches the expiry, a generator past the ids in use.\<close>

definition demo_still :: env where
  "demo_still = quiet_env (\<lambda>_. 7) (\<lambda>n. n + 500)"

lemma demo_presentable:
  "presentable demo_service ''t1'' demo_still demo_auth (demo_token 201 ''t1'' (Some 5)) demo_session"
  "presentable demo_service ''t2'' demo_still demo_auth (demo_token 202 ''t2'' None) demo_session"
  unfolding presentable_def refreshable_def demo_hash_refresh demo_find
  by (simp_all add: demo_session_def demo_user_def demo_still_def quiet_env_def demo_token_def)

lemma demo_draws: "draws_fresh demo_service (e_uuid demo_still) demo_auth" and demo_new_ids: "new_ids (e_uuid demo_still) demo_auth"
proof -
  show n: "new_ids (e_uuid demo_still) demo_auth" by (simp add: new_ids_def demo_auth_def)
  have "length (b64_encode b64_url (replicate 32 c)) = 43" for c by simp
  then have raw: "b64_encode b64_url (replicate 32 c) \<noteq> ''t1''" "b64_encode b64_url (replicate 32 c) \<noteq> ''t2''" for c
    by (metis length_Cons list.size(3) numeral_eq_Suc Suc_inject nat.distinct(1) pred_numeral_simps)+
  have r: "cx_rand (tx_crypto (as_ext demo_service)) 32 k = Some (replicate 32 (char_of k))" for k
    by (simp add: demo_service_def demo_auth_ext_def demo_crypto_def)
  show "draws_fresh demo_service (e_uuid demo_still) demo_auth"
    unfolding draws_fresh_def demo_hash_refresh r
    using n raw
    by (simp add: demo_service_def demo_auth_def demo_token_def demo_session_def demo_still_def quiet_env_def)
qed

theorem session_operations_refine_witness:
  "\<exists>e' w'. logout demo_service 100 demo_still demo_auth = (Inr (), e', w') \<and>
     family_step (families demo_auth) (families w') \<and> families w' \<noteq> families demo_auth"
proof -
  have "\<exists>e' w'. logout demo_service 100 demo_still demo_auth = (Inr (), e', w')"
    by (simp add: logout_def revoke_returning_def bind_io_def time_now_def db_call_def Let_def demo_still_def quiet_env_def
        demo_auth_def demo_session_def auth_emit_def demo_service_def ret_def)
  then obtain e' w' where run: "logout demo_service 100 demo_still demo_auth = (Inr (), e', w')" by blast
  from session_operations_refine [OF demo_spares demo_sessions_ok auth_step.logout [OF run]]
  have "family_step (families demo_auth) (families w')" ..
  moreover have f: "families demo_auth 100 = Some (family_of (refresh_rows demo_auth) demo_session)"
    by (simp add: families_def find_session_def demo_auth_def demo_session_def)
  have "families w' 100 \<noteq> families demo_auth 100"
    using logout_revokes [OF demo_spares run] f by (simp add: family_of_def demo_session_def)
  then have "families w' \<noteq> families demo_auth" by metis
  ultimately show ?thesis using run by blast
qed

theorem refresh_rotates_witness:
  "\<exists>p e' w'. refresh demo_service (demo_refresh ''t2'') demo_still demo_auth = (Inr p, e', w') \<and> succeeded_by demo_service ''t2'' p w'"
proof -
  have "presentable demo_service (ri_token (demo_refresh ''t2'')) demo_still demo_auth (demo_token 202 ''t2'' None) demo_session"
    using demo_presentable(2) by (simp add: demo_refresh_def)
  moreover have "no_faults demo_still" by (simp add: demo_still_def)
  moreover have "rf_used (demo_token 202 ''t2'' None) = None" by (simp add: demo_token_def)
  ultimately obtain p e' w' where run: "refresh demo_service (demo_refresh ''t2'') demo_still demo_auth = (Inr p, e', w')"
    using refresh_rotates [OF demo_spares demo_sessions_ok, THEN conjunct2, of demo_still "demo_refresh ''t2''"] demo_draws by blast
  with refresh_rotates [OF demo_spares demo_sessions_ok, THEN conjunct1, rule_format, OF run]
  have "succeeded_by demo_service (ri_token (demo_refresh ''t2'')) p w'" by blast
  with run show ?thesis by (auto simp: demo_refresh_def)
qed

theorem reuse_revokes_family_witness:
  "\<exists>err e' w' f. refresh demo_service (demo_refresh ''t1'') demo_still demo_auth = (Inl err, e', w') \<and> error_status err = 401 \<and>
     families demo_auth 100 = Some f \<and> families w' = (families demo_auth)(100 \<mapsto> f\<lparr>fm_revoked := True\<rparr>) \<and>
     audit_rows w' \<noteq> [] \<and> outbox_rows w' \<noteq> []"
proof -
  have p: "presentable demo_service (ri_token (demo_refresh ''t1'')) demo_still demo_auth (demo_token 201 ''t1'' (Some 5)) demo_session"
    using demo_presentable(1) by (simp add: demo_refresh_def)
  have n: "no_faults demo_still" by (simp add: demo_still_def)
  have u: "rf_used (demo_token 201 ''t1'' (Some 5)) \<noteq> None" by (simp add: demo_token_def)
  have ip: "ri_ip (demo_refresh ''t1'') = [] \<or> ax_inet (tx_audit (as_ext demo_service)) (ri_ip (demo_refresh ''t1'')) \<noteq> None"
    by (simp add: demo_refresh_def)
  have em: "emitter_appends demo_service" by (simp add: emitter_appends_def demo_service_def)
  have i: "ss_id demo_session = 100" by (simp add: demo_session_def)
  let ?x = "as_ext (demo_service :: auth_db auth_service)"
  from reuse_revokes_family [OF demo_spares demo_sessions_ok n demo_new_ids ip p u em] obtain err e' w' f rows evs where
    "refresh demo_service (demo_refresh ''t1'') demo_still demo_auth = (Inl err, e', w')" "error_status err = 401"
    "families demo_auth 100 = Some f" "families w' = (families demo_auth)(100 \<mapsto> f\<lparr>fm_revoked := True\<rparr>)"
    and "audited (tx_audit ?x) (reuse_audit_event ?x (ss_user demo_session)
      (option_nil (ss_tenant demo_session)) 100 (rf_id (demo_token 201 ''t1'' (Some 5))) (demo_refresh ''t1'')) (audit_rows demo_auth) rows"
    "prefix rows (audit_rows w')"
    and "queued (reuse_outbox_event ?x (ss_user demo_session) (option_nil (ss_tenant demo_session)) 100
      (demo_refresh ''t1'')) (outbox_rows demo_auth) evs" "prefix evs (outbox_rows w')"
    unfolding i by (elim exE conjE) (rule that)
  moreover from this have "audit_rows w' \<noteq> []" "outbox_rows w' \<noteq> []" by (auto simp: audited_def queued_def)
  ultimately show ?thesis by blast
qed

theorem refresh_tokens_die_witness:
  "\<exists>p e1 w1. refresh demo_service (demo_refresh ''t2'') demo_still demo_auth = (Inr p, e1, w1) \<and>
     (\<exists>err. fst (refresh demo_service (demo_refresh ''t2'') demo_still w1) = Inl err)"
proof -
  have "presentable demo_service (ri_token (demo_refresh ''t2'')) demo_still demo_auth (demo_token 202 ''t2'' None) demo_session"
    using demo_presentable(2) by (simp add: demo_refresh_def)
  from live_refresh [OF _ demo_draws this] obtain p e1 w1 where
    run: "refresh demo_service (demo_refresh ''t2'') demo_still demo_auth = (Inr p, e1, w1)"
    by (auto simp: demo_still_def demo_token_def)
  with refresh_tokens_die [OF demo_spares demo_sessions_ok rtranclp.rtrancl_refl, THEN conjunct1, rule_format, OF conjI, OF run refl]
  show ?thesis by blast
qed

end
