(* ===== verification/SignInWitness.thy ===== *)
theory SignInWitness imports AuthAnswers AuthTables AuthWitness begin

text \<open>
  The properties of sign-in, sign-up, hosted sessions and the authentication tables applied at concrete states of
  \<open>AuthWitness\<close>.
\<close>

section \<open>Guessing\<close>

definition guess_state :: "int \<Rightarrow> time \<Rightarrow> auth_db" where
  "guess_state n t = demo_auth\<lparr>attempt_rows := [\<lparr>la_email = ''eve'', la_count = n, la_first = 0, la_last = t,
     la_locked = (if n \<ge> 5 then Some (t + minutes 15) else None)\<rparr>]\<rparr>"

lemma demo_ext_of [simp]: "as_ext demo_service = demo_auth_ext"
  by (simp add: demo_service_def)

lemma demo_attempts: "attempts_spared demo_service" "hook_speaks_for_itself demo_service" "devices_spared demo_service"
  by (simp_all add: attempts_spared_def hook_speaks_for_itself_def devices_spared_def demo_service_def)

lemma demo_key: "login_key demo_auth_ext ''eve'' = ''eve''"
proof -
  have "trim_space ''eve'' = ''eve''" by (rule trim_space_visible) (simp add: visible_def)
  then show ?thesis by (simp add: login_key_def demo_auth_ext_def to_lower_def ascii_lower_def)
qed

lemma nobody: "get_user_by_email demo_auth_ext ''eve'' (guess_state n t) = None"
  "get_user_by_email demo_auth_ext ''eve'' demo_auth = None"
  by (simp_all add: get_user_by_email_def guess_state_def demo_auth_def demo_user_def demo_service_def demo_auth_ext_def ascii_lower_def)

lemma guess_at:
  assumes "get_user_by_email demo_auth_ext ''eve'' w = None" and "\<not> locked_at t (find_attempt ''eve'' w)"
    and "guesses demo_service ''eve'' w0 ts w" and "ts = [] \<or> snd (last ts) \<le> t"
    and "find_attempt ''eve'' v = find_attempt ''eve'' (after_failure ''eve'' t t w)"
  shows "guesses demo_service ''eve'' w0 (ts @ [(t, t)]) v"
proof -
  let ?e = "quiet_env (\<lambda>_. t) (\<lambda>n. n)"
  obtain r e' w' where run: "check_password demo_service ''eve'' [] ?e w = (r, e', w')" by (metis prod_cases3)
  from check_password_verdict [OF _ demo_attempts(1) run, unfolded demo_ext_of]
  have "verdict_outcome demo_service ''eve'' (verdict_on demo_auth_ext ''eve'' [] t w) (\<lambda>_. t) w r w'"
    unfolding demo_key by (simp add: quiet_env_def no_faults_def)
  moreover have "verdict_on demo_auth_ext ''eve'' [] t w = Refused"
    using assms(1,2) unfolding verdict_on_def demo_key by simp
  ultimately have r: "r = Inl invalid_credentials" and "attempt_rows w' = attempt_rows (after_failure ''eve'' t t w)"
    by (simp_all add: verdict_outcome_def)
  then have f: "find_attempt ''eve'' w' = find_attempt ''eve'' v" using assms(5) by (simp add: find_attempt_def)
  have "failed_guess demo_service ''eve'' t t w w'"
    unfolding failed_guess_def using run r demo_key
    by (intro exI [of _ "''eve''"] exI [of _ "[]"] exI [of _ ?e] exI [of _ e']) (simp add: quiet_env_def no_faults_def)
  from guesses.other [OF guesses.guess [OF assms(3,4) this], of v] f show ?thesis by simp
qed

lemma guess_on:
  assumes "guesses demo_service ''eve'' w0 ts (guess_state n t0)" and "ts = [] \<or> snd (last ts) \<le> t"
    and "n \<ge> 5 \<longrightarrow> t0 + minutes 15 \<le> t" and "0 < n" "n < 100" and "t0 \<le> t" and "t \<le> t0 + minutes 15"
  shows "guesses demo_service ''eve'' w0 (ts @ [(t, t)]) (guess_state (n + 1) t)"
proof (rule guess_at [OF nobody(1) _ assms(1,2)])
  show "\<not> locked_at t (find_attempt ''eve'' (guess_state n t0))"
    using assms(3) by (auto simp: locked_at_def find_attempt_def guess_state_def)
  show "find_attempt ''eve'' (guess_state (n + 1) t) = find_attempt ''eve'' (after_failure ''eve'' t t (guess_state n t0))"
    unfolding after_failure_row using assms(3-7)
    by (simp add: find_attempt_def guess_state_def bump_attempt_def Let_def failure_window_def max_failed_logins_def lockout_duration_def)
qed

text \<open>Five guesses at once and a sixth when the lock expires.\<close>

theorem lockout_bounds_guessing_witness:
  "\<exists>ts w'. guesses demo_service ''eve'' demo_auth ts w' \<and> ts = replicate 5 (0, 0) @ [(minutes 15, minutes 15)] \<and>
     fst (ts ! 0) + minutes 15 \<le> snd (ts ! 5)"
proof -
  have g1: "guesses demo_service ''eve'' demo_auth ([] @ [(0, 0)]) (guess_state 1 0)"
    by (rule guess_at [OF nobody(2) _ guesses.none])
      (simp_all only: after_failure_row, simp_all add: locked_at_def find_attempt_def demo_auth_def guess_state_def)
  note g2 = guess_on [OF g1, of 0] note g3 = guess_on [OF g2, of 0] note g4 = guess_on [OF g3, of 0]
  note g5 = guess_on [OF g4, of 0] note g6 = guess_on [OF g5, of "minutes 15"]
  let ?ts = "replicate 5 (0, 0) @ [(minutes 15, minutes 15)]"
  have run: "guesses demo_service ''eve'' demo_auth ?ts (guess_state 6 (minutes 15))"
    using g6 by (simp add: minutes_def eval_nat_numeral)
  have none: "\<forall>r. find_attempt ''eve'' demo_auth = Some r \<longrightarrow> 0 \<le> la_count r \<and> la_count r + int (length ?ts) < 2 ^ 31"
    by (simp add: find_attempt_def demo_auth_def)
  from lockout_bounds_guessing [OF demo_attempts(1,2) run none, of 0] run show ?thesis by auto
qed

theorem login_decides_witness:
  "\<exists>e' w'. login demo_service ''eve'' ''pw'' [] [] (quiet_env (\<lambda>_. 0) (\<lambda>n. n)) demo_auth = (Inl invalid_credentials, e', w')"
proof -
  let ?e = "quiet_env (\<lambda>_. 0) (\<lambda>n. n)"
  obtain r e' w' where run: "login demo_service ''eve'' ''pw'' [] [] ?e demo_auth = (r, e', w')" by (metis prod_cases3)
  have "verdict_on demo_auth_ext ''eve'' ''pw'' 0 demo_auth = Refused"
    unfolding verdict_on_def demo_key nobody by (simp add: locked_at_def find_attempt_def demo_auth_def)
  moreover have "login_outcome demo_service (login_key demo_auth_ext ''eve'') [] []
      (verdict_on demo_auth_ext ''eve'' ''pw'' 0 demo_auth) (\<lambda>_. 0) demo_auth r w'"
    using login_decides [OF _ demo_attempts(1) run, unfolded demo_ext_of] by (simp add: quiet_env_def no_faults_def)
  ultimately have "r = Inl invalid_credentials" by (simp add: login_outcome_def)
  with run show ?thesis by blast
qed

section \<open>Sessions of others, hosted sessions\<close>

text \<open>The session 100 of user 3 is revoked by a request of another principal, or of none.\<close>

theorem any_session_can_be_revoked_witness:
  "\<exists>e' w'. revoke_session_handler \<lparr>ah_service = demo_service, ah_cookie_secure = True, ah_bot = None, ah_geo_header = []\<rparr>
     (\<lambda>t. if t = ''100'' then Some 100 else None)
     ((demo_request 9 [(''id'', ''100'')] [])\<lparr>rq_principal := None\<rparr>) demo_still demo_auth =
       (Inr (200, [], AuthMessage ''Session revoked.''), e', w') \<and> families w' \<noteq> families demo_auth"
proof -
  let ?h = "\<lparr>ah_service = demo_service, ah_cookie_secure = True, ah_bot = None, ah_geo_header = []\<rparr>"
  let ?pu = "\<lambda>t. if t = ''100'' then Some 100 else None" and ?r = "demo_request 9 [(''id'', ''100'')] []"
  let ?f = "family_of (refresh_rows demo_auth) demo_session"
  have f: "families demo_auth 100 = Some ?f"
    by (simp add: families_def find_session_def demo_auth_def demo_session_def)
  have i: "uuid_param ?pu ?r ''id'' = Inr 100"
    by (simp add: uuid_param_def url_param_def demo_request_def)
  have s: "collaborators_spare (ah_service ?h)" using demo_spares by simp
  from any_session_can_be_revoked [OF s, of ?pu None ?r demo_still 100 demo_auth ?f] f i
  obtain e' w' where "revoke_session_handler ?h ?pu (?r\<lparr>rq_principal := None\<rparr>) demo_still demo_auth =
      (Inr (200, [], AuthMessage ''Session revoked.''), e', w')"
    and w': "families w' = (families demo_auth)(100 \<mapsto> ?f\<lparr>fm_revoked := True\<rparr>)"
    by (auto simp: demo_still_def)
  moreover have "families w' \<noteq> families demo_auth"
    using f unfolding w' by (auto simp: fun_eq_iff family_of_def demo_session_def intro!: exI [of _ 100])
  ultimately show ?thesis by blast
qed

theorem hosted_session_lives_its_time_witness:
  "\<exists>raw e1 w1. create_login_session demo_auth_ext 3 [] [] demo_still demo_auth = (Inr raw, e1, w1) \<and>
     fst (resolve_login_session demo_auth_ext raw demo_still w1) = Inr 3"
proof -
  let ?raw = "b64_encode b64_url (replicate 32 (char_of (500 :: nat)))"
  have "\<exists>e1 w1. create_login_session demo_auth_ext 3 [] [] demo_still demo_auth = (Inr ?raw, e1, w1)"
    by (simp add: create_login_session_def new_refresh_token_def rand_read_def bind_io_def uuid_new_def time_now_def ret_def
        db_exec_def db_call_def Let_def demo_auth_ext_def demo_crypto_def demo_still_def quiet_env_def insert_login_session_def
        user_exists_def demo_auth_def demo_user_def)
  then obtain e1 w1 where run: "create_login_session demo_auth_ext 3 [] [] demo_still demo_auth = (Inr ?raw, e1, w1)" by blast
  have "length ?raw = 43" by simp
  then have "?raw \<noteq> []" by fastforce
  from hosted_session_lives_its_time [OF run this] obtain k where
    "fst (resolve_login_session demo_auth_ext ?raw demo_still w1) =
       (if e_clock demo_still (e_ticks demo_still) \<le> e_clock demo_still k + minutes 30 then Inr 3 else Inl (ApiErr ErrUnauthorized))"
    by (metis demo_still_def no_faults_quiet)
  then show ?thesis using run by (auto simp: demo_still_def quiet_env_def minutes_def)
qed

section \<open>Sign-up and sign-in\<close>

definition new_site :: auth_db where
  "new_site = demo_auth\<lparr>session_rows := [], refresh_rows := []\<rparr>"

lemma strong: "weak_reason demo_crypto ''correcthorse'' ''eve'' = []"
proof -
  have "trim_space ''correcthorse'' = ''correcthorse''" "trim_space ''eve'' = ''eve''"
    by (rule trim_space_visible, simp add: visible_def)+
  moreover have "to_lower demo_crypto ''correcthorse'' = ''correcthorse''" "to_lower demo_crypto ''eve'' = ''eve''"
    by (simp_all add: to_lower_def ascii_lower_def)
  ultimately show ?thesis
    by (simp add: weak_reason_def Let_def common_passwords_def is_uniform_def is_sequential_def go_byte_def index_byte_def)
qed

theorem sign_up_can_sign_in_witness:
  "\<exists>p u e' w'. signup demo_service ''eve'' ''correcthorse'' [] [] [] demo_still new_site = (Inr (p, u), e', w') \<and>
     get_user_by_email demo_auth_ext ''eve'' w' = Some u"
proof -
  have trim: "trim_space ''eve'' = ''eve''" by (rule trim_space_visible) (simp add: visible_def)
  have c: "\<exists>u e1 w1. create_identity demo_auth_ext None ''eve'' [] hash (e :: env) new_site = (Inr u, e1, w1) \<and>
      user_exists (us_id u) w1 \<and> session_rows w1 = [] \<and> refresh_rows w1 = [] \<and> no_faults e1"
    if "no_faults e" "e_uuid e = (\<lambda>n. n + 500)" for e hash
    using that
    by (simp add: create_identity_def Let_def db_exec_def io_run insert_user_def insert_credential_def new_user_row_def
        user_exists_def get_user_by_email_def demo_auth_ext_def ascii_lower_def trim new_site_def demo_auth_def demo_user_def
        no_faults_def)
  have o: "\<exists>p e2 w2. open_session demo_service (us_id u) None [] [] [] e1 w1 = (Inr p, e2, w2) \<and> no_faults e2"
    if "no_faults e1" "user_exists (us_id u) w1" "session_rows w1 = []" "refresh_rows w1 = []" for u e1 and w1 :: auth_db
    using that
    by (simp add: open_session_def issue_access_claims_def issue_access_full_def insert_refresh_token_def new_refresh_token_def
        rand_read_def Let_def db_exec_def io_run insert_session_def insert_refresh_def new_session_def demo_service_def
        demo_auth_ext_def demo_crypto_def no_faults_def user_exists_def)
  let ?hash = "password_hash demo_crypto (replicate 16 (char_of (500 :: nat))) ''correcthorse''"
  let ?e = "demo_still\<lparr>e_uuids := 1\<rparr>"
  have e: "no_faults (next_call ?e)" "e_uuid (next_call ?e) = (\<lambda>n. n + 500)"
    by (simp_all add: demo_still_def quiet_env_def no_faults_def next_call_def)
  from c [OF e] obtain u e1 w1 where 1: "create_identity demo_auth_ext None ''eve'' [] ?hash (next_call ?e) new_site = (Inr u, e1, w1)"
    and w1: "no_faults e1" "user_exists (us_id u) w1" "session_rows w1 = []" "refresh_rows w1 = []" by blast
  from o [OF w1] obtain p e2 w2 where 2: "open_session demo_service (us_id u) None [] [] [] e1 w1 = (Inr p, e2, w2)"
    and e2: "no_faults e2" by blast
  have "strong_password demo_auth_ext ''correcthorse'' ''eve'' = (ret () :: (auth_db, unit) io)"
    by (simp add: strong_password_def demo_auth_ext_def strong)
  moreover have "pwned demo_service x = (ret False :: (auth_db, bool) io)" for x by (simp add: pwned_def demo_service_def)
  moreover have "hash_password demo_crypto ''correcthorse'' demo_still w = (Inr ?hash, ?e, w)" for w :: auth_db
    by (simp add: hash_password_def rand_read_def bind_io_def uuid_new_def ret_def demo_crypto_def argon_salt_len_def
        demo_still_def quiet_env_def)
  moreover have "\<not> e_fault ?e (e_calls ?e)" "\<not> e_fault e2 (e_calls e2)"
    using e2 by (simp_all add: demo_still_def quiet_env_def no_faults_def)
  moreover have "tx_crypto demo_auth_ext = demo_crypto" by (simp add: demo_auth_ext_def)
  ultimately have run: "signup demo_service ''eve'' ''correcthorse'' [] [] [] demo_still new_site = (Inr (p, u), next_call e2, w2)"
    using 1 2 by (simp add: signup_def bind_io_def ret_def in_tx_def)
  have x: "idkey_sized (tx_crypto (as_ext (demo_service :: auth_db auth_service)))"
    by (auto simp: idkey_sized_def demo_crypto_def demo_auth_ext_def min_def)
  have b: "\<forall>f. as_breach (demo_service :: auth_db auth_service) = Some f \<longrightarrow> reads (f ''correcthorse'')"
    and r: "\<forall>g. as_registration (demo_service :: auth_db auth_service) = Some g \<longrightarrow>
      reads (rg_enabled g 1) \<and> reads (rg_validate g 1 ''correcthorse'')"
    by (simp_all add: demo_service_def)
  from sign_up_can_sign_in [OF x b r, THEN conjunct1, rule_format, OF run]
  have "new_account demo_auth_ext ''eve'' ''correcthorse'' None new_site u w2" by simp
  with run show ?thesis by (auto simp: new_account_def trim)
qed

text \<open>The user 3 signs in to a hosted session with its password.\<close>

definition known_site :: auth_db where
  "known_site = new_site\<lparr>cred_rows := [\<lparr>cd_user = 3, cd_hash = password_hash demo_crypto ''salt'' ''pw'', cd_updated = 0\<rparr>]\<rparr>"

lemma demo_timely: "timely_service (demo_service :: auth_db auth_service)"
  by (simp add: timely_service_def demo_service_def)


section \<open>The tables\<close>

lemma demo_tables: "auth_tables_ok demo_auth_ext demo_auth"
  by (simp add: tables_defs successors_stored_def demo_auth_def demo_user_def demo_session_def demo_token_def)

lemma demo_tables_stay_typed:
  "auth_tables_ok demo_auth_ext (snd (snd (refresh demo_service (demo_refresh ''t2'') demo_still demo_auth)))"
proof -
  let ?P = "auth_tables_ok demo_auth_ext :: auth_db \<Rightarrow> bool"
  have "collaborators_keep ?P demo_service"
    by (simp add: collaborators_keep_def demo_service_def)
  with auth_tables_stay_typed [of demo_service, unfolded demo_ext_of]
  have "keeps ?P (refresh demo_service (demo_refresh ''t2''))" by blast
  with demo_tables show ?thesis by (simp add: keeps_def)
qed

end
