(* ===== verification/Totp.thy ===== *)
theory Totp imports Passwords begin

unbundle bit_operations_syntax

text \<open>
  One-time codes: RFC 6238 codes with their base32 secrets (\<^verbatim>\<open>internal/platform/crypto/encryption/totp/totp.go\<close>)
  and the numeric codes and tokens of \<^verbatim>\<open>internal/platform/http/codes/codes.go\<close>. HMAC-SHA1 and the letters outside
  ASCII that \<^verbatim>\<open>strings.ToUpper\<close> knows are parameters; the code is cut out of the digest on 32-bit words as the
  source does it, and compared with the formula of the RFC. A clock reading is cut to microseconds.
\<close>

record totp_ext =
  mx_hmac_sha1 :: "string \<Rightarrow> string \<Rightarrow> string" \<comment> \<open>key, message\<close>
  mx_upper :: "string \<Rightarrow> string"

definition ascii_upper :: "string \<Rightarrow> string" where
  "ascii_upper = map (\<lambda>c. let n = of_char c :: nat in if 97 \<le> n \<and> n \<le> 122 then char_of (n - 32) else c)"

definition to_upper :: "totp_ext \<Rightarrow> string \<Rightarrow> string" where
  "to_upper x s = (if \<forall>c \<in> set s. of_char c < (128::nat) then ascii_upper s else mx_upper x s)"

section \<open>Base32 without padding\<close>

definition b32_std :: string where
  "b32_std = ''ABCDEFGHIJKLMNOPQRSTUVWXYZ234567''"

fun b32_digits :: "nat list \<Rightarrow> nat list" where
  "b32_digits [] = []"
| "b32_digits [a] = [a div 8, a mod 8 * 4]"
| "b32_digits [a, b] = [a div 8, a mod 8 * 4 + b div 64, b div 2 mod 32, b mod 2 * 16]"
| "b32_digits [a, b, c] =
     [a div 8, a mod 8 * 4 + b div 64, b div 2 mod 32, b mod 2 * 16 + c div 16, c mod 16 * 2]"
| "b32_digits [a, b, c, d] =
     [a div 8, a mod 8 * 4 + b div 64, b div 2 mod 32, b mod 2 * 16 + c div 16, c mod 16 * 2 + d div 128,
      d div 4 mod 32, d mod 4 * 8]"
| "b32_digits (a # b # c # d # e # bs) =
     a div 8 # (a mod 8 * 4 + b div 64) # b div 2 mod 32 # (b mod 2 * 16 + c div 16) # (c mod 16 * 2 + d div 128) #
      d div 4 mod 32 # (d mod 4 * 8 + e div 32) # e mod 32 # b32_digits bs"

text \<open>The last group: one, three or six digits of it are read without an error and give no byte.\<close>

fun b32_last :: "nat list \<Rightarrow> nat list" where
  "b32_last [p, q] = [p * 8 + q div 4]"
| "b32_last [p, q, r, s] = [p * 8 + q div 4, q mod 4 * 64 + r * 2 + s div 16]"
| "b32_last [p, q, r, s, t] = [p * 8 + q div 4, q mod 4 * 64 + r * 2 + s div 16, s mod 16 * 16 + t div 2]"
| "b32_last [p, q, r, s, t, u, v] =
     [p * 8 + q div 4, q mod 4 * 64 + r * 2 + s div 16, s mod 16 * 16 + t div 2, t mod 2 * 128 + u * 4 + v div 8]"
| "b32_last _ = []"

fun b32_bytes :: "nat list \<Rightarrow> nat list" where
  "b32_bytes (p # q # r # s # t # u # v # x # ds) =
     (p * 8 + q div 4) # (q mod 4 * 64 + r * 2 + s div 16) # (s mod 16 * 16 + t div 2) #
      (t mod 2 * 128 + u * 4 + v div 8) # (v mod 8 * 32 + x) # b32_bytes ds"
| "b32_bytes ds = b32_last ds"

definition b32_encode :: "string \<Rightarrow> string" where
  "b32_encode s = map ((!) b32_std) (b32_digits (map of_char s))"

definition b32_decode :: "string \<Rightarrow> string option" where
  "b32_decode s =
     map_option (\<lambda>ds. map char_of (b32_bytes ds))
       (those (map (\<lambda>c. first_index ((=) c) b32_std) (filter (\<lambda>c. c \<notin> {CHR 0x0D, CHR 0x0A}) s)))"

section \<open>Codes of a time window\<close>

definition totp_digits :: nat where "totp_digits = 6"
definition totp_period :: int where "totp_period = 30"

definition new_secret :: "crypto_ext \<Rightarrow> ('w, string) io" where
  "new_secret x = bind_io (rand_read x 20) (\<lambda>b. ret (b32_encode b))"

text \<open>\<^verbatim>\<open>uint64(t.Unix() / period)\<close>: the division of Go rounds towards zero.\<close>

definition totp_counter :: "time \<Rightarrow> 64 word" where
  "totp_counter t = (let s = t div 1000000 in
     of_int (if s < 0 then - (- s div totp_period) else s div totp_period))"

definition put_uint64 :: "64 word \<Rightarrow> string" where
  "put_uint64 c = map (\<lambda>i. char_of (unat (drop_bit (8 * (7 - i)) c AND 0xff))) [0..<8]"

definition digest_byte :: "string \<Rightarrow> nat \<Rightarrow> 32 word" where
  "digest_byte s i = of_nat (of_char (s ! i))"

definition truncate_digest :: "string \<Rightarrow> 32 word" where
  "truncate_digest s =
     (let offset = unat (digest_byte s (length s - 1) AND 0x0f) in
      push_bit 24 (digest_byte s offset AND 0x7f) OR push_bit 16 (digest_byte s (offset + 1)) OR
      push_bit 8 (digest_byte s (offset + 2)) OR digest_byte s (offset + 3))"

fun power_loop :: "nat \<Rightarrow> 'a::len word \<Rightarrow> 'a word" where
  "power_loop 0 m = m"
| "power_loop (Suc n) m = power_loop n (m * 10)"

definition totp_code :: "totp_ext \<Rightarrow> string \<Rightarrow> time \<Rightarrow> string option" where
  "totp_code x secret t =
     map_option (\<lambda>key. zero_pad totp_digits
         (nat_digits (unat (truncate_digest (mx_hmac_sha1 x key (put_uint64 (totp_counter t))) mod power_loop totp_digits 1))))
       (b32_decode (to_upper x secret))"

definition hmac_equal :: "string \<Rightarrow> string \<Rightarrow> bool" where
  "hmac_equal a b = (length a = length b \<and> fold (\<lambda>(p, q) acc. acc OR (go_byte p XOR go_byte q)) (zip a b) 0 = 0)"

fun totp_loop :: "totp_ext \<Rightarrow> string \<Rightarrow> string \<Rightarrow> time \<Rightarrow> time list \<Rightarrow> bool" where
  "totp_loop x secret code now [] = False"
| "totp_loop x secret code now (skew # ss) =
     (case totp_code x secret (now + skew) of
        None \<Rightarrow> totp_loop x secret code now ss
      | Some want \<Rightarrow> if hmac_equal want code then True else totp_loop x secret code now ss)"

definition totp_verify_at :: "totp_ext \<Rightarrow> string \<Rightarrow> string \<Rightarrow> time \<Rightarrow> bool" where
  "totp_verify_at x secret code now =
     totp_loop x secret code now [0, - (totp_period * 1000000), totp_period * 1000000]"

definition totp_verify :: "totp_ext \<Rightarrow> string \<Rightarrow> string \<Rightarrow> ('w, bool) io" where
  "totp_verify x secret code = bind_io time_now (\<lambda>now. ret (totp_verify_at x secret code now))"

section \<open>The provisioning URL\<close>

definition hex_upper :: "nat \<Rightarrow> char" where
  "hex_upper n = ''0123456789ABCDEF'' ! (n mod 16)"

definition percent_byte :: "char \<Rightarrow> string" where
  "percent_byte c = [CHR ''%'', hex_upper (of_char c div 16), hex_upper (of_char c)]"

definition url_unreserved :: "char \<Rightarrow> bool" where
  "url_unreserved c \<longleftrightarrow> (let n = of_char c :: nat in (48 \<le> n \<and> n \<le> 57) \<or> (65 \<le> n \<and> n \<le> 90) \<or> (97 \<le> n \<and> n \<le> 122)) \<or>
     c \<in> set ''-_.~''"

definition path_escape :: "string \<Rightarrow> string" where
  "path_escape s = concat (map (\<lambda>c. if url_unreserved c \<or> c \<in> set ''$&+:=@'' then [c] else percent_byte c) s)"

definition query_escape :: "string \<Rightarrow> string" where
  "query_escape s = concat (map (\<lambda>c. if url_unreserved c then [c]
     else if c = CHR '' '' then ''+'' else percent_byte c) s)"

definition provisioning_url :: "string \<Rightarrow> string \<Rightarrow> string \<Rightarrow> string" where
  "provisioning_url secret issuer account =
     ''otpauth://totp/'' @ path_escape (issuer @ '':'' @ account) @ ''?algorithm=SHA1&digits='' @ nat_digits totp_digits @
     ''&issuer='' @ query_escape issuer @ ''&period='' @ nat_digits (nat totp_period) @ ''&secret='' @ query_escape secret"

section \<open>Numeric codes and tokens\<close>

definition be_uint64 :: "string \<Rightarrow> 64 word" where
  "be_uint64 s = fold (\<lambda>c n. push_bit 8 n OR of_nat (of_char c)) s 0"

definition numeric_code_of :: "int \<Rightarrow> string \<Rightarrow> string" where
  "numeric_code_of len b =
     (let l = nat (if len \<le> 0 \<or> len > 12 then 6 else len) in
      zero_pad l (nat_digits (unat (be_uint64 b mod power_loop l 1))))"

definition numeric_code :: "crypto_ext \<Rightarrow> int \<Rightarrow> ('w, string) io" where
  "numeric_code x len = bind_io (rand_read x 8) (\<lambda>b. ret (numeric_code_of len b))"

definition codes_hash :: "crypto_ext \<Rightarrow> string \<Rightarrow> string" where
  "codes_hash x raw = b64_encode b64_url (cx_sha256 x raw)"

definition url_token :: "crypto_ext \<Rightarrow> ('w, string \<times> string) io" where
  "url_token x = bind_io (rand_read x 32) (\<lambda>b. let raw = b64_encode b64_url b in ret (raw, codes_hash x raw))"

end
