(* ===== verification/MfaStore.thy ===== *)
theory MfaStore imports AuthLogin Totp begin

text \<open>
  The tables of the second factors (migrations 0010, 0033 and 0046) and the generated queries of
  \<^verbatim>\<open>internal/access/mfa/dbgen/queries.sql.go\<close>. As in \<open>AuthStore\<close> a statement is an error or a value with the new
  state; \<^verbatim>\<open>NOW()\<close> and the defaults of the tables are read from the environment. A row list is in order of
  insertion, which is the order in which an unordered query returns the rows here.
\<close>

section \<open>Tables\<close>

record totp_row =
  tt_user :: uuid
  tt_secret :: string
  tt_confirmed :: "time option"
  tt_created :: time

record recovery_row =
  rc_id :: uuid
  rc_user :: uuid
  rc_hash :: string
  rc_used :: "time option"
  rc_created :: time

record factor_row =
  fa_id :: uuid
  fa_user :: uuid
  fa_channel :: string
  fa_destination :: string
  fa_verified :: "time option"
  fa_created :: time

record otp_row =
  oc_id :: uuid
  oc_factor :: uuid
  oc_hash :: string
  oc_expires :: time
  oc_used :: "time option"
  oc_created :: time

record verification_row =
  mv_user :: uuid
  mv_method :: string
  mv_at :: time

record mfa_db = auth_db +
  totp_rows :: "totp_row list"
  recovery_rows :: "recovery_row list"
  factor_rows :: "factor_row list"
  otp_rows :: "otp_row list"
  verification_rows :: "verification_row list"

section \<open>The authenticator and its recovery codes\<close>

definition totp_of :: "uuid \<Rightarrow> 'z mfa_db_scheme \<Rightarrow> totp_row option" where
  "totp_of u w = List.find (\<lambda>t. tt_user t = u) (totp_rows w)"

definition put_totp :: "uuid \<Rightarrow> string \<Rightarrow> time \<Rightarrow> 'z mfa_db_scheme \<Rightarrow> go_error + 'z mfa_db_scheme" where
  "put_totp u secret now w =
     (if totp_of u w \<noteq> None then
        Inr (w\<lparr>totp_rows := map (\<lambda>t. if tt_user t = u then t\<lparr>tt_secret := secret, tt_confirmed := None\<rparr> else t) (totp_rows w)\<rparr>)
      else if \<not> user_exists u w then Inl foreign_key_violation
      else Inr (w\<lparr>totp_rows := totp_rows w @
        [\<lparr>tt_user = u, tt_secret = secret, tt_confirmed = None, tt_created = now\<rparr>]\<rparr>))"

definition upsert_mfa_totp :: "uuid \<Rightarrow> string \<Rightarrow> ('z mfa_db_scheme, unit) io" where
  "upsert_mfa_totp u secret = bind_io time_now (\<lambda>now. db_exec (put_totp u secret now))"

definition confirm_totp :: "uuid \<Rightarrow> time \<Rightarrow> 'z mfa_db_scheme \<Rightarrow> 'z mfa_db_scheme" where
  "confirm_totp u now w =
     w\<lparr>totp_rows := map (\<lambda>t. if tt_user t = u then t\<lparr>tt_confirmed := Some now\<rparr> else t) (totp_rows w)\<rparr>"

definition delete_totp :: "uuid \<Rightarrow> 'z mfa_db_scheme \<Rightarrow> 'z mfa_db_scheme" where
  "delete_totp u w = w\<lparr>totp_rows := filter (\<lambda>t. tt_user t \<noteq> u) (totp_rows w)\<rparr>"

definition put_recovery :: "recovery_row \<Rightarrow> 'z mfa_db_scheme \<Rightarrow> go_error + 'z mfa_db_scheme" where
  "put_recovery r w =
     (if rc_id r \<in> rc_id ` set (recovery_rows w) then Inl unique_violation
      else if \<not> user_exists (rc_user r) w then Inl foreign_key_violation
      else Inr (w\<lparr>recovery_rows := recovery_rows w @ [r]\<rparr>))"

definition insert_mfa_recovery_code :: "uuid \<Rightarrow> string \<Rightarrow> ('z mfa_db_scheme, unit) io" where
  "insert_mfa_recovery_code u hash =
     bind_io uuid_new (\<lambda>i.
     bind_io time_now (\<lambda>now.
       db_exec (put_recovery \<lparr>rc_id = i, rc_user = u, rc_hash = hash, rc_used = None, rc_created = now\<rparr>)))"

definition delete_recovery_codes :: "uuid \<Rightarrow> 'z mfa_db_scheme \<Rightarrow> 'z mfa_db_scheme" where
  "delete_recovery_codes u w = w\<lparr>recovery_rows := filter (\<lambda>r. rc_user r \<noteq> u) (recovery_rows w)\<rparr>"

definition unused_recovery_codes :: "uuid \<Rightarrow> 'z mfa_db_scheme \<Rightarrow> recovery_row list" where
  "unused_recovery_codes u w = filter (\<lambda>r. rc_user r = u \<and> rc_used r = None) (recovery_rows w)"

definition recovery_code_stats :: "uuid \<Rightarrow> 'z mfa_db_scheme \<Rightarrow> nat \<times> nat" where
  "recovery_code_stats u w =
     (length (filter (\<lambda>r. rc_user r = u) (recovery_rows w)), length (unused_recovery_codes u w))"

definition mark_recovery_used :: "uuid \<Rightarrow> time \<Rightarrow> 'z mfa_db_scheme \<Rightarrow> 'z mfa_db_scheme" where
  "mark_recovery_used i now w =
     w\<lparr>recovery_rows := map (\<lambda>r. if rc_id r = i then r\<lparr>rc_used := Some now\<rparr> else r) (recovery_rows w)\<rparr>"

section \<open>Channels for one-time codes\<close>

definition put_factor :: "factor_row \<Rightarrow> 'z mfa_db_scheme \<Rightarrow> go_error + (uuid \<times> 'z mfa_db_scheme)" where
  "put_factor f w =
     (let same = (\<lambda>g. fa_user g = fa_user f \<and> fa_channel g = fa_channel f \<and> fa_destination g = fa_destination f) in
      if fa_channel f \<notin> {''email'', ''sms''} then Inl check_violation
      else case List.find same (factor_rows w) of
        Some g \<Rightarrow> Inr (fa_id g, w\<lparr>factor_rows := map (\<lambda>h. if same h then h\<lparr>fa_verified := None\<rparr> else h) (factor_rows w)\<rparr>)
      | None \<Rightarrow>
          if fa_id f \<in> fa_id ` set (factor_rows w) then Inl unique_violation
          else if \<not> user_exists (fa_user f) w then Inl foreign_key_violation
          else Inr (fa_id f, w\<lparr>factor_rows := factor_rows w @ [f]\<rparr>))"

definition upsert_mfa_otp_factor :: "uuid \<Rightarrow> string \<Rightarrow> string \<Rightarrow> ('z mfa_db_scheme, uuid) io" where
  "upsert_mfa_otp_factor u channel destination =
     bind_io uuid_new (\<lambda>i.
     bind_io time_now (\<lambda>now.
       db_call (\<lambda>w. case put_factor \<lparr>fa_id = i, fa_user = u, fa_channel = channel, fa_destination = destination,
             fa_verified = None, fa_created = now\<rparr> w of
           Inl err \<Rightarrow> (Inl err, w) | Inr (j, w') \<Rightarrow> (Inr j, w'))))"

text \<open>Removing a factor removes its codes with it.\<close>

definition drop_factors :: "(factor_row \<Rightarrow> bool) \<Rightarrow> 'z mfa_db_scheme \<Rightarrow> 'z mfa_db_scheme" where
  "drop_factors gone w =
     w\<lparr>otp_rows := filter (\<lambda>c. oc_factor c \<notin> fa_id ` set (filter gone (factor_rows w))) (otp_rows w),
       factor_rows := filter (\<lambda>f. \<not> gone f) (factor_rows w)\<rparr>"

definition delete_otp_factors :: "uuid \<Rightarrow> 'z mfa_db_scheme \<Rightarrow> 'z mfa_db_scheme" where
  "delete_otp_factors u = drop_factors (\<lambda>f. fa_user f = u)"

definition delete_otp_factor_row :: "uuid \<Rightarrow> uuid \<Rightarrow> 'z mfa_db_scheme \<Rightarrow> nat \<times> 'z mfa_db_scheme" where
  "delete_otp_factor_row i u w =
     (let gone = (\<lambda>f. fa_id f = i \<and> fa_user f = u) in (length (filter gone (factor_rows w)), drop_factors gone w))"

definition otp_factor_for_challenge :: "uuid \<Rightarrow> uuid \<Rightarrow> 'z mfa_db_scheme \<Rightarrow> factor_row option" where
  "otp_factor_for_challenge i u w = List.find (\<lambda>f. fa_id f = i \<and> fa_user f = u) (factor_rows w)"

definition otp_factors_of :: "uuid \<Rightarrow> 'z mfa_db_scheme \<Rightarrow> factor_row list" where
  "otp_factors_of u w = sort_key fa_created (filter (\<lambda>f. fa_user f = u) (factor_rows w))"

definition mark_factor_verified :: "uuid \<Rightarrow> time \<Rightarrow> 'z mfa_db_scheme \<Rightarrow> 'z mfa_db_scheme" where
  "mark_factor_verified i now w =
     w\<lparr>factor_rows := map (\<lambda>f. if fa_id f = i then f\<lparr>fa_verified := Some now\<rparr> else f) (factor_rows w)\<rparr>"

definition put_otp_code :: "otp_row \<Rightarrow> 'z mfa_db_scheme \<Rightarrow> go_error + 'z mfa_db_scheme" where
  "put_otp_code c w =
     (if oc_id c \<in> oc_id ` set (otp_rows w) then Inl unique_violation
      else if oc_factor c \<notin> fa_id ` set (factor_rows w) then Inl foreign_key_violation
      else Inr (w\<lparr>otp_rows := otp_rows w @ [c]\<rparr>))"

definition insert_mfa_otp_code :: "uuid \<Rightarrow> string \<Rightarrow> time \<Rightarrow> ('z mfa_db_scheme, unit) io" where
  "insert_mfa_otp_code factor hash expires =
     bind_io uuid_new (\<lambda>i.
     bind_io time_now (\<lambda>now.
       db_exec (put_otp_code \<lparr>oc_id = i, oc_factor = factor, oc_hash = hash, oc_expires = expires, oc_used = None,
         oc_created = now\<rparr>)))"

text \<open>The pending code of a hash, the newest one: of a given factor, or of any verified factor of the user.\<close>

definition pending_code :: "(factor_row \<Rightarrow> bool) \<Rightarrow> string \<Rightarrow> time \<Rightarrow> 'z mfa_db_scheme \<Rightarrow> otp_row option" where
  "pending_code on hash now w =
     (case sort_key (\<lambda>c. - oc_created c) (filter (\<lambda>c. oc_hash c = hash \<and> oc_used c = None \<and> oc_expires c > now \<and>
          (\<exists>f \<in> set (factor_rows w). fa_id f = oc_factor c \<and> on f)) (otp_rows w)) of
        [] \<Rightarrow> None | c # _ \<Rightarrow> Some c)"

definition otp_code_for_confirm :: "uuid \<Rightarrow> uuid \<Rightarrow> string \<Rightarrow> time \<Rightarrow> 'z mfa_db_scheme \<Rightarrow> uuid option" where
  "otp_code_for_confirm factor u hash now w =
     map_option oc_id (pending_code (\<lambda>f. fa_id f = factor \<and> fa_user f = u) hash now w)"

definition otp_code_for_verify :: "uuid \<Rightarrow> string \<Rightarrow> time \<Rightarrow> 'z mfa_db_scheme \<Rightarrow> uuid option" where
  "otp_code_for_verify u hash now w =
     map_option oc_id (pending_code (\<lambda>f. fa_user f = u \<and> fa_verified f \<noteq> None) hash now w)"

definition mark_otp_code_used :: "uuid \<Rightarrow> time \<Rightarrow> 'z mfa_db_scheme \<Rightarrow> 'z mfa_db_scheme" where
  "mark_otp_code_used i now w =
     w\<lparr>otp_rows := map (\<lambda>c. if oc_id c = i then c\<lparr>oc_used := Some now\<rparr> else c) (otp_rows w)\<rparr>"

section \<open>The latest verification\<close>

definition put_verification :: "uuid \<Rightarrow> string \<Rightarrow> time \<Rightarrow> 'z mfa_db_scheme \<Rightarrow> go_error + 'z mfa_db_scheme" where
  "put_verification u method now w =
     (if u \<in> mv_user ` set (verification_rows w) then
        Inr (w\<lparr>verification_rows := map (\<lambda>v. if mv_user v = u then v\<lparr>mv_method := method, mv_at := now\<rparr> else v) (verification_rows w)\<rparr>)
      else if \<not> user_exists u w then Inl foreign_key_violation
      else Inr (w\<lparr>verification_rows := verification_rows w @ [\<lparr>mv_user = u, mv_method = method, mv_at = now\<rparr>]\<rparr>))"

definition upsert_mfa_verification :: "uuid \<Rightarrow> string \<Rightarrow> ('z mfa_db_scheme, unit) io" where
  "upsert_mfa_verification u method = bind_io time_now (\<lambda>now. db_exec (put_verification u method now))"

definition mfa_verified_at :: "uuid \<Rightarrow> 'z mfa_db_scheme \<Rightarrow> time option" where
  "mfa_verified_at u w = map_option mv_at (List.find (\<lambda>v. mv_user v = u) (verification_rows w))"

end
