(* ===== verification/Mfa.thy ===== *)
theory Mfa imports MfaStore begin

text \<open>
  The second factors, \<^verbatim>\<open>internal/access/mfa/mfa.go\<close>: authenticator codes with recovery codes, one-time codes sent
  by e-mail or text message, and the record of the latest verification that opens the step-up window. The operations
  that take a transaction are written without one; their callers put them into \<open>in_tx\<close>. Delivery is a parameter.
\<close>

record 'w mfa_service =
  ms_crypto :: crypto_ext
  ms_audit :: audit_ext
  ms_totp :: totp_ext
  ms_issuer :: string
  ms_send :: "string \<Rightarrow> string \<Rightarrow> string \<Rightarrow> string \<Rightarrow> ('w, unit) io" \<comment> \<open>channel, to, subject, body\<close>

abbreviation bad_request :: "string \<Rightarrow> go_error" where
  "bad_request d \<equiv> ApiErr (with_detail ErrBadRequest d)"

section \<open>The step-up window\<close>

definition step_up_window :: time where
  "step_up_window = minutes 5"

definition record_verification :: "uuid \<Rightarrow> string \<Rightarrow> ('z mfa_db_scheme, unit) io" where
  "record_verification u method = upsert_mfa_verification u method"

definition recently_verified :: "uuid \<Rightarrow> time \<Rightarrow> ('z mfa_db_scheme, bool \<times> time option) io" where
  "recently_verified u window =
     bind_io (db_read (mfa_verified_at u)) (\<lambda>row.
     case row of
       None \<Rightarrow> ret (False, None)
     | Some t \<Rightarrow> bind_io time_now (\<lambda>now. ret (now - t \<le> window, Some t)))"

definition require_recent_mfa :: "time \<Rightarrow> request \<Rightarrow> ('z mfa_db_scheme, 'a) io \<Rightarrow> ('z mfa_db_scheme, 'a) io" where
  "require_recent_mfa window r handler =
     bind_io (lift_res (require_user r)) (\<lambda>u.
     bind_io (recently_verified u window) (\<lambda>(ok, _).
     if \<not> ok then fail (ApiErr (with_detail ErrStepUpRequired ''recent multi-factor verification required''))
     else handler))"

section \<open>The authenticator\<close>

record enrollment =
  en_secret :: string
  en_url :: string

definition start_enroll :: "'z mfa_db_scheme mfa_service \<Rightarrow> uuid \<Rightarrow> string \<Rightarrow> ('z mfa_db_scheme, enrollment) io" where
  "start_enroll s u account =
     bind_io (new_secret (ms_crypto s)) (\<lambda>secret.
     then_io (upsert_mfa_totp u secret)
       (ret \<lparr>en_secret = secret, en_url = provisioning_url secret (ms_issuer s) account\<rparr>))"

definition recovery_code_count :: nat where
  "recovery_code_count = 10"

fun mint_codes :: "'z mfa_db_scheme mfa_service \<Rightarrow> uuid \<Rightarrow> nat \<Rightarrow> ('z mfa_db_scheme, string list) io" where
  "mint_codes s u 0 = ret []"
| "mint_codes s u (Suc n) =
     bind_io (numeric_code (ms_crypto s) 10) (\<lambda>c.
     bind_io (hash_password (ms_crypto s) c) (\<lambda>hash.
     then_io (insert_mfa_recovery_code u hash)
     (bind_io (mint_codes s u n) (\<lambda>cs. ret (c # cs)))))"

definition mint_recovery_codes :: "'z mfa_db_scheme mfa_service \<Rightarrow> uuid \<Rightarrow> ('z mfa_db_scheme, string list) io" where
  "mint_recovery_codes s u = then_io (db_write (delete_recovery_codes u)) (mint_codes s u recovery_code_count)"

definition confirm_enroll :: "'z mfa_db_scheme mfa_service \<Rightarrow> uuid \<Rightarrow> string \<Rightarrow> ('z mfa_db_scheme, string list) io" where
  "confirm_enroll s u code =
     bind_io (db_read (totp_of u)) (\<lambda>row.
     case row of
       None \<Rightarrow> fail (bad_request ''enrollment not started'')
     | Some t \<Rightarrow>
         bind_io (totp_verify (ms_totp s) (tt_secret t) code) (\<lambda>ok.
         if \<not> ok then fail (bad_request ''invalid totp code'')
         else
           bind_io time_now (\<lambda>now.
           then_io (db_write (confirm_totp u now))
           (then_io (record_verification u ''totp'')
             (mint_recovery_codes s u)))))"

record recovery_status =
  rv_enrolled :: bool
  rv_total :: nat
  rv_remaining :: nat

definition recovery_status_of :: "uuid \<Rightarrow> ('z mfa_db_scheme, recovery_status) io" where
  "recovery_status_of u =
     bind_io (db_read (totp_of u)) (\<lambda>row.
     bind_io (db_read (recovery_code_stats u)) (\<lambda>(total, remaining).
       ret \<lparr>rv_enrolled = (case row of None \<Rightarrow> False | Some t \<Rightarrow> tt_confirmed t \<noteq> None),
            rv_total = total, rv_remaining = remaining\<rparr>))"

definition regenerate :: "'z mfa_db_scheme mfa_service \<Rightarrow> uuid \<Rightarrow> ('z mfa_db_scheme, string list) io" where
  "regenerate s u =
     bind_io (db_read (totp_of u)) (\<lambda>row.
     case row of
       None \<Rightarrow> fail (bad_request ''enable MFA before generating recovery codes'')
     | Some t \<Rightarrow>
         if tt_confirmed t = None then fail (bad_request ''confirm MFA enrollment first'')
         else mint_recovery_codes s u)"

definition disable_totp :: "uuid \<Rightarrow> ('z mfa_db_scheme, unit) io" where
  "disable_totp u = then_io (db_write (delete_totp u)) (db_write (delete_recovery_codes u))"

text \<open>The id of the recovery code that was used, if it was one.\<close>

fun match_codes :: "crypto_ext \<Rightarrow> string \<Rightarrow> recovery_row list \<Rightarrow> uuid option \<Rightarrow> go_error + uuid option" where
  "match_codes x code [] found = Inr found"
| "match_codes x code (r # rs) found =
     (case password_verify x (rc_hash r) code of
        Inl err \<Rightarrow> Inl err
      | Inr ok \<Rightarrow> match_codes x code rs (if ok then Some (rc_id r) else found))"

definition verify_code :: "'z mfa_db_scheme mfa_service \<Rightarrow> uuid \<Rightarrow> string \<Rightarrow> ('z mfa_db_scheme, uuid option) io" where
  "verify_code s u raw =
     (let code = trim_space raw in
      bind_io (db_read (totp_of u)) (\<lambda>row.
      case row of
        None \<Rightarrow> fail (bad_request ''mfa not configured'')
      | Some t \<Rightarrow>
          if tt_confirmed t = None then fail (bad_request ''mfa enrollment not confirmed'')
          else
            bind_io (totp_verify (ms_totp s) (tt_secret t) code) (\<lambda>ok.
            if ok then ret None
            else
              bind_io (db_read (unused_recovery_codes u)) (\<lambda>rs.
              bind_io (lift_res (match_codes (ms_crypto s) code rs None)) (\<lambda>found.
              case found of
                None \<Rightarrow> fail (ApiErr (with_detail ErrUnauthorized ''invalid mfa code''))
              | Some i \<Rightarrow> bind_io time_now (\<lambda>now. then_io (db_write (mark_recovery_used i now)) (ret (Some i))))))))"

definition is_enrolled :: "uuid \<Rightarrow> ('z mfa_db_scheme, bool) io" where
  "is_enrolled u =
     bind_io (db_read (totp_of u)) (\<lambda>row.
       ret (case row of None \<Rightarrow> False | Some t \<Rightarrow> tt_confirmed t \<noteq> None))"

definition method_used :: "uuid option \<Rightarrow> string" where
  "method_used found = (if found \<noteq> None then ''recovery_code'' else ''totp'')"

text \<open>A canonical error, which only the check of the code reports, means that the code is wrong; the transaction
  is given up either way.\<close>

definition verify_for_login :: "'z mfa_db_scheme mfa_service \<Rightarrow> uuid \<Rightarrow> string \<Rightarrow> ('z mfa_db_scheme, bool) io" where
  "verify_for_login s u code =
     on_error
       (in_tx (bind_io (verify_code s u code) (\<lambda>found.
          then_io (record_verification u (method_used found)) (ret True))))
       (\<lambda>err. if errs_as err \<noteq> None then ret False else fail err)"

definition reset_for_user :: "uuid \<Rightarrow> ('z mfa_db_scheme, unit) io" where
  "reset_for_user u =
     then_io (db_write (delete_totp u))
     (then_io (db_write (delete_recovery_codes u))
       (db_write (delete_otp_factors u)))"

text \<open>What the authentication service is given of this component.\<close>

definition mfa_enroller_of :: "'z mfa_db_scheme mfa_service \<Rightarrow> 'z mfa_db_scheme mfa_enroller" where
  "mfa_enroller_of s = \<lparr>me_enrolled = is_enrolled, me_verify = verify_for_login s\<rparr>"

section \<open>One-time codes by message\<close>

definition otp_ttl :: time where
  "otp_ttl = minutes 10"

definition mask_destination :: "string \<Rightarrow> string \<Rightarrow> string" where
  "mask_destination channel dest =
     (if channel = ''email'' then
        (case index_byte dest (CHR ''@'') of
           None \<Rightarrow> dest
         | Some at' \<Rightarrow> if at' \<le> 1 then dest
             else take 1 dest @ replicate (at' - 1) (CHR ''*'') @ drop at' dest)
      else if length dest \<le> 3 then dest
      else replicate (length dest - 3) (CHR ''*'') @ drop (length dest - 3) dest)"

definition send_otp :: "'z mfa_db_scheme mfa_service \<Rightarrow> uuid \<Rightarrow> string \<Rightarrow> string \<Rightarrow> ('z mfa_db_scheme, unit) io" where
  "send_otp s factor channel destination =
     bind_io (numeric_code (ms_crypto s) 6) (\<lambda>code.
     bind_io time_now (\<lambda>now.
     then_io (insert_mfa_otp_code factor (codes_hash (ms_crypto s) code) (now + otp_ttl))
       (ms_send s channel destination ''Your verification code''
         (''Your '' @ ms_issuer s @ '' sign-in code is '' @ code @ ''. It expires in 10m0s.''))))"

definition enroll_otp_start ::
  "'z mfa_db_scheme mfa_service \<Rightarrow> uuid \<Rightarrow> string \<Rightarrow> string \<Rightarrow> ('z mfa_db_scheme, uuid) io" where
  "enroll_otp_start s u raw_channel raw_destination =
     (let channel = to_lower (ms_crypto s) (trim_space raw_channel); destination = trim_space raw_destination in
      if channel \<noteq> ''email'' \<and> channel \<noteq> ''sms'' then
        fail (ApiErr (with_detail ErrUnprocessable ''channel must be email or sms''))
      else if destination = [] then fail (ApiErr (with_detail ErrUnprocessable ''destination required''))
      else
        bind_io (upsert_mfa_otp_factor u channel destination) (\<lambda>factor.
        then_io (send_otp s factor channel destination) (ret factor)))"

definition enroll_otp_confirm ::
  "'z mfa_db_scheme mfa_service \<Rightarrow> uuid \<Rightarrow> uuid \<Rightarrow> string \<Rightarrow> ('z mfa_db_scheme, unit) io" where
  "enroll_otp_confirm s u factor code =
     bind_io time_now (\<lambda>now.
     bind_io (db_read (otp_code_for_confirm factor u (codes_hash (ms_crypto s) (trim_space code)) now)) (\<lambda>row.
     case row of
       None \<Rightarrow> fail (bad_request ''invalid or expired code'')
     | Some i \<Rightarrow>
         bind_io time_now (\<lambda>now2.
         then_io (db_write (mark_otp_code_used i now2))
         (bind_io time_now (\<lambda>now3. db_write (mark_factor_verified factor now3))))))"

record otp_factor =
  of_id :: uuid
  of_channel :: string
  of_destination :: string
  of_verified :: bool
  of_created :: time

definition list_otp_factors :: "uuid \<Rightarrow> ('z mfa_db_scheme, otp_factor list) io" where
  "list_otp_factors u =
     bind_io (db_read (otp_factors_of u)) (\<lambda>rows.
       ret (map (\<lambda>f. \<lparr>of_id = fa_id f, of_channel = fa_channel f,
         of_destination = mask_destination (fa_channel f) (fa_destination f), of_verified = (fa_verified f \<noteq> None),
         of_created = fa_created f\<rparr>) rows))"

definition delete_otp_factor :: "uuid \<Rightarrow> uuid \<Rightarrow> ('z mfa_db_scheme, unit) io" where
  "delete_otp_factor u factor =
     bind_io (db_call (\<lambda>w. let (n, w') = delete_otp_factor_row factor u w in (Inr n, w'))) (\<lambda>n.
       if n = 0 then fail (ApiErr ErrNotFound) else ret ())"

definition challenge_otp :: "'z mfa_db_scheme mfa_service \<Rightarrow> uuid \<Rightarrow> uuid \<Rightarrow> ('z mfa_db_scheme, unit) io" where
  "challenge_otp s u factor =
     bind_io (db_read (otp_factor_for_challenge factor u)) (\<lambda>row.
     case row of
       None \<Rightarrow> fail (ApiErr ErrNotFound)
     | Some f \<Rightarrow>
         if fa_verified f = None then fail (bad_request ''factor not confirmed'')
         else send_otp s factor (fa_channel f) (fa_destination f))"

definition verify_otp :: "'z mfa_db_scheme mfa_service \<Rightarrow> uuid \<Rightarrow> string \<Rightarrow> ('z mfa_db_scheme, bool) io" where
  "verify_otp s u code =
     bind_io time_now (\<lambda>now.
     bind_io (db_read (otp_code_for_verify u (codes_hash (ms_crypto s) (trim_space code)) now)) (\<lambda>row.
     case row of
       None \<Rightarrow> ret False
     | Some i \<Rightarrow> bind_io time_now (\<lambda>now2. then_io (db_write (mark_otp_code_used i now2)) (ret True))))"

end
