(* ===== verification/MfaHttp.thy ===== *)
theory MfaHttp imports Mfa RbacHttp begin

text \<open>
  The handlers of \<^verbatim>\<open>internal/access/mfa/mfa.go\<close> and the routes \<^verbatim>\<open>Mount\<close> gives them, with the step-up gate in
  front of two of them. A body arrives decoded or as the error of the decoder; the passkey component, which
  \<^verbatim>\<open>WebAuthnVerifier\<close> stands for, is a parameter.
\<close>

record 'w webauthn_verifier =
  wa_begin :: "uuid \<Rightarrow> ('w, uuid \<times> string) io" \<comment> \<open>session and request options\<close>
  wa_finish :: "uuid \<Rightarrow> uuid \<Rightarrow> string \<Rightarrow> ('w, unit) io"

record 'w mfa_handler =
  mh_service :: "'w mfa_service"
  mh_webauthn :: "'w webauthn_verifier option"

datatype mfa_body =
    MfaNone
  | MfaEnrollment enrollment
  | MfaCodes "string list"
  | MfaVerified
  | MfaRecovery recovery_status
  | MfaFactors "otp_factor list"
  | MfaFactorAdded uuid
  | MfaMessage string
  | MfaAssertion uuid string
  | MfaStepUp bool "time option" int

type_synonym 'z mfa_reply = "('z mfa_db_scheme, nat \<times> mfa_body) io"

definition audit_actor :: "request \<Rightarrow> uuid option \<times> string" where
  "audit_actor r =
     (case rq_principal r of
        None \<Rightarrow> (None, ''system'')
      | Some p \<Rightarrow> (p_user_id p, if p_actor_type p = [] then ''user'' else p_actor_type p))"

definition mfa_event :: "request \<Rightarrow> uuid \<Rightarrow> string \<Rightarrow> string \<Rightarrow> audit_event" where
  "mfa_event r user action meta =
     \<lparr>ev_tenant = Option.bind (rq_principal r) p_tenant_id, ev_actor_user = fst (audit_actor r),
      ev_actor_type = snd (audit_actor r), ev_action = action, ev_res_type = ''user'', ev_res_id = Some user,
      ev_ip = client_ip r, ev_user_agent = header_get r ''User-Agent'', ev_request_id = rq_id r, ev_metadata = meta\<rparr>"

definition mfa_record ::
  "'z mfa_db_scheme mfa_handler \<Rightarrow> request \<Rightarrow> uuid \<Rightarrow> string \<Rightarrow> string \<Rightarrow> ('z mfa_db_scheme, unit) io" where
  "mfa_record h r user action meta = record_audit (ms_audit (mh_service h)) (mfa_event r user action meta)"

section \<open>The authenticator\<close>

definition start_enroll_handler :: "'z mfa_db_scheme mfa_handler \<Rightarrow> request \<Rightarrow> string \<Rightarrow> 'z mfa_reply" where
  "start_enroll_handler h r account =
     bind_io (lift_res (require_user r)) (\<lambda>u.
     bind_io (in_tx
       (bind_io (start_enroll (mh_service h) u
           (if account = [] then (case rq_principal r of None \<Rightarrow> [] | Some p \<Rightarrow> p_subject p) else account)) (\<lambda>en.
        then_io (mfa_record h r u ''mfa.totp_enroll_started'' []) (ret en)))) (\<lambda>en.
       ret (200, MfaEnrollment en)))"

definition confirm_enroll_handler ::
  "'z mfa_db_scheme mfa_handler \<Rightarrow> request \<Rightarrow> go_error + string \<Rightarrow> 'z mfa_reply" where
  "confirm_enroll_handler h r body =
     bind_io (lift_res (require_user r)) (\<lambda>u.
     bind_io (lift_res body) (\<lambda>code.
     bind_io (in_tx
       (bind_io (confirm_enroll (mh_service h) u code) (\<lambda>cs.
        then_io (mfa_record h r u ''mfa.totp_enrolled''
          (json_object [(''recovery_codes_minted'', nat_digits (length cs))])) (ret cs)))) (\<lambda>cs.
       ret (200, MfaCodes cs))))"

definition verify_handler :: "'z mfa_db_scheme mfa_handler \<Rightarrow> request \<Rightarrow> go_error + string \<Rightarrow> 'z mfa_reply" where
  "verify_handler h r body =
     bind_io (lift_res (require_user r)) (\<lambda>u.
     bind_io (lift_res body) (\<lambda>code.
     then_io (in_tx
       (bind_io (verify_code (mh_service h) u code) (\<lambda>found.
        then_io (record_verification u (method_used found))
          (case found of
             None \<Rightarrow> ret ()
           | Some i \<Rightarrow> mfa_record h r u ''mfa.recovery_code_used''
               (json_object [(''recovery_code_id'', json_quote (ax_uuid (ms_audit (mh_service h)) i))])))))
       (ret (200, MfaVerified))))"

definition disable_handler :: "'z mfa_db_scheme mfa_handler \<Rightarrow> request \<Rightarrow> 'z mfa_reply" where
  "disable_handler h r =
     bind_io (lift_res (require_user r)) (\<lambda>u.
     then_io (in_tx (bind_io (disable_totp u) (\<lambda>_. then_io (mfa_record h r u ''mfa.totp_disabled'' []) (ret ()))))
       (ret (204, MfaNone)))"

definition recovery_status_handler :: "request \<Rightarrow> 'z mfa_reply" where
  "recovery_status_handler r =
     bind_io (lift_res (require_user r)) (\<lambda>u.
     bind_io (recovery_status_of u) (\<lambda>st. ret (200, MfaRecovery st)))"

definition regenerate_handler :: "'z mfa_db_scheme mfa_handler \<Rightarrow> request \<Rightarrow> 'z mfa_reply" where
  "regenerate_handler h r =
     bind_io (lift_res (require_user r)) (\<lambda>u.
     bind_io (in_tx
       (bind_io (regenerate (mh_service h) u) (\<lambda>cs.
        then_io (mfa_record h r u ''mfa.recovery_codes_regenerated'' (json_object [(''count'', nat_digits (length cs))]))
          (ret cs)))) (\<lambda>cs.
       ret (200, MfaCodes cs)))"

section \<open>One-time codes by message\<close>

definition list_otp_factors_handler :: "request \<Rightarrow> 'z mfa_reply" where
  "list_otp_factors_handler r =
     bind_io (lift_res (require_user r)) (\<lambda>u.
     bind_io (list_otp_factors u) (\<lambda>fs. ret (200, MfaFactors fs)))"

definition enroll_otp_start_handler ::
  "'z mfa_db_scheme mfa_handler \<Rightarrow> request \<Rightarrow> go_error + string \<times> string \<Rightarrow> 'z mfa_reply" where
  "enroll_otp_start_handler h r body =
     bind_io (lift_res (require_user r)) (\<lambda>u.
     bind_io (lift_res body) (\<lambda>(channel, destination).
     bind_io (enroll_otp_start (mh_service h) u channel destination) (\<lambda>i. ret (201, MfaFactorAdded i))))"

definition enroll_otp_confirm_handler ::
  "'z mfa_db_scheme mfa_handler \<Rightarrow> (string \<Rightarrow> uuid option) \<Rightarrow> request \<Rightarrow> go_error + string \<Rightarrow> 'z mfa_reply" where
  "enroll_otp_confirm_handler h pu r body =
     bind_io (lift_res (require_user r)) (\<lambda>u.
     bind_io (lift_res (uuid_param pu r ''id'')) (\<lambda>factor.
     bind_io (lift_res body) (\<lambda>code.
     then_io (in_tx (bind_io (enroll_otp_confirm (mh_service h) u factor code) (\<lambda>_.
         then_io (mfa_record h r u ''mfa.otp_factor_added'' []) (ret ()))))
       (ret (200, MfaVerified)))))"

definition challenge_otp_handler ::
  "'z mfa_db_scheme mfa_handler \<Rightarrow> (string \<Rightarrow> uuid option) \<Rightarrow> request \<Rightarrow> 'z mfa_reply" where
  "challenge_otp_handler h pu r =
     bind_io (lift_res (require_user r)) (\<lambda>u.
     bind_io (lift_res (uuid_param pu r ''id'')) (\<lambda>factor.
     then_io (challenge_otp (mh_service h) u factor) (ret (202, MfaMessage ''verification code sent''))))"

definition delete_otp_factor_handler ::
  "'z mfa_db_scheme mfa_handler \<Rightarrow> (string \<Rightarrow> uuid option) \<Rightarrow> request \<Rightarrow> 'z mfa_reply" where
  "delete_otp_factor_handler h pu r =
     bind_io (lift_res (require_user r)) (\<lambda>u.
     bind_io (lift_res (uuid_param pu r ''id'')) (\<lambda>factor.
     then_io (in_tx (bind_io (delete_otp_factor u factor) (\<lambda>_.
         then_io (mfa_record h r u ''mfa.otp_factor_removed'' []) (ret ()))))
       (ret (204, MfaNone))))"

definition verify_otp_handler :: "'z mfa_db_scheme mfa_handler \<Rightarrow> request \<Rightarrow> go_error + string \<Rightarrow> 'z mfa_reply" where
  "verify_otp_handler h r body =
     bind_io (lift_res (require_user r)) (\<lambda>u.
     bind_io (lift_res body) (\<lambda>code.
     then_io (in_tx (bind_io (verify_otp (mh_service h) u code) (\<lambda>ok.
         if \<not> ok then fail (ApiErr (with_detail ErrUnauthorized ''invalid code''))
         else record_verification u ''otp'')))
       (ret (200, MfaVerified))))"

section \<open>Passkeys as a second factor, and the state of the window\<close>

definition webauthn_challenge_handler :: "'z mfa_db_scheme mfa_handler \<Rightarrow> request \<Rightarrow> 'z mfa_reply" where
  "webauthn_challenge_handler h r =
     bind_io (lift_res (require_user r)) (\<lambda>u.
     case mh_webauthn h of
       None \<Rightarrow> fail (ApiErr (with_detail ErrNotImplemented ''webauthn factor not enabled''))
     | Some f \<Rightarrow> bind_io (wa_begin f u) (\<lambda>(sid, options). ret (200, MfaAssertion sid options)))"

definition webauthn_verify_handler ::
  "'z mfa_db_scheme mfa_handler \<Rightarrow> request \<Rightarrow> go_error + uuid \<times> string \<Rightarrow> 'z mfa_reply" where
  "webauthn_verify_handler h r body =
     bind_io (lift_res (require_user r)) (\<lambda>u.
     case mh_webauthn h of
       None \<Rightarrow> fail (ApiErr (with_detail ErrNotImplemented ''webauthn factor not enabled''))
     | Some f \<Rightarrow>
         bind_io (lift_res body) (\<lambda>(sid, cred).
         then_io (wa_finish f u sid cred)
         (then_io (in_tx (bind_io (record_verification u ''webauthn'') (\<lambda>_.
             then_io (mfa_record h r u ''mfa.webauthn_verified'' []) (ret ()))))
           (ret (200, MfaVerified)))))"

definition step_up_status_handler :: "request \<Rightarrow> 'z mfa_reply" where
  "step_up_status_handler r =
     bind_io (lift_res (require_user r)) (\<lambda>u.
     bind_io (recently_verified u step_up_window) (\<lambda>(ok, t).
       ret (200, MfaStepUp ok t (step_up_window div 1000000))))"

section \<open>The routes\<close>

datatype mfa_call =
    StartTotp string
  | ConfirmTotp "go_error + string"
  | VerifyTotp "go_error + string"
  | RecoveryCodes
  | ListFactors
  | AddFactor "go_error + string \<times> string"
  | ConfirmFactor "go_error + string"
  | ChallengeFactor
  | RemoveFactor
  | VerifyOtp "go_error + string"
  | WebauthnChallenge
  | WebauthnVerify "go_error + uuid \<times> string"
  | StepUpStatus
  | DisableTotp
  | RegenerateCodes

definition mfa_serve ::
  "'z mfa_db_scheme mfa_handler \<Rightarrow> (string \<Rightarrow> uuid option) \<Rightarrow> request \<Rightarrow> mfa_call \<Rightarrow> 'z mfa_reply" where
  "mfa_serve h pu r c =
     (case c of
        StartTotp account \<Rightarrow> start_enroll_handler h r account
      | ConfirmTotp body \<Rightarrow> confirm_enroll_handler h r body
      | VerifyTotp body \<Rightarrow> verify_handler h r body
      | RecoveryCodes \<Rightarrow> recovery_status_handler r
      | ListFactors \<Rightarrow> list_otp_factors_handler r
      | AddFactor body \<Rightarrow> enroll_otp_start_handler h r body
      | ConfirmFactor body \<Rightarrow> enroll_otp_confirm_handler h pu r body
      | ChallengeFactor \<Rightarrow> challenge_otp_handler h pu r
      | RemoveFactor \<Rightarrow> delete_otp_factor_handler h pu r
      | VerifyOtp body \<Rightarrow> verify_otp_handler h r body
      | WebauthnChallenge \<Rightarrow> webauthn_challenge_handler h r
      | WebauthnVerify body \<Rightarrow> webauthn_verify_handler h r body
      | StepUpStatus \<Rightarrow> step_up_status_handler r
      | DisableTotp \<Rightarrow> require_recent_mfa step_up_window r (disable_handler h r)
      | RegenerateCodes \<Rightarrow> require_recent_mfa step_up_window r (regenerate_handler h r))"

end
