(* ===== verification/MfaTables.thy ===== *)
theory MfaTables imports MfaHttp Triples begin

text \<open>
  The tables of the second factors: their invariant, what a user's part of them is, and that every request keeps the
  invariant and touches the part of its own user only.
\<close>

section \<open>Lists\<close>

lemma filter_map_other:
  assumes "\<And>x. x \<in> set xs \<Longrightarrow> P (f x) = P x" and "\<And>x. x \<in> set xs \<Longrightarrow> P x \<Longrightarrow> f x = x"
  shows "filter P (map f xs) = filter P xs"
  using assms by (induction xs) auto

lemma filter_filter_other: "(\<And>x. x \<in> set xs \<Longrightarrow> P x \<Longrightarrow> Q x) \<Longrightarrow> filter P (filter Q xs) = filter P xs"
  by (induction xs) auto

lemma map_map_same: "(\<And>x. g (f x) = g x) \<Longrightarrow> map g (map f xs) = map g xs"
  by simp

lemma image_map_same: "(\<And>x. g (f x) = g x) \<Longrightarrow> g ` set (map f xs) = g ` set xs"
  by (simp add: image_image)

section \<open>The invariant\<close>

definition factor_key :: "factor_row \<Rightarrow> uuid \<times> string \<times> string" where
  "factor_key f = (fa_user f, fa_channel f, fa_destination f)"

definition user_ids :: "'z auth_db_scheme \<Rightarrow> uuid set" where
  "user_ids w = us_id ` set (user_rows w)"

definition mfa_ok :: "'z mfa_db_scheme \<Rightarrow> bool" where
  "mfa_ok w \<longleftrightarrow> distinct (map tt_user (totp_rows w)) \<and> distinct (map rc_id (recovery_rows w)) \<and>
     distinct (map fa_id (factor_rows w)) \<and> distinct (map factor_key (factor_rows w)) \<and>
     distinct (map oc_id (otp_rows w)) \<and> distinct (map mv_user (verification_rows w)) \<and>
     fa_channel ` set (factor_rows w) \<subseteq> {''email'', ''sms''} \<and>
     oc_factor ` set (otp_rows w) \<subseteq> fa_id ` set (factor_rows w) \<and>
     tt_user ` set (totp_rows w) \<subseteq> user_ids w \<and> rc_user ` set (recovery_rows w) \<subseteq> user_ids w \<and>
     fa_user ` set (factor_rows w) \<subseteq> user_ids w \<and> mv_user ` set (verification_rows w) \<subseteq> user_ids w"

text \<open>What a user has: authenticator, recovery codes, channels, codes sent to them, and the latest verification.\<close>

definition factors_of :: "uuid \<Rightarrow> 'z mfa_db_scheme \<Rightarrow> uuid set" where
  "factors_of v w = fa_id ` {f \<in> set (factor_rows w). fa_user f = v}"

type_synonym mfa_part =
  "totp_row list \<times> recovery_row list \<times> factor_row list \<times> otp_row list \<times> verification_row list"

definition mfa_part_of :: "uuid \<Rightarrow> 'z mfa_db_scheme \<Rightarrow> mfa_part" where
  "mfa_part_of v w =
     (filter (\<lambda>t. tt_user t = v) (totp_rows w), filter (\<lambda>r. rc_user r = v) (recovery_rows w),
      filter (\<lambda>f. fa_user f = v) (factor_rows w), filter (\<lambda>c. oc_factor c \<in> factors_of v w) (otp_rows w),
      filter (\<lambda>m. mv_user m = v) (verification_rows w))"

definition mfa_only :: "uuid \<Rightarrow> (uuid \<Rightarrow> mfa_part) \<Rightarrow> user_row list \<Rightarrow> 'z mfa_db_scheme \<Rightarrow> bool" where
  "mfa_only u V us w \<longleftrightarrow> mfa_ok w \<and> user_rows w = us \<and> (\<forall>v. v \<noteq> u \<longrightarrow> mfa_part_of v w = V v)"

lemmas mfa_only_defs = mfa_only_def mfa_ok_def mfa_part_of_def factors_of_def user_ids_def

lemma mfa_only_audit: "mfa_only u V us (w\<lparr>audit_rows := rows\<rparr>) = mfa_only u V us w"
  by (simp add: mfa_only_defs)

lemma mfa_only_rows:
  assumes "mfa_only u V us w"
  shows "distinct (map tt_user (totp_rows w))" "tt_user ` set (totp_rows w) \<subseteq> user_ids w"
    "distinct (map rc_id (recovery_rows w))" "rc_user ` set (recovery_rows w) \<subseteq> user_ids w"
    "distinct (map fa_id (factor_rows w))" "distinct (map factor_key (factor_rows w))"
    "fa_channel ` set (factor_rows w) \<subseteq> {''email'', ''sms''}" "fa_user ` set (factor_rows w) \<subseteq> user_ids w"
    "distinct (map oc_id (otp_rows w))" "oc_factor ` set (otp_rows w) \<subseteq> fa_id ` set (factor_rows w)"
    "distinct (map mv_user (verification_rows w))" "mv_user ` set (verification_rows w) \<subseteq> user_ids w"
  using assms by (simp_all add: mfa_only_def mfa_ok_def)

lemma user_exists_ids: "user_exists u w \<longleftrightarrow> u \<in> user_ids w"
  by (simp add: user_exists_def user_ids_def)

lemma factors_disjoint: "mfa_only u V us w \<Longrightarrow> v \<noteq> u \<Longrightarrow> factors_of v w \<inter> factors_of u w = {}"
  using mfa_only_rows(5) [of u V us w] by (auto simp: factors_of_def distinct_map dest: inj_onD)

text \<open>A statement changes one table, or the channels and their codes.\<close>

lemma only_totp:
  assumes "mfa_only u V us w" and "distinct (map tt_user ts)" and "tt_user ` set ts \<subseteq> user_ids w"
    and "\<And>v. v \<noteq> u \<Longrightarrow> filter (\<lambda>t. tt_user t = v) ts = filter (\<lambda>t. tt_user t = v) (totp_rows w)"
  shows "mfa_only u V us (w\<lparr>totp_rows := ts\<rparr>)"
  using assms by (clarsimp simp: mfa_only_defs)

lemma only_recovery:
  assumes "mfa_only u V us w" and "distinct (map rc_id rs)" and "rc_user ` set rs \<subseteq> user_ids w"
    and "\<And>v. v \<noteq> u \<Longrightarrow> filter (\<lambda>r. rc_user r = v) rs = filter (\<lambda>r. rc_user r = v) (recovery_rows w)"
  shows "mfa_only u V us (w\<lparr>recovery_rows := rs\<rparr>)"
  using assms by (clarsimp simp: mfa_only_defs)

lemma only_verification:
  assumes "mfa_only u V us w" and "distinct (map mv_user ms)" and "mv_user ` set ms \<subseteq> user_ids w"
    and "\<And>v. v \<noteq> u \<Longrightarrow> filter (\<lambda>m. mv_user m = v) ms = filter (\<lambda>m. mv_user m = v) (verification_rows w)"
  shows "mfa_only u V us (w\<lparr>verification_rows := ms\<rparr>)"
  using assms by (clarsimp simp: mfa_only_defs)

lemma only_otp:
  assumes "mfa_only u V us w" and "distinct (map oc_id cs)" and "oc_factor ` set cs \<subseteq> fa_id ` set (factor_rows w)"
    and "\<And>v. v \<noteq> u \<Longrightarrow> filter (\<lambda>c. oc_factor c \<in> factors_of v w) cs = filter (\<lambda>c. oc_factor c \<in> factors_of v w) (otp_rows w)"
  shows "mfa_only u V us (w\<lparr>otp_rows := cs\<rparr>)"
  using assms by (clarsimp simp: mfa_only_defs)

lemma only_factor:
  assumes "mfa_only u V us w" and "distinct (map fa_id fs)" and "distinct (map factor_key fs)"
    and "fa_channel ` set fs \<subseteq> {''email'', ''sms''}" and "fa_user ` set fs \<subseteq> user_ids w"
    and "oc_factor ` set (otp_rows w) \<subseteq> fa_id ` set fs"
    and same: "\<And>v. v \<noteq> u \<Longrightarrow> filter (\<lambda>f. fa_user f = v) fs = filter (\<lambda>f. fa_user f = v) (factor_rows w)"
  shows "mfa_only u V us (w\<lparr>factor_rows := fs\<rparr>)"
proof -
  have "{f \<in> set fs. fa_user f = v} = {f \<in> set (factor_rows w). fa_user f = v}" if "v \<noteq> u" for v
    using arg_cong [OF same [OF that], of set] by simp
  moreover have us: "us = user_rows w" using assms(1) by (simp add: mfa_only_def)
  ultimately show ?thesis using assms unfolding mfa_only_defs us by simp
qed

lemma only_drop:
  assumes w: "mfa_only u V us w" and gone: "\<And>f. gone f \<Longrightarrow> fa_user f = u"
  shows "mfa_only u V us (drop_factors gone w)"
proof -
  let ?fs = "filter (\<lambda>f. \<not> gone f) (factor_rows w)" and ?ids = "fa_id ` set (filter gone (factor_rows w))"
  let ?cs = "filter (\<lambda>c. oc_factor c \<notin> ?ids) (otp_rows w)"
  have c: "filter (\<lambda>c. oc_factor c \<in> factors_of v w) ?cs = filter (\<lambda>c. oc_factor c \<in> factors_of v w) (otp_rows w)"
    if "v \<noteq> u" for v
  proof -
    have "?ids \<subseteq> factors_of u w" using gone by (auto simp: factors_of_def)
    with factors_disjoint [OF w that] show ?thesis by (intro filter_filter_other) blast
  qed
  have "oc_factor ` set ?cs \<subseteq> fa_id ` set (factor_rows w)" using mfa_only_rows(10) [OF w] by auto
  with c have w1: "mfa_only u V us (w\<lparr>otp_rows := ?cs\<rparr>)"
    using mfa_only_rows(9) [OF w] by (intro only_otp [OF w]) (auto intro: distinct_map_filter)
  have "oc_factor ` set ?cs \<subseteq> fa_id ` set ?fs"
  proof
    fix i assume "i \<in> oc_factor ` set ?cs"
    then have "i \<notin> ?ids" "i \<in> fa_id ` set (factor_rows w)" using mfa_only_rows(10) [OF w] by auto
    then show "i \<in> fa_id ` set ?fs" by auto
  qed
  moreover have "filter (\<lambda>f. fa_user f = v) ?fs = filter (\<lambda>f. fa_user f = v) (factor_rows w)" if "v \<noteq> u" for v
    using gone that by (intro filter_filter_other) auto
  moreover have "fa_channel ` set ?fs \<subseteq> {''email'', ''sms''}" "fa_user ` set ?fs \<subseteq> user_ids w"
    using mfa_only_rows(7,8) [OF w] by auto
  ultimately have "mfa_only u V us ((w\<lparr>otp_rows := ?cs\<rparr>)\<lparr>factor_rows := ?fs\<rparr>)"
    using mfa_only_rows(5,6) [OF w] by (intro only_factor [OF w1]) (simp_all add: distinct_map_filter user_ids_def)
  then show ?thesis unfolding drop_factors_def by simp
qed

section \<open>Statements\<close>

text \<open>Updates of rows of the user that keep the keys.\<close>

lemma only_totp_map:
  assumes w: "mfa_only u V us w" and "\<And>t. tt_user (f t) = tt_user t" and "\<And>t. tt_user t \<noteq> u \<Longrightarrow> f t = t"
  shows "mfa_only u V us (w\<lparr>totp_rows := map f (totp_rows w)\<rparr>)"
  using mfa_only_rows(1,2) [OF w] assms(2,3)
  by (intro only_totp [OF w] filter_map_other) (simp_all only: map_map_same image_map_same, auto)

lemma only_recovery_map:
  assumes w: "mfa_only u V us w" and "\<And>r. rc_user (f r) = rc_user r" and "\<And>r. rc_id (f r) = rc_id r"
    and "\<And>r. r \<in> set (recovery_rows w) \<Longrightarrow> rc_user r \<noteq> u \<Longrightarrow> f r = r"
  shows "mfa_only u V us (w\<lparr>recovery_rows := map f (recovery_rows w)\<rparr>)"
  using mfa_only_rows(3,4) [OF w] assms(2,3,4)
  by (intro only_recovery [OF w] filter_map_other) (simp_all only: map_map_same image_map_same, auto)

lemma only_verification_map:
  assumes w: "mfa_only u V us w" and "\<And>m. mv_user (f m) = mv_user m" and "\<And>m. mv_user m \<noteq> u \<Longrightarrow> f m = m"
  shows "mfa_only u V us (w\<lparr>verification_rows := map f (verification_rows w)\<rparr>)"
  using mfa_only_rows(11,12) [OF w] assms(2,3)
  by (intro only_verification [OF w] filter_map_other) (simp_all only: map_map_same image_map_same, auto)

lemma only_factor_map:
  assumes w: "mfa_only u V us w" and "\<And>g. factor_key (f g) = factor_key g" and "\<And>g. fa_id (f g) = fa_id g"
    and "\<And>g. g \<in> set (factor_rows w) \<Longrightarrow> fa_user g \<noteq> u \<Longrightarrow> f g = g"
  shows "mfa_only u V us (w\<lparr>factor_rows := map f (factor_rows w)\<rparr>)"
proof -
  have k: "fa_user (f g) = fa_user g" "fa_channel (f g) = fa_channel g" for g
    using assms(2) [of g] by (simp_all add: factor_key_def)
  show ?thesis
    using mfa_only_rows(5-8,10) [OF w] assms(2-4) k
    by (intro only_factor [OF w] filter_map_other) (simp_all only: map_map_same image_map_same, auto)
qed

lemma only_otp_map:
  assumes w: "mfa_only u V us w" and "\<And>c. oc_id (f c) = oc_id c" and "\<And>c. oc_factor (f c) = oc_factor c"
    and "\<And>c. c \<in> set (otp_rows w) \<Longrightarrow> oc_factor c \<notin> factors_of u w \<Longrightarrow> f c = c"
  shows "mfa_only u V us (w\<lparr>otp_rows := map f (otp_rows w)\<rparr>)"
proof (rule only_otp [OF w])
  show "distinct (map oc_id (map f (otp_rows w)))" "oc_factor ` set (map f (otp_rows w)) \<subseteq> fa_id ` set (factor_rows w)"
    using mfa_only_rows(9,10) [OF w] assms(2,3) by (simp_all only: map_map_same image_map_same)
  fix v assume v: "v \<noteq> u"
  from factors_disjoint [OF w v] show "filter (\<lambda>c. oc_factor c \<in> factors_of v w) (map f (otp_rows w)) = filter (\<lambda>c. oc_factor c \<in> factors_of v w) (otp_rows w)"
    using assms(3,4) by (intro filter_map_other) auto
qed

section \<open>Statements, one by one\<close>

lemma put_totp_only:
  assumes w: "mfa_only u V us w" and r: "put_totp u secret now w = Inr w'"
  shows "mfa_only u V us w'"
proof -
  have "mfa_only u V us (w\<lparr>totp_rows := totp_rows w @ [\<lparr>tt_user = u, tt_secret = secret, tt_confirmed = None, tt_created = now\<rparr>]\<rparr>)"
    if "totp_of u w = None" "user_exists u w"
    using that mfa_only_rows(1,2) [OF w]
    by (intro only_totp [OF w]) (auto simp: totp_of_def find_None_iff user_exists_ids)
  then show ?thesis using r by (auto simp: put_totp_def split: if_splits intro!: only_totp_map [OF w])
qed

lemma confirm_totp_only: "mfa_only u V us w \<Longrightarrow> mfa_only u V us (confirm_totp u now w)"
  unfolding confirm_totp_def by (rule only_totp_map) auto

lemma delete_totp_only: "mfa_only u V us w \<Longrightarrow> mfa_only u V us (delete_totp u w)"
  unfolding delete_totp_def using mfa_only_rows(1,2) [of u V us w]
  by (intro only_totp filter_filter_other) (auto intro: distinct_map_filter)

lemma put_recovery_only:
  assumes w: "mfa_only u V us w" and "rc_user r = u" and "put_recovery r w = Inr w'"
  shows "mfa_only u V us w'"
proof -
  have "mfa_only u V us (w\<lparr>recovery_rows := recovery_rows w @ [r]\<rparr>)"
    if "rc_id r \<notin> rc_id ` set (recovery_rows w)" "rc_user r \<in> user_ids w"
    using that mfa_only_rows(3,4) [OF w] assms(2) by (intro only_recovery [OF w]) auto
  then show ?thesis using assms(3) by (auto simp: put_recovery_def user_exists_ids split: if_splits)
qed

lemma delete_recovery_codes_only: "mfa_only u V us w \<Longrightarrow> mfa_only u V us (delete_recovery_codes u w)"
  unfolding delete_recovery_codes_def using mfa_only_rows(3,4) [of u V us w]
  by (intro only_recovery filter_filter_other) (auto intro: distinct_map_filter)

lemma same_id:
  assumes "distinct (map g xs)" and "x \<in> set xs" and "y \<in> set xs" and "g x = g y"
  shows "x = y"
  using assms by (auto simp: distinct_map dest: inj_onD)

lemma mark_recovery_used_only:
  assumes w: "mfa_only u V us w" and i: "r \<in> set (recovery_rows w)" "rc_id r = i" "rc_user r = u"
  shows "mfa_only u V us (mark_recovery_used i now w)"
proof -
  have "rc_id x \<noteq> i" if "x \<in> set (recovery_rows w)" "rc_user x \<noteq> u" for x
    using same_id [OF mfa_only_rows(3) [OF w] that(1) i(1)] i(2,3) that(2) by metis
  then have "(if rc_id x = i then x\<lparr>rc_used := Some now\<rparr> else x) = x" if "x \<in> set (recovery_rows w)" "rc_user x \<noteq> u" for x
    using that by simp
  then show ?thesis unfolding mark_recovery_used_def by (rule only_recovery_map [OF w, rotated 2]) simp_all
qed

lemma put_verification_only:
  assumes w: "mfa_only u V us w" and r: "put_verification u method now w = Inr w'"
  shows "mfa_only u V us w'"
proof -
  have "mfa_only u V us (w\<lparr>verification_rows := verification_rows w @ [\<lparr>mv_user = u, mv_method = method, mv_at = now\<rparr>]\<rparr>)"
    if "u \<notin> mv_user ` set (verification_rows w)" "user_exists u w"
    using that mfa_only_rows(11,12) [OF w] by (intro only_verification [OF w]) (auto simp: user_exists_ids)
  moreover have "mfa_only u V us (w\<lparr>verification_rows :=
      map (\<lambda>v. if mv_user v = u then v\<lparr>mv_method := method, mv_at := now\<rparr> else v) (verification_rows w)\<rparr>)"
    by (intro only_verification_map [OF w]) auto
  ultimately show ?thesis using r unfolding put_verification_def by (simp split: if_splits)
qed

lemma put_factor_only:
  assumes w: "mfa_only u V us w" and "fa_user f = u" and r: "put_factor f w = Inr (i, w')"
  shows "mfa_only u V us w' \<and> i \<in> factors_of u w'"
proof -
  let ?same = "\<lambda>g. fa_user g = fa_user f \<and> fa_channel g = fa_channel f \<and> fa_destination g = fa_destination f"
  let ?up = "\<lambda>h. if ?same h then h\<lparr>fa_verified := None\<rparr> else h"
  show ?thesis
  proof (cases "List.find ?same (factor_rows w)")
    case (Some g)
    then have g: "g \<in> set (factor_rows w)" "?same g" by (auto simp: find_Some_iff)
    from r Some have w': "i = fa_id g" "w' = w\<lparr>factor_rows := map ?up (factor_rows w)\<rparr>"
      by (auto simp: put_factor_def Let_def split: if_splits)
    have "mfa_only u V us w'"
      unfolding w' using assms(2) by (intro only_factor_map [OF w]) (auto simp: factor_key_def)
    moreover have "?up g \<in> {f \<in> set (factor_rows w'). fa_user f = u}"
      unfolding w'(2) using imageI [OF g(1), of ?up] g(2) assms(2) by simp
    then have "fa_id (?up g) \<in> factors_of u w'" unfolding factors_of_def by (rule imageI)
    then have "i \<in> factors_of u w'" unfolding w'(1) using g(2) by simp
    ultimately show ?thesis ..
  next
    case None
    with r have w': "i = fa_id f" "w' = w\<lparr>factor_rows := factor_rows w @ [f]\<rparr>" "fa_channel f \<in> {''email'', ''sms''}"
      "fa_id f \<notin> fa_id ` set (factor_rows w)" "fa_user f \<in> user_ids w"
      by (auto simp: put_factor_def Let_def user_exists_ids split: if_splits)
    have "factor_key f \<notin> factor_key ` set (factor_rows w)" using None by (auto simp: factor_key_def find_None_iff)
    then have "mfa_only u V us w'"
      unfolding w'(2) using w' mfa_only_rows(5-8,10) [OF w] assms(2) by (intro only_factor [OF w]) auto
    with w' assms(2) show ?thesis by (auto simp: factors_of_def)
  qed
qed

lemma mark_factor_verified_only:
  assumes w: "mfa_only u V us w" and i: "i \<in> factors_of u w"
  shows "mfa_only u V us (mark_factor_verified i now w)"
proof -
  from i obtain g where "g \<in> set (factor_rows w)" "fa_id g = i" "fa_user g = u" by (auto simp: factors_of_def)
  with same_id [OF mfa_only_rows(5) [OF w]] show ?thesis
    unfolding mark_factor_verified_def by (intro only_factor_map [OF w]) (auto simp: factor_key_def)
qed

lemma put_otp_code_only:
  assumes w: "mfa_only u V us w" and i: "oc_factor c \<in> factors_of u w" and r: "put_otp_code c w = Inr w'"
  shows "mfa_only u V us w' \<and> factors_of u w' = factors_of u w"
proof -
  from r have w': "w' = w\<lparr>otp_rows := otp_rows w @ [c]\<rparr>" "oc_id c \<notin> oc_id ` set (otp_rows w)"
    "oc_factor c \<in> fa_id ` set (factor_rows w)" by (auto simp: put_otp_code_def split: if_splits)
  have "oc_factor c \<notin> factors_of v w" if "v \<noteq> u" for v using factors_disjoint [OF w that] i by blast
  then show ?thesis
    unfolding w'(1) using w'(2,3) mfa_only_rows(9,10) [OF w]
    by (intro conjI only_otp [OF w]) (auto simp: factors_of_def)
qed

lemma mark_otp_code_used_only:
  assumes w: "mfa_only u V us w" and "c \<in> set (otp_rows w)" "oc_id c = i" "oc_factor c \<in> factors_of u w"
  shows "mfa_only u V us (mark_otp_code_used i now w)"
proof -
  have "oc_id x \<noteq> i" if "x \<in> set (otp_rows w)" "oc_factor x \<notin> factors_of u w" for x
    using same_id [OF mfa_only_rows(9) [OF w] that(1) assms(2)] assms(3,4) that(2) by metis
  then have "(if oc_id x = i then x\<lparr>oc_used := Some now\<rparr> else x) = x" if "x \<in> set (otp_rows w)" "oc_factor x \<notin> factors_of u w" for x
    using that by simp
  then show ?thesis unfolding mark_otp_code_used_def by (rule only_otp_map [OF w, rotated 2]) simp_all
qed

lemma delete_otp_factors_only: "mfa_only u V us w \<Longrightarrow> mfa_only u V us (delete_otp_factors u w)"
  unfolding delete_otp_factors_def by (erule only_drop)

lemma delete_otp_factor_row_only: "mfa_only u V us w \<Longrightarrow> mfa_only u V us (snd (delete_otp_factor_row i u w))"
  unfolding delete_otp_factor_row_def Let_def snd_conv by (erule only_drop) simp

end
