(* ===== verification/MfaOwn.thy ===== *)
theory MfaOwn imports MfaTables begin

text \<open>
  Every operation on second factors, whatever fails on the way, keeps the tables well-formed and leaves the part of
  every other user as it was.
\<close>

text \<open>What is asked of delivery and of the passkey component: they do not touch these tables.\<close>

definition mfa_same :: "'z mfa_db_scheme \<Rightarrow> 'z mfa_db_scheme \<Rightarrow> bool" where
  "mfa_same w w' \<longleftrightarrow> user_rows w' = user_rows w \<and> totp_rows w' = totp_rows w \<and> recovery_rows w' = recovery_rows w \<and>
     factor_rows w' = factor_rows w \<and> otp_rows w' = otp_rows w \<and> verification_rows w' = verification_rows w"

definition leaves_mfa :: "('z mfa_db_scheme, 'a) io \<Rightarrow> bool" where
  "leaves_mfa m \<longleftrightarrow> (\<forall>e w. mfa_same w (snd (snd (m e w))))"

definition mfa_collaborators_spare :: "'z mfa_db_scheme mfa_handler \<Rightarrow> bool" where
  "mfa_collaborators_spare h \<longleftrightarrow> (\<forall>c t s b. leaves_mfa (ms_send (mh_service h) c t s b)) \<and>
     (\<forall>f u sid cred. mh_webauthn h = Some f \<longrightarrow> leaves_mfa (wa_begin f u) \<and> leaves_mfa (wa_finish f u sid cred))"

lemma mfa_same_only: "mfa_same w w' \<Longrightarrow> mfa_only u V us w \<Longrightarrow> mfa_only u V us w'"
  unfolding mfa_same_def mfa_only_defs by (elim conjE) simp

lemma leaves_mfa_keeps: "leaves_mfa m \<Longrightarrow> (\<And>w w'. mfa_same w w' \<Longrightarrow> P w \<Longrightarrow> P w') \<Longrightarrow> keeps P m"
  by (rule keepsI) (metis leaves_mfa_def snd_conv)

lemma keeps_send:
  "mfa_collaborators_spare h \<Longrightarrow> (\<And>w w'. mfa_same w w' \<Longrightarrow> P w \<Longrightarrow> P w') \<Longrightarrow> keeps P (ms_send (mh_service h) c t s b)"
  by (auto simp: mfa_collaborators_spare_def intro: leaves_mfa_keeps)

lemma keeps_record: "(\<And>w rows. P w \<Longrightarrow> P (w\<lparr>audit_rows := rows\<rparr>)) \<Longrightarrow> keeps P (mfa_record h r u action meta)"
  unfolding mfa_record_def triple_keeps [symmetric] by (rule triple_record_audit)

lemma mfa_reads [intro, simp]:
  "reads (numeric_code x n)" "reads (hash_password x c)" "reads (totp_verify y secret code)" "reads (new_secret x)"
  "reads (recovery_status_of u)" "reads (is_enrolled u)" "reads (list_otp_factors u)" "reads (recently_verified u t)"
  by (auto simp: numeric_code_def hash_password_def totp_verify_def new_secret_def rand_read_def recovery_status_of_def
      is_enrolled_def list_otp_factors_def recently_verified_def split: option.splits prod.splits intro!: reads_bind)

section \<open>Operations\<close>

abbreviation (input) only_of :: "uuid \<Rightarrow> (uuid \<Rightarrow> mfa_part) \<Rightarrow> user_row list \<Rightarrow> ('z mfa_db_scheme, 'a) io \<Rightarrow> bool" where
  "only_of u V us m \<equiv> keeps (mfa_only u V us) m"

named_theorems mfa_keeps \<open>steps that keep what is asked\<close>

lemma keeps_steps [mfa_keeps]:
  "keeps P (ret a)" "keeps P (fail x)" "keeps P time_now" "keeps P uuid_new" "keeps P (db_read f)" "keeps P (lift_res r)"
  "keeps P (numeric_code y n)" "keeps P (hash_password y c)" "keeps P (totp_verify z secret code)" "keeps P (new_secret y)"
  "keeps P (recovery_status_of u)" "keeps P (is_enrolled u)" "keeps P (list_otp_factors u)" "keeps P (recently_verified u t)"
  by (intro keeps_reads; auto)+

lemma keeps_if [mfa_keeps]: "(c \<Longrightarrow> keeps P a) \<Longrightarrow> (\<not> c \<Longrightarrow> keeps P b) \<Longrightarrow> keeps P (if c then a else b)"
  by simp

lemma keeps_option [mfa_keeps]:
  "(r = None \<Longrightarrow> keeps P a) \<Longrightarrow> (\<And>y. r = Some y \<Longrightarrow> keeps P (b y)) \<Longrightarrow> keeps P (case r of None \<Rightarrow> a | Some y \<Rightarrow> b y)"
  by (cases r) simp_all

lemma keeps_pair [mfa_keeps]: "(\<And>a b. p = (a, b) \<Longrightarrow> keeps P (f a b)) \<Longrightarrow> keeps P (case p of (a, b) \<Rightarrow> f a b)"
  by (cases p) simp

lemmas [mfa_keeps] = keeps_bind keeps_in_tx

lemma only_statements [mfa_keeps]:
  "only_of u V us (db_exec (put_totp u secret now))" "only_of u V us (db_write (confirm_totp u now))"
  "only_of u V us (db_write (delete_totp u))" "only_of u V us (db_write (delete_recovery_codes u))"
  "only_of u V us (db_exec (put_verification u method now))" "only_of u V us (db_write (delete_otp_factors u))"
  by (rule keeps_db_exec, erule put_totp_only, assumption) (rule keeps_db_write, erule confirm_totp_only,
      rule keeps_db_write, erule delete_totp_only, rule keeps_db_write, erule delete_recovery_codes_only,
      rule keeps_db_exec, erule put_verification_only, assumption, rule keeps_db_write, erule delete_otp_factors_only)

lemma only_put_recovery [mfa_keeps]: "rc_user r = u \<Longrightarrow> only_of u V us (db_exec (put_recovery r))"
  by (rule keeps_db_exec, erule put_recovery_only)

lemma only_record_verification [mfa_keeps]: "only_of u V us (record_verification u method)"
  unfolding record_verification_def upsert_mfa_verification_def by (intro mfa_keeps)

lemma only_start_enroll: "only_of u V us (start_enroll s u account)"
  unfolding start_enroll_def upsert_mfa_totp_def by (intro mfa_keeps)

lemma only_mint_codes: "only_of u V us (mint_codes s u n)"
proof (induction n)
  case (Suc n)
  show ?case unfolding mint_codes.simps insert_mfa_recovery_code_def by (intro mfa_keeps Suc) simp
qed (simp add: mfa_keeps)

lemma only_mint [mfa_keeps]: "only_of u V us (mint_recovery_codes s u)"
  unfolding mint_recovery_codes_def by (intro mfa_keeps only_mint_codes)

lemma only_confirm_enroll: "only_of u V us (confirm_enroll s u code)"
  unfolding confirm_enroll_def by (intro mfa_keeps)

lemma only_regenerate: "only_of u V us (regenerate s u)"
  unfolding regenerate_def by (intro mfa_keeps)

lemma only_disable: "only_of u V us (disable_totp u)"
  unfolding disable_totp_def by (intro mfa_keeps)

lemma only_reset: "only_of u V us (reset_for_user u)"
  unfolding reset_for_user_def by (intro mfa_keeps)

lemma match_codes_found:
  "match_codes x code rs found = Inr (Some i) \<Longrightarrow>
   found = Some i \<or> (\<exists>r \<in> set rs. rc_id r = i \<and> password_verify x (rc_hash r) code = Inr True)"
  by (induction rs arbitrary: found) (force split: sum.splits if_splits)+

lemma only_verify_code: "only_of u V us (verify_code s u raw)"
proof -
  let ?I = "mfa_only u V us"
  let ?from = "\<lambda>rs w. ?I w \<and> set rs \<subseteq> set (recovery_rows w) \<and> (\<forall>r \<in> set rs. rc_user r = u)"
  have found: "triple (?from rs) (bind_io (lift_res (match_codes (ms_crypto s) code rs None)) (\<lambda>found.
      case found of None \<Rightarrow> fail (ApiErr (with_detail ErrUnauthorized ''invalid mfa code''))
        | Some i \<Rightarrow> bind_io time_now (\<lambda>now. then_io (db_write (mark_recovery_used i now)) (ret (Some i))))) (\<lambda>_. ?I) ?I"
    for rs code
  proof (rule triple_bind [where R = "\<lambda>found w. ?from rs w \<and> match_codes (ms_crypto s) code rs None = Inr found"])
    fix found
    show "triple (\<lambda>w. ?from rs w \<and> match_codes (ms_crypto s) code rs None = Inr found)
      (case found of None \<Rightarrow> fail (ApiErr (with_detail ErrUnauthorized ''invalid mfa code''))
        | Some i \<Rightarrow> bind_io time_now (\<lambda>now. then_io (db_write (mark_recovery_used i now)) (ret (Some i)))) (\<lambda>_. ?I) ?I"
    proof (cases found)
      case (Some i)
      show ?thesis
        unfolding Some option.case
      proof (rule triple_bind [where R = "\<lambda>_ w. ?from rs w \<and> match_codes (ms_crypto s) code rs None = Inr (Some i)"])
        fix now
        have "?I (mark_recovery_used i now w)" if w: "?from rs w \<and> match_codes (ms_crypto s) code rs None = Inr (Some i)" for w
        proof -
          from w obtain r where "r \<in> set rs" "rc_id r = i" using match_codes_found by blast
          with w show ?thesis by (intro mark_recovery_used_only [of _ _ _ _ r]) auto
        qed
        then show "triple (\<lambda>w. ?from rs w \<and> match_codes (ms_crypto s) code rs None = Inr (Some i))
            (then_io (db_write (mark_recovery_used i now)) (ret (Some i))) (\<lambda>_. ?I) ?I"
          by (intro triple_bind [where R = "\<lambda>_. ?I"] triple_db_write triple_ret) auto
      qed (rule triple_draws, auto)
    qed (auto intro: triple_fail)
  qed (rule triple_lift_res, auto)
  have "triple ?I (verify_code s u raw) (\<lambda>_. ?I) ?I"
    unfolding verify_code_def Let_def
  proof (rule triple_bind [where R = "\<lambda>_. ?I"])
    fix row show "triple ?I (case row of None \<Rightarrow> fail (bad_request ''mfa not configured'')
      | Some t \<Rightarrow> if tt_confirmed t = None then fail (bad_request ''mfa enrollment not confirmed'')
          else bind_io (totp_verify (ms_totp s) (tt_secret t) (trim_space raw)) (\<lambda>ok. if ok then ret None
            else bind_io (db_read (unused_recovery_codes u)) (\<lambda>rs.
              bind_io (lift_res (match_codes (ms_crypto s) (trim_space raw) rs None)) (\<lambda>found.
              case found of None \<Rightarrow> fail (ApiErr (with_detail ErrUnauthorized ''invalid mfa code''))
              | Some i \<Rightarrow> bind_io time_now (\<lambda>now. then_io (db_write (mark_recovery_used i now)) (ret (Some i))))))) (\<lambda>_. ?I) ?I"
      by (intro triple_option triple_if triple_fail triple_bind [where R = "\<lambda>_. ?I"] triple_ret
          triple_bind [OF triple_db_read found] triple_reads [OF mfa_reads(3)]) (auto simp: unused_recovery_codes_def)
  qed (rule triple_db_read, auto)
  then show ?thesis by (simp only: triple_keeps)
qed

lemma only_verify_for_login: "only_of u V us (verify_for_login s u code)"
  unfolding verify_for_login_def
  by (intro keeps_on_error mfa_keeps only_verify_code)

text \<open>Codes by message: the code goes to a channel of the user.\<close>

lemma triple_send_otp:
  assumes h: "mfa_collaborators_spare h"
  shows "triple (\<lambda>w. mfa_only u V us w \<and> i \<in> factors_of u w) (send_otp (mh_service h) i ch d)
    (\<lambda>_. mfa_only u V us) (mfa_only u V us)"
  (is "triple ?P _ _ ?I")
proof -
  have put: "triple ?P (insert_mfa_otp_code i hash t) (\<lambda>_. mfa_only u V us) (mfa_only u V us)" for hash t
    unfolding insert_mfa_otp_code_def
  proof (intro triple_bind [where R = "\<lambda>_. ?P"] triple_draws triple_db_exec)
    fix j now and w w' :: "'a mfa_db_scheme"
    assume w: "?P w" and "put_otp_code \<lparr>oc_id = j, oc_factor = i, oc_hash = hash, oc_expires = t, oc_used = None,
        oc_created = now\<rparr> w = Inr w'"
    from put_otp_code_only [OF _ _ this(2)] w show "mfa_only u V us w'" by simp
  qed auto
  have send: "triple ?I (ms_send (mh_service h) ch d s b) (\<lambda>_. ?I) ?I" for s b
    unfolding triple_keeps by (rule keeps_send [OF h]) (rule mfa_same_only)
  show ?thesis
    unfolding send_otp_def
    by (rule triple_bind [where R = "\<lambda>_. ?P"], rule triple_reads [OF mfa_reads(1)], assumption, blast,
        rule triple_bind [where R = "\<lambda>_. ?P"], rule triple_draws, assumption,
        rule triple_bind [OF put], rule send)
qed

lemma only_enroll_otp_start:
  assumes h: "mfa_collaborators_spare h"
  shows "only_of u V us (enroll_otp_start (mh_service h) u ch d)"
proof -
  let ?I = "mfa_only u V us"
  have "triple ?I (upsert_mfa_otp_factor u ch d) (\<lambda>i w. ?I w \<and> i \<in> factors_of u w) ?I" for ch d
    unfolding upsert_mfa_otp_factor_def
  proof (intro triple_bind [where R = "\<lambda>_. ?I"] triple_draws triple_db_call)
    fix j now a w w'
    assume w: "?I w" and "(case put_factor \<lparr>fa_id = j, fa_user = u, fa_channel = ch, fa_destination = d,
        fa_verified = None, fa_created = now\<rparr> w of Inl err \<Rightarrow> (Inl err, w) | Inr (j, w') \<Rightarrow> (Inr j, w')) = (Inr a, w')"
    then have "put_factor \<lparr>fa_id = j, fa_user = u, fa_channel = ch, fa_destination = d, fa_verified = None,
        fa_created = now\<rparr> w = Inr (a, w')" by (auto split: sum.splits prod.splits)
    from put_factor_only [OF w _ this] show "?I w' \<and> a \<in> factors_of u w'" by simp
  qed
  then have "triple ?I (enroll_otp_start (mh_service h) u ch d) (\<lambda>_. ?I) ?I"
    unfolding enroll_otp_start_def Let_def
    by (intro triple_if triple_fail triple_bind [where R = "\<lambda>i w. ?I w \<and> i \<in> factors_of u w"]
        triple_bind [OF triple_send_otp [OF h]] triple_ret)
  then show ?thesis by (simp only: triple_keeps)
qed

lemma only_challenge_otp:
  assumes h: "mfa_collaborators_spare h"
  shows "only_of u V us (challenge_otp (mh_service h) u i)"
proof -
  let ?I = "mfa_only u V us"
  have "triple ?I (challenge_otp (mh_service h) u i) (\<lambda>_. ?I) ?I"
    unfolding challenge_otp_def
  proof (rule triple_bind [where R = "\<lambda>row w. ?I w \<and> (row \<noteq> None \<longrightarrow> i \<in> factors_of u w)"])
    show "triple ?I (db_read (otp_factor_for_challenge i u)) (\<lambda>row w. ?I w \<and> (row \<noteq> None \<longrightarrow> i \<in> factors_of u w)) ?I"
      by (rule triple_db_read) (auto simp: otp_factor_for_challenge_def factors_of_def find_Some_iff)
    fix row
    show "triple (\<lambda>w. ?I w \<and> (row \<noteq> None \<longrightarrow> i \<in> factors_of u w)) (case row of None \<Rightarrow> fail (ApiErr ErrNotFound)
      | Some f \<Rightarrow> if fa_verified f = None then fail (bad_request ''factor not confirmed'')
          else send_otp (mh_service h) i (fa_channel f) (fa_destination f)) (\<lambda>_. ?I) ?I"
      by (intro triple_option triple_if triple_fail) (auto intro: triple_conseq [OF triple_send_otp [OF h]])
  qed
  then show ?thesis by (simp only: triple_keeps)
qed

lemma pending_code_in:
  "pending_code on hash now w = Some c \<Longrightarrow>
   c \<in> set (otp_rows w) \<and> oc_hash c = hash \<and> oc_used c = None \<and> oc_expires c > now \<and>
     (\<exists>f \<in> set (factor_rows w). fa_id f = oc_factor c \<and> on f)"
proof -
  let ?P = "\<lambda>c. oc_hash c = hash \<and> oc_used c = None \<and> oc_expires c > now \<and> (\<exists>f \<in> set (factor_rows w). fa_id f = oc_factor c \<and> on f)"
  assume p: "pending_code on hash now w = Some c"
  obtain c' cs where s: "sort_key (\<lambda>c. - oc_created c) (filter ?P (otp_rows w)) = c' # cs"
    using p by (cases "sort_key (\<lambda>c. - oc_created c) (filter ?P (otp_rows w))") (auto simp: pending_code_def)
  with p have "c = c'" by (simp add: pending_code_def)
  with s have "c \<in> set (sort_key (\<lambda>c. - oc_created c) (filter ?P (otp_rows w)))" by simp
  then show ?thesis unfolding set_sort set_filter by simp
qed

text \<open>The code a check found is one of the user's.\<close>

definition own_code :: "uuid \<Rightarrow> (uuid \<Rightarrow> mfa_part) \<Rightarrow> user_row list \<Rightarrow> uuid option \<Rightarrow> 'z mfa_db_scheme \<Rightarrow> bool" where
  "own_code u V us row w \<longleftrightarrow> mfa_only u V us w \<and>
     (\<forall>i. row = Some i \<longrightarrow> (\<exists>c \<in> set (otp_rows w). oc_id c = i \<and> oc_factor c \<in> factors_of u w))"

lemma own_code_mark: "own_code u V us (Some i) w \<Longrightarrow> mfa_only u V us (mark_otp_code_used i now w)"
  by (auto simp: own_code_def intro: mark_otp_code_used_only)

lemma own_code_found:
  assumes "mfa_only u V us w" and "\<And>f. on f \<Longrightarrow> fa_user f = u"
  shows "own_code u V us (map_option oc_id (pending_code on hash now w)) w"
proof (cases "pending_code on hash now w")
  case (Some c)
  from pending_code_in [OF this] assms(2) have "c \<in> set (otp_rows w)" "oc_factor c \<in> factors_of u w"
    by (auto simp: factors_of_def image_iff)
  with assms(1) Some show ?thesis by (auto simp: own_code_def)
qed (simp add: own_code_def assms(1))

lemma only_verify_otp: "only_of u V us (verify_otp s u code)"
proof -
  let ?I = "mfa_only u V us"
  have "triple ?I (verify_otp s u code) (\<lambda>_. ?I) ?I"
    unfolding verify_otp_def otp_code_for_verify_def
  proof (rule triple_bind [where R = "\<lambda>_. ?I"], rule triple_draws, assumption, rule triple_bind [where R = "own_code u V us"])
    fix now
    show "triple ?I (db_read (\<lambda>w. map_option oc_id (pending_code (\<lambda>f. fa_user f = u \<and> fa_verified f \<noteq> None)
        (codes_hash (ms_crypto s) (trim_space code)) now w))) (own_code u V us) ?I"
      by (rule triple_db_read, rule own_code_found, simp_all)
    fix row show "triple (own_code u V us row) (case row of None \<Rightarrow> ret False
        | Some i \<Rightarrow> bind_io time_now (\<lambda>now2. then_io (db_write (mark_otp_code_used i now2)) (ret True))) (\<lambda>_. ?I) ?I"
    proof (cases row)
      case None
      then show ?thesis by (auto simp: own_code_def intro: triple_ret)
    next
      case (Some i)
      have "triple (own_code u V us (Some i)) (db_write (mark_otp_code_used i now2)) (\<lambda>_. ?I) ?I" for now2
        by (rule triple_db_write, erule own_code_mark) (simp add: own_code_def)
      moreover have "triple ?I (ret True) (\<lambda>_. ?I) ?I" by (rule triple_ret)
      ultimately have mark: "triple (own_code u V us (Some i)) (then_io (db_write (mark_otp_code_used i now2)) (ret True)) (\<lambda>_. ?I) ?I"
        for now2 by (rule triple_bind)
      show ?thesis
        unfolding Some option.case
        by (rule triple_bind [where R = "\<lambda>_. own_code u V us (Some i)"], rule triple_draws, assumption, rule mark)
    qed
  qed
  then show ?thesis by (simp only: triple_keeps)
qed

lemma only_enroll_otp_confirm: "only_of u V us (enroll_otp_confirm s u factor code)"
proof -
  let ?I = "mfa_only u V us" and ?on = "\<lambda>f. fa_id f = factor \<and> fa_user f = u"
  let ?R = "\<lambda>row w. own_code u V us row w \<and> (row \<noteq> None \<longrightarrow> factor \<in> factors_of u w)"
  have mark: "?I (mark_otp_code_used i now w) \<and> factor \<in> factors_of u (mark_otp_code_used i now w)" if "?R (Some i) w" for i now w
    using that own_code_mark [of u V us i w now] by (simp add: factors_of_def mark_otp_code_used_def)
  have "triple ?I (enroll_otp_confirm s u factor code) (\<lambda>_. ?I) ?I"
    unfolding enroll_otp_confirm_def otp_code_for_confirm_def
  proof (rule triple_bind [where R = "\<lambda>_. ?I"], rule triple_draws, assumption, rule triple_bind [where R = ?R])
    fix now
    have "?R (map_option oc_id (pending_code ?on hash now w)) w" if "?I w" for hash w
      using own_code_found [OF that, of ?on hash now] pending_code_in [of ?on hash now w]
      by (auto simp: factors_of_def image_iff)
    then show "triple ?I (db_read (\<lambda>w. map_option oc_id (pending_code ?on (codes_hash (ms_crypto s) (trim_space code)) now w))) ?R ?I"
      by (rule triple_db_read)
    fix row show "triple (?R row) (case row of None \<Rightarrow> fail (bad_request ''invalid or expired code'')
      | Some i \<Rightarrow> bind_io time_now (\<lambda>now2. then_io (db_write (mark_otp_code_used i now2))
         (bind_io time_now (\<lambda>now3. db_write (mark_factor_verified factor now3))))) (\<lambda>_. ?I) ?I"
    proof (cases row)
      case None
      then show ?thesis by (auto simp: own_code_def intro: triple_fail)
    next
      case (Some i)
      show ?thesis
        unfolding Some option.case
      proof (rule triple_bind [where R = "\<lambda>_. ?R (Some i)"], rule triple_draws, assumption)
        fix now2
        have "triple (?R (Some i)) (db_write (mark_otp_code_used i now2)) (\<lambda>_ w. ?I w \<and> factor \<in> factors_of u w) ?I"
          by (rule triple_db_write, erule mark) (simp add: own_code_def)
        moreover have "triple (\<lambda>w. ?I w \<and> factor \<in> factors_of u w)
            (bind_io time_now (\<lambda>now3. db_write (mark_factor_verified factor now3))) (\<lambda>_. ?I) ?I"
          by (rule triple_bind [where R = "\<lambda>_ w. ?I w \<and> factor \<in> factors_of u w"], rule triple_draws, assumption,
              rule triple_db_write, elim conjE, erule mark_factor_verified_only, assumption, elim conjE, assumption)
        ultimately show "triple (?R (Some i)) (then_io (db_write (mark_otp_code_used i now2))
            (bind_io time_now (\<lambda>now3. db_write (mark_factor_verified factor now3)))) (\<lambda>_. ?I) ?I"
          by (rule triple_bind)
      qed
    qed
  qed
  then show ?thesis by (simp only: triple_keeps)
qed

lemma only_delete_otp_factor: "only_of u V us (delete_otp_factor u factor)"
  unfolding delete_otp_factor_def
proof (intro mfa_keeps keeps_db_call)
  fix w n w' assume "mfa_only u V us w" and "(let (n, w') = delete_otp_factor_row factor u w in (Inr n, w')) = (Inr n, w')"
  then show "mfa_only u V us w'" using delete_otp_factor_row_only [of u V us w factor] by (auto simp: split_beta)
qed

section \<open>Requests\<close>

lemma only_mfa_record [mfa_keeps]: "only_of u V us (mfa_record h r u' action meta)"
  by (rule keeps_record) (simp add: mfa_only_audit)

lemma only_recent [mfa_keeps]: "keeps P m \<Longrightarrow> keeps P (require_recent_mfa window r m)"
  unfolding require_recent_mfa_def by (intro mfa_keeps)

lemma only_webauthn [mfa_keeps]:
  assumes "mfa_collaborators_spare h" and "mh_webauthn h = Some f"
  shows "only_of u V us (wa_begin f v)" "only_of u V us (wa_finish f v sid cred)"
  using assms by (auto simp: mfa_collaborators_spare_def intro: leaves_mfa_keeps mfa_same_only)

lemma keeps_require: "(\<And>u. x = Inr u \<Longrightarrow> keeps P (f u)) \<Longrightarrow> keeps P (bind_io (lift_res x) f)"
  by (cases x) (auto simp: lift_res_def bind_io_def ret_def fail_def keeps_def)

lemmas serve_defs = mfa_serve_def start_enroll_handler_def confirm_enroll_handler_def verify_handler_def disable_handler_def
  recovery_status_handler_def regenerate_handler_def list_otp_factors_handler_def enroll_otp_start_handler_def
  enroll_otp_confirm_handler_def challenge_otp_handler_def delete_otp_factor_handler_def verify_otp_handler_def
  webauthn_challenge_handler_def webauthn_verify_handler_def step_up_status_handler_def

lemma bind_lift_Inr: "bind_io (lift_res (Inr u)) f = f u"
  by (simp add: fun_eq_iff lift_res_def bind_io_def ret_def)

lemma only_served:
  assumes h: "mfa_collaborators_spare h" and u: "require_user r = Inr u"
  shows "only_of u V us (mfa_serve h pu r c)"
  by (cases c) (simp_all only: serve_defs mfa_call.case u bind_lift_Inr, (intro mfa_keeps only_start_enroll only_confirm_enroll only_verify_code only_disable only_regenerate
        only_enroll_otp_start [OF h] only_enroll_otp_confirm only_challenge_otp [OF h] only_delete_otp_factor only_verify_otp
        only_webauthn [OF h]; assumption?)+)

end
