(* ===== verification/TotpProps.thy ===== *)
theory TotpProps imports Totp begin

text \<open>
  What a time-based code is: secrets survive their encoding, the word arithmetic computes the truncation of RFC 4226,
  and a code is accepted exactly in its window and the two next to it.
\<close>

section \<open>Secrets\<close>

lemma b32_digits_bound: "\<forall>b \<in> set bs. b < 256 \<Longrightarrow> \<forall>d \<in> set (b32_digits bs). d < 32"
proof (induction bs rule: b32_digits.induct)
  case (6 a b c d e bs)
  then have "a div 8 < 32" "b div 64 < 4" "c div 16 < 16" "d div 128 < 2" "e div 32 < 8" by auto
  moreover have "a mod 8 < 8" "b mod 2 < 2" "c mod 16 < 16" "d mod 4 < 4" by auto
  ultimately show ?case using 6 by auto
next
  case (2 a)
  then have "a div 8 < 32" "a mod 8 < 8" by auto
  then show ?case by auto
next
  case (3 a b)
  then have "a div 8 < 32" "a mod 8 < 8" "b div 64 < 4" "b mod 2 < 2" by auto
  then show ?case by auto
next
  case (4 a b c)
  then have "a div 8 < 32" "a mod 8 < 8" "b div 64 < 4" "b mod 2 < 2" "c div 16 < 16" "c mod 16 < 16" by auto
  then show ?case by auto
next
  case (5 a b c d)
  then have "a div 8 < 32" "a mod 8 < 8" "b div 64 < 4" "b mod 2 < 2" "c div 16 < 16" "c mod 16 < 16"
    "d div 128 < 2" "d mod 4 < 4" by auto
  then show ?case by auto
qed simp

lemma split_bits:
  fixes b :: nat
  assumes "b < 256"
  shows "b div 64 div 4 = 0" "b div 64 mod 4 = b div 64" "b div 16 div 16 = 0" "b div 16 mod 16 = b div 16"
    "b div 128 div 2 = 0" "b div 128 mod 2 = b div 128" "b div 32 div 8 = 0" "b div 32 mod 8 = b div 32"
  using assms by (simp_all add: less_mult_imp_div_less)

lemma join_bits:
  fixes b :: nat
  shows "b div 64 * 64 + b div 2 mod 32 * 2 + b mod 2 = b" and "b div 128 * 128 + b div 4 mod 32 * 4 + b mod 4 = b"
proof -
  have "b div 2 div 32 * 32 + b div 2 mod 32 = b div 2" "b div 4 div 32 * 32 + b div 4 mod 32 = b div 4"
    by (rule div_mult_mod_eq)+
  then have "b div 64 * 32 + b div 2 mod 32 = b div 2" "b div 128 * 32 + b div 4 mod 32 = b div 4"
    by (simp_all add: div_mult2_eq [symmetric])
  moreover have "b div 2 * 2 + b mod 2 = b" "b div 4 * 4 + b mod 4 = b" by (rule div_mult_mod_eq)+
  ultimately show "b div 64 * 64 + b div 2 mod 32 * 2 + b mod 2 = b" "b div 128 * 128 + b div 4 mod 32 * 4 + b mod 4 = b"
    by linarith+
qed

lemma b32_bytes_digits: "\<forall>b \<in> set bs. b < 256 \<Longrightarrow> b32_bytes (b32_digits bs) = bs"
  by (induction bs rule: b32_digits.induct) (simp_all add: split_bits join_bits)

lemma b32_alphabet: "length b32_std = 32" "distinct b32_std" "CHR 0x0D \<notin> set b32_std" "CHR 0x0A \<notin> set b32_std"
  "\<forall>c \<in> set b32_std. of_char c < (128::nat) \<and> \<not> (97 \<le> (of_char c :: nat) \<and> (of_char c :: nat) \<le> 122)"
  by (simp_all add: b32_std_def)

lemma b32_encode_mem: "c \<in> set (b32_encode s) \<Longrightarrow> c \<in> set b32_std"
  using b32_digits_bound [of "map of_char s"] b32_alphabet(1) by (auto simp: b32_encode_def)

lemma b32_decode_encode: "b32_decode (b32_encode s) = Some s"
proof -
  let ?ds = "b32_digits (map of_char s)"
  have b: "\<forall>d \<in> set ?ds. d < 32" by (rule b32_digits_bound) auto
  have "filter (\<lambda>c. c \<notin> {CHR 0x0D, CHR 0x0A}) (b32_encode s) = b32_encode s"
    using b32_encode_mem [of _ s] b32_alphabet(3,4) by (auto intro!: filter_True)
  moreover have "first_index ((=) (b32_std ! d)) b32_std = Some d" if "d < 32" for d
    using that b32_alphabet(1,2) by (auto simp: first_index_Some nth_eq_iff_index_eq)
  then have "those (map (\<lambda>c. first_index ((=) c) b32_std) (b32_encode s)) = Some ?ds"
    using b those_map_Some [of ?ds "\<lambda>d. first_index ((=) (b32_std ! d)) b32_std" "\<lambda>d. d"]
    by (simp add: b32_encode_def comp_def)
  moreover have "b32_bytes ?ds = map of_char s" by (rule b32_bytes_digits) auto
  ultimately show ?thesis by (simp add: b32_decode_def comp_def)
qed

lemma to_upper_secret: "to_upper x (b32_encode s) = b32_encode s"
proof -
  have ok: "of_char c < (128::nat) \<and> \<not> (97 \<le> (of_char c :: nat) \<and> (of_char c :: nat) \<le> 122)"
    if "c \<in> set (b32_encode s)" for c using b32_encode_mem [OF that] b32_alphabet(5) by blast
  then have "ascii_upper (b32_encode s) = b32_encode s"
    unfolding ascii_upper_def by (intro map_idI) (auto simp: Let_def)
  with ok show ?thesis by (auto simp: to_upper_def)
qed

section \<open>The code of a counter\<close>

text \<open>RFC 4226 on numbers.\<close>

definition rfc_truncate :: "string \<Rightarrow> nat" where
  "rfc_truncate s =
     (let o' = of_char (s ! (length s - 1)) mod 16; b = (\<lambda>i. of_char (s ! (o' + i)) :: nat) in
      b 0 mod 128 * 2 ^ 24 + b 1 * 2 ^ 16 + b 2 * 2 ^ 8 + b 3)"

definition rfc_code :: "totp_ext \<Rightarrow> string \<Rightarrow> 64 word \<Rightarrow> string" where
  "rfc_code x key c = zero_pad 6 (nat_digits (rfc_truncate (mx_hmac_sha1 x key (put_uint64 c)) mod 10 ^ 6))"

lemma unat_digest_byte [simp]: "unat (digest_byte s i) = of_char (s ! i)"
proof -
  have "of_char (s ! i) < (256::nat)" by simp
  then have "of_char (s ! i) < (2 ^ LENGTH(32) :: nat)" by (rule less_le_trans) simp
  then show ?thesis unfolding digest_byte_def by (simp add: unat_of_nat take_bit_nat_eq_self)
qed

lemma or_below:
  fixes a b :: "32 word"
  assumes b: "unat b < 2 ^ n" and a: "unat a < 2 ^ (32 - n)" and n: "n < 32"
  shows "unat (push_bit n a OR b) = unat a * 2 ^ n + unat b"
proof -
  have "unat (take_bit n b) = unat b" using b n by (simp add: unsigned_take_bit_eq take_bit_nat_eq_self)
  then have "take_bit n b = b" by (rule unsigned_word_eqI)
  then have nb: "\<not> bit b k" if "n \<le> k" for k using that by (metis bit_take_bit_iff not_le)
  have or: "push_bit n a + b = push_bit n a OR b"
    by (rule disjunctive_add) (use nb in \<open>auto simp: bit_push_bit_iff\<close>)
  have "(unat a + 1) * 2 ^ n \<le> 2 ^ (32 - n) * 2 ^ n" using a by (intro mult_right_mono) auto
  also have "(2::nat) ^ (32 - n) * 2 ^ n = 2 ^ 32" using n by (simp flip: power_add)
  finally have sum: "unat a * 2 ^ n + unat b < 2 ^ 32" using b by (simp add: algebra_simps)
  have "unat (push_bit n a) = take_bit 32 (unat a * 2 ^ n)"
    unfolding unsigned_push_bit_eq by (simp add: push_bit_eq_mult [of n "unat a"])
  also have "\<dots> = unat a * 2 ^ n" using sum by (intro take_bit_nat_eq_self) simp
  finally have "unat (push_bit n a) = unat a * 2 ^ n" .
  moreover have "unat (push_bit n a + b) = unat (push_bit n a) + unat b"
    using sum calculation by (intro unat_add_lem [THEN iffD1]) simp
  ultimately show ?thesis using or by simp
qed

lemma truncate_digest_rfc: "unat (truncate_digest s) = rfc_truncate s"
proof -
  define o' where "o' = (of_char (s ! (length s - 1)) mod 16 :: nat)"
  define b where "b i = (of_char (s ! (o' + i)) :: nat)" for i
  have bound: "b i < 256" for i by (simp add: b_def)
  have off: "unat (digest_byte s (length s - 1) AND 0x0f) = o'"
  proof -
    have "digest_byte s (length s - 1) AND 0x0f = take_bit 4 (digest_byte s (length s - 1))"
      by (simp add: take_bit_eq_mask mask_numeral)
    then show ?thesis by (simp add: unsigned_take_bit_eq take_bit_eq_mod unat_mod o'_def)
  qed
  define d where "d i = digest_byte s (o' + i)" for i
  have u: "unat (d i) = b i" for i by (simp add: b_def d_def)
  have top: "unat (d 0 AND 0x7f) = b 0 mod 128"
  proof -
    have "d 0 AND 0x7f = take_bit 7 (d 0)" by (simp add: take_bit_eq_mask mask_numeral)
    then show ?thesis by (simp add: unsigned_take_bit_eq take_bit_eq_mod unat_mod u)
  qed
  have "b 0 mod 128 < 128" by simp
  have s1: "unat (push_bit 8 (d 2) OR d 3) = b 2 * 2 ^ 8 + b 3"
    using or_below [of "d 3" 8 "d 2"] u bound [of 2] bound [of 3] by simp
  have s2: "unat (push_bit 16 (d 1) OR (push_bit 8 (d 2) OR d 3)) = b 1 * 2 ^ 16 + (b 2 * 2 ^ 8 + b 3)"
    using or_below [of "push_bit 8 (d 2) OR d 3" 16 "d 1"] s1 u bound [of 1] bound [of 2] bound [of 3] by simp
  have s3: "unat (push_bit 24 (d 0 AND 0x7f) OR (push_bit 16 (d 1) OR (push_bit 8 (d 2) OR d 3))) =
      b 0 mod 128 * 2 ^ 24 + (b 1 * 2 ^ 16 + (b 2 * 2 ^ 8 + b 3))"
    using or_below [of "push_bit 16 (d 1) OR (push_bit 8 (d 2) OR d 3)" 24 "d 0 AND 0x7f"]
      s2 top \<open>b 0 mod 128 < 128\<close> bound [of 1] bound [of 2] bound [of 3] by simp
  have "truncate_digest s = push_bit 24 (d 0 AND 0x7f) OR (push_bit 16 (d 1) OR (push_bit 8 (d 2) OR d 3))"
    unfolding truncate_digest_def Let_def off d_def by (simp only: or.assoc add_0_right)
  then show ?thesis
    unfolding rfc_truncate_def o'_def [symmetric] Let_def b_def [symmetric] using s3 by simp
qed

lemma power_loop_6: "power_loop 6 (1 :: 32 word) = 1000000"
  by (simp add: eval_nat_numeral)

lemma totp_code_rfc: "totp_code x (b32_encode key) t = Some (rfc_code x key (totp_counter t))"
  by (simp add: totp_code_def to_upper_secret b32_decode_encode rfc_code_def totp_digits_def power_loop_6
      unat_mod truncate_digest_rfc)

section \<open>Comparing\<close>

lemma go_byte_inject: "go_byte a = go_byte b \<longleftrightarrow> a = b"
proof
  assume "go_byte a = go_byte b"
  then have "unat (go_byte a) = unat (go_byte b)" by simp
  then have "(of_char a :: nat) = of_char b" by (simp add: go_byte_def unat_of_nat)
  then show "a = b" by simp
qed simp

lemma xor_zero: "a XOR b = 0 \<longleftrightarrow> a = b" for a b :: "8 word"
proof
  assume "a XOR b = 0"
  then have "(a XOR b) XOR b = b" by simp
  then show "a = b" by (simp add: ac_simps)
qed simp

lemma fold_xor_zero:
  "fold (\<lambda>(p, q) acc. acc OR (go_byte p XOR go_byte q)) ps acc = 0 \<longleftrightarrow> acc = 0 \<and> (\<forall>(p, q) \<in> set ps. p = q)"
proof (induction ps arbitrary: acc)
  case (Cons pq ps)
  obtain p q where "pq = (p, q)" by force
  then show ?case using Cons [of "acc OR (go_byte p XOR go_byte q)"] by (auto simp: or_eq_0_iff xor_zero go_byte_inject)
qed simp

lemma hmac_equal_iff: "hmac_equal a b \<longleftrightarrow> a = b"
  unfolding hmac_equal_def fold_xor_zero by (auto simp: list_eq_iff_zip_eq)

section \<open>Decimal codes\<close>

lemma length_nat_digits: "0 < k \<Longrightarrow> n < 10 ^ k \<Longrightarrow> length (nat_digits n) \<le> k"
proof (induction n arbitrary: k rule: nat_digits.induct)
  case (1 n)
  show ?case
  proof (cases "n < 10")
    case True
    with 1 show ?thesis by (subst nat_digits.simps) simp
  next
    case False
    with "1.prems" obtain j where k: "k = Suc j" "0 < j" by (cases k; cases "k - 1") auto
    with "1.prems" have "n div 10 < 10 ^ j" by (simp add: less_mult_imp_div_less mult.commute)
    with "1.IH" [OF False k(2)] False k show ?thesis by (subst nat_digits.simps) simp
  qed
qed

lemma digit_char_digit: "digit_char n \<in> set ''0123456789''"
  unfolding digit_char_def by (rule nth_mem) simp

lemma digits_of_nat: "set (nat_digits n) \<subseteq> set ''0123456789''"
proof (induction n rule: nat_digits.induct)
  case (1 n)
  have "set [digit_char n] \<subseteq> set ''0123456789''" using digit_char_digit [of n] by (simp only: list.set empty_subsetI insert_subset simp_thms)
  with 1 show ?case by (subst nat_digits.simps) (simp only: set_append Un_subset_iff split: if_splits, blast)
qed

definition decimal_code :: "nat \<Rightarrow> string \<Rightarrow> bool" where
  "decimal_code k s \<longleftrightarrow> length s = k \<and> set s \<subseteq> set ''0123456789''"

lemma decimal_zero_pad: "0 < k \<Longrightarrow> n < 10 ^ k \<Longrightarrow> decimal_code k (zero_pad k (nat_digits n))"
  using length_nat_digits [of k n] digits_of_nat [of n]
  by (auto simp: decimal_code_def zero_pad_def set_replicate_conv_if)

lemma rfc_code_decimal: "decimal_code 6 (rfc_code x key c)"
  unfolding rfc_code_def by (rule decimal_zero_pad) simp_all

section \<open>Windows\<close>

definition window_of :: "time \<Rightarrow> nat" where
  "window_of t = nat (t div 1000000 div 30)"

lemma totp_counter_window: "0 \<le> t \<Longrightarrow> totp_counter t = of_nat (window_of t)"
  by (simp add: totp_counter_def totp_period_def window_of_def Let_def)

lemma window_next:
  assumes "30000000 \<le> t"
  shows "window_of (t + 30000000) = Suc (window_of t)" and "Suc (window_of (t - 30000000)) = window_of t"
proof -
  have d: "(t + 30000000) div 1000000 div 30 = t div 1000000 div 30 + 1" for t :: int
    using div_mult_self1 [of 1000000 t 30] div_mult_self1 [of 30 "t div 1000000" 1] by (simp add: ac_simps)
  have n: "0 \<le> t div 1000000 div 30" "0 \<le> (t - 30000000) div 1000000 div 30" using assms by simp_all
  show "window_of (t + 30000000) = Suc (window_of t)" 
    unfolding window_of_def d Suc_nat_eq_nat_zadd1 [OF n(1)] by (simp only: ac_simps)
  show "Suc (window_of (t - 30000000)) = window_of t" 
    unfolding window_of_def Suc_nat_eq_nat_zadd1 [OF n(2)] using d [of "t - 30000000"] by (simp add: ac_simps)
qed

lemma totp_verify_at_rfc:
  assumes "30000000 \<le> now"
  shows "totp_verify_at x (b32_encode key) code now \<longleftrightarrow>
     (\<exists>c. window_of now \<le> c + 1 \<and> c \<le> window_of now + 1 \<and> code = rfc_code x key (of_nat c))"
proof -
  let ?n = "window_of now"
  have c: "totp_code x (b32_encode key) now = Some (rfc_code x key (of_nat ?n))"
    "totp_code x (b32_encode key) (now - 30000000) = Some (rfc_code x key (of_nat (?n - 1)))"
    "totp_code x (b32_encode key) (now + 30000000) = Some (rfc_code x key (of_nat (?n + 1)))"
  proof -
    have "window_of (now - 30000000) = ?n - 1" "window_of (now + 30000000) = ?n + 1" using window_next [OF assms] by simp_all
    with assms show "totp_code x (b32_encode key) now = Some (rfc_code x key (of_nat ?n))"
      "totp_code x (b32_encode key) (now - 30000000) = Some (rfc_code x key (of_nat (?n - 1)))"
      "totp_code x (b32_encode key) (now + 30000000) = Some (rfc_code x key (of_nat (?n + 1)))"
      by (simp_all only: totp_code_rfc totp_counter_window)
  qed
  have "totp_verify_at x (b32_encode key) code now \<longleftrightarrow> code = rfc_code x key (of_nat ?n) \<or>
      code = rfc_code x key (of_nat (?n - 1)) \<or> code = rfc_code x key (of_nat (?n + 1))"
    unfolding totp_verify_at_def totp_period_def using c by (auto simp: hmac_equal_iff)
  moreover have "0 < ?n" using window_next(2) [OF assms] by simp
  then have "?n \<le> c + 1 \<and> c \<le> ?n + 1 \<longleftrightarrow> c = ?n \<or> c = ?n - 1 \<or> c = ?n + 1" for c by auto
  then have "(\<exists>c. ?n \<le> c + 1 \<and> c \<le> ?n + 1 \<and> code = rfc_code x key (of_nat c)) \<longleftrightarrow> code = rfc_code x key (of_nat ?n) \<or>
      code = rfc_code x key (of_nat (?n - 1)) \<or> code = rfc_code x key (of_nat (?n + 1))"
    by (simp only: conj_assoc [symmetric]) blast
  ultimately show ?thesis by simp
qed

end
