(* ===== verification/MfaProps.thy ===== *)
theory MfaProps imports MfaOwn TotpProps SignInSafety begin

text \<open>
  Properties of the second factors: whose rows a request touches, what a code that is accepted proves, what opens the
  step-up window, and that a code works once.
\<close>

section \<open>Whose rows\<close>

lemma mfa_only_start: "mfa_ok w \<Longrightarrow> mfa_only u (\<lambda>v. mfa_part_of v w) (user_rows w) w"
  by (simp add: mfa_only_def)

lemma bind_lift_Inl: "bind_io (lift_res (Inl x)) f = fail x"
  by (simp add: fun_eq_iff lift_res_def bind_io_def fail_def)

lemma serve_own:
  assumes h: "mfa_collaborators_spare h" and "mfa_ok w" and run: "mfa_serve h pu r c e w = (res, e', w')"
  shows "mfa_ok w' \<and> user_rows w' = user_rows w \<and> (\<forall>v. require_user r \<noteq> Inr v \<longrightarrow> mfa_part_of v w' = mfa_part_of v w)"
proof (cases "require_user r")
  case (Inr u)
  from keepsD [OF only_served [OF h this] mfa_only_start [OF assms(2)] run] Inr show ?thesis
    by (auto simp: mfa_only_def)
next
  case (Inl x)
  then have "mfa_serve h pu r c = fail x"
    by (cases c) (simp_all only: serve_defs require_recent_mfa_def mfa_call.case bind_lift_Inl)
  with run have "w' = w" by (simp add: fail_def)
  with assms(2) show ?thesis by simp
qed

section \<open>What a code proves\<close>

text \<open>The code of the authenticator at a time, or an unused recovery code that the new state has as used.\<close>

definition code_accepted ::
  "'z mfa_db_scheme mfa_service \<Rightarrow> uuid \<Rightarrow> string \<Rightarrow> time \<Rightarrow> 'z mfa_db_scheme \<Rightarrow> 'z mfa_db_scheme \<Rightarrow> bool" where
  "code_accepted s u raw now w w' \<longleftrightarrow>
     (\<exists>t. totp_of u w = Some t \<and> tt_confirmed t \<noteq> None \<and>
        (totp_verify_at (ms_totp s) (tt_secret t) (trim_space raw) now \<or>
         (\<exists>r \<in> set (recovery_rows w). rc_user r = u \<and> rc_used r = None \<and>
            password_verify (ms_crypto s) (rc_hash r) (trim_space raw) = Inr True \<and>
            (\<forall>r' \<in> set (recovery_rows w'). rc_id r' = rc_id r \<longrightarrow> rc_used r' \<noteq> None))))"

definition after_code :: "uuid option \<Rightarrow> 'z mfa_db_scheme \<Rightarrow> 'z mfa_db_scheme \<Rightarrow> bool" where
  "after_code found w w' \<longleftrightarrow> (case found of None \<Rightarrow> w' = w | Some i \<Rightarrow> \<exists>now. w' = mark_recovery_used i now w)"

lemma verify_code_ok:
  assumes run: "verify_code s u raw e w = (Inr found, e', w')"
  obtains t where "totp_of u w = Some t" and "tt_confirmed t \<noteq> None" and "after_code found w w'"
    and "found = None \<Longrightarrow> totp_verify_at (ms_totp s) (tt_secret t) (trim_space raw) (e_clock e (e_ticks e))"
    and "\<And>i. found = Some i \<Longrightarrow> \<exists>r \<in> set (recovery_rows w). rc_id r = i \<and> rc_user r = u \<and> rc_used r = None \<and>
      password_verify (ms_crypto s) (rc_hash r) (trim_space raw) = Inr True"
proof -
  from run obtain t where t: "totp_of u w = Some t" "tt_confirmed t \<noteq> None"
    by (auto simp: verify_code_def Let_def bind_ok db_read_ok fail_ok split: option.splits if_splits)
  let ?e1 = "e\<lparr>e_calls := Suc (e_calls e)\<rparr>"
  from run t obtain ok e1 where ok: "ok = totp_verify_at (ms_totp s) (tt_secret t) (trim_space raw) (e_clock e (e_ticks e))"
    and rest: "(if ok then ret None else
        bind_io (db_read (unused_recovery_codes u)) (\<lambda>rs.
        bind_io (lift_res (match_codes (ms_crypto s) (trim_space raw) rs None)) (\<lambda>found.
        case found of None \<Rightarrow> fail (ApiErr (with_detail ErrUnauthorized ''invalid mfa code''))
        | Some i \<Rightarrow> bind_io time_now (\<lambda>now. then_io (db_write (mark_recovery_used i now)) (ret (Some i)))))) e1 w = (Inr found, e', w')"
    by (auto simp: verify_code_def Let_def bind_ok db_read_ok totp_verify_def time_now_ok ret_ok)
  show thesis
  proof (cases ok)
    case True
    with rest have "found = None" "w' = w" by (simp_all add: ret_ok)
    with True ok t that show thesis by (simp add: after_code_def)
  next
    case False
    with rest obtain f where m: "match_codes (ms_crypto s) (trim_space raw) (unused_recovery_codes u w) None = Inr f"
      and f: "\<exists>e2. (case f of None \<Rightarrow> fail (ApiErr (with_detail ErrUnauthorized ''invalid mfa code''))
        | Some i \<Rightarrow> bind_io time_now (\<lambda>now. then_io (db_write (mark_recovery_used i now)) (ret (Some i)))) e2 w = (Inr found, e', w')"
      by (auto simp: bind_ok db_read_ok lift_res_ok)
    from f obtain i now where i: "f = Some i" "found = Some i" "w' = mark_recovery_used i now w"
      by (cases f) (auto simp: bind_ok fail_ok time_now_ok db_write_ok ret_ok)
    with match_codes_found [OF m [unfolded i(1)]] have "\<exists>r \<in> set (recovery_rows w). rc_id r = i \<and> rc_user r = u \<and>
        rc_used r = None \<and> password_verify (ms_crypto s) (rc_hash r) (trim_space raw) = Inr True"
      by (auto simp: unused_recovery_codes_def)
    with i t that show thesis by (auto simp: after_code_def)
  qed
qed

lemma marked_used: "r \<in> set (recovery_rows (mark_recovery_used i now w)) \<Longrightarrow> rc_id r = i \<Longrightarrow> rc_used r \<noteq> None"
proof -
  assume r: "r \<in> set (recovery_rows (mark_recovery_used i now w))" "rc_id r = i"
  have "recovery_rows (mark_recovery_used i now w) =
      map (\<lambda>q. if rc_id q = i then q\<lparr>rc_used := Some now\<rparr> else q) (recovery_rows w)" by (simp add: mark_recovery_used_def)
  from r(1) [unfolded this set_map] obtain q where "r = (if rc_id q = i then q\<lparr>rc_used := Some now\<rparr> else q)" by (rule imageE)
  with r(2) show ?thesis by (cases "rc_id q = i") simp_all
qed

lemma put_verification_rows:
  assumes "put_verification u method now w = Inr w'"
  shows "recovery_rows w' = recovery_rows w \<and> mfa_verified_at u w' = Some now"
proof (cases "u \<in> mv_user ` set (verification_rows w)")
  case True
  let ?f = "\<lambda>v. if mv_user v = u then v\<lparr>mv_method := method, mv_at := now\<rparr> else v"
  have c: "((\<lambda>v. mv_user v = u) \<circ> ?f) = (\<lambda>v. mv_user v = u)" by (rule ext) (simp add: comp_def)
  obtain v where v: "List.find (\<lambda>v. mv_user v = u) (verification_rows w) = Some v"
    using True by (cases "List.find (\<lambda>v. mv_user v = u) (verification_rows w)") (auto simp: find_None_all)
  from assms True have "w' = w\<lparr>verification_rows := map ?f (verification_rows w)\<rparr>" by (simp add: put_verification_def)
  then show ?thesis using find_holds [OF v] by (simp add: mfa_verified_at_def find_map c v)
next
  case False
  then have "List.find (\<lambda>v. mv_user v = u) (verification_rows w) = None" by (auto simp: find_None_all)
  with assms False show ?thesis by (auto simp: put_verification_def mfa_verified_at_def find_append split: if_splits)
qed

lemma record_verification_ok:
  assumes "record_verification u method e w = (Inr x, e', w')"
  shows "recovery_rows w' = recovery_rows w \<and> mfa_verified_at u w' = Some (e_clock e (e_ticks e))"
proof -
  from assms have "put_verification u method (e_clock e (e_ticks e)) w = Inr w'"
    by (auto simp: record_verification_def upsert_mfa_verification_def bind_ok time_now_ok db_exec_ok)
  then show ?thesis by (rule put_verification_rows)
qed

lemma after_code_accepted:
  assumes "verify_code s u raw e w = (Inr found, e1, w1)" and "recovery_rows w' = recovery_rows w1"
  shows "code_accepted s u raw (e_clock e (e_ticks e)) w w'"
  using assms(1)
proof (rule verify_code_ok)
  fix t
  assume t: "totp_of u w = Some t" "tt_confirmed t \<noteq> None" and a: "after_code found w w1"
    and n: "found = None \<Longrightarrow> totp_verify_at (ms_totp s) (tt_secret t) (trim_space raw) (e_clock e (e_ticks e))"
    and i: "\<And>i. found = Some i \<Longrightarrow> \<exists>r \<in> set (recovery_rows w). rc_id r = i \<and> rc_user r = u \<and> rc_used r = None \<and>
      password_verify (ms_crypto s) (rc_hash r) (trim_space raw) = Inr True"
  show ?thesis
  proof (cases found)
    case None
    with n t show ?thesis by (auto simp: code_accepted_def)
  next
    case (Some k)
    from i [OF Some] obtain r where r: "r \<in> set (recovery_rows w)" "rc_id r = k" "rc_user r = u" "rc_used r = None"
      "password_verify (ms_crypto s) (rc_hash r) (trim_space raw) = Inr True" by blast
    have "rc_used r' \<noteq> None" if "r' \<in> set (recovery_rows w')" "rc_id r' = rc_id r" for r'
      using that a Some assms(2) r(2) marked_used [of r' k _ w] by (auto simp: after_code_def)
    with r t show ?thesis unfolding code_accepted_def by blast
  qed
qed

lemma verify_for_login_ok:
  assumes "verify_for_login s u raw e w = (Inr True, e', w')"
  shows "code_accepted s u raw (e_clock e (e_ticks e)) w w' \<and> mfa_verified_at u w' \<noteq> None"
proof -
  from assms have "in_tx (bind_io (verify_code s u raw) (\<lambda>found.
      then_io (record_verification u (method_used found)) (ret True))) e w = (Inr True, e', w')"
    by (auto simp: verify_for_login_def on_error_ok ret_ok fail_ok split: if_splits)
  then obtain e2 where "bind_io (verify_code s u raw) (\<lambda>found.
      then_io (record_verification u (method_used found)) (ret True)) (next_call e) w = (Inr True, e2, w')"
    by (rule in_tx_ok)
  then obtain found e1 w1 y where v: "verify_code s u raw (next_call e) w = (Inr found, e1, w1)"
    and rec: "record_verification u (method_used found) e1 w1 = (Inr y, e2, w')"
    by (auto simp: bind_ok ret_ok)
  from record_verification_ok [OF rec] after_code_accepted [OF v, of w'] show ?thesis by (simp add: next_call_def)
qed

text \<open>What is left of a challenge and of the tokens or the session that follow does not touch the second factors.\<close>

lemma code_accepted_same:
  "code_accepted s u raw now w w1 \<Longrightarrow> recovery_rows w2 = recovery_rows w1 \<Longrightarrow> code_accepted s u raw now w w2"
  by (simp add: code_accepted_def)

lemma verified_same: "verification_rows w2 = verification_rows w1 \<Longrightarrow> mfa_verified_at u w2 = mfa_verified_at u w1"
  by (simp add: mfa_verified_at_def)

lemma consumed_proves:
  assumes m: "as_mfa s = Some (mfa_enroller_of m)"
    and run: "verify_and_consume pu s tok code e w = (Inr (user, tenant, cl), e1, w1)"
    and same: "recovery_rows w' = recovery_rows w1" "verification_rows w' = verification_rows w1"
  shows "\<exists>i c. pu tok = Some i \<and> find_challenge i w = Some c \<and> mc_user c = user \<and>
     e_clock e (e_ticks e) \<le> mc_expires c \<and> code_accepted m user code (e_clock e (Suc (e_ticks e))) w w' \<and>
     mfa_verified_at user w' \<noteq> None"
  using run
proof (rule consume_run)
  fix m' i c e2 w2
  assume m': "as_mfa s = Some m'" and c: "pu tok = Some i" "find_challenge i w = Some c"
      "e_clock e (e_ticks e) \<le> mc_expires c" "mc_user c = user"
    and v: "me_verify m' user code (after_lookup e) w = (Inr True, e2, w2)" and w1: "w1 = w2 \<or> w1 = delete_challenge i w2"
  from v m m' have "verify_for_login m user code (after_lookup e) w = (Inr True, e2, w2)" by (simp add: mfa_enroller_of_def)
  from verify_for_login_ok [OF this]
  have a: "code_accepted m user code (e_clock e (Suc (e_ticks e))) w w2" "mfa_verified_at user w2 \<noteq> None"
    by (simp_all add: after_lookup_def)
  from w1 same have "recovery_rows w' = recovery_rows w2" "verification_rows w' = verification_rows w2"
    by (auto simp: delete_challenge_def)
  with a c show ?thesis using code_accepted_same verified_same by metis
qed

lemma issue_pair_frame:
  fixes w w' :: "'z mfa_db_scheme"
  assumes "issue_pair s user tenant ip ua method custom e w = (Inr p, e', w')"
  shows "recovery_rows w' = recovery_rows w \<and> verification_rows w' = verification_rows w"
  using assms by (rule issue_pair_ok) (simp add: with_session_def)

lemma create_login_session_frame:
  fixes w w' :: "'z mfa_db_scheme"
  assumes "create_login_session x user ip ua e w = (Inr raw, e', w')"
  shows "recovery_rows w' = recovery_rows w \<and> verification_rows w' = verification_rows w"
proof -
  from assms obtain raw' hash e1 w1 row e2 where t: "new_refresh_token (tx_crypto x) e w = (Inr (raw', hash), e1, w1)"
    and i: "db_exec (insert_login_session x ip row) e2 w1 = (Inr (), e', w')"
    unfolding create_login_session_def by (auto simp: bind_ok time_now_ok ret_ok)
  from i have "insert_login_session x ip row w1 = Inr w'" by (auto simp: db_exec_ok)
  then have "recovery_rows w' = recovery_rows w1 \<and> verification_rows w' = verification_rows w1"
    unfolding insert_login_session_def by (auto split: if_splits)
  moreover have "w1 = w" using new_refresh_token_ok [OF t] by simp
  ultimately show ?thesis by simp
qed

text \<open>A wrong code, or an error, changes nothing.\<close>

lemma verify_for_login_no:
  assumes "verify_for_login s u raw e w = (res, e', w')" and "res \<noteq> Inr True"
  shows "w' = w"
proof -
  let ?tx = "in_tx (bind_io (verify_code s u raw) (\<lambda>found. then_io (record_verification u (method_used found)) (ret True)))"
  obtain r e1 w1 where tx: "?tx e w = (r, e1, w1)" by (metis prod_cases3)
  show ?thesis
  proof (cases r)
    case (Inl x)
    from atomicD [OF atomic_in_tx tx [unfolded Inl]] have "w1 = w" .
    with assms tx Inl show ?thesis by (auto simp: verify_for_login_def on_error_def ret_def fail_def split: if_splits)
  next
    case (Inr b)
    with tx have "b = True" by (auto elim!: in_tx_ok simp: bind_ok ret_ok)
    with assms tx Inr show ?thesis by (auto simp: verify_for_login_def on_error_def)
  qed
qed

end
