(* ===== verification/MfaSafety.thy ===== *)
theory MfaSafety imports MfaProps begin

text \<open>
  Codes that work once, what opens the step-up window, and the gate in front of the requests that need it.
\<close>

section \<open>Used codes stay used\<close>

definition spent :: "uuid \<Rightarrow> uuid \<Rightarrow> 'z mfa_db_scheme \<Rightarrow> bool" where
  "spent u i w \<longleftrightarrow> (\<forall>r \<in> set (recovery_rows w). rc_id r = i \<and> rc_user r = u \<longrightarrow> rc_used r \<noteq> None)"

definition mints :: "mfa_call \<Rightarrow> bool" where
  "mints c \<longleftrightarrow> (case c of ConfirmTotp _ \<Rightarrow> True | RegenerateCodes \<Rightarrow> True | _ \<Rightarrow> False)"

text \<open>Everything that happens while the user is not given new codes.\<close>

inductive mfa_step ::
  "'z mfa_db_scheme mfa_handler \<Rightarrow> uuid \<Rightarrow> 'z mfa_db_scheme \<Rightarrow> 'z mfa_db_scheme \<Rightarrow> bool" for h u where
  serve: "mfa_serve h pu r c e w = (res, e', w') \<Longrightarrow> \<not> (mints c \<and> require_user r = Inr u) \<Longrightarrow> mfa_step h u w w'"
| sign_in: "verify_for_login s v code e w = (ok, e', w') \<Longrightarrow> mfa_step h u w w'"
| reset: "in_tx (reset_for_user v) e w = (x, e', w') \<Longrightarrow> mfa_step h u w w'"
| other: "recovery_rows w' = recovery_rows w \<Longrightarrow> mfa_step h u w w'"

lemma spent_same: "recovery_rows w' = recovery_rows w \<Longrightarrow> spent u i w \<Longrightarrow> spent u i w'"
  by (simp add: spent_def)

lemma spent_mark: "spent u i w \<Longrightarrow> spent u i (mark_recovery_used j now w)"
proof -
  assume s: "spent u i w"
  have rows: "recovery_rows (mark_recovery_used j now w) =
      map (\<lambda>q. if rc_id q = j then q\<lparr>rc_used := Some now\<rparr> else q) (recovery_rows w)" by (simp add: mark_recovery_used_def)
  show ?thesis
    unfolding spent_def rows set_map
  proof (intro ballI impI)
    fix r assume img: "r \<in> (\<lambda>q. if rc_id q = j then q\<lparr>rc_used := Some now\<rparr> else q) ` set (recovery_rows w)"
      and r: "rc_id r = i \<and> rc_user r = u"
    from img obtain q where q: "r = (if rc_id q = j then q\<lparr>rc_used := Some now\<rparr> else q)" "q \<in> set (recovery_rows w)" by (rule imageE)
    with r s show "rc_used r \<noteq> None" by (cases "rc_id q = j") (auto simp: spent_def)
  qed
qed

lemma keeps_exec_same:
  assumes "\<And>w w'. f w = Inr w' \<Longrightarrow> g w' = g w"
  shows "keeps (\<lambda>w. g w = v) (db_exec f)"
  by (rule keeps_db_exec) (use assms in auto)

lemma put_frames:
  "put_totp v secret now w = Inr w' \<Longrightarrow> recovery_rows w' = recovery_rows w \<and> verification_rows w' = verification_rows w"
  "put_verification v method now w = Inr w' \<Longrightarrow> recovery_rows w' = recovery_rows w"
  "put_otp_code c w = Inr w' \<Longrightarrow> recovery_rows w' = recovery_rows w \<and> verification_rows w' = verification_rows w"
  "put_factor f w = Inr (j, w') \<Longrightarrow> recovery_rows w' = recovery_rows w \<and> verification_rows w' = verification_rows w"
  "put_recovery rr w = Inr w' \<Longrightarrow> verification_rows w' = verification_rows w \<and> recovery_rows w' = recovery_rows w @ [rr]"
  by (auto simp: put_totp_def put_verification_def put_otp_code_def put_factor_def put_recovery_def Let_def
      split: if_splits option.splits)

lemma spent_statements:
  "keeps (spent u i) (db_exec (put_totp v secret now))" "keeps (spent u i) (db_write (confirm_totp v now))"
  "keeps (spent u i) (db_write (delete_totp v))" "keeps (spent u i) (db_write (delete_recovery_codes v))"
  "keeps (spent u i) (db_exec (put_verification v method now))" "keeps (spent u i) (db_write (delete_otp_factors v))"
  "keeps (spent u i) (db_write (mark_recovery_used j now))" "keeps (spent u i) (db_exec (put_otp_code c))"
  "keeps (spent u i) (db_write (mark_otp_code_used j now))" "keeps (spent u i) (db_write (mark_factor_verified j now))"
proof -
  note same = spent_same [rotated]
  show "keeps (spent u i) (db_exec (put_totp v secret now))" "keeps (spent u i) (db_exec (put_verification v method now))"
    "keeps (spent u i) (db_exec (put_otp_code c))"
    by (rule keeps_db_exec, erule same, use put_frames in blast)+
  show "keeps (spent u i) (db_write (confirm_totp v now))" "keeps (spent u i) (db_write (delete_totp v))"
    "keeps (spent u i) (db_write (delete_otp_factors v))" "keeps (spent u i) (db_write (mark_otp_code_used j now))"
    "keeps (spent u i) (db_write (mark_factor_verified j now))"
    by (rule keeps_db_write, erule same, simp add: confirm_totp_def delete_totp_def delete_otp_factors_def drop_factors_def
        mark_otp_code_used_def mark_factor_verified_def)+
  show "keeps (spent u i) (db_write (delete_recovery_codes v))"
    by (rule keeps_db_write) (simp add: spent_def delete_recovery_codes_def)
  show "keeps (spent u i) (db_write (mark_recovery_used j now))" by (rule keeps_db_write) (rule spent_mark)
qed

lemma spent_mint: "v \<noteq> u \<Longrightarrow> keeps (spent u i) (mint_codes s v n)"
proof (induction n)
  case (Suc n)
  have put: "keeps (spent u i) (db_exec (put_recovery r))" if "rc_user r \<noteq> u" for r
    by (rule keeps_db_exec) (use that in \<open>auto simp: spent_def put_recovery_def split: if_splits\<close>)
  show ?case
    unfolding mint_codes.simps insert_mfa_recovery_code_def
    by (intro mfa_keeps put Suc.IH) (use Suc.prems in simp_all)
qed (simp add: mfa_keeps)

lemma spent_send:
  assumes h: "mfa_collaborators_spare h"
  shows "keeps (spent u i) (send_otp (mh_service h) j ch d)"
proof -
  have "keeps (spent u i) (ms_send (mh_service h) ch d x y)" for x y
    by (rule keeps_send [OF h]) (auto simp: spent_def mfa_same_def)
  then show ?thesis unfolding send_otp_def insert_mfa_otp_code_def by (intro mfa_keeps spent_statements)
qed

lemma spent_factor: "keeps (spent u i) (upsert_mfa_otp_factor v ch d)"
  unfolding upsert_mfa_otp_factor_def
proof (intro mfa_keeps keeps_db_call)
  fix j now w a w' assume w: "spent u i w"
    and "(case put_factor \<lparr>fa_id = j, fa_user = v, fa_channel = ch, fa_destination = d, fa_verified = None,
        fa_created = now\<rparr> w of Inl err \<Rightarrow> (Inl err, w) | Inr (j, w') \<Rightarrow> (Inr j, w')) = (Inr a, w')"
  then have "put_factor \<lparr>fa_id = j, fa_user = v, fa_channel = ch, fa_destination = d, fa_verified = None,
        fa_created = now\<rparr> w = Inr (a, w')" by (auto split: sum.splits prod.splits)
  from put_frames(4) [OF this] w show "spent u i w'" by (simp add: spent_def)
qed

lemma spent_otp:
  assumes h: "mfa_collaborators_spare h"
  shows "keeps (spent u i) (enroll_otp_start (mh_service h) v ch d)" "keeps (spent u i) (challenge_otp (mh_service h) v j)"
  unfolding enroll_otp_start_def challenge_otp_def Let_def by (intro mfa_keeps spent_factor spent_send [OF h])+

lemma spent_delete_factor: "keeps (spent u i) (delete_otp_factor v j)"
  unfolding delete_otp_factor_def
  by (intro mfa_keeps keeps_db_call) (auto simp: spent_def delete_otp_factor_row_def drop_factors_def Let_def)

lemma spent_operations:
  "keeps (spent u i) (record_verification v method)" "keeps (spent u i) (start_enroll s v account)"
  "keeps (spent u i) (disable_totp v)" "keeps (spent u i) (reset_for_user v)" "keeps (spent u i) (verify_code s v raw)"
  "keeps (spent u i) (verify_otp s v raw)" "keeps (spent u i) (enroll_otp_confirm s v j raw)"
  unfolding record_verification_def upsert_mfa_verification_def start_enroll_def upsert_mfa_totp_def disable_totp_def
    reset_for_user_def verify_code_def Let_def verify_otp_def enroll_otp_confirm_def
  by (intro mfa_keeps spent_statements)+

lemma spent_record: "keeps (spent u i) (mfa_record h r u' action meta)"
  by (rule keeps_record) (simp add: spent_def)

lemma spent_login: "keeps (spent u i) (verify_for_login s v code)"
  unfolding verify_for_login_def by (intro keeps_on_error mfa_keeps spent_operations)

lemma spent_webauthn:
  assumes "mfa_collaborators_spare h" and "mh_webauthn h = Some f"
  shows "keeps (spent u i) (wa_begin f v)" "keeps (spent u i) (wa_finish f v sid cred)"
  using assms by (auto simp: mfa_collaborators_spare_def spent_def mfa_same_def intro: leaves_mfa_keeps)

lemma spent_minting:
  assumes "v \<noteq> u"
  shows "keeps (spent u i) (confirm_enroll s v code)" "keeps (spent u i) (regenerate s v)"
  unfolding confirm_enroll_def regenerate_def mint_recovery_codes_def
  by (intro mfa_keeps spent_statements spent_operations spent_mint [OF assms])+

lemma spent_served:
  assumes h: "mfa_collaborators_spare h" and m: "\<not> (mints c \<and> require_user r = Inr u)"
  shows "keeps (spent u i) (mfa_serve h pu r c)"
proof (cases "require_user r")
  case (Inl x)
  then have "mfa_serve h pu r c = fail x"
    by (cases c) (simp_all only: serve_defs require_recent_mfa_def mfa_call.case bind_lift_Inl)
  then show ?thesis by (simp add: mfa_keeps)
next
  case (Inr v)
  have v: "v \<noteq> u" if "mints c" using m that Inr by auto
  show ?thesis
    by (cases c) (simp_all only: serve_defs mfa_call.case Inr bind_lift_Inr, (intro mfa_keeps spent_operations spent_otp [OF h]
        spent_delete_factor spent_record spent_webauthn [OF h] spent_minting v; (assumption | simp add: mints_def)?)+)
qed

text \<open>Between the use of a recovery code and the next minting for the user, nothing makes it usable again.\<close>

lemma spent_step: "mfa_collaborators_spare h \<Longrightarrow> mfa_step h u w w' \<Longrightarrow> spent u i w \<Longrightarrow> spent u i w'"
  by (erule mfa_step.cases)
    (auto intro: keepsD [OF spent_served] keepsD [OF spent_login] keepsD [OF keeps_in_tx [OF spent_operations(4)]] spent_same)

lemma spent_steps:
  assumes "mfa_collaborators_spare h" and "(mfa_step h u)\<^sup>*\<^sup>* w w'" and "spent u i w"
  shows "spent u i w'"
  using assms(2,3) by (induction rule: rtranclp_induct) (auto intro: spent_step [OF assms(1)])

lemma spent_refused: "spent u i w \<Longrightarrow> verify_code s u raw e w \<noteq> (Inr (Some i), e', w')"
proof
  assume s: "spent u i w" and run: "verify_code s u raw e w = (Inr (Some i), e', w')"
  from run show False by (rule verify_code_ok) (use s in \<open>auto simp: spent_def\<close>)
qed

section \<open>What opens the step-up window\<close>

lemma find_filter: "List.find P (filter P xs) = List.find P xs"
  by (induction xs) auto

lemma part_verified: "mfa_part_of v w' = mfa_part_of v w \<Longrightarrow> mfa_verified_at v w' = mfa_verified_at v w"
  unfolding mfa_part_of_def mfa_verified_at_def prod.inject
  by (metis find_filter [of "\<lambda>m. mv_user m = v"])

lemma confirm_enroll_ok:
  assumes "confirm_enroll s u code e w = (Inr cs, e', w')"
  shows "\<exists>t. totp_of u w = Some t \<and> totp_verify_at (ms_totp s) (tt_secret t) code (e_clock e (e_ticks e))"
  using assms by (auto simp: confirm_enroll_def bind_ok db_read_ok fail_ok totp_verify_def time_now_ok ret_ok
      split: option.splits if_splits)

lemma verify_otp_ok:
  assumes "verify_otp s u code e w = (Inr True, e', w')"
  shows "\<exists>c \<in> set (otp_rows w). oc_hash c = codes_hash (ms_crypto s) (trim_space code) \<and> oc_used c = None \<and>
     e_clock e (e_ticks e) < oc_expires c \<and>
     (\<exists>f \<in> set (factor_rows w). fa_id f = oc_factor c \<and> fa_user f = u \<and> fa_verified f \<noteq> None) \<and>
     (\<exists>now. w' = mark_otp_code_used (oc_id c) now w)"
proof -
  let ?p = "pending_code (\<lambda>f. fa_user f = u \<and> fa_verified f \<noteq> None) (codes_hash (ms_crypto s) (trim_space code)) (e_clock e (e_ticks e)) w"
  from assms obtain c where c: "?p = Some c" and w': "\<exists>now. w' = mark_otp_code_used (oc_id c) now w"
    by (auto simp: verify_otp_def otp_code_for_verify_def bind_ok db_read_ok time_now_ok db_write_ok ret_ok split: option.splits)
  from pending_code_in [OF c] w' show ?thesis by blast
qed

text \<open>What a request proves of its user.\<close>

definition proves_factor ::
  "'z mfa_db_scheme mfa_handler \<Rightarrow> uuid \<Rightarrow> mfa_call \<Rightarrow> time \<Rightarrow> 'z mfa_db_scheme \<Rightarrow> 'z mfa_db_scheme \<Rightarrow> bool" where
  "proves_factor h u c now w w' \<longleftrightarrow>
     (case c of
        VerifyTotp (Inr code) \<Rightarrow> code_accepted (mh_service h) u code now w w'
      | ConfirmTotp (Inr code) \<Rightarrow>
          \<exists>t. totp_of u w = Some t \<and> totp_verify_at (ms_totp (mh_service h)) (tt_secret t) code now
      | VerifyOtp (Inr code) \<Rightarrow>
          \<exists>c \<in> set (otp_rows w). oc_hash c = codes_hash (ms_crypto (mh_service h)) (trim_space code) \<and> oc_used c = None \<and>
            now < oc_expires c \<and> (\<exists>f \<in> set (factor_rows w). fa_id f = oc_factor c \<and> fa_user f = u \<and> fa_verified f \<noteq> None)
      | WebauthnVerify (Inr (sid, cred)) \<Rightarrow>
          \<exists>f e1 e2 w2. mh_webauthn h = Some f \<and> wa_finish f u sid cred e1 w = (Inr (), e2, w2)
      | _ \<Rightarrow> False)"

abbreviation (input) still :: "verification_row list \<Rightarrow> ('z mfa_db_scheme, 'a) io \<Rightarrow> bool" where
  "still vs m \<equiv> keeps (\<lambda>w. verification_rows w = vs) m"

lemma still_writes:
  "still vs (db_exec (put_totp v secret now))" "still vs (db_write (delete_totp v))" "still vs (db_write (delete_recovery_codes v))"
  "still vs (db_write (mark_otp_code_used j now))" "still vs (db_write (mark_factor_verified j now))"
  "still vs (db_exec (put_otp_code c))" "still vs (db_exec (put_recovery rr))"
proof -
  show "still vs (db_exec (put_totp v secret now))" "still vs (db_exec (put_otp_code c))" "still vs (db_exec (put_recovery rr))"
    by (rule keeps_exec_same, use put_frames in blast)+
  show "still vs (db_write (delete_totp v))" "still vs (db_write (delete_recovery_codes v))"
    "still vs (db_write (mark_otp_code_used j now))" "still vs (db_write (mark_factor_verified j now))"
    by (rule keeps_db_write, simp add: delete_totp_def delete_recovery_codes_def mark_otp_code_used_def mark_factor_verified_def)+
qed

lemma still_send:
  assumes h: "mfa_collaborators_spare h"
  shows "still vs (send_otp (mh_service h) j ch d)"
proof -
  have "still vs (ms_send (mh_service h) ch d x y)" for x y
    by (rule keeps_send [OF h]) (auto simp: mfa_same_def)
  then show ?thesis unfolding send_otp_def insert_mfa_otp_code_def by (intro mfa_keeps still_writes)
qed

lemma still_factor: "still vs (upsert_mfa_otp_factor v ch d)"
  unfolding upsert_mfa_otp_factor_def
proof (intro mfa_keeps keeps_db_call)
  fix j now w a w' assume w: "verification_rows w = vs"
    and "(case put_factor \<lparr>fa_id = j, fa_user = v, fa_channel = ch, fa_destination = d, fa_verified = None,
        fa_created = now\<rparr> w of Inl err \<Rightarrow> (Inl err, w) | Inr (j, w') \<Rightarrow> (Inr j, w')) = (Inr a, w')"
  then have "put_factor \<lparr>fa_id = j, fa_user = v, fa_channel = ch, fa_destination = d, fa_verified = None,
        fa_created = now\<rparr> w = Inr (a, w')" by (auto split: sum.splits prod.splits)
  from put_frames(4) [OF this] w show "verification_rows w' = vs" by simp
qed

lemma still_mint: "still vs (mint_codes s v n)"
proof (induction n)
  case (Suc n)
  show ?case unfolding mint_codes.simps insert_mfa_recovery_code_def by (intro mfa_keeps still_writes Suc.IH)
qed (simp add: mfa_keeps)

lemma still_delete_factor: "still vs (delete_otp_factor v j)"
  unfolding delete_otp_factor_def
  by (intro mfa_keeps keeps_db_call) (auto simp: delete_otp_factor_row_def drop_factors_def Let_def)

lemma still_operations:
  "still vs (start_enroll s v account)" "still vs (disable_totp v)" "still vs (regenerate s v)"
  "still vs (enroll_otp_confirm s v j raw)"
  unfolding start_enroll_def upsert_mfa_totp_def disable_totp_def regenerate_def mint_recovery_codes_def enroll_otp_confirm_def
  by (intro mfa_keeps still_writes still_mint)+

lemma still_otp:
  assumes h: "mfa_collaborators_spare h"
  shows "still vs (enroll_otp_start (mh_service h) v ch d)" "still vs (challenge_otp (mh_service h) v j)"
  unfolding enroll_otp_start_def challenge_otp_def Let_def by (intro mfa_keeps still_factor still_send [OF h])+

lemma still_webauthn:
  assumes "mfa_collaborators_spare h" and "mh_webauthn h = Some f"
  shows "still vs (wa_begin f v)" "still vs (wa_finish f v sid cred)"
  using assms by (auto simp: mfa_collaborators_spare_def mfa_same_def intro: leaves_mfa_keeps)

lemma still_record: "still vs (mfa_record h r u' action meta)"
  by (rule keeps_record) simp

definition proving :: "mfa_call \<Rightarrow> bool" where
  "proving c \<longleftrightarrow> (case c of VerifyTotp _ \<Rightarrow> True | ConfirmTotp _ \<Rightarrow> True | VerifyOtp _ \<Rightarrow> True | WebauthnVerify _ \<Rightarrow> True | _ \<Rightarrow> False)"

lemma still_served:
  assumes h: "mfa_collaborators_spare h" and u: "require_user r = Inr u" and "\<not> proving c"
  shows "still vs (mfa_serve h pu r c)"
  using assms(3)
  by (cases c) (simp_all only: proving_def mfa_call.case simp_thms, (simp_all only: serve_defs mfa_call.case u bind_lift_Inr)?,
      (intro mfa_keeps still_operations still_otp [OF h] still_delete_factor still_record still_webauthn [OF h]; assumption?)+)

text \<open>A transaction at the end of a handler either did not happen or ran to its end.\<close>

lemma then_ret_cases:
  assumes "bind_io m (\<lambda>a. ret (f a)) e w = (res, e', w')" and "atomic m"
  shows "w' = w \<or> (\<exists>a e1. m e w = (Inr a, e1, w'))"
proof -
  obtain r e1 w1 where m: "m e w = (r, e1, w1)" by (metis prod_cases3)
  show ?thesis
  proof (cases r)
    case (Inl x)
    with m assms atomicD [OF assms(2)] show ?thesis by (auto simp: bind_io_def)
  next
    case (Inr a)
    with m assms(1) show ?thesis by (auto simp: bind_io_def ret_def)
  qed
qed

lemma lift_cases:
  assumes "bind_io (lift_res b) f e w = (res, e', w')"
  shows "w' = w \<or> (\<exists>a. b = Inr a \<and> f a e w = (res, e', w'))"
  using assms by (cases b) (auto simp: lift_res_def bind_io_def ret_def fail_def)

lemma in_tx_then_ret:
  assumes "bind_io (in_tx m) (\<lambda>a. ret (f a)) e w = (res, e', w')"
  shows "w' = w \<or> (\<exists>a e1. m (next_call e) w = (Inr a, e1, w'))"
  using then_ret_cases [OF assms atomic_in_tx] by (auto elim: in_tx_ok)

lemma lift_tx_cases:
  assumes "bind_io (lift_res b) (\<lambda>x. bind_io (in_tx (m x)) (\<lambda>a. ret (f a))) e w = (res, e', w')"
  obtains "w' = w" | x a e1 where "b = Inr x" and "m x (next_call e) w = (Inr a, e1, w')"
proof -
  note cases = that
  from lift_cases [OF assms] consider "w' = w" | x where "b = Inr x"
    "bind_io (in_tx (m x)) (\<lambda>a. ret (f a)) e w = (res, e', w')" by blast
  then show thesis
  proof cases
    case 1
    then show thesis by (rule cases(1))
  next
    case (2 x)
    from in_tx_then_ret [OF 2(2)] cases(1) cases(2) [OF 2(1)] show thesis by (elim disjE exE)
  qed
qed

lemma record_frame:
  "mfa_record h r u action meta e w = (Inr y, e', w') \<Longrightarrow>
   recovery_rows w' = recovery_rows w \<and> verification_rows w' = verification_rows w"
  unfolding mfa_record_def by (drule record_audit_audited) auto

lemma served_earns:
  assumes h: "mfa_collaborators_spare h" and u: "require_user r = Inr u"
    and run: "mfa_serve h pu r c e w = (res, e', w')" and new: "mfa_verified_at u w' \<noteq> mfa_verified_at u w"
  shows "\<exists>now. proves_factor h u c now w w' \<and> (\<not> (\<exists>b. c = WebauthnVerify b) \<longrightarrow> now = e_clock e (e_ticks e))"
proof (cases c)
  case (ConfirmTotp b)
  from run have "bind_io (lift_res b) (\<lambda>code. bind_io (in_tx (bind_io (confirm_enroll (mh_service h) u code) (\<lambda>cs.
      then_io (mfa_record h r u ''mfa.totp_enrolled'' (json_object [(''recovery_codes_minted'', nat_digits (length cs))]))
        (ret cs)))) (\<lambda>cs. ret (200, MfaCodes cs))) e w = (res, e', w')"
    by (simp only: ConfirmTotp serve_defs mfa_call.case u bind_lift_Inr)
  then obtain code cs e1 where b: "b = Inr code"
    and "bind_io (confirm_enroll (mh_service h) u code) (\<lambda>cs.
      then_io (mfa_record h r u ''mfa.totp_enrolled'' (json_object [(''recovery_codes_minted'', nat_digits (length cs))]))
        (ret cs)) (next_call e) w = (Inr cs, e1, w')" by (rule lift_tx_cases) (use new in simp)
  then obtain cs1 e2 w2 where "confirm_enroll (mh_service h) u code (next_call e) w = (Inr cs1, e2, w2)" by (auto simp: bind_ok)
  from confirm_enroll_ok [OF this] b show ?thesis by (simp add: proves_factor_def ConfirmTotp next_call_def)
next
  case (VerifyTotp b)
  from run have "bind_io (lift_res b) (\<lambda>code. then_io (in_tx (bind_io (verify_code (mh_service h) u code) (\<lambda>found.
      then_io (record_verification u (method_used found)) (case found of None \<Rightarrow> ret ()
        | Some i \<Rightarrow> mfa_record h r u ''mfa.recovery_code_used''
             (json_object [(''recovery_code_id'', json_quote (ax_uuid (ms_audit (mh_service h)) i))])))))
      (ret (200, MfaVerified))) e w = (res, e', w')"
    by (simp only: VerifyTotp serve_defs mfa_call.case u bind_lift_Inr)
  then obtain code y e1 where b: "b = Inr code"
    and r: "bind_io (verify_code (mh_service h) u code) (\<lambda>found.
      then_io (record_verification u (method_used found)) (case found of None \<Rightarrow> ret ()
        | Some i \<Rightarrow> mfa_record h r u ''mfa.recovery_code_used''
             (json_object [(''recovery_code_id'', json_quote (ax_uuid (ms_audit (mh_service h)) i))])))
      (next_call e) w = (Inr y, e1, w')" by (rule lift_tx_cases) (use new in simp)
  from r obtain found e2 w2 z e3 w3 where v: "verify_code (mh_service h) u code (next_call e) w = (Inr found, e2, w2)"
    and rec: "record_verification u (method_used found) e2 w2 = (Inr z, e3, w3)"
    and au: "(case found of None \<Rightarrow> ret () | Some i \<Rightarrow> mfa_record h r u ''mfa.recovery_code_used''
             (json_object [(''recovery_code_id'', json_quote (ax_uuid (ms_audit (mh_service h)) i))])) e3 w3 = (Inr y, e1, w')"
    by (auto simp: bind_ok)
  have "recovery_rows w' = recovery_rows w3"
  proof (cases found)
    case None
    with au show ?thesis by (simp add: ret_ok)
  next
    case (Some i)
    with au show ?thesis using record_frame [of h r u] by (simp only: option.case)
  qed
  with record_verification_ok [OF rec] have "recovery_rows w' = recovery_rows w2" by simp
  from after_code_accepted [OF v this] b show ?thesis by (simp add: proves_factor_def VerifyTotp next_call_def)
next
  case (VerifyOtp b)
  from run have "bind_io (lift_res b) (\<lambda>code. then_io (in_tx (bind_io (verify_otp (mh_service h) u code) (\<lambda>ok.
      if \<not> ok then fail (ApiErr (with_detail ErrUnauthorized ''invalid code'')) else record_verification u ''otp'')))
      (ret (200, MfaVerified))) e w = (res, e', w')"
    by (simp only: VerifyOtp serve_defs mfa_call.case u bind_lift_Inr)
  then obtain code y e1 where b: "b = Inr code"
    and "bind_io (verify_otp (mh_service h) u code) (\<lambda>ok.
      if \<not> ok then fail (ApiErr (with_detail ErrUnauthorized ''invalid code'')) else record_verification u ''otp'')
      (next_call e) w = (Inr y, e1, w')" by (rule lift_tx_cases) (use new in simp)
  then obtain e2 w2 where "verify_otp (mh_service h) u code (next_call e) w = (Inr True, e2, w2)"
    by (auto simp: bind_ok fail_ok split: if_splits)
  from verify_otp_ok [OF this] b show ?thesis by (auto simp: proves_factor_def VerifyOtp next_call_def)
next
  case (WebauthnVerify b)
  from run have r: "(case mh_webauthn h of None \<Rightarrow> fail (ApiErr (with_detail ErrNotImplemented ''webauthn factor not enabled''))
     | Some f \<Rightarrow> bind_io (lift_res b) (\<lambda>(sid, cred). then_io (wa_finish f u sid cred)
         (then_io (in_tx (bind_io (record_verification u ''webauthn'') (\<lambda>_.
             then_io (mfa_record h r u ''mfa.webauthn_verified'' []) (ret ()))))
           (ret (200, MfaVerified))))) e w = (res, e', w')"
    by (simp only: WebauthnVerify serve_defs mfa_call.case u bind_lift_Inr)
  then obtain f where f: "mh_webauthn h = Some f" using new by (cases "mh_webauthn h") (auto simp: fail_def)
  from r have "bind_io (lift_res b) (\<lambda>(sid, cred). then_io (wa_finish f u sid cred)
         (then_io (in_tx (bind_io (record_verification u ''webauthn'') (\<lambda>_.
             then_io (mfa_record h r u ''mfa.webauthn_verified'' []) (ret ()))))
           (ret (200, MfaVerified)))) e w = (res, e', w')" by (simp only: f option.case)
  from lift_cases [OF this] new obtain sid cred where b: "b = Inr (sid, cred)"
    and r: "then_io (wa_finish f u sid cred) (then_io (in_tx (bind_io (record_verification u ''webauthn'') (\<lambda>_.
             then_io (mfa_record h r u ''mfa.webauthn_verified'' []) (ret ())))) (ret (200, MfaVerified))) e w = (res, e', w')"
    by auto
  obtain x e1 w1 where fin: "wa_finish f u sid cred e w = (x, e1, w1)" by (metis prod_cases3)
  from keepsD [OF still_webauthn(2) [OF h f] refl fin] have "verification_rows w1 = verification_rows w" .
  then have "x \<noteq> Inl err" for err using r fin new by (auto simp: bind_io_def mfa_verified_at_def)
  then obtain y where "x = Inr y" by (cases x) auto
  with fin f b show ?thesis by (auto simp: proves_factor_def WebauthnVerify)
qed (use keepsD [OF still_served [OF h u] refl run] new in \<open>simp_all add: proving_def mfa_verified_at_def\<close>)

end
