(* ===== verification/MfaAnswers.thy ===== *)
theory MfaAnswers imports MfaSafety begin

text \<open>
  What the requests on second factors answer when nothing fails: the gate, the start and the end of an enrollment. The
  properties of the component are stated here.
\<close>

section \<open>The gate\<close>

lemma recently_verified_runs:
  assumes "no_faults e"
  shows "\<exists>e1. recently_verified u window e w =
     (Inr (case mfa_verified_at u w of None \<Rightarrow> (False, None) | Some t \<Rightarrow> (e_clock e (e_ticks e) - t \<le> window, Some t)), e1, w) \<and>
     no_faults e1 \<and> e_uuid e1 = e_uuid e \<and> e_clock e1 = e_clock e"
  using assms
  by (cases "mfa_verified_at u w")
    (simp_all add: recently_verified_def bind_io_def db_read_def db_call_def Let_def no_faults_def time_now_def ret_def)

definition in_window :: "uuid \<Rightarrow> env \<Rightarrow> 'z mfa_db_scheme \<Rightarrow> bool" where
  "in_window u e w \<longleftrightarrow> (\<exists>t. mfa_verified_at u w = Some t \<and> e_clock e (e_ticks e) - t \<le> minutes 5)"

abbreviation step_up_refusal :: go_error where
  "step_up_refusal \<equiv> ApiErr (with_detail ErrStepUpRequired ''recent multi-factor verification required'')"

lemma gate_runs:
  assumes "no_faults e" and u: "require_user r = Inr u"
  shows "\<exists>e1. require_recent_mfa step_up_window r m e w = (if in_window u e w then m e1 w else (Inl step_up_refusal, e1, w)) \<and>
     no_faults e1 \<and> e_uuid e1 = e_uuid e \<and> e_clock e1 = e_clock e"
proof -
  from recently_verified_runs [OF assms(1), of u step_up_window w] obtain e1 where
    r: "recently_verified u step_up_window e w =
      (Inr (case mfa_verified_at u w of None \<Rightarrow> (False, None) | Some t \<Rightarrow> (e_clock e (e_ticks e) - t \<le> step_up_window, Some t)), e1, w)"
    and e1: "no_faults e1" "e_uuid e1 = e_uuid e" "e_clock e1 = e_clock e" by blast
  have "require_recent_mfa step_up_window r m e w = (if in_window u e w then m e1 w else (Inl step_up_refusal, e1, w))"
  proof -
    have i: "in_window u e w \<longleftrightarrow> (\<exists>t. mfa_verified_at u w = Some t \<and> e_clock e (e_ticks e) - t \<le> step_up_window)"
      by (simp add: in_window_def step_up_window_def)
    show ?thesis
      unfolding require_recent_mfa_def u bind_lift_Inr i
      by (cases "mfa_verified_at u w") (simp_all add: bind_io_def r fail_def)
  qed
  with e1 show ?thesis by blast
qed

text \<open>The gate fails closed: whatever fails, what is behind it runs only in the window.\<close>

lemma gate_closed:
  assumes run: "require_recent_mfa step_up_window r m e w = (res, e', w')" and passed: "w' \<noteq> w \<or> (\<exists>a. res = Inr a)"
  shows "\<exists>u. require_user r = Inr u \<and> in_window u e w"
proof (cases "require_user r")
  case (Inl x)
  with run have "res = Inl x" "w' = w" by (simp_all add: require_recent_mfa_def lift_res_def bind_io_def fail_def)
  with passed show ?thesis by simp
next
  case (Inr u)
  obtain v e1 w1 where rec: "recently_verified u step_up_window e w = (v, e1, w1)" by (metis prod_cases3)
  have "reads (recently_verified u step_up_window)"
    unfolding recently_verified_def by (auto intro!: reads_bind split: option.splits)
  from readsD [OF this rec] have w1: "w1 = w" .
  from run have r: "(case v of Inl x \<Rightarrow> (Inl x, e1, w1) | Inr (ok, t) \<Rightarrow> (if \<not> ok then fail step_up_refusal else m) e1 w1) = (res, e', w')"
    unfolding require_recent_mfa_def Inr bind_lift_Inr by (cases v) (auto simp: bind_io_def rec split: prod.splits)
  with passed w1 obtain t where v: "v = Inr (True, t)" by (cases v) (auto simp: fail_def split: prod.splits if_splits)
  from rec [unfolded v] have "in_window u e w"
    by (auto simp: recently_verified_def bind_ok db_read_ok time_now_ok ret_ok in_window_def step_up_window_def split: option.splits)
  with Inr show ?thesis by blast
qed

section \<open>Starting over\<close>

definition mfa_ready :: "'z mfa_db_scheme mfa_handler \<Rightarrow> request \<Rightarrow> env \<Rightarrow> 'z mfa_db_scheme \<Rightarrow> bool" where
  "mfa_ready h r e w \<longleftrightarrow> no_faults e \<and> (\<forall>n k. cx_rand (ms_crypto (mh_service h)) n k \<noteq> None) \<and>
     (client_ip r = [] \<or> ax_inet (ms_audit (mh_service h)) (client_ip r) \<noteq> None) \<and>
     inj (e_uuid e) \<and> (\<forall>k. e_uuid e k \<notin> set (map ar_id (audit_rows w)) \<union> set (map rc_id (recovery_rows w)))"

lemma rand_runs:
  assumes "\<forall>n k. cx_rand x n k \<noteq> None"
  shows "\<exists>b. rand_read x n e w = (Inr b, e\<lparr>e_uuids := Suc (e_uuids e)\<rparr>, w)"
proof -
  obtain b where "cx_rand x n (e_uuid e (e_uuids e)) = Some b" using assms by blast
  then show ?thesis by (simp add: rand_read_def bind_io_def uuid_new_def ret_def)
qed

lemma mfa_record_runs:
  assumes "no_faults e" and "client_ip r = [] \<or> ax_inet (ms_audit (mh_service h)) (client_ip r) \<noteq> None"
    and "e_uuid e (e_uuids e) \<notin> set (map ar_id (audit_rows w))"
  shows "\<exists>e' rows. mfa_record h r u action meta e w = (Inr (), e', w\<lparr>audit_rows := rows\<rparr>) \<and> no_faults e' \<and>
     e_clock e' = e_clock e"
proof -
  have "ev_ip (mfa_event r u action meta) = client_ip r" by (simp add: mfa_event_def)
  with record_audit_runs [of e "mfa_event r u action meta" "ms_audit (mh_service h)" w] assms show ?thesis
    unfolding mfa_record_def by (auto simp: no_faults_def)
qed

lemma find_key_map:
  "(\<And>x. key (f x) = key x) \<Longrightarrow> List.find (\<lambda>x. key x = u) (map f xs) = map_option f (List.find (\<lambda>x. key x = u) xs)"
  by (induction xs) simp_all

text \<open>The authenticator of a user after it was stored anew.\<close>

lemma put_totp_stores:
  assumes "user_exists u w"
  shows "\<exists>w'. put_totp u secret now w = Inr w' \<and> (\<exists>t. totp_of u w' = Some t \<and> tt_secret t = secret \<and> tt_confirmed t = None) \<and>
     audit_rows w' = audit_rows w \<and> recovery_rows w' = recovery_rows w \<and> verification_rows w' = verification_rows w \<and>
     user_rows w' = user_rows w"
proof (cases "totp_of u w")
  case None
  with assms show ?thesis by (simp add: put_totp_def totp_of_def find_append)
next
  case (Some t)
  let ?f = "\<lambda>t. if tt_user t = u then t\<lparr>tt_secret := secret, tt_confirmed := None\<rparr> else t"
  let ?w = "w\<lparr>totp_rows := map ?f (totp_rows w)\<rparr>"
  have "put_totp u secret now w = Inr ?w" using Some by (simp add: put_totp_def)
  moreover have "totp_of u ?w = Some (?f t)"
    using Some find_key_map [of tt_user ?f u "totp_rows w"] by (simp add: totp_of_def)
  moreover have "tt_user t = u" using find_holds [OF Some [unfolded totp_of_def]] .
  ultimately show ?thesis by simp
qed

lemma start_runs:
  assumes "mfa_ready h r e w" and u: "require_user r = Inr u" and "user_exists u w"
  shows "\<exists>en e' w' t. mfa_serve h pu r (StartTotp account) e w = (Inr (200, MfaEnrollment en), e', w') \<and>
     totp_of u w' = Some t \<and> tt_secret t = en_secret en \<and> tt_confirmed t = None \<and>
     recovery_rows w' = recovery_rows w \<and> verification_rows w' = verification_rows w \<and> user_exists u w'"
proof -
  let ?x = "ms_crypto (mh_service h)"
  define acc where "acc = (if account = [] then (case rq_principal r of None \<Rightarrow> [] | Some p \<Rightarrow> p_subject p) else account)"
  define e0 where "e0 = next_call e"
  from assms(1) have e: "\<And>k. \<not> e_fault e k" and e0: "\<And>k. \<not> e_fault e0 k"
    and fresh: "\<And>k. e_uuid e0 k \<notin> set (map ar_id (audit_rows w))"
    and ip: "client_ip r = [] \<or> ax_inet (ms_audit (mh_service h)) (client_ip r) \<noteq> None"
    and rand: "\<forall>n k. cx_rand ?x n k \<noteq> None" by (auto simp: mfa_ready_def no_faults_def e0_def next_call_def)
  from rand_runs [OF rand, of 20 e0 w] obtain b where b: "rand_read ?x 20 e0 w = (Inr b, e0\<lparr>e_uuids := Suc (e_uuids e0)\<rparr>, w)" by blast
  let ?e1 = "e0\<lparr>e_uuids := Suc (e_uuids e0), e_ticks := Suc (e_ticks e0), e_calls := Suc (e_calls e0)\<rparr>"
  from put_totp_stores [OF assms(3), of "b32_encode b" "e_clock e0 (e_ticks e0)"] obtain w1 t where
    put: "put_totp u (b32_encode b) (e_clock e0 (e_ticks e0)) w = Inr w1"
    and t: "totp_of u w1 = Some t" "tt_secret t = b32_encode b" "tt_confirmed t = None"
    and same: "audit_rows w1 = audit_rows w" "recovery_rows w1 = recovery_rows w" "verification_rows w1 = verification_rows w"
      "user_rows w1 = user_rows w" by blast
  let ?en = "\<lparr>en_secret = b32_encode b, en_url = provisioning_url (b32_encode b) (ms_issuer (mh_service h)) acc\<rparr>"
  have start: "start_enroll (mh_service h) u acc e0 w = (Inr ?en, ?e1, w1)"
    using e0 by (simp add: start_enroll_def new_secret_def upsert_mfa_totp_def bind_io_def b time_now_def ret_def
        db_exec_def db_call_def Let_def put)
  have "no_faults ?e1" "e_uuid ?e1 (e_uuids ?e1) \<notin> set (map ar_id (audit_rows w1))"
    using e0 fresh same(1) by (simp_all add: no_faults_def)
  from mfa_record_runs [OF this(1) ip this(2)] obtain e2 rows where
    rec: "mfa_record h r u ''mfa.totp_enroll_started'' [] ?e1 w1 = (Inr (), e2, w1\<lparr>audit_rows := rows\<rparr>)" and "no_faults e2" by blast
  then have "in_tx (bind_io (start_enroll (mh_service h) u acc) (\<lambda>en.
      then_io (mfa_record h r u ''mfa.totp_enroll_started'' []) (ret en))) e w = (Inr ?en, next_call e2, w1\<lparr>audit_rows := rows\<rparr>)"
    using e by (intro in_tx_live) (simp_all add: no_faults_def bind_io_def start ret_def flip: e0_def)
  then have "mfa_serve h pu r (StartTotp account) e w = (Inr (200, MfaEnrollment ?en), next_call e2, w1\<lparr>audit_rows := rows\<rparr>)"
    unfolding serve_defs mfa_call.case u bind_lift_Inr acc_def [symmetric] by (simp add: bind_io_def ret_def)
  moreover have "totp_of u (w1\<lparr>audit_rows := rows\<rparr>) = Some t" using t(1) by (simp add: totp_of_def)
  moreover have "user_exists u (w1\<lparr>audit_rows := rows\<rparr>)" using assms(3) same(4) by (simp add: user_exists_def)
  ultimately show ?thesis using t(2,3) same by (intro exI conjI) (assumption | simp)+
qed

section \<open>Completing an enrollment\<close>

lemma mint_runs:
  assumes "no_faults e" and "\<forall>n k. cx_rand (ms_crypto s) n k \<noteq> None" and "inj (e_uuid e)" and "user_exists u w"
    and "\<forall>k \<ge> e_uuids e. e_uuid e k \<notin> set (map rc_id (recovery_rows w))"
  shows "\<exists>cs e' rows. mint_codes s u n e w = (Inr cs, e', w\<lparr>recovery_rows := recovery_rows w @ rows\<rparr>) \<and> length cs = n \<and>
     length rows = n \<and> (\<forall>r \<in> set rows. rc_user r = u \<and> rc_used r = None) \<and>
     no_faults e' \<and> e_uuid e' = e_uuid e \<and> e_clock e' = e_clock e"
  using assms
proof (induction n arbitrary: e w)
  case 0
  then show ?case by (auto simp: ret_def intro!: exI [of _ "[]"])
next
  case (Suc n)
  let ?x = "ms_crypto s"
  obtain b1 where b1: "rand_read ?x 8 e w = (Inr b1, e\<lparr>e_uuids := Suc (e_uuids e)\<rparr>, w)"
    using rand_runs [OF Suc.prems(2), of 8 e w] by blast
  let ?e1 = "e\<lparr>e_uuids := Suc (e_uuids e)\<rparr>"
  obtain b2 where b2: "rand_read ?x argon_salt_len ?e1 w = (Inr b2, ?e1\<lparr>e_uuids := Suc (e_uuids ?e1)\<rparr>, w)"
    using rand_runs [OF Suc.prems(2), of argon_salt_len ?e1 w] by blast
  let ?c = "numeric_code_of 10 b1" and ?i = "e_uuid e (e_uuids e + 2)"
  let ?row = "\<lparr>rc_id = ?i, rc_user = u, rc_hash = password_hash ?x b2 ?c, rc_used = None, rc_created = e_clock e (e_ticks e)\<rparr>"
  let ?w = "w\<lparr>recovery_rows := recovery_rows w @ [?row]\<rparr>"
  let ?e2 = "e\<lparr>e_uuids := e_uuids e + 3, e_ticks := Suc (e_ticks e), e_calls := Suc (e_calls e)\<rparr>"
  have put: "put_recovery ?row w = Inr ?w" using Suc.prems(4,5) by (auto simp: put_recovery_def)
  have ins: "insert_mfa_recovery_code u (password_hash ?x b2 ?c) (?e1\<lparr>e_uuids := Suc (e_uuids ?e1)\<rparr>) w = (Inr (), ?e2, ?w)"
    using Suc.prems(1) put by (simp add: insert_mfa_recovery_code_def bind_io_def uuid_new_def time_now_def db_exec_def
        db_call_def Let_def no_faults_def eval_nat_numeral)
  have "\<forall>k \<ge> e_uuids ?e2. e_uuid ?e2 k \<notin> set (map rc_id (recovery_rows ?w))"
    using Suc.prems(3,5) by (auto dest: injD)
  then obtain cs e' rows where rest: "mint_codes s u n ?e2 ?w = (Inr cs, e', ?w\<lparr>recovery_rows := recovery_rows ?w @ rows\<rparr>)"
    and p: "length cs = n" "length rows = n" "\<forall>r \<in> set rows. rc_user r = u \<and> rc_used r = None"
      "no_faults e'" "e_uuid e' = e_uuid ?e2" "e_clock e' = e_clock ?e2"
    using Suc.IH [of ?e2 ?w] Suc.prems by (auto simp: no_faults_def user_exists_def)
  have "mint_codes s u (Suc n) e w = (Inr (?c # cs), e', w\<lparr>recovery_rows := recovery_rows w @ (?row # rows)\<rparr>)"
    using b1 b2 ins rest by (simp add: bind_io_def numeric_code_def hash_password_def ret_def)
  with p show ?case by (intro exI [of _ "?c # cs"] exI [of _ e'] exI [of _ "?row # rows"]) simp
qed

lemma put_verification_stores:
  assumes "user_exists u w"
  shows "\<exists>w'. put_verification u method now w = Inr w' \<and> mfa_verified_at u w' = Some now \<and> audit_rows w' = audit_rows w \<and>
     totp_rows w' = totp_rows w \<and> recovery_rows w' = recovery_rows w \<and> user_rows w' = user_rows w"
proof -
  from assms obtain w' where w': "put_verification u method now w = Inr w'" by (cases "u \<in> mv_user ` set (verification_rows w)") (simp_all add: put_verification_def)
  then have "audit_rows w' = audit_rows w \<and> totp_rows w' = totp_rows w \<and> recovery_rows w' = recovery_rows w \<and> user_rows w' = user_rows w"
    by (auto simp: put_verification_def split: if_splits)
  with w' put_verification_rows [OF w'] show ?thesis by blast
qed

lemma confirm_totp_stores:
  assumes "totp_of u w = Some t"
  shows "totp_of u (confirm_totp u now w) = Some (t\<lparr>tt_confirmed := Some now\<rparr>)"
proof -
  let ?f = "\<lambda>t. if tt_user t = u then t\<lparr>tt_confirmed := Some now\<rparr> else t"
  have "tt_user t = u" using find_holds [OF assms [unfolded totp_of_def]] .
  then show ?thesis using assms find_key_map [of tt_user ?f u "totp_rows w"] by (simp add: totp_of_def confirm_totp_def)
qed

lemma confirm_enroll_runs:
  assumes "no_faults e" and rand: "\<forall>n k. cx_rand (ms_crypto s) n k \<noteq> None" and "inj (e_uuid e)" and "user_exists u w"
    and fresh: "\<forall>k. e_uuid e k \<notin> set (map ar_id (audit_rows w)) \<union> set (map rc_id (recovery_rows w))"
    and t: "totp_of u w = Some t" and ok: "totp_verify_at (ms_totp s) (tt_secret t) code (e_clock e (e_ticks e))"
  shows "\<exists>cs e' w'. confirm_enroll s u code e w = (Inr cs, e', w') \<and> length cs = recovery_code_count \<and>
     totp_of u w' = Some (t\<lparr>tt_confirmed := Some (e_clock e (e_ticks e + 1))\<rparr>) \<and>
     mfa_verified_at u w' = Some (e_clock e (e_ticks e + 2)) \<and> length (unused_recovery_codes u w') = recovery_code_count \<and>
     audit_rows w' = audit_rows w \<and> no_faults e' \<and> e_uuid e' = e_uuid e"
proof -
  have e: "\<And>k. \<not> e_fault e k" using assms(1) by (simp add: no_faults_def)
  define w1 where "w1 = confirm_totp u (e_clock e (e_ticks e + 1)) w"
  have w1: "user_rows w1 = user_rows w" "audit_rows w1 = audit_rows w" "recovery_rows w1 = recovery_rows w"
    by (simp_all add: w1_def confirm_totp_def)
  with assms(4) have "user_exists u w1" by (simp add: user_exists_def)
  from put_verification_stores [OF this, of "''totp''" "e_clock e (e_ticks e + 2)"] obtain w2 where
    put: "put_verification u ''totp'' (e_clock e (e_ticks e + 2)) w1 = Inr w2" and at': "mfa_verified_at u w2 = Some (e_clock e (e_ticks e + 2))"
    and w2: "audit_rows w2 = audit_rows w1" "totp_rows w2 = totp_rows w1" "recovery_rows w2 = recovery_rows w1" "user_rows w2 = user_rows w1"
    by blast
  define w3 where "w3 = delete_recovery_codes u w2"
  have w3: "audit_rows w3 = audit_rows w" "totp_rows w3 = totp_rows w1" "user_rows w3 = user_rows w" "verification_rows w3 = verification_rows w2"
    "recovery_rows w3 = filter (\<lambda>r. rc_user r \<noteq> u) (recovery_rows w)"
    using w1 w2 by (simp_all add: w3_def delete_recovery_codes_def)
  define e3 where "e3 = e\<lparr>e_ticks := e_ticks e + 3, e_calls := e_calls e + 4\<rparr>"
  have "no_faults e3" "inj (e_uuid e3)" "user_exists u w3" "\<forall>k \<ge> e_uuids e3. e_uuid e3 k \<notin> set (map rc_id (recovery_rows w3))"
    using assms(3,4) e fresh w3(3,5) by (auto simp: e3_def no_faults_def user_exists_def)
  from mint_runs [OF this(1) rand this(2,3,4), of recovery_code_count] obtain cs e' rows where
    mint: "mint_codes s u recovery_code_count e3 w3 = (Inr cs, e', w3\<lparr>recovery_rows := recovery_rows w3 @ rows\<rparr>)"
    and m: "length cs = recovery_code_count" "length rows = recovery_code_count" "\<forall>r \<in> set rows. rc_user r = u \<and> rc_used r = None"
      "no_faults e'" "e_uuid e' = e_uuid e" unfolding e3_def by auto
  let ?w = "w3\<lparr>recovery_rows := recovery_rows w3 @ rows\<rparr>"
  have f: "confirm_totp u (e_clock e (Suc (e_ticks e))) w = w1" by (simp add: w1_def)
  have "confirm_enroll s u code e w = (Inr cs, e', ?w)"
    using e t ok put mint by (simp add: confirm_enroll_def bind_io_def db_read_def db_call_def Let_def totp_verify_def time_now_def
        ret_def db_write_def record_verification_def upsert_mfa_verification_def db_exec_def mint_recovery_codes_def
        f w3_def [symmetric] e3_def eval_nat_numeral)
  moreover have "totp_of u ?w = Some (t\<lparr>tt_confirmed := Some (e_clock e (e_ticks e + 1))\<rparr>)"
    using confirm_totp_stores [OF t, of "e_clock e (e_ticks e + 1)"] w3(2) by (simp add: totp_of_def w1_def)
  moreover have "mfa_verified_at u ?w = Some (e_clock e (e_ticks e + 2))" using at' w3(4) by (simp add: mfa_verified_at_def)
  moreover have "unused_recovery_codes u ?w = rows" using w3(5) m(3) by (auto simp: unused_recovery_codes_def filter_True)
  ultimately show ?thesis using m w3(1) by (intro exI [of _ cs] exI [of _ e'] exI [of _ ?w] conjI) (assumption | simp)+
qed

lemma confirm_runs:
  assumes "mfa_ready h r e w" and u: "require_user r = Inr u" and "user_exists u w" and t: "totp_of u w = Some t"
    and ok: "totp_verify_at (ms_totp (mh_service h)) (tt_secret t) code (e_clock e (e_ticks e))"
  shows "\<exists>cs e' w'. mfa_serve h pu r (ConfirmTotp (Inr code)) e w = (Inr (200, MfaCodes cs), e', w') \<and> length cs = recovery_code_count \<and>
     totp_of u w' = Some (t\<lparr>tt_confirmed := Some (e_clock e (e_ticks e + 1))\<rparr>) \<and>
     mfa_verified_at u w' = Some (e_clock e (e_ticks e + 2)) \<and> length (unused_recovery_codes u w') = recovery_code_count"
proof -
  let ?s = "mh_service h"
  define e0 where "e0 = next_call e"
  from assms(1) have e: "no_faults e" "no_faults e0" and i: "inj (e_uuid e0)"
    and fresh: "\<forall>k. e_uuid e0 k \<notin> set (map ar_id (audit_rows w)) \<union> set (map rc_id (recovery_rows w))"
    and ip: "client_ip r = [] \<or> ax_inet (ms_audit ?s) (client_ip r) \<noteq> None" and rand: "\<forall>n k. cx_rand (ms_crypto ?s) n k \<noteq> None"
    and c: "e_clock e0 = e_clock e" "e_ticks e0 = e_ticks e" by (auto simp: mfa_ready_def no_faults_def e0_def next_call_def)
  from confirm_enroll_runs [OF e(2) rand i assms(3) fresh t, of code] ok c obtain cs e1 w1 where
    run: "confirm_enroll ?s u code e0 w = (Inr cs, e1, w1)" and cs: "length cs = recovery_code_count"
    and w1: "totp_of u w1 = Some (t\<lparr>tt_confirmed := Some (e_clock e (e_ticks e + 1))\<rparr>)" "mfa_verified_at u w1 = Some (e_clock e (e_ticks e + 2))"
      "length (unused_recovery_codes u w1) = recovery_code_count" "audit_rows w1 = audit_rows w"
    and e1: "no_faults e1" "e_uuid e1 = e_uuid e0" by auto
  let ?meta = "json_object [(''recovery_codes_minted'', nat_digits (length cs))]"
  from mfa_record_runs [OF e1(1) ip, of w1 u "''mfa.totp_enrolled''" ?meta] fresh e1(2) w1(4) obtain e2 rows where
    rec: "mfa_record h r u ''mfa.totp_enrolled'' ?meta e1 w1 = (Inr (), e2, w1\<lparr>audit_rows := rows\<rparr>)" and e2: "no_faults e2" by auto
  let ?w = "w1\<lparr>audit_rows := rows\<rparr>"
  have "in_tx (bind_io (confirm_enroll ?s u code) (\<lambda>cs.
      then_io (mfa_record h r u ''mfa.totp_enrolled'' (json_object [(''recovery_codes_minted'', nat_digits (length cs))])) (ret cs))) e w =
      (Inr cs, next_call e2, ?w)"
    using e(1) e2 rec by (intro in_tx_live) (simp_all add: bind_io_def run ret_def flip: e0_def)
  then have "mfa_serve h pu r (ConfirmTotp (Inr code)) e w = (Inr (200, MfaCodes cs), next_call e2, ?w)"
    unfolding serve_defs mfa_call.case u bind_lift_Inr by (simp add: bind_io_def ret_def)
  moreover have "totp_of u ?w = totp_of u w1" "mfa_verified_at u ?w = mfa_verified_at u w1" "unused_recovery_codes u ?w = unused_recovery_codes u w1"
    by (simp_all add: totp_of_def mfa_verified_at_def unused_recovery_codes_def)
  ultimately show ?thesis using cs w1 by (intro exI [of _ cs] exI [of _ "next_call e2"] exI [of _ ?w] conjI) simp_all
qed

end
