(* ===== verification/MfaClaims.thy ===== *)
theory MfaClaims imports MfaAnswers begin

text \<open>
  The properties of the second factors: which codes are accepted, that a session behind a challenge needs one, that
  recovery codes work once, whose rows a request touches, and what opens the step-up window and what it guards.
\<close>

section \<open>Codes\<close>

text \<open>C28. For an authenticator with the key in base 32, the code of RFC 6238 for the current window of thirty seconds, the one
  before it and the one after it, and no other string, passes the check; what passes is six decimal digits.\<close>

theorem totp_accepts_three_windows:
  assumes "30000000 \<le> now"
  shows "(totp_verify_at x (b32_encode key) code now \<longleftrightarrow>
       (\<exists>c. window_of now \<le> c + 1 \<and> c \<le> window_of now + 1 \<and> code = rfc_code x key (of_nat c))) \<and>
     (totp_verify_at x (b32_encode key) code now \<longrightarrow> decimal_code 6 code)"
  using totp_verify_at_rfc [OF assms] rfc_code_decimal by auto

text \<open>C17. When second factors are served by this component, a login behind a challenge succeeds, for tokens and for a hosted
  session alike, only if the challenge exists, belongs to that user and has not expired at the first clock reading of the
  request, and the code is accepted: it is the code of the confirmed authenticator at the second clock reading of the
  request, or an unused recovery code of the user, which is used in the state the login leaves behind. The login also
  leaves the user's second factor as recently proved.\<close>

theorem second_factor_is_proved:
  assumes m: "as_mfa s = Some (mfa_enroller_of m)"
    and run: "complete_mfa_login pu s tok code ip ua e w = (Inr p, e', w') \<and> user = tp_user p \<or>
      complete_mfa_login_session pu s tok code ip ua e w = (Inr (user, tenant, cookie), e', w')"
  shows "\<exists>i c. pu tok = Some i \<and> find_challenge i w = Some c \<and> mc_user c = user \<and>
     e_clock e (e_ticks e) \<le> mc_expires c \<and> code_accepted m user code (e_clock e (Suc (e_ticks e))) w w' \<and>
     mfa_verified_at user w' \<noteq> None"
proof -
  from run obtain u t cl e1 w1 where c: "verify_and_consume pu s tok code e w = (Inr (u, t, cl), e1, w1)"
    and r: "issue_pair s u t ip ua ''password_mfa'' cl e1 w1 = (Inr p, e', w') \<and> user = tp_user p \<or>
      create_login_session (as_ext s) u ip ua e1 w1 = (Inr cookie, e', w') \<and> user = u"
    by (auto simp: complete_mfa_login_def complete_mfa_login_session_def bind_ok ret_ok)
  then have "user = u" by (auto dest: issue_pair_user)
  with c have c: "verify_and_consume pu s tok code e w = (Inr (user, t, cl), e1, w1)" by simp
  from r have "recovery_rows w' = recovery_rows w1" "verification_rows w' = verification_rows w1"
    by (auto dest: issue_pair_frame create_login_session_frame)
  with consumed_proves [OF m c] show ?thesis by blast
qed

text \<open>C19. A recovery code that was used once is never accepted again, whatever requests, sign-ins and administrative resets
  follow, until the user is given new codes.\<close>

theorem recovery_codes_work_once:
  assumes h: "mfa_collaborators_spare h" and used: "verify_code s u raw e w = (Inr (Some i), e1, w1)"
    and later: "(mfa_step h u)\<^sup>*\<^sup>* w1 w2"
  shows "verify_code s' u raw' e2 w2 \<noteq> (Inr (Some i), e3, w3)"
proof (rule spent_refused, rule spent_steps [OF h later])
  from used show "spent u i w1"
  proof (rule verify_code_ok)
    assume "after_code (Some i) w w1"
    then obtain now where "w1 = mark_recovery_used i now w" by (auto simp: after_code_def)
    then show ?thesis using marked_used [of _ i now w] by (auto simp: spent_def)
  qed
qed

section \<open>Ownership and the step-up window\<close>

text \<open>C26. Every request on second factors keeps their tables well-formed and leaves everybody's rows except the caller's as
  they were, whatever fails on the way.\<close>

theorem second_factors_are_own:
  assumes "mfa_collaborators_spare h" and "mfa_ok w" and "mfa_serve h pu r c e w = (res, e', w')"
  shows "mfa_ok w' \<and> user_rows w' = user_rows w \<and> (\<forall>v. require_user r \<noteq> Inr v \<longrightarrow> mfa_part_of v w' = mfa_part_of v w)"
  using assms by (rule serve_own)

text \<open>C18. The time that opens a user's step-up window changes only by a request of that user that proves a factor: an
  accepted authenticator or recovery code, a code that was sent to a verified channel of the user and is neither used nor
  expired, the code that confirms an authenticator, or a passkey.\<close>

theorem step_up_is_earned:
  assumes h: "mfa_collaborators_spare h" and ok: "mfa_ok w" and run: "mfa_serve h pu r c e w = (res, e', w')"
    and new: "mfa_verified_at v w' \<noteq> mfa_verified_at v w"
  shows "require_user r = Inr v \<and>
     (\<exists>now. proves_factor h v c now w w' \<and> ((\<exists>b. c = WebauthnVerify b) \<or> now = e_clock e (e_ticks e)))"
proof -
  have u: "require_user r = Inr v"
  proof (rule ccontr)
    assume "require_user r \<noteq> Inr v"
    with serve_own [OF h ok run] have "mfa_part_of v w' = mfa_part_of v w" by blast
    with new part_verified show False by blast
  qed
  with served_earns [OF h u run new] show ?thesis by blast
qed

lemma disable_runs:
  assumes "mfa_ready h r e w" and u: "require_user r = Inr u"
  shows "\<exists>e' w'. disable_handler h r e w = (Inr (204, MfaNone), e', w') \<and> totp_of u w' = None \<and> unused_recovery_codes u w' = []"
proof -
  define e0 where "e0 = next_call e"
  define w1 where "w1 = delete_recovery_codes u (delete_totp u w)"
  define e1 where "e1 = e0\<lparr>e_calls := e_calls e0 + 2\<rparr>"
  from assms(1) have e: "no_faults e" "no_faults e0" and ip: "client_ip r = [] \<or> ax_inet (ms_audit (mh_service h)) (client_ip r) \<noteq> None"
    and "no_faults e1" "e_uuid e1 (e_uuids e1) \<notin> set (map ar_id (audit_rows w1))"
    by (auto simp: mfa_ready_def no_faults_def e0_def e1_def next_call_def w1_def delete_recovery_codes_def delete_totp_def)
  from mfa_record_runs [OF this(4) this(3) this(5), of u "''mfa.totp_disabled''" "[]"] obtain e2 rows where
    rec: "mfa_record h r u ''mfa.totp_disabled'' [] e1 w1 = (Inr (), e2, w1\<lparr>audit_rows := rows\<rparr>)" and e2: "no_faults e2" by auto
  have run: "disable_totp u e0 w = (Inr (), e1, w1)"
    using e(2) by (simp add: disable_totp_def bind_io_def db_write_def db_call_def Let_def no_faults_def e1_def w1_def eval_nat_numeral)
  have "in_tx (bind_io (disable_totp u) (\<lambda>_. then_io (mfa_record h r u ''mfa.totp_disabled'' []) (ret ()))) e w =
      (Inr (), next_call e2, w1\<lparr>audit_rows := rows\<rparr>)"
    using e(1) e2 rec by (intro in_tx_live) (simp_all add: bind_io_def run ret_def flip: e0_def)
  then have "disable_handler h r e w = (Inr (204, MfaNone), next_call e2, w1\<lparr>audit_rows := rows\<rparr>)"
    unfolding disable_handler_def u bind_lift_Inr by (simp add: bind_io_def ret_def)
  moreover have "totp_of u (w1\<lparr>audit_rows := rows\<rparr>) = None" "unused_recovery_codes u (w1\<lparr>audit_rows := rows\<rparr>) = []"
    by (simp_all add: w1_def delete_recovery_codes_def delete_totp_def totp_of_def unused_recovery_codes_def find_None_all)
  ultimately show ?thesis by blast
qed

text \<open>C27. The step-up gate. Whatever fails, a request to switch the authenticator off or for new recovery codes succeeds or
  changes anything only if its caller proved a factor within the five minutes before the first clock reading of the request:
  a failed read closes the gate. Without faults, with randomness and new ids, and with a client address that can be stored in
  the audit log, the gate is exact: in the window the authenticator and its recovery codes are gone, outside of it the answer
  to either request is the demand for a step-up and nothing changes.\<close>

theorem step_up_gate_is_exact:
  assumes c: "c = DisableTotp \<or> c = RegenerateCodes"
  shows "(mfa_serve h pu r c e w = (res, e', w') \<and> (w' \<noteq> w \<or> (\<exists>a. res = Inr a)) \<longrightarrow>
      (\<exists>v. require_user r = Inr v \<and> in_window v e w)) \<and>
    (mfa_ready h r e w \<and> require_user r = Inr u \<longrightarrow>
      (if in_window u e w
       then \<exists>e1 w1. mfa_serve h pu r DisableTotp e w = (Inr (204, MfaNone), e1, w1) \<and> totp_of u w1 = None \<and>
         unused_recovery_codes u w1 = []
       else \<exists>e1. mfa_serve h pu r c e w = (Inl step_up_refusal, e1, w)))"
proof (intro conjI impI)
  from c obtain m where serve: "mfa_serve h pu r c = require_recent_mfa step_up_window r m" by (auto simp: mfa_serve_def)
  then show "\<exists>v. require_user r = Inr v \<and> in_window v e w"
    if "mfa_serve h pu r c e w = (res, e', w') \<and> (w' \<noteq> w \<or> (\<exists>a. res = Inr a))" using that gate_closed by metis
  assume "mfa_ready h r e w \<and> require_user r = Inr u"
  then have ready: "mfa_ready h r e w" and u: "require_user r = Inr u" by blast+
  have nf: "no_faults e" using ready by (simp add: mfa_ready_def)
  from gate_runs [OF nf u, of "disable_handler h r" w] obtain e1 where
    d: "mfa_serve h pu r DisableTotp e w = (if in_window u e w then disable_handler h r e1 w else (Inl step_up_refusal, e1, w))"
    and e1: "no_faults e1" "e_uuid e1 = e_uuid e" by (auto simp: mfa_serve_def)
  from gate_runs [OF nf u, of m w] obtain e2 where
    g: "mfa_serve h pu r c e w = (if in_window u e w then m e2 w else (Inl step_up_refusal, e2, w))" by (auto simp: serve)
  from ready e1 have "mfa_ready h r e1 w" by (simp add: mfa_ready_def)
  from disable_runs [OF this u] d g show "if in_window u e w
      then \<exists>e1 w1. mfa_serve h pu r DisableTotp e w = (Inr (204, MfaNone), e1, w1) \<and> totp_of u w1 = None \<and>
        unused_recovery_codes u w1 = []
      else \<exists>e1. mfa_serve h pu r c e w = (Inl step_up_refusal, e1, w)" by (cases "in_window u e w") simp_all
qed

text \<open>C20. Enrolling is not behind the gate. Whoever holds an access token of the user starts over: the confirmed
  authenticator, if there is one, is replaced and counts as not enrolled from that moment, so a sign-in asks for no second
  factor; confirming the new one, with a code only the caller can compute, brings new recovery codes and opens the step-up
  window.\<close>

theorem access_token_replaces_factor:
  assumes "mfa_ready h r e w" and u: "require_user r = Inr u" and "user_exists u w"
  shows "\<exists>en e1 w1 t. mfa_serve h pu r (StartTotp account) e w = (Inr (200, MfaEnrollment en), e1, w1) \<and>
     totp_of u w1 = Some t \<and> tt_secret t = en_secret en \<and>
     (\<forall>e2. no_faults e2 \<longrightarrow> fst (me_enrolled (mfa_enroller_of (mh_service h)) u e2 w1) = Inr False) \<and>
     (\<forall>e2 code. mfa_ready h r e2 w1 \<and> totp_verify_at (ms_totp (mh_service h)) (en_secret en) code (e_clock e2 (e_ticks e2)) \<longrightarrow>
       (\<exists>cs e3 w3. mfa_serve h pu r (ConfirmTotp (Inr code)) e2 w1 = (Inr (200, MfaCodes cs), e3, w3) \<and>
         length cs = recovery_code_count \<and> mfa_verified_at u w3 = Some (e_clock e2 (e_ticks e2 + 2))))"
proof -
  from start_runs [OF assms] obtain en e1 w1 t where
    run: "mfa_serve h pu r (StartTotp account) e w = (Inr (200, MfaEnrollment en), e1, w1)"
    and t: "totp_of u w1 = Some t" "tt_secret t = en_secret en" "tt_confirmed t = None" and ex: "user_exists u w1" by blast
  have "fst (me_enrolled (mfa_enroller_of (mh_service h)) u e2 w1) = Inr False" if "no_faults e2" for e2
    using that t by (simp add: mfa_enroller_of_def is_enrolled_def bind_io_def db_read_def db_call_def Let_def no_faults_def ret_def)
  moreover have "\<exists>cs e3 w3. mfa_serve h pu r (ConfirmTotp (Inr code)) e2 w1 = (Inr (200, MfaCodes cs), e3, w3) \<and>
      length cs = recovery_code_count \<and> mfa_verified_at u w3 = Some (e_clock e2 (e_ticks e2 + 2))"
    if "mfa_ready h r e2 w1 \<and> totp_verify_at (ms_totp (mh_service h)) (en_secret en) code (e_clock e2 (e_ticks e2))" for e2 code
    using confirm_runs [of h r e2 w1 u t code pu] that u ex t by auto
  ultimately show ?thesis using run t(1,2) by blast
qed

end
