(* ===== verification/MfaWitness.thy ===== *)
theory MfaWitness imports MfaClaims AuthWitness begin

text \<open>
  The properties of the second factors at a concrete state: the user 3 of \<open>AuthWitness\<close> with a confirmed authenticator,
  one recovery code, a verification a minute old and a pending challenge.
\<close>

definition demo_totp :: totp_ext where
  "demo_totp = \<lparr>mx_hmac_sha1 = (\<lambda>key msg. drop 4 msg @ replicate 16 (char_of (0 :: nat))), mx_upper = (\<lambda>s. s)\<rparr>"

definition demo_key :: string where
  "demo_key = ''12345678901234567890''"

definition demo_code :: string where
  "demo_code = ''correct horse''"

definition demo_recovery :: "time option \<Rightarrow> recovery_row" where
  "demo_recovery used = \<lparr>rc_id = 301, rc_user = 3, rc_hash = password_hash demo_crypto ''salt'' ''spare'', rc_used = used, rc_created = 0\<rparr>"

definition demo_challenge :: challenge_row where
  "demo_challenge = \<lparr>mc_id = 77, mc_user = 3, mc_tenant = Some 1, mc_expires = minutes 5, mc_created = 0, mc_claims = None\<rparr>"

definition demo_mfa :: mfa_db where
  "demo_mfa = auth_db.extend (demo_auth\<lparr>challenge_rows := [demo_challenge]\<rparr>)
     (mfa_db.fields [\<lparr>tt_user = 3, tt_secret = b32_encode demo_key, tt_confirmed = Some 1, tt_created = 0\<rparr>]
       [demo_recovery None] [] [] [\<lparr>mv_user = 3, mv_method = ''totp'', mv_at = 0\<rparr>])"

definition demo_mfa_service :: "'z mfa_db_scheme mfa_service" where
  "demo_mfa_service = \<lparr>ms_crypto = demo_crypto, ms_audit = demo_ext, ms_totp = demo_totp, ms_issuer = ''Qeet'',
     ms_send = (\<lambda>_ _ _ _. ret ())\<rparr>"

definition demo_mfa_handler :: "'z mfa_db_scheme mfa_handler" where
  "demo_mfa_handler = \<lparr>mh_service = demo_mfa_service, mh_webauthn = None\<rparr>"

text \<open>A minute after the beginning of time: the second window of the authenticator.\<close>

definition demo_minute :: env where
  "demo_minute = quiet_env (\<lambda>_. 60000000) (\<lambda>n. n + 500)"

lemma demo_mfa_rows:
  "totp_rows demo_mfa = [\<lparr>tt_user = 3, tt_secret = b32_encode demo_key, tt_confirmed = Some 1, tt_created = 0\<rparr>]"
  "recovery_rows demo_mfa = [demo_recovery None]" "factor_rows demo_mfa = []" "otp_rows demo_mfa = []"
  "verification_rows demo_mfa = [\<lparr>mv_user = 3, mv_method = ''totp'', mv_at = 0\<rparr>]"
  "audit_rows demo_mfa = []" "user_rows demo_mfa = [demo_user]" "challenge_rows demo_mfa = [demo_challenge]"
  "login_rows demo_mfa = []"
  by (simp_all add: demo_mfa_def auth_db.defs mfa_db.defs demo_auth_def)

lemma demo_spared: "mfa_collaborators_spare demo_mfa_handler"
  by (simp add: mfa_collaborators_spare_def demo_mfa_handler_def demo_mfa_service_def leaves_mfa_def ret_def mfa_same_def)

lemma demo_user_of: "require_user (demo_request 1 [] []) = Inr 3"
  by (simp add: require_user_def demo_request_def demo_principal_def)

lemma demo_exists: "user_exists 3 demo_mfa"
  by (simp add: user_exists_def demo_mfa_rows demo_user_def)

lemma demo_caller: "client_ip (demo_request 1 [] []) = ''10.0.0.1''"
  by code_simp

lemma demo_mfa_ready: "mfa_ready demo_mfa_handler (demo_request 1 [] []) demo_minute demo_mfa"
  by (simp add: demo_caller [unfolded One_nat_def] mfa_ready_def demo_mfa_handler_def demo_mfa_service_def demo_crypto_def demo_minute_def quiet_env_def
      no_faults_def demo_ext_def demo_mfa_rows demo_recovery_def inj_def)

lemma demo_truncate: "rfc_truncate (drop 4 (put_uint64 c) @ replicate 16 (char_of (0 :: nat))) = unat (c AND 0xff)" if "c \<in> {1, 2, 3}"
  using that by (auto simp: rfc_truncate_def put_uint64_def upt_rec Let_def nth_append)

lemma demo_codes:
  "rfc_code demo_totp demo_key 1 = ''000001''" "rfc_code demo_totp demo_key 2 = ''000002''" "rfc_code demo_totp demo_key 3 = ''000003''"
proof -
  have d: "nat_digits 1 = ''1''" "nat_digits 2 = ''2''" "nat_digits 3 = ''3''"
    by (subst nat_digits.simps, simp add: digit_char_def)+
  have five: "replicate 5 (CHR ''0'') = ''00000''" by (simp add: eval_nat_numeral)
  show "rfc_code demo_totp demo_key 1 = ''000001''" "rfc_code demo_totp demo_key 2 = ''000002''" "rfc_code demo_totp demo_key 3 = ''000003''"
    using d five by (simp_all add: rfc_code_def demo_totp_def demo_truncate zero_pad_def)
qed

lemma three_windows: "(\<exists>c. window_of 60000000 \<le> c + 1 \<and> c \<le> window_of 60000000 + 1 \<and> P c) \<longleftrightarrow> P 1 \<or> P 2 \<or> P 3"
proof -
  have "window_of 60000000 = 2" by (simp add: window_of_def)
  moreover have "2 \<le> c + 1 \<and> c \<le> 2 + 1 \<longleftrightarrow> c = 1 \<or> c = 2 \<or> c = 3" for c :: nat by auto
  ultimately show ?thesis by metis
qed

lemma demo_windows:
  "(\<exists>c. window_of 60000000 \<le> c + 1 \<and> c \<le> window_of 60000000 + 1 \<and> code = rfc_code demo_totp demo_key (of_nat c)) \<longleftrightarrow>
   code \<in> {''000001'', ''000002'', ''000003''}"
  unfolding three_windows using demo_codes by simp

lemma demo_accepts:
  "totp_verify_at demo_totp (b32_encode demo_key) code 60000000 \<longleftrightarrow> code \<in> {''000001'', ''000002'', ''000003''}"
  using totp_verify_at_rfc [of 60000000 demo_totp demo_key code] demo_windows by simp

section \<open>Codes\<close>

theorem totp_accepts_three_windows_witness:
  "totp_verify_at demo_totp (b32_encode demo_key) ''000001'' 60000000 \<and>
   totp_verify_at demo_totp (b32_encode demo_key) ''000003'' 60000000 \<and>
   \<not> totp_verify_at demo_totp (b32_encode demo_key) ''000004'' 60000000"
  using totp_accepts_three_windows [of 60000000 demo_totp demo_key] unfolding demo_windows by simp

definition demo_guarded :: "mfa_db auth_service" where
  "demo_guarded = demo_service\<lparr>as_mfa := Some (mfa_enroller_of demo_mfa_service)\<rparr>"

lemma demo_verify_code:
  "verify_code demo_mfa_service 3 ''000003'' demo_minute demo_mfa =
     (Inr None, demo_minute\<lparr>e_calls := 1, e_ticks := 1\<rparr>, demo_mfa)"
proof -
  have "trim_space ''000003'' = ''000003''" by (rule trim_space_visible) (simp add: visible_def)
  then show ?thesis using demo_accepts
    by (simp add: verify_code_def Let_def bind_io_def db_read_def db_call_def totp_of_def demo_mfa_rows totp_verify_def time_now_def
        ret_def demo_minute_def quiet_env_def demo_mfa_service_def)
qed

theorem recovery_codes_work_once_witness:
  "\<exists>e1 w1. verify_code demo_mfa_service 3 ''spare'' demo_minute demo_mfa = (Inr (Some 301), e1, w1) \<and>
     fst (verify_code demo_mfa_service 3 ''spare'' demo_minute w1) \<noteq> Inr (Some 301)"
proof -
  have trim: "trim_space ''spare'' = ''spare''" by (rule trim_space_visible) (simp add: visible_def)
  have "idkey_sized demo_crypto" by (auto simp: idkey_sized_def demo_crypto_def min_def)
  from verify_hash [OF this, of "''salt''" "''spare''" "''spare''"] have
    "password_verify demo_crypto (password_hash demo_crypto ''salt'' ''spare'') ''spare'' = Inr True" by simp
  then have "\<exists>e1 w1. verify_code demo_mfa_service 3 ''spare'' demo_minute demo_mfa = (Inr (Some 301), e1, w1)"
    using demo_accepts trim
    by (simp add: verify_code_def Let_def bind_io_def db_read_def db_write_def db_call_def totp_of_def demo_mfa_rows totp_verify_def
        time_now_def ret_def lift_res_def demo_minute_def quiet_env_def demo_mfa_service_def unused_recovery_codes_def demo_recovery_def)
  then obtain e1 w1 where run: "verify_code demo_mfa_service 3 ''spare'' demo_minute demo_mfa = (Inr (Some 301), e1, w1)" by blast
  have "verify_code demo_mfa_service 3 ''spare'' demo_minute w1 \<noteq> (Inr (Some 301), e2, w2)" for e2 w2
    by (rule recovery_codes_work_once [OF demo_spared run rtranclp.rtrancl_refl])
  then have "fst (verify_code demo_mfa_service 3 ''spare'' demo_minute w1) \<noteq> Inr (Some 301)"
    by (cases "verify_code demo_mfa_service 3 ''spare'' demo_minute w1") auto
  with run show ?thesis by blast
qed

lemma demo_login:
  assumes "no_faults e" and "e_clock e = (\<lambda>_. 60000000)"
  shows "\<exists>e2 w2. verify_for_login demo_mfa_service 3 ''000003'' e demo_mfa = (Inr True, e2, w2) \<and> no_faults e2 \<and>
     user_rows w2 = [demo_user] \<and> login_rows w2 = []"
proof -
  have f: "\<not> e_fault e k" for k using assms(1) by (simp add: no_faults_def)
  have trim: "trim_space ''000003'' = ''000003''" by (rule trim_space_visible) (simp add: visible_def)
  let ?e1 = "(next_call e)\<lparr>e_calls := Suc (Suc (e_calls e)), e_ticks := Suc (e_ticks e)\<rparr>"
  let ?w = "demo_mfa\<lparr>verification_rows := [\<lparr>mv_user = 3, mv_method = ''totp'', mv_at = 60000000\<rparr>]\<rparr>"
  have v: "verify_code demo_mfa_service 3 ''000003'' (next_call e) demo_mfa = (Inr None, ?e1, demo_mfa)"
    using f trim demo_accepts assms(2)
    by (simp add: verify_code_def Let_def bind_io_def db_read_def db_call_def totp_of_def demo_mfa_rows totp_verify_def time_now_def
        ret_def next_call_def demo_mfa_service_def)
  have "put_verification 3 ''totp'' 60000000 demo_mfa = Inr ?w" by (simp add: put_verification_def demo_mfa_rows)
  then have r: "record_verification 3 ''totp'' ?e1 demo_mfa =
      (Inr (), ?e1\<lparr>e_ticks := Suc (e_ticks ?e1), e_calls := Suc (e_calls ?e1)\<rparr>, ?w)"
    using f assms(2) by (simp add: record_verification_def upsert_mfa_verification_def bind_io_def time_now_def db_exec_def db_call_def
        Let_def next_call_def)
  have "in_tx (bind_io (verify_code demo_mfa_service 3 ''000003'') (\<lambda>found.
      then_io (record_verification 3 (method_used found)) (ret True))) e demo_mfa =
      (Inr True, next_call (?e1\<lparr>e_ticks := Suc (e_ticks ?e1), e_calls := Suc (e_calls ?e1)\<rparr>), ?w)"
    using assms(1) f r by (intro in_tx_live) (simp_all add: bind_io_def v ret_def method_used_def no_faults_def, simp_all add: next_call_def)
  then show ?thesis
    using f by (simp add: verify_for_login_def on_error_def no_faults_def next_call_def demo_mfa_rows)
qed

lemma new_session_runs:
  assumes "no_faults e" and "user_exists 3 w" and "login_rows w = []"
  shows "\<exists>raw e1 w1. create_login_session demo_auth_ext 3 [] [] e (w :: mfa_db) = (Inr raw, e1, w1)"
  using assms
  by (simp add: create_login_session_def new_refresh_token_def rand_read_def bind_io_def uuid_new_def time_now_def ret_def
      db_exec_def db_call_def Let_def demo_auth_ext_def demo_crypto_def insert_login_session_def no_faults_def)

theorem second_factor_is_proved_witness:
  "\<exists>cookie e' w'. complete_mfa_login_session demo_uuid demo_guarded ''77'' ''000003'' [] [] demo_minute demo_mfa =
     (Inr (3, 1, cookie), e', w') \<and> code_accepted demo_mfa_service 3 ''000003'' 60000000 demo_mfa w' \<and>
     mfa_verified_at 3 w' \<noteq> None"
proof -
  have m: "as_mfa demo_guarded = Some (mfa_enroller_of demo_mfa_service)" and x: "as_ext demo_guarded = demo_auth_ext"
    by (simp_all add: demo_guarded_def demo_service_def)
  have i: "demo_uuid ''77'' = Some 77" by code_simp
  let ?e = "demo_minute\<lparr>e_calls := 1, e_ticks := 1\<rparr>"
  have "no_faults ?e" "e_clock ?e = (\<lambda>_. 60000000)" by (simp_all add: demo_minute_def quiet_env_def no_faults_def)
  from demo_login [OF this] obtain e2 w2 where v: "verify_for_login demo_mfa_service 3 ''000003'' ?e demo_mfa = (Inr True, e2, w2)"
    and w2: "no_faults e2" "user_rows w2 = [demo_user]" "login_rows w2 = []" by blast
  let ?e3 = "e2\<lparr>e_calls := Suc (e_calls e2)\<rparr>" and ?w3 = "delete_challenge 77 w2"
  have "verify_and_consume demo_uuid demo_guarded ''77'' ''000003'' demo_minute demo_mfa = (Inr (3, 1, []), ?e3, ?w3)"
    unfolding verify_and_consume_def m i option.case
    using v w2(1) by (simp add: bind_io_def db_read_def db_write_def db_call_def Let_def find_challenge_def demo_mfa_rows demo_challenge_def time_now_def
        mfa_enroller_of_def ret_def demo_minute_def quiet_env_def ignore_error_def on_error_def no_faults_def option_nil_def minutes_def)
  moreover obtain raw e4 w4 where "create_login_session demo_auth_ext 3 [] [] ?e3 ?w3 = (Inr raw, e4, w4)"
    using new_session_runs [of ?e3 ?w3] w2
    by (auto simp: no_faults_def delete_challenge_def user_exists_def demo_user_def)
  ultimately have run: "complete_mfa_login_session demo_uuid demo_guarded ''77'' ''000003'' [] [] demo_minute demo_mfa =
      (Inr (3, 1, raw), e4, w4)"
    by (simp add: complete_mfa_login_session_def bind_io_def x ret_def)
  from second_factor_is_proved [OF m disjI2, OF run] have
    "code_accepted demo_mfa_service 3 ''000003'' (e_clock demo_minute (Suc (e_ticks demo_minute))) demo_mfa w4" "mfa_verified_at 3 w4 \<noteq> None"
    by blast+
  with run show ?thesis by (auto simp: demo_minute_def quiet_env_def)
qed

section \<open>Ownership and the step-up window\<close>

text \<open>The rows of user 9 while user 3 switches the authenticator off.\<close>

theorem second_factors_are_own_witness:
  "\<exists>res e' w'. mfa_serve demo_mfa_handler demo_uuid (demo_request 1 [] []) DisableTotp demo_minute demo_mfa = (res, e', w') \<and>
     mfa_part_of 9 w' = mfa_part_of 9 demo_mfa"
proof -
  have "mfa_ok demo_mfa"
    by (simp add: mfa_ok_def demo_mfa_rows demo_recovery_def user_ids_def demo_user_def)
  moreover obtain res e' w' where
    run: "mfa_serve demo_mfa_handler demo_uuid (demo_request 1 [] []) DisableTotp demo_minute demo_mfa = (res, e', w')"
    by (metis prod_cases3)
  ultimately show ?thesis using second_factors_are_own [OF demo_spared _ run] demo_user_of by simp
qed

theorem step_up_is_earned_witness:
  "\<exists>res e' w'. mfa_serve demo_mfa_handler demo_uuid (demo_request 1 [] []) (ConfirmTotp (Inr ''000003'')) demo_minute demo_mfa = (res, e', w') \<and>
     mfa_verified_at 3 w' \<noteq> mfa_verified_at 3 demo_mfa \<and>
     proves_factor demo_mfa_handler 3 (ConfirmTotp (Inr ''000003'')) 60000000 demo_mfa w'"
proof -
  have ok: "mfa_ok demo_mfa"
    by (simp add: mfa_ok_def demo_mfa_rows demo_recovery_def user_ids_def demo_user_def)
  have "totp_verify_at (ms_totp (mh_service demo_mfa_handler)) (b32_encode demo_key) ''000003'' (e_clock demo_minute (e_ticks demo_minute))"
    using demo_accepts by (simp add: demo_mfa_handler_def demo_mfa_service_def demo_minute_def quiet_env_def)
  then obtain cs e' w' where
    run: "mfa_serve demo_mfa_handler demo_uuid (demo_request 1 [] []) (ConfirmTotp (Inr ''000003'')) demo_minute demo_mfa =
      (Inr (200, MfaCodes cs), e', w')" and new: "mfa_verified_at 3 w' = Some 60000000"
    using confirm_runs [OF demo_mfa_ready demo_user_of demo_exists, of
        "\<lparr>tt_user = 3, tt_secret = b32_encode demo_key, tt_confirmed = Some 1, tt_created = 0\<rparr>" "''000003''" demo_uuid]
    by (auto simp: totp_of_def demo_mfa_rows demo_minute_def quiet_env_def)
  have old: "mfa_verified_at 3 demo_mfa = Some 0" by (simp add: mfa_verified_at_def demo_mfa_rows)
  from step_up_is_earned [OF demo_spared ok run, of 3] new old
  have "proves_factor demo_mfa_handler 3 (ConfirmTotp (Inr ''000003'')) 60000000 demo_mfa w'"
    by (auto simp: demo_minute_def quiet_env_def)
  with run new old show ?thesis by auto
qed

theorem step_up_gate_is_exact_witness:
  "\<exists>e' w'. mfa_serve demo_mfa_handler demo_uuid (demo_request 1 [] []) DisableTotp demo_minute demo_mfa = (Inr (204, MfaNone), e', w') \<and>
     totp_of 3 w' = None"
proof -
  have "in_window 3 demo_minute demo_mfa"
    by (simp add: in_window_def mfa_verified_at_def demo_mfa_rows demo_minute_def quiet_env_def minutes_def)
  with step_up_gate_is_exact [OF disjI1 [OF refl], THEN conjunct2, rule_format, OF conjI, OF demo_mfa_ready demo_user_of, of demo_uuid]
  show ?thesis by auto
qed

theorem access_token_replaces_factor_witness:
  "\<exists>en e1 w1. mfa_serve demo_mfa_handler demo_uuid (demo_request 1 [] []) (StartTotp []) demo_minute demo_mfa =
     (Inr (200, MfaEnrollment en), e1, w1) \<and>
     fst (me_enrolled (mfa_enroller_of demo_mfa_service) 3 demo_minute w1) = Inr False"
  using access_token_replaces_factor [OF demo_mfa_ready demo_user_of demo_exists, of demo_uuid "[]"]
  by (force simp: demo_mfa_handler_def demo_minute_def)

end
