(* ===== verification/OidcStore.thy ===== *)
theory OidcStore imports AuthLogin Totp begin

text \<open>
  The tables of the OpenID provider (migrations 0019, 0027, 0048, 0070, 0073 and 0074) and the generated queries of
  \<^verbatim>\<open>internal/federation/oidc/dbgen/queries.sql.go\<close>. A statement is an error or a value with the new state; \<^verbatim>\<open>NOW()\<close>
  and the defaults of the tables are read from the environment.
\<close>

section \<open>Tables\<close>

record client_row =
  cl_id :: uuid
  cl_tenant :: uuid
  cl_client :: string
  cl_secret :: "string option"
  cl_type :: string
  cl_name :: string
  cl_redirects :: "string list"
  cl_logouts :: "string list"
  cl_grants :: "string list"
  cl_scopes :: "string list"
  cl_created :: time
  cl_reviewed :: "(time \<times> uuid) option"

record code_row =
  az_hash :: string
  az_client :: string
  az_user :: uuid
  az_tenant :: uuid
  az_redirect :: string
  az_scopes :: "string list"
  az_nonce :: "string option"
  az_challenge :: "string option"
  az_method :: "string option"
  az_expires :: time
  az_used :: "time option"
  az_created :: time

record oauth_grant_row =
  gt_id :: uuid
  gt_hash :: string
  gt_client :: string
  gt_user :: uuid
  gt_tenant :: uuid
  gt_scopes :: "string list"
  gt_issued :: time
  gt_expires :: time
  gt_used :: "time option"
  gt_replaced :: "uuid option"
  gt_revoked :: "time option"
  gt_resource :: "string option"

record consent_row =
  cn_user :: uuid
  cn_client :: string
  cn_scopes :: "string list"
  cn_granted :: time

text \<open>Requests that a user decides out of band: devices, and backchannel requests, whose user is known.\<close>

record devcode_row =
  dv_id :: uuid
  dv_hash :: string
  dv_code :: string
  dv_client :: string
  dv_tenant :: uuid
  dv_user :: "uuid option"
  dv_scopes :: "string list"
  dv_status :: string
  dv_interval :: int
  dv_polled :: "time option"
  dv_expires :: time
  dv_approved :: "time option"
  dv_consumed :: "time option"
  dv_created :: time

record ciba_row =
  cb_id :: uuid
  cb_hash :: string
  cb_client :: string
  cb_tenant :: uuid
  cb_user :: uuid
  cb_scopes :: "string list"
  cb_message :: "string option"
  cb_status :: string
  cb_interval :: int
  cb_polled :: "time option"
  cb_consumed :: "time option"
  cb_expires :: time
  cb_approved :: "time option"
  cb_created :: time

record oidc_db = auth_db +
  client_rows :: "client_row list"
  code_rows :: "code_row list"
  grant_rows :: "oauth_grant_row list"
  consent_rows :: "consent_row list"
  devcode_rows :: "devcode_row list"
  ciba_rows :: "ciba_row list"

abbreviation tenant_exists :: "uuid \<Rightarrow> 'z oidc_db_scheme \<Rightarrow> bool" where
  "tenant_exists t w \<equiv> t \<in> set (tenant_ids w)"

definition nullif_empty :: "string \<Rightarrow> string option" where
  "nullif_empty s = (if s = [] then None else Some s)"

section \<open>Clients\<close>

definition find_client :: "string \<Rightarrow> 'z oidc_db_scheme \<Rightarrow> client_row option" where
  "find_client client w = List.find (\<lambda>c. cl_client c = client) (client_rows w)"

definition client_for_auth :: "string \<Rightarrow> 'z oidc_db_scheme \<Rightarrow> (string option \<times> string \<times> string list) option" where
  "client_for_auth client w = map_option (\<lambda>c. (cl_secret c, cl_type c, cl_grants c)) (find_client client w)"

definition client_grant_types :: "string \<Rightarrow> 'z oidc_db_scheme \<Rightarrow> string list option" where
  "client_grant_types client w = map_option cl_grants (find_client client w)"

definition client_name_row :: "string \<Rightarrow> 'z oidc_db_scheme \<Rightarrow> (string \<times> uuid) option" where
  "client_name_row client w = map_option (\<lambda>c. (cl_name c, cl_tenant c)) (find_client client w)"

definition client_post_logout_uris :: "string \<Rightarrow> 'z oidc_db_scheme \<Rightarrow> string list option" where
  "client_post_logout_uris client w = map_option cl_logouts (find_client client w)"

definition client_redirect_info :: "string \<Rightarrow> 'z oidc_db_scheme \<Rightarrow> (uuid \<times> string list \<times> string list) option" where
  "client_redirect_info client w = map_option (\<lambda>c. (cl_tenant c, cl_scopes c, cl_redirects c)) (find_client client w)"

definition client_tenant_and_scopes :: "string \<Rightarrow> 'z oidc_db_scheme \<Rightarrow> (uuid \<times> string list) option" where
  "client_tenant_and_scopes client w = map_option (\<lambda>c. (cl_tenant c, cl_scopes c)) (find_client client w)"

definition get_oidc_client :: "uuid \<Rightarrow> uuid \<Rightarrow> 'z oidc_db_scheme \<Rightarrow> client_row option" where
  "get_oidc_client i tenant w = List.find (\<lambda>c. cl_id c = i \<and> cl_tenant c = tenant) (client_rows w)"

definition list_oidc_clients :: "uuid \<Rightarrow> 'z oidc_db_scheme \<Rightarrow> client_row list" where
  "list_oidc_clients tenant w = sort_key (\<lambda>c. - cl_created c) (filter (\<lambda>c. cl_tenant c = tenant) (client_rows w))"

definition put_client :: "client_row \<Rightarrow> 'z oidc_db_scheme \<Rightarrow> go_error + 'z oidc_db_scheme" where
  "put_client c w =
     (if cl_type c \<notin> {''confidential'', ''public''} then Inl check_violation
      else if cl_id c \<in> cl_id ` set (client_rows w) \<or> find_client (cl_client c) w \<noteq> None then Inl unique_violation
      else if \<not> tenant_exists (cl_tenant c) w then Inl foreign_key_violation
      else Inr (w\<lparr>client_rows := client_rows w @ [c]\<rparr>))"

definition insert_oidc_client :: "(uuid \<Rightarrow> time \<Rightarrow> client_row) \<Rightarrow> ('z oidc_db_scheme, client_row) io" where
  "insert_oidc_client mk =
     bind_io uuid_new (\<lambda>i.
     bind_io time_now (\<lambda>now.
     then_io (db_exec (put_client (mk i now))) (ret (mk i now))))"

record client_patch =
  up_name :: "string option"
  up_redirects :: "string list option"
  up_logouts :: "string list option"
  up_grants :: "string list option"
  up_scopes :: "string list option"

definition patched :: "client_patch \<Rightarrow> client_row \<Rightarrow> client_row" where
  "patched p c = c\<lparr>cl_name := (case up_name p of None \<Rightarrow> cl_name c | Some v \<Rightarrow> v),
     cl_redirects := (case up_redirects p of None \<Rightarrow> cl_redirects c | Some v \<Rightarrow> v),
     cl_logouts := (case up_logouts p of None \<Rightarrow> cl_logouts c | Some v \<Rightarrow> v),
     cl_grants := (case up_grants p of None \<Rightarrow> cl_grants c | Some v \<Rightarrow> v),
     cl_scopes := (case up_scopes p of None \<Rightarrow> cl_scopes c | Some v \<Rightarrow> v)\<rparr>"

definition update_oidc_client ::
  "client_patch \<Rightarrow> uuid \<Rightarrow> uuid \<Rightarrow> 'z oidc_db_scheme \<Rightarrow> client_row option \<times> 'z oidc_db_scheme" where
  "update_oidc_client p i tenant w =
     (map_option (patched p) (get_oidc_client i tenant w),
      w\<lparr>client_rows := map (\<lambda>c. if cl_id c = i \<and> cl_tenant c = tenant then patched p c else c) (client_rows w)\<rparr>)"

definition update_oidc_client_secret :: "string \<Rightarrow> uuid \<Rightarrow> uuid \<Rightarrow> 'z oidc_db_scheme \<Rightarrow> 'z oidc_db_scheme" where
  "update_oidc_client_secret hash i tenant w =
     w\<lparr>client_rows := map (\<lambda>c. if cl_id c = i \<and> cl_tenant c = tenant then c\<lparr>cl_secret := Some hash\<rparr> else c) (client_rows w)\<rparr>"

definition delete_oidc_client :: "uuid \<Rightarrow> uuid \<Rightarrow> 'z oidc_db_scheme \<Rightarrow> string option \<times> 'z oidc_db_scheme" where
  "delete_oidc_client i tenant w =
     (map_option cl_client (get_oidc_client i tenant w),
      w\<lparr>client_rows := filter (\<lambda>c. \<not> (cl_id c = i \<and> cl_tenant c = tenant)) (client_rows w)\<rparr>)"

definition review_oidc_client ::
  "uuid \<Rightarrow> uuid \<Rightarrow> uuid \<Rightarrow> time \<Rightarrow> 'z oidc_db_scheme \<Rightarrow> (go_error + nat) \<times> 'z oidc_db_scheme" where
  "review_oidc_client reviewer i tenant now w =
     (let n = length (filter (\<lambda>c. cl_id c = i \<and> cl_tenant c = tenant) (client_rows w)) in
      if n \<noteq> 0 \<and> \<not> user_exists reviewer w then (Inl foreign_key_violation, w)
      else (Inr n, w\<lparr>client_rows := map (\<lambda>c. if cl_id c = i \<and> cl_tenant c = tenant
        then c\<lparr>cl_reviewed := Some (now, reviewer)\<rparr> else c) (client_rows w)\<rparr>))"

definition live_grants :: "string \<Rightarrow> time \<Rightarrow> 'z oidc_db_scheme \<Rightarrow> nat" where
  "live_grants client now w =
     length (filter (\<lambda>g. gt_client g = client \<and> gt_revoked g = None \<and> gt_expires g > now) (grant_rows w))"

definition list_shadow_ai :: "uuid \<Rightarrow> string list \<Rightarrow> time \<Rightarrow> 'z oidc_db_scheme \<Rightarrow> (client_row \<times> nat) list" where
  "list_shadow_ai tenant machine now w =
     sort_key (\<lambda>(_, n). - int n) (sort_key (\<lambda>(c, _). - cl_created c)
       (map (\<lambda>c. (c, live_grants (cl_client c) now w))
         (filter (\<lambda>c. cl_tenant c = tenant \<and> cl_reviewed c = None \<and> (\<exists>g \<in> set (cl_grants c). g \<in> set machine))
           (client_rows w))))"

section \<open>Authorization codes and consents\<close>

definition code_ttl :: time where
  "code_ttl = minutes 10"

definition put_code :: "code_row \<Rightarrow> 'z oidc_db_scheme \<Rightarrow> go_error + 'z oidc_db_scheme" where
  "put_code c w =
     (if az_hash c \<in> az_hash ` set (code_rows w) then Inl unique_violation
      else Inr (w\<lparr>code_rows := code_rows w @ [c]\<rparr>))"

definition insert_authorization_code ::
  "string \<Rightarrow> string \<Rightarrow> uuid \<Rightarrow> uuid \<Rightarrow> string \<Rightarrow> string list \<Rightarrow> string \<Rightarrow> string \<Rightarrow> string \<Rightarrow> ('z oidc_db_scheme, unit) io" where
  "insert_authorization_code hash client user tenant redirect scopes nonce challenge method =
     bind_io time_now (\<lambda>now.
       db_exec (put_code \<lparr>az_hash = hash, az_client = client, az_user = user, az_tenant = tenant, az_redirect = redirect,
         az_scopes = scopes, az_nonce = nullif_empty nonce, az_challenge = nullif_empty challenge,
         az_method = nullif_empty method, az_expires = now + code_ttl, az_used = None, az_created = now\<rparr>))"

definition consume_authorization_code :: "string \<Rightarrow> string \<Rightarrow> 'z oidc_db_scheme \<Rightarrow> code_row option" where
  "consume_authorization_code hash client w = List.find (\<lambda>c. az_hash c = hash \<and> az_client c = client) (code_rows w)"

definition mark_code_used :: "string \<Rightarrow> time \<Rightarrow> 'z oidc_db_scheme \<Rightarrow> 'z oidc_db_scheme" where
  "mark_code_used hash now w =
     w\<lparr>code_rows := map (\<lambda>c. if az_hash c = hash then c\<lparr>az_used := Some now\<rparr> else c) (code_rows w)\<rparr>"

definition get_consent :: "uuid \<Rightarrow> string \<Rightarrow> 'z oidc_db_scheme \<Rightarrow> string list option" where
  "get_consent user client w = map_option cn_scopes (List.find (\<lambda>c. cn_user c = user \<and> cn_client c = client) (consent_rows w))"

definition put_consent :: "uuid \<Rightarrow> string \<Rightarrow> string list \<Rightarrow> time \<Rightarrow> 'z oidc_db_scheme \<Rightarrow> go_error + 'z oidc_db_scheme" where
  "put_consent user client scopes now w =
     (if get_consent user client w \<noteq> None then
        Inr (w\<lparr>consent_rows := map (\<lambda>c. if cn_user c = user \<and> cn_client c = client
          then c\<lparr>cn_scopes := scopes, cn_granted := now\<rparr> else c) (consent_rows w)\<rparr>)
      else if \<not> user_exists user w then Inl foreign_key_violation
      else Inr (w\<lparr>consent_rows := consent_rows w @
        [\<lparr>cn_user = user, cn_client = client, cn_scopes = scopes, cn_granted = now\<rparr>]\<rparr>))"

definition upsert_consent :: "uuid \<Rightarrow> string \<Rightarrow> string list \<Rightarrow> ('z oidc_db_scheme, unit) io" where
  "upsert_consent user client scopes = bind_io time_now (\<lambda>now. db_exec (put_consent user client scopes now))"

section \<open>Refresh tokens\<close>

definition put_grant :: "oauth_grant_row \<Rightarrow> 'z oidc_db_scheme \<Rightarrow> go_error + 'z oidc_db_scheme" where
  "put_grant g w =
     (if gt_id g \<in> gt_id ` set (grant_rows w) \<or> gt_hash g \<in> gt_hash ` set (grant_rows w) then Inl unique_violation
      else if \<not> user_exists (gt_user g) w \<or> \<not> tenant_exists (gt_tenant g) w then Inl foreign_key_violation
      else Inr (w\<lparr>grant_rows := grant_rows w @ [g]\<rparr>))"

definition insert_rotated_grant ::
  "string \<Rightarrow> string \<Rightarrow> uuid \<Rightarrow> uuid \<Rightarrow> string list \<Rightarrow> time \<Rightarrow> string option \<Rightarrow> ('z oidc_db_scheme, uuid) io" where
  "insert_rotated_grant hash client user tenant scopes expires resource =
     bind_io uuid_new (\<lambda>i.
     bind_io time_now (\<lambda>now.
     then_io (db_exec (put_grant \<lparr>gt_id = i, gt_hash = hash, gt_client = client, gt_user = user, gt_tenant = tenant,
         gt_scopes = scopes, gt_issued = now, gt_expires = expires, gt_used = None, gt_replaced = None,
         gt_revoked = None, gt_resource = resource\<rparr>))
       (ret i)))"

definition insert_grant ::
  "string \<Rightarrow> string \<Rightarrow> uuid \<Rightarrow> uuid \<Rightarrow> string list \<Rightarrow> time \<Rightarrow> string option \<Rightarrow> ('z oidc_db_scheme, unit) io" where
  "insert_grant hash client user tenant scopes expires resource =
     then_io (insert_rotated_grant hash client user tenant scopes expires resource) (ret ())"

definition lock_grant :: "string \<Rightarrow> 'z oidc_db_scheme \<Rightarrow> oauth_grant_row option" where
  "lock_grant hash w = List.find (\<lambda>g. gt_hash g = hash) (grant_rows w)"

definition grant_for_introspect :: "string \<Rightarrow> 'z oidc_db_scheme \<Rightarrow> oauth_grant_row option" where
  "grant_for_introspect hash w = List.find (\<lambda>g. gt_hash g = hash) (grant_rows w)"

definition update_grants :: "(oauth_grant_row \<Rightarrow> bool) \<Rightarrow> (oauth_grant_row \<Rightarrow> oauth_grant_row) \<Rightarrow> 'z oidc_db_scheme \<Rightarrow> 'z oidc_db_scheme" where
  "update_grants P f w = w\<lparr>grant_rows := map (\<lambda>g. if P g then f g else g) (grant_rows w)\<rparr>"

definition mark_grant_used :: "uuid \<Rightarrow> uuid \<Rightarrow> time \<Rightarrow> 'z oidc_db_scheme \<Rightarrow> 'z oidc_db_scheme" where
  "mark_grant_used new_id i now = update_grants (\<lambda>g. gt_id g = i) (\<lambda>g. g\<lparr>gt_used := Some now, gt_replaced := Some new_id\<rparr>)"

definition revoke_grants_of :: "string \<Rightarrow> uuid \<Rightarrow> time \<Rightarrow> 'z oidc_db_scheme \<Rightarrow> 'z oidc_db_scheme" where
  "revoke_grants_of client user now =
     update_grants (\<lambda>g. gt_client g = client \<and> gt_user g = user \<and> gt_revoked g = None) (\<lambda>g. g\<lparr>gt_revoked := Some now\<rparr>)"

definition revoke_grant_by_hash :: "string \<Rightarrow> string \<Rightarrow> time \<Rightarrow> 'z oidc_db_scheme \<Rightarrow> 'z oidc_db_scheme" where
  "revoke_grant_by_hash hash client now =
     update_grants (\<lambda>g. gt_hash g = hash \<and> gt_client g = client \<and> gt_revoked g = None) (\<lambda>g. g\<lparr>gt_revoked := Some now\<rparr>)"

definition revoke_grant_chain :: "string \<Rightarrow> uuid \<Rightarrow> uuid \<Rightarrow> time \<Rightarrow> 'z oidc_db_scheme \<Rightarrow> 'z oidc_db_scheme" where
  "revoke_grant_chain client user tenant now =
     update_grants (\<lambda>g. gt_client g = client \<and> gt_user g = user \<and> gt_tenant g = tenant \<and> gt_revoked g = None)
       (\<lambda>g. g\<lparr>gt_revoked := Some now\<rparr>)"

definition grant_for_revoke :: "uuid \<Rightarrow> uuid \<Rightarrow> 'z oidc_db_scheme \<Rightarrow> (string \<times> uuid) option" where
  "grant_for_revoke i tenant w =
     map_option (\<lambda>g. (gt_client g, gt_user g)) (List.find (\<lambda>g. gt_id g = i \<and> gt_tenant g = tenant) (grant_rows w))"

text \<open>The address of the user of a row; the empty string when the join finds none.\<close>

definition email_of :: "uuid option \<Rightarrow> 'z oidc_db_scheme \<Rightarrow> string" where
  "email_of u w = (case List.find (\<lambda>r. Some (us_id r) = u) (user_rows w) of None \<Rightarrow> [] | Some r \<Rightarrow> us_email r)"

definition list_grant_rows :: "uuid \<Rightarrow> time \<Rightarrow> 'z oidc_db_scheme \<Rightarrow> (oauth_grant_row \<times> string) list" where
  "list_grant_rows tenant now w =
     map (\<lambda>g. (g, email_of (Some (gt_user g)) w)) (sort_key (\<lambda>g. - gt_issued g)
       (filter (\<lambda>g. gt_tenant g = tenant \<and> gt_revoked g = None \<and> gt_replaced g = None \<and> gt_expires g > now) (grant_rows w)))"

section \<open>Devices\<close>

definition put_devcode :: "devcode_row \<Rightarrow> 'z oidc_db_scheme \<Rightarrow> go_error + 'z oidc_db_scheme" where
  "put_devcode d w =
     (if dv_id d \<in> dv_id ` set (devcode_rows w) \<or> dv_hash d \<in> dv_hash ` set (devcode_rows w) \<or>
        dv_code d \<in> dv_code ` set (devcode_rows w) then Inl unique_violation
      else if \<not> tenant_exists (dv_tenant d) w then Inl foreign_key_violation
      else Inr (w\<lparr>devcode_rows := devcode_rows w @ [d]\<rparr>))"

definition insert_device_code ::
  "string \<Rightarrow> string \<Rightarrow> string \<Rightarrow> uuid \<Rightarrow> string list \<Rightarrow> int \<Rightarrow> ('z oidc_db_scheme, unit) io" where
  "insert_device_code hash code client tenant scopes interval =
     bind_io uuid_new (\<lambda>i.
     bind_io time_now (\<lambda>now.
       db_exec (put_devcode \<lparr>dv_id = i, dv_hash = hash, dv_code = code, dv_client = client, dv_tenant = tenant,
         dv_user = None, dv_scopes = scopes, dv_status = ''pending'', dv_interval = interval, dv_polled = None,
         dv_expires = now + minutes 10, dv_approved = None, dv_consumed = None, dv_created = now\<rparr>)))"

definition device_by_user_code :: "string \<Rightarrow> 'z oidc_db_scheme \<Rightarrow> devcode_row option" where
  "device_by_user_code code w = List.find (\<lambda>d. dv_code d = code) (devcode_rows w)"

definition lock_device_by_user_code :: "string \<Rightarrow> 'z oidc_db_scheme \<Rightarrow> devcode_row option" where
  "lock_device_by_user_code code w = List.find (\<lambda>d. dv_code d = code) (devcode_rows w)"

definition lock_device_by_code :: "string \<Rightarrow> 'z oidc_db_scheme \<Rightarrow> devcode_row option" where
  "lock_device_by_code hash w = List.find (\<lambda>d. dv_hash d = hash) (devcode_rows w)"

definition update_device :: "uuid \<Rightarrow> (devcode_row \<Rightarrow> devcode_row) \<Rightarrow> 'z oidc_db_scheme \<Rightarrow> 'z oidc_db_scheme" where
  "update_device i f w = w\<lparr>devcode_rows := map (\<lambda>d. if dv_id d = i then f d else d) (devcode_rows w)\<rparr>"

definition approve_device :: "uuid \<Rightarrow> uuid \<Rightarrow> time \<Rightarrow> 'z oidc_db_scheme \<Rightarrow> go_error + 'z oidc_db_scheme" where
  "approve_device user i now w =
     (if i \<in> dv_id ` set (devcode_rows w) \<and> \<not> user_exists user w then Inl foreign_key_violation
      else Inr (update_device i (\<lambda>d. d\<lparr>dv_status := ''authorized'', dv_user := Some user, dv_approved := Some now\<rparr>) w))"

definition deny_device :: "uuid \<Rightarrow> 'z oidc_db_scheme \<Rightarrow> 'z oidc_db_scheme" where
  "deny_device i = update_device i (\<lambda>d. d\<lparr>dv_status := ''denied''\<rparr>)"

definition touch_device_poll :: "uuid \<Rightarrow> time \<Rightarrow> 'z oidc_db_scheme \<Rightarrow> 'z oidc_db_scheme" where
  "touch_device_poll i now = update_device i (\<lambda>d. d\<lparr>dv_polled := Some now\<rparr>)"

definition consume_device :: "uuid \<Rightarrow> time \<Rightarrow> 'z oidc_db_scheme \<Rightarrow> 'z oidc_db_scheme" where
  "consume_device i now = update_device i (\<lambda>d. d\<lparr>dv_consumed := Some now\<rparr>)"

definition user_in_tenant :: "uuid \<Rightarrow> uuid \<Rightarrow> 'z oidc_db_scheme \<Rightarrow> bool" where
  "user_in_tenant user tenant w \<longleftrightarrow> (\<exists>u \<in> set (user_rows w). us_id u = user \<and> us_tenant u = Some tenant)"

definition list_device_rows :: "uuid \<Rightarrow> 'z oidc_db_scheme \<Rightarrow> (devcode_row \<times> string) list" where
  "list_device_rows tenant w =
     map (\<lambda>d. (d, email_of (dv_user d) w))
       (sort_key (\<lambda>d. - dv_created d) (filter (\<lambda>d. dv_tenant d = tenant) (devcode_rows w)))"

definition revoke_device_row :: "uuid \<Rightarrow> uuid \<Rightarrow> 'z oidc_db_scheme \<Rightarrow> (string \<times> string) option \<times> 'z oidc_db_scheme" where
  "revoke_device_row i tenant w =
     (map_option (\<lambda>d. (dv_client d, dv_code d)) (List.find (\<lambda>d. dv_id d = i \<and> dv_tenant d = tenant) (devcode_rows w)),
      w\<lparr>devcode_rows := map (\<lambda>d. if dv_id d = i \<and> dv_tenant d = tenant then d\<lparr>dv_status := ''denied''\<rparr> else d)
        (devcode_rows w)\<rparr>)"

section \<open>Backchannel requests\<close>

definition user_by_email_in_tenant :: "auth_ext \<Rightarrow> uuid \<Rightarrow> string \<Rightarrow> 'z oidc_db_scheme \<Rightarrow> uuid option" where
  "user_by_email_in_tenant x tenant email w =
     map_option us_id (List.find (\<lambda>u. us_tenant u = Some tenant \<and> tx_lower x (us_email u) = tx_lower x email \<and>
       us_deleted u = None) (user_rows w))"

definition put_ciba :: "ciba_row \<Rightarrow> 'z oidc_db_scheme \<Rightarrow> go_error + 'z oidc_db_scheme" where
  "put_ciba c w =
     (if cb_id c \<in> cb_id ` set (ciba_rows w) \<or> cb_hash c \<in> cb_hash ` set (ciba_rows w) then Inl unique_violation
      else if \<not> tenant_exists (cb_tenant c) w \<or> \<not> user_exists (cb_user c) w then Inl foreign_key_violation
      else Inr (w\<lparr>ciba_rows := ciba_rows w @ [c]\<rparr>))"

definition insert_ciba ::
  "string \<Rightarrow> string \<Rightarrow> uuid \<Rightarrow> uuid \<Rightarrow> string list \<Rightarrow> string option \<Rightarrow> int \<Rightarrow> ('z oidc_db_scheme, unit) io" where
  "insert_ciba hash client tenant user scopes message interval =
     bind_io uuid_new (\<lambda>i.
     bind_io time_now (\<lambda>now.
       db_exec (put_ciba \<lparr>cb_id = i, cb_hash = hash, cb_client = client, cb_tenant = tenant, cb_user = user,
         cb_scopes = scopes, cb_message = message, cb_status = ''pending'', cb_interval = interval, cb_polled = None,
         cb_consumed = None, cb_expires = now + minutes 10, cb_approved = None, cb_created = now\<rparr>)))"

definition list_pending_ciba :: "uuid \<Rightarrow> time \<Rightarrow> 'z oidc_db_scheme \<Rightarrow> ciba_row list" where
  "list_pending_ciba user now w =
     sort_key (\<lambda>c. - cb_created c)
       (filter (\<lambda>c. cb_user c = user \<and> cb_status c = ''pending'' \<and> cb_expires c > now) (ciba_rows w))"

definition lock_ciba :: "uuid \<Rightarrow> 'z oidc_db_scheme \<Rightarrow> ciba_row option" where
  "lock_ciba i w = List.find (\<lambda>c. cb_id c = i) (ciba_rows w)"

definition lock_ciba_by_hash :: "string \<Rightarrow> 'z oidc_db_scheme \<Rightarrow> ciba_row option" where
  "lock_ciba_by_hash hash w = List.find (\<lambda>c. cb_hash c = hash) (ciba_rows w)"

definition update_ciba :: "uuid \<Rightarrow> (ciba_row \<Rightarrow> ciba_row) \<Rightarrow> 'z oidc_db_scheme \<Rightarrow> 'z oidc_db_scheme" where
  "update_ciba i f w = w\<lparr>ciba_rows := map (\<lambda>c. if cb_id c = i then f c else c) (ciba_rows w)\<rparr>"

definition approve_ciba :: "uuid \<Rightarrow> time \<Rightarrow> 'z oidc_db_scheme \<Rightarrow> 'z oidc_db_scheme" where
  "approve_ciba i now = update_ciba i (\<lambda>c. c\<lparr>cb_status := ''authorized'', cb_approved := Some now\<rparr>)"

definition deny_ciba :: "uuid \<Rightarrow> 'z oidc_db_scheme \<Rightarrow> 'z oidc_db_scheme" where
  "deny_ciba i = update_ciba i (\<lambda>c. c\<lparr>cb_status := ''denied''\<rparr>)"

definition touch_ciba_poll :: "uuid \<Rightarrow> time \<Rightarrow> 'z oidc_db_scheme \<Rightarrow> 'z oidc_db_scheme" where
  "touch_ciba_poll i now = update_ciba i (\<lambda>c. c\<lparr>cb_polled := Some now\<rparr>)"

definition consume_ciba :: "uuid \<Rightarrow> time \<Rightarrow> 'z oidc_db_scheme \<Rightarrow> 'z oidc_db_scheme" where
  "consume_ciba i now = update_ciba i (\<lambda>c. c\<lparr>cb_consumed := Some now\<rparr>)"

end
