(* ===== verification/Oidc.thy ===== *)
theory Oidc imports OidcStore begin

text \<open>
  The OpenID provider, \<^verbatim>\<open>internal/federation/oidc/oidc.go\<close> and the services of \<^verbatim>\<open>clients_admin.go\<close>: clients,
  authorization codes with PKCE, consents, refresh tokens with rotation, token exchange, introspection, revocation and
  grants. The issuer of access tokens is the one of the authentication service (\<open>issue_access_full\<close>); the check of
  an access token, the signature of an ID token and the parser of UUIDs are parameters.
\<close>

record token_claims = access_claims +
  vc_actor_type :: string
  vc_agent :: string

record id_claims =
  ic_issuer :: string
  ic_subject :: string
  ic_audience :: string
  ic_expires :: int
  ic_issued :: int
  ic_tenant :: string
  ic_nonce :: "string option"

record 'w oidc_service =
  oi_tokens :: "'w auth_service"
  oi_verify :: "time \<Rightarrow> string \<Rightarrow> token_claims option"
  oi_sign_id :: "id_claims \<Rightarrow> string option"
  oi_uuid :: "string \<Rightarrow> uuid option"
  oi_upper :: "string \<Rightarrow> string"
  oi_notifier :: "(uuid \<Rightarrow> uuid \<Rightarrow> string \<Rightarrow> string \<Rightarrow> string \<Rightarrow> string \<Rightarrow> ('w, unit) io) option"

abbreviation oi_ext :: "'w oidc_service \<Rightarrow> auth_ext" where
  "oi_ext s \<equiv> as_ext (oi_tokens s)"

abbreviation oi_crypto :: "'w oidc_service \<Rightarrow> crypto_ext" where
  "oi_crypto s \<equiv> tx_crypto (as_ext (oi_tokens s))"

abbreviation oi_audit :: "'w oidc_service \<Rightarrow> audit_ext" where
  "oi_audit s \<equiv> tx_audit (as_ext (oi_tokens s))"

abbreviation api_bad :: "string \<Rightarrow> go_error" where
  "api_bad d \<equiv> ApiErr (with_detail ErrBadRequest d)"

abbreviation api_unauthorized :: "string \<Rightarrow> go_error" where
  "api_unauthorized d \<equiv> ApiErr (with_detail ErrUnauthorized d)"

abbreviation api_forbidden :: "string \<Rightarrow> go_error" where
  "api_forbidden d \<equiv> ApiErr (with_detail ErrForbidden d)"

definition join_scopes :: "string list \<Rightarrow> string" where
  "join_scopes scopes = str_join (CHR '' '') scopes"

text \<open>\<^verbatim>\<open>int(d.Seconds())\<close>: towards zero.\<close>

definition whole_seconds :: "time \<Rightarrow> int" where
  "whole_seconds d = (if d < 0 then - (- d div 1000000) else d div 1000000)"

section \<open>Registering clients\<close>

record client_input =
  in_tenant :: uuid
  in_name :: string
  in_type :: string
  in_redirects :: "string list"
  in_logouts :: "string list"
  in_grants :: "string list"
  in_scopes :: "string list"

definition client_secret :: "'w oidc_service \<Rightarrow> string \<Rightarrow> ('w, string \<times> string option) io" where
  "client_secret s typ =
     (if typ = ''confidential'' then
        bind_io (url_token (oi_crypto s)) (\<lambda>(raw, _).
        bind_io (hash_password (oi_crypto s) raw) (\<lambda>hash. ret (raw, Some hash)))
      else ret ([], None))"

definition register_client ::
  "'z oidc_db_scheme oidc_service \<Rightarrow> client_input \<Rightarrow> ('z oidc_db_scheme, client_row \<times> string) io" where
  "register_client s i =
     (let typ = (if in_type i = [] then ''confidential'' else in_type i);
          grants = (if in_grants i = [] then [''authorization_code'', ''refresh_token''] else in_grants i);
          scopes = (if in_scopes i = [] then [''openid'', ''profile'', ''email''] else in_scopes i) in
      bind_io uuid_new (\<lambda>n.
      bind_io (client_secret s typ) (\<lambda>(raw, hash).
      bind_io (insert_oidc_client (\<lambda>k now. \<lparr>cl_id = k, cl_tenant = in_tenant i, cl_client = ''qci_'' @ ax_uuid (oi_audit s) n,
        cl_secret = hash, cl_type = typ, cl_name = in_name i, cl_redirects = in_redirects i, cl_logouts = in_logouts i,
        cl_grants = grants, cl_scopes = scopes, cl_created = now, cl_reviewed = None\<rparr>)) (\<lambda>c.
        ret (c, raw)))))"

definition token_exchange_grant :: string where
  "token_exchange_grant = ''urn:ietf:params:oauth:grant-type:token-exchange''"

definition access_token_type :: string where
  "access_token_type = ''urn:ietf:params:oauth:token-type:access_token''"

definition machine_grant_types :: "string list" where
  "machine_grant_types = [''client_credentials'', token_exchange_grant]"

definition shadow_ai_candidates :: "uuid \<Rightarrow> ('z oidc_db_scheme, (client_row \<times> nat) list) io" where
  "shadow_ai_candidates tenant = bind_io time_now (\<lambda>now. db_read (list_shadow_ai tenant machine_grant_types now))"

definition review_shadow_ai :: "uuid \<Rightarrow> uuid \<Rightarrow> uuid \<Rightarrow> ('z oidc_db_scheme, unit) io" where
  "review_shadow_ai tenant i reviewer =
     bind_io time_now (\<lambda>now.
     bind_io (db_call (review_oidc_client reviewer i tenant now)) (\<lambda>n.
       if n = 0 then fail (ApiErr ErrNotFound) else ret ()))"

definition list_clients :: "uuid \<Rightarrow> ('z oidc_db_scheme, client_row list) io" where
  "list_clients tenant = db_read (list_oidc_clients tenant)"

definition get_client :: "uuid \<Rightarrow> uuid \<Rightarrow> ('z oidc_db_scheme, client_row) io" where
  "get_client tenant i =
     bind_io (db_read (get_oidc_client i tenant)) (\<lambda>row.
     case row of None \<Rightarrow> fail (ApiErr ErrNotFound) | Some c \<Rightarrow> ret c)"

definition update_client :: "uuid \<Rightarrow> uuid \<Rightarrow> client_patch \<Rightarrow> ('z oidc_db_scheme, client_row) io" where
  "update_client tenant i p =
     bind_io (db_call (\<lambda>w. let (row, w') = update_oidc_client p i tenant w in (Inr row, w'))) (\<lambda>row.
     case row of None \<Rightarrow> fail (ApiErr ErrNotFound) | Some c \<Rightarrow> ret c)"

definition delete_client :: "uuid \<Rightarrow> uuid \<Rightarrow> ('z oidc_db_scheme, string) io" where
  "delete_client tenant i =
     bind_io (db_call (\<lambda>w. let (row, w') = delete_oidc_client i tenant w in (Inr row, w'))) (\<lambda>row.
     case row of None \<Rightarrow> fail (ApiErr ErrNotFound) | Some c \<Rightarrow> ret c)"

definition rotate_client_secret ::
  "'z oidc_db_scheme oidc_service \<Rightarrow> uuid \<Rightarrow> uuid \<Rightarrow> ('z oidc_db_scheme, string \<times> client_row) io" where
  "rotate_client_secret s tenant i =
     bind_io (db_read (get_oidc_client i tenant)) (\<lambda>row.
     case row of
       None \<Rightarrow> fail (ApiErr ErrNotFound)
     | Some c \<Rightarrow>
         if cl_type c \<noteq> ''confidential'' then
           fail (ApiErr (with_detail ErrUnprocessable ''public clients have no secret to rotate''))
         else
           bind_io (url_token (oi_crypto s)) (\<lambda>(raw, _).
           bind_io (hash_password (oi_crypto s) raw) (\<lambda>hash.
           then_io (db_write (update_oidc_client_secret hash i tenant)) (ret (raw, c)))))"

section \<open>Authorization\<close>

definition authorize ::
  "'z oidc_db_scheme oidc_service \<Rightarrow> uuid \<Rightarrow> string \<Rightarrow> string \<Rightarrow> string list \<Rightarrow> string \<Rightarrow> string \<Rightarrow> string \<Rightarrow>
   ('z oidc_db_scheme, string \<times> uuid) io" where
  "authorize s user client redirect scopes nonce challenge method =
     bind_io (db_read (client_redirect_info client)) (\<lambda>info.
     case info of
       None \<Rightarrow> fail (api_bad ''unknown client'')
     | Some (tenant, allowed, redirects) \<Rightarrow>
         if redirect \<notin> set redirects then fail (api_bad ''redirect_uri not registered'')
         else case List.find (\<lambda>sc. sc \<notin> set allowed) scopes of
           Some sc \<Rightarrow> fail (api_bad (''scope not permitted: '' @ sc))
         | None \<Rightarrow>
             bind_io (url_token (oi_crypto s)) (\<lambda>(raw, hash).
             then_io (insert_authorization_code hash client user tenant redirect scopes nonce challenge method)
               (ret (raw, tenant))))"

definition client_name :: "string \<Rightarrow> ('z oidc_db_scheme, string \<times> uuid) io" where
  "client_name client =
     bind_io (db_read (client_name_row client)) (\<lambda>row.
     case row of None \<Rightarrow> fail (ApiErr ErrNotFound) | Some p \<Rightarrow> ret p)"

definition valid_post_logout :: "string \<Rightarrow> string \<Rightarrow> ('z oidc_db_scheme, bool) io" where
  "valid_post_logout client uri =
     bind_io (db_read (client_post_logout_uris client)) (\<lambda>row.
       ret (case row of None \<Rightarrow> False | Some uris \<Rightarrow> uri \<in> set uris))"

definition has_consent :: "uuid \<Rightarrow> string \<Rightarrow> string list \<Rightarrow> ('z oidc_db_scheme, bool) io" where
  "has_consent user client scopes =
     bind_io (db_read (get_consent user client)) (\<lambda>row.
       ret (case row of None \<Rightarrow> False | Some granted \<Rightarrow> set scopes \<subseteq> set granted))"

definition grant_consent :: "uuid \<Rightarrow> string \<Rightarrow> string list \<Rightarrow> ('z oidc_db_scheme, unit) io" where
  "grant_consent user client scopes = upsert_consent user client scopes"

section \<open>Tokens\<close>

record token_response =
  tr_access :: string
  tr_id :: string
  tr_refresh :: string
  tr_expires_in :: int
  tr_scope :: string
  tr_issued_type :: string

definition authenticate_client :: "'z oidc_db_scheme oidc_service \<Rightarrow> string \<Rightarrow> string \<Rightarrow> ('z oidc_db_scheme, string list) io" where
  "authenticate_client s client secret =
     bind_io (db_read (client_for_auth client)) (\<lambda>row.
     case row of
       None \<Rightarrow> fail (api_unauthorized ''unknown client'')
     | Some (hash, typ, grants) \<Rightarrow>
         if typ = ''confidential'' then
           (case hash of
              None \<Rightarrow> fail (api_unauthorized ''invalid client secret'')
            | Some h \<Rightarrow>
                bind_io (lift_res (password_verify (oi_crypto s) h secret)) (\<lambda>ok.
                if ok then ret grants else fail (api_unauthorized ''invalid client secret'')))
         else ret grants)"

definition sign_id_token :: "'w oidc_service \<Rightarrow> uuid \<Rightarrow> uuid \<Rightarrow> string \<Rightarrow> string \<Rightarrow> ('w, string) io" where
  "sign_id_token s user tenant audience nonce =
     bind_io time_now (\<lambda>now.
     case oi_sign_id s \<lparr>ic_issuer = as_issuer (oi_tokens s), ic_subject = ax_uuid (oi_audit s) user, ic_audience = audience,
         ic_expires = (now + as_access_ttl (oi_tokens s)) div 1000000, ic_issued = now div 1000000,
         ic_tenant = ax_uuid (oi_audit s) tenant, ic_nonce = nullif_empty nonce\<rparr> of
       None \<Rightarrow> fail (PlainErr ''sign'')
     | Some t \<Rightarrow> ret t)"

definition issue_grant ::
  "'z oidc_db_scheme oidc_service \<Rightarrow> string \<Rightarrow> uuid \<Rightarrow> uuid \<Rightarrow> string list \<Rightarrow> string \<Rightarrow> ('z oidc_db_scheme, string) io" where
  "issue_grant s client user tenant scopes resource =
     bind_io (new_refresh_token (oi_crypto s)) (\<lambda>(raw, hash).
     bind_io time_now (\<lambda>now.
     then_io (insert_grant hash client user tenant scopes (now + as_refresh_ttl (oi_tokens s)) (nullif_empty resource))
       (ret raw)))"

definition access_and_id ::
  "'z oidc_db_scheme oidc_service \<Rightarrow> string \<Rightarrow> uuid \<Rightarrow> uuid \<Rightarrow> string list \<Rightarrow> string \<Rightarrow> string \<Rightarrow>
   ('z oidc_db_scheme, string \<times> string) io" where
  "access_and_id s client user tenant scopes nonce resource =
     bind_io uuid_new (\<lambda>sid.
     bind_io (issue_access_full (oi_tokens s) user tenant sid (join_scopes scopes) None resource []) (\<lambda>(access, _).
     bind_io (if ''openid'' \<in> set scopes then sign_id_token s user tenant client nonce else ret []) (\<lambda>idt.
       ret (access, idt))))"

definition token_response_of :: "'w oidc_service \<Rightarrow> string \<Rightarrow> string \<Rightarrow> string \<Rightarrow> string list \<Rightarrow> token_response" where
  "token_response_of s access idt raw scopes =
     \<lparr>tr_access = access, tr_id = idt, tr_refresh = raw, tr_expires_in = whole_seconds (as_access_ttl (oi_tokens s)),
      tr_scope = join_scopes scopes, tr_issued_type = []\<rparr>"

definition issue_tokens ::
  "'z oidc_db_scheme oidc_service \<Rightarrow> string \<Rightarrow> string list \<Rightarrow> uuid \<Rightarrow> uuid \<Rightarrow> string list \<Rightarrow> string \<Rightarrow> string \<Rightarrow>
   ('z oidc_db_scheme, token_response) io" where
  "issue_tokens s client grants user tenant scopes nonce resource =
     bind_io (access_and_id s client user tenant scopes nonce resource) (\<lambda>(access, idt).
     bind_io (if ''refresh_token'' \<in> set grants then issue_grant s client user tenant scopes resource else ret []) (\<lambda>raw.
       ret (token_response_of s access idt raw scopes)))"

text \<open>The checks of PKCE: a code with a challenge asks for its verifier.\<close>

definition pkce_error :: "crypto_ext \<Rightarrow> code_row \<Rightarrow> string \<Rightarrow> go_error option" where
  "pkce_error x c verifier =
     (case az_challenge c of
        None \<Rightarrow> None
      | Some ch \<Rightarrow>
          if ch = [] then None
          else if verifier = [] then Some (api_bad ''code_verifier required'')
          else if az_method c \<noteq> Some ''S256'' then Some (api_bad ''unsupported code_challenge_method'')
          else if codes_hash x verifier \<noteq> ch then Some (api_bad ''invalid code_verifier'')
          else None)"

definition consume_code ::
  "'z oidc_db_scheme oidc_service \<Rightarrow> string \<Rightarrow> string \<Rightarrow> string \<Rightarrow> string \<Rightarrow> ('z oidc_db_scheme, code_row) io" where
  "consume_code s client code redirect verifier =
     (let hash = codes_hash (oi_crypto s) code in in_tx
       (bind_io (db_read (consume_authorization_code hash client)) (\<lambda>found.
        case found of
          None \<Rightarrow> fail (api_bad ''invalid code'')
        | Some c \<Rightarrow>
            if az_used c \<noteq> None then fail (api_bad ''code already used'')
            else bind_io time_now (\<lambda>now.
              if now > az_expires c then fail (api_bad ''code expired'')
              else if az_redirect c \<noteq> redirect then fail (api_bad ''redirect_uri mismatch'')
              else case pkce_error (oi_crypto s) c verifier of
                Some err \<Rightarrow> fail err
              | None \<Rightarrow>
                  bind_io time_now (\<lambda>used.
                  then_io (db_write (mark_code_used hash used)) (ret c))))))"

definition exchange_code ::
  "'z oidc_db_scheme oidc_service \<Rightarrow> string \<Rightarrow> string \<Rightarrow> string \<Rightarrow> string \<Rightarrow> string \<Rightarrow> string \<Rightarrow>
   ('z oidc_db_scheme, token_response) io" where
  "exchange_code s client secret code redirect verifier resource =
     bind_io (authenticate_client s client secret) (\<lambda>grants.
     bind_io (consume_code s client code redirect verifier) (\<lambda>c.
       issue_tokens s client grants (az_user c) (az_tenant c) (az_scopes c)
         (case az_nonce c of None \<Rightarrow> [] | Some n \<Rightarrow> n) resource))"

section \<open>Refresh\<close>

definition grant_reuse_event :: "audit_ext \<Rightarrow> string \<Rightarrow> uuid \<Rightarrow> uuid \<Rightarrow> uuid \<Rightarrow> audit_event" where
  "grant_reuse_event x client user tenant token =
     \<lparr>ev_tenant = Some tenant, ev_actor_user = Some user, ev_actor_type = ''system'',
      ev_action = ''oidc.refresh_reuse_detected'', ev_res_type = ''oidc_refresh_token'', ev_res_id = Some token,
      ev_ip = [], ev_user_agent = [], ev_request_id = [],
      ev_metadata = json_object [(''client_id'', json_quote client), (''reason'', json_quote ''refresh_token_reuse''),
        (''refresh_token_id'', json_quote (ax_uuid x token))]\<rparr>"

definition handle_grant_reuse ::
  "'z oidc_db_scheme oidc_service \<Rightarrow> string \<Rightarrow> uuid \<Rightarrow> uuid \<Rightarrow> uuid \<Rightarrow> ('z oidc_db_scheme, unit) io" where
  "handle_grant_reuse s client user tenant token =
     bind_io time_now (\<lambda>now.
     then_io (db_write (revoke_grants_of client user now))
       (record_audit (oi_audit s) (grant_reuse_event (oi_audit s) client user tenant token)))"

datatype grant_outcome =
    GrantReused
  | GrantRotated oauth_grant_row string string \<comment> \<open>the token redeemed, the new one, the resource\<close>

definition rotate_grant ::
  "'z oidc_db_scheme oidc_service \<Rightarrow> string \<Rightarrow> oauth_grant_row \<Rightarrow> string \<Rightarrow> ('z oidc_db_scheme, grant_outcome) io" where
  "rotate_grant s client g resource =
     (let res = (if resource = [] then (case gt_resource g of None \<Rightarrow> [] | Some v \<Rightarrow> v) else resource) in
      bind_io (new_refresh_token (oi_crypto s)) (\<lambda>(raw, hash).
      bind_io time_now (\<lambda>now.
      bind_io (insert_rotated_grant hash client (gt_user g) (gt_tenant g) (gt_scopes g) (now + as_refresh_ttl (oi_tokens s))
          (nullif_empty res)) (\<lambda>i.
      bind_io time_now (\<lambda>used.
      then_io (db_write (mark_grant_used i (gt_id g) used))
        (ret (GrantRotated g raw res)))))))"

definition redeem_grant ::
  "'z oidc_db_scheme oidc_service \<Rightarrow> string \<Rightarrow> string \<Rightarrow> string \<Rightarrow> ('z oidc_db_scheme, grant_outcome) io" where
  "redeem_grant s client raw resource =
     bind_io (db_read (lock_grant (hash_refresh (oi_crypto s) raw))) (\<lambda>found.
     case found of
       None \<Rightarrow> fail (api_unauthorized ''unknown refresh token'')
     | Some g \<Rightarrow>
         if gt_client g \<noteq> client then fail (api_unauthorized ''client mismatch'')
         else if gt_revoked g \<noteq> None then fail (api_unauthorized ''refresh token revoked'')
         else if gt_used g \<noteq> None then
           then_io (handle_grant_reuse s client (gt_user g) (gt_tenant g) (gt_id g)) (ret GrantReused)
         else bind_io time_now (\<lambda>now.
           if now > gt_expires g then fail (api_unauthorized ''refresh token expired'')
           else rotate_grant s client g resource))"

definition reuse_refused :: go_error where
  "reuse_refused = api_unauthorized (''refresh token reuse '' @ [CHR 0xE2, CHR 0x80, CHR 0x94] @ '' tokens revoked'')"

definition refresh_grant ::
  "'z oidc_db_scheme oidc_service \<Rightarrow> string \<Rightarrow> string \<Rightarrow> string \<Rightarrow> string \<Rightarrow> ('z oidc_db_scheme, token_response) io" where
  "refresh_grant s client secret raw resource =
     then_io (authenticate_client s client secret)
     (if raw = [] then fail (api_bad ''refresh_token required'')
      else
        bind_io (in_tx (redeem_grant s client raw resource)) (\<lambda>out.
        case out of
          GrantReused \<Rightarrow> fail reuse_refused
        | GrantRotated g new_raw res \<Rightarrow>
            bind_io (access_and_id s client (gt_user g) (gt_tenant g) (gt_scopes g) [] res) (\<lambda>(access, idt).
              ret (token_response_of s access idt new_raw (gt_scopes g)))))"

section \<open>Token exchange\<close>

definition downscope :: "string list \<Rightarrow> string \<Rightarrow> string list option" where
  "downscope held requested =
     (if trim_space requested = [] then Some held
      else let rs = str_fields requested in if set rs \<subseteq> set held then Some rs else None)"

record exchange_input =
  ex_subject :: string
  ex_subject_type :: string
  ex_requested_type :: string
  ex_scope :: string
  ex_actor :: string
  ex_actor_type :: string
  ex_resource :: string

definition verify_access :: "'w oidc_service \<Rightarrow> string \<Rightarrow> go_error \<Rightarrow> ('w, token_claims) io" where
  "verify_access s token err =
     bind_io time_now (\<lambda>now. case oi_verify s now token of None \<Rightarrow> fail err | Some c \<Rightarrow> ret c)"

definition actor_subject :: "'w oidc_service \<Rightarrow> exchange_input \<Rightarrow> ('w, string) io" where
  "actor_subject s i =
     (if ex_actor i = [] then ret []
      else if ex_actor_type i \<noteq> [] \<and> ex_actor_type i \<noteq> access_token_type then
        fail (api_bad ''only access_token actor_token_type is supported'')
      else bind_io (verify_access s (ex_actor i) (api_unauthorized ''invalid or expired actor_token'')) (\<lambda>a. ret (ac_subject a)))"

definition token_exchange ::
  "'z oidc_db_scheme oidc_service \<Rightarrow> string \<Rightarrow> string \<Rightarrow> exchange_input \<Rightarrow> ('z oidc_db_scheme, token_response) io" where
  "token_exchange s client secret i =
     bind_io (authenticate_client s client secret) (\<lambda>grants.
     if ''token_exchange'' \<notin> set grants \<and> token_exchange_grant \<notin> set grants then
       fail (api_forbidden ''client is not permitted the token-exchange grant'')
     else if ex_subject i = [] then fail (api_bad ''subject_token is required'')
     else if ex_subject_type i \<noteq> [] \<and> ex_subject_type i \<noteq> access_token_type then
       fail (api_bad ''only access_token subject_token_type is supported'')
     else if ex_requested_type i \<noteq> [] \<and> ex_requested_type i \<noteq> access_token_type then
       fail (api_bad ''only access_token requested_token_type is supported'')
     else
       bind_io (verify_access s (ex_subject i) (api_unauthorized ''invalid or expired subject_token'')) (\<lambda>c.
       case oi_uuid s (ac_subject c) of
         None \<Rightarrow> fail (api_unauthorized ''subject_token has no user subject'')
       | Some user \<Rightarrow>
           (case downscope (str_fields (ac_scope c)) (ex_scope i) of
              None \<Rightarrow> fail (api_forbidden (''requested scope exceeds the subject token'' @ [char_of (39::nat)] @ ''s scope''))
            | Some granted \<Rightarrow>
                bind_io (actor_subject s i) (\<lambda>actor.
                bind_io (if ac_session c = 0 then uuid_new else ret (ac_session c)) (\<lambda>sid.
                bind_io (issue_access_full (oi_tokens s) user (ac_tenant c) sid (join_scopes granted)
                    (nullif_empty actor) (ex_resource i) []) (\<lambda>(access, exp).
                bind_io time_now (\<lambda>now.
                  ret \<lparr>tr_access = access, tr_id = [], tr_refresh = [], tr_expires_in = whole_seconds (exp - now),
                       tr_scope = join_scopes granted, tr_issued_type = access_token_type\<rparr>)))))))"

section \<open>Revocation, introspection, grants\<close>

definition revoke_token ::
  "'z oidc_db_scheme oidc_service \<Rightarrow> string \<Rightarrow> string \<Rightarrow> string \<Rightarrow> string \<Rightarrow> ('z oidc_db_scheme, unit) io" where
  "revoke_token s client secret token hint =
     then_io (authenticate_client s client secret)
     (if token = [] \<or> hint = ''access_token'' then ret ()
      else bind_io time_now (\<lambda>now. db_write (revoke_grant_by_hash (hash_refresh (oi_crypto s) token) client now)))"

datatype introspection =
    Inactive
  | ActiveAccess token_claims
  | ActiveRefresh oauth_grant_row

definition introspect_grant :: "'z oidc_db_scheme oidc_service \<Rightarrow> string \<Rightarrow> ('z oidc_db_scheme, introspection) io" where
  "introspect_grant s token =
     bind_io (db_read (grant_for_introspect (hash_refresh (oi_crypto s) token))) (\<lambda>row.
     case row of
       None \<Rightarrow> ret Inactive
     | Some g \<Rightarrow>
         if gt_revoked g \<noteq> None \<or> gt_used g \<noteq> None then ret Inactive
         else bind_io time_now (\<lambda>now. ret (if \<not> now < gt_expires g then Inactive else ActiveRefresh g)))"

definition introspect ::
  "'z oidc_db_scheme oidc_service \<Rightarrow> string \<Rightarrow> string \<Rightarrow> string \<Rightarrow> string \<Rightarrow> ('z oidc_db_scheme, introspection) io" where
  "introspect s client secret token hint =
     then_io (authenticate_client s client secret)
     (if token = [] then ret Inactive
      else
        bind_io (if hint \<noteq> ''refresh_token'' then bind_io time_now (\<lambda>now. ret (oi_verify s now token)) else ret None) (\<lambda>c.
        case c of
          Some claims \<Rightarrow> ret (ActiveAccess claims)
        | None \<Rightarrow> if hint \<noteq> ''access_token'' then introspect_grant s token else ret Inactive))"

record grant_view =
  gv_id :: uuid
  gv_client :: string
  gv_user :: uuid
  gv_email :: string
  gv_scopes :: "string list"
  gv_issued :: time
  gv_expires :: time

definition list_grants :: "uuid \<Rightarrow> ('z oidc_db_scheme, grant_view list) io" where
  "list_grants tenant =
     bind_io time_now (\<lambda>now.
     bind_io (db_read (list_grant_rows tenant now)) (\<lambda>rows.
       ret (map (\<lambda>(g, email). \<lparr>gv_id = gt_id g, gv_client = gt_client g, gv_user = gt_user g, gv_email = email,
         gv_scopes = gt_scopes g, gv_issued = gt_issued g, gv_expires = gt_expires g\<rparr>) rows)))"

definition revoke_grant :: "uuid \<Rightarrow> uuid \<Rightarrow> ('z oidc_db_scheme, string \<times> uuid) io" where
  "revoke_grant tenant i =
     bind_io (db_read (grant_for_revoke i tenant)) (\<lambda>row.
     case row of
       None \<Rightarrow> fail (ApiErr ErrNotFound)
     | Some (client, user) \<Rightarrow>
         bind_io time_now (\<lambda>now.
         then_io (db_write (revoke_grant_chain client user tenant now)) (ret (client, user))))"

end
