(* ===== verification/OidcDevice.thy ===== *)
theory OidcDevice imports Oidc begin

text \<open>
  The two grants a user decides out of band: the device grant (RFC 8628, \<^verbatim>\<open>internal/federation/oidc/device.go\<close>) and
  backchannel authentication in poll mode (\<^verbatim>\<open>ciba.go\<close>). A token request polls; both grants poll the same way on their
  own table, which is \<open>poll\<close> here. An error that is answered after a commit is a value of the transaction.
\<close>

section \<open>Polling\<close>

record pending_request =
  pr_id :: uuid
  pr_client :: string
  pr_user :: "uuid option"
  pr_status :: string
  pr_interval :: int
  pr_polled :: "time option"
  pr_expires :: time
  pr_consumed :: "time option"

datatype poll_outcome =
    PollError string string
  | PollGranted uuid "string list" \<comment> \<open>the user, the grant types of the client\<close>

definition poll ::
  "(uuid \<Rightarrow> time \<Rightarrow> 'z oidc_db_scheme \<Rightarrow> 'z oidc_db_scheme) \<Rightarrow> (uuid \<Rightarrow> time \<Rightarrow> 'z oidc_db_scheme \<Rightarrow> 'z oidc_db_scheme) \<Rightarrow>
   string \<Rightarrow> string \<Rightarrow> string \<Rightarrow> pending_request option \<Rightarrow> ('z oidc_db_scheme, poll_outcome) io" where
  "poll touch consume name kind client found =
     (case found of
        None \<Rightarrow> fail (OAuthErr ''invalid_grant'' (''unknown '' @ name))
      | Some p \<Rightarrow>
          if pr_client p \<noteq> client then fail (OAuthErr ''invalid_grant'' ''client mismatch'')
          else if pr_consumed p \<noteq> None then fail (OAuthErr ''invalid_grant'' (name @ '' already used''))
          else
            bind_io time_now (\<lambda>now.
            bind_io time_now (\<lambda>polled.
            then_io (db_write (touch (pr_id p) polled))
            (if (case pr_polled p of None \<Rightarrow> False | Some t \<Rightarrow> now - t < pr_interval p * 1000000) then
               ret (PollError ''slow_down'' ''polling too frequently'')
             else if now > pr_expires p then ret (PollError ''expired_token'' (name @ '' expired''))
             else if pr_status p = ''pending'' then
               ret (PollError ''authorization_pending'' ''the user has not yet completed authorization'')
             else if pr_status p = ''denied'' then
               ret (PollError ''access_denied'' ''the user denied the authorization request'')
             else if pr_status p \<noteq> ''authorized'' then
               fail (OAuthErr ''invalid_grant'' (''invalid '' @ kind @ '' authorization state''))
             else case pr_user p of
               None \<Rightarrow> fail (OAuthErr ''invalid_grant'' ''device authorization has no bound user'')
             | Some user \<Rightarrow>
                 bind_io time_now (\<lambda>used.
                 then_io (db_write (consume (pr_id p) used))
                 (bind_io (db_read (client_grant_types client)) (\<lambda>grants.
                  case grants of None \<Rightarrow> fail ErrNoRows | Some gs \<Rightarrow> ret (PollGranted user gs))))))))"

definition device_pending :: "devcode_row \<Rightarrow> pending_request" where
  "device_pending d = \<lparr>pr_id = dv_id d, pr_client = dv_client d, pr_user = dv_user d, pr_status = dv_status d,
     pr_interval = dv_interval d, pr_polled = dv_polled d, pr_expires = dv_expires d, pr_consumed = dv_consumed d\<rparr>"

definition ciba_pending :: "ciba_row \<Rightarrow> pending_request" where
  "ciba_pending c = \<lparr>pr_id = cb_id c, pr_client = cb_client c, pr_user = Some (cb_user c), pr_status = cb_status c,
     pr_interval = cb_interval c, pr_polled = cb_polled c, pr_expires = cb_expires c, pr_consumed = cb_consumed c\<rparr>"

section \<open>The device grant\<close>

definition device_code_ttl :: time where
  "device_code_ttl = minutes 10"

definition device_poll_interval :: int where
  "device_poll_interval = 5"

definition user_code_alphabet :: string where
  "user_code_alphabet = ''BCDFGHJKLMNPQRSTVWXZ''"

text \<open>\<^verbatim>\<open>rand.Int\<close> is the argument \<open>draw\<close>, of the bound and of the state of the generator.\<close>

fun draw_letters :: "(nat \<Rightarrow> nat \<Rightarrow> nat option) \<Rightarrow> nat \<Rightarrow> ('w, string) io" where
  "draw_letters draw 0 = ret []"
| "draw_letters draw (Suc n) =
     bind_io uuid_new (\<lambda>k.
     case draw (length user_code_alphabet) k of
       None \<Rightarrow> fail (PlainErr ''rand'')
     | Some i \<Rightarrow> bind_io (draw_letters draw n) (\<lambda>s. ret (user_code_alphabet ! i # s)))"

definition generate_user_code :: "(nat \<Rightarrow> nat \<Rightarrow> nat option) \<Rightarrow> ('w, string) io" where
  "generate_user_code draw =
     bind_io (draw_letters draw 4) (\<lambda>a.
     bind_io (draw_letters draw 4) (\<lambda>b. ret (a @ ''-'' @ b)))"

fun try_user_codes ::
  "(nat \<Rightarrow> nat \<Rightarrow> nat option) \<Rightarrow> string \<Rightarrow> string \<Rightarrow> uuid \<Rightarrow> string list \<Rightarrow> nat \<Rightarrow> go_error \<Rightarrow> ('z oidc_db_scheme, string) io" where
  "try_user_codes draw hash client tenant scopes 0 err = fail err"
| "try_user_codes draw hash client tenant scopes (Suc n) err =
     bind_io (generate_user_code draw) (\<lambda>code.
     on_error (then_io (insert_device_code hash code client tenant scopes device_poll_interval) (ret code))
       (\<lambda>e. if is_unique e then try_user_codes draw hash client tenant scopes n e else fail e))"

definition device_authorize ::
  "'z oidc_db_scheme oidc_service \<Rightarrow> (nat \<Rightarrow> nat \<Rightarrow> nat option) \<Rightarrow> string \<Rightarrow> string list \<Rightarrow>
   ('z oidc_db_scheme, string \<times> string \<times> uuid) io" where
  "device_authorize s draw client asked =
     bind_io (db_read (client_tenant_and_scopes client)) (\<lambda>info.
     case info of
       None \<Rightarrow> fail (api_bad ''unknown client'')
     | Some (tenant, allowed) \<Rightarrow>
         (let scopes = (if asked = [] then allowed else asked) in
          case List.find (\<lambda>sc. sc \<notin> set allowed) scopes of
            Some sc \<Rightarrow> fail (api_bad (''scope not permitted: '' @ sc))
          | None \<Rightarrow>
              bind_io (url_token (oi_crypto s)) (\<lambda>(raw, hash).
              bind_io (try_user_codes draw hash client tenant scopes 5 db_down) (\<lambda>code.
                ret (raw, code, tenant)))))"

definition normalize_user_code :: "'w oidc_service \<Rightarrow> string \<Rightarrow> string" where
  "normalize_user_code s code =
     (let t = trim_space code in
      if \<forall>c \<in> set t. of_char c < (128::nat) then ascii_upper t else oi_upper s t)"

definition lookup_device ::
  "'z oidc_db_scheme oidc_service \<Rightarrow> string \<Rightarrow> ('z oidc_db_scheme, string \<times> string list) io" where
  "lookup_device s code =
     bind_io (db_read (device_by_user_code (normalize_user_code s code))) (\<lambda>row.
     case row of
       None \<Rightarrow> fail (ApiErr (with_detail ErrNotFound ''unknown user_code''))
     | Some d \<Rightarrow>
         bind_io time_now (\<lambda>now.
         if now > dv_expires d then fail (api_bad ''user_code expired'')
         else if dv_status d \<noteq> ''pending'' then
           fail (ApiErr (with_detail ErrConflict ''device authorization already decided''))
         else bind_io (client_name (dv_client d)) (\<lambda>(name, _). ret (name, dv_scopes d))))"

definition decide_device ::
  "'z oidc_db_scheme oidc_service \<Rightarrow> uuid \<Rightarrow> string \<Rightarrow> bool \<Rightarrow> ('z oidc_db_scheme, unit) io" where
  "decide_device s user code approve = in_tx
     (bind_io (db_read (lock_device_by_user_code (normalize_user_code s code))) (\<lambda>row.
      case row of
        None \<Rightarrow> fail (ApiErr (with_detail ErrNotFound ''unknown user_code''))
      | Some d \<Rightarrow>
          bind_io time_now (\<lambda>now.
          if now > dv_expires d then fail (api_bad ''user_code expired'')
          else if dv_status d \<noteq> ''pending'' then
            fail (ApiErr (with_detail ErrConflict ''device authorization already decided''))
          else if \<not> approve then db_write (deny_device (dv_id d))
          else
            bind_io (db_read (user_in_tenant user (dv_tenant d))) (\<lambda>ok.
            if \<not> ok then fail (api_forbidden (''user does not belong to the client'' @ [char_of (39::nat)] @ ''s tenant''))
            else
              then_io (upsert_consent user (dv_client d) (dv_scopes d))
              (bind_io time_now (\<lambda>at'. db_exec (approve_device user (dv_id d) at')))))))"

definition poll_device ::
  "'z oidc_db_scheme oidc_service \<Rightarrow> string \<Rightarrow> string \<Rightarrow> ('z oidc_db_scheme, poll_outcome \<times> devcode_row option) io" where
  "poll_device s client raw = in_tx
     (bind_io (db_read (lock_device_by_code (codes_hash (oi_crypto s) raw))) (\<lambda>row.
      bind_io (poll touch_device_poll consume_device ''device_code'' ''device'' client (map_option device_pending row))
        (\<lambda>out. ret (out, row))))"

definition device_token ::
  "'z oidc_db_scheme oidc_service \<Rightarrow> string \<Rightarrow> string \<Rightarrow> ('z oidc_db_scheme, token_response) io" where
  "device_token s client raw =
     (if raw = [] then fail (OAuthErr ''invalid_request'' ''device_code required'')
      else
        bind_io (poll_device s client raw) (\<lambda>(out, row).
        case out of
          PollError code d \<Rightarrow> fail (OAuthErr code d)
        | PollGranted user grants \<Rightarrow>
            (case row of
               None \<Rightarrow> fail ErrNoRows
             | Some d \<Rightarrow> issue_tokens s client grants user (dv_tenant d) (dv_scopes d) [] [])))"

definition list_devices :: "uuid \<Rightarrow> ('z oidc_db_scheme, (devcode_row \<times> string) list) io" where
  "list_devices tenant = db_read (list_device_rows tenant)"

definition revoke_device :: "uuid \<Rightarrow> uuid \<Rightarrow> ('z oidc_db_scheme, string \<times> string) io" where
  "revoke_device tenant i =
     bind_io (db_call (\<lambda>w. let (row, w') = revoke_device_row i tenant w in (Inr row, w'))) (\<lambda>row.
     case row of None \<Rightarrow> fail (ApiErr ErrNotFound) | Some p \<Rightarrow> ret p)"

section \<open>Backchannel authentication\<close>

definition grant_type_ciba :: string where
  "grant_type_ciba = ''urn:openid:params:grant-type:ciba''"

definition ciba_request_ttl :: time where
  "ciba_request_ttl = minutes 10"

definition ciba_poll_interval :: int where
  "ciba_poll_interval = 5"

definition notify_request ::
  "'z oidc_db_scheme oidc_service \<Rightarrow> string \<Rightarrow> uuid \<Rightarrow> uuid \<Rightarrow> string \<Rightarrow> ('z oidc_db_scheme, unit) io" where
  "notify_request s client tenant user message =
     (case oi_notifier s of
        None \<Rightarrow> ret ()
      | Some notify \<Rightarrow>
          ignore_error (bind_io (client_name client) (\<lambda>(name, _).
            notify tenant user ''info'' (name @ '' is requesting access'')
              (if message \<noteq> [] then message else ''Approve or deny this request from your account.'')
              ''/account/sign-in-requests'')))"

definition backchannel_authorize ::
  "'z oidc_db_scheme oidc_service \<Rightarrow> string \<Rightarrow> string \<Rightarrow> string \<Rightarrow> string \<Rightarrow> string \<Rightarrow> ('z oidc_db_scheme, string) io" where
  "backchannel_authorize s client secret hint scope message =
     bind_io (authenticate_client s client secret) (\<lambda>grants.
     if grant_type_ciba \<notin> set grants then
       fail (OAuthErr ''unauthorized_client'' ''client is not permitted the CIBA grant'')
     else if trim_space hint = [] then fail (OAuthErr ''invalid_request'' ''login_hint is required'')
     else
       bind_io (db_read (client_tenant_and_scopes client)) (\<lambda>info.
       case info of
         None \<Rightarrow> fail ErrNoRows
       | Some (tenant, allowed) \<Rightarrow>
           (let scopes = (if str_fields scope = [] then allowed else str_fields scope) in
            case List.find (\<lambda>sc. sc \<notin> set allowed) scopes of
              Some sc \<Rightarrow> fail (OAuthErr ''invalid_scope'' (''scope not permitted: '' @ sc))
            | None \<Rightarrow>
                bind_io (db_read (user_by_email_in_tenant (oi_ext s) tenant hint)) (\<lambda>u.
                case u of
                  None \<Rightarrow> fail (OAuthErr ''unknown_user_id'' ''login_hint does not resolve to a known user'')
                | Some user \<Rightarrow>
                    bind_io (url_token (oi_crypto s)) (\<lambda>(raw, hash).
                    then_io (insert_ciba hash client tenant user scopes (nullif_empty message) ciba_poll_interval)
                    (then_io (notify_request s client tenant user message) (ret raw)))))))"

record ciba_view =
  cv_id :: uuid
  cv_client_name :: string
  cv_scopes :: "string list"
  cv_message :: "string option"
  cv_created :: time
  cv_expires :: time

fun view_requests :: "ciba_row list \<Rightarrow> ('z oidc_db_scheme, ciba_view list) io" where
  "view_requests [] = ret []"
| "view_requests (c # cs) =
     bind_io (on_error (bind_io (client_name (cb_client c)) (\<lambda>(name, _). ret name)) (\<lambda>_. ret [])) (\<lambda>name.
     bind_io (view_requests cs) (\<lambda>vs.
       ret (\<lparr>cv_id = cb_id c, cv_client_name = name, cv_scopes = cb_scopes c, cv_message = cb_message c,
         cv_created = cb_created c, cv_expires = cb_expires c\<rparr> # vs)))"

definition pending_requests :: "uuid \<Rightarrow> ('z oidc_db_scheme, ciba_view list) io" where
  "pending_requests user =
     bind_io time_now (\<lambda>now. bind_io (db_read (list_pending_ciba user now)) view_requests)"

definition decide_backchannel :: "uuid \<Rightarrow> uuid \<Rightarrow> bool \<Rightarrow> ('z oidc_db_scheme, unit) io" where
  "decide_backchannel user i approve = in_tx
     (bind_io (db_read (lock_ciba i)) (\<lambda>row.
      case row of
        None \<Rightarrow> fail (ApiErr ErrNotFound)
      | Some c \<Rightarrow>
          if cb_user c \<noteq> user then fail (api_forbidden ''not your sign-in request'')
          else bind_io time_now (\<lambda>now.
            if now > cb_expires c then fail (api_bad ''request expired'')
            else if cb_status c \<noteq> ''pending'' then fail (ApiErr (with_detail ErrConflict ''request already decided''))
            else if \<not> approve then db_write (deny_ciba i)
            else bind_io time_now (\<lambda>at'. db_write (approve_ciba i at')))))"

definition poll_backchannel ::
  "'z oidc_db_scheme oidc_service \<Rightarrow> string \<Rightarrow> string \<Rightarrow> ('z oidc_db_scheme, poll_outcome \<times> ciba_row option) io" where
  "poll_backchannel s client raw = in_tx
     (bind_io (db_read (lock_ciba_by_hash (codes_hash (oi_crypto s) raw))) (\<lambda>row.
      bind_io (poll touch_ciba_poll consume_ciba ''auth_req_id'' ''backchannel'' client (map_option ciba_pending row))
        (\<lambda>out. ret (out, row))))"

definition backchannel_token ::
  "'z oidc_db_scheme oidc_service \<Rightarrow> string \<Rightarrow> string \<Rightarrow> ('z oidc_db_scheme, token_response) io" where
  "backchannel_token s client raw =
     (if raw = [] then fail (OAuthErr ''invalid_request'' ''auth_req_id required'')
      else
        bind_io (poll_backchannel s client raw) (\<lambda>(out, row).
        case out of
          PollError code d \<Rightarrow> fail (OAuthErr code d)
        | PollGranted user grants \<Rightarrow>
            (case row of
               None \<Rightarrow> fail ErrNoRows
             | Some c \<Rightarrow> issue_tokens s client grants user (cb_tenant c) (cb_scopes c) [] [])))"

end
