(* ===== verification/OidcHttp.thy ===== *)
theory OidcHttp imports OidcDevice AuthHttp begin

text \<open>
  The handlers of the OpenID provider: the browser endpoints with the hosted session (\<^verbatim>\<open>oidc.go\<close>, \<^verbatim>\<open>device.go\<close>),
  the token endpoint, and the administration of clients, grants and devices (\<^verbatim>\<open>clients_admin.go\<close>). The session
  manager is the authentication service, as in \<^verbatim>\<open>bootstrap/dependencies.go\<close>. A form or a body arrives decoded, or as
  the error of its decoder; whether \<^verbatim>\<open>url.Parse\<close> finds an absolute URI without a fragment is a parameter.
\<close>

record 'w oidc_handler =
  oh_service :: "'w oidc_service"
  oh_login_base :: string
  oh_cookie_secure :: bool
  oh_absolute :: "string \<Rightarrow> bool"
  oh_draw :: "nat \<Rightarrow> nat \<Rightarrow> nat option"

datatype oidc_body =
    ONone
  | ORedirect string
  | ORedirectUrl string
  | OTokens token_response
  | OError string string
  | OIntrospection introspection
  | OUserinfo uuid "uuid option"
  | OGrants "grant_view list"
  | OClient client_row
  | OClientSecret client_row string
  | OSecret string
  | OClients "client_row list"
  | OShadowAi "(client_row \<times> nat) list"
  | ODeviceCodes string string string int int
  | ODeviceContext string "string list"
  | OStatus string
  | ODevices "(devcode_row \<times> string) list"
  | ORequests "ciba_view list"
  | ORequestId string int int

type_synonym 'z oidc_reply = "('z oidc_db_scheme, nat \<times> oidc_body) io"

section \<open>The browser\<close>

text \<open>What a browser endpoint reads: the session cookie, and the request line with its host and TLS state.\<close>

record browser =
  br_cookie :: "string option"
  br_tls :: bool
  br_host :: string
  br_uri :: string
  br_raw_query :: string

definition session_user :: "'z oidc_db_scheme oidc_handler \<Rightarrow> browser \<Rightarrow> ('z oidc_db_scheme, uuid option) io" where
  "session_user h b =
     (case br_cookie b of
        None \<Rightarrow> ret None
      | Some raw \<Rightarrow>
          on_error (bind_io (resolve_login_session (oi_ext (oh_service h)) raw) (\<lambda>u. ret (Some u))) (\<lambda>_. ret None))"

definition external_scheme :: "request \<Rightarrow> browser \<Rightarrow> string" where
  "external_scheme r b =
     (let p = header_get r ''X-Forwarded-Proto'' in
      if p = ''https'' \<or> p = ''http'' then p
      else if br_tls b then ''https''
      else if has_prefix (br_host b) ''localhost'' \<or> has_prefix (br_host b) ''127.0.0.1'' then ''http''
      else ''https'')"

definition current_url :: "request \<Rightarrow> browser \<Rightarrow> string" where
  "current_url r b = external_scheme r b @ ''://'' @ br_host b @ br_uri b"

fun append_pairs :: "string \<Rightarrow> string \<Rightarrow> (string \<times> string) list \<Rightarrow> string" where
  "append_pairs out sep [] = out"
| "append_pairs out sep ((k, v) # kvs) =
     (if v = [] then append_pairs out sep kvs
      else append_pairs (out @ sep @ k @ ''='' @ query_escape v) ''&'' kvs)"

definition append_query :: "string \<Rightarrow> (string \<times> string) list \<Rightarrow> string" where
  "append_query base kvs = append_pairs base (if CHR ''?'' \<in> set base then ''&'' else ''?'') kvs"

definition issuer_of :: "'w oidc_handler \<Rightarrow> string" where
  "issuer_of h = as_issuer (oi_tokens (oh_service h))"

definition authorize_handler ::
  "'z oidc_db_scheme oidc_handler \<Rightarrow> request \<Rightarrow> browser \<Rightarrow> 'z oidc_reply" where
  "authorize_handler h r b =
     (let client = query_get r ''client_id''; redirect = query_get r ''redirect_uri'';
          scopes = str_fields (query_get r ''scope'') in
      bind_io (session_user h b) (\<lambda>u.
      case u of
        None \<Rightarrow> ret (302, ORedirect (oh_login_base h @ ''/login?return_to='' @ query_escape (current_url r b)))
      | Some user \<Rightarrow>
          bind_io (has_consent user client scopes) (\<lambda>has.
          if \<not> has then ret (302, ORedirect (oh_login_base h @ ''/consent?'' @ br_raw_query b))
          else
            bind_io (authorize (oh_service h) user client redirect scopes (query_get r ''nonce'')
                (query_get r ''code_challenge'') (query_get r ''code_challenge_method'')) (\<lambda>(code, _).
              ret (302, ORedirect (append_query redirect
                [(''code'', code), (''state'', query_get r ''state''), (''iss'', issuer_of h)]))))))"

record decision_input =
  di_approve :: bool
  di_client :: string
  di_redirect :: string
  di_scope :: string
  di_state :: string
  di_nonce :: string
  di_challenge :: string
  di_method :: string

definition decision_handler ::
  "'z oidc_db_scheme oidc_handler \<Rightarrow> browser \<Rightarrow> go_error + decision_input \<Rightarrow> 'z oidc_reply" where
  "decision_handler h b body =
     bind_io (session_user h b) (\<lambda>u.
     case u of
       None \<Rightarrow> fail (ApiErr ErrUnauthorized)
     | Some user \<Rightarrow>
         bind_io (lift_res body) (\<lambda>i.
         if \<not> di_approve i then
           ret (200, ORedirectUrl (append_query (di_redirect i)
             [(''error'', ''access_denied''), (''state'', di_state i), (''iss'', issuer_of h)]))
         else
           (let scopes = str_fields (di_scope i) in
            then_io (grant_consent user (di_client i) scopes)
            (bind_io (authorize (oh_service h) user (di_client i) (di_redirect i) scopes (di_nonce i) (di_challenge i)
                (di_method i)) (\<lambda>(code, _).
              ret (200, ORedirectUrl (append_query (di_redirect i)
                [(''code'', code), (''state'', di_state i), (''iss'', issuer_of h)])))))))"

text \<open>The answer also clears the session cookie.\<close>

definition end_session_handler ::
  "'z oidc_db_scheme oidc_handler \<Rightarrow> request \<Rightarrow> browser \<Rightarrow> ('z oidc_db_scheme, nat \<times> set_cookie \<times> oidc_body) io" where
  "end_session_handler h r b =
     (let redirect = query_get r ''post_logout_redirect_uri''; client = query_get r ''client_id'';
          cleared = clear_login_session_cookie (oh_cookie_secure h) in
      then_io (case br_cookie b of None \<Rightarrow> ret ()
        | Some raw \<Rightarrow> ignore_error (revoke_login_session (oi_ext (oh_service h)) raw))
      (bind_io (if redirect \<noteq> [] \<and> client \<noteq> [] then on_error (valid_post_logout client redirect) (\<lambda>_. ret False)
          else ret False) (\<lambda>ok.
        ret (302, cleared, ORedirect (if ok then append_query redirect [(''state'', query_get r ''state'')]
          else oh_login_base h @ ''/logged-out'')))))"

section \<open>The token endpoint\<close>

type_synonym form = "(string \<times> string) list"

definition form_get :: "form \<Rightarrow> string \<Rightarrow> string" where
  "form_get f k = (case alookup k f of None \<Rightarrow> [] | Some v \<Rightarrow> v)"

definition client_creds :: "form \<Rightarrow> (string \<times> string) option \<Rightarrow> string \<times> string" where
  "client_creds f basic =
     (case basic of None \<Rightarrow> (form_get f ''client_id'', form_get f ''client_secret'') | Some p \<Rightarrow> p)"

definition decoded_form :: "form option \<Rightarrow> go_error + form" where
  "decoded_form f = (case f of None \<Rightarrow> Inl (api_bad ''invalid form'') | Some v \<Rightarrow> Inr v)"

definition write_oauth :: "'z oidc_reply \<Rightarrow> 'z oidc_reply" where
  "write_oauth m = on_error m (\<lambda>err. case err of OAuthErr c d \<Rightarrow> ret (400, OError c d) | _ \<Rightarrow> fail err)"

definition token_handler ::
  "'z oidc_db_scheme oidc_handler \<Rightarrow> form option \<Rightarrow> (string \<times> string) option \<Rightarrow> 'z oidc_reply" where
  "token_handler h form basic =
     bind_io (lift_res (decoded_form form)) (\<lambda>f.
     let s = oh_service h; resource = form_get f ''resource''; (client, secret) = client_creds f basic;
         tokens = (\<lambda>m. bind_io m (\<lambda>t. ret (200, OTokens t))); kind = form_get f ''grant_type'' in
     if resource \<noteq> [] \<and> \<not> oh_absolute h resource then
       ret (400, OError ''invalid_target'' ''resource must be an absolute URI without a fragment'')
     else if kind = ''authorization_code'' then
       tokens (exchange_code s client secret (form_get f ''code'') (form_get f ''redirect_uri'') (form_get f ''code_verifier'')
         resource)
     else if kind = ''refresh_token'' then
       tokens (refresh_grant s client secret (form_get f ''refresh_token'') resource)
     else if kind = token_exchange_grant then
       tokens (token_exchange s client secret \<lparr>ex_subject = form_get f ''subject_token'',
         ex_subject_type = form_get f ''subject_token_type'', ex_requested_type = form_get f ''requested_token_type'',
         ex_scope = form_get f ''scope'', ex_actor = form_get f ''actor_token'',
         ex_actor_type = form_get f ''actor_token_type'', ex_resource = resource\<rparr>)
     else if kind = ''urn:ietf:params:oauth:grant-type:device_code'' then
       write_oauth (tokens (device_token s client (form_get f ''device_code'')))
     else if kind = grant_type_ciba then
       write_oauth (tokens (backchannel_token s client (form_get f ''auth_req_id'')))
     else fail (api_bad ''unsupported grant_type''))"

definition revoke_token_handler ::
  "'z oidc_db_scheme oidc_handler \<Rightarrow> form option \<Rightarrow> (string \<times> string) option \<Rightarrow> 'z oidc_reply" where
  "revoke_token_handler h form basic =
     bind_io (lift_res (decoded_form form)) (\<lambda>f.
     then_io (revoke_token (oh_service h) (fst (client_creds f basic)) (snd (client_creds f basic)) (form_get f ''token'')
         (form_get f ''token_type_hint''))
       (ret (200, ONone)))"

definition introspect_handler ::
  "'z oidc_db_scheme oidc_handler \<Rightarrow> form option \<Rightarrow> (string \<times> string) option \<Rightarrow> 'z oidc_reply" where
  "introspect_handler h form basic =
     bind_io (lift_res (decoded_form form)) (\<lambda>f.
     bind_io (introspect (oh_service h) (fst (client_creds f basic)) (snd (client_creds f basic)) (form_get f ''token'')
         (form_get f ''token_type_hint'')) (\<lambda>i.
       ret (200, OIntrospection i)))"

definition userinfo_handler :: "request \<Rightarrow> 'z oidc_reply" where
  "userinfo_handler r =
     bind_io (lift_res (require_user r)) (\<lambda>u. ret (200, OUserinfo u (Option.bind (rq_principal r) p_tenant_id)))"

section \<open>Administration\<close>

text \<open>\<^verbatim>\<open>auditActor\<close>; the handler that revokes a grant leaves the type of an actor without one at \<^verbatim>\<open>system\<close>.\<close>

definition oidc_actor :: "request \<Rightarrow> uuid option \<times> string" where
  "oidc_actor r =
     (case rq_principal r of
        None \<Rightarrow> (None, ''system'')
      | Some p \<Rightarrow> (p_user_id p, if p_actor_type p \<noteq> [] then p_actor_type p else ''user''))"

definition grant_actor :: "request \<Rightarrow> uuid option \<times> string" where
  "grant_actor r =
     (case rq_principal r of
        None \<Rightarrow> (None, ''system'')
      | Some p \<Rightarrow> (p_user_id p, if p_actor_type p \<noteq> [] then p_actor_type p else ''system''))"

definition oidc_record ::
  "'z oidc_db_scheme oidc_handler \<Rightarrow> request \<Rightarrow> uuid option \<times> string \<Rightarrow> uuid \<Rightarrow> string \<Rightarrow> string \<Rightarrow> uuid \<Rightarrow> string \<Rightarrow>
   ('z oidc_db_scheme, unit) io" where
  "oidc_record h r actor tenant action kind resource meta =
     record_audit (oi_audit (oh_service h))
       \<lparr>ev_tenant = Some tenant, ev_actor_user = fst actor, ev_actor_type = snd actor, ev_action = action,
        ev_res_type = kind, ev_res_id = Some resource, ev_ip = client_ip r, ev_user_agent = header_get r ''User-Agent'',
        ev_request_id = rq_id r, ev_metadata = meta\<rparr>"

definition json_strings :: "string list \<Rightarrow> string" where
  "json_strings xs = ''['' @ str_join (CHR '','') (map json_quote xs) @ '']''"

definition registered_meta :: "client_row \<Rightarrow> string" where
  "registered_meta c = json_object [(''client_id'', json_quote (cl_client c)), (''grant_types'', json_strings (cl_grants c)),
     (''name'', json_quote (cl_name c)), (''scopes'', json_strings (cl_scopes c)), (''type'', json_quote (cl_type c))]"

definition register_in_tx ::
  "'z oidc_db_scheme oidc_handler \<Rightarrow> request \<Rightarrow> client_input \<Rightarrow> 'z oidc_reply" where
  "register_in_tx h r i =
     bind_io (in_tx
       (bind_io (register_client (oh_service h) i) (\<lambda>(c, raw).
        then_io (oidc_record h r (oidc_actor r) (cl_tenant c) ''oidc.client_registered'' ''oidc_client'' (cl_id c) (registered_meta c))
          (ret (c, raw))))) (\<lambda>(c, raw).
       ret (201, OClientSecret c raw))"

definition register_client_handler ::
  "'z oidc_db_scheme oidc_handler \<Rightarrow> request \<Rightarrow> go_error + client_input \<Rightarrow> 'z oidc_reply" where
  "register_client_handler h r body = bind_io (lift_res body) (\<lambda>i. register_in_tx h r i)"

definition create_tenant_client_handler ::
  "'z oidc_db_scheme oidc_handler \<Rightarrow> (string \<Rightarrow> uuid option) \<Rightarrow> request \<Rightarrow> go_error + client_input \<Rightarrow> 'z oidc_reply" where
  "create_tenant_client_handler h pu r body =
     bind_io (lift_res (require_path_tenant pu r)) (\<lambda>tenant.
     bind_io (lift_res body) (\<lambda>i. register_in_tx h r (i\<lparr>in_tenant := tenant\<rparr>)))"

definition oidc_path_id :: "(string \<Rightarrow> uuid option) \<Rightarrow> request \<Rightarrow> go_error + uuid" where
  "oidc_path_id pu r = (case pu (url_param r ''id'') of None \<Rightarrow> Inl (api_bad ''invalid id'') | Some i \<Rightarrow> Inr i)"

definition list_clients_handler :: "(string \<Rightarrow> uuid option) \<Rightarrow> request \<Rightarrow> 'z oidc_reply" where
  "list_clients_handler pu r =
     bind_io (lift_res (require_path_tenant pu r)) (\<lambda>tenant.
     bind_io (list_clients tenant) (\<lambda>cs. ret (200, OClients cs)))"

definition get_client_handler :: "(string \<Rightarrow> uuid option) \<Rightarrow> request \<Rightarrow> 'z oidc_reply" where
  "get_client_handler pu r =
     bind_io (lift_res (require_path_tenant pu r)) (\<lambda>tenant.
     bind_io (lift_res (oidc_path_id pu r)) (\<lambda>i.
     bind_io (get_client tenant i) (\<lambda>c. ret (200, OClient c))))"

definition patch_client_handler ::
  "'z oidc_db_scheme oidc_handler \<Rightarrow> (string \<Rightarrow> uuid option) \<Rightarrow> request \<Rightarrow> go_error + client_patch \<Rightarrow> 'z oidc_reply" where
  "patch_client_handler h pu r body =
     bind_io (lift_res (require_path_tenant pu r)) (\<lambda>tenant.
     bind_io (lift_res (oidc_path_id pu r)) (\<lambda>i.
     bind_io (lift_res body) (\<lambda>p.
     bind_io (in_tx
       (bind_io (update_client tenant i p) (\<lambda>c.
        then_io (oidc_record h r (oidc_actor r) (cl_tenant c) ''oidc.client_updated'' ''oidc_client'' (cl_id c)
          (json_object [(''client_id'', json_quote (cl_client c)), (''name'', json_quote (cl_name c))])) (ret c)))) (\<lambda>c.
       ret (200, OClient c)))))"

definition delete_client_in_tenant ::
  "'z oidc_db_scheme oidc_handler \<Rightarrow> request \<Rightarrow> uuid \<Rightarrow> uuid \<Rightarrow> 'z oidc_reply" where
  "delete_client_in_tenant h r tenant i =
     then_io (in_tx
       (bind_io (delete_client tenant i) (\<lambda>client.
          oidc_record h r (oidc_actor r) tenant ''oidc.client_deleted'' ''oidc_client'' i
            (json_object [(''client_id'', json_quote client)]))))
       (ret (204, ONone))"

definition delete_client_handler ::
  "'z oidc_db_scheme oidc_handler \<Rightarrow> (string \<Rightarrow> uuid option) \<Rightarrow> request \<Rightarrow> 'z oidc_reply" where
  "delete_client_handler h pu r =
     bind_io (lift_res (require_path_tenant pu r)) (\<lambda>tenant.
     bind_io (lift_res (oidc_path_id pu r)) (\<lambda>i. delete_client_in_tenant h r tenant i))"

definition delete_client_by_scope ::
  "'z oidc_db_scheme oidc_handler \<Rightarrow> (string \<Rightarrow> uuid option) \<Rightarrow> request \<Rightarrow> 'z oidc_reply" where
  "delete_client_by_scope h pu r =
     bind_io (lift_res (require_tenant r)) (\<lambda>tenant.
     bind_io (lift_res (oidc_path_id pu r)) (\<lambda>i. delete_client_in_tenant h r tenant i))"

definition rotate_client_secret_handler ::
  "'z oidc_db_scheme oidc_handler \<Rightarrow> (string \<Rightarrow> uuid option) \<Rightarrow> request \<Rightarrow> 'z oidc_reply" where
  "rotate_client_secret_handler h pu r =
     bind_io (lift_res (require_path_tenant pu r)) (\<lambda>tenant.
     bind_io (lift_res (oidc_path_id pu r)) (\<lambda>i.
     bind_io (in_tx
       (bind_io (rotate_client_secret (oh_service h) tenant i) (\<lambda>(raw, c).
        then_io (oidc_record h r (oidc_actor r) (cl_tenant c) ''oidc.client_secret_rotated'' ''oidc_client'' (cl_id c)
          (json_object [(''client_id'', json_quote (cl_client c))])) (ret raw)))) (\<lambda>raw.
       ret (200, OSecret raw))))"

definition shadow_ai_handler :: "(string \<Rightarrow> uuid option) \<Rightarrow> request \<Rightarrow> 'z oidc_reply" where
  "shadow_ai_handler pu r =
     bind_io (lift_res (require_path_tenant pu r)) (\<lambda>tenant.
     bind_io (shadow_ai_candidates tenant) (\<lambda>cs. ret (200, OShadowAi cs)))"

definition review_shadow_ai_handler :: "(string \<Rightarrow> uuid option) \<Rightarrow> request \<Rightarrow> 'z oidc_reply" where
  "review_shadow_ai_handler pu r =
     bind_io (lift_res (require_path_tenant pu r)) (\<lambda>tenant.
     bind_io (lift_res (oidc_path_id pu r)) (\<lambda>i.
     case Option.bind (rq_principal r) p_user_id of
       None \<Rightarrow> fail (api_unauthorized ''review must be attributed to a human'')
     | Some u \<Rightarrow> then_io (review_shadow_ai tenant i u) (ret (204, ONone))))"

definition list_grants_handler :: "(string \<Rightarrow> uuid option) \<Rightarrow> request \<Rightarrow> 'z oidc_reply" where
  "list_grants_handler pu r =
     bind_io (lift_res (require_path_tenant pu r)) (\<lambda>tenant.
     bind_io (list_grants tenant) (\<lambda>gs. ret (200, OGrants gs)))"

definition revoke_grant_handler ::
  "'z oidc_db_scheme oidc_handler \<Rightarrow> (string \<Rightarrow> uuid option) \<Rightarrow> request \<Rightarrow> 'z oidc_reply" where
  "revoke_grant_handler h pu r =
     bind_io (lift_res (require_path_tenant pu r)) (\<lambda>tenant.
     bind_io (lift_res (oidc_path_id pu r)) (\<lambda>i.
     then_io (in_tx
       (bind_io (revoke_grant tenant i) (\<lambda>(client, user).
          oidc_record h r (grant_actor r) tenant ''oauth.grant_revoked'' ''oidc_grant'' user
            (json_object [(''client_id'', json_quote client)]))))
       (ret (204, ONone))))"

section \<open>Devices and backchannel requests\<close>

definition list_devices_handler :: "(string \<Rightarrow> uuid option) \<Rightarrow> request \<Rightarrow> 'z oidc_reply" where
  "list_devices_handler pu r =
     bind_io (lift_res (require_path_tenant pu r)) (\<lambda>tenant.
     bind_io (list_devices tenant) (\<lambda>ds. ret (200, ODevices ds)))"

definition revoke_device_handler ::
  "'z oidc_db_scheme oidc_handler \<Rightarrow> (string \<Rightarrow> uuid option) \<Rightarrow> request \<Rightarrow> 'z oidc_reply" where
  "revoke_device_handler h pu r =
     bind_io (lift_res (require_path_tenant pu r)) (\<lambda>tenant.
     bind_io (lift_res (oidc_path_id pu r)) (\<lambda>i.
     then_io (in_tx
       (bind_io (revoke_device tenant i) (\<lambda>(client, code).
          oidc_record h r (oidc_actor r) tenant ''oauth.device_revoked'' ''oidc_device_code'' i
            (json_object [(''client_id'', json_quote client), (''user_code'', json_quote code)]))))
       (ret (204, ONone))))"

definition device_authorization_handler ::
  "'z oidc_db_scheme oidc_handler \<Rightarrow> form option \<Rightarrow> (string \<times> string) option \<Rightarrow> 'z oidc_reply" where
  "device_authorization_handler h form basic =
     bind_io (lift_res (decoded_form form)) (\<lambda>f.
     let s = oh_service h; (client, secret) = client_creds f basic in
     then_io (authenticate_client s client secret)
     (bind_io (device_authorize s (oh_draw h) client (str_fields (form_get f ''scope''))) (\<lambda>(raw, code, _).
       ret (200, ODeviceCodes raw code (oh_login_base h @ ''/device'') (device_code_ttl div 1000000) device_poll_interval))))"

definition device_context_handler ::
  "'z oidc_db_scheme oidc_handler \<Rightarrow> request \<Rightarrow> browser \<Rightarrow> 'z oidc_reply" where
  "device_context_handler h r b =
     bind_io (session_user h b) (\<lambda>u.
     if u = None then fail (ApiErr ErrUnauthorized)
     else if query_get r ''user_code'' = [] then fail (api_bad ''user_code required'')
     else bind_io (lookup_device (oh_service h) (query_get r ''user_code'')) (\<lambda>(name, scopes). ret (200, ODeviceContext name scopes)))"

definition device_decision_handler ::
  "'z oidc_db_scheme oidc_handler \<Rightarrow> browser \<Rightarrow> go_error + bool \<times> string \<Rightarrow> 'z oidc_reply" where
  "device_decision_handler h b body =
     bind_io (session_user h b) (\<lambda>u.
     case u of
       None \<Rightarrow> fail (ApiErr ErrUnauthorized)
     | Some user \<Rightarrow>
         bind_io (lift_res body) (\<lambda>(approve, code).
         if code = [] then fail (api_bad ''user_code required'')
         else then_io (decide_device (oh_service h) user code approve)
           (ret (200, OStatus (if approve then ''authorized'' else ''denied'')))))"

definition backchannel_authorize_handler ::
  "'z oidc_db_scheme oidc_handler \<Rightarrow> form option \<Rightarrow> (string \<times> string) option \<Rightarrow> 'z oidc_reply" where
  "backchannel_authorize_handler h form basic =
     bind_io (lift_res (decoded_form form)) (\<lambda>f.
     write_oauth (bind_io (backchannel_authorize (oh_service h) (fst (client_creds f basic)) (snd (client_creds f basic))
         (form_get f ''login_hint'') (form_get f ''scope'') (form_get f ''binding_message'')) (\<lambda>raw.
       ret (200, ORequestId raw (ciba_request_ttl div 1000000) ciba_poll_interval))))"

definition pending_backchannel_handler :: "request \<Rightarrow> 'z oidc_reply" where
  "pending_backchannel_handler r =
     bind_io (lift_res (require_user r)) (\<lambda>u.
     bind_io (pending_requests u) (\<lambda>vs. ret (200, ORequests vs)))"

definition backchannel_decision_handler :: "request \<Rightarrow> go_error + uuid \<times> bool \<Rightarrow> 'z oidc_reply" where
  "backchannel_decision_handler r body =
     bind_io (lift_res (require_user r)) (\<lambda>u.
     bind_io (lift_res body) (\<lambda>(i, approve).
     then_io (decide_backchannel u i approve) (ret (200, OStatus (if approve then ''authorized'' else ''denied'')))))"

section \<open>The routes\<close>

datatype oidc_call =
    RegisterClient "go_error + client_input"
  | CreateClient "go_error + client_input"
  | ListClients
  | GetClient
  | PatchClient "go_error + client_patch"
  | DeleteClient
  | DeleteClientByScope
  | RotateSecret
  | ShadowAi
  | ReviewShadowAi
  | ListGrants
  | RevokeGrant
  | ListDevices
  | RevokeDevice
  | Userinfo
  | PendingRequests
  | DecideRequest "go_error + uuid \<times> bool"
  | Authorize
  | Decision "go_error + decision_input"
  | EndSession
  | TokenCode "form option" "(string \<times> string) option"
  | DeviceAuthorization "form option" "(string \<times> string) option"
  | DeviceContext
  | DeviceDecision "go_error + bool \<times> string"
  | BackchannelAuthorize "form option" "(string \<times> string) option"
  | RevokeToken "form option" "(string \<times> string) option"
  | Introspect "form option" "(string \<times> string) option"

definition oidc_serve ::
  "'z oidc_db_scheme oidc_handler \<Rightarrow> (string \<Rightarrow> uuid option) \<Rightarrow> request \<Rightarrow> browser \<Rightarrow> oidc_call \<Rightarrow> 'z oidc_reply" where
  "oidc_serve h pu r b c =
     (case c of
        RegisterClient body \<Rightarrow> register_client_handler h r body
      | CreateClient body \<Rightarrow> create_tenant_client_handler h pu r body
      | ListClients \<Rightarrow> list_clients_handler pu r
      | GetClient \<Rightarrow> get_client_handler pu r
      | PatchClient body \<Rightarrow> patch_client_handler h pu r body
      | DeleteClient \<Rightarrow> delete_client_handler h pu r
      | DeleteClientByScope \<Rightarrow> delete_client_by_scope h pu r
      | RotateSecret \<Rightarrow> rotate_client_secret_handler h pu r
      | ShadowAi \<Rightarrow> shadow_ai_handler pu r
      | ReviewShadowAi \<Rightarrow> review_shadow_ai_handler pu r
      | ListGrants \<Rightarrow> list_grants_handler pu r
      | RevokeGrant \<Rightarrow> revoke_grant_handler h pu r
      | ListDevices \<Rightarrow> list_devices_handler pu r
      | RevokeDevice \<Rightarrow> revoke_device_handler h pu r
      | Userinfo \<Rightarrow> userinfo_handler r
      | PendingRequests \<Rightarrow> pending_backchannel_handler r
      | DecideRequest body \<Rightarrow> backchannel_decision_handler r body
      | Authorize \<Rightarrow> authorize_handler h r b
      | Decision body \<Rightarrow> decision_handler h b body
      | EndSession \<Rightarrow> bind_io (end_session_handler h r b) (\<lambda>(n, _, body). ret (n, body))
      | TokenCode f basic \<Rightarrow> token_handler h f basic
      | DeviceAuthorization f basic \<Rightarrow> device_authorization_handler h f basic
      | DeviceContext \<Rightarrow> device_context_handler h r b
      | DeviceDecision body \<Rightarrow> device_decision_handler h b body
      | BackchannelAuthorize f basic \<Rightarrow> backchannel_authorize_handler h f basic
      | RevokeToken f basic \<Rightarrow> revoke_token_handler h f basic
      | Introspect f basic \<Rightarrow> introspect_handler h f basic)"

end
