(* ===== verification/OidcRows.thy ===== *)
theory OidcRows imports OidcHttp MfaOwn begin

text \<open>
  How the rows of codes, refresh tokens, devices and backchannel requests may change: no row goes away or changes what
  it was issued for, a new row has a new secret, what was used, revoked, consumed or decided stays so, and a request
  becomes authorized only as an allowance says. A refresh token is rooted in a code, a device or a backchannel request
  that was redeemed.
\<close>

section \<open>Rows that only advance\<close>

definition rows_advance ::
  "('r \<Rightarrow> 'r \<Rightarrow> bool) \<Rightarrow> ('r \<Rightarrow> 'k) \<Rightarrow> ('r \<Rightarrow> bool) \<Rightarrow> 'r list \<Rightarrow> 'r list \<Rightarrow> bool" where
  "rows_advance le key new rs rs' \<longleftrightarrow>
     (\<exists>old added. rs' = old @ added \<and> list_all2 le rs old \<and> key ` set added \<inter> key ` set rs = {} \<and> (\<forall>r \<in> set added. new r))"

text \<open>What holds of every row of a key, and stays true of a row, stays true of the key.\<close>

definition settled_key :: "('r \<Rightarrow> 'k) \<Rightarrow> ('r \<Rightarrow> bool) \<Rightarrow> 'k \<Rightarrow> 'r list \<Rightarrow> bool" where
  "settled_key key P k rs \<longleftrightarrow> (\<exists>r \<in> set rs. key r = k) \<and> (\<forall>r \<in> set rs. key r = k \<longrightarrow> P r)"

locale advancing =
  fixes le :: "'r \<Rightarrow> 'r \<Rightarrow> bool" and key :: "'r \<Rightarrow> 'k" and new :: "'r \<Rightarrow> bool"
  assumes le_refl: "le r r" and le_trans: "le a b \<Longrightarrow> le b c \<Longrightarrow> le a c" and le_key: "le a b \<Longrightarrow> key b = key a"
    and le_new: "le a b \<Longrightarrow> new a \<Longrightarrow> new b"
begin

lemma advance_map:
  assumes "\<And>r. r \<in> set rs \<Longrightarrow> le r (f r)"
  shows "rows_advance le key new rs (map f rs)"
  unfolding rows_advance_def
proof (intro exI conjI)
  show "map f rs = map f rs @ []" by simp
  show "list_all2 le rs (map f rs)" by (simp add: list_all2_map2 list.rel_refl_strong assms)
qed simp_all

lemma advance_refl: "rows_advance le key new rs rs"
  using advance_map [of rs id] le_refl by simp

lemma advance_append: "key r \<notin> key ` set rs \<Longrightarrow> new r \<Longrightarrow> rows_advance le key new rs (rs @ [r])"
  unfolding rows_advance_def
  by (intro exI [of _ rs] exI [of _ "[r]"]) (simp add: list.rel_refl le_refl)

lemma same_keys: "list_all2 le rs old \<Longrightarrow> key ` set old = key ` set rs"
  by (induction rule: list_all2_induct) (auto dest: le_key)

lemma all_new: "list_all2 le rs old \<Longrightarrow> \<forall>r \<in> set rs. new r \<Longrightarrow> \<forall>r \<in> set old. new r"
  by (induction rule: list_all2_induct) (auto dest: le_new)

lemma advance_trans:
  assumes "rows_advance le key new rs rs1" and "rows_advance le key new rs1 rs2"
  shows "rows_advance le key new rs rs2"
proof -
  from assms(1) obtain old n where 1: "rs1 = old @ n" "list_all2 le rs old" "key ` set n \<inter> key ` set rs = {}" "\<forall>r \<in> set n. new r"
    unfolding rows_advance_def by blast
  from assms(2) obtain old2 n2 where 2: "rs2 = old2 @ n2" "list_all2 le rs1 old2" "key ` set n2 \<inter> key ` set rs1 = {}"
      "\<forall>r \<in> set n2. new r"
    unfolding rows_advance_def by blast
  from 2(2) [unfolded 1(1) list_all2_append1] obtain a b where ab: "old2 = a @ b" "list_all2 le old a" "list_all2 le n b" by blast
  from 1(2) ab(2) have "list_all2 le rs a" by (rule list_all2_trans [rotated]) (rule le_trans)
  moreover have "key ` set (b @ n2) \<inter> key ` set rs = {}"
    using 1(3) 2(3) same_keys [OF 1(2)] same_keys [OF ab(3)] by (simp add: 1(1) image_Un Int_Un_distrib2 Int_Un_distrib)
  moreover have "\<forall>r \<in> set (b @ n2). new r" using all_new [OF ab(3) 1(4)] 2(4) by auto
  moreover have "rs2 = a @ (b @ n2)" using 2(1) ab(1) by simp
  ultimately show ?thesis unfolding rows_advance_def by blast
qed

lemma row_before:
  assumes "rows_advance le key new rs rs'" and "r' \<in> set rs'"
  shows "new r' \<or> (\<exists>r \<in> set rs. le r r')"
proof -
  from assms(1) obtain old n where 1: "rs' = old @ n" "list_all2 le rs old" "\<forall>r \<in> set n. new r" unfolding rows_advance_def by blast
  have "\<forall>r' \<in> set old. \<exists>r \<in> set rs. le r r'" using 1(2) by (induction rule: list_all2_induct) auto
  with 1 assms(2) show ?thesis by auto
qed

lemma row_after:
  assumes "rows_advance le key new rs rs'" and "r \<in> set rs"
  shows "\<exists>r' \<in> set rs'. le r r'"
proof -
  from assms(1) obtain old n where 1: "rs' = old @ n" "list_all2 le rs old" unfolding rows_advance_def by blast
  have "\<forall>r \<in> set rs. \<exists>r' \<in> set old. le r r'" using 1(2) by (induction rule: list_all2_induct) auto
  with 1 assms(2) show ?thesis by auto
qed

lemma settled_stays:
  assumes P: "\<And>a b. le a b \<Longrightarrow> P a \<Longrightarrow> P b" and "rows_advance le key new rs rs'" and s: "settled_key key P k rs"
  shows "settled_key key P k rs'"
proof -
  from assms(2) obtain old n where 1: "rs' = old @ n" "list_all2 le rs old" "key ` set n \<inter> key ` set rs = {}"
    unfolding rows_advance_def by blast
  have all: "\<forall>r' \<in> set old. \<exists>r \<in> set rs. le r r'" using 1(2) by (induction rule: list_all2_induct) auto
  from s obtain r where r: "r \<in> set rs" "key r = k" unfolding settled_key_def by blast
  then have "k \<in> key ` set old" unfolding same_keys [OF 1(2)] by blast
  then have "\<exists>r' \<in> set old. key r' = k" by blast
  moreover have "P r'" if r': "r' \<in> set old" "key r' = k" for r'
  proof -
    from all r'(1) obtain r where r: "r \<in> set rs" "le r r'" by blast
    with le_key [OF r(2)] r'(2) s have "P r" unfolding settled_key_def by simp
    then show ?thesis by (rule P [OF r(2)])
  qed
  moreover have "key r' \<noteq> k" if "r' \<in> set n" for r'
  proof
    assume "key r' = k"
    with that have "k \<in> key ` set n" by blast
    with 1(3) r show False by blast
  qed
  ultimately show ?thesis unfolding settled_key_def 1(1) by auto
qed

end

section \<open>The four tables\<close>

text \<open>
  What a request may do: the clients as they are, when it does not change them, the users as they are, for whom it may
  issue codes, which users may approve a device of a tenant by its user code, which users their backchannel requests.
\<close>

record allowance =
  al_clients :: "client_row list option"
  al_users :: "user_row list"
  al_code :: "string \<Rightarrow> uuid \<Rightarrow> uuid \<Rightarrow> string \<Rightarrow> string list \<Rightarrow> bool"
  al_device :: "uuid \<Rightarrow> uuid \<Rightarrow> string \<Rightarrow> bool"
  al_ciba :: "uuid \<Rightarrow> uuid \<Rightarrow> bool"

definition code_le :: "code_row \<Rightarrow> code_row \<Rightarrow> bool" where
  "code_le c c' \<longleftrightarrow> c' = c\<lparr>az_used := az_used c'\<rparr> \<and> (az_used c \<noteq> None \<longrightarrow> az_used c' \<noteq> None)"

definition code_new :: "allowance \<Rightarrow> code_row \<Rightarrow> bool" where
  "code_new A c \<longleftrightarrow> al_code A (az_client c) (az_user c) (az_tenant c) (az_redirect c) (az_scopes c)"

definition grant_le :: "oauth_grant_row \<Rightarrow> oauth_grant_row \<Rightarrow> bool" where
  "grant_le g g' \<longleftrightarrow> g' = g\<lparr>gt_used := gt_used g', gt_replaced := gt_replaced g', gt_revoked := gt_revoked g'\<rparr> \<and>
     (gt_used g \<noteq> None \<longrightarrow> gt_used g' \<noteq> None) \<and> (gt_revoked g \<noteq> None \<longrightarrow> gt_revoked g' \<noteq> None)"

definition device_new :: "allowance \<Rightarrow> devcode_row \<Rightarrow> bool" where
  "device_new A d \<longleftrightarrow> (dv_status d = ''authorized'' \<longrightarrow> (\<exists>u. dv_user d = Some u \<and> al_device A u (dv_tenant d) (dv_code d)))"

definition device_le :: "allowance \<Rightarrow> devcode_row \<Rightarrow> devcode_row \<Rightarrow> bool" where
  "device_le A d d' \<longleftrightarrow> d' = d\<lparr>dv_status := dv_status d', dv_user := dv_user d', dv_approved := dv_approved d',
       dv_polled := dv_polled d', dv_consumed := dv_consumed d'\<rparr> \<and> (dv_consumed d \<noteq> None \<longrightarrow> dv_consumed d' \<noteq> None) \<and>
     (dv_status d' = dv_status d \<and> dv_user d' = dv_user d \<or> dv_status d' = ''denied'' \<and> dv_user d' = dv_user d \<or>
      dv_status d = ''pending'' \<and> dv_status d' \<noteq> ''pending'' \<and> device_new A d')"

definition ciba_new :: "allowance \<Rightarrow> ciba_row \<Rightarrow> bool" where
  "ciba_new A c \<longleftrightarrow> (cb_status c = ''authorized'' \<longrightarrow> al_ciba A (cb_user c) (cb_id c))"

definition ciba_le :: "allowance \<Rightarrow> ciba_row \<Rightarrow> ciba_row \<Rightarrow> bool" where
  "ciba_le A c c' \<longleftrightarrow> c' = c\<lparr>cb_status := cb_status c', cb_approved := cb_approved c', cb_polled := cb_polled c',
       cb_consumed := cb_consumed c'\<rparr> \<and> (cb_consumed c \<noteq> None \<longrightarrow> cb_consumed c' \<noteq> None) \<and>
     (cb_status c' = cb_status c \<or> cb_status c = ''pending'' \<and> cb_status c' \<noteq> ''pending'' \<and> ciba_new A c')"

lemma code_le_fields:
  "code_le c c' \<Longrightarrow> az_hash c' = az_hash c \<and> az_client c' = az_client c \<and> az_user c' = az_user c \<and> az_tenant c' = az_tenant c \<and>
     az_redirect c' = az_redirect c \<and> az_scopes c' = az_scopes c \<and> (az_used c \<noteq> None \<longrightarrow> az_used c' \<noteq> None)"
  by (cases c; cases c') (simp add: code_le_def)

lemma grant_le_fields:
  "grant_le g g' \<Longrightarrow> gt_id g' = gt_id g \<and> gt_hash g' = gt_hash g \<and> gt_client g' = gt_client g \<and> gt_user g' = gt_user g \<and>
     gt_tenant g' = gt_tenant g \<and> gt_scopes g' = gt_scopes g \<and> (gt_used g \<noteq> None \<longrightarrow> gt_used g' \<noteq> None) \<and>
     (gt_revoked g \<noteq> None \<longrightarrow> gt_revoked g' \<noteq> None)"
  by (cases g; cases g') (simp add: grant_le_def)

lemma device_le_fields:
  "device_le A d d' \<Longrightarrow> dv_id d' = dv_id d \<and> dv_hash d' = dv_hash d \<and> dv_client d' = dv_client d \<and> dv_tenant d' = dv_tenant d \<and>
     dv_scopes d' = dv_scopes d \<and> (dv_consumed d \<noteq> None \<longrightarrow> dv_consumed d' \<noteq> None) \<and>
     (dv_status d \<noteq> ''pending'' \<longrightarrow> dv_status d' \<noteq> ''pending'' \<and> dv_user d' = dv_user d) \<and>
     dv_code d' = dv_code d \<and>
     (dv_status d' = ''authorized'' \<longrightarrow> dv_status d = ''authorized'' \<and> dv_user d' = dv_user d \<or>
        dv_status d = ''pending'' \<and> device_new A d')"
  by (cases d; cases d') (auto simp: device_le_def)

lemma ciba_le_fields:
  "ciba_le A c c' \<Longrightarrow> cb_id c' = cb_id c \<and> cb_hash c' = cb_hash c \<and> cb_client c' = cb_client c \<and> cb_user c' = cb_user c \<and>
     cb_tenant c' = cb_tenant c \<and> cb_scopes c' = cb_scopes c \<and> (cb_consumed c \<noteq> None \<longrightarrow> cb_consumed c' \<noteq> None) \<and>
     (cb_status c' = cb_status c \<or> cb_status c = ''pending'' \<and> cb_status c' \<noteq> ''pending'' \<and> ciba_new A c')"
  by (cases c; cases c') (auto simp: ciba_le_def)

interpretation codes: advancing code_le az_hash "code_new A" for A
proof
  fix a b c r :: code_row
  show "code_le r r" by (simp add: code_le_def)
  show "code_le a b \<Longrightarrow> code_le b c \<Longrightarrow> code_le a c" by (cases a; cases b; cases c) (simp add: code_le_def)
  show "code_le a b \<Longrightarrow> az_hash b = az_hash a" by (cases a; cases b) (simp add: code_le_def)
  show "code_le a b \<Longrightarrow> code_new A a \<Longrightarrow> code_new A b" by (cases a; cases b) (simp add: code_le_def code_new_def)
qed

interpretation grants: advancing grant_le gt_hash "\<lambda>_. True"
proof
  fix a b c r :: oauth_grant_row
  show "grant_le r r" by (simp add: grant_le_def)
  show "grant_le a b \<Longrightarrow> grant_le b c \<Longrightarrow> grant_le a c" by (cases a; cases b; cases c) (simp add: grant_le_def)
  show "grant_le a b \<Longrightarrow> gt_hash b = gt_hash a" by (cases a; cases b) (simp add: grant_le_def)
qed simp

interpretation devices: advancing "device_le A" dv_hash "device_new A" for A
proof
  fix a b c r :: devcode_row
  show "device_le A r r" by (simp add: device_le_def device_new_def)
  show "device_le A a b \<Longrightarrow> device_le A b c \<Longrightarrow> device_le A a c"
    by (cases a; cases b; cases c) (auto simp: device_le_def device_new_def)
  show "device_le A a b \<Longrightarrow> dv_hash b = dv_hash a" by (cases a; cases b) (simp add: device_le_def)
  show "device_le A a b \<Longrightarrow> device_new A a \<Longrightarrow> device_new A b"
    by (cases a; cases b) (auto simp: device_le_def device_new_def)
qed

interpretation requests: advancing "ciba_le A" cb_hash "ciba_new A" for A
proof
  fix a b c r :: ciba_row
  show "ciba_le A r r" by (simp add: ciba_le_def ciba_new_def)
  show "ciba_le A a b \<Longrightarrow> ciba_le A b c \<Longrightarrow> ciba_le A a c"
    by (cases a; cases b; cases c) (auto simp: ciba_le_def ciba_new_def)
  show "ciba_le A a b \<Longrightarrow> cb_hash b = cb_hash a" by (cases a; cases b) (simp add: ciba_le_def)
  show "ciba_le A a b \<Longrightarrow> ciba_new A a \<Longrightarrow> ciba_new A b" by (cases a; cases b) (auto simp: ciba_le_def ciba_new_def)
qed

definition oidc_advance :: "allowance \<Rightarrow> 'z oidc_db_scheme \<Rightarrow> 'z oidc_db_scheme \<Rightarrow> bool" where
  "oidc_advance A w w' \<longleftrightarrow> rows_advance code_le az_hash (code_new A) (code_rows w) (code_rows w') \<and>
     rows_advance grant_le gt_hash (\<lambda>_. True) (grant_rows w) (grant_rows w') \<and>
     rows_advance (device_le A) dv_hash (device_new A) (devcode_rows w) (devcode_rows w') \<and>
     rows_advance (ciba_le A) cb_hash (ciba_new A) (ciba_rows w) (ciba_rows w')"

lemma oidc_advance_trans: "oidc_advance A w w1 \<Longrightarrow> oidc_advance A w1 w2 \<Longrightarrow> oidc_advance A w w2"
  unfolding oidc_advance_def
  by (intro conjI; elim conjE) (erule codes.advance_trans grants.advance_trans devices.advance_trans requests.advance_trans; assumption)+

text \<open>A change of other tables.\<close>

definition oidc_same :: "'z oidc_db_scheme \<Rightarrow> 'z oidc_db_scheme \<Rightarrow> bool" where
  "oidc_same w w' \<longleftrightarrow> code_rows w' = code_rows w \<and> grant_rows w' = grant_rows w \<and> devcode_rows w' = devcode_rows w \<and>
     ciba_rows w' = ciba_rows w"

lemma same_advance: "oidc_same w w' \<Longrightarrow> oidc_advance A w w'"
  by (simp add: oidc_same_def oidc_advance_def codes.advance_refl grants.advance_refl devices.advance_refl requests.advance_refl)

section \<open>Where refresh tokens come from\<close>

text \<open>The client, the user, the tenant and the scopes of an authorization that was redeemed.\<close>

definition source :: "string \<Rightarrow> uuid \<Rightarrow> uuid \<Rightarrow> string list \<Rightarrow> 'z oidc_db_scheme \<Rightarrow> bool" where
  "source client user tenant scopes w \<longleftrightarrow>
     (\<exists>c \<in> set (code_rows w). az_client c = client \<and> az_user c = user \<and> az_tenant c = tenant \<and> az_scopes c = scopes \<and>
        az_used c \<noteq> None) \<or>
     (\<exists>d \<in> set (devcode_rows w). dv_client d = client \<and> dv_user d = Some user \<and> dv_tenant d = tenant \<and> dv_scopes d = scopes \<and>
        dv_consumed d \<noteq> None \<and> dv_status d \<noteq> ''pending'') \<or>
     (\<exists>c \<in> set (ciba_rows w). cb_client c = client \<and> cb_user c = user \<and> cb_tenant c = tenant \<and> cb_scopes c = scopes \<and>
        cb_consumed c \<noteq> None)"

definition rooted :: "'z oidc_db_scheme \<Rightarrow> bool" where
  "rooted w \<longleftrightarrow> (\<forall>g \<in> set (grant_rows w). source (gt_client g) (gt_user g) (gt_tenant g) (gt_scopes g) w)"

lemma source_stays:
  assumes a: "oidc_advance A w w'" and s: "source client user tenant scopes w"
  shows "source client user tenant scopes w'"
proof -
  from s consider
    (code) c where "c \<in> set (code_rows w)" "az_client c = client" "az_user c = user" "az_tenant c = tenant" "az_scopes c = scopes"
      "az_used c \<noteq> None"
  | (device) d where "d \<in> set (devcode_rows w)" "dv_client d = client" "dv_user d = Some user" "dv_tenant d = tenant"
      "dv_scopes d = scopes" "dv_consumed d \<noteq> None" "dv_status d \<noteq> ''pending''"
  | (ciba) c where "c \<in> set (ciba_rows w)" "cb_client c = client" "cb_user c = user" "cb_tenant c = tenant" "cb_scopes c = scopes"
      "cb_consumed c \<noteq> None"
    unfolding source_def by blast
  then show ?thesis
  proof cases
    case code
    from a code(1) obtain c' where c': "c' \<in> set (code_rows w')" "code_le c c'"
      unfolding oidc_advance_def using codes.row_after by blast
    with code code_le_fields [OF c'(2)]
    have "az_client c' = client \<and> az_user c' = user \<and> az_tenant c' = tenant \<and> az_scopes c' = scopes \<and> az_used c' \<noteq> None" by simp
    with c'(1) show ?thesis unfolding source_def by blast
  next
    case device
    from a device(1) obtain d' where d': "d' \<in> set (devcode_rows w')" "device_le A d d'"
      unfolding oidc_advance_def using devices.row_after by blast
    with device device_le_fields [OF d'(2)] have "dv_client d' = client \<and> dv_user d' = Some user \<and> dv_tenant d' = tenant \<and> dv_scopes d' = scopes \<and>
        dv_consumed d' \<noteq> None \<and> dv_status d' \<noteq> ''pending''"
      by simp
    with d'(1) show ?thesis unfolding source_def by blast
  next
    case ciba
    from a ciba(1) obtain c' where c': "c' \<in> set (ciba_rows w')" "ciba_le A c c'"
      unfolding oidc_advance_def using requests.row_after by blast
    with ciba ciba_le_fields [OF c'(2)]
    have "cb_client c' = client \<and> cb_user c' = user \<and> cb_tenant c' = tenant \<and> cb_scopes c' = scopes \<and> cb_consumed c' \<noteq> None" by simp
    with c'(1) show ?thesis unfolding source_def by blast
  qed
qed

text \<open>Every table has its primary key and its unique secrets, and every refresh token its source.\<close>

definition oidc_ok :: "'z oidc_db_scheme \<Rightarrow> bool" where
  "oidc_ok w \<longleftrightarrow> distinct (map gt_id (grant_rows w)) \<and> distinct (map gt_hash (grant_rows w)) \<and>
     distinct (map dv_id (devcode_rows w)) \<and> distinct (map dv_hash (devcode_rows w)) \<and>
     distinct (map cb_id (ciba_rows w)) \<and> distinct (map cb_hash (ciba_rows w)) \<and> rooted w"

lemma rooted_stays:
  assumes "oidc_advance A w w'" and "rooted w"
    and "\<And>g'. g' \<in> set (grant_rows w') \<Longrightarrow> (\<exists>g \<in> set (grant_rows w). grant_le g g') \<or>
      source (gt_client g') (gt_user g') (gt_tenant g') (gt_scopes g') w"
  shows "rooted w'"
  unfolding rooted_def
proof
  fix g' assume "g' \<in> set (grant_rows w')"
  from assms(3) [OF this] have "source (gt_client g') (gt_user g') (gt_tenant g') (gt_scopes g') w"
  proof
    assume "\<exists>g \<in> set (grant_rows w). grant_le g g'"
    then obtain g where g: "g \<in> set (grant_rows w)" "grant_le g g'" by blast
    with grant_le_fields [OF g(2)] assms(2) show ?thesis unfolding rooted_def by simp
  qed
  then show "source (gt_client g') (gt_user g') (gt_tenant g') (gt_scopes g') w'" by (rule source_stays [OF assms(1)])
qed

text \<open>A request under way: since it began, the tables advanced as it may, and are well-formed.\<close>

definition running :: "allowance \<Rightarrow> 'z oidc_db_scheme \<Rightarrow> 'z oidc_db_scheme \<Rightarrow> bool" where
  "running A w0 w \<longleftrightarrow> oidc_advance A w0 w \<and> oidc_ok w \<and> user_rows w = al_users A \<and>
     (case al_clients A of None \<Rightarrow> True | Some cs \<Rightarrow> client_rows w = cs)"

text \<open>Every statement and every service of the OpenID provider, whatever fails on the way, is a run of the tables.\<close>

section \<open>Statements\<close>

named_theorems oidc_keeps \<open>steps of a run\<close>

lemma keeps_plain [oidc_keeps]:
  "keeps P (ret a)" "keeps P (fail x)" "keeps P time_now" "keeps P uuid_new" "keeps P (db_read f)" "keeps P (lift_res r)"
  "keeps P (hash_password y c)" "keeps P (rand_read y n)"
  by (intro keeps_reads; (simp add: hash_password_def rand_read_def split: option.splits)?;
      (intro reads_bind reads_intros allI impI conjI; simp split: option.splits)?)+

lemmas [oidc_keeps] = keeps_if keeps_option keeps_pair keeps_bind keeps_in_tx

lemmas plain_keeps = oidc_keeps

lemma running_step:
  assumes "running A w0 w" and "oidc_advance A w w'" and "oidc_ok w'" and "user_rows w' = user_rows w"
    and "al_clients A = None \<or> client_rows w' = client_rows w"
  shows "running A w0 w'"
  using assms oidc_advance_trans [of A w0 w w'] unfolding running_def by (auto split: option.splits)

lemma running_ok: "running A w0 w \<Longrightarrow> oidc_ok w"
  by (simp add: running_def)

lemma ok_same: "oidc_same w w' \<Longrightarrow> oidc_ok w \<Longrightarrow> oidc_ok w'"
  by (simp add: oidc_same_def oidc_ok_def rooted_def source_def)

lemma running_same:
  assumes "running A w0 w" and "oidc_same w w'" and "user_rows w' = user_rows w" and "al_clients A = None \<or> client_rows w' = client_rows w"
  shows "running A w0 w'"
  using assms(1) same_advance [OF assms(2)] ok_same [OF assms(2) running_ok [OF assms(1)]] assms(3,4) by (rule running_step)

lemma advance_parts:
  "rows_advance code_le az_hash (code_new A) (code_rows w) cs \<Longrightarrow> oidc_advance A w (w\<lparr>code_rows := cs\<rparr>)"
  "rows_advance grant_le gt_hash (\<lambda>_. True) (grant_rows w) gs \<Longrightarrow> oidc_advance A w (w\<lparr>grant_rows := gs\<rparr>)"
  "rows_advance (device_le A) dv_hash (device_new A) (devcode_rows w) ds \<Longrightarrow> oidc_advance A w (w\<lparr>devcode_rows := ds\<rparr>)"
  "rows_advance (ciba_le A) cb_hash (ciba_new A) (ciba_rows w) bs \<Longrightarrow> oidc_advance A w (w\<lparr>ciba_rows := bs\<rparr>)"
  by (simp_all add: oidc_advance_def codes.advance_refl grants.advance_refl devices.advance_refl requests.advance_refl)

lemma rooted_grants_same:
  "oidc_advance A w w' \<Longrightarrow> rooted w \<Longrightarrow> grant_rows w' = grant_rows w \<Longrightarrow> rooted w'"
  by (erule rooted_stays) (auto intro: grants.le_refl)

lemma running_codes:
  assumes w: "running A w0 w" and a: "rows_advance code_le az_hash (code_new A) (code_rows w) cs"
  shows "running A w0 (w\<lparr>code_rows := cs\<rparr>)"
proof (rule running_step [OF w advance_parts(1) [OF a]])
  show "oidc_ok (w\<lparr>code_rows := cs\<rparr>)"
    using running_ok [OF w] rooted_grants_same [OF advance_parts(1) [OF a]] by (simp add: oidc_ok_def)
qed simp_all

lemma running_map_grants:
  assumes w: "running A w0 w" and a: "\<And>g. grant_le g (f g)"
  shows "running A w0 (w\<lparr>grant_rows := map f (grant_rows w)\<rparr>)"
proof (rule running_step [OF w])
  show adv: "oidc_advance A w (w\<lparr>grant_rows := map f (grant_rows w)\<rparr>)" by (intro advance_parts(2) grants.advance_map a)
  have "gt_id \<circ> f = gt_id" "gt_hash \<circ> f = gt_hash" using grant_le_fields [OF a] by (simp_all add: fun_eq_iff)
  moreover have "rooted (w\<lparr>grant_rows := map f (grant_rows w)\<rparr>)"
    by (rule rooted_stays [OF adv]) (use running_ok [OF w] a in \<open>auto simp: oidc_ok_def\<close>)
  ultimately show "oidc_ok (w\<lparr>grant_rows := map f (grant_rows w)\<rparr>)" using running_ok [OF w] by (simp add: oidc_ok_def)
qed simp_all

lemma running_new_grant:
  assumes w: "running A w0 w" and "gt_id g \<notin> gt_id ` set (grant_rows w)" and "gt_hash g \<notin> gt_hash ` set (grant_rows w)"
    and s: "source (gt_client g) (gt_user g) (gt_tenant g) (gt_scopes g) w"
  shows "running A w0 (w\<lparr>grant_rows := grant_rows w @ [g]\<rparr>)"
proof (rule running_step [OF w])
  show adv: "oidc_advance A w (w\<lparr>grant_rows := grant_rows w @ [g]\<rparr>)"
    by (intro advance_parts(2) grants.advance_append assms(3)) simp
  have "rooted (w\<lparr>grant_rows := grant_rows w @ [g]\<rparr>)"
    by (rule rooted_stays [OF adv]) (use running_ok [OF w] s in \<open>auto simp: oidc_ok_def intro: grants.le_refl\<close>)
  then show "oidc_ok (w\<lparr>grant_rows := grant_rows w @ [g]\<rparr>)" using running_ok [OF w] assms(2,3) by (simp add: oidc_ok_def)
qed simp_all

lemma running_map_devices:
  assumes w: "running A w0 w" and a: "\<And>d. d \<in> set (devcode_rows w) \<Longrightarrow> device_le A d (f d)"
  shows "running A w0 (w\<lparr>devcode_rows := map f (devcode_rows w)\<rparr>)"
proof (rule running_step [OF w])
  show adv: "oidc_advance A w (w\<lparr>devcode_rows := map f (devcode_rows w)\<rparr>)" by (intro advance_parts(3) devices.advance_map a)
  have ids: "map (dv_id \<circ> f) (devcode_rows w) = map dv_id (devcode_rows w)" "map (dv_hash \<circ> f) (devcode_rows w) = map dv_hash (devcode_rows w)"
    using device_le_fields [OF a] by simp_all
  then show "oidc_ok (w\<lparr>devcode_rows := map f (devcode_rows w)\<rparr>)"
    using running_ok [OF w] rooted_grants_same [OF adv] by (simp add: oidc_ok_def ids)
qed simp_all

lemma running_new_device:
  assumes w: "running A w0 w" and "dv_id d \<notin> dv_id ` set (devcode_rows w)" and "dv_hash d \<notin> dv_hash ` set (devcode_rows w)"
    and "device_new A d"
  shows "running A w0 (w\<lparr>devcode_rows := devcode_rows w @ [d]\<rparr>)"
proof (rule running_step [OF w])
  show adv: "oidc_advance A w (w\<lparr>devcode_rows := devcode_rows w @ [d]\<rparr>)"
    by (intro advance_parts(3) devices.advance_append assms)
  show "oidc_ok (w\<lparr>devcode_rows := devcode_rows w @ [d]\<rparr>)"
    using running_ok [OF w] rooted_grants_same [OF adv] assms(2,3) by (simp add: oidc_ok_def)
qed simp_all

lemma running_map_ciba:
  assumes w: "running A w0 w" and a: "\<And>c. c \<in> set (ciba_rows w) \<Longrightarrow> ciba_le A c (f c)"
  shows "running A w0 (w\<lparr>ciba_rows := map f (ciba_rows w)\<rparr>)"
proof (rule running_step [OF w])
  show adv: "oidc_advance A w (w\<lparr>ciba_rows := map f (ciba_rows w)\<rparr>)" by (intro advance_parts(4) requests.advance_map a)
  have ids: "map (cb_id \<circ> f) (ciba_rows w) = map cb_id (ciba_rows w)" "map (cb_hash \<circ> f) (ciba_rows w) = map cb_hash (ciba_rows w)"
    using ciba_le_fields [OF a] by simp_all
  then show "oidc_ok (w\<lparr>ciba_rows := map f (ciba_rows w)\<rparr>)"
    using running_ok [OF w] rooted_grants_same [OF adv] by (simp add: oidc_ok_def ids)
qed simp_all

lemma running_new_ciba:
  assumes w: "running A w0 w" and "cb_id c \<notin> cb_id ` set (ciba_rows w)" and "cb_hash c \<notin> cb_hash ` set (ciba_rows w)"
    and "ciba_new A c"
  shows "running A w0 (w\<lparr>ciba_rows := ciba_rows w @ [c]\<rparr>)"
proof (rule running_step [OF w])
  show adv: "oidc_advance A w (w\<lparr>ciba_rows := ciba_rows w @ [c]\<rparr>)" by (intro advance_parts(4) requests.advance_append assms)
  show "oidc_ok (w\<lparr>ciba_rows := ciba_rows w @ [c]\<rparr>)"
    using running_ok [OF w] rooted_grants_same [OF adv] assms(2,3) by (simp add: oidc_ok_def)
qed simp_all


text \<open>Statements on clients, when the request may change them, and on consents and sessions.\<close>

lemma run_clients [oidc_keeps]:
  assumes "al_clients A = None"
  shows "keeps (running A w0) (insert_oidc_client mk)"
    "keeps (running A w0) (db_call (\<lambda>w. let (row, w') = update_oidc_client p i tenant w in (Inr row, w')))"
    "keeps (running A w0) (db_call (\<lambda>w. let (row, w') = delete_oidc_client i tenant w in (Inr row, w')))"
    "keeps (running A w0) (db_write (update_oidc_client_secret hash i tenant))"
    "keeps (running A w0) (db_call (review_oidc_client reviewer i tenant now))"
proof -
  have same: "running A w0 w \<Longrightarrow> running A w0 (w\<lparr>client_rows := cs\<rparr>)" for w cs
    by (erule running_same) (simp_all add: oidc_same_def assms)
  show "keeps (running A w0) (insert_oidc_client mk)"
    unfolding insert_oidc_client_def
    by (intro plain_keeps keeps_db_exec) (auto simp: put_client_def intro: same split: if_splits)
  show "keeps (running A w0) (db_call (\<lambda>w. let (row, w') = update_oidc_client p i tenant w in (Inr row, w')))"
    "keeps (running A w0) (db_call (\<lambda>w. let (row, w') = delete_oidc_client i tenant w in (Inr row, w')))"
    by (rule keeps_db_call; auto simp: update_oidc_client_def delete_oidc_client_def intro: same)+
  show "keeps (running A w0) (db_write (update_oidc_client_secret hash i tenant))"
    by (rule keeps_db_write) (simp add: update_oidc_client_secret_def same)
  show "keeps (running A w0) (db_call (review_oidc_client reviewer i tenant now))"
    by (rule keeps_db_call) (auto simp: review_oidc_client_def Let_def intro: same split: if_splits)
qed

lemma run_consent:
  fixes w0 :: "'z oidc_db_scheme"
  shows "keeps (\<lambda>w. running A w0 w \<and> g (devcode_rows w)) (upsert_consent user client scopes)"
proof -
  have same: "running A w0 w \<Longrightarrow> running A w0 (w\<lparr>consent_rows := cs\<rparr>)" for w cs
    by (erule running_same) (simp_all add: oidc_same_def)
  show ?thesis
    unfolding upsert_consent_def
    by (intro plain_keeps keeps_db_exec) (auto simp: put_consent_def intro: same split: if_splits)
qed

lemma run_upsert_consent [oidc_keeps]: "keeps (running A w0) (upsert_consent user client scopes)"
  using run_consent [of A w0 "\<lambda>_. True"] by simp

lemma run_record [oidc_keeps]: "keeps (running A w0) (record_audit x ev)"
  unfolding triple_keeps [symmetric]
  by (rule triple_record_audit) (erule running_same; simp add: oidc_same_def)

lemma run_logout [oidc_keeps]: "keeps (running A w0) (revoke_login_session x raw)"
  unfolding revoke_login_session_def
  by (intro plain_keeps keeps_db_write) (erule running_same; simp add: oidc_same_def delete_login_session_def)

text \<open>Statements on codes, refresh tokens, devices and backchannel requests.\<close>

lemma run_insert_code [oidc_keeps]:
  "al_code A client user tenant redirect scopes \<Longrightarrow>
   keeps (running A w0) (insert_authorization_code hash client user tenant redirect scopes nonce challenge method)"
  unfolding insert_authorization_code_def
  by (intro plain_keeps keeps_db_exec)
    (auto simp: put_code_def code_new_def intro!: running_codes codes.advance_append split: if_splits)

lemma run_mark_code [oidc_keeps]: "keeps (running A w0) (db_write (mark_code_used hash now))"
  unfolding mark_code_used_def
  by (intro keeps_db_write running_codes codes.advance_map) (auto simp: code_le_def)

lemma update_grants_run: "(\<And>g. grant_le g (f g)) \<Longrightarrow> running A w0 w \<Longrightarrow> running A w0 (update_grants P f w)"
  unfolding update_grants_def by (rule running_map_grants) (auto intro: grants.le_refl)

lemma run_revocations [oidc_keeps]:
  "keeps (running A w0) (db_write (revoke_grants_of client user now))"
  "keeps (running A w0) (db_write (revoke_grant_by_hash hash client now))"
  "keeps (running A w0) (db_write (revoke_grant_chain client user tenant now))"
  "keeps (running A w0) (db_write (mark_grant_used new_id i now))"
  unfolding revoke_grants_of_def revoke_grant_by_hash_def revoke_grant_chain_def mark_grant_used_def
  by (rule keeps_db_write, erule update_grants_run [rotated], simp add: grant_le_def)+

abbreviation sourced ::
  "allowance \<Rightarrow> 'z oidc_db_scheme \<Rightarrow> string \<Rightarrow> uuid \<Rightarrow> uuid \<Rightarrow> string list \<Rightarrow> 'z oidc_db_scheme \<Rightarrow> bool" where
  "sourced A w0 client user tenant scopes w \<equiv> running A w0 w \<and> source client user tenant scopes w"

lemma run_insert_grant:
  "keeps (sourced A w0 client user tenant scopes) (insert_rotated_grant hash client user tenant scopes expires resource)"
  unfolding insert_rotated_grant_def
proof (intro plain_keeps keeps_db_exec)
  fix i now w w' assume w: "sourced A w0 client user tenant scopes w"
    and "put_grant \<lparr>gt_id = i, gt_hash = hash, gt_client = client, gt_user = user, gt_tenant = tenant, gt_scopes = scopes,
      gt_issued = now, gt_expires = expires, gt_used = None, gt_replaced = None, gt_revoked = None, gt_resource = resource\<rparr> w =
      Inr w'"
  then obtain g where "w' = w\<lparr>grant_rows := grant_rows w @ [g]\<rparr>" "gt_id g \<notin> gt_id ` set (grant_rows w)"
      "gt_hash g \<notin> gt_hash ` set (grant_rows w)" "gt_client g = client" "gt_user g = user" "gt_tenant g = tenant"
      "gt_scopes g = scopes"
    by (auto simp: put_grant_def split: if_splits)
  with w show "sourced A w0 client user tenant scopes w'"
    by (auto intro: running_new_grant) (simp add: source_def)
qed

lemma run_insert_device [oidc_keeps]: "keeps (running A w0) (insert_device_code hash code client tenant scopes interval)"
  unfolding insert_device_code_def
  by (intro plain_keeps keeps_db_exec)
    (auto simp: put_devcode_def device_new_def intro!: running_new_device split: if_splits)

lemma run_revoke_device [oidc_keeps]:
  "keeps (running A w0) (db_call (\<lambda>w. let (row, w') = revoke_device_row i tenant w in (Inr row, w')))"
  by (rule keeps_db_call) (auto simp: revoke_device_row_def device_le_def device_new_def intro!: running_map_devices)

lemma run_insert_ciba [oidc_keeps]:
  "keeps (running A w0) (insert_ciba hash client tenant user scopes message interval)"
  unfolding insert_ciba_def
  by (intro plain_keeps keeps_db_exec) (auto simp: put_ciba_def ciba_new_def intro!: running_new_ciba split: if_splits)

end
