(* ===== verification/OidcRuns.thy ===== *)
theory OidcRuns imports OidcRows begin

text \<open>Every service of the OpenID provider is a run of the tables.\<close>

lemma keeps_draws [oidc_keeps]:
  "keeps P (url_token x)" "keeps P (new_refresh_token x)" "keeps P (issue_access_full t user tenant sid joined act resource custom)"
  "keeps P (sign_id_token s user tenant audience nonce)" "keeps P (client_name client)" "keeps P (client_secret s typ)"
  "keeps P (authenticate_client s client secret)" "keeps P (verify_access s token err)" "keeps P (actor_subject s i)"
  "keeps P (has_consent user client scopes)" "keeps P (valid_post_logout client uri)" "keeps P (resolve_login_session y raw)"
proof -
  note defs = Let_def url_token_def new_refresh_token_def issue_access_full_def sign_id_token_def client_name_def client_secret_def
    authenticate_client_def verify_access_def actor_subject_def has_consent_def valid_post_logout_def resolve_login_session_def
  have url: "keeps P (url_token x)" for x unfolding defs by (intro oidc_keeps)
  then show "keeps P (url_token x)" .
  show tok: "keeps P (new_refresh_token x)" "keeps P (issue_access_full t user tenant sid joined act resource custom)"
    "keeps P (sign_id_token s user tenant audience nonce)" "keeps P (client_name client)"
    "keeps P (authenticate_client s client secret)" "keeps P (has_consent user client scopes)"
    "keeps P (valid_post_logout client uri)" "keeps P (resolve_login_session y raw)"
    unfolding defs by (intro oidc_keeps)+
  show ver: "keeps P (verify_access s token err)" for token err unfolding defs by (intro oidc_keeps)
  show "keeps P (client_secret s typ)" unfolding client_secret_def by (intro oidc_keeps url)
  show "keeps P (actor_subject s i)" unfolding actor_subject_def by (intro oidc_keeps ver)
qed

lemma triple_weaken: "keeps (\<lambda>w. P w \<and> S w) m \<Longrightarrow> triple (\<lambda>w. P w \<and> S w) m (\<lambda>_. P) P"
  unfolding triple_keeps [symmetric] by (erule triple_conseq) auto

lemma triple_running: "keeps P m \<Longrightarrow> triple P m (\<lambda>_. P) P"
  by (simp add: triple_keeps)

text \<open>A fact about the state in which an operation starts.\<close>

lemma triple_given: "(\<And>w. P w \<Longrightarrow> S w \<Longrightarrow> keeps P m) \<Longrightarrow> triple (\<lambda>w. P w \<and> S w) m (\<lambda>_. P) P"
  by (rule tripleI) (blast dest: keepsD)+

section \<open>Clients, codes and tokens\<close>

lemma run_client_services [oidc_keeps]:
  assumes "al_clients A = None"
  shows "keeps (running A w0) (register_client s i)" "keeps (running A w0) (review_shadow_ai tenant j reviewer)"
    "keeps (running A w0) (update_client tenant j p)" "keeps (running A w0) (delete_client tenant j)"
    "keeps (running A w0) (rotate_client_secret s tenant j)"
proof -
  show "keeps (running A w0) (register_client s i)" unfolding register_client_def Let_def by (intro oidc_keeps assms)
  show "keeps (running A w0) (review_shadow_ai tenant j reviewer)" "keeps (running A w0) (update_client tenant j p)"
    "keeps (running A w0) (delete_client tenant j)" "keeps (running A w0) (rotate_client_secret s tenant j)"
    unfolding review_shadow_ai_def update_client_def delete_client_def rotate_client_secret_def by (intro oidc_keeps assms)+
qed

lemma run_reading [oidc_keeps]:
  "keeps P (shadow_ai_candidates tenant)" "keeps P (list_clients tenant)" "keeps P (get_client tenant j)"
  "keeps P (list_grants tenant)" "keeps P (list_devices tenant)" "keeps P (introspect_grant s token)"
  unfolding shadow_ai_candidates_def list_clients_def get_client_def list_grants_def list_devices_def introspect_grant_def
  by (intro oidc_keeps)+

lemma run_introspect [oidc_keeps]: "keeps P (introspect s client secret token hint)"
proof -
  have "keeps P (case c of Some claims \<Rightarrow> ret (ActiveAccess claims)
      | None \<Rightarrow> if hint \<noteq> ''access_token'' then introspect_grant s token else ret Inactive)" for c
    by (intro oidc_keeps)
  then show ?thesis unfolding introspect_def by (intro oidc_keeps)
qed

lemma run_token_exchange [oidc_keeps]: "keeps P (token_exchange s client secret i)"
  unfolding token_exchange_def by (intro oidc_keeps)

lemma run_revoke_token [oidc_keeps]: "keeps (running A w0) (revoke_token s client secret token hint)"
  unfolding revoke_token_def by (intro oidc_keeps)

lemma run_revoke_grant [oidc_keeps]: "keeps (running A w0) (revoke_grant tenant i)"
  unfolding revoke_grant_def by (intro oidc_keeps)

lemma run_grant_consent [oidc_keeps]: "keeps (running A w0) (grant_consent user client scopes)"
  unfolding grant_consent_def by (intro oidc_keeps)

lemma run_authorize:
  assumes cs: "al_clients A = Some cs"
    and may: "\<And>k. List.find (\<lambda>c. cl_client c = client) cs = Some k \<Longrightarrow> redirect \<in> set (cl_redirects k) \<Longrightarrow>
      set scopes \<subseteq> set (cl_scopes k) \<Longrightarrow> al_code A client user (cl_tenant k) redirect scopes"
  shows "keeps (running A w0) (authorize s user client redirect scopes nonce challenge method)"
  unfolding authorize_def triple_keeps [symmetric]
proof (rule triple_bind [where R = "\<lambda>info w. running A w0 w \<and> info = client_redirect_info client w"])
  fix info
  let ?rest = "case info of None \<Rightarrow> fail (api_bad ''unknown client'')
     | Some (tenant, allowed, redirects) \<Rightarrow>
         if redirect \<notin> set redirects then fail (api_bad ''redirect_uri not registered'')
         else case List.find (\<lambda>sc. sc \<notin> set allowed) scopes of
           Some sc \<Rightarrow> fail (api_bad (''scope not permitted: '' @ sc))
         | None \<Rightarrow>
             bind_io (url_token (oi_crypto s)) (\<lambda>(raw, hash).
             then_io (insert_authorization_code hash client user tenant redirect scopes nonce challenge method)
               (ret (raw, tenant)))"
  have "keeps (running A w0) ?rest" if w: "running A w0 w" and info: "info = client_redirect_info client w" for w
  proof (intro oidc_keeps)
    fix p a q tenant allowed redirects raw hash
    assume i: "info = Some p" "p = (tenant, q)" "q = (allowed, redirects)" and red: "\<not> redirect \<notin> set redirects"
      and find: "List.find (\<lambda>sc. sc \<notin> set allowed) scopes = None"
    have "client_rows w = cs" using w cs by (simp add: running_def)
    with info i obtain k where k: "List.find (\<lambda>c. cl_client c = client) cs = Some k" "tenant = cl_tenant k"
        "allowed = cl_scopes k" "redirects = cl_redirects k"
      by (cases "find_client client w") (auto simp: client_redirect_info_def find_client_def)
    have "set scopes \<subseteq> set (cl_scopes k)" using find k(3) by (auto simp: find_None_iff)
    with may [OF k(1)] red k show "al_code A client user tenant redirect scopes" by simp
  qed
  then show "triple (\<lambda>w. running A w0 w \<and> info = client_redirect_info client w) ?rest (\<lambda>_. running A w0) (running A w0)"
    by (rule triple_given)
qed (rule triple_db_read, auto)

lemma run_issue_grant: "keeps (sourced A w0 client user tenant scopes) (issue_grant s client user tenant scopes resource)"
  unfolding issue_grant_def insert_grant_def by (intro oidc_keeps run_insert_grant)

lemma run_issue_tokens:
  "keeps (sourced A w0 client user tenant scopes) (issue_tokens s client grants user tenant scopes nonce resource)"
  unfolding issue_tokens_def access_and_id_def by (intro oidc_keeps run_issue_grant)

lemma marked_code_source:
  assumes "consume_authorization_code hash client w = Some c"
  shows "source client (az_user c) (az_tenant c) (az_scopes c) (mark_code_used hash now w)"
proof -
  from assms have "c \<in> set (code_rows w)" "az_hash c = hash" "az_client c = client"
    unfolding consume_authorization_code_def by (auto simp: find_Some_iff in_set_conv_nth)
  then have "c\<lparr>az_used := Some now\<rparr> \<in> set (code_rows (mark_code_used hash now w))"
    by (auto simp: mark_code_used_def image_iff intro!: bexI [of _ c])
  with \<open>az_client c = client\<close> show ?thesis unfolding source_def by (intro disjI1 bexI) auto
qed

lemma triple_consume_code:
  "triple (running A w0) (consume_code s client code redirect verifier)
     (\<lambda>c. sourced A w0 client (az_user c) (az_tenant c) (az_scopes c)) (running A w0)"
  unfolding consume_code_def Let_def
proof (rule triple_in_tx)
  let ?h = "codes_hash (oi_crypto s) code"
  let ?found = "\<lambda>found w. running A w0 w \<and> found = consume_authorization_code ?h client w"
  let ?post = "\<lambda>c. sourced A w0 client (az_user c) (az_tenant c) (az_scopes c)"
  have mark: "triple (?found (Some c)) (then_io (db_write (mark_code_used ?h used)) (ret c)) ?post (\<lambda>_. True)" for c used
  proof (rule triple_bind [where R = "\<lambda>_. ?post c"], rule triple_db_write)
    fix w assume w: "?found (Some c) w"
    from w have "running A w0 (mark_code_used ?h used w)"
      unfolding mark_code_used_def by (intro running_codes codes.advance_map) (auto simp: code_le_def)
    moreover have "source client (az_user c) (az_tenant c) (az_scopes c) (mark_code_used ?h used w)"
      by (rule marked_code_source) (simp add: w [THEN conjunct2, symmetric])
    ultimately show "?post c (mark_code_used ?h used w)" by simp
  qed (auto intro: triple_ret)
  have "triple (?found found)
    (case found of None \<Rightarrow> fail (api_bad ''invalid code'')
     | Some c \<Rightarrow> if az_used c \<noteq> None then fail (api_bad ''code already used'')
        else bind_io time_now (\<lambda>now. if now > az_expires c then fail (api_bad ''code expired'')
          else if az_redirect c \<noteq> redirect then fail (api_bad ''redirect_uri mismatch'')
          else case pkce_error (oi_crypto s) c verifier of Some err \<Rightarrow> fail err
           | None \<Rightarrow> bind_io time_now (\<lambda>used. then_io (db_write (mark_code_used ?h used)) (ret c)))) ?post (\<lambda>_. True)" for found
  proof (rule triple_option)
    fix c assume c: "found = Some c"
    show "triple (?found found) (if az_used c \<noteq> None then fail (api_bad ''code already used'')
        else bind_io time_now (\<lambda>now. if now > az_expires c then fail (api_bad ''code expired'')
          else if az_redirect c \<noteq> redirect then fail (api_bad ''redirect_uri mismatch'')
          else case pkce_error (oi_crypto s) c verifier of Some err \<Rightarrow> fail err
           | None \<Rightarrow> bind_io time_now (\<lambda>used. then_io (db_write (mark_code_used ?h used)) (ret c)))) ?post (\<lambda>_. True)"
      unfolding c
      by (intro triple_if triple_fail triple_option triple_bind [where R = "\<lambda>_. ?found (Some c)"] triple_draws mark) auto
  qed (rule triple_fail, simp)
  then show "triple (running A w0) (bind_io (db_read (consume_authorization_code ?h client)) (\<lambda>found.
      case found of None \<Rightarrow> fail (api_bad ''invalid code'')
     | Some c \<Rightarrow> if az_used c \<noteq> None then fail (api_bad ''code already used'')
        else bind_io time_now (\<lambda>now. if now > az_expires c then fail (api_bad ''code expired'')
          else if az_redirect c \<noteq> redirect then fail (api_bad ''redirect_uri mismatch'')
          else case pkce_error (oi_crypto s) c verifier of Some err \<Rightarrow> fail err
           | None \<Rightarrow> bind_io time_now (\<lambda>used. then_io (db_write (mark_code_used ?h used)) (ret c))))) ?post (\<lambda>_. True)"
    by (rule triple_bind [where R = ?found, rotated]) (rule triple_db_read, auto)
qed

lemma run_exchange_code [oidc_keeps]: "keeps (running A w0) (exchange_code s client secret code redirect verifier resource)"
  unfolding triple_keeps [symmetric] exchange_code_def
proof (rule triple_bind [where R = "\<lambda>_. running A w0"])
  show "triple (running A w0) (authenticate_client s client secret) (\<lambda>_. running A w0) (running A w0)"
    by (intro triple_running oidc_keeps)
  show "triple (running A w0) (bind_io (consume_code s client code redirect verifier) (\<lambda>c.
       issue_tokens s client grants (az_user c) (az_tenant c) (az_scopes c)
         (case az_nonce c of None \<Rightarrow> [] | Some n \<Rightarrow> n) resource)) (\<lambda>_. running A w0) (running A w0)" for grants
    by (rule triple_bind [OF triple_consume_code]) (intro triple_weaken run_issue_tokens)
qed

section \<open>Refresh\<close>

lemma run_redeem [oidc_keeps]: "keeps (running A w0) (redeem_grant s client raw resource)"
  unfolding triple_keeps [symmetric] redeem_grant_def
proof (rule triple_bind [where R = "\<lambda>found w. running A w0 w \<and> (\<forall>g. found = Some g \<longrightarrow>
    source (gt_client g) (gt_user g) (gt_tenant g) (gt_scopes g) w)"])
  show "triple (running A w0) (db_read (lock_grant (hash_refresh (oi_crypto s) raw)))
    (\<lambda>found w. running A w0 w \<and> (\<forall>g. found = Some g \<longrightarrow> source (gt_client g) (gt_user g) (gt_tenant g) (gt_scopes g) w)) (running A w0)"
  proof (rule triple_db_read)
    fix w assume w: "running A w0 w"
    have "rooted w" using running_ok [OF w] by (simp add: oidc_ok_def)
    moreover have "g \<in> set (grant_rows w)" if "lock_grant (hash_refresh (oi_crypto s) raw) w = Some g" for g
      using that unfolding lock_grant_def by (auto simp: find_Some_iff in_set_conv_nth)
    ultimately show "running A w0 w \<and> (\<forall>g. lock_grant (hash_refresh (oi_crypto s) raw) w = Some g \<longrightarrow>
        source (gt_client g) (gt_user g) (gt_tenant g) (gt_scopes g) w)" using w unfolding rooted_def by blast
  qed
next
  fix found
  have reuse: "keeps (running A w0) (then_io (handle_grant_reuse s c u t i) (ret GrantReused))" for c u t i
    unfolding handle_grant_reuse_def by (intro oidc_keeps)
  have put: "keeps (\<lambda>w. running A w0 w \<and> source c u t sc w) (db_write (mark_grant_used n i now))" for c u t sc n i now
    by (rule keeps_db_write) (auto simp: mark_grant_used_def source_def update_grants_def grant_le_def grants.le_refl
        intro!: running_map_grants)
  have rotate: "keeps (\<lambda>w. running A w0 w \<and> source (gt_client g) (gt_user g) (gt_tenant g) (gt_scopes g) w) (rotate_grant s (gt_client g) g resource)" for g
    unfolding rotate_grant_def Let_def by (intro oidc_keeps run_insert_grant put)
  show "triple (\<lambda>w. running A w0 w \<and> (\<forall>g. found = Some g \<longrightarrow> source (gt_client g) (gt_user g) (gt_tenant g) (gt_scopes g) w))
    (case found of None \<Rightarrow> fail (api_unauthorized ''unknown refresh token'')
     | Some g \<Rightarrow>
         if gt_client g \<noteq> client then fail (api_unauthorized ''client mismatch'')
         else if gt_revoked g \<noteq> None then fail (api_unauthorized ''refresh token revoked'')
         else if gt_used g \<noteq> None then
           then_io (handle_grant_reuse s client (gt_user g) (gt_tenant g) (gt_id g)) (ret GrantReused)
         else bind_io time_now (\<lambda>now.
           if now > gt_expires g then fail (api_unauthorized ''refresh token expired'')
           else rotate_grant s client g resource)) (\<lambda>_. running A w0) (running A w0)"
  proof (cases found)
    case (Some g)
    let ?S = "\<lambda>w. running A w0 w \<and> source (gt_client g) (gt_user g) (gt_tenant g) (gt_scopes g) w"
    have r: "triple ?S (then_io (handle_grant_reuse s client (gt_user g) (gt_tenant g) (gt_id g)) (ret GrantReused)) (\<lambda>_. running A w0) (running A w0)"
      by (rule triple_conseq [OF triple_running [OF reuse]]) auto
    have "triple ?S (if gt_client g \<noteq> client then fail (api_unauthorized ''client mismatch'')
         else if gt_revoked g \<noteq> None then fail (api_unauthorized ''refresh token revoked'')
         else if gt_used g \<noteq> None then
           then_io (handle_grant_reuse s client (gt_user g) (gt_tenant g) (gt_id g)) (ret GrantReused)
         else bind_io time_now (\<lambda>now.
           if now > gt_expires g then fail (api_unauthorized ''refresh token expired'')
           else rotate_grant s client g resource)) (\<lambda>_. running A w0) (running A w0)"
      by (intro triple_if triple_bind [where R = "\<lambda>_. ?S"] triple_draws r) (use triple_weaken [OF rotate [of g]] in \<open>auto intro: triple_fail\<close>)
    then show ?thesis by (simp add: Some)
  qed (auto intro: triple_fail)
qed

lemma run_refresh [oidc_keeps]: "keeps (running A w0) (refresh_grant s client secret raw resource)"
proof -
  have "keeps (running A w0) (case out of GrantReused \<Rightarrow> fail reuse_refused
        | GrantRotated g new_raw res \<Rightarrow> bind_io (access_and_id s client (gt_user g) (gt_tenant g) (gt_scopes g) [] res) (\<lambda>(access, idt).
              ret (token_response_of s access idt new_raw (gt_scopes g))))" for out
    by (cases out) (simp_all only: grant_outcome.case access_and_id_def, (intro oidc_keeps)+)
  then show ?thesis unfolding refresh_grant_def by (intro oidc_keeps)
qed

text \<open>Polling, decisions, and every request of the OpenID provider as a run.\<close>

section \<open>Polling\<close>

text \<open>What polling asks of its table: a poll leaves the request as it is, and a consumed one is spent.\<close>

locale polled =
  fixes touch consume :: "uuid \<Rightarrow> time \<Rightarrow> 'z oidc_db_scheme \<Rightarrow> 'z oidc_db_scheme"
    and inv :: "'z oidc_db_scheme \<Rightarrow> bool" and held spent :: "pending_request \<Rightarrow> 'z oidc_db_scheme \<Rightarrow> bool"
  assumes touch_held: "inv w \<Longrightarrow> held p w \<Longrightarrow> inv (touch (pr_id p) t w) \<and> held p (touch (pr_id p) t w)"
    and consume_spent: "inv w \<Longrightarrow> held p w \<Longrightarrow> pr_status p = ''authorized'' \<Longrightarrow>
      inv (consume (pr_id p) t w) \<and> spent p (consume (pr_id p) t w)"
begin

lemma poll_spends:
  "triple (\<lambda>w. inv w \<and> (\<forall>p. found = Some p \<longrightarrow> held p w)) (poll touch consume name kind client found)
     (\<lambda>out w. inv w \<and> (\<forall>u gs. out = PollGranted u gs \<longrightarrow> (\<exists>p. found = Some p \<and> pr_client p = client \<and> pr_user p = Some u \<and>
        pr_status p = ''authorized'' \<and> pr_consumed p = None \<and> spent p w))) inv"
  unfolding poll_def
proof (rule triple_option)
  show "triple (\<lambda>w. inv w \<and> (\<forall>p. found = Some p \<longrightarrow> held p w)) (fail (OAuthErr ''invalid_grant'' (''unknown '' @ name)))
     (\<lambda>out w. inv w \<and> (\<forall>u gs. out = PollGranted u gs \<longrightarrow> (\<exists>p. found = Some p \<and> pr_client p = client \<and> pr_user p = Some u \<and>
        pr_status p = ''authorized'' \<and> pr_consumed p = None \<and> spent p w))) inv" by (rule triple_fail) simp
next
  fix p assume found: "found = Some p"
  let ?Q = "\<lambda>out w. inv w \<and> (\<forall>u gs. out = PollGranted u gs \<longrightarrow> (\<exists>p. found = Some p \<and> pr_client p = client \<and> pr_user p = Some u \<and>
        pr_status p = ''authorized'' \<and> pr_consumed p = None \<and> spent p w))"
  let ?H = "\<lambda>w. inv w \<and> held p w"
  have grant: "triple (\<lambda>w. inv w \<and> spent p w) (bind_io (db_read (client_grant_types client)) (\<lambda>grants.
      case grants of None \<Rightarrow> fail ErrNoRows | Some gs \<Rightarrow> ret (PollGranted u gs))) ?Q inv"
    if "pr_client p = client" "pr_consumed p = None" "pr_status p = ''authorized''" "pr_user p = Some u" for u
    by (intro triple_bind [where R = "\<lambda>_ w. inv w \<and> spent p w"] triple_db_read triple_option triple_fail triple_ret)
      (use that found in auto)
  have consume: "triple ?H (bind_io time_now (\<lambda>used. then_io (db_write (consume (pr_id p) used))
      (bind_io (db_read (client_grant_types client)) (\<lambda>grants.
        case grants of None \<Rightarrow> fail ErrNoRows | Some gs \<Rightarrow> ret (PollGranted u gs))))) ?Q inv"
    if c: "pr_client p = client" "pr_consumed p = None" "pr_status p = ''authorized''" "pr_user p = Some u" for u
  proof (rule triple_bind [where R = "\<lambda>_. ?H"])
    show "triple ?H (then_io (db_write (consume (pr_id p) used)) (bind_io (db_read (client_grant_types client)) (\<lambda>grants.
        case grants of None \<Rightarrow> fail ErrNoRows | Some gs \<Rightarrow> ret (PollGranted u gs)))) ?Q inv" for used
      by (rule triple_bind [where R = "\<lambda>_ w. inv w \<and> spent p w"], rule triple_db_write)
        (use consume_spent c(3) grant [OF c] in auto)
  qed (rule triple_draws, simp)
  have answer: "triple ?H (ret (PollError x y)) ?Q inv" for x y by (rule triple_ret) simp
  have refuse: "triple ?H (fail x) ?Q inv" for x by (rule triple_fail) simp
  have "triple ?H
     (if pr_client p \<noteq> client then fail (OAuthErr ''invalid_grant'' ''client mismatch'')
          else if pr_consumed p \<noteq> None then fail (OAuthErr ''invalid_grant'' (name @ '' already used''))
          else
            bind_io time_now (\<lambda>now.
            bind_io time_now (\<lambda>polled.
            then_io (db_write (touch (pr_id p) polled))
            (if (case pr_polled p of None \<Rightarrow> False | Some t \<Rightarrow> now - t < pr_interval p * 1000000) then
               ret (PollError ''slow_down'' ''polling too frequently'')
             else if now > pr_expires p then ret (PollError ''expired_token'' (name @ '' expired''))
             else if pr_status p = ''pending'' then
               ret (PollError ''authorization_pending'' ''the user has not yet completed authorization'')
             else if pr_status p = ''denied'' then
               ret (PollError ''access_denied'' ''the user denied the authorization request'')
             else if pr_status p \<noteq> ''authorized'' then
               fail (OAuthErr ''invalid_grant'' (''invalid '' @ kind @ '' authorization state''))
             else case pr_user p of
               None \<Rightarrow> fail (OAuthErr ''invalid_grant'' ''device authorization has no bound user'')
             | Some user \<Rightarrow>
                 bind_io time_now (\<lambda>used.
                 then_io (db_write (consume (pr_id p) used))
                 (bind_io (db_read (client_grant_types client)) (\<lambda>grants.
                  case grants of None \<Rightarrow> fail ErrNoRows | Some gs \<Rightarrow> ret (PollGranted user gs)))))))) ?Q inv"
    by (intro triple_if refuse answer triple_option consume triple_bind [where R = "\<lambda>_. ?H"] triple_draws triple_db_write;
        (assumption | simp add: touch_held)?)
  then show "triple (\<lambda>w. inv w \<and> (\<forall>p. found = Some p \<longrightarrow> held p w))
     (if pr_client p \<noteq> client then fail (OAuthErr ''invalid_grant'' ''client mismatch'')
          else if pr_consumed p \<noteq> None then fail (OAuthErr ''invalid_grant'' (name @ '' already used''))
          else
            bind_io time_now (\<lambda>now.
            bind_io time_now (\<lambda>polled.
            then_io (db_write (touch (pr_id p) polled))
            (if (case pr_polled p of None \<Rightarrow> False | Some t \<Rightarrow> now - t < pr_interval p * 1000000) then
               ret (PollError ''slow_down'' ''polling too frequently'')
             else if now > pr_expires p then ret (PollError ''expired_token'' (name @ '' expired''))
             else if pr_status p = ''pending'' then
               ret (PollError ''authorization_pending'' ''the user has not yet completed authorization'')
             else if pr_status p = ''denied'' then
               ret (PollError ''access_denied'' ''the user denied the authorization request'')
             else if pr_status p \<noteq> ''authorized'' then
               fail (OAuthErr ''invalid_grant'' (''invalid '' @ kind @ '' authorization state''))
             else case pr_user p of
               None \<Rightarrow> fail (OAuthErr ''invalid_grant'' ''device authorization has no bound user'')
             | Some user \<Rightarrow>
                 bind_io time_now (\<lambda>used.
                 then_io (db_write (consume (pr_id p) used))
                 (bind_io (db_read (client_grant_types client)) (\<lambda>grants.
                  case grants of None \<Rightarrow> fail ErrNoRows | Some gs \<Rightarrow> ret (PollGranted user gs)))))))) ?Q inv"
    by (rule triple_conseq) (use found in auto)
qed

end

text \<open>The row of a device or of a request, whatever polls it saw.\<close>

definition held_device :: "devcode_row \<Rightarrow> pending_request \<Rightarrow> 'z oidc_db_scheme \<Rightarrow> bool" where
  "held_device d p w \<longleftrightarrow> p = device_pending d \<and> (\<exists>d' \<in> set (devcode_rows w). dv_id d' = dv_id d \<and> dv_client d' = dv_client d \<and>
     dv_user d' = dv_user d \<and> dv_tenant d' = dv_tenant d \<and> dv_scopes d' = dv_scopes d \<and> dv_status d' = dv_status d)"

definition spent_device :: "devcode_row \<Rightarrow> pending_request \<Rightarrow> 'z oidc_db_scheme \<Rightarrow> bool" where
  "spent_device d p w \<longleftrightarrow> p = device_pending d \<and> (\<forall>u. dv_user d = Some u \<longrightarrow> source (dv_client d) u (dv_tenant d) (dv_scopes d) w)"

definition held_ciba :: "ciba_row \<Rightarrow> pending_request \<Rightarrow> 'z oidc_db_scheme \<Rightarrow> bool" where
  "held_ciba c p w \<longleftrightarrow> p = ciba_pending c \<and> (\<exists>c' \<in> set (ciba_rows w). cb_id c' = cb_id c \<and> cb_client c' = cb_client c \<and>
     cb_user c' = cb_user c \<and> cb_tenant c' = cb_tenant c \<and> cb_scopes c' = cb_scopes c)"

definition spent_ciba :: "ciba_row \<Rightarrow> pending_request \<Rightarrow> 'z oidc_db_scheme \<Rightarrow> bool" where
  "spent_ciba c p w \<longleftrightarrow> p = ciba_pending c \<and> source (cb_client c) (cb_user c) (cb_tenant c) (cb_scopes c) w"

lemma update_device_run:
  "running A w0 w \<Longrightarrow> (\<And>d. d \<in> set (devcode_rows w) \<Longrightarrow> dv_id d = i \<Longrightarrow> device_le A d (f d)) \<Longrightarrow> running A w0 (update_device i f w)"
  unfolding update_device_def by (rule running_map_devices) (auto intro: devices.le_refl)

lemma update_ciba_run:
  "running A w0 w \<Longrightarrow> (\<And>c. c \<in> set (ciba_rows w) \<Longrightarrow> cb_id c = i \<Longrightarrow> ciba_le A c (f c)) \<Longrightarrow> running A w0 (update_ciba i f w)"
  unfolding update_ciba_def by (rule running_map_ciba) (auto intro: requests.le_refl)

interpretation device_polls: polled touch_device_poll consume_device "running A w0" "held_device d" "spent_device d" for A and w0 :: "'z oidc_db_scheme" and d
proof
  fix w :: "'z oidc_db_scheme" and p t assume w: "running A w0 w" and h: "held_device d p w"
  from h obtain d' where p: "p = device_pending d" and d': "d' \<in> set (devcode_rows w)" "dv_id d' = dv_id d"
      "dv_client d' = dv_client d" "dv_user d' = dv_user d" "dv_tenant d' = dv_tenant d" "dv_scopes d' = dv_scopes d"
      "dv_status d' = dv_status d"
    unfolding held_device_def by blast
  have i: "pr_id p = dv_id d" by (simp add: p device_pending_def)
  have img: "f d' \<in> set (devcode_rows (update_device (dv_id d) f w))" for f using d'(1,2) by (auto simp: update_device_def)
  have "running A w0 (touch_device_poll (pr_id p) t w)"
    unfolding touch_device_poll_def by (rule update_device_run [OF w]) (auto simp: device_le_def device_new_def)
  moreover have "held_device d p (touch_device_poll (pr_id p) t w)"
    unfolding held_device_def i touch_device_poll_def
    by (intro conjI p bexI [OF _ img [of "\<lambda>d. d\<lparr>dv_polled := Some t\<rparr>"]]) (simp_all add: d')
  ultimately show "running A w0 (touch_device_poll (pr_id p) t w) \<and> held_device d p (touch_device_poll (pr_id p) t w)" ..
  assume a: "pr_status p = ''authorized''"
  then have st: "dv_status d = ''authorized''" by (simp add: p device_pending_def)
  have "running A w0 (consume_device (pr_id p) t w)"
    unfolding consume_device_def by (rule update_device_run [OF w]) (auto simp: device_le_def device_new_def)
  moreover have "spent_device d p (consume_device (pr_id p) t w)"
    unfolding spent_device_def source_def i consume_device_def
    by (intro conjI p allI impI, rule disjI2, rule disjI1, rule bexI [OF _ img [of "\<lambda>d. d\<lparr>dv_consumed := Some t\<rparr>"]])
      (simp add: d' st)
  ultimately show "running A w0 (consume_device (pr_id p) t w) \<and> spent_device d p (consume_device (pr_id p) t w)" ..
qed

interpretation ciba_polls: polled touch_ciba_poll consume_ciba "running A w0" "held_ciba c" "spent_ciba c" for A and w0 :: "'z oidc_db_scheme" and c
proof
  fix w :: "'z oidc_db_scheme" and p t assume w: "running A w0 w" and h: "held_ciba c p w"
  from h obtain c' where p: "p = ciba_pending c" and c': "c' \<in> set (ciba_rows w)" "cb_id c' = cb_id c"
      "cb_client c' = cb_client c" "cb_user c' = cb_user c" "cb_tenant c' = cb_tenant c" "cb_scopes c' = cb_scopes c"
    unfolding held_ciba_def by blast
  have i: "pr_id p = cb_id c" by (simp add: p ciba_pending_def)
  have img: "f c' \<in> set (ciba_rows (update_ciba (cb_id c) f w))" for f using c'(1,2) by (auto simp: update_ciba_def)
  have "running A w0 (touch_ciba_poll (pr_id p) t w)"
    unfolding touch_ciba_poll_def by (rule update_ciba_run [OF w]) (auto simp: ciba_le_def ciba_new_def)
  moreover have "held_ciba c p (touch_ciba_poll (pr_id p) t w)"
    unfolding held_ciba_def i touch_ciba_poll_def
    by (intro conjI p bexI [OF _ img [of "\<lambda>c. c\<lparr>cb_polled := Some t\<rparr>"]]) (simp_all add: c')
  ultimately show "running A w0 (touch_ciba_poll (pr_id p) t w) \<and> held_ciba c p (touch_ciba_poll (pr_id p) t w)" ..
  have "running A w0 (consume_ciba (pr_id p) t w)"
    unfolding consume_ciba_def by (rule update_ciba_run [OF w]) (auto simp: ciba_le_def ciba_new_def)
  moreover have "spent_ciba c p (consume_ciba (pr_id p) t w)"
    unfolding spent_ciba_def source_def i consume_ciba_def
    by (intro conjI p, rule disjI2, rule disjI2, rule bexI [OF _ img [of "\<lambda>c. c\<lparr>cb_consumed := Some t\<rparr>"]]) (simp add: c')
  ultimately show "running A w0 (consume_ciba (pr_id p) t w) \<and> spent_ciba c p (consume_ciba (pr_id p) t w)" ..
qed

lemma found_device:
  "lock_device_by_code hash w = Some d \<Longrightarrow> d \<in> set (devcode_rows w)" "lock_device_by_user_code code w = Some d \<Longrightarrow> d \<in> set (devcode_rows w) \<and> dv_code d = code"
  "lock_ciba i w = Some c \<Longrightarrow> c \<in> set (ciba_rows w) \<and> cb_id c = i" "lock_ciba_by_hash hash w = Some c \<Longrightarrow> c \<in> set (ciba_rows w)"
  by (auto simp: lock_device_by_code_def lock_device_by_user_code_def lock_ciba_def lock_ciba_by_hash_def find_Some_iff in_set_conv_nth)

text \<open>A granted poll leaves a source for the tokens.\<close>

lemma triple_poll_device:
  "triple (running A w0) (poll_device s client raw) (\<lambda>(out, row) w. running A w0 w \<and> (\<forall>u gs d. out = PollGranted u gs \<longrightarrow>
     row = Some d \<longrightarrow> source client u (dv_tenant d) (dv_scopes d) w)) (running A w0)"
  unfolding poll_device_def
proof (rule triple_in_tx [OF triple_bind [where R = "\<lambda>row w. running A w0 w \<and> (\<forall>d. row = Some d \<longrightarrow> held_device d (device_pending d) w)"]])
  show "triple (running A w0) (db_read (lock_device_by_code (codes_hash (oi_crypto s) raw)))
     (\<lambda>row w. running A w0 w \<and> (\<forall>d. row = Some d \<longrightarrow> held_device d (device_pending d) w)) (\<lambda>_. True)"
    by (rule triple_db_read) (auto simp: held_device_def dest: found_device)
next
  fix row
  let ?Q = "\<lambda>(out, row) w. running A w0 w \<and> (\<forall>u gs d. out = PollGranted u gs \<longrightarrow> row = Some d \<longrightarrow> source client u (dv_tenant d) (dv_scopes d) w)"
  have "triple (\<lambda>w. running A w0 w \<and> (\<forall>d. row = Some d \<longrightarrow> held_device d (device_pending d) w))
      (poll touch_device_poll consume_device ''device_code'' ''device'' client (map_option device_pending row))
      (\<lambda>out. ?Q (out, row)) (running A w0)"
  proof (cases row)
    case None
    then show ?thesis by (simp add: poll_def triple_fail)
  next
    case (Some d)
    then show ?thesis
      by (intro triple_conseq [OF device_polls.poll_spends [where A = A and ?w0.0 = w0 and d = d]]) (auto simp: spent_device_def device_pending_def)
  qed
  then show "triple (\<lambda>w. running A w0 w \<and> (\<forall>d. row = Some d \<longrightarrow> held_device d (device_pending d) w))
      (bind_io (poll touch_device_poll consume_device ''device_code'' ''device'' client (map_option device_pending row))
        (\<lambda>out. ret (out, row))) ?Q (\<lambda>_. True)"
    by (intro triple_bind [where R = "\<lambda>out. ?Q (out, row)"] triple_ret) (auto elim: triple_conseq)
qed simp

lemma triple_poll_ciba:
  "triple (running A w0) (poll_backchannel s client raw) (\<lambda>(out, row) w. running A w0 w \<and> (\<forall>u gs c. out = PollGranted u gs \<longrightarrow>
     row = Some c \<longrightarrow> source client u (cb_tenant c) (cb_scopes c) w)) (running A w0)"
  unfolding poll_backchannel_def
proof (rule triple_in_tx [OF triple_bind [where R = "\<lambda>row w. running A w0 w \<and> (\<forall>c. row = Some c \<longrightarrow> held_ciba c (ciba_pending c) w)"]])
  show "triple (running A w0) (db_read (lock_ciba_by_hash (codes_hash (oi_crypto s) raw)))
     (\<lambda>row w. running A w0 w \<and> (\<forall>c. row = Some c \<longrightarrow> held_ciba c (ciba_pending c) w)) (\<lambda>_. True)"
    by (rule triple_db_read) (auto simp: held_ciba_def dest: found_device)
next
  fix row
  let ?Q = "\<lambda>(out, row) w. running A w0 w \<and> (\<forall>u gs c. out = PollGranted u gs \<longrightarrow> row = Some c \<longrightarrow> source client u (cb_tenant c) (cb_scopes c) w)"
  have "triple (\<lambda>w. running A w0 w \<and> (\<forall>c. row = Some c \<longrightarrow> held_ciba c (ciba_pending c) w))
      (poll touch_ciba_poll consume_ciba ''auth_req_id'' ''backchannel'' client (map_option ciba_pending row))
      (\<lambda>out. ?Q (out, row)) (running A w0)"
  proof (cases row)
    case None
    then show ?thesis by (simp add: poll_def triple_fail)
  next
    case (Some c)
    then show ?thesis
      by (intro triple_conseq [OF ciba_polls.poll_spends [where A = A and ?w0.0 = w0 and c = c]]) (auto simp: spent_ciba_def ciba_pending_def)
  qed
  then show "triple (\<lambda>w. running A w0 w \<and> (\<forall>c. row = Some c \<longrightarrow> held_ciba c (ciba_pending c) w))
      (bind_io (poll touch_ciba_poll consume_ciba ''auth_req_id'' ''backchannel'' client (map_option ciba_pending row))
        (\<lambda>out. ret (out, row))) ?Q (\<lambda>_. True)"
    by (intro triple_bind [where R = "\<lambda>out. ?Q (out, row)"] triple_ret) (auto elim: triple_conseq)
qed simp

lemma run_device_token [oidc_keeps]: "keeps (running A w0) (device_token s client raw)"
  unfolding device_token_def
proof (rule keeps_if, rule keeps_plain)
  show "keeps (running A w0) (bind_io (poll_device s client raw) (\<lambda>(out, row).
        case out of
          PollError code d \<Rightarrow> fail (OAuthErr code d)
        | PollGranted user grants \<Rightarrow>
            (case row of None \<Rightarrow> fail ErrNoRows
             | Some d \<Rightarrow> issue_tokens s client grants user (dv_tenant d) (dv_scopes d) [] [])))"
    unfolding triple_keeps [symmetric]
  proof (rule triple_bind [OF triple_poll_device], rule triple_pair)
    fix p :: "poll_outcome \<times> devcode_row option" and out row assume p: "p = (out, row)"
    show "triple ((\<lambda>(out, row) w. running A w0 w \<and> (\<forall>u gs d. out = PollGranted u gs \<longrightarrow> row = Some d \<longrightarrow>
        source client u (dv_tenant d) (dv_scopes d) w)) p)
       (case out of PollError code d \<Rightarrow> fail (OAuthErr code d)
        | PollGranted user grants \<Rightarrow> (case row of None \<Rightarrow> fail ErrNoRows
             | Some d \<Rightarrow> issue_tokens s client grants user (dv_tenant d) (dv_scopes d) [] [])) (\<lambda>_. running A w0) (running A w0)"
    proof (cases out)
      case (PollGranted u gs)
      then show ?thesis
        by (cases row) (auto simp: p intro: triple_fail triple_conseq [OF triple_weaken [OF run_issue_tokens]])
    qed (auto simp: p intro: triple_fail)
  qed
qed

lemma run_backchannel_token [oidc_keeps]: "keeps (running A w0) (backchannel_token s client raw)"
  unfolding backchannel_token_def
proof (rule keeps_if, rule keeps_plain)
  show "keeps (running A w0) (bind_io (poll_backchannel s client raw) (\<lambda>(out, row).
        case out of
          PollError code d \<Rightarrow> fail (OAuthErr code d)
        | PollGranted user grants \<Rightarrow>
            (case row of None \<Rightarrow> fail ErrNoRows
             | Some c \<Rightarrow> issue_tokens s client grants user (cb_tenant c) (cb_scopes c) [] [])))"
    unfolding triple_keeps [symmetric]
  proof (rule triple_bind [OF triple_poll_ciba], rule triple_pair)
    fix p :: "poll_outcome \<times> ciba_row option" and out row assume p: "p = (out, row)"
    show "triple ((\<lambda>(out, row) w. running A w0 w \<and> (\<forall>u gs c. out = PollGranted u gs \<longrightarrow> row = Some c \<longrightarrow>
        source client u (cb_tenant c) (cb_scopes c) w)) p)
       (case out of PollError code d \<Rightarrow> fail (OAuthErr code d)
        | PollGranted user grants \<Rightarrow> (case row of None \<Rightarrow> fail ErrNoRows
             | Some c \<Rightarrow> issue_tokens s client grants user (cb_tenant c) (cb_scopes c) [] [])) (\<lambda>_. running A w0) (running A w0)"
    proof (cases out)
      case (PollGranted u gs)
      then show ?thesis
        by (cases row) (auto simp: p intro: triple_fail triple_conseq [OF triple_weaken [OF run_issue_tokens]])
    qed (auto simp: p intro: triple_fail)
  qed
qed

end
