(* ===== verification/OidcRequests.thy ===== *)
theory OidcRequests imports OidcRuns begin

text \<open>Decisions, the remaining services, and every request as a run of the tables under the allowance of the request.\<close>

section \<open>Decisions\<close>

lemma same_row_id: "distinct (map f xs) \<Longrightarrow> x \<in> set xs \<Longrightarrow> y \<in> set xs \<Longrightarrow> f x = f y \<Longrightarrow> x = y"
  by (metis distinct_map inj_onD)

lemma run_decide_device:
  assumes may: "\<And>tenant. \<exists>u \<in> set (al_users A). us_id u = user \<and> us_tenant u = Some tenant \<Longrightarrow> approve \<Longrightarrow>
    al_device A user tenant (normalize_user_code s code)"
  shows "keeps (running A w0) (decide_device s user code approve)"
  unfolding decide_device_def triple_keeps [symmetric]
proof (rule triple_in_tx [OF triple_bind [where R = "\<lambda>row w. running A w0 w \<and> (\<forall>d. row = Some d \<longrightarrow> d \<in> set (devcode_rows w) \<and> dv_code d = normalize_user_code s code)"]])
  show "triple (running A w0) (db_read (lock_device_by_user_code (normalize_user_code s code)))
     (\<lambda>row w. running A w0 w \<and> (\<forall>d. row = Some d \<longrightarrow> d \<in> set (devcode_rows w) \<and> dv_code d = normalize_user_code s code)) (\<lambda>_. True)"
    by (rule triple_db_read) (auto dest: found_device)
next
  fix row
  show "triple (\<lambda>w. running A w0 w \<and> (\<forall>d. row = Some d \<longrightarrow> d \<in> set (devcode_rows w) \<and> dv_code d = normalize_user_code s code))
    (case row of
        None \<Rightarrow> fail (ApiErr (with_detail ErrNotFound ''unknown user_code''))
      | Some d \<Rightarrow>
          bind_io time_now (\<lambda>now.
          if now > dv_expires d then fail (api_bad ''user_code expired'')
          else if dv_status d \<noteq> ''pending'' then
            fail (ApiErr (with_detail ErrConflict ''device authorization already decided''))
          else if \<not> approve then db_write (deny_device (dv_id d))
          else
            bind_io (db_read (user_in_tenant user (dv_tenant d))) (\<lambda>ok.
            if \<not> ok then fail (api_forbidden (''user does not belong to the client'' @ [char_of (39::nat)] @ ''s tenant''))
            else
              then_io (upsert_consent user (dv_client d) (dv_scopes d))
              (bind_io time_now (\<lambda>at'. db_exec (approve_device user (dv_id d) at')))))) (\<lambda>_. running A w0) (\<lambda>_. True)"
  proof (rule triple_option)
    fix d assume row: "row = Some d"
    let ?H = "\<lambda>w. (running A w0 w \<and> dv_code d = normalize_user_code s code) \<and> d \<in> set (devcode_rows w)"
    have only: "d' = d" if "?H w" "d' \<in> set (devcode_rows w)" "dv_id d' = dv_id d" for w d'
      using that running_ok [of A w0 w] by (auto simp: oidc_ok_def intro: same_row_id)
    have deny: "triple ?H (db_write (deny_device (dv_id d))) (\<lambda>_. running A w0) (\<lambda>_. True)" if "dv_status d = ''pending''"
    proof (rule triple_db_write)
      fix w assume w: "?H w"
      show "running A w0 (deny_device (dv_id d) w)"
        unfolding deny_device_def by (rule update_device_run) (use w only [OF w] that in \<open>auto simp: device_le_def device_new_def\<close>)
    qed simp
    have approve: "triple ?H (db_exec (approve_device user (dv_id d) at')) (\<lambda>_. running A w0) (\<lambda>_. True)"
      if "dv_status d = ''pending''" and al: "al_device A user (dv_tenant d) (dv_code d)" for at'
    proof (rule triple_db_exec)
      fix w w' assume w: "?H w" and "approve_device user (dv_id d) at' w = Inr w'"
      then have w': "w' = update_device (dv_id d) (\<lambda>d. d\<lparr>dv_status := ''authorized'', dv_user := Some user, dv_approved := Some at'\<rparr>) w"
        by (auto simp: approve_device_def split: if_splits)
      show "running A w0 w'"
        unfolding w'
      proof (rule update_device_run)
        fix d' assume "d' \<in> set (devcode_rows w)" "dv_id d' = dv_id d"
        from only [OF w this] that show "device_le A d' (d'\<lparr>dv_status := ''authorized'', dv_user := Some user, dv_approved := Some at'\<rparr>)"
          by (simp add: device_le_def device_new_def)
      qed (use w in simp)
    qed simp
    have consent: "triple ?H (upsert_consent user c sc) (\<lambda>_. ?H) (\<lambda>_. True)" for c sc
      using run_consent [of A w0 "\<lambda>rs. d \<in> set rs \<and> dv_code d = normalize_user_code s code" user c sc] unfolding triple_keeps [symmetric] by (rule triple_conseq) auto
    have grant: "triple ?H (bind_io (db_read (user_in_tenant user (dv_tenant d))) (\<lambda>ok.
            if \<not> ok then fail (api_forbidden (''user does not belong to the client'' @ [char_of (39::nat)] @ ''s tenant''))
            else then_io (upsert_consent user (dv_client d) (dv_scopes d))
              (bind_io time_now (\<lambda>at'. db_exec (approve_device user (dv_id d) at'))))) (\<lambda>_. running A w0) (\<lambda>_. True)"
      if st: "dv_status d = ''pending''" and ap: approve
    proof (rule triple_bind [where R = "\<lambda>ok w. (ok \<longrightarrow> al_device A user (dv_tenant d) (dv_code d)) \<and> ?H w"], rule triple_db_read)
      fix w assume w: "?H w"
      then have "user_rows w = al_users A" by (simp add: running_def)
      with may [OF _ ap, of "dv_tenant d"] w
      show "(user_in_tenant user (dv_tenant d) w \<longrightarrow> al_device A user (dv_tenant d) (dv_code d)) \<and> ?H w" by (auto simp: user_in_tenant_def)
    next
      fix ok
      show "triple (\<lambda>w. (ok \<longrightarrow> al_device A user (dv_tenant d) (dv_code d)) \<and> ?H w)
        (if \<not> ok then fail (api_forbidden (''user does not belong to the client'' @ [char_of (39::nat)] @ ''s tenant''))
            else then_io (upsert_consent user (dv_client d) (dv_scopes d))
              (bind_io time_now (\<lambda>at'. db_exec (approve_device user (dv_id d) at')))) (\<lambda>_. running A w0) (\<lambda>_. True)"
        by (rule triple_fact, intro triple_if triple_fail triple_bind [OF consent] triple_bind [where R = "\<lambda>_. ?H"] triple_draws approve st)
          auto
    qed simp
    have "triple ?H
        (bind_io time_now (\<lambda>now.
          if now > dv_expires d then fail (api_bad ''user_code expired'')
          else if dv_status d \<noteq> ''pending'' then
            fail (ApiErr (with_detail ErrConflict ''device authorization already decided''))
          else if \<not> approve then db_write (deny_device (dv_id d))
          else
            bind_io (db_read (user_in_tenant user (dv_tenant d))) (\<lambda>ok.
            if \<not> ok then fail (api_forbidden (''user does not belong to the client'' @ [char_of (39::nat)] @ ''s tenant''))
            else
              then_io (upsert_consent user (dv_client d) (dv_scopes d))
              (bind_io time_now (\<lambda>at'. db_exec (approve_device user (dv_id d) at')))))) (\<lambda>_. running A w0) (\<lambda>_. True)"
      by (intro triple_bind [where R = "\<lambda>_. ?H"] triple_if triple_fail triple_draws deny grant) auto
    then show "triple (\<lambda>w. running A w0 w \<and> (\<forall>d. row = Some d \<longrightarrow> d \<in> set (devcode_rows w) \<and> dv_code d = normalize_user_code s code))
        (bind_io time_now (\<lambda>now.
          if now > dv_expires d then fail (api_bad ''user_code expired'')
          else if dv_status d \<noteq> ''pending'' then
            fail (ApiErr (with_detail ErrConflict ''device authorization already decided''))
          else if \<not> approve then db_write (deny_device (dv_id d))
          else
            bind_io (db_read (user_in_tenant user (dv_tenant d))) (\<lambda>ok.
            if \<not> ok then fail (api_forbidden (''user does not belong to the client'' @ [char_of (39::nat)] @ ''s tenant''))
            else
              then_io (upsert_consent user (dv_client d) (dv_scopes d))
              (bind_io time_now (\<lambda>at'. db_exec (approve_device user (dv_id d) at')))))) (\<lambda>_. running A w0) (\<lambda>_. True)"
      by (rule triple_conseq) (auto simp: row)
  qed (rule triple_fail, simp)
qed simp

lemma run_decide_backchannel:
  assumes may: "approve \<Longrightarrow> al_ciba A user i"
  shows "keeps (running A w0) (decide_backchannel user i approve)"
  unfolding decide_backchannel_def triple_keeps [symmetric]
proof (rule triple_in_tx [OF triple_bind [where R = "\<lambda>row w. running A w0 w \<and> (\<forall>c. row = Some c \<longrightarrow> c \<in> set (ciba_rows w) \<and> cb_id c = i)"]])
  show "triple (running A w0) (db_read (lock_ciba i))
     (\<lambda>row w. running A w0 w \<and> (\<forall>c. row = Some c \<longrightarrow> c \<in> set (ciba_rows w) \<and> cb_id c = i)) (\<lambda>_. True)"
    by (rule triple_db_read) (auto dest: found_device)
next
  fix row
  let ?body = "\<lambda>c. if cb_user c \<noteq> user then fail (api_forbidden ''not your sign-in request'')
          else bind_io time_now (\<lambda>now.
            if now > cb_expires c then fail (api_bad ''request expired'')
            else if cb_status c \<noteq> ''pending'' then fail (ApiErr (with_detail ErrConflict ''request already decided''))
            else if \<not> approve then db_write (deny_ciba i)
            else bind_io time_now (\<lambda>at'. db_write (approve_ciba i at')))"
  show "triple (\<lambda>w. running A w0 w \<and> (\<forall>c. row = Some c \<longrightarrow> c \<in> set (ciba_rows w) \<and> cb_id c = i))
    (case row of None \<Rightarrow> fail (ApiErr ErrNotFound) | Some c \<Rightarrow> ?body c) (\<lambda>_. running A w0) (\<lambda>_. True)"
  proof (rule triple_option)
    fix c assume row: "row = Some c"
    let ?H = "\<lambda>w. running A w0 w \<and> c \<in> set (ciba_rows w) \<and> cb_id c = i"
    have only: "c' = c" if "?H w" "c' \<in> set (ciba_rows w)" "cb_id c' = i" for w c'
      using that running_ok [of A w0 w] by (auto simp: oidc_ok_def intro: same_row_id)
    have deny: "triple ?H (db_write (deny_ciba i)) (\<lambda>_. running A w0) (\<lambda>_. True)" if "cb_status c = ''pending''"
    proof (rule triple_db_write)
      fix w assume w: "?H w"
      show "running A w0 (deny_ciba i w)"
        unfolding deny_ciba_def by (rule update_ciba_run) (use w only [OF w] that in \<open>auto simp: ciba_le_def ciba_new_def\<close>)
    qed simp
    have approve: "triple ?H (db_write (approve_ciba i at')) (\<lambda>_. running A w0) (\<lambda>_. True)" if "approve" "cb_user c = user" "cb_status c = ''pending''" for at'
    proof (rule triple_db_write)
      fix w assume w: "?H w"
      show "running A w0 (approve_ciba i at' w)"
        unfolding approve_ciba_def
      proof (rule update_ciba_run)
        fix c' assume "c' \<in> set (ciba_rows w)" "cb_id c' = i"
        from only [OF w this] that may w show "ciba_le A c' (c'\<lparr>cb_status := ''authorized'', cb_approved := Some at'\<rparr>)"
          by (simp add: ciba_le_def ciba_new_def)
      qed (use w in simp)
    qed simp
    have "triple ?H (?body c) (\<lambda>_. running A w0) (\<lambda>_. True)"
      by (intro triple_if triple_fail triple_bind [where R = "\<lambda>_. ?H"] triple_draws deny approve) auto
    then show "triple (\<lambda>w. running A w0 w \<and> (\<forall>c. row = Some c \<longrightarrow> c \<in> set (ciba_rows w) \<and> cb_id c = i)) (?body c)
        (\<lambda>_. running A w0) (\<lambda>_. True)"
      by (rule triple_conseq) (auto simp: row)
  qed (rule triple_fail, simp)
qed simp

section \<open>The remaining services\<close>

definition leaves_oidc :: "('z oidc_db_scheme, 'a) io \<Rightarrow> bool" where
  "leaves_oidc m \<longleftrightarrow> (\<forall>e w r e' w'. m e w = (r, e', w') \<longrightarrow>
     oidc_same w w' \<and> user_rows w' = user_rows w \<and> client_rows w' = client_rows w)"

text \<open>What is asked of notifications: they do not touch these tables.\<close>

definition notifier_spares :: "'z oidc_db_scheme oidc_handler \<Rightarrow> bool" where
  "notifier_spares h \<longleftrightarrow> (\<forall>f t u a b c d. oi_notifier (oh_service h) = Some f \<longrightarrow> leaves_oidc (f t u a b c d))"

lemma run_notify:
  assumes h: "notifier_spares h"
  shows "keeps (running A w0) (notify_request (oh_service h) client tenant user message)"
proof -
  have spare: "keeps (running A w0) m" if "leaves_oidc m" for m :: "('a oidc_db_scheme, unit) io"
    by (rule keepsI) (use that in \<open>auto simp: leaves_oidc_def intro: running_same\<close>)
  show ?thesis
    unfolding notify_request_def ignore_error_def
    by (intro keeps_on_error oidc_keeps spare) (use h in \<open>simp add: notifier_spares_def\<close>)
qed

lemma run_draw_letters [oidc_keeps]: "keeps P (draw_letters draw n)"
proof (induction n)
  case (Suc n)
  show ?case unfolding draw_letters.simps by (intro oidc_keeps Suc)
qed (simp add: oidc_keeps)

lemma run_try_codes [oidc_keeps]: "keeps (running A w0) (try_user_codes draw hash client tenant scopes n err)"
proof (induction n arbitrary: err)
  case (Suc n)
  show ?case unfolding try_user_codes.simps generate_user_code_def by (intro keeps_on_error oidc_keeps Suc)
qed (simp add: oidc_keeps)

lemma run_device_authorize [oidc_keeps]: "keeps (running A w0) (device_authorize s draw client asked)"
  unfolding device_authorize_def Let_def by (intro oidc_keeps)

lemma run_lookup_device [oidc_keeps]: "keeps P (lookup_device s code)"
  unfolding lookup_device_def by (intro oidc_keeps)

lemma run_revoke_device_service [oidc_keeps]: "keeps (running A w0) (revoke_device tenant i)"
  unfolding revoke_device_def by (intro oidc_keeps)

lemma run_backchannel_authorize:
  assumes "notifier_spares h"
  shows "keeps (running A w0) (backchannel_authorize (oh_service h) client secret hint scope message)"
  unfolding backchannel_authorize_def Let_def by (intro oidc_keeps run_notify assms)

lemma run_view_requests [oidc_keeps]: "keeps P (view_requests cs)"
proof (induction cs)
  case (Cons c cs)
  show ?case unfolding view_requests.simps by (intro keeps_on_error oidc_keeps Cons)
qed (simp add: oidc_keeps)

lemma run_pending_requests [oidc_keeps]: "keeps P (pending_requests user)"
  unfolding pending_requests_def by (intro oidc_keeps)

lemma run_session_user [oidc_keeps]: "keeps P (session_user h b)"
  unfolding session_user_def by (intro keeps_on_error oidc_keeps)

text \<open>
  What a request to the OpenID provider may do to its tables: issue codes and approve devices only for the user of its
  session, decide backchannel requests only for its own user, change clients only on the routes of clients.
\<close>

text \<open>The hosted session of a browser, which has not expired at the time.\<close>

definition session_of :: "'z oidc_db_scheme oidc_handler \<Rightarrow> browser \<Rightarrow> time \<Rightarrow> uuid \<Rightarrow> 'z oidc_db_scheme \<Rightarrow> bool" where
  "session_of h b now u w \<longleftrightarrow> (\<exists>raw row. br_cookie b = Some raw \<and>
     find_login_session (hash_refresh (oi_crypto (oh_service h)) raw) w = Some row \<and> ls_user row = u \<and>
     now \<le> ls_expires row)"

text \<open>A code for the user needs the approval of the browser, or a consent that covers its scopes.\<close>

definition consents :: "oidc_call \<Rightarrow> uuid \<Rightarrow> string \<Rightarrow> string list \<Rightarrow> 'z oidc_db_scheme \<Rightarrow> bool" where
  "consents c user client scopes w \<longleftrightarrow>
     (case c of
        Authorize \<Rightarrow> (\<exists>gs. get_consent user client w = Some gs \<and> set scopes \<subseteq> set gs)
      | Decision (Inr i) \<Rightarrow> di_approve i \<and> di_client i = client \<and> str_fields (di_scope i) = scopes
      | _ \<Rightarrow> False)"

definition registered :: "string \<Rightarrow> uuid \<Rightarrow> string \<Rightarrow> string list \<Rightarrow> 'z oidc_db_scheme \<Rightarrow> bool" where
  "registered client tenant redirect scopes w \<longleftrightarrow> (\<exists>k. find_client client w = Some k \<and> cl_tenant k = tenant \<and>
     redirect \<in> set (cl_redirects k) \<and> set scopes \<subseteq> set (cl_scopes k))"

definition request_may ::
  "'z oidc_db_scheme oidc_handler \<Rightarrow> request \<Rightarrow> browser \<Rightarrow> time \<Rightarrow> oidc_call \<Rightarrow> 'z oidc_db_scheme \<Rightarrow> allowance" where
  "request_may h r b now c w =
     \<lparr>al_clients = (case c of Authorize \<Rightarrow> Some (client_rows w) | Decision _ \<Rightarrow> Some (client_rows w) | _ \<Rightarrow> None),
      al_users = user_rows w,
      al_code = (\<lambda>client user tenant redirect scopes. session_of h b now user w \<and> consents c user client scopes w \<and>
        registered client tenant redirect scopes w),
      al_device = (\<lambda>user tenant ucode. (\<exists>code. c = DeviceDecision (Inr (True, code)) \<and> ucode = normalize_user_code (oh_service h) code) \<and> session_of h b now user w \<and>
        user_in_tenant user tenant w),
      al_ciba = (\<lambda>user i. c = DecideRequest (Inr (i, True)) \<and> require_user r = Inr user)\<rparr>"

lemma running_start:
  "oidc_ok w \<Longrightarrow> al_users A = user_rows w \<Longrightarrow> al_clients A \<in> {None, Some (client_rows w)} \<Longrightarrow> running A w w"
  by (auto simp: running_def oidc_advance_def codes.advance_refl grants.advance_refl devices.advance_refl requests.advance_refl)

lemma running_request: "oidc_ok w \<Longrightarrow> running (request_may h r b now c w) w w"
  by (rule running_start) (auto simp: request_may_def split: oidc_call.splits)

section \<open>The browser\<close>

lemma session_first:
  assumes run: "bind_io (session_user h b) f e w0 = (res, e', w')" and P: "P w0"
    and rest: "\<And>u. (\<forall>v. u = Some v \<longrightarrow> session_of h b (e_clock e (e_ticks e)) v w0) \<Longrightarrow> triple (\<lambda>w. w = w0) (f u) (\<lambda>_. P) P"
  shows "P w'"
proof -
  obtain u e1 w1 where s: "session_user h b e w0 = (u, e1, w1)" by (metis prod_cases3)
  with keepsD [OF run_session_user [of "\<lambda>x. x = w0" h b] refl s] have w1: "w1 = w0" by simp
  show ?thesis
  proof (cases u)
    case (Inl x)
    with run s w1 P show ?thesis by (simp add: bind_io_def)
  next
    case (Inr u')
    have "session_of h b (e_clock e (e_ticks e)) v w0" if "u' = Some v" for v
    proof -
      from s Inr that obtain raw where raw: "br_cookie b = Some raw" and on: "on_error (bind_io (resolve_login_session (oi_ext (oh_service h)) raw)
          (\<lambda>u. ret (Some u))) (\<lambda>_. ret None) e w0 = (Inr (Some v), e1, w1)"
        by (cases "br_cookie b") (auto simp: session_user_def ret_ok)
      from on obtain e2 w2 where "resolve_login_session (oi_ext (oh_service h)) raw e w0 = (Inr v, e2, w2)"
        by (auto simp: on_error_ok bind_ok ret_ok)
      with raw show ?thesis
        unfolding resolve_login_session_def session_of_def
        by (auto simp: bind_ok db_read_ok fail_ok split: if_splits option.splits)
          (auto simp: bind_ok ret_ok fail_ok time_now_ok not_less split: if_splits)
    qed
    then have t: "triple (\<lambda>w. w = w0) (f u') (\<lambda>_. P) P" by (intro rest) blast
    from run s w1 Inr have "f u' e1 w0 = (res, e', w')" by (simp add: bind_io_def)
    from tripleD [OF t refl this] show ?thesis by (simp split: sum.splits)
  qed
qed

lemma triple_at: "keeps P m \<Longrightarrow> P w0 \<Longrightarrow> triple (\<lambda>w. w = w0) m (\<lambda>_. P) P"
  by (rule tripleI) (auto dest: keepsD)

lemma triple_consent:
  "triple (\<lambda>w. w = w0) (has_consent user client scopes)
     (\<lambda>has w. (has \<longrightarrow> (\<exists>gs. get_consent user client w0 = Some gs \<and> set scopes \<subseteq> set gs)) \<and> w = w0) (\<lambda>w. w = w0)"
  unfolding has_consent_def
  by (rule triple_bind [where R = "\<lambda>row w. row = get_consent user client w0 \<and> w = w0"], rule triple_db_read)
    (auto intro!: triple_ret dest: sym split: option.splits)

lemma run_authorize_handler:
  assumes w: "oidc_ok w0" and run: "authorize_handler h r b e w0 = (res, e', w')"
  shows "running (request_may h r b (e_clock e (e_ticks e)) Authorize w0) w0 w'"
proof -
  let ?now = "e_clock e (e_ticks e)"
  let ?A = "request_may h r b ?now Authorize w0"
  have start: "running ?A w0 w0" by (rule running_request [OF w])
  have at': "keeps (running ?A w0) m \<Longrightarrow> triple (\<lambda>w. w = w0) m (\<lambda>_. running ?A w0) (running ?A w0)"
    for m :: "('a oidc_db_scheme, 'q) io" by (rule triple_at [where P = "running ?A w0", OF _ start])
  have auth: "keeps (running ?A w0) (authorize s user client redirect scopes nonce challenge meth)"
    if "session_of h b ?now user w0" and "\<exists>gs. get_consent user client w0 = Some gs \<and> set scopes \<subseteq> set gs"
    for s :: "'a oidc_db_scheme oidc_service" and user client redirect scopes nonce challenge meth
    by (rule run_authorize [where cs = "client_rows w0"])
      (use that in \<open>auto simp: request_may_def consents_def registered_def find_client_def\<close>)
  show ?thesis
    using run unfolding authorize_handler_def Let_def
  proof (rule session_first [where P = "running ?A w0", OF _ start])
    fix u assume session: "\<forall>v. u = Some v \<longrightarrow> session_of h b ?now v w0"
    show "triple (\<lambda>w. w = w0)
      (case u of None \<Rightarrow> ret (302, ORedirect (oh_login_base h @ ''/login?return_to='' @ query_escape (current_url r b)))
       | Some user \<Rightarrow>
          bind_io (has_consent user (query_get r ''client_id'') (str_fields (query_get r ''scope''))) (\<lambda>has.
          if \<not> has then ret (302, ORedirect (oh_login_base h @ ''/consent?'' @ br_raw_query b))
          else
            bind_io (authorize (oh_service h) user (query_get r ''client_id'') (query_get r ''redirect_uri'')
                (str_fields (query_get r ''scope'')) (query_get r ''nonce'')
                (query_get r ''code_challenge'') (query_get r ''code_challenge_method'')) (\<lambda>(code, _).
              ret (302, ORedirect (append_query (query_get r ''redirect_uri'')
                [(''code'', code), (''state'', query_get r ''state''), (''iss'', issuer_of h)])))))
      (\<lambda>_. running ?A w0) (running ?A w0)"
    proof (rule triple_option, goal_cases)
      case 1
      show ?case by (rule triple_ret) (use start in auto)
    next
      case (2 user)
      with session have s: "session_of h b ?now user w0" by simp
      have con: "triple (\<lambda>w. w = w0) (has_consent user client scopes)
          (\<lambda>has w. (has \<longrightarrow> (\<exists>gs. get_consent user client w0 = Some gs \<and> set scopes \<subseteq> set gs)) \<and> w = w0) (running ?A w0)" for client scopes
        by (rule triple_conseq [OF triple_consent]) (use start in auto)
      show ?case by (rule triple_bind [OF con], rule triple_fact, rule at') (intro oidc_keeps auth [OF s]; simp)
    qed
  qed
qed

lemma run_decision_handler:
  assumes w: "oidc_ok w0" and run: "decision_handler h b body e w0 = (res, e', w')"
  shows "running (request_may h r b (e_clock e (e_ticks e)) (Decision body) w0) w0 w'"
proof -
  let ?now = "e_clock e (e_ticks e)"
  let ?A = "request_may h r b ?now (Decision body) w0"
  have start: "running ?A w0 w0" by (rule running_request [OF w])
  have at': "keeps (running ?A w0) m \<Longrightarrow> triple (\<lambda>w. w = w0) m (\<lambda>_. running ?A w0) (running ?A w0)"
    for m :: "('a oidc_db_scheme, 'q) io" by (rule triple_at [where P = "running ?A w0", OF _ start])
  have auth: "keeps (running ?A w0) (authorize s user (di_client i) redirect (str_fields (di_scope i)) nonce challenge meth)"
    if "session_of h b ?now user w0" and "body = Inr i" "\<not> \<not> di_approve i"
    for s :: "'a oidc_db_scheme oidc_service" and user i redirect nonce challenge meth
    by (rule run_authorize [where cs = "client_rows w0"])
      (use that in \<open>auto simp: request_may_def consents_def registered_def find_client_def\<close>)
  show ?thesis
    using run unfolding decision_handler_def Let_def
  proof (rule session_first [where P = "running ?A w0", OF _ start])
    fix u assume session: "\<forall>v. u = Some v \<longrightarrow> session_of h b ?now v w0"
    show "triple (\<lambda>w. w = w0)
      (case u of None \<Rightarrow> fail (ApiErr ErrUnauthorized)
       | Some user \<Rightarrow>
         bind_io (lift_res body) (\<lambda>i.
         if \<not> di_approve i then
           ret (200, ORedirectUrl (append_query (di_redirect i)
             [(''error'', ''access_denied''), (''state'', di_state i), (''iss'', issuer_of h)]))
         else then_io (grant_consent user (di_client i) (str_fields (di_scope i)))
            (bind_io (authorize (oh_service h) user (di_client i) (di_redirect i) (str_fields (di_scope i)) (di_nonce i)
                (di_challenge i) (di_method i)) (\<lambda>(code, _).
              ret (200, ORedirectUrl (append_query (di_redirect i)
                [(''code'', code), (''state'', di_state i), (''iss'', issuer_of h)]))))))
      (\<lambda>_. running ?A w0) (running ?A w0)"
      by (rule at') (intro keeps_option keeps_require oidc_keeps auth; simp add: session)
  qed
qed

lemma run_device_decision:
  assumes w: "oidc_ok w0" and run: "device_decision_handler h b body e w0 = (res, e', w')"
  shows "running (request_may h r b (e_clock e (e_ticks e)) (DeviceDecision body) w0) w0 w'"
proof -
  let ?now = "e_clock e (e_ticks e)"
  let ?A = "request_may h r b ?now (DeviceDecision body) w0"
  have start: "running ?A w0 w0" by (rule running_request [OF w])
  have at': "keeps (running ?A w0) m \<Longrightarrow> triple (\<lambda>w. w = w0) m (\<lambda>_. running ?A w0) (running ?A w0)"
    for m :: "('a oidc_db_scheme, 'q) io" by (rule triple_at [where P = "running ?A w0", OF _ start])
  have decide: "keeps (running ?A w0) (decide_device (oh_service h) user code approve)"
    if "session_of h b ?now user w0" and "body = Inr (approve, code)"
    for user code approve
    by (rule run_decide_device) (use that in \<open>auto simp: request_may_def user_in_tenant_def\<close>)
  show ?thesis
    using run unfolding device_decision_handler_def
  proof (rule session_first [where P = "running ?A w0", OF _ start])
    fix u assume session: "\<forall>v. u = Some v \<longrightarrow> session_of h b ?now v w0"
    show "triple (\<lambda>w. w = w0)
      (case u of None \<Rightarrow> fail (ApiErr ErrUnauthorized)
       | Some user \<Rightarrow>
         bind_io (lift_res body) (\<lambda>(approve, code).
         if code = [] then fail (api_bad ''user_code required'')
         else then_io (decide_device (oh_service h) user code approve)
           (ret (200, OStatus (if approve then ''authorized'' else ''denied'')))))
      (\<lambda>_. running ?A w0) (running ?A w0)"
      by (rule at') (intro keeps_option keeps_require oidc_keeps decide; simp add: session)
  qed
qed

text \<open>Every request is a run under its allowance, and what follows for every sequence of requests.\<close>

section \<open>Requests\<close>

lemmas oidc_serve_defs = oidc_serve_def register_client_handler_def create_tenant_client_handler_def list_clients_handler_def
  get_client_handler_def patch_client_handler_def delete_client_handler_def delete_client_by_scope_def
  rotate_client_secret_handler_def shadow_ai_handler_def review_shadow_ai_handler_def list_grants_handler_def
  revoke_grant_handler_def list_devices_handler_def revoke_device_handler_def userinfo_handler_def
  pending_backchannel_handler_def backchannel_decision_handler_def token_handler_def device_authorization_handler_def
  device_context_handler_def backchannel_authorize_handler_def revoke_token_handler_def introspect_handler_def
  register_in_tx_def delete_client_in_tenant_def

lemma run_write_oauth: "keeps P m \<Longrightarrow> keeps P (write_oauth m)"
  unfolding write_oauth_def by (rule keeps_on_error, assumption) (auto simp: oidc_keeps split: go_error.splits)

lemma run_oidc_record [oidc_keeps]: "keeps (running A w0) (oidc_record h r actor tenant action kind resource meta)"
  unfolding oidc_record_def by (rule run_record)

lemma run_end_session: "keeps (running A w0) (end_session_handler h r b)"
  unfolding end_session_handler_def Let_def ignore_error_def by (intro keeps_on_error oidc_keeps)

lemma run_client_handlers:
  assumes "al_clients A = None"
  shows "keeps (running A w0) (register_client_handler h r i)" "keeps (running A w0) (create_tenant_client_handler h pu r i)"
    "keeps (running A w0) (list_clients_handler pu r)" "keeps (running A w0) (get_client_handler pu r)"
    "keeps (running A w0) (patch_client_handler h pu r p)" "keeps (running A w0) (delete_client_handler h pu r)"
    "keeps (running A w0) (delete_client_by_scope h pu r)" "keeps (running A w0) (rotate_client_secret_handler h pu r)"
    "keeps (running A w0) (shadow_ai_handler pu r)" "keeps (running A w0) (review_shadow_ai_handler pu r)"
  unfolding register_client_handler_def create_tenant_client_handler_def list_clients_handler_def get_client_handler_def
    patch_client_handler_def delete_client_handler_def delete_client_by_scope_def rotate_client_secret_handler_def
    shadow_ai_handler_def review_shadow_ai_handler_def register_in_tx_def delete_client_in_tenant_def
  by (intro oidc_keeps assms)+

lemma run_grant_handlers:
  "keeps (running A w0) (list_grants_handler pu r)" "keeps (running A w0) (revoke_grant_handler h pu r)"
  "keeps (running A w0) (list_devices_handler pu r)" "keeps (running A w0) (revoke_device_handler h pu r)"
  "keeps (running A w0) (userinfo_handler r)" "keeps (running A w0) (pending_backchannel_handler r)"
  "keeps (running A w0) (device_context_handler h r b)" "keeps (running A w0) (device_authorization_handler h f basic)"
  "keeps (running A w0) (revoke_token_handler h f basic)" "keeps (running A w0) (introspect_handler h f basic)"
  unfolding list_grants_handler_def revoke_grant_handler_def list_devices_handler_def revoke_device_handler_def userinfo_handler_def
    pending_backchannel_handler_def device_context_handler_def device_authorization_handler_def Let_def revoke_token_handler_def
    introspect_handler_def
  by (intro oidc_keeps)+

lemma run_token_handler: "keeps (running A w0) (token_handler h f basic)"
  unfolding token_handler_def Let_def by (intro run_write_oauth oidc_keeps)

lemma run_backchannel_handler: "notifier_spares h \<Longrightarrow> keeps (running A w0) (backchannel_authorize_handler h f basic)"
  unfolding backchannel_authorize_handler_def by (intro run_write_oauth run_backchannel_authorize oidc_keeps)

lemma run_decision:
  "(\<And>u i. body = Inr (i, True) \<Longrightarrow> require_user r = Inr u \<Longrightarrow> al_ciba A u i) \<Longrightarrow>
   keeps (running A w0) (backchannel_decision_handler r body)"
  unfolding backchannel_decision_handler_def by (intro keeps_require run_decide_backchannel oidc_keeps) auto

text \<open>Every request keeps to what it may do.\<close>

lemma serve_runs:
  assumes h: "notifier_spares h" and ok: "oidc_ok w" and run: "oidc_serve h pu r b c e w = (res, e', w')"
  shows "running (request_may h r b (e_clock e (e_ticks e)) c w) w w'"
proof -
  have start: "running (request_may h r b (e_clock e (e_ticks e)) c w) w w" for c by (rule running_request [OF ok])
  have step: "running (request_may h r b (e_clock e (e_ticks e)) c w) w w'" if "keeps (running (request_may h r b (e_clock e (e_ticks e)) c w) w) (oidc_serve h pu r b c)"
    using keepsD [OF that start run] .
  show ?thesis
  proof (cases c)
    case Authorize
    with run run_authorize_handler [OF ok] show ?thesis by (simp add: oidc_serve_def)
  next
    case (Decision body)
    with run run_decision_handler [OF ok] show ?thesis by (simp add: oidc_serve_def)
  next
    case (DeviceDecision body)
    with run run_device_decision [OF ok] show ?thesis by (simp add: oidc_serve_def)
  qed ((rule step, simp only: oidc_serve_def oidc_call.case, (rule run_client_handlers, simp add: request_may_def |
      rule run_grant_handlers | rule run_token_handler | rule run_backchannel_handler [OF h] |
      rule run_decision, simp add: request_may_def | intro oidc_keeps run_end_session)) [1])+
qed

section \<open>Sequences of requests\<close>

inductive oidc_step :: "'z oidc_db_scheme oidc_handler \<Rightarrow> 'z oidc_db_scheme \<Rightarrow> 'z oidc_db_scheme \<Rightarrow> bool" for h where
  serve: "oidc_serve h pu r b c e w = (res, e', w') \<Longrightarrow> oidc_step h w w'"
| other: "oidc_same w w' \<Longrightarrow> oidc_step h w w'"

inductive_cases oidc_stepE: "oidc_step h w w'"

definition anything :: "user_row list \<Rightarrow> allowance" where
  "anything us = \<lparr>al_clients = None, al_users = us, al_code = (\<lambda>_ _ _ _ _. True), al_device = (\<lambda>_ _ _. True), al_ciba = (\<lambda>_ _. True)\<rparr>"

lemma rows_advance_mono:
  assumes "rows_advance le key new rs rs'" and "\<And>a b. le a b \<Longrightarrow> le' a b" and "\<And>r. new r \<Longrightarrow> new' r"
  shows "rows_advance le' key new' rs rs'"
proof -
  from assms(1) obtain old added where "rs' = old @ added" "list_all2 le rs old" "key ` set added \<inter> key ` set rs = {}"
      "\<forall>r \<in> set added. new r" unfolding rows_advance_def by blast
  moreover from this(2) have "list_all2 le' rs old" by (rule list_all2_mono) (rule assms(2))
  ultimately show ?thesis unfolding rows_advance_def using assms(3) by blast
qed

lemma advance_anything: "oidc_advance A w w' \<Longrightarrow> oidc_advance (anything []) w w'"
proof -
  have new: "code_new A c \<Longrightarrow> code_new (anything []) c" "device_new A d \<Longrightarrow> device_new (anything []) d"
    "ciba_new A b \<Longrightarrow> ciba_new (anything []) b" for c d b
    by (auto simp: code_new_def device_new_def ciba_new_def anything_def)
  have le: "device_le A d d' \<Longrightarrow> device_le (anything []) d d'" "ciba_le A b b' \<Longrightarrow> ciba_le (anything []) b b'" for d d' b b'
    unfolding device_le_def ciba_le_def using new(2) [of d'] new(3) [of b'] by blast+
  assume "oidc_advance A w w'"
  then show ?thesis
    unfolding oidc_advance_def
    by (elim conjE, intro conjI)
      (erule rows_advance_mono; (assumption | erule new le))+
qed

lemma step_advances:
  assumes "notifier_spares h" and "oidc_step h w w'" and "oidc_ok w"
  shows "oidc_ok w' \<and> oidc_advance (anything []) w w'"
  using assms(2)
proof (cases rule: oidc_step.cases)
  case (serve pu r b c e res e')
  from serve_runs [OF assms(1,3) serve] show ?thesis unfolding running_def by (blast intro: advance_anything)
next
  case other
  then show ?thesis using ok_same assms(3) same_advance by blast
qed

lemma steps_advance:
  assumes "notifier_spares h" and "(oidc_step h)\<^sup>*\<^sup>* w w'" and "oidc_ok w"
  shows "oidc_ok w' \<and> oidc_advance (anything []) w w'"
  using assms(2)
proof (induction rule: rtranclp_induct)
  case base
  show ?case using assms(3) by (simp add: same_advance oidc_same_def)
next
  case (step x y)
  then show ?case using step_advances [OF assms(1) step(2)] oidc_advance_trans by blast
qed

end
