(* ===== verification/OidcAnswers.thy ===== *)
theory OidcAnswers imports OidcRequests begin

text \<open>What a successful request proved, and what its tokens carry.\<close>

section \<open>Tokens\<close>

text \<open>The access token of an answer is one that the issuer signed for the user, the tenant and the scopes.\<close>

definition bears :: "'w oidc_service \<Rightarrow> string \<Rightarrow> uuid \<Rightarrow> uuid \<Rightarrow> string \<Rightarrow> bool" where
  "bears s token user tenant scope \<longleftrightarrow> (\<exists>c. as_sign (oi_tokens s) c = Some token \<and> ac_user c = user \<and> ac_tenant c = tenant \<and>
     ac_scope c = scope)"

lemma issue_access_bears:
  "issue_access_full (oi_tokens s) user tenant sid scope act resource custom e w = (Inr (token, until), e', w') \<Longrightarrow>
   bears s token user tenant scope"
  unfolding issue_access_full_def bears_def Let_def
  by (auto simp: bind_ok time_now_ok uuid_new_ok ret_ok fail_ok split: option.splits)

lemma access_and_id_bears:
  "access_and_id s client user tenant scopes nonce resource e w = (Inr (access, idt), e', w') \<Longrightarrow>
   bears s access user tenant (join_scopes scopes)"
  unfolding access_and_id_def by (auto simp: bind_ok ret_ok dest!: issue_access_bears)

lemma issue_tokens_bears:
  "issue_tokens s client grants user tenant scopes nonce resource e w = (Inr t, e', w') \<Longrightarrow>
   bears s (tr_access t) user tenant (join_scopes scopes) \<and> tr_scope t = join_scopes scopes"
  unfolding issue_tokens_def by (auto simp: bind_ok ret_ok token_response_of_def dest!: access_and_id_bears)

section \<open>Clients\<close>

text \<open>The client is known, and a confidential one gave its secret.\<close>

definition proves_client :: "'z oidc_db_scheme oidc_service \<Rightarrow> string \<Rightarrow> string \<Rightarrow> 'z oidc_db_scheme \<Rightarrow> bool" where
  "proves_client s client secret w \<longleftrightarrow> (\<exists>k. find_client client w = Some k \<and> (cl_type k = ''confidential'' \<longrightarrow>
     (\<exists>h. cl_secret k = Some h \<and> password_verify (oi_crypto s) h secret = Inr True)))"

lemma authenticate_ok:
  assumes "authenticate_client s client secret e w = (Inr grants, e', w')"
  shows "w' = w \<and> e_clock e' = e_clock e \<and> e_ticks e' = e_ticks e \<and> proves_client s client secret w \<and> (\<exists>k. find_client client w = Some k \<and> cl_grants k = grants)"
proof -
  from assms obtain e1 where eq: "e1 = e\<lparr>e_calls := Suc (e_calls e)\<rparr>" and run: "(case client_for_auth client w of None \<Rightarrow> fail (api_unauthorized ''unknown client'')
     | Some (hash, typ, grants) \<Rightarrow>
         if typ = ''confidential'' then
           (case hash of None \<Rightarrow> fail (api_unauthorized ''invalid client secret'')
            | Some h \<Rightarrow> bind_io (lift_res (password_verify (oi_crypto s) h secret)) (\<lambda>ok.
                if ok then ret grants else fail (api_unauthorized ''invalid client secret'')))
         else ret grants) e1 w = (Inr grants, e', w')"
    unfolding authenticate_client_def by (auto simp: bind_ok db_read_ok)
  from eq have e1: "e_clock e1 = e_clock e" "e_ticks e1 = e_ticks e" by simp_all
  from run obtain k where k: "find_client client w = Some k"
    by (cases "find_client client w") (auto simp: client_for_auth_def fail_ok)
  with run e1 show ?thesis
    by (auto simp: client_for_auth_def proves_client_def bind_ok lift_res_ok ret_ok fail_ok split: if_splits option.splits)
qed

section \<open>Codes\<close>

text \<open>The redirect, the time and the verifier that a code asks for.\<close>

definition meets_code :: "crypto_ext \<Rightarrow> code_row \<Rightarrow> string \<Rightarrow> string \<Rightarrow> time \<Rightarrow> bool" where
  "meets_code x c redirect verifier now \<longleftrightarrow> az_used c = None \<and> now \<le> az_expires c \<and> az_redirect c = redirect \<and>
     (az_challenge c = None \<or> az_challenge c = Some [] \<or>
      az_method c = Some ''S256'' \<and> az_challenge c = Some (codes_hash x verifier) \<and> verifier \<noteq> [])"

lemma pkce_none: "pkce_error x c verifier = None \<Longrightarrow> az_challenge c = None \<or> az_challenge c = Some [] \<or>
    az_method c = Some ''S256'' \<and> az_challenge c = Some (codes_hash x verifier) \<and> verifier \<noteq> []"
  by (auto simp: pkce_error_def split: option.splits if_splits)

lemma consume_code_ok:
  assumes "consume_code s client code redirect verifier e w = (Inr c, e', w')"
  shows "\<exists>now used. consume_authorization_code (codes_hash (oi_crypto s) code) client w = Some c \<and>
     meets_code (oi_crypto s) c redirect verifier now \<and> now = e_clock e (e_ticks e) \<and>
     w' = mark_code_used (codes_hash (oi_crypto s) code) used w"
proof -
  let ?h = "codes_hash (oi_crypto s) code"
  from assms obtain e1 e2 where "bind_io (db_read (consume_authorization_code ?h client)) (\<lambda>found.
        case found of
          None \<Rightarrow> fail (api_bad ''invalid code'')
        | Some c \<Rightarrow>
            if az_used c \<noteq> None then fail (api_bad ''code already used'')
            else bind_io time_now (\<lambda>now.
              if now > az_expires c then fail (api_bad ''code expired'')
              else if az_redirect c \<noteq> redirect then fail (api_bad ''redirect_uri mismatch'')
              else case pkce_error (oi_crypto s) c verifier of
                Some err \<Rightarrow> fail err
              | None \<Rightarrow> bind_io time_now (\<lambda>used. then_io (db_write (mark_code_used ?h used)) (ret c)))) (next_call e) w = (Inr c, e2, w')"
    unfolding consume_code_def Let_def by (elim in_tx_ok) blast
  then show ?thesis
    by (auto simp: bind_ok db_read_ok time_now_ok db_write_ok ret_ok fail_ok next_call_def meets_code_def not_less
        dest: pkce_none split: option.splits if_splits)
qed

lemma code_found:
  "consume_authorization_code hash client w = Some c \<Longrightarrow> c \<in> set (code_rows w) \<and> az_hash c = hash \<and> az_client c = client"
  unfolding consume_authorization_code_def by (auto simp: find_Some_iff in_set_conv_nth)

lemma exchange_code_ok:
  assumes "exchange_code s client secret code redirect verifier resource e w = (Inr t, e', w')"
  obtains c used e1 e2 grants nonce where "proves_client s client secret w"
    and "consume_authorization_code (codes_hash (oi_crypto s) code) client w = Some c"
    and "meets_code (oi_crypto s) c redirect verifier (e_clock e (e_ticks e))"
    and "consume_code s client code redirect verifier e1 w = (Inr c, e2, mark_code_used (codes_hash (oi_crypto s) code) used w)"
    and "issue_tokens s client grants (az_user c) (az_tenant c) (az_scopes c) nonce resource e2
       (mark_code_used (codes_hash (oi_crypto s) code) used w) = (Inr t, e', w')"
proof -
  from assms obtain grants e1 w1 c e2 w2 where auth: "authenticate_client s client secret e w = (Inr grants, e1, w1)"
    and c: "consume_code s client code redirect verifier e1 w1 = (Inr c, e2, w2)"
    and t: "issue_tokens s client grants (az_user c) (az_tenant c) (az_scopes c) (case az_nonce c of None \<Rightarrow> [] | Some n \<Rightarrow> n) resource e2 w2 =
        (Inr t, e', w')"
    unfolding exchange_code_def by (auto simp: bind_ok)
  note a = authenticate_ok [OF auth]
  from consume_code_ok [OF c] a obtain used where "consume_authorization_code (codes_hash (oi_crypto s) code) client w = Some c"
      "meets_code (oi_crypto s) c redirect verifier (e_clock e (e_ticks e))" "w2 = mark_code_used (codes_hash (oi_crypto s) code) used w"
    by auto
  with a c t that show thesis by blast
qed

text \<open>The issue of tokens only adds refresh tokens.\<close>

lemma issue_tokens_frame:
  assumes "issue_tokens s client grants user tenant scopes nonce resource e w = (Inr t, e', w')"
  shows "code_rows w' = code_rows w \<and> devcode_rows w' = devcode_rows w \<and> ciba_rows w' = ciba_rows w"
proof -
  let ?P = "\<lambda>x. code_rows x = code_rows w \<and> devcode_rows x = devcode_rows w \<and> ciba_rows x = ciba_rows w"
  have put: "keeps ?P (db_exec (put_grant g))" for g
    by (rule keeps_db_exec) (auto simp: put_grant_def split: if_splits)
  have "keeps ?P (issue_tokens s client grants user tenant scopes nonce resource)"
    unfolding issue_tokens_def access_and_id_def issue_grant_def insert_grant_def insert_rotated_grant_def
    by (intro oidc_keeps put)
  from keepsD [OF this _ assms] show ?thesis by simp
qed

lemma used_settled:
  "c \<in> set (code_rows w) \<Longrightarrow> az_hash c = hash \<Longrightarrow>
   settled_key az_hash (\<lambda>c. az_used c \<noteq> None) hash (code_rows (mark_code_used hash now w))"
proof -
  assume c: "c \<in> set (code_rows w)" "az_hash c = hash"
  let ?f = "\<lambda>c. if az_hash c = hash then c\<lparr>az_used := Some now\<rparr> else c"
  have "?f c \<in> set (map ?f (code_rows w))" using c(1) unfolding set_map by (rule imageI)
  moreover have "az_hash (?f c) = hash" using c(2) by simp
  moreover have "az_used (?f q) \<noteq> None" if "az_hash (?f q) = hash" for q using that by (auto split: if_splits)
  ultimately show ?thesis unfolding settled_key_def mark_code_used_def by (auto simp del: if_split)
qed

lemma settled_code_stays:
  "oidc_advance A w w' \<Longrightarrow> settled_key az_hash (\<lambda>c. az_used c \<noteq> None) k (code_rows w) \<Longrightarrow>
   settled_key az_hash (\<lambda>c. az_used c \<noteq> None) k (code_rows w')"
  unfolding oidc_advance_def by (elim conjE, rule codes.settled_stays [rotated]) (use code_le_fields in auto)

lemma settled_grant_stays:
  "oidc_advance A w w' \<Longrightarrow> settled_key gt_hash (\<lambda>g. gt_used g \<noteq> None \<or> gt_revoked g \<noteq> None) k (grant_rows w) \<Longrightarrow>
   settled_key gt_hash (\<lambda>g. gt_used g \<noteq> None \<or> gt_revoked g \<noteq> None) k (grant_rows w')"
  unfolding oidc_advance_def by (elim conjE, rule grants.settled_stays [rotated]) (use grant_le_fields in auto)

section \<open>Refresh tokens\<close>

lemma redeem_ok:
  assumes "redeem_grant s client raw resource e w = (Inr (GrantRotated g new res), e', w')"
  obtains i n used now where "lock_grant (hash_refresh (oi_crypto s) raw) w = Some g" and "gt_client g = client"
    and "gt_revoked g = None" and "gt_used g = None" and "now = e_clock e (e_ticks e)" and "now \<le> gt_expires g"
    and "gt_client n = client" and "gt_user n = gt_user g" and "gt_tenant n = gt_tenant g" and "gt_scopes n = gt_scopes g"
    and "gt_hash n \<notin> gt_hash ` set (grant_rows w)" and "gt_id n \<notin> gt_id ` set (grant_rows w)"
    and "w' = mark_grant_used i (gt_id g) used (w\<lparr>grant_rows := grant_rows w @ [n]\<rparr>)"
proof -
  let ?h = "hash_refresh (oi_crypto s) raw"
  from assms obtain e1 where eq: "e1 = e\<lparr>e_calls := Suc (e_calls e)\<rparr>" and run: "(case lock_grant ?h w of
       None \<Rightarrow> fail (api_unauthorized ''unknown refresh token'')
     | Some g \<Rightarrow>
         if gt_client g \<noteq> client then fail (api_unauthorized ''client mismatch'')
         else if gt_revoked g \<noteq> None then fail (api_unauthorized ''refresh token revoked'')
         else if gt_used g \<noteq> None then
           then_io (handle_grant_reuse s client (gt_user g) (gt_tenant g) (gt_id g)) (ret GrantReused)
         else bind_io time_now (\<lambda>now.
           if now > gt_expires g then fail (api_unauthorized ''refresh token expired'')
           else rotate_grant s client g resource)) e1 w = (Inr (GrantRotated g new res), e', w')"
    unfolding redeem_grant_def by (auto simp: bind_ok db_read_ok)
  from eq have e1: "e_clock e1 = e_clock e" "e_ticks e1 = e_ticks e" by simp_all
  from run obtain g1 where g1: "lock_grant ?h w = Some g1" by (cases "lock_grant ?h w") (auto simp: fail_ok)
  with run obtain e2 where f: "gt_client g1 = client" "gt_revoked g1 = None" "gt_used g1 = None"
      "e_clock e (e_ticks e) \<le> gt_expires g1" and rot: "rotate_grant s client g1 resource e2 w = (Inr (GrantRotated g new res), e', w')"
    using e1 by (auto simp: bind_ok time_now_ok ret_ok fail_ok not_less split: if_splits)
  from rot obtain raw2 hash2 e3 w3 i e4 w4 used e5 exp2 res2 where tok: "new_refresh_token (oi_crypto s) e2 w = (Inr (raw2, hash2), e3, w3)"
    and ins: "insert_rotated_grant hash2 client (gt_user g1) (gt_tenant g1) (gt_scopes g1) exp2 res2 e4 w3 = (Inr i, e5, w4)"
    and w': "w' = mark_grant_used i (gt_id g1) used w4" and g: "g = g1"
    unfolding rotate_grant_def Let_def by (auto simp: bind_ok time_now_ok db_write_ok ret_ok)
  have w3: "w3 = w" using keepsD [OF keeps_draws(2) [where P = "\<lambda>x. x = w"] refl tok] .
  from ins obtain n where n: "w4 = w\<lparr>grant_rows := grant_rows w @ [n]\<rparr>" "gt_client n = client" "gt_user n = gt_user g1"
      "gt_tenant n = gt_tenant g1" "gt_scopes n = gt_scopes g1" "gt_hash n \<notin> gt_hash ` set (grant_rows w)" "gt_id n \<notin> gt_id ` set (grant_rows w)"
    unfolding insert_rotated_grant_def w3
    by (auto simp: bind_ok uuid_new_ok time_now_ok ret_ok db_exec_ok put_grant_def split: if_splits)
  note n' = n [folded g]
  show thesis by (rule that [OF _ _ _ _ refl _ n'(2-7) w' [unfolded n(1), folded g]]) (use g1 f g in simp_all)
qed

lemma grant_found: "lock_grant hash w = Some g \<Longrightarrow> g \<in> set (grant_rows w) \<and> gt_hash g = hash"
  unfolding lock_grant_def by (auto simp: find_Some_iff in_set_conv_nth)

lemma redeemed_settled:
  assumes "oidc_ok w" and g: "g \<in> set (grant_rows w)" and n: "gt_hash n \<notin> gt_hash ` set (grant_rows w)"
  shows "settled_key gt_hash (\<lambda>g. gt_used g \<noteq> None \<or> gt_revoked g \<noteq> None) (gt_hash g)
    (grant_rows (mark_grant_used i (gt_id g) used (w\<lparr>grant_rows := grant_rows w @ [n]\<rparr>)))"
proof -
  let ?f = "\<lambda>q. if gt_id q = gt_id g then q\<lparr>gt_used := Some used, gt_replaced := Some i\<rparr> else q"
  have rows: "grant_rows (mark_grant_used i (gt_id g) used (w\<lparr>grant_rows := grant_rows w @ [n]\<rparr>)) = map ?f (grant_rows w @ [n])"
    by (simp add: mark_grant_used_def update_grants_def)
  have "gt_used (?f q) \<noteq> None" if "q \<in> set (grant_rows w @ [n])" "gt_hash (?f q) = gt_hash g" for q
  proof -
    from that(2) have "gt_hash q = gt_hash g" by (simp split: if_splits)
    moreover from this n g have "q \<noteq> n" by auto
    ultimately have "q = g" using that(1) assms(1) g by (auto simp: oidc_ok_def intro: same_row_id)
    then show ?thesis by simp
  qed
  then have "gt_used r \<noteq> None" if "r \<in> set (map ?f (grant_rows w @ [n]))" "gt_hash r = gt_hash g" for r
    using that unfolding set_map by (elim imageE) blast
  moreover have "?f g \<in> set (map ?f (grant_rows w @ [n]))" unfolding set_map by (rule imageI) (use g in simp)
  moreover have "gt_hash (?f g) = gt_hash g" by simp
  ultimately show ?thesis unfolding rows settled_key_def by blast
qed

text \<open>A refresh answers for the row of its token, which is used afterwards.\<close>

lemma refresh_ok:
  assumes "refresh_grant s client secret raw resource e w = (Inr t, e', w')"
  obtains e1 e2 g new res where "proves_client s client secret w"
    and "redeem_grant s client raw resource e1 w = (Inr (GrantRotated g new res), e2, w')"
    and "e_clock e1 = e_clock e" and "e_ticks e1 = e_ticks e"
    and "bears s (tr_access t) (gt_user g) (gt_tenant g) (join_scopes (gt_scopes g))" and "tr_refresh t = new"
proof -
  from assms obtain e1 w1 grants out e2 w2 where auth: "authenticate_client s client secret e w = (Inr grants, e1, w1)"
    and tx: "in_tx (redeem_grant s client raw resource) e1 w1 = (Inr out, e2, w2)"
    and t: "(case out of GrantReused \<Rightarrow> fail reuse_refused
        | GrantRotated g new_raw res \<Rightarrow>
            bind_io (access_and_id s client (gt_user g) (gt_tenant g) (gt_scopes g) [] res) (\<lambda>(access, idt).
              ret (token_response_of s access idt new_raw (gt_scopes g)))) e2 w2 = (Inr t, e', w')"
    unfolding refresh_grant_def by (auto simp: bind_ok fail_ok split: if_splits)
  note a = authenticate_ok [OF auth]
  from tx obtain e3 where red: "redeem_grant s client raw resource (next_call e1) w1 = (Inr out, e3, w2)" by (rule in_tx_ok)
  from t obtain g new res where out: "out = GrantRotated g new res" by (cases out) (auto simp: fail_ok)
  from t obtain access idt e4 where acc: "access_and_id s client (gt_user g) (gt_tenant g) (gt_scopes g) [] res e2 w2 = (Inr (access, idt), e4, w')"
    and resp: "t = token_response_of s access idt new (gt_scopes g)"
    by (auto simp: out bind_ok ret_ok)
  have "keeps (\<lambda>x. x = w2) (access_and_id s client (gt_user g) (gt_tenant g) (gt_scopes g) [] res)"
    unfolding access_and_id_def by (intro oidc_keeps)
  from keepsD [OF this refl acc] have w': "w' = w2" .
  show thesis
    by (rule that [of "next_call e1" g new res e3])
      (use a red out w' resp access_and_id_bears [OF acc] in \<open>auto simp: next_call_def token_response_of_def\<close>)
qed

text \<open>The answer to a replay revokes the tokens of the client and the user.\<close>

lemma redeem_reused:
  assumes "redeem_grant s client raw resource e w = (Inr GrantReused, e', w')"
  shows "\<exists>g \<in> set (grant_rows w). gt_hash g = hash_refresh (oi_crypto s) raw \<and> gt_client g = client \<and>
    (\<forall>q \<in> set (grant_rows w'). gt_client q = client \<and> gt_user q = gt_user g \<longrightarrow> gt_revoked q \<noteq> None)"
proof -
  let ?h = "hash_refresh (oi_crypto s) raw"
  from assms obtain e1 where run: "(case lock_grant ?h w of
       None \<Rightarrow> fail (api_unauthorized ''unknown refresh token'')
     | Some g \<Rightarrow>
         if gt_client g \<noteq> client then fail (api_unauthorized ''client mismatch'')
         else if gt_revoked g \<noteq> None then fail (api_unauthorized ''refresh token revoked'')
         else if gt_used g \<noteq> None then
           then_io (handle_grant_reuse s client (gt_user g) (gt_tenant g) (gt_id g)) (ret GrantReused)
         else bind_io time_now (\<lambda>now.
           if now > gt_expires g then fail (api_unauthorized ''refresh token expired'')
           else rotate_grant s client g resource)) e1 w = (Inr GrantReused, e', w')"
    unfolding redeem_grant_def by (auto simp: bind_ok db_read_ok)
  then obtain g where g: "lock_grant ?h w = Some g" by (cases "lock_grant ?h w") (auto simp: fail_ok)
  have rotate: "rotate_grant s client g resource e3 w \<noteq> (Inr GrantReused, e', w')" for e3
    unfolding rotate_grant_def by (auto simp: Let_def bind_ok ret_ok)
  from run g rotate have c: "gt_client g = client"
    and re: "then_io (handle_grant_reuse s client (gt_user g) (gt_tenant g) (gt_id g)) (ret GrantReused) e1 w = (Inr GrantReused, e', w')"
    by (auto simp: fail_ok bind_ok time_now_ok split: if_splits)
  from re obtain now e2 e3 where "record_audit (oi_audit s) (grant_reuse_event (oi_audit s) client (gt_user g) (gt_tenant g) (gt_id g)) e2
      (revoke_grants_of client (gt_user g) now w) = (Inr (), e3, w')"
    unfolding handle_grant_reuse_def by (auto simp: bind_ok time_now_ok db_write_ok ret_ok)
  from record_audit_audited [OF this] have rows: "grant_rows w' = grant_rows (revoke_grants_of client (gt_user g) now w)" by auto
  have "gt_revoked q \<noteq> None" if q: "q \<in> set (grant_rows w')" "gt_client q = client" "gt_user q = gt_user g" for q
  proof -
    let ?c = "\<lambda>g'. gt_client g' = client \<and> gt_user g' = gt_user g \<and> gt_revoked g' = None"
    have "grant_rows w' = map (\<lambda>q0. if ?c q0 then q0\<lparr>gt_revoked := Some now\<rparr> else q0) (grant_rows w)"
      by (simp add: rows revoke_grants_of_def update_grants_def)
    from q(1) [unfolded this set_map] obtain q0 where q0: "q = (if ?c q0 then q0\<lparr>gt_revoked := Some now\<rparr> else q0)" by (rule imageE)
    with q(2,3) show ?thesis by (cases "?c q0") auto
  qed
  moreover have "g \<in> set (grant_rows w) \<and> gt_hash g = ?h" using g unfolding lock_grant_def by (auto simp: find_Some_iff in_set_conv_nth)
  ultimately show ?thesis using c by blast
qed

section \<open>Polling\<close>

lemma poll_granted:
  assumes "poll touch consume name kind client found e w = (Inr (PollGranted u gs), e', w')"
  obtains p at' used where "found = Some p" and "pr_client p = client" and "pr_consumed p = None"
    and "e_clock e (e_ticks e) \<le> pr_expires p" and "pr_status p = ''authorized''" and "pr_user p = Some u"
    and "w' = consume (pr_id p) used (touch (pr_id p) at' w)"
proof -
  from assms obtain p where p: "found = Some p" by (cases found) (auto simp: poll_def fail_ok)
  with assms have c: "pr_client p = client" "pr_consumed p = None"
    by (auto simp: poll_def fail_ok split: if_splits)
  from assms p c obtain now at' e1 where now: "now = e_clock e (e_ticks e)"
    and run: "(if (case pr_polled p of None \<Rightarrow> False | Some t \<Rightarrow> now - t < pr_interval p * 1000000) then
               ret (PollError ''slow_down'' ''polling too frequently'')
             else if now > pr_expires p then ret (PollError ''expired_token'' (name @ '' expired''))
             else if pr_status p = ''pending'' then
               ret (PollError ''authorization_pending'' ''the user has not yet completed authorization'')
             else if pr_status p = ''denied'' then
               ret (PollError ''access_denied'' ''the user denied the authorization request'')
             else if pr_status p \<noteq> ''authorized'' then
               fail (OAuthErr ''invalid_grant'' (''invalid '' @ kind @ '' authorization state''))
             else case pr_user p of
               None \<Rightarrow> fail (OAuthErr ''invalid_grant'' ''device authorization has no bound user'')
             | Some user \<Rightarrow>
                 bind_io time_now (\<lambda>used.
                 then_io (db_write (consume (pr_id p) used))
                 (bind_io (db_read (client_grant_types client)) (\<lambda>grants.
                  case grants of None \<Rightarrow> fail ErrNoRows | Some gs \<Rightarrow> ret (PollGranted user gs)))))
        e1 (touch (pr_id p) at' w) = (Inr (PollGranted u gs), e', w')"
    unfolding poll_def by (auto simp: bind_ok time_now_ok db_write_ok simp del: if_split_asm split del: if_split)
  from run have st: "now \<le> pr_expires p" "pr_status p = ''authorized''"
    by (auto simp: ret_ok fail_ok split: if_splits)
  from run st obtain v where v: "pr_user p = Some v" by (cases "pr_user p") (auto simp: ret_ok fail_ok split: if_splits)
  from run st v obtain used e2 gr where u: "(case gr of None \<Rightarrow> fail ErrNoRows | Some gs \<Rightarrow> ret (PollGranted v gs)) e2
      (consume (pr_id p) used (touch (pr_id p) at' w)) = (Inr (PollGranted u gs), e', w')"
    by (auto simp: bind_ok time_now_ok db_write_ok db_read_ok ret_ok split: if_splits)
  then have "v = u \<and> w' = consume (pr_id p) used (touch (pr_id p) at' w)" by (cases gr) (auto simp: ret_ok fail_ok)
  with p c st v now that show thesis by blast
qed

lemma device_token_ok:
  assumes "device_token s client raw e w = (Inr t, e', w')"
  obtains d u gs at' used e1 e2 w1 where "lock_device_by_code (codes_hash (oi_crypto s) raw) w = Some d" and "dv_client d = client"
    and "dv_consumed d = None" and "dv_status d = ''authorized''" and "dv_user d = Some u" and "e_clock e (e_ticks e) \<le> dv_expires d"
    and "w1 = consume_device (dv_id d) used (touch_device_poll (dv_id d) at' w)"
    and "poll_device s client raw e w = (Inr (PollGranted u gs, Some d), e1, w1)"
    and "issue_tokens s client gs u (dv_tenant d) (dv_scopes d) [] [] e1 w1 = (Inr t, e', w')"
proof -
  from assms obtain out row e1 w1 where poll: "poll_device s client raw e w = (Inr (out, row), e1, w1)"
    and t: "(case out of PollError code d \<Rightarrow> fail (OAuthErr code d)
        | PollGranted user grants \<Rightarrow> (case row of None \<Rightarrow> fail ErrNoRows
             | Some d \<Rightarrow> issue_tokens s client grants user (dv_tenant d) (dv_scopes d) [] [])) e1 w1 = (Inr t, e', w')"
    unfolding device_token_def by (auto simp: bind_ok fail_ok split: if_splits)
  then obtain u gs where out: "out = PollGranted u gs" by (cases out) (auto simp: fail_ok)
  from poll obtain e2 e3 e4 where lock: "row = lock_device_by_code (codes_hash (oi_crypto s) raw) w"
    and p: "poll touch_device_poll consume_device ''device_code'' ''device'' client (map_option device_pending row) e2 w = (Inr (PollGranted u gs), e3, w1)"
    and e2: "e_clock e2 = e_clock e" "e_ticks e2 = e_ticks e"
    unfolding poll_device_def out by (elim in_tx_ok) (auto simp: bind_ok db_read_ok ret_ok next_call_def)
  from p show thesis
  proof (rule poll_granted)
    fix q at' used assume q: "map_option device_pending row = Some q" "pr_client q = client" "pr_consumed q = None"
      "e_clock e2 (e_ticks e2) \<le> pr_expires q" "pr_status q = ''authorized''" "pr_user q = Some u"
      "w1 = consume_device (pr_id q) used (touch_device_poll (pr_id q) at' w)"
    then obtain d where d: "row = Some d" "q = device_pending d" by auto
    have l: "lock_device_by_code (codes_hash (oi_crypto s) raw) w = Some d" using lock d(1) by simp
    have f: "dv_client d = client" "dv_consumed d = None" "dv_status d = ''authorized''" "dv_user d = Some u"
      "e_clock e (e_ticks e) \<le> dv_expires d" "w1 = consume_device (dv_id d) used (touch_device_poll (dv_id d) at' w)"
      using q(2-7) e2 by (simp_all add: d(2) device_pending_def)
    have "poll_device s client raw e w = (Inr (PollGranted u gs, Some d), e1, w1)" using poll by (simp only: out d(1))
    moreover have "issue_tokens s client gs u (dv_tenant d) (dv_scopes d) [] [] e1 w1 = (Inr t, e', w')"
      using t by (simp only: out d(1) poll_outcome.case option.case)
    ultimately show thesis by (rule that [OF l f])
  qed
qed

lemma backchannel_token_ok:
  assumes "backchannel_token s client raw e w = (Inr t, e', w')"
  obtains c gs at' used e1 e2 w1 where "lock_ciba_by_hash (codes_hash (oi_crypto s) raw) w = Some c" and "cb_client c = client"
    and "cb_consumed c = None" and "cb_status c = ''authorized''" and "e_clock e (e_ticks e) \<le> cb_expires c"
    and "w1 = consume_ciba (cb_id c) used (touch_ciba_poll (cb_id c) at' w)"
    and "poll_backchannel s client raw e w = (Inr (PollGranted (cb_user c) gs, Some c), e1, w1)"
    and "issue_tokens s client gs (cb_user c) (cb_tenant c) (cb_scopes c) [] [] e1 w1 = (Inr t, e', w')"
proof -
  from assms obtain out row e1 w1 where poll: "poll_backchannel s client raw e w = (Inr (out, row), e1, w1)"
    and t: "(case out of PollError code d \<Rightarrow> fail (OAuthErr code d)
        | PollGranted user grants \<Rightarrow> (case row of None \<Rightarrow> fail ErrNoRows
             | Some c \<Rightarrow> issue_tokens s client grants user (cb_tenant c) (cb_scopes c) [] [])) e1 w1 = (Inr t, e', w')"
    unfolding backchannel_token_def by (auto simp: bind_ok fail_ok split: if_splits)
  then obtain u gs where out: "out = PollGranted u gs" by (cases out) (auto simp: fail_ok)
  from poll obtain e2 e3 e4 where lock: "row = lock_ciba_by_hash (codes_hash (oi_crypto s) raw) w"
    and p: "poll touch_ciba_poll consume_ciba ''auth_req_id'' ''backchannel'' client (map_option ciba_pending row) e2 w = (Inr (PollGranted u gs), e3, w1)"
    and e2: "e_clock e2 = e_clock e" "e_ticks e2 = e_ticks e"
    unfolding poll_backchannel_def out by (elim in_tx_ok) (auto simp: bind_ok db_read_ok ret_ok next_call_def)
  from p show thesis
  proof (rule poll_granted)
    fix q at' used assume q: "map_option ciba_pending row = Some q" "pr_client q = client" "pr_consumed q = None"
      "e_clock e2 (e_ticks e2) \<le> pr_expires q" "pr_status q = ''authorized''" "pr_user q = Some u"
      "w1 = consume_ciba (pr_id q) used (touch_ciba_poll (pr_id q) at' w)"
    then obtain c where c: "row = Some c" "q = ciba_pending c" by auto
    have l: "lock_ciba_by_hash (codes_hash (oi_crypto s) raw) w = Some c" using lock c(1) by simp
    have f: "cb_client c = client" "cb_consumed c = None" "cb_status c = ''authorized''" "e_clock e (e_ticks e) \<le> cb_expires c"
      "w1 = consume_ciba (cb_id c) used (touch_ciba_poll (cb_id c) at' w)"
      using q(2-7) e2 by (simp_all add: c(2) ciba_pending_def)
    have u: "u = cb_user c" using q(6) by (simp add: c(2) ciba_pending_def)
    have "poll_backchannel s client raw e w = (Inr (PollGranted (cb_user c) gs, Some c), e1, w1)" using poll by (simp only: out c(1) u)
    moreover have "issue_tokens s client gs (cb_user c) (cb_tenant c) (cb_scopes c) [] [] e1 w1 = (Inr t, e', w')"
      using t by (simp only: out c(1) u poll_outcome.case option.case)
    ultimately show thesis by (rule that [OF l f])
  qed
qed

lemma settled_device_stays:
  "oidc_advance A w w' \<Longrightarrow> settled_key dv_hash (\<lambda>d. dv_consumed d \<noteq> None) k (devcode_rows w) \<Longrightarrow>
   settled_key dv_hash (\<lambda>d. dv_consumed d \<noteq> None) k (devcode_rows w')"
  unfolding oidc_advance_def by (elim conjE, rule devices.settled_stays [rotated]) (use device_le_fields in auto)

lemma settled_ciba_stays:
  "oidc_advance A w w' \<Longrightarrow> settled_key cb_hash (\<lambda>c. cb_consumed c \<noteq> None) k (ciba_rows w) \<Longrightarrow>
   settled_key cb_hash (\<lambda>c. cb_consumed c \<noteq> None) k (ciba_rows w')"
  unfolding oidc_advance_def by (elim conjE, rule requests.settled_stays [rotated]) (use ciba_le_fields in auto)

lemma device_lock: "lock_device_by_code hash w = Some d \<Longrightarrow> d \<in> set (devcode_rows w) \<and> dv_hash d = hash"
  unfolding lock_device_by_code_def by (auto simp: find_Some_iff in_set_conv_nth)

lemma ciba_lock: "lock_ciba_by_hash hash w = Some c \<Longrightarrow> c \<in> set (ciba_rows w) \<and> cb_hash c = hash"
  unfolding lock_ciba_by_hash_def by (auto simp: find_Some_iff in_set_conv_nth)

lemma consumed_device:
  assumes "oidc_ok w" and d: "d \<in> set (devcode_rows w)"
  shows "settled_key dv_hash (\<lambda>d. dv_consumed d \<noteq> None) (dv_hash d)
    (devcode_rows (consume_device (dv_id d) used (touch_device_poll (dv_id d) at' w)))"
proof -
  let ?f = "\<lambda>q. if dv_id q = dv_id d then q\<lparr>dv_polled := Some at', dv_consumed := Some used\<rparr> else q"
  have rows: "devcode_rows (consume_device (dv_id d) used (touch_device_poll (dv_id d) at' w)) = map ?f (devcode_rows w)"
    by (simp add: consume_device_def touch_device_poll_def update_device_def)
  have "dv_consumed (?f q) \<noteq> None" if "q \<in> set (devcode_rows w)" "dv_hash (?f q) = dv_hash d" for q
  proof -
    from that(2) have "dv_hash q = dv_hash d" by (simp split: if_splits)
    with that(1) have "q = d" using assms by (auto simp: oidc_ok_def intro: same_row_id)
    then show ?thesis by simp
  qed
  then have "dv_consumed r \<noteq> None" if "r \<in> set (map ?f (devcode_rows w))" "dv_hash r = dv_hash d" for r
    using that unfolding set_map by (elim imageE) blast
  moreover have "?f d \<in> set (map ?f (devcode_rows w))" unfolding set_map by (rule imageI) (rule d)
  moreover have "dv_hash (?f d) = dv_hash d" by simp
  ultimately show ?thesis unfolding rows settled_key_def by blast
qed

lemma consumed_ciba:
  assumes "oidc_ok w" and c: "c \<in> set (ciba_rows w)"
  shows "settled_key cb_hash (\<lambda>c. cb_consumed c \<noteq> None) (cb_hash c)
    (ciba_rows (consume_ciba (cb_id c) used (touch_ciba_poll (cb_id c) at' w)))"
proof -
  let ?f = "\<lambda>q. if cb_id q = cb_id c then q\<lparr>cb_polled := Some at', cb_consumed := Some used\<rparr> else q"
  have rows: "ciba_rows (consume_ciba (cb_id c) used (touch_ciba_poll (cb_id c) at' w)) = map ?f (ciba_rows w)"
    by (simp add: consume_ciba_def touch_ciba_poll_def update_ciba_def)
  have "cb_consumed (?f q) \<noteq> None" if "q \<in> set (ciba_rows w)" "cb_hash (?f q) = cb_hash c" for q
  proof -
    from that(2) have "cb_hash q = cb_hash c" by (simp split: if_splits)
    with that(1) have "q = c" using assms by (auto simp: oidc_ok_def intro: same_row_id)
    then show ?thesis by simp
  qed
  then have "cb_consumed r \<noteq> None" if "r \<in> set (map ?f (ciba_rows w))" "cb_hash r = cb_hash c" for r
    using that unfolding set_map by (elim imageE) blast
  moreover have "?f c \<in> set (map ?f (ciba_rows w))" unfolding set_map by (rule imageI) (rule c)
  moreover have "cb_hash (?f c) = cb_hash c" by simp
  ultimately show ?thesis unfolding rows settled_key_def by blast
qed

section \<open>Token exchange\<close>

lemma downscope_within: "downscope held asked = Some granted \<Longrightarrow> set granted \<subseteq> set held"
  by (auto simp: downscope_def Let_def split: if_splits)

lemma token_exchange_ok:
  fixes w :: "'z oidc_db_scheme"
  assumes "token_exchange s client secret i e w = (Inr t, e', w')"
  obtains c user granted where "proves_client s client secret w"
    and "oi_verify s (e_clock e (e_ticks e)) (ex_subject i) = Some c" and "oi_uuid s (ac_subject c) = Some user"
    and "set granted \<subseteq> set (str_fields (ac_scope c))" and "bears s (tr_access t) user (ac_tenant c) (join_scopes granted)"
    and "tr_scope t = join_scopes granted" and "tr_refresh t = []"
    and "\<exists>k. find_client client w = Some k \<and> (''token_exchange'' \<in> set (cl_grants k) \<or> token_exchange_grant \<in> set (cl_grants k))"
proof -
  from assms obtain grants e1 w1 where auth: "authenticate_client s client secret e w = (Inr grants, e1, w1)"
    and gr: "''token_exchange'' \<in> set grants \<or> token_exchange_grant \<in> set grants"
    and rest: "bind_io (verify_access s (ex_subject i) (api_unauthorized ''invalid or expired subject_token'')) (\<lambda>c.
       case oi_uuid s (ac_subject c) of
         None \<Rightarrow> fail (api_unauthorized ''subject_token has no user subject'')
       | Some user \<Rightarrow>
           (case downscope (str_fields (ac_scope c)) (ex_scope i) of
              None \<Rightarrow> fail (api_forbidden (''requested scope exceeds the subject token'' @ [char_of (39::nat)] @ ''s scope''))
            | Some granted \<Rightarrow>
                bind_io (actor_subject s i) (\<lambda>actor.
                bind_io (if ac_session c = 0 then uuid_new else ret (ac_session c)) (\<lambda>sid.
                bind_io (issue_access_full (oi_tokens s) user (ac_tenant c) sid (join_scopes granted)
                    (nullif_empty actor) (ex_resource i) []) (\<lambda>(access, exp).
                bind_io time_now (\<lambda>now.
                  ret \<lparr>tr_access = access, tr_id = [], tr_refresh = [], tr_expires_in = whole_seconds (exp - now),
                       tr_scope = join_scopes granted, tr_issued_type = access_token_type\<rparr>)))))) e1 w1 = (Inr t, e', w')"
    unfolding token_exchange_def by (auto simp: bind_ok fail_ok split: if_splits)
  note a = authenticate_ok [OF auth]
  from rest obtain c e2 w2 where v: "oi_verify s (e_clock e1 (e_ticks e1)) (ex_subject i) = Some c" and rest2: "(case oi_uuid s (ac_subject c) of
         None \<Rightarrow> fail (api_unauthorized ''subject_token has no user subject'')
       | Some user \<Rightarrow>
           (case downscope (str_fields (ac_scope c)) (ex_scope i) of
              None \<Rightarrow> fail (api_forbidden (''requested scope exceeds the subject token'' @ [char_of (39::nat)] @ ''s scope''))
            | Some granted \<Rightarrow>
                bind_io (actor_subject s i) (\<lambda>actor.
                bind_io (if ac_session c = 0 then uuid_new else ret (ac_session c)) (\<lambda>sid.
                bind_io (issue_access_full (oi_tokens s) user (ac_tenant c) sid (join_scopes granted)
                    (nullif_empty actor) (ex_resource i) []) (\<lambda>(access, exp).
                bind_io time_now (\<lambda>now.
                  ret \<lparr>tr_access = access, tr_id = [], tr_refresh = [], tr_expires_in = whole_seconds (exp - now),
                       tr_scope = join_scopes granted, tr_issued_type = access_token_type\<rparr>)))))) e2 w2 = (Inr t, e', w')"
    by (auto simp: bind_ok verify_access_def time_now_ok ret_ok fail_ok split: option.splits)
  then obtain user where u: "oi_uuid s (ac_subject c) = Some user" by (cases "oi_uuid s (ac_subject c)") (auto simp: fail_ok)
  with rest2 obtain granted where g: "downscope (str_fields (ac_scope c)) (ex_scope i) = Some granted"
    by (cases "downscope (str_fields (ac_scope c)) (ex_scope i)") (auto simp: fail_ok)
  from rest2 u g obtain access until actor sid e3 e4 and w3 w4 :: "'z oidc_db_scheme" where
      iss: "issue_access_full (oi_tokens s) user (ac_tenant c) sid (join_scopes granted) (nullif_empty actor) (ex_resource i) [] e3 w3 =
        (Inr (access, until), e4, w4)"
    and t: "tr_access t = access" "tr_scope t = join_scopes granted" "tr_refresh t = []"
    by (auto simp: bind_ok time_now_ok ret_ok)
  show thesis
    by (rule that [OF _ _ u downscope_within [OF g]]) (use a v gr t issue_access_bears [OF iss] in auto)
qed

end
