(* ===== verification/OidcClaims.thy ===== *)
theory OidcClaims imports OidcAnswers begin

text \<open>
  The four ways to redeem an authorization for tokens, by a code, a refresh token, a device code or the id of a
  backchannel request: what each proves, and that the credential is spent afterwards.
\<close>

section \<open>Redemptions\<close>

datatype redemption =
    RedeemCode string string string string string string \<comment> \<open>client, secret, code, redirect URI, verifier, resource\<close>
  | RedeemRefresh string string string string \<comment> \<open>client, secret, refresh token, resource\<close>
  | RedeemDevice string string \<comment> \<open>client, device code\<close>
  | RedeemRequest string string \<comment> \<open>client, id of the request\<close>

fun redeem :: "'z oidc_db_scheme oidc_service \<Rightarrow> redemption \<Rightarrow> ('z oidc_db_scheme, token_response) io" where
  "redeem s (RedeemCode client secret code redirect verifier resource) = exchange_code s client secret code redirect verifier resource"
| "redeem s (RedeemRefresh client secret raw resource) = refresh_grant s client secret raw resource"
| "redeem s (RedeemDevice client raw) = device_token s client raw"
| "redeem s (RedeemRequest client raw) = backchannel_token s client raw"

fun redeemer :: "redemption \<Rightarrow> string" where
  "redeemer (RedeemCode client _ _ _ _ _) = client"
| "redeemer (RedeemRefresh client _ _ _) = client"
| "redeemer (RedeemDevice client _) = client"
| "redeemer (RedeemRequest client _) = client"

datatype credential = CodeOf string | RefreshOf string | DeviceOf string | RequestOf string

fun credential_of :: "redemption \<Rightarrow> credential" where
  "credential_of (RedeemCode _ _ code _ _ _) = CodeOf code"
| "credential_of (RedeemRefresh _ _ raw _) = RefreshOf raw"
| "credential_of (RedeemDevice _ raw) = DeviceOf raw"
| "credential_of (RedeemRequest _ raw) = RequestOf raw"

text \<open>What a redemption needs of the stored authorization, for whose user, tenant and scopes it is.\<close>

fun earned ::
  "'z oidc_db_scheme oidc_service \<Rightarrow> redemption \<Rightarrow> time \<Rightarrow> 'z oidc_db_scheme \<Rightarrow> uuid \<Rightarrow> uuid \<Rightarrow> string list \<Rightarrow> bool" where
  "earned s (RedeemCode client secret code redirect verifier resource) now w user tenant scopes \<longleftrightarrow>
     proves_client s client secret w \<and>
     (\<exists>c \<in> set (code_rows w). az_hash c = codes_hash (oi_crypto s) code \<and> az_client c = client \<and>
        meets_code (oi_crypto s) c redirect verifier now \<and> az_user c = user \<and> az_tenant c = tenant \<and> az_scopes c = scopes)"
| "earned s (RedeemRefresh client secret raw resource) now w user tenant scopes \<longleftrightarrow>
     proves_client s client secret w \<and>
     (\<exists>g \<in> set (grant_rows w). gt_hash g = hash_refresh (oi_crypto s) raw \<and> gt_client g = client \<and> gt_revoked g = None \<and>
        gt_used g = None \<and> now \<le> gt_expires g \<and> gt_user g = user \<and> gt_tenant g = tenant \<and> gt_scopes g = scopes)"
| "earned s (RedeemDevice client raw) now w user tenant scopes \<longleftrightarrow>
     (\<exists>d \<in> set (devcode_rows w). dv_hash d = codes_hash (oi_crypto s) raw \<and> dv_client d = client \<and> dv_consumed d = None \<and>
        dv_status d = ''authorized'' \<and> now \<le> dv_expires d \<and> dv_user d = Some user \<and> dv_tenant d = tenant \<and> dv_scopes d = scopes)"
| "earned s (RedeemRequest client raw) now w user tenant scopes \<longleftrightarrow>
     (\<exists>c \<in> set (ciba_rows w). cb_hash c = codes_hash (oi_crypto s) raw \<and> cb_client c = client \<and> cb_consumed c = None \<and>
        cb_status c = ''authorized'' \<and> now \<le> cb_expires c \<and> cb_user c = user \<and> cb_tenant c = tenant \<and> cb_scopes c = scopes)"

text \<open>Every row of the credential is used.\<close>

fun spent_credential :: "'w oidc_service \<Rightarrow> credential \<Rightarrow> 'z oidc_db_scheme \<Rightarrow> bool" where
  "spent_credential s (CodeOf code) w \<longleftrightarrow>
     settled_key az_hash (\<lambda>c. az_used c \<noteq> None) (codes_hash (oi_crypto s) code) (code_rows w)"
| "spent_credential s (RefreshOf raw) w \<longleftrightarrow>
     settled_key gt_hash (\<lambda>g. gt_used g \<noteq> None \<or> gt_revoked g \<noteq> None) (hash_refresh (oi_crypto s) raw) (grant_rows w)"
| "spent_credential s (DeviceOf raw) w \<longleftrightarrow>
     settled_key dv_hash (\<lambda>d. dv_consumed d \<noteq> None) (codes_hash (oi_crypto s) raw) (devcode_rows w)"
| "spent_credential s (RequestOf raw) w \<longleftrightarrow>
     settled_key cb_hash (\<lambda>c. cb_consumed c \<noteq> None) (codes_hash (oi_crypto s) raw) (ciba_rows w)"

lemma spent_stays: "oidc_advance A w w' \<Longrightarrow> spent_credential s c w \<Longrightarrow> spent_credential s c w'"
  by (cases c; simp only: spent_credential.simps)
    (erule (1) settled_code_stays settled_grant_stays settled_device_stays settled_ciba_stays)+

lemma credential_refused: "spent_credential s (credential_of q) w \<Longrightarrow> \<not> earned s q now w user tenant scopes"
  by (cases q) (auto simp: settled_key_def meets_code_def)

lemma run_redemption: "keeps (running A w0) (redeem s q)"
  by (cases q) (simp_all add: run_exchange_code run_refresh run_device_token run_backchannel_token)

lemma redeem_advances:
  assumes "oidc_ok w" and "redeem s q e w = (res, e', w')"
  shows "oidc_ok w' \<and> oidc_advance (anything (user_rows w)) w w'"
proof -
  have "running (anything (user_rows w)) w w" by (rule running_start [OF assms(1)]) (simp_all add: anything_def)
  from keepsD [OF run_redemption this assms(2)] show ?thesis by (simp add: running_def)
qed

section \<open>What each kind proves\<close>

definition redeems_well ::
  "'z oidc_db_scheme oidc_service \<Rightarrow> redemption \<Rightarrow> time \<Rightarrow> 'z oidc_db_scheme \<Rightarrow> token_response \<Rightarrow> 'z oidc_db_scheme \<Rightarrow> bool" where
  "redeems_well s q now w t w' \<longleftrightarrow> (\<exists>user tenant scopes. earned s q now w user tenant scopes \<and>
     bears s (tr_access t) user tenant (join_scopes scopes) \<and>
     (oidc_ok w \<longrightarrow> spent_credential s (credential_of q) w' \<and> source (redeemer q) user tenant scopes w'))"

lemma code_redeemed:
  assumes run: "exchange_code s client secret code redirect verifier resource e w = (Inr t, e', w')"
  shows "redeems_well s (RedeemCode client secret code redirect verifier resource) (e_clock e (e_ticks e)) w t w'"
  using run
proof (rule exchange_code_ok)
  fix c used e1 e2 grants nonce
  let ?h = "codes_hash (oi_crypto s) code"
  assume p: "proves_client s client secret w" and c: "consume_authorization_code ?h client w = Some c"
    and m: "meets_code (oi_crypto s) c redirect verifier (e_clock e (e_ticks e))"
    and iss: "issue_tokens s client grants (az_user c) (az_tenant c) (az_scopes c) nonce resource e2 (mark_code_used ?h used w) = (Inr t, e', w')"
  note f = code_found [OF c]
  have rows: "code_rows w' = code_rows (mark_code_used ?h used w)" using issue_tokens_frame [OF iss] by blast
  have "c\<lparr>az_used := Some used\<rparr> \<in> set (code_rows w')"
    unfolding rows mark_code_used_def using f by (auto intro: image_eqI [where x = c])
  then have "source client (az_user c) (az_tenant c) (az_scopes c) w'"
    unfolding source_def using f by (intro disjI1 bexI [where x = "c\<lparr>az_used := Some used\<rparr>"]) simp_all
  moreover have "spent_credential s (CodeOf code) w'"
    unfolding spent_credential.simps rows by (rule used_settled [of c]) (use f in simp_all)
  moreover have "earned s (RedeemCode client secret code redirect verifier resource) (e_clock e (e_ticks e)) w
      (az_user c) (az_tenant c) (az_scopes c)" using p m f by auto
  ultimately show ?thesis unfolding redeems_well_def using issue_tokens_bears [OF iss] by auto
qed

lemma refresh_redeemed:
  assumes run: "refresh_grant s client secret raw resource e w = (Inr t, e', w')"
  shows "redeems_well s (RedeemRefresh client secret raw resource) (e_clock e (e_ticks e)) w t w'"
  using run
proof (rule refresh_ok)
  fix e1 e2 g new res
  let ?h = "hash_refresh (oi_crypto s) raw"
  assume p: "proves_client s client secret w" and clock: "e_clock e1 = e_clock e" "e_ticks e1 = e_ticks e"
    and b: "bears s (tr_access t) (gt_user g) (gt_tenant g) (join_scopes (gt_scopes g))"
    and "redeem_grant s client raw resource e1 w = (Inr (GrantRotated g new res), e2, w')"
  then show ?thesis
  proof (elim redeem_ok)
    fix i n used now
    assume g: "lock_grant ?h w = Some g" "gt_client g = client" "gt_revoked g = None" "gt_used g = None"
        "now = e_clock e1 (e_ticks e1)" "now \<le> gt_expires g" and n: "gt_hash n \<notin> gt_hash ` set (grant_rows w)"
      and w': "w' = mark_grant_used i (gt_id g) used (w\<lparr>grant_rows := grant_rows w @ [n]\<rparr>)"
    note f = grant_found [OF g(1)]
    have "spent_credential s (RefreshOf raw) w'" if "oidc_ok w"
      using redeemed_settled [OF that conjunct1 [OF f] n, of i used] f by (simp add: w')
    moreover have "source client (gt_user g) (gt_tenant g) (gt_scopes g) w'" if "oidc_ok w"
    proof -
      from that f g(2) have "source client (gt_user g) (gt_tenant g) (gt_scopes g) w" by (auto simp: oidc_ok_def rooted_def)
      moreover from redeem_advances [OF that, of s "RedeemRefresh client secret raw resource"] run
      have "oidc_advance (anything (user_rows w)) w w'" by simp
      ultimately show ?thesis by (rule source_stays [rotated])
    qed
    moreover have "earned s (RedeemRefresh client secret raw resource) (e_clock e (e_ticks e)) w (gt_user g) (gt_tenant g) (gt_scopes g)"
      using p f g clock by auto
    ultimately show ?thesis unfolding redeems_well_def using b by auto
  qed
qed

lemma device_redeemed:
  assumes "device_token s client raw e w = (Inr t, e', w')"
  shows "redeems_well s (RedeemDevice client raw) (e_clock e (e_ticks e)) w t w'"
  using assms
proof (rule device_token_ok)
  fix d u gs at' used e1 e2 w1
  let ?h = "codes_hash (oi_crypto s) raw"
  assume l: "lock_device_by_code ?h w = Some d" and d: "dv_client d = client" "dv_consumed d = None" "dv_status d = ''authorized''"
      "dv_user d = Some u" "e_clock e (e_ticks e) \<le> dv_expires d"
    and w1: "w1 = consume_device (dv_id d) used (touch_device_poll (dv_id d) at' w)"
    and iss: "issue_tokens s client gs u (dv_tenant d) (dv_scopes d) [] [] e1 w1 = (Inr t, e', w')"
  note f = device_lock [OF l]
  have rows: "devcode_rows w' = devcode_rows w1" using issue_tokens_frame [OF iss] by blast
  let ?d = "d\<lparr>dv_polled := Some at', dv_consumed := Some used\<rparr>"
  have "?d \<in> set (devcode_rows w')"
    unfolding rows w1 consume_device_def touch_device_poll_def update_device_def using f by (auto intro!: image_eqI [where x = d])
  then have "source client u (dv_tenant d) (dv_scopes d) w'"
    unfolding source_def using d by (intro disjI2 [OF disjI1] bexI [where x = ?d]) simp_all
  moreover have "spent_credential s (DeviceOf raw) w'" if "oidc_ok w"
    using consumed_device [OF that conjunct1 [OF f]] f by (simp add: rows w1)
  moreover have "earned s (RedeemDevice client raw) (e_clock e (e_ticks e)) w u (dv_tenant d) (dv_scopes d)" using d f by auto
  ultimately show ?thesis unfolding redeems_well_def using issue_tokens_bears [OF iss] by auto
qed

lemma request_redeemed:
  assumes "backchannel_token s client raw e w = (Inr t, e', w')"
  shows "redeems_well s (RedeemRequest client raw) (e_clock e (e_ticks e)) w t w'"
  using assms
proof (rule backchannel_token_ok)
  fix c gs at' used e1 e2 w1
  let ?h = "codes_hash (oi_crypto s) raw"
  assume l: "lock_ciba_by_hash ?h w = Some c" and c: "cb_client c = client" "cb_consumed c = None" "cb_status c = ''authorized''"
      "e_clock e (e_ticks e) \<le> cb_expires c"
    and w1: "w1 = consume_ciba (cb_id c) used (touch_ciba_poll (cb_id c) at' w)"
    and iss: "issue_tokens s client gs (cb_user c) (cb_tenant c) (cb_scopes c) [] [] e1 w1 = (Inr t, e', w')"
  note f = ciba_lock [OF l]
  have rows: "ciba_rows w' = ciba_rows w1" using issue_tokens_frame [OF iss] by blast
  let ?c = "c\<lparr>cb_polled := Some at', cb_consumed := Some used\<rparr>"
  have "?c \<in> set (ciba_rows w')"
    unfolding rows w1 consume_ciba_def touch_ciba_poll_def update_ciba_def using f by (auto intro!: image_eqI [where x = c])
  then have "source client (cb_user c) (cb_tenant c) (cb_scopes c) w'"
    unfolding source_def using c by (intro disjI2 [OF disjI2] bexI [where x = ?c]) simp_all
  moreover have "spent_credential s (RequestOf raw) w'" if "oidc_ok w"
    using consumed_ciba [OF that conjunct1 [OF f]] f by (simp add: rows w1)
  moreover have "earned s (RedeemRequest client raw) (e_clock e (e_ticks e)) w (cb_user c) (cb_tenant c) (cb_scopes c)" using c f by auto
  ultimately show ?thesis unfolding redeems_well_def using issue_tokens_bears [OF iss] by auto
qed

lemma redeemed_well: "redeem s q e w = (Inr t, e', w') \<Longrightarrow> redeems_well s q (e_clock e (e_ticks e)) w t w'"
  by (cases q) (simp_all add: code_redeemed refresh_redeemed device_redeemed request_redeemed)

section \<open>What became authorized\<close>

lemma device_became:
  assumes a: "oidc_advance A w w'" and ok: "oidc_ok w'" and d: "d \<in> set (devcode_rows w')" "dv_status d = ''authorized''"
  shows "(\<exists>d0 \<in> set (devcode_rows w). dv_id d0 = dv_id d \<and> dv_status d0 = ''authorized'' \<and> dv_user d0 = dv_user d) \<or>
    (\<forall>d0 \<in> set (devcode_rows w). dv_id d0 = dv_id d \<longrightarrow> dv_status d0 = ''pending'') \<and> device_new A d"
proof (cases "\<exists>d0 \<in> set (devcode_rows w). dv_id d0 = dv_id d")
  case True
  have le: "device_le A d0 d" if d0: "d0 \<in> set (devcode_rows w)" "dv_id d0 = dv_id d" for d0
  proof -
    from a d0(1) obtain d' where d': "d' \<in> set (devcode_rows w')" "device_le A d0 d'"
      unfolding oidc_advance_def using devices.row_after by blast
    with device_le_fields [OF d'(2)] d0(2) d(1) ok have "d' = d" by (intro same_row_id [of dv_id]) (auto simp: oidc_ok_def)
    with d'(2) show ?thesis by simp
  qed
  have each: "dv_status d0 = ''authorized'' \<and> dv_user d0 = dv_user d \<or> dv_status d0 = ''pending'' \<and> device_new A d"
    if "d0 \<in> set (devcode_rows w)" "dv_id d0 = dv_id d" for d0
    using device_le_fields [OF le [OF that]] d(2) by auto
  show ?thesis
  proof (rule disjCI)
    assume "\<not> ((\<forall>d0 \<in> set (devcode_rows w). dv_id d0 = dv_id d \<longrightarrow> dv_status d0 = ''pending'') \<and> device_new A d)"
    with True each show "\<exists>d0 \<in> set (devcode_rows w). dv_id d0 = dv_id d \<and> dv_status d0 = ''authorized'' \<and> dv_user d0 = dv_user d"
      by meson
  qed
next
  case False
  have "device_new A d \<or> (\<exists>d0 \<in> set (devcode_rows w). device_le A d0 d)"
    using a devices.row_before [OF _ d(1)] unfolding oidc_advance_def by blast
  with False device_le_fields show ?thesis by metis
qed

lemma ciba_became:
  assumes a: "oidc_advance A w w'" and ok: "oidc_ok w'" and q: "q \<in> set (ciba_rows w')" "cb_status q = ''authorized''"
  shows "(\<exists>q0 \<in> set (ciba_rows w). cb_id q0 = cb_id q \<and> cb_status q0 = ''authorized'') \<or>
    (\<forall>q0 \<in> set (ciba_rows w). cb_id q0 = cb_id q \<longrightarrow> cb_status q0 = ''pending'') \<and> ciba_new A q"
proof (cases "\<exists>q0 \<in> set (ciba_rows w). cb_id q0 = cb_id q")
  case True
  have le: "ciba_le A q0 q" if q0: "q0 \<in> set (ciba_rows w)" "cb_id q0 = cb_id q" for q0
  proof -
    from a q0(1) obtain q' where q': "q' \<in> set (ciba_rows w')" "ciba_le A q0 q'"
      unfolding oidc_advance_def using requests.row_after by blast
    with ciba_le_fields [OF q'(2)] q0(2) q(1) ok have "q' = q" by (intro same_row_id [of cb_id]) (auto simp: oidc_ok_def)
    with q'(2) show ?thesis by simp
  qed
  have each: "cb_status q0 = ''authorized'' \<or> cb_status q0 = ''pending'' \<and> ciba_new A q"
    if "q0 \<in> set (ciba_rows w)" "cb_id q0 = cb_id q" for q0
    using ciba_le_fields [OF le [OF that]] q(2) by auto
  show ?thesis
  proof (rule disjCI)
    assume "\<not> ((\<forall>q0 \<in> set (ciba_rows w). cb_id q0 = cb_id q \<longrightarrow> cb_status q0 = ''pending'') \<and> ciba_new A q)"
    with True each show "\<exists>q0 \<in> set (ciba_rows w). cb_id q0 = cb_id q \<and> cb_status q0 = ''authorized''" by meson
  qed
next
  case False
  have "ciba_new A q \<or> (\<exists>q0 \<in> set (ciba_rows w). ciba_le A q0 q)"
    using a requests.row_before [OF _ q(1)] unfolding oidc_advance_def by blast
  with False ciba_le_fields show ?thesis by metis
qed

text \<open>
  The properties of the OpenID provider: what a redemption proved and what its tokens carry, that nothing is redeemed
  twice, and who can approve what.
\<close>

text \<open>C14. What is redeemed for tokens was earned. A code, a refresh token, a device code or the id of a backchannel request
  is exchanged for tokens only by the client it was issued to, which gave its secret when it is confidential (asked only of
  codes and refresh tokens), before it expires, before any other use, and with what it asks for: the redirect URI and, when
  there is a challenge, the verifier of the code, a refresh token that is not revoked, a device or a backchannel request
  that was authorized. The access token is for the user, the tenant and the scopes of the stored authorization. In
  well-formed tables the credential is spent afterwards, and the tables hold a code, device or backchannel request of that
  client, user, tenant and scopes that was redeemed.\<close>

theorem redemption_is_earned:
  assumes "redeem s q e w = (Inr t, e', w')"
  shows "\<exists>user tenant scopes. earned s q (e_clock e (e_ticks e)) w user tenant scopes \<and>
     bears s (tr_access t) user tenant (join_scopes scopes) \<and>
     (oidc_ok w \<longrightarrow> spent_credential s (credential_of q) w' \<and> source (redeemer q) user tenant scopes w')"
  using redeemed_well [OF assms] unfolding redeems_well_def .

text \<open>C15. Nothing is redeemed twice: what was exchanged for tokens once, a code, a refresh token, a device code or the id of a
  backchannel request, is never exchanged again, whatever requests to the provider follow, whatever fails, and whatever
  other components do that leaves its tables alone.\<close>

theorem credentials_work_once:
  assumes h: "notifier_spares h" and ok: "oidc_ok w" and used: "redeem (oh_service h) q e w = (Inr t, e1, w1)"
    and later: "(oidc_step h)\<^sup>*\<^sup>* w1 w2" and same: "credential_of q2 = credential_of q"
  shows "redeem (oh_service h) q2 e2 w2 \<noteq> (Inr t2, e3, w3)"
proof
  assume again: "redeem (oh_service h) q2 e2 w2 = (Inr t2, e3, w3)"
  have "spent_credential (oh_service h) (credential_of q) w1" using redeemed_well [OF used] ok unfolding redeems_well_def by blast
  moreover have "oidc_advance (anything []) w1 w2" using steps_advance [OF h later] redeem_advances [OF ok used] by blast
  ultimately have "spent_credential (oh_service h) (credential_of q2) w2" unfolding same by (rule spent_stays [rotated])
  with redeemed_well [OF again] credential_refused show False unfolding redeems_well_def by blast
qed

text \<open>C16. Approvals are the user's own. Whatever fails, a request to the provider stores a new code only for the user of the
  unexpired hosted session of its browser, on that user's approval or under a consent that covers the scopes, for a
  redirect URI, tenant and scopes registered with the client; a device becomes authorized only from pending, by the
  decision of such a session, with the user code of that device, for a user of the tenant of the device; a backchannel
  request becomes authorized only from pending, by the decision of its own user, who names it.\<close>

theorem approvals_are_the_users:
  assumes h: "notifier_spares h" and ok: "oidc_ok w" and run: "oidc_serve h pu r b c e w = (res, e', w')"
    and now: "now = e_clock e (e_ticks e)"
  shows "(\<forall>k \<in> set (code_rows w'). az_hash k \<notin> az_hash ` set (code_rows w) \<longrightarrow>
      session_of h b now (az_user k) w \<and> consents c (az_user k) (az_client k) (az_scopes k) w \<and>
      registered (az_client k) (az_tenant k) (az_redirect k) (az_scopes k) w) \<and>
    (\<forall>d \<in> set (devcode_rows w'). dv_status d = ''authorized'' \<longrightarrow>
      (\<exists>d0 \<in> set (devcode_rows w). dv_id d0 = dv_id d \<and> dv_status d0 = ''authorized'' \<and> dv_user d0 = dv_user d) \<or>
      (\<forall>d0 \<in> set (devcode_rows w). dv_id d0 = dv_id d \<longrightarrow> dv_status d0 = ''pending'') \<and>
      (\<exists>u code. dv_user d = Some u \<and> c = DeviceDecision (Inr (True, code)) \<and>
         dv_code d = normalize_user_code (oh_service h) code \<and> session_of h b now u w \<and> user_in_tenant u (dv_tenant d) w)) \<and>
    (\<forall>q \<in> set (ciba_rows w'). cb_status q = ''authorized'' \<longrightarrow>
      (\<exists>q0 \<in> set (ciba_rows w). cb_id q0 = cb_id q \<and> cb_status q0 = ''authorized'') \<or>
      (\<forall>q0 \<in> set (ciba_rows w). cb_id q0 = cb_id q \<longrightarrow> cb_status q0 = ''pending'') \<and>
      c = DecideRequest (Inr (cb_id q, True)) \<and> require_user r = Inr (cb_user q))"
proof -
  let ?A = "request_may h r b now c w"
  have a: "oidc_advance ?A w w'" and ok': "oidc_ok w'" using serve_runs [OF h ok run] by (simp_all add: running_def now)
  show ?thesis
  proof (intro conjI ballI impI)
    fix k assume k: "k \<in> set (code_rows w')" "az_hash k \<notin> az_hash ` set (code_rows w)"
    have "code_new ?A k \<or> (\<exists>k0 \<in> set (code_rows w). code_le k0 k)"
      using a codes.row_before [OF _ k(1)] unfolding oidc_advance_def by blast
    with k(2) code_le_fields have "code_new ?A k" by (metis image_eqI)
    then show "session_of h b now (az_user k) w" "consents c (az_user k) (az_client k) (az_scopes k) w"
      "registered (az_client k) (az_tenant k) (az_redirect k) (az_scopes k) w" by (auto simp: code_new_def request_may_def)
  next
    fix d assume d: "d \<in> set (devcode_rows w')" "dv_status d = ''authorized''"
    from device_became [OF a ok' d] show "(\<exists>d0 \<in> set (devcode_rows w). dv_id d0 = dv_id d \<and> dv_status d0 = ''authorized'' \<and> dv_user d0 = dv_user d) \<or>
      (\<forall>d0 \<in> set (devcode_rows w). dv_id d0 = dv_id d \<longrightarrow> dv_status d0 = ''pending'') \<and>
      (\<exists>u code. dv_user d = Some u \<and> c = DeviceDecision (Inr (True, code)) \<and>
         dv_code d = normalize_user_code (oh_service h) code \<and> session_of h b now u w \<and> user_in_tenant u (dv_tenant d) w)"
      by (rule disj_forward) (use d(2) in \<open>auto simp: device_new_def request_may_def\<close>)
  next
    fix q assume q: "q \<in> set (ciba_rows w')" "cb_status q = ''authorized''"
    from ciba_became [OF a ok' q] show "(\<exists>q0 \<in> set (ciba_rows w). cb_id q0 = cb_id q \<and> cb_status q0 = ''authorized'') \<or>
      (\<forall>q0 \<in> set (ciba_rows w). cb_id q0 = cb_id q \<longrightarrow> cb_status q0 = ''pending'') \<and>
      c = DecideRequest (Inr (cb_id q, True)) \<and> require_user r = Inr (cb_user q)"
      by (rule disj_forward) (use q(2) in \<open>auto simp: ciba_new_def request_may_def\<close>)
  qed
qed

end
