(* ===== verification/OidcWitness.thy ===== *)
theory OidcWitness imports OidcClaims AuthWitness begin

text \<open>
  One concrete provider at which its properties are applied: a public client of tenant 1, an authorization code of the
  user 3 that is live, a device that waits for the user, and the hosted session of that user's browser.
\<close>

definition demo_oidc :: "oidc_db oidc_service" where
  "demo_oidc = \<lparr>oi_tokens = demo_service, oi_verify = (\<lambda>_ _. None), oi_sign_id = (\<lambda>_. Some ''idt''), oi_uuid = (\<lambda>_. None),
     oi_upper = (\<lambda>s. s), oi_notifier = None\<rparr>"

definition demo_oidc_handler :: "oidc_db oidc_handler" where
  "demo_oidc_handler = \<lparr>oh_service = demo_oidc, oh_login_base = ''https://login.test'', oh_cookie_secure = True,
     oh_absolute = (\<lambda>_. True), oh_draw = (\<lambda>_ _. Some 0)\<rparr>"

definition demo_client :: client_row where
  "demo_client = \<lparr>cl_id = 40, cl_tenant = 1, cl_client = ''app'', cl_secret = None, cl_type = ''public'', cl_name = ''App'',
     cl_redirects = [''https://app.test/cb''], cl_logouts = [], cl_grants = [''authorization_code''], cl_scopes = [''mail''],
     cl_created = 0, cl_reviewed = None\<rparr>"

definition demo_auth_code :: code_row where
  "demo_auth_code = \<lparr>az_hash = codes_hash demo_crypto ''c0de'', az_client = ''app'', az_user = 3, az_tenant = 1,
     az_redirect = ''https://app.test/cb'', az_scopes = [''mail''], az_nonce = None, az_challenge = None, az_method = None,
     az_expires = 1000, az_used = None, az_created = 0\<rparr>"

definition demo_devcode :: devcode_row where
  "demo_devcode = \<lparr>dv_id = 60, dv_hash = ''dh'', dv_code = ''BBBB-BBBB'', dv_client = ''app'', dv_tenant = 1, dv_user = None,
     dv_scopes = [''mail''], dv_status = ''pending'', dv_interval = 5, dv_polled = None, dv_expires = 1000,
     dv_approved = None, dv_consumed = None, dv_created = 0\<rparr>"

definition demo_hosted :: login_session_row where
  "demo_hosted = \<lparr>ls_hash = hash_refresh demo_crypto ''cookie'', ls_user = 3, ls_created = 0, ls_expires = 1000, ls_ip = None,
     ls_agent = []\<rparr>"

definition demo_oidc_db :: oidc_db where
  "demo_oidc_db = \<lparr>audit_rows = [], outbox_rows = [], dlq_rows = [], rel_rows = [], abac_policies = [], tenant_ids = [1],
     perm_rows = [], role_rows = [], role_perm_rows = [], user_role_rows = [], group_rows = [], member_rows = [],
     group_role_rows = [], user_rows = [demo_user], cred_rows = [], session_rows = [], refresh_rows = [],
     attempt_rows = [], challenge_rows = [], login_rows = [demo_hosted], device_rows = [],
     client_rows = [demo_client], code_rows = [demo_auth_code], grant_rows = [], consent_rows = [],
     devcode_rows = [demo_devcode], ciba_rows = []\<rparr>"

definition demo_redemption :: redemption where
  "demo_redemption = RedeemCode ''app'' [] ''c0de'' ''https://app.test/cb'' [] []"

definition demo_browser :: browser where
  "demo_browser = \<lparr>br_cookie = Some ''cookie'', br_tls = True, br_host = ''id.test'', br_uri = ''/device'', br_raw_query = []\<rparr>"

lemma demo_oidc_ok: "oidc_ok demo_oidc_db"
  by (simp add: oidc_ok_def demo_oidc_db_def rooted_def)

lemma demo_notifier_spares: "notifier_spares demo_oidc_handler"
  by (simp add: notifier_spares_def demo_oidc_handler_def demo_oidc_def)

lemma demo_oidc_crypto: "oi_crypto demo_oidc = demo_crypto"
  by (simp add: demo_oidc_def demo_service_def demo_auth_ext_def)

lemma demo_redeems: "\<exists>t e' w'. redeem demo_oidc demo_redemption demo_still demo_oidc_db = (Inr t, e', w')"
proof -
  have auth: "authenticate_client demo_oidc ''app'' [] demo_still demo_oidc_db =
      (Inr [''authorization_code''], next_call demo_still, demo_oidc_db)"
    by (simp add: authenticate_client_def io_run client_for_auth_def find_client_def demo_oidc_db_def demo_client_def
        demo_still_def quiet_env_def)
  let ?e = "next_call demo_still"
  have found: "consume_authorization_code (codes_hash demo_crypto ''c0de'') ''app'' demo_oidc_db = Some demo_auth_code"
    by (simp add: consume_authorization_code_def demo_oidc_db_def demo_auth_code_def)
  have "\<exists>e1 w1. consume_code demo_oidc ''app'' ''c0de'' ''https://app.test/cb'' [] ?e demo_oidc_db = (Inr demo_auth_code, e1, w1) \<and>
      e_fault e1 = (\<lambda>_. False)"
    by (simp add: consume_code_def Let_def demo_oidc_crypto io_run found pkce_error_def demo_auth_code_def demo_still_def quiet_env_def)
  then obtain e1 w1 where consumed: "consume_code demo_oidc ''app'' ''c0de'' ''https://app.test/cb'' [] ?e demo_oidc_db = (Inr demo_auth_code, e1, w1)"
    by blast
  have "\<exists>t e' w'. issue_tokens demo_oidc ''app'' [''authorization_code''] 3 1 [''mail''] [] [] e1 w1 = (Inr t, e', w')"
    by (simp add: issue_tokens_def access_and_id_def issue_access_full_def Let_def io_run demo_oidc_def demo_service_def
        demo_auth_ext_def)
  with auth consumed show ?thesis
    by (simp add: demo_redemption_def exchange_code_def bind_io_def demo_auth_code_def)
qed

theorem redemption_is_earned_witness:
  "\<exists>t e' w'. redeem demo_oidc demo_redemption demo_still demo_oidc_db = (Inr t, e', w') \<and>
     spent_credential demo_oidc (CodeOf ''c0de'') w' \<and> source ''app'' 3 1 [''mail''] w'"
proof -
  obtain t e' w' where run: "redeem demo_oidc demo_redemption demo_still demo_oidc_db = (Inr t, e', w')" using demo_redeems by blast
  from redemption_is_earned [OF run] obtain user tenant scopes where
    "earned demo_oidc demo_redemption (e_clock demo_still (e_ticks demo_still)) demo_oidc_db user tenant scopes"
    and "spent_credential demo_oidc (credential_of demo_redemption) w'" "source (redeemer demo_redemption) user tenant scopes w'"
    using demo_oidc_ok by blast
  moreover from this(1) have "user = 3 \<and> tenant = 1 \<and> scopes = [''mail'']"
    by (auto simp: demo_redemption_def demo_oidc_db_def demo_auth_code_def)
  ultimately show ?thesis using run by (auto simp: demo_redemption_def)
qed

theorem credentials_work_once_witness:
  "\<exists>t e' w'. redeem demo_oidc demo_redemption demo_still demo_oidc_db = (Inr t, e', w') \<and>
     (\<exists>err e2 w2. redeem demo_oidc demo_redemption demo_still w' = (Inl err, e2, w2))"
proof -
  have s: "oh_service demo_oidc_handler = demo_oidc" by (simp add: demo_oidc_handler_def)
  obtain t e' w' where run: "redeem (oh_service demo_oidc_handler) demo_redemption demo_still demo_oidc_db = (Inr t, e', w')"
    using demo_redeems unfolding s by blast
  obtain res e2 w2 where again: "redeem demo_oidc demo_redemption demo_still w' = (res, e2, w2)" by (metis prod_cases3)
  with credentials_work_once [OF demo_notifier_spares demo_oidc_ok run rtranclp.rtrancl_refl refl, of demo_still]
  have "res \<noteq> Inr t2" for t2 unfolding s by blast
  then obtain err where "res = Inl err" by (metis sum.exhaust)
  with run again show ?thesis unfolding s by blast
qed

lemma demo_device_decision:
  "\<exists>res e' w'. oidc_serve demo_oidc_handler (\<lambda>_. None) (demo_request 1 [] []) demo_browser
     (DeviceDecision (Inr (True, ''bbbb-bbbb''))) demo_still demo_oidc_db = (Inr res, e', w') \<and>
     devcode_rows w' = [demo_devcode\<lparr>dv_status := ''authorized'', dv_user := Some 3, dv_approved := Some 7\<rparr>]"
proof -
  have u: "session_user demo_oidc_handler demo_browser demo_still demo_oidc_db =
      (Inr (Some 3), (next_call demo_still)\<lparr>e_ticks := 1\<rparr>, demo_oidc_db)"
    by (simp add: session_user_def demo_browser_def resolve_login_session_def demo_oidc_handler_def demo_oidc_crypto
        find_login_session_def demo_oidc_db_def demo_hosted_def io_run demo_still_def quiet_env_def)
  have n: "normalize_user_code demo_oidc ''bbbb-bbbb'' = ''BBBB-BBBB''" by (simp add: normalize_user_code_def Let_def) code_simp
  have l: "lock_device_by_user_code ''BBBB-BBBB'' demo_oidc_db = Some demo_devcode"
    by (simp add: lock_device_by_user_code_def demo_oidc_db_def demo_devcode_def)
  have d: "\<exists>e' w'. decide_device demo_oidc 3 ''bbbb-bbbb'' True ((next_call demo_still)\<lparr>e_ticks := 1\<rparr>) demo_oidc_db = (Inr (), e', w') \<and>
      devcode_rows w' = [demo_devcode\<lparr>dv_status := ''authorized'', dv_user := Some 3, dv_approved := Some 7\<rparr>]"
    by (simp add: decide_device_def io_run n l demo_devcode_def upsert_consent_def db_exec_def demo_still_def quiet_env_def)
      (simp add: io_run put_consent_def get_consent_def approve_device_def update_device_def user_exists_def user_in_tenant_def
        demo_oidc_db_def demo_user_def demo_devcode_def)
  have s: "oh_service demo_oidc_handler = demo_oidc" by (simp add: demo_oidc_handler_def)
  from d u show ?thesis
    by (auto simp: oidc_serve_def device_decision_handler_def bind_io_def lift_res_def ret_def s)
qed

theorem approvals_are_the_users_witness:
  "\<exists>res e' w' d. oidc_serve demo_oidc_handler (\<lambda>_. None) (demo_request 1 [] []) demo_browser
     (DeviceDecision (Inr (True, ''bbbb-bbbb''))) demo_still demo_oidc_db = (Inr res, e', w') \<and>
     devcode_rows w' = [d] \<and> dv_status d = ''authorized'' \<and> dv_user d = Some 3 \<and>
     session_of demo_oidc_handler demo_browser 7 3 demo_oidc_db \<and> user_in_tenant 3 1 demo_oidc_db"
proof -
  let ?d = "demo_devcode\<lparr>dv_status := ''authorized'', dv_user := Some 3, dv_approved := Some 7\<rparr>"
  obtain res e' w' where run: "oidc_serve demo_oidc_handler (\<lambda>_. None) (demo_request 1 [] []) demo_browser
      (DeviceDecision (Inr (True, ''bbbb-bbbb''))) demo_still demo_oidc_db = (Inr res, e', w')"
    and rows: "devcode_rows w' = [?d]" using demo_device_decision by blast
  have d: "?d \<in> set (devcode_rows w')" "dv_status ?d = ''authorized''" by (simp_all add: rows)
  note a = approvals_are_the_users [OF demo_notifier_spares demo_oidc_ok run refl, THEN conjunct2, THEN conjunct1,
    THEN bspec [OF _ d(1)], THEN mp, OF d(2)]
  have "\<not> (\<exists>d0 \<in> set (devcode_rows demo_oidc_db). dv_id d0 = dv_id ?d \<and> dv_status d0 = ''authorized'' \<and> dv_user d0 = dv_user ?d)"
    by (simp add: demo_oidc_db_def demo_devcode_def)
  with a have "\<exists>u. dv_user ?d = Some u \<and> session_of demo_oidc_handler demo_browser (e_clock demo_still (e_ticks demo_still)) u demo_oidc_db \<and>
      user_in_tenant u (dv_tenant ?d) demo_oidc_db" by blast
  then have "session_of demo_oidc_handler demo_browser 7 3 demo_oidc_db \<and> user_in_tenant 3 1 demo_oidc_db"
    by (simp add: demo_still_def quiet_env_def demo_devcode_def)
  with run rows show ?thesis by (intro exI [of _ res] exI [of _ e'] exI [of _ w'] exI [of _ ?d]) simp
qed

end
