(* ===== verification/Spec2Isabelle.thy ===== *)
theory Spec2Isabelle imports Outbox RebacEnds AbacChanges RbacTenants Authzen AuthHttp SignInWitness MfaWitness OidcWitness begin

text \<open>
  A verification development for the Qeet ID server, a multi-tenant identity provider in Go. Every path
  below is under \<^verbatim>\<open>src/internal/\<close>.

  \<^bold>\<open>The program.\<close> An HTTP request passes the authentication and tenant-scope middleware
  (\<^verbatim>\<open>platform/http/httpx\<close>), which puts a principal into its context, then the route gate
  (\<^verbatim>\<open>access/authorization/rbac/enforce.go\<close> with \<^verbatim>\<open>bootstrap/permissions.go\<close>), which asks the RBAC
  repository whether the principal holds the permission of the route, and reaches a handler. A handler
  calls a service; a service changes stored state in one database transaction, together with a row of the
  hash-chained audit log (\<^verbatim>\<open>operations/audit\<close>) and, in most components, an event in the outbox
  (\<^verbatim>\<open>platform/events/outbox\<close>), which a relay publishes later. Authorization questions are answered by
  three engines: roles (\<^verbatim>\<open>rbac\<close>), relation tuples (\<^verbatim>\<open>rebac\<close>) and attribute policies (\<^verbatim>\<open>abac\<close>).

  \<^bold>\<open>The model.\<close> \<open>Tx\<close> gives an operation the shape of a function from the environment of the process and
  the stored state to an error or a value with both updated. The environment is adversarial: it says
  for every round trip to the database whether it fails, what every clock reading is and which UUID
  every generator call yields. \<open>in_tx\<close> is a transaction with its deferred rollback. The stored state is
  one record that every component extends with its tables (\<open>audit_db\<close>, \<open>outbox_db\<close>, \<open>rebac_db\<close>, \<open>abac_db\<close>,
  \<open>rbac_db\<close>), so that a theorem on one component is a theorem on every larger state. Errors are values
  (\<open>go_error\<close>): the canonical API errors of \<^verbatim>\<open>platform/http/errs\<close>, classified database errors, and others.
  Strings are Go byte strings; integers that can wrap are words or are written out with their range.

  \<^bold>\<open>The theories.\<close>
  \<^item> \<open>Prelude\<close>, \<open>GoStrings\<close>, \<open>GoJson\<close>, \<open>GoTime\<close>: association lists, the string functions of Go that the
    source uses, \<^verbatim>\<open>encoding/json\<close> for the values the source encodes, RFC 3339 times.
  \<^item> \<open>Errs\<close>, \<open>Tx\<close>, \<open>Httpx\<close>: errors, the effect monad with inversion, atomicity, liveness and frame lemmas,
    and the request context with its middleware.
  \<^item> \<open>HashChain\<close>, \<open>AuditLog\<close>, \<open>AuditVerify\<close>: the audit log of \<^verbatim>\<open>recorder.go\<close>, the verifier of
    \<^verbatim>\<open>verify.go\<close>, and what the verifier does and does not detect. \<open>HashChain\<close> is the abstract chain.
  \<^item> \<open>Outbox\<close>: enqueue, the relay's tick with retry and dead letter, the administration of dead letters; an
    invariant of the tables, no loss of events, and the fate of events a consumer rejects.
  \<^item> \<open>Audited\<close>: the contract of the services that change state, as the locales \<open>recorded_change\<close> (a change
    and its audit row) and \<open>announced_change\<close> (also an event). The component theories interpret them on
    their operations and take from them atomicity, the one added row or event, and liveness.
  \<^item> \<open>Rebac\<close>, \<open>RebacCheck\<close>, \<open>RebacProps\<close>, \<open>RebacEnds\<close>: relation tuples. The check is a depth-bounded
    search with a visited set; it is compared with an inductive derivation of grants, and its work is bounded.
  \<^item> \<open>Json\<close>, \<open>AbacCond\<close>, \<open>Abac\<close>, \<open>AbacMeaning\<close>, \<open>AbacProps\<close>, \<open>AbacChanges\<close>: attribute policies, from the
    JSON of a condition and the panics of its evaluation to the decision, the operations and handlers.
  \<^item> \<open>Rbac\<close>, \<open>GroupStore\<close>, \<open>RbacHttp\<close>: roles, assignments, groups and members: the queries, the
    repository, the services and the handlers. \<open>RbacTables\<close> is the abstract state machine of these tables
    (\<open>access_change\<close>, \<open>apply_access\<close>, the invariant \<open>access_ok\<close>), \<open>RbacChanges\<close> and \<open>RbacService\<close> refine
    every operation to it, \<open>RbacDecide\<close> relates the three answers on a user's access, \<open>RbacProps\<close>,
    \<open>RbacEffects\<close> and \<open>RbacTenants\<close> hold the properties.
  \<^item> \<open>RouteGate\<close>, \<open>RouteTable\<close>, \<open>RouteProps\<close>: the route patterns as regular expressions, the table of 130
    routes, and the gate. That the table is unambiguous is decided by evaluation, once.

  \<^item> \<open>Authzen\<close>: the decision point of \<^verbatim>\<open>authorization/authzen\<close> over the two engines, with the locales
    \<open>permission_checker\<close> and \<open>decision_engine\<close> for what it asks of them, interpreted on RBAC and ABAC.
  \<^item> \<open>Base64\<close>, \<open>Passwords\<close>, \<open>PasswordProps\<close>: base64 as the source uses it, the password hashes of
    \<^verbatim>\<open>platform/crypto/encryption/password\<close>, their text format and its round trip.
  \<^item> \<open>AuthStore\<close>, \<open>AuthSessions\<close>, \<open>AuthLogin\<close>, \<open>AuthHttp\<close>: the users, sessions, refresh tokens, login
    sessions, password attempts and devices of \<^verbatim>\<open>access/authentication\<close>: the queries, the refresh token
    rotation, sign-up, sign-in, the hosted login with its second step, and the handlers.
  \<^item> \<open>AuthFamilies\<close>, \<open>AuthRefine\<close>, \<open>AuthProps\<close>, \<open>AuthSafety\<close>, \<open>AuthTables\<close>: the abstract token families
    and the refinement of the rotation to them, the typing of the tables, and what no operation does.
  \<^item> \<open>Runs\<close>, \<open>SignIn\<close>, \<open>SignInProps\<close>, \<open>SignInSafety\<close>, \<open>AuthAnswers\<close>: a weakest precondition \<open>wp\<close> for the
    operations and its rules; the lockout counter, what a session proves about the one who opened it, and
    the answers of the operations. \<open>AuthWitness\<close> and \<open>SignInWitness\<close> hold a demonstration service and the
    concrete runs at which the properties of these theories are applied.
  \<^item> \<open>Totp\<close>, \<open>TotpProps\<close>: authenticator codes of \<^verbatim>\<open>platform/crypto/encryption/totp\<close> on words as the
    source computes them, and their equality with the formula of RFC 6238; numeric codes.
  \<^item> \<open>MfaStore\<close>, \<open>Mfa\<close>, \<open>MfaHttp\<close>: the second factors of \<^verbatim>\<open>access/mfa\<close>: queries, service, step-up gate and
    routes. \<open>mfa_enroller_of\<close> is what the authentication service is given of them.
  \<^item> \<open>Triples\<close>, \<open>MfaTables\<close>, \<open>MfaOwn\<close>: partial-correctness triples, the well-formedness of the tables, and
    that a request touches rows of the caller only. \<open>MfaProps\<close> and \<open>MfaSafety\<close> say what an accepted code
    proves and what stays used, \<open>MfaAnswers\<close> what requests answer without faults; \<open>MfaClaims\<close> holds the
    properties and \<open>MfaWitness\<close> a user with an authenticator at whom they are applied.
  \<^item> \<open>OidcStore\<close>, \<open>Oidc\<close>, \<open>OidcDevice\<close>, \<open>OidcHttp\<close>: the OpenID provider of \<^verbatim>\<open>federation/oidc\<close>: clients, codes with
    PKCE, consents, refresh tokens, token exchange, the device and backchannel grants, and the handlers. Access
    tokens are issued by \<open>issue_access_full\<close>; the browser's session is the hosted login session of \<open>AuthLogin\<close>.
  \<^item> \<open>OidcRows\<close>, \<open>OidcRuns\<close>, \<open>OidcRequests\<close>: how the rows of the
    provider may advance. The locale \<open>advancing\<close> says what an order on the rows of a table must satisfy for a key to
    stay settled; it is interpreted on codes, refresh tokens, devices and backchannel requests. Every operation runs
    within an \<open>allowance\<close> that says what the request may approve. \<open>OidcAnswers\<close> inverts a successful redemption,
    \<open>OidcClaims\<close> says what each kind proves and spends and holds the properties, \<open>OidcWitness\<close> a client with a live code and a waiting device at which they are applied.

  \<^bold>\<open>Bounds.\<close> The search of the ReBAC check is bounded by the constant of the code and by the visited set.
  The cascade of a group deletion is computed with as much fuel as there are groups; every round adds a
  group, so the result is closed under the parent key, and it is proved to be the set of descendants.
  All other recursions are structural or have a measure; the verifier, the relay and the handlers return
  for every environment.

  \<^bold>\<open>Parameters.\<close> SHA-256, the text of UUIDs, Postgres' \<^verbatim>\<open>inet\<close> and \<^verbatim>\<open>jsonb\<close> values, collation and
  \<^verbatim>\<open>LOWER\<close>, regular expressions of policies, float rounding, token verification, JSON text of event
  payloads that nothing reads back, the consumer of events, Argon2id and bcrypt, the signing of access
  tokens, HMAC-SHA1, the signature of ID tokens, the parsers of URLs and UUIDs, the delivery of messages, the passkey component, and the second factor, breach list and
  risk engine that a sign-in calls are arguments of the definitions. Where a property relies on them, it says so in a hypothesis and its witness instantiates
  them.

  \<^bold>\<open>Not modelled.\<close> Statements run one after another; the row locks of the source and the interleaving of
  two transactions are not modelled (two sign-ins at the same moment, in particular), nor is the loss of
  a reply to a commit. Logging, metrics, tracing and the time floor of sign-up are left out. Of the OpenID
  provider, the discovery documents, the key set and the login context are not modelled. The other federation
  protocols, the verification and rotation of signing keys, passkeys, webhooks and the reporting services
  are not modelled.
\<close>

end
